(* ===== verification/Prelude.thy ===== *)
theory Prelude
  imports Main "HOL-Library.Word" "HOL-Library.AList"
begin

text \<open>
  Shared vocabulary of the development: the Rust integer types, fallible iteration, the two
  map types of the Rust standard library (\<open>BTreeMap\<close> as a strictly sorted association list,
  \<open>HashMap\<close> as an association list whose order stands for the iteration order), the decimal
  \<open>Display\<close> of unsigned integers, and the generic lemmas the component theories use.
\<close>

named_theorems bt_simps \<open>lookup laws of the ordered map\<close>
named_theorems inv_intro \<open>preservation of a component invariant by one operation\<close>

section \<open>Machine integers\<close>

type_synonym u16 = "16 word"
type_synonym u32 = "32 word"
type_synonym u64 = "64 word"

text \<open>Rust's \<open>saturating_sub\<close> on an unsigned integer.\<close>

definition sat_sub :: "'a::len word \<Rightarrow> 'a word \<Rightarrow> 'a word" where
  "sat_sub a b = (if b \<le> a then a - b else 0)"

lemma unat_sat_sub: "unat (sat_sub a b) = unat a - unat b"
  by (auto simp: sat_sub_def unat_sub word_le_nat_alt)

lemma unat_inc:
  fixes w :: "'a::len word"
  assumes "unat w + 1 < 2 ^ LENGTH('a)"
  shows "unat (w + 1) = unat w + 1"
  using assms by (simp add: unat_word_ariths)

lemma unat_of_nat_small: "n < 2 ^ LENGTH('a::len) \<Longrightarrow> unat (of_nat n :: 'a word) = n"
  by (simp add: unsigned_of_nat take_bit_nat_eq_self)

lemma of_nat_word_less:
  "m < 2 ^ LENGTH('a::len) \<Longrightarrow> n < 2 ^ LENGTH('a) \<Longrightarrow> (of_nat m :: 'a word) < of_nat n \<longleftrightarrow> m < n"
  by (simp add: word_less_nat_alt unat_of_nat_small)

lemma of_nat_word_le:
  "m < 2 ^ LENGTH('a::len) \<Longrightarrow> n < 2 ^ LENGTH('a) \<Longrightarrow> (of_nat m :: 'a word) \<le> of_nat n \<longleftrightarrow> m \<le> n"
  by (simp add: word_le_nat_alt unat_of_nat_small)

lemma of_nat_word_inj:
  assumes "m < 2 ^ LENGTH('a::len)" and "n < 2 ^ LENGTH('a)"
  shows "(of_nat m :: 'a word) = of_nat n \<longleftrightarrow> m = n"
proof -
  have "unat (of_nat m :: 'a word) = m" "unat (of_nat n :: 'a word) = n"
    using assms by (simp_all add: unsigned_of_nat take_bit_nat_eq_self)
  then show ?thesis by metis
qed

section \<open>Fallible iteration\<close>

fun try_map :: "('a \<Rightarrow> 'e + 'b) \<Rightarrow> 'a list \<Rightarrow> 'e + 'b list" where
  "try_map f [] = Inr []"
| "try_map f (x # xs) =
     (case f x of
        Inl e \<Rightarrow> Inl e
      | Inr y \<Rightarrow> (case try_map f xs of Inl e \<Rightarrow> Inl e | Inr ys \<Rightarrow> Inr (y # ys)))"

lemma try_map_Inr_iff:
  "try_map f xs = Inr ys \<longleftrightarrow> list_all2 (\<lambda>x y. f x = Inr y) xs ys"
proof (induction xs arbitrary: ys)
  case Nil
  then show ?case by auto
next
  case (Cons x xs)
  show ?case
    by (cases ys) (auto simp flip: Cons.IH split: sum.splits)
qed

lemma find_append:
  "find P (xs @ ys) = (case find P xs of None \<Rightarrow> find P ys | Some x \<Rightarrow> Some x)"
  by (induction xs) auto

section \<open>Ordered maps\<close>

text \<open>
  A \<open>BTreeMap\<close> is the list of its entries in key order. \<open>bt_insert\<close> replaces the value of a
  present key, as \<open>BTreeMap::insert\<close> does.
\<close>

type_synonym ('k, 'v) btree = "('k \<times> 'v) list"

fun bt_insert :: "'k::linorder \<Rightarrow> 'v \<Rightarrow> ('k, 'v) btree \<Rightarrow> ('k, 'v) btree" where
  "bt_insert k v [] = [(k, v)]"
| "bt_insert k v ((k', v') # m) =
     (if k < k' then (k, v) # (k', v') # m
      else if k = k' then (k, v) # m
      else (k', v') # bt_insert k v m)"

definition bt_ok :: "('k::linorder, 'v) btree \<Rightarrow> bool" where
  "bt_ok m \<longleftrightarrow> sorted_wrt (<) (map fst m)"

text \<open>\<open>get_mut\<close> followed by an update in place; absent keys leave the map alone.\<close>

definition adjust :: "'k \<Rightarrow> ('v \<Rightarrow> 'v) \<Rightarrow> ('k \<times> 'v) list \<Rightarrow> ('k \<times> 'v) list" where
  "adjust k f m = map (\<lambda>(k', v). (k', if k' = k then f v else v)) m"

lemma set_bt_insert_keys: "fst ` set (bt_insert k v m) = insert k (fst ` set m)"
  by (induction k v m rule: bt_insert.induct) auto

lemma bt_ok_Nil [simp]: "bt_ok []"
  by (simp add: bt_ok_def)

lemma bt_ok_insert [simp, intro]: "bt_ok m \<Longrightarrow> bt_ok (bt_insert k v m)"
proof (induction k v m rule: bt_insert.induct)
  case (2 k v k' v' m)
  then show ?case
    using set_bt_insert_keys [of k v m] by (auto simp: bt_ok_def)
qed (simp add: bt_ok_def)

lemma bt_ok_distinct: "bt_ok m \<Longrightarrow> distinct (map fst m)"
  unfolding bt_ok_def by (simp add: strict_sorted_iff)

lemma bt_get_insert [bt_simps]:
  "map_of (bt_insert k v m) = (map_of m)(k \<mapsto> v)"
  by (induction k v m rule: bt_insert.induct) (auto simp: fun_eq_iff)

lemma keys_adjust [simp]: "map fst (adjust k f m) = map fst m"
  by (auto simp: adjust_def)

lemma dom_adjust_image [simp]: "fst ` set (adjust k f m) = fst ` set m"
  using keys_adjust [of k f m] by (metis list.set_map)

lemma bt_ok_adjust [simp]: "bt_ok (adjust k f m) = bt_ok m"
  by (simp add: bt_ok_def)

lemma map_of_adjust [bt_simps]:
  "map_of (adjust k f m) k' = (if k' = k then map_option f (map_of m k) else map_of m k')"
  by (induction m) (auto simp: adjust_def)

lemma length_adjust [simp]: "length (adjust k f m) = length m"
  by (simp add: adjust_def)

lemma adjust_absent: "map_of m k = None \<Longrightarrow> adjust k f m = m"
  by (induction m) (auto simp: adjust_def split: if_splits)

lemma adjust_id: "(\<And>v. map_of m k = Some v \<Longrightarrow> f v = v) \<Longrightarrow> distinct (map fst m) \<Longrightarrow> adjust k f m = m"
  by (auto simp: adjust_def intro!: map_idI)

lemma adjust_same [simp]: "adjust k id m = m"
  by (induction m) (auto simp: adjust_def)

lemma adjust_nth: "i < length m \<Longrightarrow>
    adjust k f m ! i = (fst (m ! i), if fst (m ! i) = k then f (snd (m ! i)) else snd (m ! i))"
  by (simp add: adjust_def case_prod_unfold)

lemma in_set_adjust:
  "(k', v') \<in> set (adjust k f m) \<longleftrightarrow> (\<exists>v. (k', v) \<in> set m \<and> v' = (if k' = k then f v else v))"
  by (induction m) (auto simp: adjust_def)

text \<open>Building a map by inserting a list of entries with distinct keys.\<close>

lemma bt_ok_fold_insert: "bt_ok m \<Longrightarrow> bt_ok (fold (\<lambda>x m. bt_insert (f x) (g x) m) xs m)"
  by (induction xs arbitrary: m) auto

lemma find_key_iff:
  "distinct (map f xs) \<Longrightarrow> find (\<lambda>x. f x = k) xs = Some x \<longleftrightarrow> x \<in> set xs \<and> f x = k"
proof (induction xs)
  case (Cons y ys)
  then have "f y \<notin> f ` set ys" by simp
  with Cons show ?case by (cases "f y = k") (auto simp: image_iff)
qed simp

lemma map_of_fold_insert:
  "distinct (map f xs) \<Longrightarrow> map_of (fold (\<lambda>x m. bt_insert (f x) (g x) m) xs m) k =
     (case find (\<lambda>x. f x = k) xs of None \<Rightarrow> map_of m k | Some x \<Rightarrow> Some (g x))"
proof (induction xs arbitrary: m)
  case (Cons x xs)
  show ?case
  proof (cases "f x = k")
    case True
    with Cons.prems have "\<forall>y\<in>set xs. f y \<noteq> k" by (auto simp: image_iff)
    then have "find (\<lambda>x. f x = k) xs = None" by (simp add: find_None_iff)
    with True Cons show ?thesis by (simp add: bt_get_insert)
  next
    case False
    with Cons show ?thesis by (simp add: bt_get_insert split: option.split)
  qed
qed simp

text \<open>Lists concatenated over a map, whose elements carry the key they come from.\<close>

lemma distinct_concat_keyed:
  "distinct (map fst xs) \<Longrightarrow> (\<And>x. x \<in> set xs \<Longrightarrow> distinct (f x)) \<Longrightarrow>
     (\<And>x y. x \<in> set xs \<Longrightarrow> y \<in> set (f x) \<Longrightarrow> key y = fst x) \<Longrightarrow> distinct (concat (map f xs))"
proof (induction xs)
  case (Cons x xs)
  have "key y \<in> fst ` set xs" if y: "y \<in> set (concat (map f xs))" for y
  proof -
    from y obtain z where "z \<in> set xs" "y \<in> set (f z)" by auto
    with Cons.prems(3) [of z y] show ?thesis by auto
  qed
  moreover have "key y = fst x" if "y \<in> set (f x)" for y using that Cons.prems(3) by simp
  moreover have "fst x \<notin> fst ` set xs" using Cons.prems(1) by simp
  ultimately have "set (f x) \<inter> set (concat (map f xs)) = {}" by (metis disjoint_iff)
  moreover have "distinct (concat (map f xs))"
    by (rule Cons.IH) (use Cons.prems in auto)
  ultimately show ?case using Cons.prems(2) [of x] by simp
qed simp

section \<open>Decimal display\<close>

fun show_nat :: "nat \<Rightarrow> string" where
  "show_nat n =
     (if n < 10 then [char_of (48 + n)]
      else show_nat (n div 10) @ [char_of (48 + n mod 10)])"

declare show_nat.simps [simp del]

definition show_word :: "'a::len word \<Rightarrow> string" where
  "show_word w = show_nat (unat w)"

definition read_nat :: "string \<Rightarrow> nat" where
  "read_nat s = foldl (\<lambda>a c. 10 * a + (of_char c - 48)) 0 s"

lemma of_char_digit: "d < 10 \<Longrightarrow> (of_char (char_of (48 + d :: nat)) :: nat) = 48 + d"
  by simp

lemma read_show_nat [simp]: "read_nat (show_nat n) = n"
proof (induction n rule: show_nat.induct)
  case (1 n)
  show ?case
  proof (cases "n < 10")
    case True
    then show ?thesis by (subst show_nat.simps) (simp add: read_nat_def of_char_digit)
  next
    case False
    with 1 have IH: "read_nat (show_nat (n div 10)) = n div 10" by simp
    have "read_nat (show_nat n) =
        10 * read_nat (show_nat (n div 10)) + (of_char (char_of (48 + n mod 10)) - 48)"
      using False by (subst show_nat.simps) (simp add: read_nat_def)
    also have "\<dots> = 10 * (n div 10) + n mod 10"
      using IH of_char_digit [of "n mod 10"] by simp
    finally show ?thesis by simp
  qed
qed

lemma show_nat_inj: "show_nat m = show_nat n \<longleftrightarrow> m = n"
  by (metis read_show_nat)

lemma show_word_inj: "show_word v = show_word w \<longleftrightarrow> v = w"
  by (simp add: show_word_def show_nat_inj word_unat_eq_iff)

lemma set_show_nat: "set (show_nat n) \<subseteq> (\<lambda>d. char_of (48 + d)) ` {0..<10::nat}"
proof (induction n rule: show_nat.induct)
  case (1 n)
  then show ?case by (subst show_nat.simps) auto
qed

lemma slash_notin_show [simp]: "CHR ''/'' \<notin> set (show_word w)"
proof
  assume "CHR ''/'' \<in> set (show_word w)"
  with set_show_nat obtain d :: nat where "d < 10" "CHR ''/'' = char_of (48 + d)"
    unfolding show_word_def by fastforce
  then have "(of_char (CHR ''/'') :: nat) = 48 + d"
    using of_char_digit by metis
  then show False by simp
qed

text \<open>Two splits of a string at its last separator agree.\<close>

lemma last_split_unique:
  assumes "xs @ c # ys = xs' @ c # ys'" and "c \<notin> set ys" and "c \<notin> set ys'"
  shows "xs = xs' \<and> ys = ys'"
proof -
  have tw: "takeWhile (\<lambda>x. x \<noteq> c) (rev zs @ c # ws) = rev zs" if "c \<notin> set zs" for zs ws
    using that by (subst takeWhile_append2) auto
  have eq: "rev ys @ c # rev xs = rev ys' @ c # rev xs'"
    using arg_cong [OF assms(1), of rev] by simp
  with tw [OF assms(2), of "rev xs"] tw [OF assms(3), of "rev xs'"] have "rev ys = rev ys'"
    by simp
  with eq show ?thesis by simp
qed

end
