(* ===== verification/Forge_Proto.thy ===== *)
theory Forge_Proto
  imports Prelude
begin

text \<open>
  The messages of the Forge protocol the scheduler handles (\<open>forge-proto\<close>) and the engine's
  error type (\<open>forge-common\<close>). Rust strings are byte strings here.
\<close>

section \<open>Errors\<close>

text \<open>\<open>ForgeError\<close>; the payload of a wrapped third-party error is its message.\<close>

datatype forge_error =
    Planning string
  | Execution string
  | Shuffle string
  | SchedulerErr string
  | CatalogErr string
  | NotFound string
  | InvalidArgument string
  | Cancelled
  | Io string
  | DataFusion string
  | Arrow string
  | Transport string
  | Internal string

text \<open>The \<open>Display\<close> that \<open>thiserror\<close> derives from the \<open>#[error(...)]\<close> attributes.\<close>

fun show_forge_error :: "forge_error \<Rightarrow> string" where
  "show_forge_error (Planning m) = ''planning error: '' @ m"
| "show_forge_error (Execution m) = ''execution error: '' @ m"
| "show_forge_error (Shuffle m) = ''shuffle error: '' @ m"
| "show_forge_error (SchedulerErr m) = ''scheduler error: '' @ m"
| "show_forge_error (CatalogErr m) = ''catalog error: '' @ m"
| "show_forge_error (NotFound m) = ''not found: '' @ m"
| "show_forge_error (InvalidArgument m) = ''invalid argument: '' @ m"
| "show_forge_error Cancelled = ''cancelled''"
| "show_forge_error (Io m) = ''io error: '' @ m"
| "show_forge_error (DataFusion m) = ''datafusion error: '' @ m"
| "show_forge_error (Arrow m) = ''arrow error: '' @ m"
| "show_forge_error (Transport m) = ''transport error: '' @ m"
| "show_forge_error (Internal m) = ''internal error: '' @ m"

section \<open>Task identities\<close>

record task_id =
  tid_job :: string
  tid_stage :: u32
  tid_partition :: u32
  tid_attempt :: u32

text \<open>\<open>impl Display for TaskId\<close>: the key under which executors track running tasks.\<close>

definition show_task_id :: "task_id \<Rightarrow> string" where
  "show_task_id t =
     tid_job t @ ''/s'' @ show_word (tid_stage t)
       @ ''/p'' @ show_word (tid_partition t) @ ''/a'' @ show_word (tid_attempt t)"

lemma show_task_id_inj: "show_task_id s = show_task_id t \<longleftrightarrow> s = t"
proof
  assume "show_task_id s = show_task_id t"
  then have 1: "(tid_job s @ ''/s'' @ show_word (tid_stage s) @ ''/p'' @ show_word (tid_partition s))
        @ CHR ''/'' # (CHR ''a'' # show_word (tid_attempt s))
      = (tid_job t @ ''/s'' @ show_word (tid_stage t) @ ''/p'' @ show_word (tid_partition t))
        @ CHR ''/'' # (CHR ''a'' # show_word (tid_attempt t))"
    by (simp add: show_task_id_def)
  from last_split_unique [OF this]
  have 2: "(tid_job s @ ''/s'' @ show_word (tid_stage s)) @ CHR ''/'' # (CHR ''p'' # show_word (tid_partition s))
      = (tid_job t @ ''/s'' @ show_word (tid_stage t)) @ CHR ''/'' # (CHR ''p'' # show_word (tid_partition t))"
    and att: "tid_attempt s = tid_attempt t"
    by (simp_all add: show_word_inj)
  from last_split_unique [OF 2]
  have 3: "tid_job s @ CHR ''/'' # (CHR ''s'' # show_word (tid_stage s))
      = tid_job t @ CHR ''/'' # (CHR ''s'' # show_word (tid_stage t))"
    and part: "tid_partition s = tid_partition t"
    by (simp_all add: show_word_inj)
  from last_split_unique [OF 3] have "tid_job s = tid_job t" and "tid_stage s = tid_stage t"
    by (simp_all add: show_word_inj)
  with att part show "s = t" by simp
qed simp

section \<open>Shuffle locations, metrics and status reports\<close>

record location =
  loc_map_partition :: u32
  loc_output_partition :: u32
  loc_executor_id :: string
  loc_executor_addr :: string
  loc_path :: string
  loc_num_rows :: u64
  loc_num_bytes :: u64
  loc_num_batches :: u32

record task_metrics =
  tm_output_rows :: u64
  tm_output_bytes :: u64
  tm_elapsed_compute_ns :: u64
  tm_spilled_bytes :: u64
  tm_start_ms :: u64
  tm_end_ms :: u64

text \<open>The protobuf default message, which \<open>Default::default()\<close> builds.\<close>

definition default_metrics :: task_metrics where
  "default_metrics =
     \<lparr>tm_output_rows = 0, tm_output_bytes = 0, tm_elapsed_compute_ns = 0,
      tm_spilled_bytes = 0, tm_start_ms = 0, tm_end_ms = 0\<rparr>"

end
