(* ===== verification/Forge_Executors.thy ===== *)
theory Forge_Executors
  imports Forge_Proto "HOL-Library.AList"
begin

text \<open>
  The registry of live executors (\<open>forge-scheduler/src/executors.rs\<close>) and the contract its slot
  accounting gives the dispatcher.

  A \<open>DashMap\<close> is an association list with distinct keys, whose order stands for the map's
  unspecified iteration order; a \<open>HashSet\<close> of task names is a list without duplicates. The gRPC
  clients kept beside the entries are connections and are not modelled. The clock is an argument.
\<close>

section \<open>State\<close>

record executor_metadata =
  em_id :: string
  em_host :: string
  em_port :: u32
  em_task_slots :: u32
  em_labels :: "(string \<times> string) list"

record executor_resources =
  er_total_memory_bytes :: u64
  er_available_memory_bytes :: u64
  er_cpu_cores :: u32
  er_free_task_slots :: u32

record executor_entry =
  ee_metadata :: executor_metadata
  ee_resources :: executor_resources
  ee_last_heartbeat_ms :: u64
  ee_running :: "string list"
  ee_completed_tasks :: u64
  ee_failed_tasks :: u64
  ee_purge_jobs :: "string list"

type_synonym registry = "(string \<times> executor_entry) list"

definition executor_addr :: "executor_entry \<Rightarrow> string" where
  "executor_addr e = ''http://'' @ em_host (ee_metadata e) @ '':'' @ show_word (em_port (ee_metadata e))"

definition free_slots :: "executor_entry \<Rightarrow> u32" where
  "free_slots e = sat_sub (em_task_slots (ee_metadata e)) (of_nat (length (ee_running e)))"

record executor_info =
  ei_metadata :: "executor_metadata option"
  ei_resources :: "executor_resources option"
  ei_last_heartbeat_ms :: u64
  ei_running_tasks :: u32
  ei_completed_tasks :: u64
  ei_failed_tasks :: u64

definition executor_info_of :: "executor_entry \<Rightarrow> executor_info" where
  "executor_info_of e =
     \<lparr>ei_metadata = Some (ee_metadata e), ei_resources = Some (ee_resources e),
      ei_last_heartbeat_ms = ee_last_heartbeat_ms e,
      ei_running_tasks = of_nat (length (ee_running e)),
      ei_completed_tasks = ee_completed_tasks e, ei_failed_tasks = ee_failed_tasks e\<rparr>"

section \<open>Operations\<close>

definition reg_register :: "u64 \<Rightarrow> executor_metadata \<Rightarrow> executor_resources \<Rightarrow> registry \<Rightarrow> registry" where
  "reg_register now metadata resources reg = AList.update (em_id metadata)
     \<lparr>ee_metadata = metadata, ee_resources = resources, ee_last_heartbeat_ms = now, ee_running = [],
      ee_completed_tasks = 0, ee_failed_tasks = 0, ee_purge_jobs = []\<rparr> reg"

definition reg_heartbeat ::
  "u64 \<Rightarrow> string \<Rightarrow> executor_resources option \<Rightarrow> registry \<Rightarrow> string list option \<times> registry" where
  "reg_heartbeat now i resources reg =
     (case map_of reg i of
        None \<Rightarrow> (None, reg)
      | Some e \<Rightarrow>
          (Some (ee_purge_jobs e),
           adjust i (\<lambda>e. e\<lparr>ee_last_heartbeat_ms := now,
                          ee_resources := (case resources of None \<Rightarrow> ee_resources e | Some r \<Rightarrow> r),
                          ee_purge_jobs := []\<rparr>) reg))"

definition reg_remove :: "string \<Rightarrow> registry \<Rightarrow> executor_entry option \<times> registry" where
  "reg_remove i reg = (map_of reg i, AList.delete i reg)"

definition reg_list :: "registry \<Rightarrow> executor_entry list" where
  "reg_list reg = map snd reg"

definition total_slots :: "registry \<Rightarrow> u32 \<times> u32" where
  "total_slots reg = fold (\<lambda>(_, e) (total, free). (total + em_task_slots (ee_metadata e), free + free_slots e))
     reg (0, 0)"

definition task_started :: "string \<Rightarrow> task_id \<Rightarrow> registry \<Rightarrow> registry" where
  "task_started i tid = adjust i (\<lambda>e. e\<lparr>ee_running := List.insert (show_task_id tid) (ee_running e)\<rparr>)"

definition task_finished :: "string \<Rightarrow> task_id \<Rightarrow> bool \<Rightarrow> registry \<Rightarrow> registry" where
  "task_finished i tid ok = adjust i (\<lambda>e.
     let e = e\<lparr>ee_running := removeAll (show_task_id tid) (ee_running e)\<rparr>
     in if ok then e\<lparr>ee_completed_tasks := ee_completed_tasks e + 1\<rparr>
        else e\<lparr>ee_failed_tasks := ee_failed_tasks e + 1\<rparr>)"

definition schedule_purge :: "string \<Rightarrow> registry \<Rightarrow> registry" where
  "schedule_purge job_id reg = map (\<lambda>(i, e). (i, e\<lparr>ee_purge_jobs := ee_purge_jobs e @ [job_id]\<rparr>)) reg"

definition reg_stale :: "u64 \<Rightarrow> u64 \<Rightarrow> registry \<Rightarrow> string list" where
  "reg_stale now timeout_ms reg =
     (let cutoff = sat_sub now timeout_ms
      in map (\<lambda>e. em_id (ee_metadata e)) (filter (\<lambda>e. ee_last_heartbeat_ms e < cutoff) (map snd reg)))"

section \<open>The invariant\<close>

text \<open>Entries are kept under their own id, no task is counted twice, and no executor runs more
  tasks than it has slots.\<close>

definition entry_ok :: "string \<Rightarrow> executor_entry \<Rightarrow> bool" where
  "entry_ok i e \<longleftrightarrow> em_id (ee_metadata e) = i \<and> distinct (ee_running e) \<and>
     length (ee_running e) \<le> unat (em_task_slots (ee_metadata e))"

definition reg_ok :: "registry \<Rightarrow> bool" where
  "reg_ok reg \<longleftrightarrow> distinct (map fst reg) \<and> (\<forall>(i, e)\<in>set reg. entry_ok i e)"

lemma reg_ok_distinct: "reg_ok reg \<Longrightarrow> distinct (map fst reg)"
  by (simp add: reg_ok_def)

lemma reg_ok_entry: "reg_ok reg \<Longrightarrow> map_of reg i = Some e \<Longrightarrow> entry_ok i e"
  by (auto simp: reg_ok_def dest: map_of_SomeD)

lemma reg_okI:
  "distinct (map fst reg) \<Longrightarrow> (\<And>i e. map_of reg i = Some e \<Longrightarrow> entry_ok i e) \<Longrightarrow> reg_ok reg"
  by (auto simp: reg_ok_def)

lemma map_fst_adjust [simp]: "map fst (adjust k f m) = map fst m"
  by (auto simp: adjust_def)

lemma reg_ok_adjust:
  assumes "reg_ok reg" and "\<And>e. map_of reg i = Some e \<Longrightarrow> entry_ok i e \<Longrightarrow> entry_ok i (f e)"
  shows "reg_ok (adjust i f reg)"
  using assms reg_ok_entry [OF assms(1)]
  by (intro reg_okI) (auto simp: reg_ok_def map_of_adjust split: if_splits)

lemma reg_register_ok [inv_intro]: "reg_ok reg \<Longrightarrow> reg_ok (reg_register now md rs reg)"
  by (rule reg_okI)
    (auto simp: reg_register_def reg_ok_def update_conv' entry_ok_def distinct_update split: if_splits
      dest!: map_of_SomeD)

lemma reg_heartbeat_ok [inv_intro]: "reg_ok reg \<Longrightarrow> reg_ok (snd (reg_heartbeat now i rs reg))"
  by (auto simp: reg_heartbeat_def entry_ok_def split: option.split intro!: reg_ok_adjust)

lemma reg_remove_ok [inv_intro]: "reg_ok reg \<Longrightarrow> reg_ok (snd (reg_remove i reg))"
  by (rule reg_okI)
    (auto simp: reg_remove_def distinct_delete delete_conv' reg_ok_def split: if_splits dest!: map_of_SomeD)

lemma task_finished_ok [inv_intro]: "reg_ok reg \<Longrightarrow> reg_ok (task_finished i tid ok reg)"
  unfolding task_finished_def
  by (rule reg_ok_adjust)
    (auto simp: entry_ok_def Let_def distinct_removeAll length_removeAll_less_eq intro: order_trans [OF length_removeAll_less_eq])

lemma schedule_purge_ok [inv_intro]: "reg_ok reg \<Longrightarrow> reg_ok (schedule_purge job reg)"
  by (auto simp: reg_ok_def schedule_purge_def comp_def case_prod_unfold entry_ok_def)

section \<open>The slot contract\<close>

text \<open>
  What the dispatcher relies on: starting a task occupies at most one slot of the executor it is
  started on and none of any other, and changes no capacity. Any sequence of starts that respects
  the slots that were free then keeps every executor within its capacity.
\<close>

locale slot_accounting =
  fixes used :: "'r \<Rightarrow> 'e \<Rightarrow> nat"
    and cap :: "'r \<Rightarrow> 'e \<Rightarrow> nat"
    and start :: "'e \<Rightarrow> 't \<Rightarrow> 'r \<Rightarrow> 'r"
  assumes start_used: "used (start e t r) e' \<le> used r e' + (if e' = e then 1 else 0)"
    and start_cap: "cap (start e t r) e' = cap r e'"
begin

definition starts :: "('e \<times> 't) list \<Rightarrow> 'r \<Rightarrow> 'r" where
  "starts ps = fold (\<lambda>(e, t). start e t) ps"

lemma starts_used: "used (starts ps r) e \<le> used r e + count_list (map fst ps) e"
proof (induction ps arbitrary: r)
  case (Cons p ps)
  obtain e' t where p: "p = (e', t)" by (cases p)
  show ?case
    using Cons.IH [of "start e' t r"] start_used [of e' t r e] by (auto simp: starts_def p)
qed (simp add: starts_def)

lemma starts_cap: "cap (starts ps r) e = cap r e"
  by (induction ps arbitrary: r) (auto simp: starts_def start_cap)

lemma starts_keep: "(\<And>e t r. P r \<Longrightarrow> P (start e t r)) \<Longrightarrow> P r \<Longrightarrow> P (starts ps r)"
  by (induction ps arbitrary: r) (auto simp: starts_def)

lemma starts_within:
  "used r e \<le> cap r e \<Longrightarrow> count_list (map fst ps) e \<le> cap r e - used r e \<Longrightarrow>
     used (starts ps r) e \<le> cap (starts ps r) e"
  using starts_used [of ps r e] by (simp add: starts_cap)

end

definition slots_used :: "registry \<Rightarrow> string \<Rightarrow> nat" where
  "slots_used reg i = (case map_of reg i of None \<Rightarrow> 0 | Some e \<Rightarrow> length (ee_running e))"

definition slots_cap :: "registry \<Rightarrow> string \<Rightarrow> nat" where
  "slots_cap reg i = (case map_of reg i of None \<Rightarrow> 0 | Some e \<Rightarrow> unat (em_task_slots (ee_metadata e)))"

interpretation reg_slots: slot_accounting slots_used slots_cap task_started
  by unfold_locales
    (auto simp: slots_used_def slots_cap_def task_started_def map_of_adjust List.insert_def split: option.split)

lemma reg_ok_slots: "reg_ok reg \<Longrightarrow> slots_used reg i \<le> slots_cap reg i"
  by (auto simp: slots_used_def slots_cap_def entry_ok_def split: option.split dest: reg_ok_entry)

lemma unat_free_slots:
  assumes "entry_ok i e"
  shows "unat (free_slots e) = unat (em_task_slots (ee_metadata e)) - length (ee_running e)"
proof -
  have "length (ee_running e) < 2 ^ 32"
    using assms unsigned_less [where 'a = nat, of "em_task_slots (ee_metadata e)"] by (simp add: entry_ok_def)
  then show ?thesis
    unfolding free_slots_def by (simp add: unat_sat_sub unat_of_nat_small)
qed

lemma free_slots_gap:
  assumes "reg_ok reg" and "map_of reg i = Some e"
  shows "unat (free_slots e) = slots_cap reg i - slots_used reg i"
  using unat_free_slots [OF reg_ok_entry [OF assms]] assms(2) by (simp add: slots_cap_def slots_used_def)

text \<open>Started within the free slots, the registry keeps its invariant.\<close>

definition reg_shape :: "registry \<Rightarrow> bool" where
  "reg_shape reg \<longleftrightarrow> distinct (map fst reg) \<and>
     (\<forall>i e. map_of reg i = Some e \<longrightarrow> em_id (ee_metadata e) = i \<and> distinct (ee_running e))"

lemma task_started_shape: "reg_shape reg \<Longrightarrow> reg_shape (task_started i t reg)"
  by (auto simp: reg_shape_def task_started_def map_of_adjust)

lemma reg_ok_shape: "reg_ok reg \<longleftrightarrow> reg_shape reg \<and> (\<forall>i. slots_used reg i \<le> slots_cap reg i)"
  by (auto simp: reg_shape_def slots_used_def slots_cap_def entry_ok_def reg_ok_distinct dest: reg_ok_entry
      split: option.splits intro!: reg_okI)

lemma starts_ok:
  assumes "reg_ok reg" and "\<And>i. count_list (map fst ps) i \<le> slots_cap reg i - slots_used reg i"
  shows "reg_ok (reg_slots.starts ps reg)"
  using assms reg_slots.starts_keep [of reg_shape, OF task_started_shape] reg_slots.starts_within
  by (simp add: reg_ok_shape)

end
