(* ===== verification/Forge_Config.thy ===== *)
theory Forge_Config
  imports Strings "HOL-Library.Multiset"
begin

text \<open>
  The session settings driver and executors share (\<open>forge-common/src/config.rs\<close>): the keys and
  their Spark aliases, the settings read from a map or from the environment, and the map the driver
  sends with every task. \<open>usize\<close> is the 64-bit one; a \<open>HashMap\<close> is an association list whose order
  is arbitrary.
\<close>

section \<open>Keys\<close>

definition SHUFFLE_PARTITIONS :: string where "SHUFFLE_PARTITIONS = ''forge.sql.shuffle.partitions''"
definition BATCH_SIZE :: string where "BATCH_SIZE = ''forge.sql.execution.batchSize''"
definition TARGET_PARTITIONS :: string where "TARGET_PARTITIONS = ''forge.sql.files.targetPartitions''"
definition TASK_MAX_RETRIES :: string where "TASK_MAX_RETRIES = ''forge.task.maxRetries''"
definition ADAPTIVE_ENABLED :: string where "ADAPTIVE_ENABLED = ''forge.sql.adaptive.enabled''"
definition ADAPTIVE_COALESCE_TARGET_BYTES :: string where "ADAPTIVE_COALESCE_TARGET_BYTES = ''forge.sql.adaptive.coalesceTargetBytes''"
definition SPECULATION_ENABLED :: string where "SPECULATION_ENABLED = ''forge.speculation.enabled''"
definition MEMORY_LIMIT_BYTES :: string where "MEMORY_LIMIT_BYTES = ''forge.memory.limitBytes''"
definition DEFAULT_CATALOG :: string where "DEFAULT_CATALOG = ''forge.sql.defaultCatalog''"
definition DEFAULT_SCHEMA :: string where "DEFAULT_SCHEMA = ''forge.sql.defaultSchema''"
definition WAREHOUSE_DIR :: string where "WAREHOUSE_DIR = ''forge.sql.warehouse.dir''"

lemmas key_defs = SHUFFLE_PARTITIONS_def BATCH_SIZE_def TARGET_PARTITIONS_def TASK_MAX_RETRIES_def
  ADAPTIVE_ENABLED_def ADAPTIVE_COALESCE_TARGET_BYTES_def SPECULATION_ENABLED_def MEMORY_LIMIT_BYTES_def
  DEFAULT_CATALOG_def DEFAULT_SCHEMA_def WAREHOUSE_DIR_def

definition normalize_key :: "string \<Rightarrow> string" where
  "normalize_key key =
     (if key = ''spark.sql.shuffle.partitions'' then SHUFFLE_PARTITIONS
      else if key = ''spark.sql.adaptive.enabled'' then ADAPTIVE_ENABLED
      else if key = ''spark.task.maxFailures'' then TASK_MAX_RETRIES
      else if key = ''spark.speculation'' then SPECULATION_ENABLED
      else if key = ''spark.sql.defaultCatalog'' \<or> key = ''spark.databricks.sql.initial.catalog.name'' then DEFAULT_CATALOG
      else if key = ''spark.sql.defaultSchema'' then DEFAULT_SCHEMA
      else if key = ''spark.sql.warehouse.dir'' then WAREHOUSE_DIR
      else key)"

section \<open>Settings\<close>

record session_settings =
  shuffle_partitions :: u64
  batch_size :: u64
  target_partitions :: u64
  task_max_retries :: u32
  adaptive_enabled :: bool
  adaptive_coalesce_target_bytes :: u64
  speculation_enabled :: bool
  memory_limit_bytes :: "u64 option"
  default_catalog :: "string option"
  default_schema :: "string option"
  warehouse_dir :: "string option"

definition default_settings :: session_settings where
  "default_settings =
     \<lparr>shuffle_partitions = 16, batch_size = 8192, target_partitions = 8, task_max_retries = 3,
      adaptive_enabled = True, adaptive_coalesce_target_bytes = 64 * 1024 * 1024,
      speculation_enabled = False, memory_limit_bytes = None, default_catalog = None,
      default_schema = None, warehouse_dir = None\<rparr>"

definition or_keep :: "'a option \<Rightarrow> 'a \<Rightarrow> 'a" where
  "or_keep x y = (case x of None \<Rightarrow> y | Some v \<Rightarrow> v)"

definition non_empty :: "string \<Rightarrow> string option" where
  "non_empty v = (if v = [] then None else Some v)"

definition apply_setting :: "string \<Rightarrow> string \<Rightarrow> session_settings \<Rightarrow> session_settings" where
  "apply_setting key value s =
     (let k = normalize_key key
      in if k = SHUFFLE_PARTITIONS then s\<lparr>shuffle_partitions := or_keep (parse_word value) (shuffle_partitions s)\<rparr>
         else if k = BATCH_SIZE then s\<lparr>batch_size := or_keep (parse_word value) (batch_size s)\<rparr>
         else if k = TARGET_PARTITIONS then s\<lparr>target_partitions := or_keep (parse_word value) (target_partitions s)\<rparr>
         else if k = TASK_MAX_RETRIES then s\<lparr>task_max_retries := or_keep (parse_word value) (task_max_retries s)\<rparr>
         else if k = ADAPTIVE_ENABLED then s\<lparr>adaptive_enabled := eq_ignore_case value ''true''\<rparr>
         else if k = ADAPTIVE_COALESCE_TARGET_BYTES
         then s\<lparr>adaptive_coalesce_target_bytes := or_keep (parse_word value) (adaptive_coalesce_target_bytes s)\<rparr>
         else if k = SPECULATION_ENABLED then s\<lparr>speculation_enabled := eq_ignore_case value ''true''\<rparr>
         else if k = MEMORY_LIMIT_BYTES then s\<lparr>memory_limit_bytes := parse_word value\<rparr>
         else if k = DEFAULT_CATALOG then s\<lparr>default_catalog := non_empty value\<rparr>
         else if k = DEFAULT_SCHEMA then s\<lparr>default_schema := non_empty value\<rparr>
         else if k = WAREHOUSE_DIR then s\<lparr>warehouse_dir := non_empty value\<rparr>
         else s)"

definition settings_from_map :: "(string \<times> string) list \<Rightarrow> session_settings" where
  "settings_from_map kvs = fold (\<lambda>(k, v). apply_setting k v) kvs default_settings"

definition show_bool :: "bool \<Rightarrow> string" where
  "show_bool b = (if b then ''true'' else ''false'')"

definition opt_entry :: "string \<Rightarrow> string option \<Rightarrow> (string \<times> string) list" where
  "opt_entry k v = (case v of None \<Rightarrow> [] | Some v \<Rightarrow> [(k, v)])"

definition settings_to_map :: "session_settings \<Rightarrow> (string \<times> string) list" where
  "settings_to_map s =
     [(SHUFFLE_PARTITIONS, show_word (shuffle_partitions s)),
      (BATCH_SIZE, show_word (batch_size s)),
      (TARGET_PARTITIONS, show_word (target_partitions s)),
      (TASK_MAX_RETRIES, show_word (task_max_retries s)),
      (ADAPTIVE_ENABLED, show_bool (adaptive_enabled s)),
      (ADAPTIVE_COALESCE_TARGET_BYTES, show_word (adaptive_coalesce_target_bytes s)),
      (SPECULATION_ENABLED, show_bool (speculation_enabled s))] @
     opt_entry DEFAULT_CATALOG (default_catalog s) @
     opt_entry DEFAULT_SCHEMA (default_schema s) @
     opt_entry WAREHOUSE_DIR (warehouse_dir s) @
     opt_entry MEMORY_LIMIT_BYTES (map_option show_word (memory_limit_bytes s))"

section \<open>The environment\<close>

text \<open>The name a conf key is passed under (\<open>lakeforge-cluster-manager/src/local.rs\<close>, \<open>launch\<close>).\<close>

definition conf_env_name :: "string \<Rightarrow> string" where
  "conf_env_name k = ''FORGE_CONF_'' @ to_upper (replace_char CHR ''.'' ''_'' k)"

definition env_key :: "string \<Rightarrow> string option" where
  "env_key name =
     (case strip_prefix name ''FORGE_CONF_'' of
        None \<Rightarrow> None
      | Some rest \<Rightarrow>
          (let key = replace_char CHR ''_'' ''.'' (to_lower rest)
           in Some (if key = ''forge.sql.shuffle.partitions'' then SHUFFLE_PARTITIONS
                    else if key = ''forge.sql.execution.batchsize'' then BATCH_SIZE
                    else if key = ''forge.sql.files.targetpartitions'' then TARGET_PARTITIONS
                    else if key = ''forge.task.maxretries'' then TASK_MAX_RETRIES
                    else if key = ''forge.sql.adaptive.enabled'' then ADAPTIVE_ENABLED
                    else if key = ''forge.sql.adaptive.coalescetargetbytes'' then ADAPTIVE_COALESCE_TARGET_BYTES
                    else if key = ''forge.speculation.enabled'' then SPECULATION_ENABLED
                    else if key = ''forge.memory.limitbytes'' then MEMORY_LIMIT_BYTES
                    else if key = ''forge.sql.defaultcatalog'' then DEFAULT_CATALOG
                    else if key = ''forge.sql.defaultschema'' then DEFAULT_SCHEMA
                    else key)))"

definition env_get :: "string \<Rightarrow> (string \<times> string) list \<Rightarrow> string option" where
  "env_get name env = map_of env name"

definition settings_from_env :: "(string \<times> string) list \<Rightarrow> session_settings" where
  "settings_from_env env =
     fold (\<lambda>(name, v) s. case env_key name of None \<Rightarrow> s | Some k \<Rightarrow> apply_setting k v s) env
       (case Option.bind (env_get ''FORGE_MEMORY_LIMIT_MB'' env) parse_word of
          None \<Rightarrow> default_settings
        | Some mb \<Rightarrow> default_settings\<lparr>memory_limit_bytes := Some (mb * 1024 * 1024)\<rparr>)"

section \<open>Each setting on its own\<close>

text \<open>What \<open>apply_setting\<close> does to each field: it only looks at the field's own key.\<close>

lemmas apply_split = apply_setting_def [unfolded Let_def]

lemma apply_fields:
  "shuffle_partitions (apply_setting k v s) =
     (if normalize_key k = SHUFFLE_PARTITIONS then or_keep (parse_word v) (shuffle_partitions s) else shuffle_partitions s)"
  "batch_size (apply_setting k v s) =
     (if normalize_key k = BATCH_SIZE then or_keep (parse_word v) (batch_size s) else batch_size s)"
  "target_partitions (apply_setting k v s) =
     (if normalize_key k = TARGET_PARTITIONS then or_keep (parse_word v) (target_partitions s) else target_partitions s)"
  "task_max_retries (apply_setting k v s) =
     (if normalize_key k = TASK_MAX_RETRIES then or_keep (parse_word v) (task_max_retries s) else task_max_retries s)"
  "adaptive_enabled (apply_setting k v s) =
     (if normalize_key k = ADAPTIVE_ENABLED then eq_ignore_case v ''true'' else adaptive_enabled s)"
  "adaptive_coalesce_target_bytes (apply_setting k v s) =
     (if normalize_key k = ADAPTIVE_COALESCE_TARGET_BYTES then or_keep (parse_word v) (adaptive_coalesce_target_bytes s)
      else adaptive_coalesce_target_bytes s)"
  "speculation_enabled (apply_setting k v s) =
     (if normalize_key k = SPECULATION_ENABLED then eq_ignore_case v ''true'' else speculation_enabled s)"
  "memory_limit_bytes (apply_setting k v s) =
     (if normalize_key k = MEMORY_LIMIT_BYTES then parse_word v else memory_limit_bytes s)"
  "default_catalog (apply_setting k v s) =
     (if normalize_key k = DEFAULT_CATALOG then non_empty v else default_catalog s)"
  "default_schema (apply_setting k v s) =
     (if normalize_key k = DEFAULT_SCHEMA then non_empty v else default_schema s)"
  "warehouse_dir (apply_setting k v s) =
     (if normalize_key k = WAREHOUSE_DIR then non_empty v else warehouse_dir s)"
  by (simp_all add: apply_split key_defs)

text \<open>A field that only its own key writes, after a run over distinct keys.\<close>

lemma fold_field:
  assumes "\<And>k v s. get (f k v s) = (if norm k = K then g v (get s) else get s)"
    and "distinct (map fst kvs)" and "\<forall>k\<in>fst ` set kvs. norm k = k"
  shows "get (fold (\<lambda>(k, v). f k v) kvs s) = (case map_of kvs K of None \<Rightarrow> get s | Some v \<Rightarrow> g v (get s))"
  using assms(2,3)
proof (induction kvs arbitrary: s)
  case (Cons kv kvs)
  obtain k v where kv: "kv = (k, v)" by (cases kv)
  show ?case
  proof (cases "k = K")
    case True
    with Cons.prems have "map_of kvs K = None" by (simp add: kv map_of_eq_None_iff)
    with True Cons show ?thesis by (simp add: kv assms(1))
  next
    case False
    with Cons.prems(2) have "get (f k v s) = get s" using assms(1) by (simp add: kv)
    with False Cons show ?thesis by (cases "map_of kvs K") (simp_all add: kv)
  qed
qed simp

definition settings_valid :: "session_settings \<Rightarrow> bool" where
  "settings_valid s \<longleftrightarrow> default_catalog s \<noteq> Some [] \<and> default_schema s \<noteq> Some [] \<and> warehouse_dir s \<noteq> Some []"

lemma apply_setting_valid: "settings_valid s \<Longrightarrow> settings_valid (apply_setting k v s)"
  by (simp add: settings_valid_def apply_fields non_empty_def)

lemma settings_from_map_valid: "settings_valid (settings_from_map kvs)"
proof -
  have "settings_valid s \<Longrightarrow> settings_valid (fold (\<lambda>(k, v). apply_setting k v) kvs s)" for s
    by (induction kvs arbitrary: s) (auto intro: apply_setting_valid)
  then show ?thesis by (simp add: settings_from_map_def settings_valid_def default_settings_def)
qed

lemma forge_keys_distinct:
  "distinct [SHUFFLE_PARTITIONS, BATCH_SIZE, TARGET_PARTITIONS, TASK_MAX_RETRIES, ADAPTIVE_ENABLED,
     ADAPTIVE_COALESCE_TARGET_BYTES, SPECULATION_ENABLED, DEFAULT_CATALOG, DEFAULT_SCHEMA, WAREHOUSE_DIR,
     MEMORY_LIMIT_BYTES]"
  by (simp add: key_defs)

lemma forge_keys_normal:
  "list_all (\<lambda>k. normalize_key k = k)
    [SHUFFLE_PARTITIONS, BATCH_SIZE, TARGET_PARTITIONS, TASK_MAX_RETRIES, ADAPTIVE_ENABLED,
     ADAPTIVE_COALESCE_TARGET_BYTES, SPECULATION_ENABLED, DEFAULT_CATALOG, DEFAULT_SCHEMA, WAREHOUSE_DIR,
     MEMORY_LIMIT_BYTES]"
  by code_simp

definition present :: "(string \<times> string option) list \<Rightarrow> (string \<times> string) list" where
  "present kos = concat (map (\<lambda>(k, v). opt_entry k v) kos)"

lemma opt_entry_simps [simp]: "opt_entry k None = []" "opt_entry k (Some v) = [(k, v)]"
  by (simp_all add: opt_entry_def)

lemma present_Cons: "present ((k, v) # kos) = opt_entry k v @ present kos"
  by (simp add: present_def)

lemma present_keys: "fst ` set (present kos) \<subseteq> fst ` set kos"
proof (induction kos)
  case (Cons kv kos)
  obtain k v where "kv = (k, v)" by (cases kv)
  with Cons show ?case by (cases v) (auto simp: present_Cons)
qed (simp add: present_def)

lemma present_distinct: "distinct (map fst kos) \<Longrightarrow> distinct (map fst (present kos))"
proof (induction kos)
  case (Cons kv kos)
  obtain k v where kv: "kv = (k, v)" by (cases kv)
  with Cons present_keys [of kos] show ?case by (cases v) (auto simp: present_Cons)
qed (simp add: present_def)

lemma present_lookup: "distinct (map fst kos) \<Longrightarrow> (k, v) \<in> set kos \<Longrightarrow> map_of (present kos) k = v"
proof (induction kos)
  case (Cons kv kos)
  obtain k' v' where kv: "kv = (k', v')" by (cases kv)
  show ?case
  proof (cases "k' = k")
    case True
    with Cons.prems have "v' = v" "k \<notin> fst ` set kos" by (force simp: kv)+
    moreover from this present_keys [of kos] have "k \<notin> fst ` set (present kos)" by blast
    ultimately show ?thesis using True by (cases v) (simp_all add: kv present_Cons map_of_eq_None_iff)
  next
    case False
    with Cons show ?thesis by (cases v') (auto simp: kv present_Cons)
  qed
qed simp

definition setting_values :: "session_settings \<Rightarrow> (string \<times> string option) list" where
  "setting_values s =
     [(SHUFFLE_PARTITIONS, Some (show_word (shuffle_partitions s))), (BATCH_SIZE, Some (show_word (batch_size s))),
      (TARGET_PARTITIONS, Some (show_word (target_partitions s))), (TASK_MAX_RETRIES, Some (show_word (task_max_retries s))),
      (ADAPTIVE_ENABLED, Some (show_bool (adaptive_enabled s))),
      (ADAPTIVE_COALESCE_TARGET_BYTES, Some (show_word (adaptive_coalesce_target_bytes s))),
      (SPECULATION_ENABLED, Some (show_bool (speculation_enabled s))), (DEFAULT_CATALOG, default_catalog s),
      (DEFAULT_SCHEMA, default_schema s), (WAREHOUSE_DIR, warehouse_dir s),
      (MEMORY_LIMIT_BYTES, map_option show_word (memory_limit_bytes s))]"

lemma to_map_present: "settings_to_map s = present (setting_values s)"
  by (simp add: settings_to_map_def present_def setting_values_def)

lemma setting_values_distinct: "distinct (map fst (setting_values s))"
  using forge_keys_distinct by (simp add: setting_values_def)

lemma to_map_keys: "distinct (map fst (settings_to_map s))" "k \<in> fst ` set (settings_to_map s) \<Longrightarrow> normalize_key k = k"
proof -
  show "distinct (map fst (settings_to_map s))"
    unfolding to_map_present by (rule present_distinct [OF setting_values_distinct])
  assume "k \<in> fst ` set (settings_to_map s)"
  then have "k \<in> fst ` set (setting_values s)" using present_keys unfolding to_map_present by blast
  then show "normalize_key k = k" using forge_keys_normal by (auto simp: setting_values_def)
qed

lemma to_map_lookup:
  "map_of (settings_to_map s) SHUFFLE_PARTITIONS = Some (show_word (shuffle_partitions s))"
  "map_of (settings_to_map s) BATCH_SIZE = Some (show_word (batch_size s))"
  "map_of (settings_to_map s) TARGET_PARTITIONS = Some (show_word (target_partitions s))"
  "map_of (settings_to_map s) TASK_MAX_RETRIES = Some (show_word (task_max_retries s))"
  "map_of (settings_to_map s) ADAPTIVE_ENABLED = Some (show_bool (adaptive_enabled s))"
  "map_of (settings_to_map s) ADAPTIVE_COALESCE_TARGET_BYTES = Some (show_word (adaptive_coalesce_target_bytes s))"
  "map_of (settings_to_map s) SPECULATION_ENABLED = Some (show_bool (speculation_enabled s))"
  "map_of (settings_to_map s) DEFAULT_CATALOG = default_catalog s"
  "map_of (settings_to_map s) DEFAULT_SCHEMA = default_schema s"
  "map_of (settings_to_map s) WAREHOUSE_DIR = warehouse_dir s"
  "map_of (settings_to_map s) MEMORY_LIMIT_BYTES = map_option show_word (memory_limit_bytes s)"
  unfolding to_map_present
  by (rule present_lookup [OF setting_values_distinct]; simp add: setting_values_def)+

text \<open>The settings the driver puts into a task's session configuration are the ones the executor
  reads from it, whatever order the map is iterated in.\<close>

theorem settings_roundtrip:
  assumes "settings_valid s" and "mset kvs = mset (settings_to_map s)"
  shows "settings_from_map kvs = s"
proof -
  have d: "distinct (map fst kvs)"
    using to_map_keys(1) [of s] assms(2) by (metis mset_eq_imp_distinct_iff mset_map)
  have n: "\<forall>k\<in>fst ` set kvs. normalize_key k = k"
    using to_map_keys(2) [of _ s] assms(2) by (metis mset_eq_setD)
  have look: "map_of kvs = map_of (settings_to_map s)"
    using d to_map_keys(1) assms(2) by (metis map_of_inject_set mset_eq_setD)
  note field = fold_field [where norm = normalize_key and f = apply_setting and kvs = kvs and s = default_settings,
      OF _ d n, folded settings_from_map_def, unfolded look]
  have b: "eq_ignore_case (show_bool x) ''true'' = x" for x
    by (simp add: eq_ignore_case_def show_bool_def to_lower_def lower_char_def)
  have valid: "default_catalog s \<noteq> Some []" "default_schema s \<noteq> Some []" "warehouse_dir s \<noteq> Some []"
    using assms(1) by (simp_all add: settings_valid_def)
  show ?thesis
  proof (rule session_settings.equality)
    show "shuffle_partitions (settings_from_map kvs) = shuffle_partitions s"
      using field [OF apply_fields(1)] by (simp add: to_map_lookup or_keep_def)
    show "batch_size (settings_from_map kvs) = batch_size s"
      using field [OF apply_fields(2)] by (simp add: to_map_lookup or_keep_def)
    show "target_partitions (settings_from_map kvs) = target_partitions s"
      using field [OF apply_fields(3)] by (simp add: to_map_lookup or_keep_def)
    show "task_max_retries (settings_from_map kvs) = task_max_retries s"
      using field [OF apply_fields(4)] by (simp add: to_map_lookup or_keep_def)
    show "adaptive_enabled (settings_from_map kvs) = adaptive_enabled s"
      using field [of adaptive_enabled, OF apply_fields(5)] by (simp add: to_map_lookup b)
    show "adaptive_coalesce_target_bytes (settings_from_map kvs) = adaptive_coalesce_target_bytes s"
      using field [OF apply_fields(6)] by (simp add: to_map_lookup or_keep_def)
    show "speculation_enabled (settings_from_map kvs) = speculation_enabled s"
      using field [of speculation_enabled, OF apply_fields(7)] by (simp add: to_map_lookup b)
    show "memory_limit_bytes (settings_from_map kvs) = memory_limit_bytes s"
      using field [of memory_limit_bytes, OF apply_fields(8)]
      by (simp add: to_map_lookup default_settings_def split: option.split)
    show "default_catalog (settings_from_map kvs) = default_catalog s"
      using field [of default_catalog, OF apply_fields(9)] valid
      by (auto simp: to_map_lookup default_settings_def non_empty_def split: option.splits)
    show "default_schema (settings_from_map kvs) = default_schema s"
      using field [of default_schema, OF apply_fields(10)] valid
      by (auto simp: to_map_lookup default_settings_def non_empty_def split: option.splits)
    show "warehouse_dir (settings_from_map kvs) = warehouse_dir s"
      using field [of warehouse_dir, OF apply_fields(11)] valid
      by (auto simp: to_map_lookup default_settings_def non_empty_def split: option.splits)
  qed simp
qed

definition sample_settings :: session_settings where
  "sample_settings = default_settings\<lparr>shuffle_partitions := 32, default_catalog := Some ''main'',
     memory_limit_bytes := Some 1024\<rparr>"

theorem settings_roundtrip_witness:
  "settings_from_map (rev (settings_to_map sample_settings)) = sample_settings"
proof (rule settings_roundtrip)
  show "settings_valid sample_settings"
    by (simp add: settings_valid_def sample_settings_def default_settings_def)
qed simp

lemma env_single:
  "settings_from_env [(conf_env_name k, v)] =
     (case env_key (conf_env_name k) of None \<Rightarrow> default_settings | Some k' \<Rightarrow> apply_setting k' v default_settings)"
  by (simp add: settings_from_env_def env_get_def conf_env_name_def)

text \<open>The keys the engine knows and their aliases: those a round trip through an upper-case variable
  name keeps, and those it does not.\<close>

definition env_safe_keys :: "string list" where
  "env_safe_keys =
     [SHUFFLE_PARTITIONS, BATCH_SIZE, TARGET_PARTITIONS, TASK_MAX_RETRIES, ADAPTIVE_ENABLED,
      ADAPTIVE_COALESCE_TARGET_BYTES, SPECULATION_ENABLED, MEMORY_LIMIT_BYTES, DEFAULT_CATALOG, DEFAULT_SCHEMA,
      WAREHOUSE_DIR, ''spark.sql.shuffle.partitions'', ''spark.sql.adaptive.enabled'', ''spark.speculation'',
      ''spark.databricks.sql.initial.catalog.name'', ''spark.sql.warehouse.dir'']"

definition env_lost_keys :: "(string \<times> string) list" where
  "env_lost_keys =
     [(''spark.task.maxFailures'', TASK_MAX_RETRIES), (''spark.sql.defaultCatalog'', DEFAULT_CATALOG),
      (''spark.sql.defaultSchema'', DEFAULT_SCHEMA)]"

lemma env_key_safe: "list_all (\<lambda>k. env_key (conf_env_name k) = Some k) env_safe_keys"
  by code_simp

lemma env_key_lost:
  "list_all (\<lambda>(k, f). normalize_key k = f \<and> env_key (conf_env_name k) = Some (to_lower k) \<and>
      normalize_key (to_lower k) \<notin> set
       [SHUFFLE_PARTITIONS, BATCH_SIZE, TARGET_PARTITIONS, TASK_MAX_RETRIES, ADAPTIVE_ENABLED,
        ADAPTIVE_COALESCE_TARGET_BYTES, SPECULATION_ENABLED, MEMORY_LIMIT_BYTES, DEFAULT_CATALOG, DEFAULT_SCHEMA,
        WAREHOUSE_DIR]) env_lost_keys"
  by code_simp

lemma apply_unknown:
  "normalize_key k \<notin> set [SHUFFLE_PARTITIONS, BATCH_SIZE, TARGET_PARTITIONS, TASK_MAX_RETRIES, ADAPTIVE_ENABLED,
     ADAPTIVE_COALESCE_TARGET_BYTES, SPECULATION_ENABLED, MEMORY_LIMIT_BYTES, DEFAULT_CATALOG, DEFAULT_SCHEMA,
     WAREHOUSE_DIR] \<Longrightarrow> apply_setting k v s = s"
  by (simp add: apply_split)

text \<open>Settings reach the driver process through its environment: every key the engine knows, under
  its own name or a lower-case Spark alias, is read back from \<open>FORGE_CONF_<KEY>\<close> as the same setting;
  the three aliases with capital letters name settings of the engine too, but their values are
  dropped on the way.\<close>

theorem env_settings_exact:
  "list_all (\<lambda>k. settings_from_env [(conf_env_name k, v)] = apply_setting k v default_settings) env_safe_keys \<and>
   list_all (\<lambda>(k, f). normalize_key k = f \<and> settings_from_env [(conf_env_name k, v)] = default_settings) env_lost_keys"
proof
  show "list_all (\<lambda>k. settings_from_env [(conf_env_name k, v)] = apply_setting k v default_settings) env_safe_keys"
    using env_key_safe by (auto simp: list_all_iff env_single)
  show "list_all (\<lambda>(k, f). normalize_key k = f \<and> settings_from_env [(conf_env_name k, v)] = default_settings) env_lost_keys"
  proof (unfold list_all_iff, intro ballI, clarify)
    fix k f
    assume "(k, f) \<in> set env_lost_keys"
    note facts = bspec [OF env_key_lost [unfolded list_all_iff] this, unfolded prod.case]
    have "apply_setting (to_lower k) v default_settings = default_settings"
      by (rule apply_unknown [OF facts [THEN conjunct2, THEN conjunct2]])
    then have "settings_from_env [(conf_env_name k, v)] = default_settings"
      by (simp only: env_single facts [THEN conjunct2, THEN conjunct1] option.case)
    then show "normalize_key k = f \<and> settings_from_env [(conf_env_name k, v)] = default_settings"
      using facts [THEN conjunct1] by (rule conjI [rotated])
  qed
qed

end
