(* ===== verification/Forge_Plan.thy ===== *)
theory Forge_Plan
  imports Forge_Proto
begin

text \<open>
  Physical plans as the distributed planner sees them (\<open>forge-scheduler/src/planner.rs\<close> and the
  shuffle operators of \<open>forge-shuffle\<close>), the planner that cuts a plan into stages at its exchange
  points, and the resolver that replaces shuffle placeholders by readers.

  DataFusion's operators are third-party code. The three operators the planner recognises are
  constructors of their own, every other one is a \<open>ForeignExec\<close> with an opaque payload; what the
  planner asks of them (their rebuild with new children, their partition count, their schema) is
  the parameter \<open>datafusion\<close> of every definition that asks it.
\<close>

section \<open>Plans\<close>

datatype data_type = UInt32 | UInt64 | Utf8 | OtherType string

record field =
  field_name :: string
  field_type :: data_type
  field_nullable :: bool

type_synonym schema = "field list"

datatype 'x partitioning =
    Hash "'x list" nat
  | RoundRobinBatch nat
  | UnknownPartitioning nat

text \<open>
  \<open>RepartitionExec\<close> carries its \<open>preserve_order\<close> flag; the payloads of the other two exchange
  operators (fetch limit, sort expressions) are opaque.
\<close>

datatype 'x plan =
    RepartitionExec "'x plan" "'x partitioning" bool
  | CoalescePartitionsExec 'x "'x plan"
  | SortPreservingMergeExec 'x "'x plan"
  | ShuffleWriterExec string u32 "'x plan" "'x partitioning option" string
  | UnresolvedShuffleExec u32 schema nat
  | ShuffleReaderExec string u32 schema "location list list"
  | ForeignExec 'x "'x plan list"

record 'x datafusion =
  df_with_new_children :: "'x plan \<Rightarrow> 'x plan list \<Rightarrow> string + 'x plan"
  df_partition_count :: "'x plan \<Rightarrow> nat"
  df_schema :: "'x plan \<Rightarrow> schema"

fun children :: "'x plan \<Rightarrow> 'x plan list" where
  "children (RepartitionExec p _ _) = [p]"
| "children (CoalescePartitionsExec _ p) = [p]"
| "children (SortPreservingMergeExec _ p) = [p]"
| "children (ShuffleWriterExec _ _ p _ _) = [p]"
| "children (UnresolvedShuffleExec _ _ _) = []"
| "children (ShuffleReaderExec _ _ _ _) = []"
| "children (ForeignExec _ ps) = ps"

text \<open>The statistics schema of \<open>ShuffleWriterExec\<close>.\<close>

definition stats_schema :: schema where
  "stats_schema =
     [\<lparr>field_name = ''output_partition'', field_type = UInt32, field_nullable = False\<rparr>,
      \<lparr>field_name = ''path'', field_type = Utf8, field_nullable = False\<rparr>,
      \<lparr>field_name = ''num_rows'', field_type = UInt64, field_nullable = False\<rparr>,
      \<lparr>field_name = ''num_bytes'', field_type = UInt64, field_nullable = False\<rparr>,
      \<lparr>field_name = ''num_batches'', field_type = UInt32, field_nullable = False\<rparr>]"

text \<open>\<open>ExecutionPlan::with_new_children\<close>: the shuffle operators' own versions, and DataFusion's.\<close>

fun with_new_children :: "'x datafusion \<Rightarrow> 'x plan \<Rightarrow> 'x plan list \<Rightarrow> string + 'x plan" where
  "with_new_children df (ShuffleWriterExec job sid _ part wd) cs =
     (case cs of
        [] \<Rightarrow> Inl ''ShuffleWriterExec needs one child''
      | c # _ \<Rightarrow> Inr (ShuffleWriterExec job sid c part wd))"
| "with_new_children df (UnresolvedShuffleExec sid sch n) cs = Inr (UnresolvedShuffleExec sid sch n)"
| "with_new_children df (ShuffleReaderExec job sid sch parts) cs = Inr (ShuffleReaderExec job sid sch parts)"
| "with_new_children df p cs = df_with_new_children df p cs"

text \<open>
  \<open>output_partitioning().partition_count()\<close>: the writer reports its input's count, the
  placeholder and the reader the count they were built with.
\<close>

fun partition_count :: "'x datafusion \<Rightarrow> 'x plan \<Rightarrow> nat" where
  "partition_count df (ShuffleWriterExec _ _ p _ _) = partition_count df p"
| "partition_count df (UnresolvedShuffleExec _ _ n) = n"
| "partition_count df (ShuffleReaderExec _ _ _ parts) = length parts"
| "partition_count df p = df_partition_count df p"

fun plan_schema :: "'x datafusion \<Rightarrow> 'x plan \<Rightarrow> schema" where
  "plan_schema df (ShuffleWriterExec _ _ _ _ _) = stats_schema"
| "plan_schema df (UnresolvedShuffleExec _ sch _) = sch"
| "plan_schema df (ShuffleReaderExec _ _ sch _) = sch"
| "plan_schema df p = df_schema df p"

text \<open>\<open>ShuffleWriterExec::output_partition_count\<close>.\<close>

fun output_partition_count :: "'x partitioning option \<Rightarrow> nat" where
  "output_partition_count (Some (Hash _ n)) = n"
| "output_partition_count (Some (RoundRobinBatch n)) = n"
| "output_partition_count _ = 1"

text \<open>
  The documented contract of DataFusion's \<open>with_new_children\<close>: a successful rebuild is the same
  operator over exactly the given children.
\<close>

fun set_children :: "'x plan \<Rightarrow> 'x plan list \<Rightarrow> 'x plan" where
  "set_children (RepartitionExec _ pt po) cs = RepartitionExec (hd cs) pt po"
| "set_children (CoalescePartitionsExec x _) cs = CoalescePartitionsExec x (hd cs)"
| "set_children (SortPreservingMergeExec x _) cs = SortPreservingMergeExec x (hd cs)"
| "set_children (ShuffleWriterExec job sid _ part wd) cs = ShuffleWriterExec job sid (hd cs) part wd"
| "set_children (ForeignExec x _) cs = ForeignExec x cs"
| "set_children p cs = p"

definition df_lawful :: "'x datafusion \<Rightarrow> bool" where
  "df_lawful df \<longleftrightarrow>
     (\<forall>p cs q. length cs = length (children p) \<longrightarrow>
        df_with_new_children df p cs = Inr q \<longrightarrow> q = set_children p cs)"

lemma with_new_children_lawful:
  assumes "df_lawful df" and "length cs = length (children p)" and "with_new_children df p cs = Inr q"
  shows "q = set_children p cs"
proof -
  have "df_with_new_children df p cs = Inr q \<Longrightarrow> q = set_children p cs"
    using assms(1,2) unfolding df_lawful_def by blast
  with assms(2,3) show ?thesis by (cases p) (auto split: list.splits)
qed

lemma children_set_children:
  "length cs = length (children p) \<Longrightarrow> children (set_children p cs) = cs"
  by (cases p) (auto simp: length_Suc_conv)

lemma set_children_same [simp]: "set_children p (children p) = p"
  by (cases p) auto

lemma set_children_twice:
  "length cs = length (children p) \<Longrightarrow> length ds = length (children p) \<Longrightarrow>
     set_children (set_children p cs) ds = set_children p ds"
  by (cases p) (auto simp: length_Suc_conv)

section \<open>Stages\<close>

record 'x query_stage =
  qs_stage_id :: u32
  qs_plan :: "'x plan"
  qs_depends_on :: "u32 list"
  qs_num_tasks :: nat
  qs_output_partitions :: nat

text \<open>\<open>QueryStage::writer\<close> panics unless the root is a writer: \<open>None\<close> is the panic.\<close>

fun qs_writer_partitioning :: "'x plan \<Rightarrow> 'x partitioning option option" where
  "qs_writer_partitioning (ShuffleWriterExec _ _ _ part _) = Some part"
| "qs_writer_partitioning _ = None"

record 'x planner =
  pl_job_id :: string
  pl_work_dir :: string
  pl_next_stage :: u32
  pl_stages :: "'x query_stage list"

definition planner_new :: "string \<Rightarrow> string \<Rightarrow> 'x planner" where
  "planner_new job wd = \<lparr>pl_job_id = job, pl_work_dir = wd, pl_next_stage = 1, pl_stages = []\<rparr>"

definition push_stage ::
  "'x datafusion \<Rightarrow> 'x plan \<Rightarrow> 'x partitioning option \<Rightarrow> u32 list \<Rightarrow> 'x planner
     \<Rightarrow> 'x plan \<times> 'x planner" where
  "push_stage df input part deps pl =
     (let sid = pl_next_stage pl;
          num_tasks = partition_count df input;
          sch = plan_schema df input;
          writer = ShuffleWriterExec (pl_job_id pl) sid input part (pl_work_dir pl);
          output_partitions = output_partition_count part;
          consumer_partitions =
            (if part \<noteq> None then output_partitions else max num_tasks 1);
          stage = \<lparr>qs_stage_id = sid, qs_plan = writer, qs_depends_on = deps,
                   qs_num_tasks = max num_tasks 1, qs_output_partitions = output_partitions\<rparr>
      in (UnresolvedShuffleExec sid sch consumer_partitions,
          pl\<lparr>pl_next_stage := sid + 1, pl_stages := pl_stages pl @ [stage]\<rparr>))"

text \<open>The stage id of the placeholder \<open>push_stage\<close> returned.\<close>

fun unresolved_id :: "'x plan \<Rightarrow> u32" where
  "unresolved_id (UnresolvedShuffleExec sid _ _) = sid"
| "unresolved_id _ = 0"

text \<open>The part of \<open>split\<close> after the children have been rewritten.\<close>

definition cut_exchange ::
  "'x datafusion \<Rightarrow> 'x plan \<Rightarrow> u32 list \<Rightarrow> 'x planner
     \<Rightarrow> string + ('x plan \<times> u32 list) \<times> 'x planner" where
  "cut_exchange df p deps pl =
     (let cut_below = (\<lambda>input.
            if partition_count df input \<le> 1 then Inr ((p, deps), pl)
            else (let (u, pl') = push_stage df input None deps pl
                  in case with_new_children df p [u] of
                       Inl e \<Rightarrow> Inl e
                     | Inr p' \<Rightarrow> Inr ((p', [unresolved_id u]), pl')))
      in case p of
           RepartitionExec input pt po \<Rightarrow>
             (case pt of
                UnknownPartitioning _ \<Rightarrow> Inr ((p, deps), pl)
              | _ \<Rightarrow> (let (u, pl') = push_stage df input (Some pt) deps pl
                      in Inr ((u, [unresolved_id u]), pl')))
         | CoalescePartitionsExec _ input \<Rightarrow> cut_below input
         | SortPreservingMergeExec _ input \<Rightarrow> cut_below input
         | _ \<Rightarrow> Inr ((p, deps), pl))"

fun node_count :: "'x plan \<Rightarrow> nat" where
  "node_count (RepartitionExec p _ _) = Suc (node_count p)"
| "node_count (CoalescePartitionsExec _ p) = Suc (node_count p)"
| "node_count (SortPreservingMergeExec _ p) = Suc (node_count p)"
| "node_count (ShuffleWriterExec _ _ p _ _) = Suc (node_count p)"
| "node_count (UnresolvedShuffleExec _ _ _) = 1"
| "node_count (ShuffleReaderExec _ _ _ _) = 1"
| "node_count (ForeignExec _ ps) = Suc (sum_list (map node_count ps))"

lemma node_count_children: "node_count p = Suc (sum_list (map node_count (children p)))"
  by (cases p) auto

function split_plan ::
    "'x datafusion \<Rightarrow> 'x plan \<Rightarrow> 'x planner \<Rightarrow> string + ('x plan \<times> u32 list) \<times> 'x planner"
  and split_children ::
    "'x datafusion \<Rightarrow> 'x plan list \<Rightarrow> 'x planner \<Rightarrow> string + ('x plan list \<times> u32 list) \<times> 'x planner"
where
  "split_plan df p pl =
     (case split_children df (children p) pl of
        Inl e \<Rightarrow> Inl e
      | Inr ((new_children, deps), pl') \<Rightarrow>
          (if new_children = [] then cut_exchange df p deps pl'
           else case with_new_children df p new_children of
                  Inl e \<Rightarrow> Inl e
                | Inr p' \<Rightarrow> cut_exchange df p' deps pl'))"
| "split_children df [] pl = Inr (([], []), pl)"
| "split_children df (c # cs) pl =
     (case split_plan df c pl of
        Inl e \<Rightarrow> Inl e
      | Inr ((c', d), pl') \<Rightarrow>
          (case split_children df cs pl' of
             Inl e \<Rightarrow> Inl e
           | Inr ((cs', ds), pl'') \<Rightarrow> Inr ((c' # cs', d @ ds), pl'')))"
  by pat_completeness auto
termination
  by (relation "measure (\<lambda>x. case x of
        Inl (df, p, pl) \<Rightarrow> 2 * node_count p
      | Inr (df, cs, pl) \<Rightarrow> Suc (2 * sum_list (map node_count cs)))")
    (auto simp: node_count_children)

declare split_plan.simps [simp del]

text \<open>\<open>DistributedPlanner::plan\<close>.\<close>

definition plan_stages ::
  "'x datafusion \<Rightarrow> string \<Rightarrow> string \<Rightarrow> 'x plan \<Rightarrow> string + 'x query_stage list" where
  "plan_stages df job wd p =
     (case split_plan df p (planner_new job wd) of
        Inl e \<Rightarrow> Inl e
      | Inr ((root, deps), pl) \<Rightarrow> Inr (pl_stages (snd (push_stage df root None deps pl))))"

end
