(* ===== verification/Forge_Stages.thy ===== *)
theory Forge_Stages
  imports Forge_Plan
begin

text \<open>
  Shuffle resolution (\<open>resolve_stage\<close>, \<open>unresolved_stages\<close> of \<open>planner.rs\<close>) and the correctness of
  stage splitting: the stages are numbered from 1 in an order in which every stage only reads
  earlier ones, a stage's dependency list is exactly the list of placeholders left in its plan,
  and putting the producers back in place of the placeholders gives the submitted plan again.
\<close>

section \<open>Placeholders of a plan\<close>

fun unresolved_stages :: "'x plan \<Rightarrow> u32 list" where
  "unresolved_stages (UnresolvedShuffleExec sid _ _) = [sid]"
| "unresolved_stages (ShuffleReaderExec _ _ _ _) = []"
| "unresolved_stages (RepartitionExec p _ _) = unresolved_stages p"
| "unresolved_stages (CoalescePartitionsExec _ p) = unresolved_stages p"
| "unresolved_stages (SortPreservingMergeExec _ p) = unresolved_stages p"
| "unresolved_stages (ShuffleWriterExec _ _ p _ _) = unresolved_stages p"
| "unresolved_stages (ForeignExec _ ps) = concat (map unresolved_stages ps)"

fun is_unresolved :: "'x plan \<Rightarrow> bool" where
  "is_unresolved (UnresolvedShuffleExec _ _ _) = True"
| "is_unresolved _ = False"

lemma unresolved_stages_children:
  "\<not> is_unresolved p \<Longrightarrow> unresolved_stages p = concat (map unresolved_stages (children p))"
  by (cases p) auto

lemma is_unresolved_set_children [simp]: "is_unresolved (set_children p cs) = is_unresolved p"
  by (cases p) auto

lemma children_unresolved: "children p \<noteq> [] \<Longrightarrow> \<not> is_unresolved p"
  by (cases p) auto

section \<open>Resolution\<close>

text \<open>
  The reader's partition table: every location is appended to the slot of its output partition,
  and a location beyond the consumer's count is an error.
\<close>

fun place_locations ::
  "u32 \<Rightarrow> nat \<Rightarrow> location list \<Rightarrow> location list list \<Rightarrow> string + location list list" where
  "place_locations sid n [] parts = Inr parts"
| "place_locations sid n (loc # locs) parts =
     (let idx = unat (loc_output_partition loc)
      in if idx < n then place_locations sid n locs (parts[idx := parts ! idx @ [loc]])
         else Inl (''stage '' @ show_word sid @ '' produced partition '' @ show_nat idx
                    @ '' but consumer expects '' @ show_nat n))"

function resolve_stage ::
    "'x datafusion \<Rightarrow> string \<Rightarrow> (u32 \<Rightarrow> location list option) \<Rightarrow> 'x plan \<Rightarrow> string + 'x plan"
  and resolve_children ::
    "'x datafusion \<Rightarrow> string \<Rightarrow> (u32 \<Rightarrow> location list option) \<Rightarrow> 'x plan list \<Rightarrow> string + 'x plan list"
where
  "resolve_stage df job outputs p =
     (case p of
        UnresolvedShuffleExec sid sch n \<Rightarrow>
          (case outputs sid of
             None \<Rightarrow> Inl (''stage '' @ show_word sid @ '' not complete; cannot resolve shuffle'')
           | Some locs \<Rightarrow>
               (case place_locations sid n locs (replicate n []) of
                  Inl e \<Rightarrow> Inl e
                | Inr parts \<Rightarrow> Inr (ShuffleReaderExec job sid sch parts)))
      | _ \<Rightarrow>
          (if children p = [] then Inr p
           else case resolve_children df job outputs (children p) of
                  Inl e \<Rightarrow> Inl e
                | Inr cs \<Rightarrow> with_new_children df p cs))"
| "resolve_children df job outputs [] = Inr []"
| "resolve_children df job outputs (c # cs) =
     (case resolve_stage df job outputs c of
        Inl e \<Rightarrow> Inl e
      | Inr c' \<Rightarrow>
          (case resolve_children df job outputs cs of
             Inl e \<Rightarrow> Inl e
           | Inr cs' \<Rightarrow> Inr (c' # cs')))"
  by pat_completeness auto
termination
  by (relation "measure (\<lambda>x. case x of
        Inl (df, job, outputs, p) \<Rightarrow> 2 * node_count p
      | Inr (df, job, outputs, cs) \<Rightarrow> Suc (2 * sum_list (map node_count cs)))")
    (auto simp: node_count_children)

declare resolve_stage.simps [simp del]

lemma length_resolve_children:
  "resolve_children df job outputs cs = Inr ds \<Longrightarrow> length ds = length cs"
  by (induction cs arbitrary: ds) (auto split: sum.splits)

lemma place_locations_Inr:
  assumes "place_locations sid n locs parts = Inr parts'" and "length parts = n"
  shows "parts' = map (\<lambda>i. parts ! i @ filter (\<lambda>l. unat (loc_output_partition l) = i) locs) [0..<n]"
    and "\<forall>l\<in>set locs. unat (loc_output_partition l) < n"
proof -
  have "parts' = map (\<lambda>i. parts ! i @ filter (\<lambda>l. unat (loc_output_partition l) = i) locs) [0..<n]
      \<and> (\<forall>l\<in>set locs. unat (loc_output_partition l) < n)"
    using assms
  proof (induction locs arbitrary: parts)
    case Nil
    then have "parts' = parts" and n: "n = length parts" by auto
    then show ?case by (simp add: n map_nth)
  next
    case (Cons loc locs)
    let ?k = "unat (loc_output_partition loc)"
    from Cons.prems have k: "?k < n" and rec:
      "place_locations sid n locs (parts[?k := parts ! ?k @ [loc]]) = Inr parts'"
      by (auto simp: Let_def split: if_splits)
    let ?f = "\<lambda>ps ls i. ps ! i @ filter (\<lambda>l. unat (loc_output_partition l) = i) ls"
    from Cons.IH [OF rec] Cons.prems(2)
    have IH: "parts' = map (?f (parts[?k := parts ! ?k @ [loc]]) locs) [0..<n]"
      and rest: "\<forall>l\<in>set locs. unat (loc_output_partition l) < n"
      by simp_all
    have "?f (parts[?k := parts ! ?k @ [loc]]) locs i = ?f parts (loc # locs) i" if "i < n" for i
      using that Cons.prems(2) by (simp add: nth_list_update)
    then have "map (?f (parts[?k := parts ! ?k @ [loc]]) locs) [0..<n] = map (?f parts (loc # locs)) [0..<n]"
      by simp
    with IH rest k show ?case by simp
  qed
  then show "parts' = map (\<lambda>i. parts ! i @ filter (\<lambda>l. unat (loc_output_partition l) = i) locs) [0..<n]"
    and "\<forall>l\<in>set locs. unat (loc_output_partition l) < n"
    by blast+
qed

lemma place_locations_total:
  "\<forall>l\<in>set locs. unat (loc_output_partition l) < n \<Longrightarrow>
     \<exists>parts'. place_locations sid n locs parts = Inr parts'"
  by (induction locs arbitrary: parts) (auto simp: Let_def)

text \<open>
  The reference definition: every placeholder becomes a reader whose slot \<open>i\<close> lists, in report
  order, the locations of the producer's output partition \<open>i\<close>.
\<close>

definition partition_table :: "nat \<Rightarrow> location list \<Rightarrow> location list list" where
  "partition_table n locs =
     map (\<lambda>i. filter (\<lambda>l. unat (loc_output_partition l) = i) locs) [0..<n]"

fun readers_for :: "string \<Rightarrow> (u32 \<Rightarrow> location list option) \<Rightarrow> 'x plan \<Rightarrow> 'x plan" where
  "readers_for job outputs (UnresolvedShuffleExec sid sch n) =
     (case outputs sid of
        None \<Rightarrow> UnresolvedShuffleExec sid sch n
      | Some locs \<Rightarrow> ShuffleReaderExec job sid sch (partition_table n locs))"
| "readers_for job outputs (ShuffleReaderExec j sid sch parts) = ShuffleReaderExec j sid sch parts"
| "readers_for job outputs (RepartitionExec p pt po) = RepartitionExec (readers_for job outputs p) pt po"
| "readers_for job outputs (CoalescePartitionsExec x p) = CoalescePartitionsExec x (readers_for job outputs p)"
| "readers_for job outputs (SortPreservingMergeExec x p) = SortPreservingMergeExec x (readers_for job outputs p)"
| "readers_for job outputs (ShuffleWriterExec j sid p part wd) =
     ShuffleWriterExec j sid (readers_for job outputs p) part wd"
| "readers_for job outputs (ForeignExec x ps) = ForeignExec x (map (readers_for job outputs) ps)"

lemma readers_for_node:
  "\<not> is_unresolved p \<Longrightarrow> readers_for job outputs p = set_children p (map (readers_for job outputs) (children p))"
  by (cases p) auto

lemma unresolved_readers_for:
  "\<forall>sid\<in>set (unresolved_stages p). outputs sid \<noteq> None \<Longrightarrow> unresolved_stages (readers_for job outputs p) = []"
  by (induction p) (auto split: option.splits)

lemma resolve_step:
  "\<not> is_unresolved p \<Longrightarrow> resolve_stage df job outputs p =
     (if children p = [] then Inr p
      else case resolve_children df job outputs (children p) of
             Inl e \<Rightarrow> Inl e | Inr cs \<Rightarrow> with_new_children df p cs)"
  by (subst resolve_stage.simps) (cases p; simp)

text \<open>The sizes a placeholder expects: it is resolvable when its producer reported in range.\<close>

fun placeholders :: "'x plan \<Rightarrow> (u32 \<times> nat) list" where
  "placeholders (UnresolvedShuffleExec sid _ n) = [(sid, n)]"
| "placeholders (ShuffleReaderExec _ _ _ _) = []"
| "placeholders (RepartitionExec p _ _) = placeholders p"
| "placeholders (CoalescePartitionsExec _ p) = placeholders p"
| "placeholders (SortPreservingMergeExec _ p) = placeholders p"
| "placeholders (ShuffleWriterExec _ _ p _ _) = placeholders p"
| "placeholders (ForeignExec _ ps) = concat (map placeholders ps)"

lemma map_fst_placeholders: "map fst (placeholders p) = unresolved_stages p"
  by (induction p) (auto simp: map_concat intro!: arg_cong [where f = concat])

lemma placeholders_children:
  "\<not> is_unresolved p \<Longrightarrow> placeholders p = concat (map placeholders (children p))"
  by (cases p) auto

definition resolvable :: "(u32 \<Rightarrow> location list option) \<Rightarrow> 'x plan \<Rightarrow> bool" where
  "resolvable outputs p \<longleftrightarrow>
     (\<forall>(sid, n)\<in>set (placeholders p).
        case outputs sid of
          None \<Rightarrow> False
        | Some locs \<Rightarrow> list_all (\<lambda>l. unat (loc_output_partition l) < n) locs)"

lemma resolvable_children:
  "\<not> is_unresolved p \<Longrightarrow> resolvable outputs p \<longleftrightarrow> (\<forall>c\<in>set (children p). resolvable outputs c)"
  by (auto simp: resolvable_def placeholders_children)

lemma resolve_unresolved:
  fixes df :: "'x datafusion"
  shows "resolve_stage df job outputs (UnresolvedShuffleExec sid sch n) = Inr q \<longleftrightarrow>
     resolvable outputs (UnresolvedShuffleExec sid sch n :: 'x plan)
     \<and> q = readers_for job outputs (UnresolvedShuffleExec sid sch n)"
  (is "?L \<longleftrightarrow> ?R")
proof (cases "outputs sid")
  case None
  then show ?thesis by (simp add: resolve_stage.simps resolvable_def)
next
  case (Some locs)
  show ?thesis
  proof
    assume ?L
    with Some obtain parts where parts: "place_locations sid n locs (replicate n []) = Inr parts"
      and q: "q = ShuffleReaderExec job sid sch parts"
      by (auto simp: resolve_stage.simps split: sum.splits)
    from place_locations_Inr [OF parts] have "parts = partition_table n locs"
      and "\<forall>l\<in>set locs. unat (loc_output_partition l) < n"
      by (auto simp: partition_table_def)
    with q Some show ?R by (auto simp: resolvable_def list_all_iff)
  next
    assume R: ?R
    with Some have "\<forall>l\<in>set locs. unat (loc_output_partition l) < n"
      by (auto simp: resolvable_def list_all_iff)
    then obtain parts where parts: "place_locations sid n locs (replicate n []) = Inr parts"
      using place_locations_total by blast
    from place_locations_Inr(1) [OF parts] have "parts = partition_table n locs"
      by (auto simp: partition_table_def)
    with R Some parts show ?L by (simp add: resolve_stage.simps)
  qed
qed

lemma resolve_sound:
  "df_lawful df \<Longrightarrow> resolve_stage df job outputs p = Inr q \<Longrightarrow>
     resolvable outputs p \<and> q = readers_for job outputs p"
  "df_lawful df \<Longrightarrow> resolve_children df job outputs ps = Inr qs \<Longrightarrow>
     (\<forall>p\<in>set ps. resolvable outputs p) \<and> qs = map (readers_for job outputs) ps"
proof (induction df job outputs p and df job outputs ps arbitrary: q and qs
    rule: resolve_stage_resolve_children.induct)
  case (1 df job outputs p)
  show ?case
  proof (cases "is_unresolved p")
    case True
    then obtain sid sch n where "p = UnresolvedShuffleExec sid sch n" by (cases p) auto
    with "1.prems" show ?thesis by (simp add: resolve_unresolved)
  next
    case False
    note step = resolve_step [OF False, of df job outputs]
    show ?thesis
    proof (cases "children p = []")
      case True
      with step "1.prems" False show ?thesis
        using resolvable_children [OF False] readers_for_node [OF False] set_children_same [of p]
        by auto
    next
      case ne: False
      with step "1.prems" obtain cs where cs: "resolve_children df job outputs (children p) = Inr cs"
        and q: "with_new_children df p cs = Inr q"
        by (auto split: sum.splits)
      have IH: "(\<forall>c\<in>set (children p). resolvable outputs c) \<and> cs = map (readers_for job outputs) (children p)"
        using "1.IH" "1.prems"(1) False ne cs by (cases p) auto
      then have "length cs = length (children p)" by simp
      from with_new_children_lawful [OF "1.prems"(1) this q] IH show ?thesis
        by (simp add: resolvable_children [OF False] readers_for_node [OF False])
    qed
  qed
next
  case (3 df job outputs c cs)
  then show ?case by (auto split: sum.splits)
qed simp_all


section \<open>Numbering and dependencies of the stages\<close>

text \<open>
  What holds of the planner's stage list at every moment: stage \<open>i\<close> carries the id \<open>i + 1\<close>, its
  root is its writer, it has at least one task, its dependency list is the list of placeholders
  in its plan, and it only depends on earlier stages.
\<close>

definition stage_wf :: "'x query_stage list \<Rightarrow> nat \<Rightarrow> bool" where
  "stage_wf ss i \<longleftrightarrow>
     qs_stage_id (ss ! i) = of_nat (Suc i) \<and>
     (\<exists>job input part wd. qs_plan (ss ! i) = ShuffleWriterExec job (of_nat (Suc i)) input part wd) \<and>
     1 \<le> qs_num_tasks (ss ! i) \<and>
     qs_depends_on (ss ! i) = unresolved_stages (qs_plan (ss ! i)) \<and>
     (\<forall>d\<in>set (qs_depends_on (ss ! i)). \<exists>j<i. d = of_nat (Suc j))"

definition planner_wf :: "'x planner \<Rightarrow> bool" where
  "planner_wf pl \<longleftrightarrow>
     pl_next_stage pl = of_nat (Suc (length (pl_stages pl))) \<and>
     (\<forall>i<length (pl_stages pl). stage_wf (pl_stages pl) i)"

definition deps_below :: "nat \<Rightarrow> u32 list \<Rightarrow> bool" where
  "deps_below n deps \<longleftrightarrow> (\<forall>d\<in>set deps. \<exists>j<n. d = of_nat (Suc j))"

lemma deps_below_mono: "deps_below m deps \<Longrightarrow> m \<le> n \<Longrightarrow> deps_below n deps"
  unfolding deps_below_def by (meson order_less_le_trans)

lemma stage_wf_append: "i < length ss \<Longrightarrow> stage_wf (ss @ ts) i = stage_wf ss i"
  by (simp add: stage_wf_def nth_append)

lemma planner_wf_new: "planner_wf (planner_new job wd)"
  by (simp add: planner_wf_def planner_new_def)

lemma push_stage_stages:
  "pl_stages (snd (push_stage df input part deps pl)) = pl_stages pl @
     [\<lparr>qs_stage_id = pl_next_stage pl,
       qs_plan = ShuffleWriterExec (pl_job_id pl) (pl_next_stage pl) input part (pl_work_dir pl),
       qs_depends_on = deps, qs_num_tasks = max (partition_count df input) 1,
       qs_output_partitions = output_partition_count part\<rparr>]"
  "pl_next_stage (snd (push_stage df input part deps pl)) = pl_next_stage pl + 1"
  by (simp_all add: push_stage_def Let_def)

lemma push_stage_wf:
  assumes "planner_wf pl" and "unresolved_stages input = deps" and "deps_below (length (pl_stages pl)) deps"
  shows "planner_wf (snd (push_stage df input part deps pl))"
proof -
  let ?pl' = "snd (push_stage df input part deps pl)"
  have "stage_wf (pl_stages ?pl') i" if "i < length (pl_stages ?pl')" for i
  proof (cases "i < length (pl_stages pl)")
    case True
    with assms(1) show ?thesis
      by (simp add: push_stage_stages stage_wf_append planner_wf_def)
  next
    case False
    with that have i: "i = length (pl_stages pl)" by (simp add: push_stage_stages)
    with assms show ?thesis
      by (simp add: push_stage_stages stage_wf_def planner_wf_def deps_below_def nth_append)
  qed
  moreover have "pl_next_stage ?pl' = of_nat (Suc (length (pl_stages ?pl')))"
    using assms(1) by (simp add: push_stage_stages planner_wf_def add.commute)
  ultimately show ?thesis by (simp add: planner_wf_def)
qed

lemma push_stage_placeholder:
  assumes "planner_wf pl"
  obtains sch k where "fst (push_stage df input part deps pl)
      = UnresolvedShuffleExec (of_nat (Suc (length (pl_stages pl)))) sch k"
  using assms by (auto simp: push_stage_def Let_def planner_wf_def)

text \<open>
  What one call of \<open>split\<close> promises about the planner state: it only appends stages, no more than
  the plan has nodes, keeps the numbering, and returns as dependencies the placeholders of the
  rewritten plan.
\<close>

definition split_ok :: "nat \<Rightarrow> 'x planner \<Rightarrow> u32 list \<Rightarrow> u32 list \<Rightarrow> 'x planner \<Rightarrow> bool" where
  "split_ok k pl unres deps pl' \<longleftrightarrow>
     planner_wf pl' \<and> unres = deps \<and> deps_below (length (pl_stages pl')) deps \<and>
     (\<exists>new. pl_stages pl' = pl_stages pl @ new \<and> length new \<le> k)"

lemma split_ok_refl:
  "planner_wf pl \<Longrightarrow> unres = deps \<Longrightarrow> deps_below (length (pl_stages pl)) deps \<Longrightarrow> split_ok k pl unres deps pl"
  by (simp add: split_ok_def)

lemma push_split_ok:
  assumes "planner_wf pl" and "unresolved_stages input = deps" and "deps_below (length (pl_stages pl)) deps"
    and "push_stage df input part deps pl = (u, pl')"
  shows "split_ok 1 pl (unresolved_stages u) [unresolved_id u] pl'"
    and "unresolved_stages u = [unresolved_id u]"
proof -
  from push_stage_placeholder [OF assms(1), of df input part deps] assms(4)
  obtain sch k where u: "u = UnresolvedShuffleExec (of_nat (Suc (length (pl_stages pl)))) sch k"
    by (metis fst_conv)
  then show "unresolved_stages u = [unresolved_id u]" by simp
  have "planner_wf pl'"
    using push_stage_wf [OF assms(1-3), of df part] assms(4) by simp
  moreover have "\<exists>s. pl_stages pl' = pl_stages pl @ [s]"
    using push_stage_stages(1) [of df input part deps pl] assms(4) by simp
  ultimately show "split_ok 1 pl (unresolved_stages u) [unresolved_id u] pl'"
    by (auto simp: split_ok_def deps_below_def u)
qed

definition is_exchange :: "'x plan \<Rightarrow> bool" where
  "is_exchange p \<longleftrightarrow>
     (case p of RepartitionExec _ _ _ \<Rightarrow> True | CoalescePartitionsExec _ _ \<Rightarrow> True
      | SortPreservingMergeExec _ _ \<Rightarrow> True | _ \<Rightarrow> False)"

text \<open>The outcomes of \<open>cut_exchange\<close>: no cut, the node itself is cut off, or its input is.\<close>

lemma cut_exchange_cases:
  assumes "cut_exchange df p deps pl = Inr ((q, deps'), pl')"
  obtains (same) "q = p" "deps' = deps" "pl' = pl" "\<forall>i pt po. p = RepartitionExec i pt po \<longrightarrow> (\<exists>n. pt = UnknownPartitioning n)"
  | (node) input pt po where "p = RepartitionExec input pt po" "\<forall>n. pt \<noteq> UnknownPartitioning n"
      "push_stage df input (Some pt) deps pl = (q, pl')" "deps' = [unresolved_id q]"
  | (below) input u where "children p = [input]" "is_exchange p" "\<forall>a b c. p \<noteq> RepartitionExec a b c"
      "partition_count df input > 1" "push_stage df input None deps pl = (u, pl')"
      "with_new_children df p [u] = Inr q" "deps' = [unresolved_id u]"
  using assms
  by (cases p)
    (auto simp: cut_exchange_def Let_def is_exchange_def split: partitioning.splits prod.splits if_splits sum.splits)

lemma cut_exchange_ok:
  assumes law: "df_lawful df" and cut: "cut_exchange df p deps pl = Inr ((q, deps'), pl')"
    and wf: "planner_wf pl" "unresolved_stages p = deps" "deps_below (length (pl_stages pl)) deps"
  shows "split_ok 1 pl (unresolved_stages q) deps' pl'"
  using cut
proof (cases rule: cut_exchange_cases)
  case same
  with wf show ?thesis by (simp add: split_ok_refl)
next
  case (node input pt po)
  from node(1) wf(2) have "unresolved_stages input = deps" by simp
  from push_split_ok(1) [OF wf(1) this wf(3) node(3)] node(4) show ?thesis by simp
next
  case (below input u)
  from below(1) wf(2) have inp: "unresolved_stages input = deps"
    using unresolved_stages_children [of p] children_unresolved [of p] by simp
  from with_new_children_lawful [OF law _ below(6)] below(1)
  have q: "q = set_children p [u]" by simp
  then have "unresolved_stages q = unresolved_stages u"
    using below(1) children_set_children [of "[u]" p] unresolved_stages_children [of q]
      children_unresolved [of q] by simp
  with push_split_ok [OF wf(1) inp wf(3) below(5)] below(7) show ?thesis by simp
qed

lemma split_ok_trans:
  assumes "split_ok k pl unres deps pl'" and "split_ok l pl' unres' deps' pl''"
  shows "split_ok (k + l) pl (unres @ unres') (deps @ deps') pl''"
proof -
  have "length (pl_stages pl') \<le> length (pl_stages pl'')"
    using assms(2) by (auto simp: split_ok_def)
  with assms(1) have "deps_below (length (pl_stages pl'')) deps"
    by (auto simp: split_ok_def intro: deps_below_mono)
  moreover have "deps_below (length (pl_stages pl'')) deps'"
    using assms(2) by (simp add: split_ok_def)
  ultimately have "deps_below (length (pl_stages pl'')) (deps @ deps')"
    by (auto simp: deps_below_def)
  then show ?thesis using assms by (auto simp: split_ok_def)
qed

lemma split_ok_then_cut:
  assumes "split_ok k pl u0 d0 pl'" and "split_ok 1 pl' unres deps pl''"
  shows "split_ok (Suc k) pl unres deps pl''"
  using assms by (auto simp: split_ok_def)

lemma split_plan_ok:
  "df_lawful df \<Longrightarrow> split_plan df p pl = Inr ((q, deps), pl') \<Longrightarrow> planner_wf pl \<Longrightarrow>
     unresolved_stages p = [] \<Longrightarrow> split_ok (node_count p) pl (unresolved_stages q) deps pl'"
  "df_lawful df \<Longrightarrow> split_children df ps pl = Inr ((qs, ds), pl') \<Longrightarrow> planner_wf pl \<Longrightarrow>
     \<forall>p\<in>set ps. unresolved_stages p = [] \<Longrightarrow> length qs = length ps \<and>
     split_ok (sum_list (map node_count ps)) pl (concat (map unresolved_stages qs)) ds pl'"
proof (induction df p pl and df ps pl arbitrary: q deps pl' and qs ds pl'
    rule: split_plan_split_children.induct)
  case (1 df p pl)
  have nu: "\<not> is_unresolved p" using "1.prems"(4) by (cases p) auto
  from "1.prems"(2) obtain cs d pl1 where
    cs: "split_children df (children p) pl = Inr ((cs, d), pl1)"
    and rest: "(if cs = [] then cut_exchange df p d pl1
       else case with_new_children df p cs of Inl e \<Rightarrow> Inl e | Inr p' \<Rightarrow> cut_exchange df p' d pl1)
       = Inr ((q, deps), pl')"
    by (subst (asm) split_plan.simps) (auto split: sum.splits)
  have "\<forall>c\<in>set (children p). unresolved_stages c = []"
    using "1.prems"(4) unresolved_stages_children [OF nu] by simp
  from "1.IH" [OF "1.prems"(1) cs "1.prems"(3) this]
  have len: "length cs = length (children p)"
    and ok: "split_ok (sum_list (map node_count (children p))) pl (concat (map unresolved_stages cs)) d pl1"
    by auto
  have "\<exists>p'. cut_exchange df p' d pl1 = Inr ((q, deps), pl') \<and> unresolved_stages p' = d"
  proof (cases "cs = []")
    case True
    with rest ok "1.prems"(4) show ?thesis by (auto simp: split_ok_def)
  next
    case False
    with rest obtain p' where p': "with_new_children df p cs = Inr p'"
      and cut: "cut_exchange df p' d pl1 = Inr ((q, deps), pl')"
      by (auto split: sum.splits)
    from with_new_children_lawful [OF "1.prems"(1) len p'] have "p' = set_children p cs" .
    then have "unresolved_stages p' = concat (map unresolved_stages cs)"
      using nu unresolved_stages_children [of p'] children_set_children [OF len] by simp
    with ok cut show ?thesis by (auto simp: split_ok_def)
  qed
  then obtain p' where cut: "cut_exchange df p' d pl1 = Inr ((q, deps), pl')"
    and un: "unresolved_stages p' = d" by blast
  from ok have "planner_wf pl1" "deps_below (length (pl_stages pl1)) d"
    by (auto simp: split_ok_def)
  from cut_exchange_ok [OF "1.prems"(1) cut this(1) un this(2)]
  have "split_ok 1 pl1 (unresolved_stages q) deps pl'" .
  from split_ok_then_cut [OF ok this] show ?case by (simp add: node_count_children [of p])
next
  case (2 df pl)
  then show ?case by (simp add: split_ok_refl deps_below_def)
next
  case (3 df c cs pl)
  from "3.prems"(2) obtain c' d pl1 cs' ds' where
    c: "split_plan df c pl = Inr ((c', d), pl1)"
    and cs: "split_children df cs pl1 = Inr ((cs', ds'), pl')"
    and eq: "qs = c' # cs'" "ds = d @ ds'"
    by (auto split: sum.splits)
  from "3.IH"(1) [OF "3.prems"(1) c "3.prems"(3)] "3.prems"(4)
  have ok1: "split_ok (node_count c) pl (unresolved_stages c') d pl1" by simp
  then have "planner_wf pl1" by (simp add: split_ok_def)
  with "3.IH"(2) [OF c refl refl "3.prems"(1) cs] "3.prems"(4)
  have "length cs' = length cs"
    and ok2: "split_ok (sum_list (map node_count cs)) pl1 (concat (map unresolved_stages cs')) ds' pl'"
    by simp_all
  with split_ok_trans [OF ok1 ok2] eq show ?case by simp
qed


section \<open>Reassembling a plan from its stages\<close>

text \<open>
  \<open>stitch n ss q\<close> puts the producers back: a placeholder becomes its stage's input, under the
  repartitioning the stage's writer performs if it has one. \<open>n\<close> bounds how many producers may
  be nested in each other; the number of stages is enough.
\<close>

fun stitch :: "nat \<Rightarrow> 'x query_stage list \<Rightarrow> 'x plan \<Rightarrow> 'x plan" where
  "stitch n ss (RepartitionExec p pt po) = RepartitionExec (stitch n ss p) pt po"
| "stitch n ss (CoalescePartitionsExec x p) = CoalescePartitionsExec x (stitch n ss p)"
| "stitch n ss (SortPreservingMergeExec x p) = SortPreservingMergeExec x (stitch n ss p)"
| "stitch n ss (ShuffleWriterExec job sid p part wd) = ShuffleWriterExec job sid (stitch n ss p) part wd"
| "stitch n ss (ShuffleReaderExec job sid sch parts) = ShuffleReaderExec job sid sch parts"
| "stitch n ss (ForeignExec x ps) = ForeignExec x (map (stitch n ss) ps)"
| "stitch 0 ss (UnresolvedShuffleExec sid sch k) = UnresolvedShuffleExec sid sch k"
| "stitch (Suc n) ss (UnresolvedShuffleExec sid sch k) =
     (case find (\<lambda>s. qs_stage_id s = sid) ss of
        None \<Rightarrow> UnresolvedShuffleExec sid sch k
      | Some s \<Rightarrow>
          (case qs_plan s of
             ShuffleWriterExec _ _ p (Some pt) _ \<Rightarrow> RepartitionExec (stitch n ss p) pt False
           | ShuffleWriterExec _ _ p None _ \<Rightarrow> stitch n ss p
           | _ \<Rightarrow> UnresolvedShuffleExec sid sch k))"

text \<open>
  What a plan is after its exchanges were cut: a hash or round-robin repartitioning is done by a writer,
  which has no flag to keep the order of its input.
\<close>

fun order_flag :: "'x partitioning \<Rightarrow> bool \<Rightarrow> bool" where
  "order_flag (UnknownPartitioning _) po = po"
| "order_flag _ po = False"

fun unordered :: "'x plan \<Rightarrow> 'x plan" where
  "unordered (RepartitionExec p pt po) = RepartitionExec (unordered p) pt (order_flag pt po)"
| "unordered (CoalescePartitionsExec x p) = CoalescePartitionsExec x (unordered p)"
| "unordered (SortPreservingMergeExec x p) = SortPreservingMergeExec x (unordered p)"
| "unordered (ShuffleWriterExec job sid p part wd) = ShuffleWriterExec job sid (unordered p) part wd"
| "unordered (UnresolvedShuffleExec sid sch n) = UnresolvedShuffleExec sid sch n"
| "unordered (ShuffleReaderExec job sid sch parts) = ShuffleReaderExec job sid sch parts"
| "unordered (ForeignExec x ps) = ForeignExec x (map unordered ps)"

definition flag_lost :: "'x plan \<Rightarrow> 'x plan" where
  "flag_lost p = (case p of RepartitionExec i pt po \<Rightarrow> RepartitionExec i pt (order_flag pt po) | _ \<Rightarrow> p)"

lemma unordered_node: "unordered p = flag_lost (set_children p (map unordered (children p)))"
  by (cases p) (simp_all add: flag_lost_def)

lemma order_flag_cut: "\<forall>n. pt \<noteq> UnknownPartitioning n \<Longrightarrow> order_flag pt po = False"
  by (cases pt) simp_all

lemma stitch_node:
  "\<not> is_unresolved p \<Longrightarrow> stitch n ss p = set_children p (map (stitch n ss) (children p))"
  by (cases p) auto

text \<open>\<open>q\<close> stands for \<open>p\<close> whatever stages are added later.\<close>

definition stands_for :: "'x query_stage list \<Rightarrow> 'x plan \<Rightarrow> 'x plan \<Rightarrow> bool" where
  "stands_for ss q p \<longleftrightarrow> (\<forall>ext n. length ss \<le> n \<longrightarrow> stitch n (ss @ ext) q = p)"

lemma stands_for_mono: "stands_for ss q p \<Longrightarrow> stands_for (ss @ new) q p"
  by (simp add: stands_for_def)

lemma find_numbered:
  assumes "planner_wf pl" and "length (pl_stages pl) < 2 ^ 32 - 1"
  shows "find (\<lambda>s. qs_stage_id s = of_nat (Suc (length (pl_stages pl)))) (pl_stages pl) = None"
proof -
  have "qs_stage_id (pl_stages pl ! i) \<noteq> of_nat (Suc (length (pl_stages pl)))"
    if "i < length (pl_stages pl)" for i
  proof -
    from assms(1) that have "qs_stage_id (pl_stages pl ! i) = of_nat (Suc i)"
      by (simp add: planner_wf_def stage_wf_def)
    moreover have "(of_nat (Suc i) :: u32) \<noteq> of_nat (Suc (length (pl_stages pl)))"
      using that assms(2) by (subst of_nat_word_inj) auto
    ultimately show ?thesis by simp
  qed
  then show ?thesis by (auto simp: find_None_iff in_set_conv_nth)
qed

lemma push_stands_for:
  assumes wf: "planner_wf pl" and small: "length (pl_stages pl) < 2 ^ 32 - 1"
    and push: "push_stage df input part deps pl = (u, pl')"
    and input: "stands_for (pl_stages pl) input p"
  shows "stands_for (pl_stages pl') u (case part of Some pt \<Rightarrow> RepartitionExec p pt False | None \<Rightarrow> p)"
proof -
  let ?k = "length (pl_stages pl)"
  obtain s where st: "pl_stages pl' = pl_stages pl @ [s]"
    and s: "qs_stage_id s = of_nat (Suc ?k)" "qs_plan s = ShuffleWriterExec (pl_job_id pl) (of_nat (Suc ?k)) input part (pl_work_dir pl)"
    using push_stage_stages(1) [of df input part deps pl] push wf by (auto simp: planner_wf_def)
  obtain sch c where u: "u = UnresolvedShuffleExec (of_nat (Suc ?k)) sch c"
    using push_stage_placeholder [OF wf, of df input part deps] push by (metis fst_conv)
  have "stitch n (pl_stages pl' @ ext) u = (case part of Some pt \<Rightarrow> RepartitionExec p pt False | None \<Rightarrow> p)"
    if "length (pl_stages pl') \<le> n" for n ext
  proof -
    from that st obtain m where n: "n = Suc m" and m: "?k \<le> m" by (cases n) auto
    have fnd: "find (\<lambda>s. qs_stage_id s = of_nat (Suc ?k)) (pl_stages pl @ s # ext) = Some s"
      using find_numbered [OF wf small] s(1) by (simp add: find_append)
    have "stitch m (pl_stages pl @ s # ext) input = p"
      using input m by (simp add: stands_for_def)
    with fnd show ?thesis by (simp add: n u st s(2) split: option.splits del: of_nat_Suc)
  qed
  then show ?thesis by (simp add: stands_for_def)
qed

lemma cut_exchange_stands_for:
  assumes law: "df_lawful df" and cut: "cut_exchange df p deps pl = Inr ((q, deps'), pl')"
    and wf: "planner_wf pl" and small: "length (pl_stages pl) < 2 ^ 32 - 1"
    and p: "\<not> is_unresolved p" "stands_for (pl_stages pl) p p0"
  shows "stands_for (pl_stages pl') q (flag_lost p0)"
  using cut
proof (cases rule: cut_exchange_cases)
  case same
  from p(2) have "p0 = stitch (length (pl_stages pl)) (pl_stages pl @ []) p"
    unfolding stands_for_def by (metis le_refl)
  with same(4) p(1) have "flag_lost p0 = p0" by (cases p) (auto simp: flag_lost_def)
  with same p show ?thesis by simp
next
  case (node input pt po)
  define i0 where "i0 = stitch (length (pl_stages pl)) (pl_stages pl @ []) input"
  have all: "RepartitionExec (stitch n (pl_stages pl @ ext) input) pt po = p0"
    if "length (pl_stages pl) \<le> n" for n ext
    using p(2) node(1) that by (simp add: stands_for_def)
  from all [OF le_refl, of "[]"] have p0: "p0 = RepartitionExec i0 pt po" by (simp add: i0_def)
  with all have i0: "stands_for (pl_stages pl) input i0" by (auto simp: stands_for_def)
  from push_stands_for [OF wf small node(3) i0] p0 order_flag_cut [OF node(2)] show ?thesis by (simp add: flag_lost_def)
next
  case (below input u)
  from with_new_children_lawful [OF law _ below(6)] below(1)
  have q: "q = set_children p [u]" by simp
  have st: "stitch n ss p = set_children p [stitch n ss input]" for n ss
    using stitch_node [OF p(1)] below(1) by simp
  then have "p0 = set_children p [stitch (length (pl_stages pl)) (pl_stages pl) input]"
    using p(2) unfolding stands_for_def by (metis append_Nil2 le_refl)
  then obtain i0 where p0: "p0 = set_children p [i0]" by blast
  have inj: "set_children p [a] = set_children p [b] \<Longrightarrow> a = b" for a b
    using below(1) by (cases p) auto
  have i0: "stands_for (pl_stages pl) input i0"
    using p(2) st p0 inj unfolding stands_for_def by metis
  from push_stands_for [OF wf small below(5) i0] have "stands_for (pl_stages pl') u i0" by simp
  moreover have "flag_lost p0 = p0" using p0 below(1,3) by (cases p) (auto simp: flag_lost_def)
  ultimately show ?thesis
    using p(1) q p0 below(1)
    by (auto simp: stands_for_def stitch_node children_set_children set_children_twice)
qed

lemma split_plan_stands_for:
  "df_lawful df \<Longrightarrow> split_plan df p pl = Inr ((q, deps), pl') \<Longrightarrow> planner_wf pl \<Longrightarrow>
     unresolved_stages p = [] \<Longrightarrow>
     length (pl_stages pl) + node_count p < 2 ^ 32 - 1 \<Longrightarrow> stands_for (pl_stages pl') q (unordered p)"
  "df_lawful df \<Longrightarrow> split_children df ps pl = Inr ((qs, ds), pl') \<Longrightarrow> planner_wf pl \<Longrightarrow>
     \<forall>p\<in>set ps. unresolved_stages p = [] \<Longrightarrow>
     length (pl_stages pl) + sum_list (map node_count ps) < 2 ^ 32 - 1 \<Longrightarrow>
     list_all2 (stands_for (pl_stages pl')) qs (map unordered ps)"
proof (induction df p pl and df ps pl arbitrary: q deps pl' and qs ds pl'
    rule: split_plan_split_children.induct)
  case (1 df p pl)
  have nu: "\<not> is_unresolved p" using "1.prems"(4) by (cases p) auto
  from "1.prems"(2) obtain cs d pl1 where
    cs: "split_children df (children p) pl = Inr ((cs, d), pl1)"
    and rest: "(if cs = [] then cut_exchange df p d pl1
       else case with_new_children df p cs of Inl e \<Rightarrow> Inl e | Inr p' \<Rightarrow> cut_exchange df p' d pl1)
       = Inr ((q, deps), pl')"
    by (subst (asm) split_plan.simps) (auto split: sum.splits)
  have un: "\<forall>c\<in>set (children p). unresolved_stages c = []"
    using "1.prems"(4) unresolved_stages_children [OF nu] by simp
  have bound: "length (pl_stages pl) + sum_list (map node_count (children p)) < 2 ^ 32 - 1"
    using "1.prems"(5) by (simp add: node_count_children [of p])
  from split_plan_ok(2) [OF "1.prems"(1) cs "1.prems"(3) un]
  have len: "length cs = length (children p)" and wf1: "planner_wf pl1"
    and small: "length (pl_stages pl1) < 2 ^ 32 - 1"
    using bound by (auto simp: split_ok_def)
  have all: "list_all2 (stands_for (pl_stages pl1)) cs (map unordered (children p))"
    using "1.IH" [OF "1.prems"(1) cs "1.prems"(3)] un bound by auto
  have "\<exists>p'. cut_exchange df p' d pl1 = Inr ((q, deps), pl') \<and> p' = set_children p cs"
  proof (cases "cs = []")
    case True
    with rest len show ?thesis using set_children_same [of p] by auto
  next
    case False
    with rest obtain p' where p': "with_new_children df p cs = Inr p'"
      and cut: "cut_exchange df p' d pl1 = Inr ((q, deps), pl')"
      by (auto split: sum.splits)
    from with_new_children_lawful [OF "1.prems"(1) len p'] cut show ?thesis by blast
  qed
  then have cut: "cut_exchange df (set_children p cs) d pl1 = Inr ((q, deps), pl')" by blast
  have "map (stitch n (pl_stages pl1 @ ext)) cs = map unordered (children p)" if "length (pl_stages pl1) \<le> n" for n ext
    using all that by (auto simp: list_all2_conv_all_nth stands_for_def list_eq_iff_nth_eq)
  then have "stands_for (pl_stages pl1) (set_children p cs) (set_children p (map unordered (children p)))"
    using nu len by (simp add: stands_for_def stitch_node children_set_children set_children_twice)
  from cut_exchange_stands_for [OF "1.prems"(1) cut wf1 small _ this] nu
  show ?case by (simp add: unordered_node [of p])
next
  case (2 df pl)
  then show ?case by simp
next
  case (3 df c cs pl)
  from "3.prems"(2) obtain c' d pl1 cs' ds' where
    c: "split_plan df c pl = Inr ((c', d), pl1)"
    and cs: "split_children df cs pl1 = Inr ((cs', ds'), pl')"
    and eq: "qs = c' # cs'" "ds = d @ ds'"
    by (auto split: sum.splits)
  from split_plan_ok(1) [OF "3.prems"(1) c "3.prems"(3)] "3.prems"(4)
  have ok1: "split_ok (node_count c) pl (unresolved_stages c') d pl1" by simp
  then have wf1: "planner_wf pl1" and len1: "length (pl_stages pl1) \<le> length (pl_stages pl) + node_count c"
    by (auto simp: split_ok_def)
  have one: "stands_for (pl_stages pl1) c' (unordered c)"
    using "3.IH"(1) [OF "3.prems"(1) c "3.prems"(3)] "3.prems"(4,5) by simp
  have rest: "list_all2 (stands_for (pl_stages pl')) cs' (map unordered cs)"
    using "3.IH"(2) [OF c refl refl "3.prems"(1) cs wf1] "3.prems"(4,5) len1 by simp
  from split_plan_ok(2) [OF "3.prems"(1) cs wf1] "3.prems"(4)
  obtain new where "pl_stages pl' = pl_stages pl1 @ new" by (auto simp: split_ok_def)
  with one have "stands_for (pl_stages pl') c' (unordered c)" by (simp add: stands_for_mono)
  with rest eq show ?case by simp
qed

section \<open>Properties of the planner\<close>

text \<open>The operators of a plan, and whether DataFusion takes one over the readers of its children.\<close>

fun nodes :: "'x plan \<Rightarrow> 'x plan list" where
  "nodes (UnresolvedShuffleExec sid sch n) = [UnresolvedShuffleExec sid sch n]"
| "nodes (ShuffleReaderExec job sid sch parts) = [ShuffleReaderExec job sid sch parts]"
| "nodes (RepartitionExec p pt po) = RepartitionExec p pt po # nodes p"
| "nodes (CoalescePartitionsExec x p) = CoalescePartitionsExec x p # nodes p"
| "nodes (SortPreservingMergeExec x p) = SortPreservingMergeExec x p # nodes p"
| "nodes (ShuffleWriterExec job sid p part wd) = ShuffleWriterExec job sid p part wd # nodes p"
| "nodes (ForeignExec x ps) = ForeignExec x ps # concat (map nodes ps)"

lemma nodes_children: "nodes p = p # concat (map nodes (children p))"
  by (cases p) auto

definition rebuilt :: "'x datafusion \<Rightarrow> string \<Rightarrow> (u32 \<Rightarrow> location list option) \<Rightarrow> 'x plan \<Rightarrow> bool" where
  "rebuilt df job outputs p \<longleftrightarrow> children p = [] \<or>
     (case with_new_children df p (map (readers_for job outputs) (children p)) of Inl _ \<Rightarrow> False | Inr _ \<Rightarrow> True)"

lemma rebuilt_children:
  "list_all (rebuilt df job outputs) (nodes p) \<longleftrightarrow>
     rebuilt df job outputs p \<and> (\<forall>c\<in>set (children p). list_all (rebuilt df job outputs) (nodes c))"
  by (subst nodes_children) (auto simp: list_all_iff)

lemma resolve_rebuilt:
  "df_lawful df \<Longrightarrow> resolve_stage df job outputs p = Inr q \<Longrightarrow> list_all (rebuilt df job outputs) (nodes p)"
  "df_lawful df \<Longrightarrow> resolve_children df job outputs ps = Inr qs \<Longrightarrow> \<forall>p\<in>set ps. list_all (rebuilt df job outputs) (nodes p)"
proof (induction df job outputs p and df job outputs ps arbitrary: q and qs
    rule: resolve_stage_resolve_children.induct)
  case (1 df job outputs p)
  show ?case
  proof (cases "is_unresolved p")
    case True
    then show ?thesis by (cases p) (simp_all add: rebuilt_def)
  next
    case False
    note step = resolve_step [OF False, of df job outputs]
    show ?thesis
    proof (cases "children p = []")
      case True
      then show ?thesis by (subst rebuilt_children) (simp add: rebuilt_def)
    next
      case ne: False
      with step "1.prems" obtain cs where cs: "resolve_children df job outputs (children p) = Inr cs"
        and q: "with_new_children df p cs = Inr q"
        by (auto split: sum.splits)
      have "cs = map (readers_for job outputs) (children p)" using resolve_sound(2) [OF "1.prems"(1) cs] by simp
      with q have "rebuilt df job outputs p" by (simp add: rebuilt_def)
      moreover have "\<forall>c\<in>set (children p). list_all (rebuilt df job outputs) (nodes c)"
        using "1.IH" "1.prems"(1) False ne cs by (cases p) auto
      ultimately show ?thesis by (simp add: rebuilt_children [of df job outputs p])
    qed
  qed
qed (auto split: sum.splits)

lemma resolve_total:
  "df_lawful df \<Longrightarrow> resolvable outputs p \<Longrightarrow> list_all (rebuilt df job outputs) (nodes p) \<Longrightarrow>
     \<exists>q. resolve_stage df job outputs p = Inr q"
  "df_lawful df \<Longrightarrow> \<forall>p\<in>set ps. resolvable outputs p \<and> list_all (rebuilt df job outputs) (nodes p) \<Longrightarrow>
     \<exists>qs. resolve_children df job outputs ps = Inr qs"
proof (induction df job outputs p and df job outputs ps rule: resolve_stage_resolve_children.induct)
  case (1 df job outputs p)
  show ?case
  proof (cases "is_unresolved p")
    case True
    then obtain sid sch n where "p = UnresolvedShuffleExec sid sch n" by (cases p) auto
    with "1.prems"(2) show ?thesis by (simp add: resolve_unresolved)
  next
    case False
    show ?thesis
    proof (cases "children p = []")
      case True
      with resolve_step [OF False, of df job outputs] show ?thesis by simp
    next
      case ne: False
      have r: "rebuilt df job outputs p" and "\<forall>c\<in>set (children p). list_all (rebuilt df job outputs) (nodes c)"
        using "1.prems"(3) rebuilt_children [of df job outputs p] by simp_all
      moreover have "\<forall>c\<in>set (children p). resolvable outputs c"
        using "1.prems"(2) resolvable_children [OF False] by blast
      ultimately obtain cs where cs: "resolve_children df job outputs (children p) = Inr cs"
        using "1.IH" "1.prems"(1) False ne by (cases p) auto
      have "cs = map (readers_for job outputs) (children p)" using resolve_sound(2) [OF "1.prems"(1) cs] by simp
      with r ne obtain q where "with_new_children df p cs = Inr q" by (auto simp: rebuilt_def split: sum.splits)
      with resolve_step [OF False, of df job outputs] ne cs show ?thesis by simp
    qed
  qed
qed (auto split: sum.splits)

text \<open>A DataFusion instance for the witnesses: scans have the partition count of their payload.\<close>

fun sample_partitions :: "nat plan \<Rightarrow> nat" where
  "sample_partitions (RepartitionExec _ (Hash _ n) _) = n"
| "sample_partitions (RepartitionExec _ (RoundRobinBatch n) _) = n"
| "sample_partitions (RepartitionExec _ (UnknownPartitioning n) _) = n"
| "sample_partitions (ForeignExec n _) = n"
| "sample_partitions _ = 1"

definition sample_df :: "nat datafusion" where
  "sample_df =
     \<lparr>df_with_new_children = (\<lambda>p cs. Inr (set_children p cs)),
      df_partition_count = sample_partitions,
      df_schema = (\<lambda>_. [])\<rparr>"

definition sample_plan :: "nat plan" where
  "sample_plan = CoalescePartitionsExec 0
     (RepartitionExec (ForeignExec 2 []) (Hash [7] 3) False)"

lemma sample_df_lawful: "df_lawful sample_df"
  by (simp add: df_lawful_def sample_df_def)

lemma sample_stages:
  "\<exists>ss. plan_stages sample_df ''j'' ''/w'' sample_plan = Inr ss \<and> length ss = 3"
  by (simp add: plan_stages_def sample_plan_def sample_df_def split_plan.simps cut_exchange_def
      push_stage_def planner_new_def Let_def)

lemma plan_stages_numbered_lemma:
  assumes "df_lawful df" and "unresolved_stages p = []" and "plan_stages df job wd p = Inr ss"
  shows "ss \<noteq> [] \<and> length ss \<le> Suc (node_count p) \<and> (\<forall>i<length ss. stage_wf ss i)"
proof -
  from assms(3) obtain root deps pl where split: "split_plan df p (planner_new job wd) = Inr ((root, deps), pl)"
    and ss: "ss = pl_stages (snd (push_stage df root None deps pl))"
    by (auto simp: plan_stages_def split: sum.splits)
  from split_plan_ok(1) [OF assms(1) split planner_wf_new assms(2)]
  have ok: "planner_wf pl" "unresolved_stages root = deps" "deps_below (length (pl_stages pl)) deps"
    "length (pl_stages pl) \<le> node_count p"
    by (auto simp: split_ok_def planner_new_def)
  from push_stage_wf [OF ok(1-3), of df None] ok(4) show ?thesis
    by (simp add: ss planner_wf_def push_stage_stages(1))
qed

text \<open>Splitting a plan numbers the stages 1, 2, ... in the order they were cut, gives every
  stage at least one task and its own writer as root, lists as a stage's dependencies exactly the
  placeholders left in its plan, and lets a stage depend on earlier stages only (so the stage graph
  is acyclic); there is at least one stage and at most one per plan node plus the result stage.\<close>

theorem plan_stages_numbered:
  assumes "df_lawful df" and "unresolved_stages p = []" and "plan_stages df job wd p = Inr ss"
  shows "ss \<noteq> [] \<and> length ss \<le> Suc (node_count p) \<and> (\<forall>i<length ss. stage_wf ss i)"
  using assms by (rule plan_stages_numbered_lemma)

theorem plan_stages_numbered_witness:
  "\<exists>ss. plan_stages sample_df ''j'' ''/w'' sample_plan = Inr ss \<and> length ss = 3
     \<and> (\<forall>i<length ss. stage_wf ss i)"
proof -
  obtain ss where ss: "plan_stages sample_df ''j'' ''/w'' sample_plan = Inr ss" "length ss = 3"
    using sample_stages by blast
  have "unresolved_stages sample_plan = []" by (simp add: sample_plan_def)
  from plan_stages_numbered [OF sample_df_lawful this ss(1)] ss show ?thesis by blast
qed

text \<open>C34: Splitting loses nothing but the order flag: the last stage is the result stage, its writer
  partitions by identity, and putting every producer back in place of its placeholder (with the
  repartitioning its writer performs) gives the submitted plan again, except that a hash or
  round-robin repartitioning which was to keep the order of its input no longer says so.\<close>

theorem plan_stages_reassemble:
  assumes "df_lawful df" and "unresolved_stages p = []"
    and "node_count p < 2 ^ 32 - 1" and "plan_stages df job wd p = Inr ss"
  shows "\<exists>j sid input w. qs_plan (last ss) = ShuffleWriterExec j sid input None w
           \<and> stitch (length ss) ss input = unordered p"
proof -
  from assms(4) obtain root deps pl where split: "split_plan df p (planner_new job wd) = Inr ((root, deps), pl)"
    and ss: "ss = pl_stages (snd (push_stage df root None deps pl))"
    by (auto simp: plan_stages_def split: sum.splits)
  have "stands_for (pl_stages pl) root (unordered p)"
    using split_plan_stands_for(1) [OF assms(1) split planner_wf_new assms(2)] assms(3)
    by (simp add: planner_new_def)
  then show ?thesis
    by (auto simp: ss push_stage_stages(1) stands_for_def)
qed

theorem plan_stages_reassemble_witness:
  "\<exists>ss j sid input w. plan_stages sample_df ''j'' ''/w'' sample_plan = Inr ss
     \<and> qs_plan (last ss) = ShuffleWriterExec j sid input None w
     \<and> stitch (length ss) ss input = sample_plan"
proof -
  obtain ss where ss: "plan_stages sample_df ''j'' ''/w'' sample_plan = Inr ss"
    using sample_stages by blast
  have "unresolved_stages sample_plan = []" "unordered sample_plan = sample_plan" "node_count sample_plan < 2 ^ 32 - 1"
    by (simp_all add: sample_plan_def)
  with plan_stages_reassemble [OF sample_df_lawful this(1,3) ss] ss show ?thesis by auto
qed

text \<open>C39: Resolution is exact: for a lawful rebuild of nodes, \<open>resolve_stage\<close> succeeds exactly when
  every placeholder's producer has reported, no report lies beyond the consumer's partition count,
  and no node with children refuses its new children; then the result is the plan with every
  placeholder replaced by the reader of its producer's outputs, sorted by output partition, and no
  placeholder is left.\<close>

theorem resolve_stage_exact:
  assumes "df_lawful df"
  shows "(resolve_stage df job outputs p = Inr q \<longleftrightarrow>
       resolvable outputs p \<and> list_all (rebuilt df job outputs) (nodes p) \<and> q = readers_for job outputs p)
     \<and> (resolve_stage df job outputs p = Inr q \<longrightarrow> unresolved_stages q = [])"
proof -
  have iff: "resolve_stage df job outputs p = Inr q \<longleftrightarrow>
     resolvable outputs p \<and> list_all (rebuilt df job outputs) (nodes p) \<and> q = readers_for job outputs p"
    using resolve_sound(1) [OF assms] resolve_rebuilt(1) [OF assms] resolve_total(1) [OF assms] by (metis sum.inject(2))
  moreover have "unresolved_stages q = []" if "resolve_stage df job outputs p = Inr q"
  proof -
    from that iff have r: "resolvable outputs p" and q: "q = readers_for job outputs p" by auto
    have "\<forall>sid\<in>set (unresolved_stages p). outputs sid \<noteq> None"
      using r by (fastforce simp: resolvable_def simp flip: map_fst_placeholders split: option.splits)
    then show ?thesis by (simp add: q unresolved_readers_for)
  qed
  ultimately show ?thesis by blast
qed

definition sample_location :: "u32 \<Rightarrow> u32 \<Rightarrow> location" where
  "sample_location m r =
     \<lparr>loc_map_partition = m, loc_output_partition = r, loc_executor_id = ''e1'',
      loc_executor_addr = ''http://h:1'', loc_path = ''/p'', loc_num_rows = 1, loc_num_bytes = 8,
      loc_num_batches = 1\<rparr>"

theorem resolve_stage_exact_witness:
  "resolve_stage sample_df ''j'' [1 \<mapsto> [sample_location 0 1, sample_location 1 0]]
      (ForeignExec 2 [UnresolvedShuffleExec 1 [] 2])
    = Inr (ForeignExec 2 [ShuffleReaderExec ''j'' 1 [] [[sample_location 1 0], [sample_location 0 1]]])"
  using resolve_stage_exact [OF sample_df_lawful, of "''j''"
      "[1 \<mapsto> [sample_location 0 1, sample_location 1 0]]" "ForeignExec 2 [UnresolvedShuffleExec 1 [] 2]"]
  by (simp add: resolvable_def partition_table_def sample_location_def upt_rec rebuilt_def sample_df_def)

end
