(* ===== verification/Machines.thy ===== *)
theory Machines
  imports Prelude
begin

text \<open>
  The contract every stateful component of the development is checked against: a step function
  over events that keeps an invariant for every admissible event, and, for components that come to
  rest, a set of settled states whose outcome no later event changes. The components interpret
  these locales on their own operations; what holds of whole runs is proved here once.
\<close>

locale machine =
  fixes step :: "'e \<Rightarrow> 's \<Rightarrow> 's"
    and admissible :: "'e \<Rightarrow> bool"
    and inv :: "'s \<Rightarrow> bool"
  assumes inv_step: "inv s \<Longrightarrow> admissible e \<Longrightarrow> inv (step e s)"
begin

lemma inv_run: "inv s \<Longrightarrow> list_all admissible es \<Longrightarrow> inv (fold step es s)"
  by (induction es arbitrary: s) (auto intro: inv_step)

text \<open>A relation every step respects, from its start, holds along a run.\<close>

lemma run_induct:
  assumes "inv s" and "list_all admissible es" and "P s"
    and "\<And>s e. inv s \<Longrightarrow> e \<in> set es \<Longrightarrow> P s \<Longrightarrow> P (step e s)"
  shows "P (fold step es s)"
proof -
  have "inv (fold step es s) \<and> P (fold step es s)"
    using assms by (induction es arbitrary: s) (auto intro: inv_step)
  then show ?thesis by blast
qed

end

locale settling_machine = machine +
  fixes settled :: "'s \<Rightarrow> bool"
    and outcome :: "'s \<Rightarrow> 'o"
  assumes settled_step: "inv s \<Longrightarrow> settled s \<Longrightarrow> admissible e \<Longrightarrow> settled (step e s)"
    and outcome_step: "inv s \<Longrightarrow> settled s \<Longrightarrow> admissible e \<Longrightarrow> outcome (step e s) = outcome s"
begin

lemma settled_run:
  "inv s \<Longrightarrow> list_all admissible es \<Longrightarrow> settled s \<Longrightarrow>
     settled (fold step es s) \<and> outcome (fold step es s) = outcome s"
  by (rule run_induct) (auto simp: list_all_iff settled_step outcome_step)

end

end
