(* ===== verification/Forge_Job.thy ===== *)
theory Forge_Job
  imports Forge_Stages Machines
begin

text \<open>
  The state machine of one distributed job (\<open>forge-scheduler/src/job.rs\<close>): its stages, tasks and
  attempts, and every operation the scheduler performs on it.

  What the operations ask of code outside \<open>src/\<close> is the parameter \<open>engine\<close>: DataFusion, the
  plan encoder (\<open>ForgeCodec::encode_plan\<close> delegates to datafusion-proto) and DataFusion's plan
  display. The clock \<open>now_ms()\<close> is the argument \<open>now\<close>: the readings within one operation are
  taken as one.
\<close>

section \<open>State\<close>

type_synonym bytes = "8 word list"

record 'x engine =
  eng_df :: "'x datafusion"
  eng_encode :: "'x plan \<Rightarrow> string + bytes"
  eng_display :: "'x plan \<Rightarrow> string"

datatype task_state = TPending | TRunning string | TCompleted string | TFailed string

record task_slot =
  ts_partition :: u32
  ts_attempt :: u32
  ts_state :: task_state
  ts_outputs :: "location list"
  ts_metrics :: task_metrics
  ts_started_ms :: u64
  ts_finished_ms :: u64

datatype stage_status = Blocked | Runnable | StageCompleted | StageFailed

record 'x stage_state =
  ss_stage :: "'x query_stage"
  ss_status :: stage_status
  ss_encoded_plan :: "bytes option"
  ss_resolved_plan :: "'x plan option"
  ss_tasks :: "task_slot list"
  ss_started_ms :: u64
  ss_finished_ms :: u64

datatype job_status = JobRunning | JobCompleted | JobFailed string | JobCancelled

record stage_summary =
  sum_stage_id :: u32
  sum_num_tasks :: u32
  sum_output_rows :: u64
  sum_output_bytes :: u64
  sum_elapsed_ms :: u64

record job_result =
  jr_job_id :: string
  jr_schema :: schema
  jr_partitions :: "location list list"
  jr_stages :: "stage_summary list"
  jr_elapsed_ms :: u64

text \<open>
  \<open>result_tx : Option<oneshot::Sender>\<close>: the sender while it is there, and after \<open>take()\<close> and
  \<open>send\<close> the one value the channel carries.
\<close>

datatype 'r oneshot = TxOpen | TxSent 'r

record 'x job_state =
  js_job_id :: string
  js_sql :: string
  js_session_config :: "(string \<times> string) list"
  js_max_retries :: u32
  js_submitted_ms :: u64
  js_finished_ms :: u64
  js_status :: job_status
  js_stages :: "(u32, 'x stage_state) btree"
  js_final_stage :: u32
  js_result_schema :: schema
  js_result_tx :: "(forge_error + job_result) oneshot"

record transition =
  tr_stages_completed :: "u32 list"
  tr_job_finished :: bool
  tr_cancel :: "(string \<times> task_id) list"

definition default_transition :: transition where
  "default_transition = \<lparr>tr_stages_completed = [], tr_job_finished = False, tr_cancel = []\<rparr>"

section \<open>Stages\<close>

definition task_new :: "u32 \<Rightarrow> task_slot" where
  "task_new p =
     \<lparr>ts_partition = p, ts_attempt = 0, ts_state = TPending, ts_outputs = [],
      ts_metrics = default_metrics, ts_started_ms = 0, ts_finished_ms = 0\<rparr>"

text \<open>\<open>StageState::new\<close>; \<open>num_tasks as u32\<close> truncates.\<close>

definition stage_new :: "'x query_stage \<Rightarrow> 'x stage_state" where
  "stage_new s =
     \<lparr>ss_stage = s,
      ss_status = (if qs_depends_on s = [] then Runnable else Blocked),
      ss_encoded_plan = None,
      ss_resolved_plan = None,
      ss_tasks = map (\<lambda>p. task_new (of_nat p)) [0..<unat (of_nat (qs_num_tasks s) :: u32)],
      ss_started_ms = 0,
      ss_finished_ms = 0\<rparr>"

definition all_outputs :: "'x stage_state \<Rightarrow> location list" where
  "all_outputs st = concat (map ts_outputs (ss_tasks st))"

fun is_completed :: "task_state \<Rightarrow> bool" where
  "is_completed (TCompleted _) = True"
| "is_completed _ = False"

fun is_running :: "task_state \<Rightarrow> bool" where
  "is_running (TRunning _) = True"
| "is_running _ = False"

fun is_failed :: "task_state \<Rightarrow> bool" where
  "is_failed (TFailed _) = True"
| "is_failed _ = False"

definition stage_complete :: "'x stage_state \<Rightarrow> bool" where
  "stage_complete st = list_all (\<lambda>t. is_completed (ts_state t)) (ss_tasks st)"

definition count_tasks :: "(task_state \<Rightarrow> bool) \<Rightarrow> 'x stage_state \<Rightarrow> u32" where
  "count_tasks P st = of_nat (length (filter (\<lambda>t. P (ts_state t)) (ss_tasks st)))"

definition stage_counts :: "'x stage_state \<Rightarrow> u32 \<times> u32 \<times> u32" where
  "stage_counts st = (count_tasks is_completed st, count_tasks is_running st, count_tasks is_failed st)"

definition stage_summary_of :: "'x stage_state \<Rightarrow> stage_summary" where
  "stage_summary_of st =
     \<lparr>sum_stage_id = qs_stage_id (ss_stage st),
      sum_num_tasks = of_nat (qs_num_tasks (ss_stage st)),
      sum_output_rows = sum_list (map loc_num_rows (all_outputs st)),
      sum_output_bytes = sum_list (map loc_num_bytes (all_outputs st)),
      sum_elapsed_ms = sat_sub (ss_finished_ms st) (ss_started_ms st)\<rparr>"

section \<open>Construction and stage preparation\<close>

text \<open>\<open>prepare_stage\<close>: the outputs of the completed stages, by stage id.\<close>

definition completed_outputs :: "'x job_state \<Rightarrow> u32 \<Rightarrow> location list option" where
  "completed_outputs j = map_of (rev (map (\<lambda>st. (qs_stage_id (ss_stage st), all_outputs st))
     (filter (\<lambda>st. ss_status st = StageCompleted) (map snd (js_stages j)))))"

definition prepare_stage ::
  "'x engine \<Rightarrow> u64 \<Rightarrow> u32 \<Rightarrow> 'x job_state \<Rightarrow> forge_error + 'x job_state" where
  "prepare_stage eng now sid j =
     (case map_of (js_stages j) sid of
        None \<Rightarrow> Inl (SchedulerErr (''unknown stage '' @ show_word sid))
      | Some st \<Rightarrow>
          (case resolve_stage (eng_df eng) (js_job_id j) (completed_outputs j) (qs_plan (ss_stage st)) of
             Inl e \<Rightarrow> Inl (DataFusion e)
           | Inr resolved \<Rightarrow>
               (case eng_encode eng resolved of
                  Inl e \<Rightarrow> Inl (DataFusion e)
                | Inr bs \<Rightarrow>
                    Inr (j\<lparr>js_stages := adjust sid
                      (\<lambda>st. st\<lparr>ss_encoded_plan := Some bs, ss_resolved_plan := Some resolved,
                               ss_status := Runnable, ss_started_ms := now\<rparr>) (js_stages j)\<rparr>))))"

fun prepare_runnable ::
  "'x engine \<Rightarrow> u64 \<Rightarrow> u32 list \<Rightarrow> 'x job_state \<Rightarrow> forge_error + 'x job_state" where
  "prepare_runnable eng now [] j = Inr j"
| "prepare_runnable eng now (sid # sids) j =
     (if map_option ss_status (map_of (js_stages j) sid) = Some Runnable
      then (case prepare_stage eng now sid j of
              Inl e \<Rightarrow> Inl e
            | Inr j' \<Rightarrow> prepare_runnable eng now sids j')
      else prepare_runnable eng now sids j)"

definition job_new ::
  "'x engine \<Rightarrow> u64 \<Rightarrow> string \<Rightarrow> string \<Rightarrow> (string \<times> string) list \<Rightarrow> u32
     \<Rightarrow> 'x query_stage list \<Rightarrow> schema \<Rightarrow> forge_error + 'x job_state" where
  "job_new eng now job_id sql config max_retries stages schema =
     (if stages = [] then Inl (SchedulerErr ''plan produced no stages'')
      else
        let m = fold (\<lambda>s m. bt_insert (qs_stage_id s) (stage_new s) m) stages [];
            job = \<lparr>js_job_id = job_id, js_sql = sql, js_session_config = config,
                   js_max_retries = max_retries, js_submitted_ms = now, js_finished_ms = 0,
                   js_status = JobRunning, js_stages = m,
                   js_final_stage = qs_stage_id (last stages),
                   js_result_schema = schema, js_result_tx = TxOpen\<rparr>
        in prepare_runnable eng now (map fst m) job)"

definition is_active :: "'x job_state \<Rightarrow> bool" where
  "is_active j \<longleftrightarrow> js_status j = JobRunning"

text \<open>\<open>pending_tasks\<close>: (stage, partition, attempt, encoded plan) of every launchable task.\<close>

definition pending_tasks :: "'x job_state \<Rightarrow> (u32 \<times> u32 \<times> u32 \<times> bytes) list" where
  "pending_tasks j =
     (if \<not> is_active j then []
      else concat (map (\<lambda>(_, st).
        if ss_status st \<noteq> Runnable then []
        else case ss_encoded_plan st of
               None \<Rightarrow> []
             | Some plan \<Rightarrow>
                 map (\<lambda>t. (qs_stage_id (ss_stage st), ts_partition t, ts_attempt t, plan))
                   (filter (\<lambda>t. ts_state t = TPending) (ss_tasks st))) (js_stages j)))"

section \<open>Task transitions\<close>

text \<open>\<open>task_mut\<close>, as a lookup and an update.\<close>

definition get_task :: "'x job_state \<Rightarrow> u32 \<Rightarrow> u32 \<Rightarrow> task_slot option" where
  "get_task j sid p =
     (case map_of (js_stages j) sid of
        None \<Rightarrow> None
      | Some st \<Rightarrow> (if unat p < length (ss_tasks st) then Some (ss_tasks st ! unat p) else None))"

definition upd_task :: "u32 \<Rightarrow> u32 \<Rightarrow> (task_slot \<Rightarrow> task_slot) \<Rightarrow> 'x job_state \<Rightarrow> 'x job_state" where
  "upd_task sid p f j = j\<lparr>js_stages := adjust sid
     (\<lambda>st. st\<lparr>ss_tasks := (ss_tasks st)[unat p := f (ss_tasks st ! unat p)]\<rparr>) (js_stages j)\<rparr>"

definition mark_running :: "u64 \<Rightarrow> u32 \<Rightarrow> u32 \<Rightarrow> u32 \<Rightarrow> string \<Rightarrow> 'x job_state \<Rightarrow> 'x job_state" where
  "mark_running now sid p attempt executor_id j =
     (case get_task j sid p of
        None \<Rightarrow> j
      | Some t \<Rightarrow>
          (if ts_attempt t = attempt \<and> ts_state t = TPending
           then upd_task sid p (\<lambda>t. t\<lparr>ts_state := TRunning executor_id, ts_started_ms := now\<rparr>) j
           else j))"

definition mark_pending :: "u32 \<Rightarrow> u32 \<Rightarrow> u32 \<Rightarrow> 'x job_state \<Rightarrow> 'x job_state" where
  "mark_pending sid p attempt j =
     (case get_task j sid p of
        None \<Rightarrow> j
      | Some t \<Rightarrow>
          (if ts_attempt t = attempt \<and> is_running (ts_state t)
           then upd_task sid p (\<lambda>t. t\<lparr>ts_state := TPending\<rparr>) j
           else j))"

text \<open>\<open>running_tasks\<close>: the executor and identity of every running task.\<close>

definition running_tasks :: "'x job_state \<Rightarrow> (string \<times> task_id) list" where
  "running_tasks j =
     concat (map (\<lambda>(_, st). concat (map (\<lambda>t.
        case ts_state t of
          TRunning executor_id \<Rightarrow>
            [(executor_id, \<lparr>tid_job = js_job_id j, tid_stage = qs_stage_id (ss_stage st),
                            tid_partition = ts_partition t, tid_attempt = ts_attempt t\<rparr>)]
        | _ \<Rightarrow> []) (ss_tasks st))) (js_stages j))"

text \<open>Sending on the result channel: only the first value goes through (\<open>take()\<close>).\<close>

definition send_result :: "forge_error + job_result \<Rightarrow> 'x job_state \<Rightarrow> 'x job_state" where
  "send_result r j = (case js_result_tx j of TxOpen \<Rightarrow> j\<lparr>js_result_tx := TxSent r\<rparr> | TxSent _ \<Rightarrow> j)"

text \<open>
  \<open>finish_ok\<close>: the final stage's outputs, grouped by output partition; a location out of range
  is dropped. The planner builds every stage with a writer as root, so \<open>writer()\<close> does not panic.
\<close>

definition result_partitions :: "'x stage_state \<Rightarrow> location list list" where
  "result_partitions st =
     (let n = max (case qs_writer_partitioning (qs_plan (ss_stage st)) of
                     Some (Some _) \<Rightarrow> qs_output_partitions (ss_stage st)
                   | _ \<Rightarrow> qs_num_tasks (ss_stage st)) 1
      in fold (\<lambda>loc parts.
           let idx = unat (loc_output_partition loc)
           in if idx < n then parts[idx := parts ! idx @ [loc]] else parts)
         (all_outputs st) (replicate n []))"

definition finish_ok :: "u64 \<Rightarrow> 'x job_state \<Rightarrow> 'x job_state" where
  "finish_ok now j =
     (case map_of (js_stages j) (js_final_stage j) of
        None \<Rightarrow> j
      | Some final \<Rightarrow>
          send_result (Inr \<lparr>jr_job_id = js_job_id j, jr_schema = js_result_schema j,
                            jr_partitions = result_partitions final,
                            jr_stages = map (\<lambda>(_, st). stage_summary_of st) (js_stages j),
                            jr_elapsed_ms = sat_sub now (js_submitted_ms j)\<rparr>)
            (j\<lparr>js_status := JobCompleted, js_finished_ms := now\<rparr>))"

definition finish_err :: "u64 \<Rightarrow> string \<Rightarrow> 'x job_state \<Rightarrow> 'x job_state" where
  "finish_err now msg j =
     send_result (Inl (Execution msg)) (j\<lparr>js_status := JobFailed msg, js_finished_ms := now\<rparr>)"

definition unblock_candidates :: "u32 \<Rightarrow> 'x job_state \<Rightarrow> u32 list" where
  "unblock_candidates completed j =
     map (\<lambda>st. qs_stage_id (ss_stage st))
       (filter (\<lambda>st. list_all (\<lambda>d. map_option ss_status (map_of (js_stages j) d) = Some StageCompleted)
                       (qs_depends_on (ss_stage st)))
         (filter (\<lambda>st. ss_status st = Blocked \<and> completed \<in> set (qs_depends_on (ss_stage st)))
           (map snd (js_stages j))))"

text \<open>The preparation loop: an error leaves what was prepared before it.\<close>

fun prepare_all ::
  "'x engine \<Rightarrow> u64 \<Rightarrow> u32 list \<Rightarrow> 'x job_state \<Rightarrow> 'x job_state \<times> forge_error option" where
  "prepare_all eng now [] j = (j, None)"
| "prepare_all eng now (sid # sids) j =
     (case prepare_stage eng now sid j of
        Inl e \<Rightarrow> (j, Some e)
      | Inr j' \<Rightarrow> prepare_all eng now sids j')"

definition unblock_dependents ::
  "'x engine \<Rightarrow> u64 \<Rightarrow> u32 \<Rightarrow> 'x job_state \<Rightarrow> 'x job_state \<times> forge_error option" where
  "unblock_dependents eng now completed j = prepare_all eng now (unblock_candidates completed j) j"

definition task_completed ::
  "'x engine \<Rightarrow> u64 \<Rightarrow> task_id \<Rightarrow> string \<Rightarrow> location list \<Rightarrow> task_metrics option
     \<Rightarrow> 'x job_state \<Rightarrow> 'x job_state \<times> (forge_error + transition)" where
  "task_completed eng now tid executor_id outputs metrics j =
     (if \<not> is_active j then (j, Inr default_transition)
      else case get_task j (tid_stage tid) (tid_partition tid) of
        None \<Rightarrow> (j, Inr default_transition)
      | Some t \<Rightarrow>
          if ts_attempt t \<noteq> tid_attempt tid \<or> is_completed (ts_state t) then (j, Inr default_transition)
          else
            let j1 = upd_task (tid_stage tid) (tid_partition tid)
                  (\<lambda>t. t\<lparr>ts_state := TCompleted executor_id, ts_outputs := outputs,
                         ts_metrics := (case metrics of None \<Rightarrow> default_metrics | Some m \<Rightarrow> m),
                         ts_finished_ms := now\<rparr>) j;
                stage_done = (case map_of (js_stages j1) (tid_stage tid) of
                                None \<Rightarrow> False | Some st \<Rightarrow> stage_complete st)
            in if \<not> stage_done then (j1, Inr default_transition)
               else
                 let j2 = j1\<lparr>js_stages := adjust (tid_stage tid)
                       (\<lambda>st. st\<lparr>ss_status := StageCompleted, ss_finished_ms := now\<rparr>) (js_stages j1)\<rparr>;
                     tr = default_transition\<lparr>tr_stages_completed := [tid_stage tid]\<rparr>
                 in case unblock_dependents eng now (tid_stage tid) j2 of
                      (j3, Some e) \<Rightarrow> (j3, Inl e)
                    | (j3, None) \<Rightarrow>
                        if tid_stage tid = js_final_stage j3
                        then (finish_ok now j3, Inr (tr\<lparr>tr_job_finished := True\<rparr>))
                        else (j3, Inr tr))"

definition failure_message :: "task_id \<Rightarrow> string \<Rightarrow> string" where
  "failure_message tid error =
     ''task '' @ show_task_id tid @ '' failed after '' @ show_word (tid_attempt tid + 1)
       @ '' attempts: '' @ error"

definition task_failed ::
  "u64 \<Rightarrow> task_id \<Rightarrow> string \<Rightarrow> 'x job_state \<Rightarrow> 'x job_state \<times> transition" where
  "task_failed now tid error j =
     (if \<not> is_active j then (j, default_transition)
      else case get_task j (tid_stage tid) (tid_partition tid) of
        None \<Rightarrow> (j, default_transition)
      | Some t \<Rightarrow>
          if ts_attempt t \<noteq> tid_attempt tid \<or> is_completed (ts_state t) then (j, default_transition)
          else if ts_attempt t < js_max_retries j
          then (upd_task (tid_stage tid) (tid_partition tid)
                  (\<lambda>t. t\<lparr>ts_attempt := ts_attempt t + 1, ts_state := TPending\<rparr>) j, default_transition)
          else
            let j1 = upd_task (tid_stage tid) (tid_partition tid) (\<lambda>t. t\<lparr>ts_state := TFailed error\<rparr>) j;
                j2 = j1\<lparr>js_stages := adjust (tid_stage tid)
                      (\<lambda>st. st\<lparr>ss_status := StageFailed, ss_finished_ms := now\<rparr>) (js_stages j1)\<rparr>
            in (finish_err now (failure_message tid error) j2,
                default_transition\<lparr>tr_cancel := running_tasks j2, tr_job_finished := True\<rparr>))"

text \<open>\<open>executor_lost\<close>: the loop over all tasks, and whether it met a completed task of the executor.\<close>

definition requeue_lost :: "string \<Rightarrow> task_slot \<Rightarrow> task_slot" where
  "requeue_lost e t =
     (if ts_state t = TRunning e then t\<lparr>ts_attempt := ts_attempt t + 1, ts_state := TPending\<rparr> else t)"

definition job_executor_lost :: "u64 \<Rightarrow> string \<Rightarrow> 'x job_state \<Rightarrow> 'x job_state \<times> transition" where
  "job_executor_lost now e j =
     (if \<not> is_active j then (j, default_transition)
      else
        let lost_outputs = list_ex (\<lambda>(_, st). list_ex (\<lambda>t. ts_state t = TCompleted e) (ss_tasks st)) (js_stages j);
            j1 = j\<lparr>js_stages := map (\<lambda>(sid, st). (sid, st\<lparr>ss_tasks := map (requeue_lost e) (ss_tasks st)\<rparr>)) (js_stages j)\<rparr>
        in if lost_outputs
           then (finish_err now (''executor '' @ e @ '' lost with shuffle output still required'') j1,
                 default_transition\<lparr>tr_cancel := running_tasks j1, tr_job_finished := True\<rparr>)
           else (j1, default_transition))"

definition job_cancel :: "u64 \<Rightarrow> 'x job_state \<Rightarrow> 'x job_state \<times> transition" where
  "job_cancel now j =
     (if \<not> is_active j then (j, default_transition)
      else (send_result (Inl Cancelled) (j\<lparr>js_status := JobCancelled, js_finished_ms := now\<rparr>),
            default_transition\<lparr>tr_cancel := running_tasks j, tr_job_finished := True\<rparr>))"

section \<open>Reports\<close>

record query_progress =
  qp_total_stages :: u32
  qp_completed_stages :: u32
  qp_total_tasks :: u32
  qp_completed_tasks :: u32
  qp_running_tasks :: u32
  qp_failed_tasks :: u32

definition job_progress :: "'x job_state \<Rightarrow> query_progress" where
  "job_progress j =
     (let sts = map snd (js_stages j)
      in \<lparr>qp_total_stages = of_nat (length sts),
          qp_completed_stages = of_nat (length (filter (\<lambda>st. ss_status st = StageCompleted) sts)),
          qp_total_tasks = sum_list (map (\<lambda>st. of_nat (qs_num_tasks (ss_stage st))) sts),
          qp_completed_tasks = sum_list (map (\<lambda>st. fst (stage_counts st)) sts),
          qp_running_tasks = sum_list (map (\<lambda>st. fst (snd (stage_counts st))) sts),
          qp_failed_tasks = sum_list (map (\<lambda>st. snd (snd (stage_counts st))) sts)\<rparr>)"

record job_info =
  ji_job_id :: string
  ji_sql :: string
  ji_state :: string
  ji_submitted_ms :: u64
  ji_finished_ms :: u64
  ji_progress :: "query_progress option"
  ji_error :: string

fun job_status_text :: "job_status \<Rightarrow> string \<times> string" where
  "job_status_text JobRunning = (''RUNNING'', '''')"
| "job_status_text JobCompleted = (''COMPLETED'', '''')"
| "job_status_text (JobFailed e) = (''FAILED'', e)"
| "job_status_text JobCancelled = (''CANCELLED'', '''')"

definition job_info_of :: "'x job_state \<Rightarrow> job_info" where
  "job_info_of j =
     \<lparr>ji_job_id = js_job_id j, ji_sql = js_sql j, ji_state = fst (job_status_text (js_status j)),
      ji_submitted_ms = js_submitted_ms j, ji_finished_ms = js_finished_ms j,
      ji_progress = Some (job_progress j), ji_error = snd (job_status_text (js_status j))\<rparr>"

record stage_info =
  si_stage_id :: u32
  si_state :: string
  si_num_partitions :: u32
  si_completed :: u32
  si_running :: u32
  si_failed :: u32
  si_plan :: string
  si_depends_on :: "u32 list"

fun stage_status_text :: "stage_status \<Rightarrow> string" where
  "stage_status_text Blocked = ''Blocked''"
| "stage_status_text Runnable = ''Runnable''"
| "stage_status_text StageCompleted = ''Completed''"
| "stage_status_text StageFailed = ''Failed''"

definition stage_info_of :: "'x engine \<Rightarrow> 'x stage_state \<Rightarrow> stage_info" where
  "stage_info_of eng st =
     (let (completed, running, failed) = stage_counts st
      in \<lparr>si_stage_id = qs_stage_id (ss_stage st), si_state = stage_status_text (ss_status st),
          si_num_partitions = of_nat (qs_num_tasks (ss_stage st)), si_completed = completed,
          si_running = running, si_failed = failed, si_plan = eng_display eng (qs_plan (ss_stage st)),
          si_depends_on = qs_depends_on (ss_stage st)\<rparr>)"

definition job_stage_infos :: "'x engine \<Rightarrow> 'x job_state \<Rightarrow> stage_info list" where
  "job_stage_infos eng j = map (\<lambda>(_, st). stage_info_of eng st) (js_stages j)"

end
