(* ===== verification/Forge_Job_Inv.thy ===== *)
theory Forge_Job_Inv
  imports Forge_Job
begin

text \<open>
  The invariant of a job and its preservation by every operation of \<open>Forge_Job\<close>, whatever reports
  arrive: the stage graph never changes, a stage is completed exactly when all its tasks are, a
  stage is runnable only when everything it depends on is completed, and the result channel agrees
  with the job's status.
\<close>

section \<open>The stage graph\<close>

type_synonym 'x skeleton = "(u32 \<times> 'x query_stage \<times> u32 list) list"

definition skeleton :: "'x job_state \<Rightarrow> 'x skeleton" where
  "skeleton j = map (\<lambda>(k, st). (k, ss_stage st, map ts_partition (ss_tasks st))) (js_stages j)"

definition graph_wf :: "u32 \<Rightarrow> 'x skeleton \<Rightarrow> bool" where
  "graph_wf final sk \<longleftrightarrow>
     sorted_wrt (<) (map fst sk) \<and> final \<in> fst ` set sk \<and>
     (\<forall>(k, s, ps)\<in>set sk.
        qs_stage_id s = k \<and> k \<le> final \<and> ps \<noteq> [] \<and> length ps < 2 ^ 32 \<and>
        ps = map of_nat [0..<length ps] \<and> qs_writer_partitioning (qs_plan s) \<noteq> None \<and>
        (\<forall>d\<in>set (qs_depends_on s). d < k \<and> d \<in> fst ` set sk))"

definition job_wf :: "'x job_state \<Rightarrow> bool" where
  "job_wf j \<longleftrightarrow> graph_wf (js_final_stage j) (skeleton j)"

lemma keys_skeleton: "map fst (skeleton j) = map fst (js_stages j)"
  by (auto simp: skeleton_def)

lemma job_wf_bt_ok: "job_wf j \<Longrightarrow> bt_ok (js_stages j)"
  by (simp add: job_wf_def graph_wf_def keys_skeleton bt_ok_def)

lemma job_wf_stage:
  assumes "job_wf j" and "map_of (js_stages j) sid = Some st"
  shows "qs_stage_id (ss_stage st) = sid" and "sid \<le> js_final_stage j" and "ss_tasks st \<noteq> []"
    and "length (ss_tasks st) < 2 ^ 32"
    and "\<forall>i<length (ss_tasks st). ts_partition (ss_tasks st ! i) = of_nat i"
    and "\<forall>d\<in>set (qs_depends_on (ss_stage st)). d < sid \<and> (\<exists>st'. map_of (js_stages j) d = Some st')"
    and "qs_writer_partitioning (qs_plan (ss_stage st)) \<noteq> None"
proof -
  have mem: "(sid, ss_stage st, map ts_partition (ss_tasks st)) \<in> set (skeleton j)"
    using map_of_SomeD [OF assms(2)] by (force simp: skeleton_def)
  have keys: "fst ` set (skeleton j) = dom (map_of (js_stages j))"
    by (simp add: dom_map_of_conv_image_fst keys_skeleton flip: set_map)
  have *: "qs_stage_id (ss_stage st) = sid \<and> sid \<le> js_final_stage j \<and> map ts_partition (ss_tasks st) \<noteq> [] \<and>
      length (ss_tasks st) < 2 ^ 32 \<and>
      map ts_partition (ss_tasks st) = map of_nat [0..<length (ss_tasks st)] \<and>
      qs_writer_partitioning (qs_plan (ss_stage st)) \<noteq> None \<and>
      (\<forall>d\<in>set (qs_depends_on (ss_stage st)). d < sid \<and> d \<in> fst ` set (skeleton j))"
    using assms(1) mem unfolding job_wf_def graph_wf_def by fastforce
  then show "qs_stage_id (ss_stage st) = sid" and "sid \<le> js_final_stage j" and "ss_tasks st \<noteq> []"
    and "length (ss_tasks st) < 2 ^ 32"
    and "\<forall>d\<in>set (qs_depends_on (ss_stage st)). d < sid \<and> (\<exists>st'. map_of (js_stages j) d = Some st')"
    and "qs_writer_partitioning (qs_plan (ss_stage st)) \<noteq> None"
    by (auto simp: keys)
  from * have eq: "map ts_partition (ss_tasks st) = map of_nat [0..<length (ss_tasks st)]" by blast
  show "\<forall>i<length (ss_tasks st). ts_partition (ss_tasks st ! i) = of_nat i"
  proof (intro allI impI)
    fix i assume i: "i < length (ss_tasks st)"
    then have "map ts_partition (ss_tasks st) ! i = map of_nat [0..<length (ss_tasks st)] ! i"
      by (simp only: eq)
    with i show "ts_partition (ss_tasks st ! i) = of_nat i" by simp
  qed
qed

lemma job_wf_final: "job_wf j \<Longrightarrow> \<exists>st. map_of (js_stages j) (js_final_stage j) = Some st"
  unfolding job_wf_def graph_wf_def
  by (metis (no_types, lifting) keys_skeleton list.set_map map_of_eq_None_iff not_None_eq)

lemma skeleton_adjust:
  assumes "js_stages j' = adjust sid f (js_stages j)"
    and "\<And>st. map_of (js_stages j) sid = Some st \<Longrightarrow> distinct (map fst (js_stages j)) \<Longrightarrow>
      ss_stage (f st) = ss_stage st \<and> map ts_partition (ss_tasks (f st)) = map ts_partition (ss_tasks st)"
    and "distinct (map fst (js_stages j))"
  shows "skeleton j' = skeleton j"
  using assms by (fastforce simp: skeleton_def adjust_def)

lemma map_partition_update [simp]:
  "ts_partition t = ts_partition (ts ! i) \<Longrightarrow> map ts_partition (ts[i := t]) = map ts_partition ts"
  by (cases "i < length ts") (auto simp: list_eq_iff_nth_eq nth_list_update)

section \<open>The invariant\<close>

definition deps_done :: "'x job_state \<Rightarrow> 'x query_stage \<Rightarrow> bool" where
  "deps_done j s \<longleftrightarrow>
     list_all (\<lambda>d. map_option ss_status (map_of (js_stages j) d) = Some StageCompleted) (qs_depends_on s)"

definition channel_ok :: "'x job_state \<Rightarrow> bool" where
  "channel_ok j \<longleftrightarrow>
     (case js_status j of
        JobRunning \<Rightarrow> js_result_tx j = TxOpen
      | JobCompleted \<Rightarrow> (\<exists>r. js_result_tx j = TxSent (Inr r))
      | JobFailed m \<Rightarrow> js_result_tx j = TxSent (Inl (Execution m))
      | JobCancelled \<Rightarrow> js_result_tx j = TxSent (Inl Cancelled))"

lemma channel_ok_same:
  "js_status j' = js_status j \<Longrightarrow> js_result_tx j' = js_result_tx j \<Longrightarrow> channel_ok j' = channel_ok j"
  by (simp only: channel_ok_def)

text \<open>\<open>K\<close>: the stages whose plan is still to be encoded (empty between operations).\<close>

definition stage_ok :: "u32 set \<Rightarrow> 'x job_state \<Rightarrow> u32 \<Rightarrow> 'x stage_state \<Rightarrow> bool" where
  "stage_ok K j sid st \<longleftrightarrow>
     (ss_status st = StageCompleted \<longleftrightarrow> stage_complete st) \<and>
     (ss_status st = Runnable \<longrightarrow> deps_done j (ss_stage st) \<and> (sid \<notin> K \<longrightarrow> ss_encoded_plan st \<noteq> None)) \<and>
     (is_active j \<longrightarrow> ss_status st \<noteq> StageFailed \<and> list_all (\<lambda>t. \<not> is_failed (ts_state t)) (ss_tasks st))"

definition job_core :: "u32 set \<Rightarrow> 'x job_state \<Rightarrow> bool" where
  "job_core K j \<longleftrightarrow> job_wf j \<and> channel_ok j \<and>
     (\<forall>sid st. map_of (js_stages j) sid = Some st \<longrightarrow> stage_ok K j sid st)"

definition job_inv :: "'x job_state \<Rightarrow> bool" where
  "job_inv j \<longleftrightarrow> job_core {} j \<and>
     (is_active j \<longrightarrow> map_option ss_status (map_of (js_stages j) (js_final_stage j)) \<noteq> Some StageCompleted)"

lemma job_core_wf: "job_core K j \<Longrightarrow> job_wf j"
  by (simp add: job_core_def)

lemma job_core_stage: "job_core K j \<Longrightarrow> map_of (js_stages j) sid = Some st \<Longrightarrow> stage_ok K j sid st"
  by (simp add: job_core_def)

lemma job_core_distinct: "job_core K j \<Longrightarrow> distinct (map fst (js_stages j))"
  by (simp add: job_core_def job_wf_bt_ok bt_ok_distinct)

lemma job_inv_core: "job_inv j \<Longrightarrow> job_core {} j"
  by (simp add: job_inv_def)

text \<open>A stage that is completed stays so under an update of one stage, so \<open>deps_done\<close> is kept.\<close>

lemma deps_done_adjust:
  assumes "js_stages j' = adjust sid f (js_stages j)"
    and "\<And>st. map_of (js_stages j) sid = Some st \<Longrightarrow> ss_status st = StageCompleted \<Longrightarrow>
      ss_status (f st) = StageCompleted"
    and "deps_done j s"
  shows "deps_done j' s"
  using assms(3) assms(2) by (auto simp: deps_done_def list_all_iff assms(1) map_of_adjust)

text \<open>The preservation lemma all operations on one stage go through.\<close>

lemma job_core_adjust:
  assumes core: "job_core K j"
    and stages: "js_stages j' = adjust sid f (js_stages j)"
    and final: "js_final_stage j' = js_final_stage j" and chan: "channel_ok j'"
    and active: "is_active j' \<Longrightarrow> is_active j" and K: "K - {sid} \<subseteq> K'"
    and st: "map_of (js_stages j) sid = Some st"
    and keep: "ss_stage (f st) = ss_stage st" "map ts_partition (ss_tasks (f st)) = map ts_partition (ss_tasks st)"
    and mono: "ss_status st = StageCompleted \<Longrightarrow> ss_status (f st) = StageCompleted"
    and complete: "ss_status (f st) = StageCompleted \<longleftrightarrow> stage_complete (f st)"
    and runnable: "ss_status (f st) = Runnable \<Longrightarrow>
      deps_done j (ss_stage st) \<and> (sid \<notin> K' \<longrightarrow> ss_encoded_plan (f st) \<noteq> None)"
    and nofail: "is_active j' \<Longrightarrow> ss_status (f st) \<noteq> StageFailed \<and>
      list_all (\<lambda>t. \<not> is_failed (ts_state t)) (ss_tasks (f st))"
  shows "job_core K' j'"
proof -
  have "skeleton j' = skeleton j"
    using stages keep st job_core_distinct [OF core] by (intro skeleton_adjust [of _ sid f]) auto
  then have "job_wf j'"
    using job_core_wf [OF core] by (simp add: job_wf_def final)
  moreover have deps: "deps_done j s \<Longrightarrow> deps_done j' s" for s
    using deps_done_adjust [OF stages] st mono by auto
  have "stage_ok K' j' k st'" if "map_of (js_stages j') k = Some st'" for k st'
  proof (cases "k = sid")
    case True
    with that st have "st' = f st" by (simp add: stages map_of_adjust)
    with True complete runnable nofail keep(1) deps show ?thesis by (auto simp: stage_ok_def)
  next
    case False
    with that have "map_of (js_stages j) k = Some st'" by (simp add: stages map_of_adjust)
    from job_core_stage [OF core this] False K deps active show ?thesis
      by (auto simp: stage_ok_def)
  qed
  ultimately show ?thesis using chan by (simp add: job_core_def)
qed

text \<open>Operations that leave the stages alone.\<close>

lemma job_core_same_stages:
  assumes "job_core K j" and "js_stages j' = js_stages j" and "js_final_stage j' = js_final_stage j"
    and "channel_ok j'" and "is_active j' \<Longrightarrow> is_active j"
  shows "job_core K j'"
proof -
  have "skeleton j' = skeleton j" by (simp add: skeleton_def assms(2))
  then show ?thesis
    using assms by (auto simp: job_core_def job_wf_def stage_ok_def deps_done_def)
qed

lemma get_task_SomeD:
  assumes "get_task j sid p = Some t"
  obtains st where "map_of (js_stages j) sid = Some st" and "unat p < length (ss_tasks st)"
    and "t = ss_tasks st ! unat p"
  using assms by (auto simp: get_task_def split: option.splits if_splits)

lemma complete_update:
  assumes "i < length (ss_tasks st)" and "\<not> is_completed (ts_state t)"
  shows "\<not> stage_complete (st\<lparr>ss_tasks := (ss_tasks st)[i := t]\<rparr>)"
  using assms by (auto simp: stage_complete_def list_all_length nth_list_update)

lemma not_complete_nth:
  "i < length (ss_tasks st) \<Longrightarrow> \<not> is_completed (ts_state (ss_tasks st ! i)) \<Longrightarrow> \<not> stage_complete st"
  by (auto simp: stage_complete_def list_all_length)

lemma no_failed_update:
  "list_all (\<lambda>t. \<not> is_failed (ts_state t)) ts \<Longrightarrow> \<not> is_failed (ts_state t) \<Longrightarrow>
     list_all (\<lambda>t. \<not> is_failed (ts_state t)) (ts[i := t])"
  by (auto simp: list_all_iff dest: set_update_subset_insert [THEN subsetD])

lemma upd_task_fields [simp]:
  "js_status (upd_task sid p f j) = js_status j" "js_final_stage (upd_task sid p f j) = js_final_stage j"
  "is_active (upd_task sid p f j) = is_active j" "js_max_retries (upd_task sid p f j) = js_max_retries j"
  "js_job_id (upd_task sid p f j) = js_job_id j" "js_result_tx (upd_task sid p f j) = js_result_tx j"
  by (simp_all add: upd_task_def is_active_def)

text \<open>Moving an uncompleted task between the pending and running states.\<close>

lemma job_core_upd_task:
  assumes core: "job_core K j" and t: "get_task j sid p = Some t"
    and f: "ts_partition (f t) = ts_partition t" "\<not> is_completed (ts_state t)"
      "\<not> is_completed (ts_state (f t))" "\<not> is_failed (ts_state (f t))"
  shows "job_core K (upd_task sid p f j)"
proof -
  from t obtain st where st: "map_of (js_stages j) sid = Some st" and p: "unat p < length (ss_tasks st)"
    and teq: "t = ss_tasks st ! unat p" by (rule get_task_SomeD)
  have ok: "stage_ok K j sid st" using core st by (rule job_core_stage)
  have nc: "\<not> stage_complete st" using p f(2) teq by (simp add: not_complete_nth)
  let ?g = "\<lambda>st. st\<lparr>ss_tasks := (ss_tasks st)[unat p := f (ss_tasks st ! unat p)]\<rparr>"
  show ?thesis
  proof (rule job_core_adjust [OF core, of _ sid ?g])
    show "js_stages (upd_task sid p f j) = adjust sid ?g (js_stages j)"
      by (simp add: upd_task_def)
    show "channel_ok (upd_task sid p f j)"
      using core channel_ok_same [of "upd_task sid p f j" j] by (simp add: job_core_def)
    show "ss_status (?g st) = StageCompleted \<longleftrightarrow> stage_complete (?g st)"
      using complete_update [OF p] f(3) teq ok nc by (simp add: stage_ok_def)
    show "ss_status (?g st) \<noteq> StageFailed \<and> list_all (\<lambda>t. \<not> is_failed (ts_state t)) (ss_tasks (?g st))"
      if "is_active (upd_task sid p f j)"
      using that ok f(4) teq by (auto simp: upd_task_def is_active_def stage_ok_def intro!: no_failed_update)
  qed (use st ok f(1) teq in \<open>auto simp: upd_task_def is_active_def stage_ok_def\<close>)
qed

lemma upd_task_status [simp]:
  "map_option ss_status (map_of (js_stages (upd_task sid p f j)) k) = map_option ss_status (map_of (js_stages j) k)"
  by (auto simp: upd_task_def map_of_adjust option.map_comp comp_def)

lemma job_inv_upd_task:
  assumes "job_inv j" and "get_task j sid p = Some t" and "ts_partition (f t) = ts_partition t"
    and "\<not> is_completed (ts_state t)" and "\<not> is_completed (ts_state (f t))" and "\<not> is_failed (ts_state (f t))"
  shows "job_inv (upd_task sid p f j)"
  using assms job_core_upd_task [OF job_inv_core, of j sid p t f] by (simp add: job_inv_def)

lemma mark_running_inv [inv_intro]: "job_inv j \<Longrightarrow> job_inv (mark_running now sid p a e j)"
  by (auto simp: mark_running_def split: option.splits intro!: job_inv_upd_task)

lemma is_running_not_completed: "is_running s \<Longrightarrow> \<not> is_completed s"
  by (cases s) auto

lemma mark_pending_inv [inv_intro]: "job_inv j \<Longrightarrow> job_inv (mark_pending sid p a j)"
  by (auto simp: mark_pending_def is_running_not_completed split: option.splits intro!: job_inv_upd_task)


section \<open>Failure, loss and cancellation\<close>

lemma send_result_fields [simp]:
  "js_stages (send_result r j) = js_stages j" "js_status (send_result r j) = js_status j"
  "js_final_stage (send_result r j) = js_final_stage j" "js_job_id (send_result r j) = js_job_id j"
  "is_active (send_result r j) = is_active j"
  by (simp_all add: send_result_def is_active_def split: oneshot.splits)

lemma send_result_open: "js_result_tx j = TxOpen \<Longrightarrow> js_result_tx (send_result r j) = TxSent r"
  by (simp add: send_result_def)

lemma finish_err_fields [simp]:
  "js_stages (finish_err now m j) = js_stages j" "js_status (finish_err now m j) = JobFailed m"
  "js_final_stage (finish_err now m j) = js_final_stage j" "\<not> is_active (finish_err now m j)"
  by (simp_all add: finish_err_def is_active_def)

lemma channel_ok_finish_err: "js_result_tx j = TxOpen \<Longrightarrow> channel_ok (finish_err now m j)"
  by (simp add: channel_ok_def) (simp add: finish_err_def send_result_def)

lemma active_open: "channel_ok j \<Longrightarrow> is_active j \<Longrightarrow> js_result_tx j = TxOpen"
  by (simp add: channel_ok_def is_active_def)

lemma job_cancel_inv [inv_intro]: "job_inv j \<Longrightarrow> job_inv (fst (job_cancel now j))"
proof (cases "is_active j")
  case True
  assume inv: "job_inv j"
  then have core: "job_core {} j" and opn: "js_result_tx j = TxOpen"
    using True by (auto simp: job_inv_def job_core_def intro: active_open)
  let ?j = "fst (job_cancel now j)"
  have "js_stages ?j = js_stages j" "js_final_stage ?j = js_final_stage j" "channel_ok ?j" "\<not> is_active ?j"
    using True opn by (simp_all add: job_cancel_def is_active_def channel_ok_def send_result_def)
  with job_core_same_stages [OF core, of ?j] show ?thesis by (simp add: job_inv_def)
qed (simp add: job_cancel_def)

lemma adjust_adjust: "adjust k f (adjust k g m) = adjust k (f \<circ> g) m"
  by (auto simp: adjust_def)

text \<open>The three outcomes of a failure report.\<close>

definition fail_stage :: "u64 \<Rightarrow> u32 \<Rightarrow> u32 \<Rightarrow> string \<Rightarrow> 'x job_state \<Rightarrow> 'x job_state" where
  "fail_stage now sid p error j = j\<lparr>js_stages := adjust sid
     (\<lambda>st. st\<lparr>ss_tasks := (ss_tasks st)[unat p := (ss_tasks st ! unat p)\<lparr>ts_state := TFailed error\<rparr>],
              ss_status := StageFailed, ss_finished_ms := now\<rparr>) (js_stages j)\<rparr>"

definition report_applies :: "task_id \<Rightarrow> 'x job_state \<Rightarrow> bool" where
  "report_applies tid j \<longleftrightarrow> is_active j \<and>
     (case get_task j (tid_stage tid) (tid_partition tid) of
        None \<Rightarrow> False
      | Some t \<Rightarrow> ts_attempt t = tid_attempt tid \<and> \<not> is_completed (ts_state t))"

lemma report_appliesE:
  assumes "report_applies tid j"
  obtains st where "is_active j" "map_of (js_stages j) (tid_stage tid) = Some st"
    "unat (tid_partition tid) < length (ss_tasks st)"
    "get_task j (tid_stage tid) (tid_partition tid) = Some (ss_tasks st ! unat (tid_partition tid))"
    "ts_attempt (ss_tasks st ! unat (tid_partition tid)) = tid_attempt tid"
    "\<not> is_completed (ts_state (ss_tasks st ! unat (tid_partition tid)))"
proof -
  from assms obtain t where t: "get_task j (tid_stage tid) (tid_partition tid) = Some t"
    "is_active j" "ts_attempt t = tid_attempt tid" "\<not> is_completed (ts_state t)"
    by (auto simp: report_applies_def split: option.splits)
  from get_task_SomeD [OF t(1)] t that show thesis by metis
qed

lemma task_failed_ignored:
  "\<not> report_applies tid j \<Longrightarrow> task_failed now tid error j = (j, default_transition)"
  by (auto simp: task_failed_def report_applies_def split: option.splits)

lemma task_failed_retry:
  "report_applies tid j \<Longrightarrow> tid_attempt tid < js_max_retries j \<Longrightarrow> task_failed now tid error j =
     (upd_task (tid_stage tid) (tid_partition tid)
        (\<lambda>t. t\<lparr>ts_attempt := ts_attempt t + 1, ts_state := TPending\<rparr>) j, default_transition)"
  by (erule report_appliesE) (simp add: task_failed_def)

lemma task_failed_fatal:
  assumes "report_applies tid j" and "\<not> tid_attempt tid < js_max_retries j"
  shows "task_failed now tid error j =
     (finish_err now (failure_message tid error) (fail_stage now (tid_stage tid) (tid_partition tid) error j),
      default_transition\<lparr>tr_cancel := running_tasks (fail_stage now (tid_stage tid) (tid_partition tid) error j),
                         tr_job_finished := True\<rparr>)"
proof -
  have "(j\<lparr>js_stages := adjust k f (adjust k g (js_stages j))\<rparr>) = j\<lparr>js_stages := adjust k (f \<circ> g) (js_stages j)\<rparr>"
    for k f g by (simp add: adjust_adjust)
  with assms show ?thesis
    by (elim report_appliesE) (simp add: task_failed_def Let_def fail_stage_def upd_task_def comp_def)
qed

lemma fail_stage_fields [simp]:
  "js_status (fail_stage now sid p error j) = js_status j"
  "js_final_stage (fail_stage now sid p error j) = js_final_stage j"
  "js_result_tx (fail_stage now sid p error j) = js_result_tx j"
  "is_active (fail_stage now sid p error j) = is_active j"
  by (simp_all add: fail_stage_def is_active_def)

lemma fail_stage_inv:
  assumes inv: "job_inv j" and app: "report_applies tid j"
  shows "job_inv (finish_err now m (fail_stage now (tid_stage tid) (tid_partition tid) error j))"
proof -
  let ?s = "tid_stage tid" and ?p = "tid_partition tid"
  from app obtain st where active: "is_active j" and st: "map_of (js_stages j) ?s = Some st"
    and p: "unat ?p < length (ss_tasks st)" and nct: "\<not> is_completed (ts_state (ss_tasks st ! unat ?p))"
    by (rule report_appliesE)
  let ?f = "\<lambda>st. st\<lparr>ss_tasks := (ss_tasks st)[unat ?p := (ss_tasks st ! unat ?p)\<lparr>ts_state := TFailed error\<rparr>],
              ss_status := StageFailed, ss_finished_ms := now\<rparr>"
  have core: "job_core {} j" using inv by (rule job_inv_core)
  then have opn: "js_result_tx (fail_stage now ?s ?p error j) = TxOpen"
    using active by (auto simp: job_core_def intro: active_open)
  have status: "ss_status st \<noteq> StageCompleted"
    using job_core_stage [OF core st] not_complete_nth [OF p nct] by (simp add: stage_ok_def)
  have nc: "\<not> stage_complete (?f st)"
    using complete_update [OF p, of "(ss_tasks st ! unat ?p)\<lparr>ts_state := TFailed error\<rparr>"]
    by (simp add: stage_complete_def)
  have "job_core {} (finish_err now m (fail_stage now ?s ?p error j))"
  proof (rule job_core_adjust [OF core, of _ ?s ?f])
    show "js_stages (finish_err now m (fail_stage now ?s ?p error j)) = adjust ?s ?f (js_stages j)"
      by (simp add: fail_stage_def)
    show "channel_ok (finish_err now m (fail_stage now ?s ?p error j))"
      using opn by (rule channel_ok_finish_err)
  qed (use st status nc in auto)
  then show ?thesis by (simp add: job_inv_def)
qed

lemma task_failed_inv [inv_intro]:
  assumes inv: "job_inv j"
  shows "job_inv (fst (task_failed now tid error j))"
proof (cases "report_applies tid j")
  case True
  show ?thesis
  proof (cases "tid_attempt tid < js_max_retries j")
    case retry: True
    with True inv show ?thesis
      by (auto simp: task_failed_retry elim!: report_appliesE intro!: job_inv_upd_task)
  next
    case False
    with True inv show ?thesis by (simp add: task_failed_fatal fail_stage_inv)
  qed
qed (simp add: task_failed_ignored inv)

text \<open>The requeue of a lost executor's tasks.\<close>

lemma requeue_lost_simps [simp]:
  "ts_partition (requeue_lost e t) = ts_partition t"
  "is_completed (ts_state (requeue_lost e t)) = is_completed (ts_state t)"
  "is_failed (ts_state (requeue_lost e t)) = is_failed (ts_state t)"
  by (auto simp: requeue_lost_def)

definition requeue_stages :: "string \<Rightarrow> 'x job_state \<Rightarrow> 'x job_state" where
  "requeue_stages e j = j\<lparr>js_stages :=
     map (\<lambda>(sid, st). (sid, st\<lparr>ss_tasks := map (requeue_lost e) (ss_tasks st)\<rparr>)) (js_stages j)\<rparr>"

lemma map_of_requeue: "map_of (js_stages (requeue_stages e j)) sid =
    map_option (\<lambda>st. st\<lparr>ss_tasks := map (requeue_lost e) (ss_tasks st)\<rparr>) (map_of (js_stages j) sid)"
proof -
  have "map_of (map (\<lambda>(k, v). (k, f v)) m) x = map_option f (map_of m x)" for f m x
    by (induction m) auto
  then show ?thesis by (simp add: requeue_stages_def)
qed

lemma skeleton_requeue [simp]: "skeleton (requeue_stages e j) = skeleton j"
  by (auto simp: skeleton_def requeue_stages_def)

lemma requeue_fields [simp]:
  "js_status (requeue_stages e j) = js_status j" "js_final_stage (requeue_stages e j) = js_final_stage j"
  "js_result_tx (requeue_stages e j) = js_result_tx j" "is_active (requeue_stages e j) = is_active j"
  by (simp_all add: requeue_stages_def is_active_def)

lemma requeue_core: "job_core K j \<Longrightarrow> job_core K (requeue_stages e j)"
  using channel_ok_same [of "requeue_stages e j" j]
  by (auto simp: job_core_def job_wf_def map_of_requeue stage_ok_def stage_complete_def deps_done_def
      list_all_iff option.map_comp comp_def)

lemma job_executor_lost_inv [inv_intro]:
  assumes inv: "job_inv j"
  shows "job_inv (fst (job_executor_lost now e j))"
proof (cases "is_active j")
  case True
  have core: "job_core {} (requeue_stages e j)"
    using inv by (intro requeue_core) (rule job_inv_core)
  then have opn: "js_result_tx (requeue_stages e j) = TxOpen"
    using True active_open [of "requeue_stages e j"] by (simp add: job_core_def)
  have err: "job_inv (finish_err now m (requeue_stages e j))" for m
    using job_core_same_stages [OF core, of "finish_err now m (requeue_stages e j)"]
      channel_ok_finish_err [OF opn] by (simp add: job_inv_def)
  have "job_inv (requeue_stages e j)"
    using core inv by (simp add: job_inv_def map_of_requeue option.map_comp comp_def)
  with err show ?thesis
    by (simp add: job_executor_lost_def Let_def True flip: requeue_stages_def)
qed (simp add: job_executor_lost_def inv)


section \<open>Preparation of stages\<close>

definition preparable :: "'x job_state \<Rightarrow> u32 \<Rightarrow> bool" where
  "preparable j sid \<longleftrightarrow>
     (case map_of (js_stages j) sid of
        None \<Rightarrow> False
      | Some st \<Rightarrow> (ss_status st = Blocked \<or> ss_status st = Runnable) \<and> deps_done j (ss_stage st))"

lemma preparableE:
  assumes "preparable j sid"
  obtains st where "map_of (js_stages j) sid = Some st" "ss_status st = Blocked \<or> ss_status st = Runnable"
    "deps_done j (ss_stage st)"
  using assms by (auto simp: preparable_def split: option.splits)

lemma prepare_stage_InrE:
  assumes "prepare_stage eng now sid j = Inr j'"
  obtains st resolved bs where "map_of (js_stages j) sid = Some st"
    "resolve_stage (eng_df eng) (js_job_id j) (completed_outputs j) (qs_plan (ss_stage st)) = Inr resolved"
    "eng_encode eng resolved = Inr bs"
    "j' = j\<lparr>js_stages := adjust sid (\<lambda>st. st\<lparr>ss_encoded_plan := Some bs, ss_resolved_plan := Some resolved,
        ss_status := Runnable, ss_started_ms := now\<rparr>) (js_stages j)\<rparr>"
  using assms by (auto simp: prepare_stage_def split: option.splits sum.splits)

lemma prepare_stage_core:
  assumes prep: "prepare_stage eng now sid j = Inr j'" and core: "job_core K j" and ok: "preparable j sid"
  shows "job_core (K - {sid}) j'"
proof -
  from prep obtain st resolved bs where st: "map_of (js_stages j) sid = Some st"
    and j': "j' = j\<lparr>js_stages := adjust sid (\<lambda>st. st\<lparr>ss_encoded_plan := Some bs, ss_resolved_plan := Some resolved,
        ss_status := Runnable, ss_started_ms := now\<rparr>) (js_stages j)\<rparr>"
    by (rule prepare_stage_InrE)
  from ok st have status: "ss_status st = Blocked \<or> ss_status st = Runnable" and deps: "deps_done j (ss_stage st)"
    by (auto elim: preparableE)
  have nc: "\<not> stage_complete st"
    using job_core_stage [OF core st] status by (auto simp: stage_ok_def)
  let ?f = "\<lambda>st. st\<lparr>ss_encoded_plan := Some bs, ss_resolved_plan := Some resolved,
        ss_status := Runnable, ss_started_ms := now\<rparr>"
  show ?thesis
  proof (rule job_core_adjust [OF core, of _ sid ?f])
    show "channel_ok j'"
      using core channel_ok_same [of j' j] by (simp add: j' job_core_def)
    show "ss_status (?f st) = StageCompleted \<longleftrightarrow> stage_complete (?f st)"
      using nc by (simp add: stage_complete_def)
  qed (use st status deps job_core_stage [OF core st] in \<open>auto simp: j' is_active_def stage_ok_def\<close>)
qed

text \<open>Preparing one stage keeps every other preparable stage preparable.\<close>

lemma prepare_stage_status:
  assumes "prepare_stage eng now sid j = Inr j'"
  shows "map_option ss_status (map_of (js_stages j') k) =
      (if k = sid then Some Runnable else map_option ss_status (map_of (js_stages j) k))"
    and "map_option ss_stage (map_of (js_stages j') k) = map_option ss_stage (map_of (js_stages j) k)"
    and "js_status j' = js_status j" and "js_final_stage j' = js_final_stage j"
  using assms by (auto elim!: prepare_stage_InrE simp: map_of_adjust option.map_comp comp_def)

lemma deps_done_status_mono:
  assumes "\<And>k. map_option ss_status (map_of (js_stages j) k) = Some StageCompleted \<Longrightarrow>
      map_option ss_status (map_of (js_stages j') k) = Some StageCompleted"
    and "deps_done j s"
  shows "deps_done j' s"
  using assms by (auto simp: deps_done_def list_all_iff)

lemma preparable_status:
  "preparable j sid \<longleftrightarrow>
     (map_option ss_status (map_of (js_stages j) sid) \<in> {Some Blocked, Some Runnable}) \<and>
     (\<exists>s. map_option ss_stage (map_of (js_stages j) sid) = Some s \<and> deps_done j s)"
  by (auto simp: preparable_def split: option.splits)

lemma prepare_stage_preparable:
  assumes "prepare_stage eng now sid j = Inr j'" and "preparable j sid" and "preparable j k"
  shows "preparable j' k"
proof -
  note st = prepare_stage_status [OF assms(1)]
  have "deps_done j' s" if "deps_done j s" for s
    by (rule deps_done_status_mono [OF _ that]) (use assms(2) st in \<open>auto simp: preparable_status\<close>)
  with assms(3) show ?thesis by (auto simp: preparable_status st)
qed

lemma prepare_all_core:
  assumes "prepare_all eng now sids j = (j', r)" and "job_core K j" and "\<forall>sid\<in>set sids. preparable j sid"
  shows "job_core K j' \<and> js_status j' = js_status j \<and> js_final_stage j' = js_final_stage j"
  using assms
proof (induction sids arbitrary: j)
  case (Cons sid sids)
  show ?case
  proof (cases "prepare_stage eng now sid j")
    case (Inl e)
    with Cons.prems show ?thesis by simp
  next
    case (Inr j1)
    have "job_core (K - {sid}) j1"
      by (rule prepare_stage_core [OF Inr Cons.prems(2)]) (use Cons.prems(3) in simp)
    then have "job_core K j1"
      by (auto simp: job_core_def stage_ok_def)
    moreover have "\<forall>k\<in>set sids. preparable j1 k"
      using prepare_stage_preparable [OF Inr] Cons.prems(3) by simp
    moreover have "prepare_all eng now sids j1 = (j', r)"
      using Cons.prems(1) Inr by simp
    ultimately show ?thesis
      using Cons.IH [of j1] prepare_stage_status(3,4) [OF Inr] by simp
  qed
qed simp

text \<open>What a preparation loop without an error did to the statuses.\<close>

lemma prepare_all_status:
  assumes "prepare_all eng now sids j = (j', r)"
  shows "map_option ss_stage (map_of (js_stages j') k) = map_option ss_stage (map_of (js_stages j) k)"
    and "r = None \<Longrightarrow> map_option ss_status (map_of (js_stages j') k) =
      (if k \<in> set sids then Some Runnable else map_option ss_status (map_of (js_stages j) k))"
    and "k \<notin> set sids \<Longrightarrow>
      map_option ss_status (map_of (js_stages j') k) = map_option ss_status (map_of (js_stages j) k)"
  using assms
proof (induction sids arbitrary: j)
  case Nil
  {
    case 1 then show ?case by simp
  next
    case 2 then show ?case by simp
  next
    case 3 then show ?case by simp
  }
next
  case (Cons sid sids)
  {
    case 1 then show ?case
      using Cons.IH(1) prepare_stage_status(2) by (fastforce split: sum.splits)
  next
    case 2
    then obtain j1 where j1: "prepare_stage eng now sid j = Inr j1"
      and rest: "prepare_all eng now sids j1 = (j', r)"
      by (auto split: sum.splits)
    show ?case
      using Cons.IH(2) [OF 2(1) rest] prepare_stage_status(1) [OF j1] by simp
  next
    case 3 then show ?case
      using Cons.IH(3) prepare_stage_status(1) by (fastforce split: sum.splits)
  }
qed

lemma prepare_all_status_weak:
  "prepare_all eng now sids j = (j', r) \<Longrightarrow>
     map_option ss_status (map_of (js_stages j') k) \<in>
       {map_option ss_status (map_of (js_stages j) k), Some Runnable}"
proof (induction sids arbitrary: j)
  case (Cons sid sids)
  show ?case
  proof (cases "prepare_stage eng now sid j")
    case (Inr j1)
    with Cons.prems have "prepare_all eng now sids j1 = (j', r)" by simp
    from Cons.IH [OF this] prepare_stage_status(1) [OF Inr, of k] show ?thesis
      by (auto split: if_splits)
  qed (use Cons.prems in simp)
qed simp

lemma unblock_candidates_iff:
  assumes "job_core K j"
  shows "k \<in> set (unblock_candidates c j) \<longleftrightarrow>
     (\<exists>st. map_of (js_stages j) k = Some st \<and> ss_status st = Blocked \<and> c \<in> set (qs_depends_on (ss_stage st))
        \<and> deps_done j (ss_stage st))"
proof -
  have d: "distinct (map fst (js_stages j))" using assms by (rule job_core_distinct)
  have id: "qs_stage_id (ss_stage st) = k" if "(k, st) \<in> set (js_stages j)" for k st
    using job_wf_stage(1) [OF job_core_wf [OF assms]] that d by simp
  have "k \<in> set (unblock_candidates c j) \<longleftrightarrow>
     (\<exists>st. (k, st) \<in> set (js_stages j) \<and> ss_status st = Blocked \<and> c \<in> set (qs_depends_on (ss_stage st))
        \<and> deps_done j (ss_stage st))"
    using id by (fastforce simp: unblock_candidates_def deps_done_def image_iff)
  then show ?thesis using d by simp
qed

lemma unblock_preparable:
  "job_core K j \<Longrightarrow> \<forall>k\<in>set (unblock_candidates c j). preparable j k"
  by (auto simp: unblock_candidates_iff preparable_def)


section \<open>Completion\<close>

definition complete_task ::
  "u64 \<Rightarrow> task_id \<Rightarrow> string \<Rightarrow> location list \<Rightarrow> task_metrics option \<Rightarrow> 'x job_state \<Rightarrow> 'x job_state" where
  "complete_task now tid e outputs metrics j =
     upd_task (tid_stage tid) (tid_partition tid)
       (\<lambda>t. t\<lparr>ts_state := TCompleted e, ts_outputs := outputs,
              ts_metrics := (case metrics of None \<Rightarrow> default_metrics | Some m \<Rightarrow> m),
              ts_finished_ms := now\<rparr>) j"

definition close_stage :: "u64 \<Rightarrow> u32 \<Rightarrow> 'x job_state \<Rightarrow> 'x job_state" where
  "close_stage now sid j = j\<lparr>js_stages := adjust sid
     (\<lambda>st. st\<lparr>ss_status := StageCompleted, ss_finished_ms := now\<rparr>) (js_stages j)\<rparr>"

definition stage_done :: "u32 \<Rightarrow> 'x job_state \<Rightarrow> bool" where
  "stage_done sid j \<longleftrightarrow>
     (case map_of (js_stages j) sid of None \<Rightarrow> False | Some st \<Rightarrow> stage_complete st)"

text \<open>The outcomes of a completion report.\<close>

lemma task_completed_ignored:
  "\<not> report_applies tid j \<Longrightarrow> task_completed eng now tid e outputs metrics j = (j, Inr default_transition)"
  by (auto simp: task_completed_def report_applies_def split: option.splits)

lemma task_completed_applied:
  assumes "report_applies tid j"
  shows "task_completed eng now tid e outputs metrics j =
     (let j1 = complete_task now tid e outputs metrics j
      in if \<not> stage_done (tid_stage tid) j1 then (j1, Inr default_transition)
         else case unblock_dependents eng now (tid_stage tid) (close_stage now (tid_stage tid) j1) of
                (j3, Some err) \<Rightarrow> (j3, Inl err)
              | (j3, None) \<Rightarrow>
                  if tid_stage tid = js_final_stage j3
                  then (finish_ok now j3, Inr (default_transition\<lparr>tr_stages_completed := [tid_stage tid], tr_job_finished := True\<rparr>))
                  else (j3, Inr (default_transition\<lparr>tr_stages_completed := [tid_stage tid]\<rparr>)))"
  using assms
  by (elim report_appliesE)
    (simp add: task_completed_def complete_task_def close_stage_def stage_done_def Let_def cong: if_cong)

lemma complete_task_fields [simp]:
  "js_status (complete_task now tid e outputs metrics j) = js_status j"
  "js_final_stage (complete_task now tid e outputs metrics j) = js_final_stage j"
  "is_active (complete_task now tid e outputs metrics j) = is_active j"
  "js_result_tx (complete_task now tid e outputs metrics j) = js_result_tx j"
  by (simp_all add: complete_task_def)

lemma close_stage_fields [simp]:
  "js_status (close_stage now sid j) = js_status j"
  "js_final_stage (close_stage now sid j) = js_final_stage j"
  "is_active (close_stage now sid j) = is_active j"
  "js_result_tx (close_stage now sid j) = js_result_tx j"
  by (simp_all add: close_stage_def is_active_def)

lemma complete_task_inv:
  assumes inv: "job_inv j" and app: "report_applies tid j"
    and open_stage: "\<not> stage_done (tid_stage tid) (complete_task now tid e outputs metrics j)"
  shows "job_inv (complete_task now tid e outputs metrics j)"
proof -
  let ?s = "tid_stage tid" and ?p = "tid_partition tid" and ?j = "complete_task now tid e outputs metrics j"
  from app obtain st where active: "is_active j" and st: "map_of (js_stages j) ?s = Some st"
    and p: "unat ?p < length (ss_tasks st)" and nct: "\<not> is_completed (ts_state (ss_tasks st ! unat ?p))"
    by (rule report_appliesE)
  have core: "job_core {} j" using inv by (rule job_inv_core)
  have ok: "stage_ok {} j ?s st" using core st by (rule job_core_stage)
  let ?g = "\<lambda>t. t\<lparr>ts_state := TCompleted e, ts_outputs := outputs,
              ts_metrics := (case metrics of None \<Rightarrow> default_metrics | Some m \<Rightarrow> m), ts_finished_ms := now\<rparr>"
  let ?f = "\<lambda>st. st\<lparr>ss_tasks := (ss_tasks st)[unat ?p := ?g (ss_tasks st ! unat ?p)]\<rparr>"
  have stages: "js_stages ?j = adjust ?s ?f (js_stages j)"
    by (simp add: complete_task_def upd_task_def)
  have nc: "\<not> stage_complete (?f st)"
    using open_stage st by (simp add: stage_done_def stages map_of_adjust)
  have status: "ss_status st \<noteq> StageCompleted"
    using ok not_complete_nth [OF p nct] by (simp add: stage_ok_def)
  have "job_core {} ?j"
  proof (rule job_core_adjust [OF core stages])
    show "channel_ok ?j" using core channel_ok_same [of ?j j] by (simp add: job_core_def)
    show "ss_status (?f st) \<noteq> StageFailed \<and> list_all (\<lambda>t. \<not> is_failed (ts_state t)) (ss_tasks (?f st))"
      using active ok by (auto simp: stage_ok_def intro!: no_failed_update)
  qed (use st status nc ok in \<open>auto simp: stage_ok_def\<close>)
  moreover have "map_option ss_status (map_of (js_stages ?j) k) = map_option ss_status (map_of (js_stages j) k)" for k
    by (simp add: complete_task_def)
  ultimately show ?thesis using inv by (simp add: job_inv_def)
qed

lemma close_stage_core:
  assumes inv: "job_inv j" and app: "report_applies tid j"
    and closed: "stage_done (tid_stage tid) (complete_task now tid e outputs metrics j)"
  shows "job_core {} (close_stage now (tid_stage tid) (complete_task now tid e outputs metrics j))"
    and "map_option ss_status (map_of (js_stages (close_stage now (tid_stage tid)
           (complete_task now tid e outputs metrics j))) k) =
         (if k = tid_stage tid then Some StageCompleted else map_option ss_status (map_of (js_stages j) k))"
    and "map_option ss_stage (map_of (js_stages (close_stage now (tid_stage tid)
           (complete_task now tid e outputs metrics j))) k) = map_option ss_stage (map_of (js_stages j) k)"
proof -
  let ?s = "tid_stage tid" and ?p = "tid_partition tid"
  let ?j1 = "complete_task now tid e outputs metrics j"
  let ?j2 = "close_stage now ?s ?j1"
  from app obtain st where active: "is_active j" and st: "map_of (js_stages j) ?s = Some st"
    and p: "unat ?p < length (ss_tasks st)" and nct: "\<not> is_completed (ts_state (ss_tasks st ! unat ?p))"
    by (rule report_appliesE)
  have core: "job_core {} j" using inv by (rule job_inv_core)
  have ok: "stage_ok {} j ?s st" using core st by (rule job_core_stage)
  let ?g = "\<lambda>t. t\<lparr>ts_state := TCompleted e, ts_outputs := outputs,
              ts_metrics := (case metrics of None \<Rightarrow> default_metrics | Some m \<Rightarrow> m), ts_finished_ms := now\<rparr>"
  let ?f = "\<lambda>st. st\<lparr>ss_tasks := (ss_tasks st)[unat ?p := ?g (ss_tasks st ! unat ?p)]\<rparr>"
  let ?h = "(\<lambda>st. st\<lparr>ss_status := StageCompleted, ss_finished_ms := now\<rparr>) \<circ> ?f"
  have stages: "js_stages ?j2 = adjust ?s ?h (js_stages j)"
    by (simp add: complete_task_def close_stage_def upd_task_def adjust_adjust)
  have c: "stage_complete (?h st)"
    using closed st by (simp add: stage_done_def complete_task_def upd_task_def map_of_adjust stage_complete_def)
  show "job_core {} ?j2"
  proof (rule job_core_adjust [OF core stages])
    show "channel_ok ?j2" using core channel_ok_same [of ?j2 j] by (simp add: job_core_def)
    show "ss_status (?h st) \<noteq> StageFailed \<and> list_all (\<lambda>t. \<not> is_failed (ts_state t)) (ss_tasks (?h st))"
      using active ok by (auto simp: stage_ok_def intro!: no_failed_update)
    show "ss_status (?h st) = StageCompleted \<longleftrightarrow> stage_complete (?h st)"
      using c by simp
  qed (use st in auto)
  show "map_option ss_status (map_of (js_stages ?j2) k) =
      (if k = ?s then Some StageCompleted else map_option ss_status (map_of (js_stages j) k))"
    using st by (simp add: stages map_of_adjust)
  show "map_option ss_stage (map_of (js_stages ?j2) k) = map_option ss_stage (map_of (js_stages j) k)"
    using st by (simp add: stages map_of_adjust)
qed

lemma finish_ok_core:
  assumes "job_core {} j" and "is_active j"
  shows "job_inv (finish_ok now j)"
proof -
  obtain st where st: "map_of (js_stages j) (js_final_stage j) = Some st"
    using job_wf_final [OF job_core_wf [OF assms(1)]] by blast
  have opn: "js_result_tx j = TxOpen"
    using assms by (auto simp: job_core_def intro: active_open)
  have "channel_ok (finish_ok now j)" "\<not> is_active (finish_ok now j)"
    "js_stages (finish_ok now j) = js_stages j" "js_final_stage (finish_ok now j) = js_final_stage j"
    using opn by (simp_all add: finish_ok_def st channel_ok_def is_active_def send_result_def)
  with job_core_same_stages [OF assms(1), of "finish_ok now j"] show ?thesis
    by (simp add: job_inv_def)
qed

text \<open>No stage depends on the final one, so completing it unblocks nothing and cannot fail.\<close>

lemma final_unblocks_nothing:
  assumes "job_core K j"
  shows "unblock_candidates (js_final_stage j) j = []"
proof -
  have "k \<notin> set (unblock_candidates (js_final_stage j) j)" for k
  proof
    assume "k \<in> set (unblock_candidates (js_final_stage j) j)"
    with unblock_candidates_iff [OF assms] obtain st where st: "map_of (js_stages j) k = Some st"
      and d: "js_final_stage j \<in> set (qs_depends_on (ss_stage st))" by blast
    from job_wf_stage(2,6) [OF job_core_wf [OF assms] st] d show False by fastforce
  qed
  then show ?thesis by (metis empty_iff empty_set last_in_set)
qed

lemma task_completed_inv [inv_intro]:
  assumes inv: "job_inv j"
  shows "job_inv (fst (task_completed eng now tid e outputs metrics j))"
proof (cases "report_applies tid j")
  case app: True
  let ?j1 = "complete_task now tid e outputs metrics j"
  let ?j2 = "close_stage now (tid_stage tid) ?j1"
  have active: "is_active j" using app by (simp add: report_applies_def)
  show ?thesis
  proof (cases "stage_done (tid_stage tid) ?j1")
    case False
    then show ?thesis
      using complete_task_inv [OF inv app] by (simp add: task_completed_applied [OF app] Let_def)
  next
    case True
    note closed = close_stage_core [OF inv app True]
    obtain j3 r where j3: "unblock_dependents eng now (tid_stage tid) ?j2 = (j3, r)"
      by fastforce
    then have prep: "prepare_all eng now (unblock_candidates (tid_stage tid) ?j2) ?j2 = (j3, r)"
      by (simp add: unblock_dependents_def)
    from prepare_all_core [OF prep closed(1) unblock_preparable [OF closed(1)]]
    have core3: "job_core {} j3" and same: "js_status j3 = js_status ?j2" "js_final_stage j3 = js_final_stage j"
      by auto
    have active3: "is_active j3" using active same by (simp add: is_active_def)
    have old: "map_option ss_status (map_of (js_stages j) (js_final_stage j)) \<noteq> Some StageCompleted"
      using inv active unfolding job_inv_def by blast
    have inv3: "job_inv j3" if "tid_stage tid \<noteq> js_final_stage j"
    proof -
      have "map_option ss_status (map_of (js_stages j3) (js_final_stage j)) \<noteq> Some StageCompleted"
        using prepare_all_status_weak [OF prep, of "js_final_stage j"] closed(2) [of "js_final_stage j"]
          that old by (elim insertE) (simp, auto)
      with core3 same(2) show ?thesis by (simp add: job_inv_def)
    qed
    show ?thesis
    proof (cases "tid_stage tid = js_final_stage j")
      case final: True
      from final_unblocks_nothing [OF closed(1)] final
      have "unblock_candidates (tid_stage tid) ?j2 = []" by simp
      with prep have "r = None" by simp
      with True j3 final same(2) finish_ok_core [OF core3 active3] show ?thesis
        by (simp add: task_completed_applied [OF app] Let_def)
    next
      case False
      with True j3 inv3 same(2) show ?thesis
        by (cases r) (simp_all add: task_completed_applied [OF app] Let_def)
    qed
  qed
qed (simp add: task_completed_ignored inv)

end
