(* ===== verification/Forge_Job_Props.thy ===== *)
theory Forge_Job_Props
  imports Forge_Job_Inv
begin

text \<open>
  What the job state machine promises: every reachable job satisfies the invariant of
  \<open>Forge_Job_Inv\<close>, the result is sent once, tasks are launched only on available inputs, retries
  are bounded, an active job always has something running or launchable unless resolving a stage
  failed, and what happens then.
\<close>

section \<open>Events and runs\<close>

datatype job_event =
    EvMarkRunning u64 u32 u32 u32 string
  | EvMarkPending u32 u32 u32
  | EvCompleted u64 task_id string "location list" "task_metrics option"
  | EvFailed u64 task_id string
  | EvExecutorLost u64 string
  | EvCancel u64

fun job_step :: "'x engine \<Rightarrow> job_event \<Rightarrow> 'x job_state \<Rightarrow> 'x job_state" where
  "job_step eng (EvMarkRunning now sid p a e) j = mark_running now sid p a e j"
| "job_step eng (EvMarkPending sid p a) j = mark_pending sid p a j"
| "job_step eng (EvCompleted now tid e outs ms) j = fst (task_completed eng now tid e outs ms j)"
| "job_step eng (EvFailed now tid err) j = fst (task_failed now tid err j)"
| "job_step eng (EvExecutorLost now e) j = fst (job_executor_lost now e j)"
| "job_step eng (EvCancel now) j = fst (job_cancel now j)"

lemma job_step_inv: "job_inv j \<Longrightarrow> job_inv (job_step eng ev j)"
  by (cases ev) (auto intro: inv_intro)

text \<open>An inactive job keeps its status and its result.\<close>

lemma job_step_settled:
  assumes "\<not> is_active j"
  shows "js_status (job_step eng ev j) = js_status j \<and> js_result_tx (job_step eng ev j) = js_result_tx j"
  using assms
  by (cases ev)
    (auto simp: mark_running_def mark_pending_def task_completed_def task_failed_def job_executor_lost_def
      job_cancel_def split: option.splits)

interpretation job_machine: settling_machine "job_step eng" "\<lambda>_. True" job_inv "\<lambda>j. \<not> is_active j"
  "\<lambda>j. (js_status j, js_result_tx j)" for eng
  by unfold_locales (auto simp: is_active_def job_step_settled intro: job_step_inv)

lemma job_run_inv: "job_inv j \<Longrightarrow> job_inv (fold (job_step eng) evs j)"
  using job_machine.inv_run by (simp add: list.pred_True)

lemma job_run_settled:
  "job_inv j \<Longrightarrow> \<not> is_active j \<Longrightarrow> js_status (fold (job_step eng) evs j) = js_status j \<and>
     js_result_tx (fold (job_step eng) evs j) = js_result_tx j"
  using job_machine.settled_run [of j evs eng] by (simp add: list.pred_True)

section \<open>Construction\<close>

lemma stage_ids_distinct:
  assumes "\<forall>i<length ss. stage_wf ss i" and "length ss < 2 ^ 32 - 1"
  shows "distinct (map qs_stage_id ss)"
proof -
  have "qs_stage_id (ss ! i) \<noteq> qs_stage_id (ss ! k)" if "i < length ss" "k < length ss" "i \<noteq> k" for i k
  proof -
    have "(of_nat (Suc i) :: u32) \<noteq> of_nat (Suc k)"
      using that assms(2) by (subst of_nat_word_inj) auto
    with assms(1) that show ?thesis by (simp add: stage_wf_def)
  qed
  then show ?thesis by (simp add: distinct_conv_nth)
qed

definition stages_ok :: "'x query_stage list \<Rightarrow> bool" where
  "stages_ok ss \<longleftrightarrow> ss \<noteq> [] \<and> length ss < 2 ^ 32 - 1 \<and> (\<forall>i<length ss. stage_wf ss i) \<and>
     list_all (\<lambda>s. qs_num_tasks s < 2 ^ 32) ss"

text \<open>The job before its runnable stages are prepared.\<close>

definition job_initial ::
  "u64 \<Rightarrow> string \<Rightarrow> string \<Rightarrow> (string \<times> string) list \<Rightarrow> u32 \<Rightarrow> 'x query_stage list \<Rightarrow> schema \<Rightarrow> 'x job_state" where
  "job_initial now job_id sql config max_retries stages schema =
     \<lparr>js_job_id = job_id, js_sql = sql, js_session_config = config, js_max_retries = max_retries,
      js_submitted_ms = now, js_finished_ms = 0, js_status = JobRunning,
      js_stages = fold (\<lambda>s m. bt_insert (qs_stage_id s) (stage_new s) m) stages [],
      js_final_stage = qs_stage_id (last stages), js_result_schema = schema, js_result_tx = TxOpen\<rparr>"

lemma job_initial_lookup:
  assumes "stages_ok ss"
  shows "map_of (js_stages (job_initial now job sql cfg mr ss sch)) k = Some st \<longleftrightarrow>
     (\<exists>i<length ss. k = of_nat (Suc i) \<and> st = stage_new (ss ! i))"
proof -
  have d: "distinct (map qs_stage_id ss)"
    using assms stage_ids_distinct by (auto simp: stages_ok_def)
  have "map_of (js_stages (job_initial now job sql cfg mr ss sch)) k = Some st \<longleftrightarrow>
     (\<exists>s\<in>set ss. qs_stage_id s = k \<and> st = stage_new s)"
  proof (cases "find (\<lambda>s. qs_stage_id s = k) ss")
    case None
    moreover from this have "\<forall>s\<in>set ss. qs_stage_id s \<noteq> k" by (simp add: find_None_iff)
    ultimately show ?thesis by (auto simp: job_initial_def map_of_fold_insert [OF d])
  next
    case (Some s)
    have "s' = s" if "s' \<in> set ss" "qs_stage_id s' = k" for s'
      using find_key_iff [OF d, of k s'] that Some by simp
    moreover have "s \<in> set ss" "qs_stage_id s = k" using find_key_iff [OF d, of k s] Some by auto
    moreover have "map_of (js_stages (job_initial now job sql cfg mr ss sch)) k = Some (stage_new s)"
      using Some by (simp add: job_initial_def map_of_fold_insert [OF d])
    ultimately show ?thesis by (metis option.inject)
  qed
  also have "\<dots> \<longleftrightarrow> (\<exists>i<length ss. k = of_nat (Suc i) \<and> st = stage_new (ss ! i))"
  proof -
    have "\<forall>i<length ss. qs_stage_id (ss ! i) = of_nat (Suc i)"
      using assms by (simp add: stages_ok_def stage_wf_def)
    then show ?thesis by (metis in_set_conv_nth)
  qed
  finally show ?thesis .
qed

lemma stage_new_tasks:
  assumes "qs_num_tasks s < 2 ^ 32"
  shows "map ts_partition (ss_tasks (stage_new s)) = map of_nat [0..<qs_num_tasks s]"
    and "length (ss_tasks (stage_new s)) = qs_num_tasks s"
    and "t \<in> set (ss_tasks (stage_new s)) \<Longrightarrow> ts_state t = TPending \<and> ts_attempt t = 0"
  using assms by (auto simp: stage_new_def task_new_def unat_of_nat_small)

lemma job_initial_wf:
  assumes ok: "stages_ok ss"
  shows "job_wf (job_initial now job sql cfg mr ss sch)"
proof -
  let ?j = "job_initial now job sql cfg mr ss sch" and ?n = "length ss"
  have bt: "bt_ok (js_stages ?j)" by (simp add: job_initial_def bt_ok_fold_insert)
  have dom: "of_nat (Suc i) \<in> fst ` set (js_stages ?j)" if "i < ?n" for i
    using job_initial_lookup [OF ok] that by (metis fst_conv image_iff map_of_SomeD)
  have small: "?n < 2 ^ 32 - 1" using ok by (simp add: stages_ok_def)
  have final: "js_final_stage ?j = of_nat (Suc (?n - 1))"
  proof -
    have "stage_wf ss (?n - 1)" using ok by (simp add: stages_ok_def)
    moreover have "last ss = ss ! (?n - 1)" using ok by (simp add: stages_ok_def last_conv_nth)
    ultimately show ?thesis by (simp add: job_initial_def stage_wf_def del: of_nat_Suc)
  qed
  have elem: "qs_stage_id s = k \<and> k \<le> js_final_stage ?j \<and> ps \<noteq> [] \<and> length ps < 2 ^ 32 \<and>
        ps = map of_nat [0..<length ps] \<and> qs_writer_partitioning (qs_plan s) \<noteq> None \<and>
        (\<forall>d\<in>set (qs_depends_on s). d < k \<and> d \<in> fst ` set (skeleton ?j))"
    if "(k, s, ps) \<in> set (skeleton ?j)" for k s ps
  proof -
    from that obtain st where "(k, st) \<in> set (js_stages ?j)" and s: "s = ss_stage st"
      and ps: "ps = map ts_partition (ss_tasks st)"
      by (auto simp: skeleton_def)
    with bt_ok_distinct [OF bt] have "map_of (js_stages ?j) k = Some st" by simp
    then obtain i where i: "i < ?n" and k: "k = of_nat (Suc i)" and st: "st = stage_new (ss ! i)"
      using job_initial_lookup [OF ok] by blast
    have wf: "stage_wf ss i" and nt: "qs_num_tasks (ss ! i) < 2 ^ 32"
      using ok i by (auto simp: stages_ok_def list_all_length)
    have s': "s = ss ! i" by (simp add: s st stage_new_def)
    have ps': "ps = map of_nat [0..<qs_num_tasks (ss ! i)]"
      using stage_new_tasks(1) [OF nt] by (simp add: ps st)
    have "k \<le> js_final_stage ?j"
      unfolding final k using i small by (subst of_nat_word_le) auto
    moreover have "d < k \<and> d \<in> fst ` set (skeleton ?j)" if "d \<in> set (qs_depends_on s)" for d
    proof -
      from wf that s' obtain h where h: "h < i" "d = of_nat (Suc h)" unfolding stage_wf_def by blast
      have "d < k" unfolding h(2) k using h(1) i small by (subst of_nat_word_less) auto
      moreover have "d \<in> fst ` set (skeleton ?j)"
        using dom [of h] h i keys_skeleton [of ?j] by (metis list.set_map order.strict_trans)
      ultimately show ?thesis by blast
    qed
    ultimately show ?thesis
      using wf nt by (auto simp: s' ps' k stage_wf_def)
  qed
  have "js_final_stage ?j \<in> fst ` set (skeleton ?j)"
    using dom [of "?n - 1"] ok keys_skeleton [of ?j] unfolding final
    by (metis diff_less length_greater_0_conv less_numeral_extra(1) list.set_map stages_ok_def)
  with elem bt show ?thesis
    by (auto simp: job_wf_def graph_wf_def keys_skeleton bt_ok_def)
qed

lemma job_initial_core:
  assumes ok: "stages_ok ss"
  shows "job_core UNIV (job_initial now job sql cfg mr ss sch)"
proof -
  let ?j = "job_initial now job sql cfg mr ss sch"
  have "stage_ok UNIV ?j k st" if "map_of (js_stages ?j) k = Some st" for k st
  proof -
    from that obtain i where i: "i < length ss" and st: "st = stage_new (ss ! i)"
      using job_initial_lookup [OF ok] by blast
    have nt: "qs_num_tasks (ss ! i) < 2 ^ 32" and ne: "1 \<le> qs_num_tasks (ss ! i)"
      using ok i by (auto simp: stages_ok_def list_all_length stage_wf_def)
    have tasks: "ss_tasks st \<noteq> []" "\<forall>t\<in>set (ss_tasks st). ts_state t = TPending"
      using stage_new_tasks [OF nt] ne st by force+
    then have "\<not> stage_complete st"
      by (cases "ss_tasks st") (auto simp: stage_complete_def)
    with tasks st show ?thesis
      by (auto simp: stage_ok_def stage_new_def deps_done_def list_all_iff)
  qed
  moreover have "channel_ok ?j" by (simp add: channel_ok_def) (simp add: job_initial_def)
  ultimately show ?thesis using job_initial_wf [OF ok] by (simp add: job_core_def)
qed

lemma prepare_runnable_core:
  assumes "prepare_runnable eng now sids j = Inr j'" and "job_core K j"
  shows "job_core (K - set sids) j' \<and> js_status j' = js_status j \<and> js_final_stage j' = js_final_stage j \<and>
     (\<forall>k. map_option ss_status (map_of (js_stages j') k) = map_option ss_status (map_of (js_stages j) k)
        \<and> map_option ss_stage (map_of (js_stages j') k) = map_option ss_stage (map_of (js_stages j) k))"
  using assms
proof (induction sids arbitrary: j K)
  case (Cons sid sids)
  show ?case
  proof (cases "map_option ss_status (map_of (js_stages j) sid) = Some Runnable")
    case True
    with Cons.prems(1) obtain j1 where j1: "prepare_stage eng now sid j = Inr j1"
      and rest: "prepare_runnable eng now sids j1 = Inr j'"
      by (auto split: sum.splits)
    from True Cons.prems(2) have "preparable j sid"
      by (auto simp: preparable_def stage_ok_def dest: job_core_stage)
    from prepare_stage_core [OF j1 Cons.prems(2) this] Cons.IH [OF rest]
    have "job_core (K - {sid} - set sids) j'" by blast
    moreover have "K - {sid} - set sids = K - set (sid # sids)" by auto
    ultimately show ?thesis
      using Cons.IH [OF rest prepare_stage_core [OF j1 Cons.prems(2) \<open>preparable j sid\<close>]]
        prepare_stage_status [OF j1] True by auto
  next
    case False
    then have core: "job_core (K - {sid}) j"
      using Cons.prems(2) by (fastforce simp: job_core_def stage_ok_def)
    have rest: "prepare_runnable eng now sids j = Inr j'" using Cons.prems(1) False
      by (simp only: prepare_runnable.simps if_False)
    have "K - {sid} - set sids = K - set (sid # sids)" by auto
    with Cons.IH [OF rest core] show ?thesis by simp
  qed
qed simp

lemma job_new_initial:
  assumes "job_new eng now job sql cfg mr ss sch = Inr j"
  shows "ss \<noteq> [] \<and> prepare_runnable eng now
     (map fst (js_stages (job_initial now job sql cfg mr ss sch))) (job_initial now job sql cfg mr ss sch) = Inr j"
  using assms by (auto simp: job_new_def job_initial_def Let_def split: if_splits)


section \<open>No stage is forgotten\<close>

text \<open>A blocked stage still waits for something: nothing that could run has been overlooked.\<close>

definition job_live :: "'x job_state \<Rightarrow> bool" where
  "job_live j \<longleftrightarrow> (\<forall>sid s. map_option ss_status (map_of (js_stages j) sid) = Some Blocked \<longrightarrow>
     map_option ss_stage (map_of (js_stages j) sid) = Some s \<longrightarrow> \<not> deps_done j s)"

lemma job_liveD:
  "job_live j \<Longrightarrow> map_of (js_stages j) sid = Some st \<Longrightarrow> ss_status st = Blocked \<Longrightarrow> \<not> deps_done j (ss_stage st)"
  by (auto simp: job_live_def)

text \<open>It only depends on the stages' statuses.\<close>

lemma job_live_mono:
  assumes "job_live j"
    and stage: "\<And>k. map_option ss_stage (map_of (js_stages j') k) = map_option ss_stage (map_of (js_stages j) k)"
    and blocked: "\<And>k. map_option ss_status (map_of (js_stages j') k) = Some Blocked \<Longrightarrow>
      map_option ss_status (map_of (js_stages j) k) = Some Blocked"
    and completed: "\<And>k. map_option ss_status (map_of (js_stages j') k) = Some StageCompleted \<Longrightarrow>
      map_option ss_status (map_of (js_stages j) k) = Some StageCompleted"
  shows "job_live j'"
  unfolding job_live_def
proof (intro allI impI)
  fix sid s
  assume "map_option ss_status (map_of (js_stages j') sid) = Some Blocked"
    and "map_option ss_stage (map_of (js_stages j') sid) = Some s"
  then have "\<not> deps_done j s"
    using assms(1) blocked stage unfolding job_live_def by metis
  then show "\<not> deps_done j' s"
    using deps_done_status_mono [of j' j s] completed by blast
qed

lemma job_new_inv:
  assumes ok: "stages_ok ss" and new: "job_new eng now job sql cfg mr ss sch = Inr j"
  shows "job_inv j \<and> job_live j \<and> is_active j"
proof -
  let ?i = "job_initial now job sql cfg mr ss sch"
  from job_new_initial [OF new]
  have prep: "prepare_runnable eng now (map fst (js_stages ?i)) ?i = Inr j" by simp
  note run = prepare_runnable_core [OF prep job_initial_core [OF ok]]
  have core: "job_core (UNIV - set (map fst (js_stages ?i))) j"
    and same: "js_status j = js_status ?i" "js_final_stage j = js_final_stage ?i"
    and status: "\<And>k. map_option ss_status (map_of (js_stages j) k) = map_option ss_status (map_of (js_stages ?i) k)"
    and stage: "\<And>k. map_option ss_stage (map_of (js_stages j) k) = map_option ss_stage (map_of (js_stages ?i) k)"
    using run by blast+
  have initial: "ss_status st = (if qs_depends_on (ss_stage st) = [] then Runnable else Blocked)"
    if "map_of (js_stages ?i) k = Some st" for k st
    using that job_initial_lookup [OF ok] by (auto simp: stage_new_def)
  have "map_of (js_stages j) k = Some st \<Longrightarrow> k \<in> set (map fst (js_stages ?i))" for k st
    using status [of k] by (cases "map_of (js_stages ?i) k") (force dest: map_of_SomeD)+
  with core have core: "job_core {} j"
    by (fastforce simp: job_core_def stage_ok_def)
  have nc: "map_option ss_status (map_of (js_stages j) k) \<noteq> Some StageCompleted" for k
    unfolding status using initial by (cases "map_of (js_stages ?i) k") auto
  have "\<not> deps_done j s" if "map_option ss_status (map_of (js_stages j) sid) = Some Blocked"
    "map_option ss_stage (map_of (js_stages j) sid) = Some s" for sid s
  proof -
    from that initial have "qs_depends_on s \<noteq> []"
      unfolding status stage by (cases "map_of (js_stages ?i) sid") auto
    then obtain d where "d \<in> set (qs_depends_on s)" by (cases "qs_depends_on s") auto
    with nc [of d] show ?thesis by (auto simp: deps_done_def list_all_iff)
  qed
  then have "job_live j" by (simp add: job_live_def)
  moreover have "is_active j" by (simp add: is_active_def same job_initial_def)
  ultimately show ?thesis
    using core nc unfolding job_inv_def by blast
qed

text \<open>A completion whose stage could be resolved keeps the job live; every other event does anyway.\<close>

fun unblock_failed :: "'x engine \<Rightarrow> job_event \<Rightarrow> 'x job_state \<Rightarrow> bool" where
  "unblock_failed eng (EvCompleted now tid e outs ms) j =
     (case snd (task_completed eng now tid e outs ms j) of Inl _ \<Rightarrow> True | Inr _ \<Rightarrow> False)"
| "unblock_failed eng _ j = False"

lemma upd_task_stage:
  "map_option ss_stage (map_of (js_stages (upd_task sid p f j)) k) = map_option ss_stage (map_of (js_stages j) k)"
  by (auto simp: upd_task_def map_of_adjust option.map_comp comp_def)

lemma upd_task_live: "job_live j \<Longrightarrow> job_live (upd_task sid p f j)"
  by (erule job_live_mono) (simp_all only: upd_task_status upd_task_stage)

lemma same_stages_live: "js_stages j' = js_stages j \<Longrightarrow> job_live j' = job_live j"
  by (simp add: job_live_def deps_done_def)

lemma finish_err_live [simp]: "job_live (finish_err now m j) = job_live j"
  by (rule same_stages_live) simp

lemma finish_ok_live [simp]: "job_live (finish_ok now j) = job_live j"
  by (rule same_stages_live) (simp add: finish_ok_def split: option.splits)

lemma job_cancel_live [simp]: "job_live (fst (job_cancel now j)) = job_live j"
  by (rule same_stages_live) (simp add: job_cancel_def)

lemma fail_stage_live: "job_live j \<Longrightarrow> job_live (fail_stage now sid p error j)"
proof (erule job_live_mono)
  fix k
  have status: "map_option ss_status (map_of (js_stages (fail_stage now sid p error j)) k) \<in>
      {map_option ss_status (map_of (js_stages j) k), Some StageFailed}"
    by (cases "map_of (js_stages j) k") (auto simp: fail_stage_def map_of_adjust)
  then show "map_option ss_status (map_of (js_stages (fail_stage now sid p error j)) k) = Some Blocked \<Longrightarrow>
      map_option ss_status (map_of (js_stages j) k) = Some Blocked"
    and "map_option ss_status (map_of (js_stages (fail_stage now sid p error j)) k) = Some StageCompleted \<Longrightarrow>
      map_option ss_status (map_of (js_stages j) k) = Some StageCompleted"
    by (metis empty_iff insertE option.inject stage_status.distinct(5,11) stage_status.distinct)+
  show "map_option ss_stage (map_of (js_stages (fail_stage now sid p error j)) k) = map_option ss_stage (map_of (js_stages j) k)"
    by (auto simp: fail_stage_def map_of_adjust option.map_comp comp_def)
qed

lemma close_then_prepare_live:
  assumes live: "job_live j" and core2: "job_core {} j2"
    and status2: "\<And>k. map_option ss_status (map_of (js_stages j2) k) =
      (if k = sid then Some StageCompleted else map_option ss_status (map_of (js_stages j) k))"
    and stage2: "\<And>k. map_option ss_stage (map_of (js_stages j2) k) = map_option ss_stage (map_of (js_stages j) k)"
    and prep: "prepare_all eng now (unblock_candidates sid j2) j2 = (j3, None)"
  shows "job_live j3"
  unfolding job_live_def
proof (intro allI impI)
  fix k s
  assume b: "map_option ss_status (map_of (js_stages j3) k) = Some Blocked"
    and s: "map_option ss_stage (map_of (js_stages j3) k) = Some s"
  note st3 = prepare_all_status(1,2) [OF prep]
  have nk: "k \<notin> set (unblock_candidates sid j2)" using b st3(2) by (auto split: if_splits)
  have b2: "map_option ss_status (map_of (js_stages j2) k) = Some Blocked"
    using b st3(2) [OF refl, of k] nk by simp
  have s2: "map_option ss_stage (map_of (js_stages j2) k) = Some s" using s st3(1) by simp
  have "\<not> deps_done j2 s"
  proof (cases "sid \<in> set (qs_depends_on s)")
    case True
    from b2 s2 obtain st where "map_of (js_stages j2) k = Some st" "ss_status st = Blocked" "ss_stage st = s"
      by auto
    with True nk show ?thesis using unblock_candidates_iff [OF core2, of k sid] by blast
  next
    case False
    have "\<not> deps_done j s"
      using live b2 s2 status2 [of k] stage2 [of k] unfolding job_live_def by (metis stage_status.distinct(3) option.inject)
    then obtain d where d: "d \<in> set (qs_depends_on s)"
      "map_option ss_status (map_of (js_stages j) d) \<noteq> Some StageCompleted"
      unfolding deps_done_def list_all_iff by blast
    with False have "d \<noteq> sid" by blast
    with d status2 [of d] have "map_option ss_status (map_of (js_stages j2) d) \<noteq> Some StageCompleted"
      by presburger
    with d(1) show ?thesis unfolding deps_done_def list_all_iff by blast
  qed
  moreover have "deps_done j3 s \<Longrightarrow> deps_done j2 s"
    by (rule deps_done_status_mono) (use st3(2) in \<open>auto split: if_splits\<close>)
  ultimately show "\<not> deps_done j3 s" by blast
qed

lemma task_completed_live:
  assumes inv: "job_inv j" and live: "job_live j"
    and ok: "\<not> unblock_failed eng (EvCompleted now tid e outs ms) j"
  shows "job_live (fst (task_completed eng now tid e outs ms j))"
proof (cases "report_applies tid j")
  case app: True
  let ?j1 = "complete_task now tid e outs ms j"
  let ?j2 = "close_stage now (tid_stage tid) ?j1"
  show ?thesis
  proof (cases "stage_done (tid_stage tid) ?j1")
    case False
    then show ?thesis
      using upd_task_live [OF live] by (simp add: task_completed_applied [OF app] Let_def complete_task_def)
  next
    case True
    obtain j3 r where j3: "unblock_dependents eng now (tid_stage tid) ?j2 = (j3, r)" by fastforce
    with ok True have r: "r = None"
      by (cases r) (simp_all add: task_completed_applied [OF app] Let_def)
    from close_then_prepare_live [OF live close_stage_core [OF inv app True], of eng now j3] j3 r
    have "job_live j3" by (simp add: unblock_dependents_def)
    with True j3 r show ?thesis by (simp add: task_completed_applied [OF app] Let_def)
  qed
qed (simp add: task_completed_ignored live)

lemma task_failed_live:
  assumes "job_live j"
  shows "job_live (fst (task_failed now tid err j))"
proof (cases "report_applies tid j")
  case app: True
  show ?thesis
  proof (cases "tid_attempt tid < js_max_retries j")
    case True
    then show ?thesis using upd_task_live [OF assms] by (simp add: task_failed_retry [OF app])
  next
    case False
    then show ?thesis using fail_stage_live [OF assms] by (simp add: task_failed_fatal [OF app])
  qed
qed (simp add: task_failed_ignored assms)

lemma job_executor_lost_live:
  assumes "job_live j"
  shows "job_live (fst (job_executor_lost now e j))"
proof -
  have "job_live (requeue_stages e j)"
    by (rule job_live_mono [OF assms]) (simp_all add: map_of_requeue option.map_comp comp_def)
  then show ?thesis using assms
    by (simp add: job_executor_lost_def Let_def flip: requeue_stages_def)
qed

lemma mark_running_live: "job_live j \<Longrightarrow> job_live (mark_running now sid p a e j)"
  by (simp add: mark_running_def upd_task_live split: option.split)

lemma mark_pending_live: "job_live j \<Longrightarrow> job_live (mark_pending sid p a j)"
  by (simp add: mark_pending_def upd_task_live split: option.split)

lemma job_step_live:
  assumes "job_inv j" and "job_live j" and "\<not> unblock_failed eng ev j"
  shows "job_live (job_step eng ev j)"
proof (cases ev)
  case (EvCompleted now tid e outs ms)
  with assms(3) task_completed_live [OF assms(1,2)] show ?thesis by simp
qed (simp_all add: assms(2) mark_running_live mark_pending_live task_failed_live job_executor_lost_live)

fun clean_run :: "'x engine \<Rightarrow> job_event list \<Rightarrow> 'x job_state \<Rightarrow> bool" where
  "clean_run eng [] j = True"
| "clean_run eng (ev # evs) j = (\<not> unblock_failed eng ev j \<and> clean_run eng evs (job_step eng ev j))"

lemma clean_run_live:
  "job_inv j \<Longrightarrow> job_live j \<Longrightarrow> clean_run eng evs j \<Longrightarrow>
     job_inv (fold (job_step eng) evs j) \<and> job_live (fold (job_step eng) evs j)"
  by (induction evs arbitrary: j) (auto intro: job_step_inv job_step_live)

text \<open>The least stage that is not completed can run.\<close>

lemma active_has_work:
  assumes inv: "job_inv j" and live: "job_live j" and active: "is_active j"
  shows "pending_tasks j \<noteq> [] \<or> running_tasks j \<noteq> []"
proof -
  have core: "job_core {} j" using inv by (rule job_inv_core)
  note wf = job_core_wf [OF core]
  let ?open = "{k. \<exists>st. map_of (js_stages j) k = Some st \<and> ss_status st \<noteq> StageCompleted}"
  obtain fin where "map_of (js_stages j) (js_final_stage j) = Some fin"
    using job_wf_final [OF wf] by blast
  with inv active have "js_final_stage j \<in> ?open" by (auto simp: job_inv_def)
  moreover have "finite ?open"
    by (rule finite_subset [of _ "dom (map_of (js_stages j))"]) (auto simp: finite_dom_map_of)
  ultimately have "Min ?open \<in> ?open" and least: "\<And>k. k \<in> ?open \<Longrightarrow> Min ?open \<le> k"
    using Min_in Min_le by blast+
  then obtain st where st: "map_of (js_stages j) (Min ?open) = Some st" and nc: "ss_status st \<noteq> StageCompleted"
    by blast
  have "deps_done j (ss_stage st)"
    unfolding deps_done_def list_all_iff
  proof
    fix d assume "d \<in> set (qs_depends_on (ss_stage st))"
    with job_wf_stage(6) [OF wf st] obtain sd where d: "d < Min ?open" "map_of (js_stages j) d = Some sd"
      by blast
    then have "ss_status sd = StageCompleted" using least [of d] by fastforce
    with d show "map_option ss_status (map_of (js_stages j) d) = Some StageCompleted" by simp
  qed
  moreover have ok: "stage_ok {} j (Min ?open) st" using core st by (rule job_core_stage)
  ultimately have run: "ss_status st = Runnable"
    using nc active job_liveD [OF live st] by (cases "ss_status st") (auto simp: stage_ok_def)
  with ok obtain plan where plan: "ss_encoded_plan st = Some plan" by (auto simp: stage_ok_def)
  from ok run have "\<not> stage_complete st" by (simp add: stage_ok_def)
  then obtain t where t: "t \<in> set (ss_tasks st)" and ntc: "\<not> is_completed (ts_state t)"
    by (auto simp: stage_complete_def list_all_iff)
  from map_of_SomeD [OF st] have mem: "(Min ?open, st) \<in> set (js_stages j)" .
  have "\<not> is_failed (ts_state t)" using ok active t by (auto simp: stage_ok_def list_all_iff)
  then consider "ts_state t = TPending" | e where "ts_state t = TRunning e"
    using ntc by (cases "ts_state t") auto
  then show ?thesis
  proof cases
    case 1
    with mem t run plan active have "(qs_stage_id (ss_stage st), ts_partition t, ts_attempt t, plan) \<in> set (pending_tasks j)"
      by (force simp: pending_tasks_def)
    then show ?thesis by auto
  next
    case 2
    with mem t have "\<exists>x. x \<in> set (running_tasks j)"
      by (force simp: running_tasks_def)
    then show ?thesis by auto
  qed
qed

end
