(* ===== verification/Forge_Scheduler.thy ===== *)
theory Forge_Scheduler
  imports Forge_Executors Forge_Config Forge_Job_Props
begin

text \<open>
  The scheduler (\<open>forge-scheduler/src/scheduler.rs\<close>): the table of jobs in submission order, and
  the dispatcher that assigns pending tasks to executors with free slots.

  The two mutexes make every operation atomic on the tables it locks; an operation here is one such
  critical section with the calls made under it. The background loop's iteration is \<open>sched_tick\<close>;
  waking it is not modelled. The answer of an executor to a launch request is the parameter
  \<open>answer\<close>: \<open>None\<close> when the request fails, otherwise the tasks it rejects.
\<close>

section \<open>State\<close>

record scheduler_config =
  cfg_driver_id :: string
  cfg_driver_addr :: string
  cfg_work_dir :: string
  cfg_executor_timeout_ms :: u64
  cfg_max_jobs_retained :: nat

text \<open>\<open>sc_outbox\<close>: the cancel requests handed to the network, per executor.\<close>

record 'x scheduler =
  sc_config :: scheduler_config
  sc_executors :: registry
  sc_jobs :: "(string \<times> 'x job_state) list"
  sc_job_order :: "string list"
  sc_outbox :: "(string \<times> task_id list) list"

record task_definition =
  td_id :: task_id
  td_plan :: bytes
  td_session_config :: "(string \<times> string) list"
  td_work_dir :: string

definition sched_new :: "scheduler_config \<Rightarrow> 'x scheduler" where
  "sched_new cfg = \<lparr>sc_config = cfg, sc_executors = [], sc_jobs = [], sc_job_order = [], sc_outbox = []\<rparr>"

text \<open>\<open>entry(k).or_default().push(v)\<close>.\<close>

definition push_entry :: "'k \<Rightarrow> 'v \<Rightarrow> ('k \<times> 'v list) list \<Rightarrow> ('k \<times> 'v list) list" where
  "push_entry k v m =
     (case map_of m k of None \<Rightarrow> m @ [(k, [v])] | Some _ \<Rightarrow> adjust k (\<lambda>vs. vs @ [v]) m)"

section \<open>Jobs\<close>

definition apply_transition :: "transition \<Rightarrow> 'x scheduler \<Rightarrow> 'x scheduler" where
  "apply_transition tr s =
     s\<lparr>sc_outbox := sc_outbox s @ fold (\<lambda>(e, t). push_entry e t) (tr_cancel tr) []\<rparr>"

definition sched_plan_stages ::
  "'x engine \<Rightarrow> string \<Rightarrow> 'x plan \<Rightarrow> 'x scheduler \<Rightarrow> forge_error + 'x query_stage list" where
  "sched_plan_stages eng job_id p s =
     (case plan_stages (eng_df eng) job_id (cfg_work_dir (sc_config s)) p of
        Inl e \<Rightarrow> Inl (DataFusion e) | Inr ss \<Rightarrow> Inr ss)"

text \<open>Inactive jobs among the evicted ids are dropped; active ones stay in the table.\<close>

definition evict_jobs :: "string list \<Rightarrow> (string \<times> 'x job_state) list \<Rightarrow> (string \<times> 'x job_state) list" where
  "evict_jobs ids jobs = fold (\<lambda>i jobs.
     case map_of jobs i of
       None \<Rightarrow> jobs
     | Some j \<Rightarrow> (if is_active j then jobs else AList.delete i jobs)) ids jobs"

definition sched_submit ::
  "'x engine \<Rightarrow> u64 \<Rightarrow> string \<Rightarrow> string \<Rightarrow> 'x plan \<Rightarrow> session_settings
     \<Rightarrow> 'x scheduler \<Rightarrow> forge_error + 'x scheduler" where
  "sched_submit eng now job_id sql p settings s =
     (case sched_plan_stages eng job_id p s of
        Inl e \<Rightarrow> Inl e
      | Inr stages \<Rightarrow>
          (case job_new eng now job_id sql (settings_to_map settings) (task_max_retries settings) stages
                  (plan_schema (eng_df eng) p) of
             Inl e \<Rightarrow> Inl e
           | Inr job \<Rightarrow>
               let jobs = AList.update job_id job (sc_jobs s);
                   order = sc_job_order s @ [job_id];
                   retained = cfg_max_jobs_retained (sc_config s)
               in if length order > retained
                  then Inr (s\<lparr>sc_jobs := evict_jobs (take (length order - retained) order) jobs,
                             sc_job_order := drop (length order - retained) order\<rparr>)
                  else Inr (s\<lparr>sc_jobs := jobs, sc_job_order := order\<rparr>)))"

definition sched_cancel :: "u64 \<Rightarrow> string \<Rightarrow> 'x scheduler \<Rightarrow> bool \<times> 'x scheduler" where
  "sched_cancel now job_id s =
     (case map_of (sc_jobs s) job_id of
        None \<Rightarrow> (False, s)
      | Some j \<Rightarrow>
          (let (j', tr) = job_cancel now j
           in (True, apply_transition tr (s\<lparr>sc_jobs := adjust job_id (\<lambda>_. j') (sc_jobs s)\<rparr>))))"

definition sched_release :: "string \<Rightarrow> 'x scheduler \<Rightarrow> 'x scheduler" where
  "sched_release job_id s = s\<lparr>sc_executors := schedule_purge job_id (sc_executors s)\<rparr>"

definition sched_job_info :: "'x engine \<Rightarrow> string \<Rightarrow> 'x scheduler \<Rightarrow> (job_info \<times> stage_info list) option" where
  "sched_job_info eng job_id s =
     map_option (\<lambda>j. (job_info_of j, job_stage_infos eng j)) (map_of (sc_jobs s) job_id)"

definition sched_list_jobs :: "nat \<Rightarrow> 'x scheduler \<Rightarrow> job_info list" where
  "sched_list_jobs limit s =
     (let infos = List.map_filter (\<lambda>i. map_option job_info_of (map_of (sc_jobs s) i)) (rev (sc_job_order s))
      in if limit = 0 then infos else take limit infos)"

definition sched_running_jobs :: "'x scheduler \<Rightarrow> nat" where
  "sched_running_jobs s = length (filter (\<lambda>(_, j). is_active j) (sc_jobs s))"

definition sched_progress :: "string \<Rightarrow> 'x scheduler \<Rightarrow> query_progress option" where
  "sched_progress job_id s = map_option job_progress (map_of (sc_jobs s) job_id)"

section \<open>Reports from executors\<close>

datatype report_state = TaskPending | TaskRunning | TaskCompleted | TaskFailed | TaskCancelled

text \<open>\<open>TaskState::try_from(i32)\<close>, with \<open>TaskFailed\<close> for values out of range.\<close>

definition report_state_of :: "int \<Rightarrow> report_state" where
  "report_state_of n =
     (if n = 0 then TaskPending else if n = 1 then TaskRunning else if n = 2 then TaskCompleted
      else if n = 3 then TaskFailed else if n = 4 then TaskCancelled else TaskFailed)"

record task_status =
  st_id :: "task_id option"
  st_state :: int
  st_executor_id :: string
  st_error :: string
  st_outputs :: "location list"
  st_metrics :: "task_metrics option"

definition report_to_job ::
  "'x engine \<Rightarrow> u64 \<Rightarrow> task_status \<Rightarrow> task_id \<Rightarrow> 'x job_state \<Rightarrow> 'x job_state \<times> transition" where
  "report_to_job eng now st tid j =
     (case report_state_of (st_state st) of
        TaskCompleted \<Rightarrow>
          (case task_completed eng now tid (st_executor_id st) (st_outputs st) (st_metrics st) j of
             (j', Inr tr) \<Rightarrow> (j', tr)
           | (j', Inl e) \<Rightarrow> task_failed now tid (''resolve failed: '' @ show_forge_error e) j')
      | TaskFailed \<Rightarrow> task_failed now tid (st_error st) j
      | TaskCancelled \<Rightarrow> task_failed now tid (st_error st) j
      | TaskRunning \<Rightarrow> (j, default_transition)
      | TaskPending \<Rightarrow> (j, default_transition))"

text \<open>The registry's side: \<open>task_finished\<close>, with the verdict it is told.\<close>

definition report_to_registry :: "task_status \<Rightarrow> task_id \<Rightarrow> registry \<Rightarrow> registry" where
  "report_to_registry st tid reg =
     (case report_state_of (st_state st) of
        TaskCompleted \<Rightarrow> task_finished (st_executor_id st) tid True reg
      | TaskFailed \<Rightarrow> task_finished (st_executor_id st) tid False reg
      | TaskCancelled \<Rightarrow> task_finished (st_executor_id st) tid False reg
      | TaskRunning \<Rightarrow> reg
      | TaskPending \<Rightarrow> reg)"

definition update_one :: "'x engine \<Rightarrow> u64 \<Rightarrow> task_status \<Rightarrow> 'x scheduler \<Rightarrow> 'x scheduler" where
  "update_one eng now st s =
     (case st_id st of
        None \<Rightarrow> s
      | Some tid \<Rightarrow>
          (case map_of (sc_jobs s) (tid_job tid) of
             None \<Rightarrow> s\<lparr>sc_executors := task_finished (st_executor_id st) tid True (sc_executors s)\<rparr>
           | Some j \<Rightarrow>
               (let (j', tr) = report_to_job eng now st tid j
                in apply_transition tr
                     (s\<lparr>sc_executors := report_to_registry st tid (sc_executors s),
                        sc_jobs := adjust (tid_job tid) (\<lambda>_. j') (sc_jobs s)\<rparr>))))"

definition update_task_status :: "'x engine \<Rightarrow> u64 \<Rightarrow> task_status list \<Rightarrow> 'x scheduler \<Rightarrow> 'x scheduler" where
  "update_task_status eng now sts s = fold (update_one eng now) sts s"

definition sched_executor_lost :: "u64 \<Rightarrow> string \<Rightarrow> 'x scheduler \<Rightarrow> 'x scheduler" where
  "sched_executor_lost now e s =
     (let s1 = s\<lparr>sc_executors := snd (reg_remove e (sc_executors s)),
                 sc_jobs := map (\<lambda>(i, j). (i, fst (job_executor_lost now e j))) (sc_jobs s)\<rparr>
      in fold (\<lambda>(i, j). apply_transition (snd (job_executor_lost now e j))) (sc_jobs s) s1)"

section \<open>Dispatch\<close>

text \<open>\<open>max_by_key\<close>: the position of the last of the greatest.\<close>

fun max_slot :: "(string \<times> u32) list \<Rightarrow> nat option" where
  "max_slot [] = None"
| "max_slot (x # xs) =
     (case max_slot xs of
        None \<Rightarrow> Some 0
      | Some i \<Rightarrow> (if snd (xs ! i) < snd x then Some 0 else Some (Suc i)))"

record 'x dispatch_state =
  ds_free :: "(string \<times> u32) list"
  ds_executors :: registry
  ds_launches :: "(string \<times> task_definition list) list"

text \<open>The loop over one job's pending tasks; \<open>False\<close>: it broke out of both loops.\<close>

fun launch_pending ::
  "u64 \<Rightarrow> string \<Rightarrow> string \<Rightarrow> (u32 \<times> u32 \<times> u32 \<times> bytes) list \<Rightarrow> 'x job_state \<Rightarrow> 'x dispatch_state
     \<Rightarrow> bool \<times> 'x job_state \<times> 'x dispatch_state" where
  "launch_pending now wd job_id [] j d = (True, j, d)"
| "launch_pending now wd job_id ((sid, p, attempt, plan) # rest) j d =
     (case max_slot (ds_free d) of
        None \<Rightarrow> (False, j, d)
      | Some i \<Rightarrow>
          (let (e, n) = ds_free d ! i
           in if n = 0 then (False, j, d)
              else
                let tid = \<lparr>tid_job = job_id, tid_stage = sid, tid_partition = p, tid_attempt = attempt\<rparr>
                in launch_pending now wd job_id rest (mark_running now sid p attempt e j)
                     \<lparr>ds_free = (ds_free d)[i := (e, n - 1)],
                      ds_executors = task_started e tid (ds_executors d),
                      ds_launches = push_entry e \<lparr>td_id = tid, td_plan = plan, td_session_config = js_session_config j,
                                                  td_work_dir = wd\<rparr> (ds_launches d)\<rparr>))"

fun dispatch_jobs ::
  "u64 \<Rightarrow> string \<Rightarrow> string list \<Rightarrow> (string \<times> 'x job_state) list \<Rightarrow> 'x dispatch_state
     \<Rightarrow> (string \<times> 'x job_state) list \<times> 'x dispatch_state" where
  "dispatch_jobs now wd [] jobs d = (jobs, d)"
| "dispatch_jobs now wd (job_id # order) jobs d =
     (case map_of jobs job_id of
        None \<Rightarrow> dispatch_jobs now wd order jobs d
      | Some j \<Rightarrow>
          (if \<not> is_active j then dispatch_jobs now wd order jobs d
           else case launch_pending now wd job_id (pending_tasks j) j d of
                  (continue, j', d') \<Rightarrow>
                    (let jobs' = adjust job_id (\<lambda>_. j') jobs
                     in if continue then dispatch_jobs now wd order jobs' d' else (jobs', d'))))"

definition free_list :: "registry \<Rightarrow> (string \<times> u32) list" where
  "free_list reg =
     map (\<lambda>e. (em_id (ee_metadata e), free_slots e))
       (filter (\<lambda>e. 0 < free_slots e) (sort_key (\<lambda>e. - int (unat (free_slots e))) (reg_list reg)))"

text \<open>The part of \<open>dispatch\<close> under the locks: the new state and the launch batches.\<close>

definition assign_tasks ::
  "u64 \<Rightarrow> 'x scheduler \<Rightarrow> 'x scheduler \<times> (string \<times> task_definition list) list" where
  "assign_tasks now s =
     (let free = free_list (sc_executors s)
      in if free = [] then (s, [])
         else case dispatch_jobs now (cfg_work_dir (sc_config s)) (sc_job_order s) (sc_jobs s)
                     \<lparr>ds_free = free, ds_executors = sc_executors s, ds_launches = []\<rparr> of
                (jobs, d) \<Rightarrow> (s\<lparr>sc_jobs := jobs, sc_executors := ds_executors d\<rparr>, ds_launches d))"

definition requeue :: "string \<Rightarrow> task_id list \<Rightarrow> 'x scheduler \<Rightarrow> 'x scheduler" where
  "requeue e ids s = fold (\<lambda>tid s.
     s\<lparr>sc_executors := task_finished e tid False (sc_executors s),
       sc_jobs := adjust (tid_job tid) (mark_pending (tid_stage tid) (tid_partition tid) (tid_attempt tid)) (sc_jobs s)\<rparr>)
     ids s"

definition launch_batch ::
  "u64 \<Rightarrow> (string \<Rightarrow> task_definition list \<Rightarrow> task_id list option) \<Rightarrow> string \<times> task_definition list
     \<Rightarrow> 'x scheduler \<Rightarrow> 'x scheduler" where
  "launch_batch now answer batch s =
     (case batch of (e, tasks) \<Rightarrow>
        (case answer e tasks of
           Some rejected \<Rightarrow> requeue e rejected s
         | None \<Rightarrow> sched_executor_lost now e (requeue e (map td_id tasks) s)))"

definition sched_dispatch ::
  "u64 \<Rightarrow> (string \<Rightarrow> task_definition list \<Rightarrow> task_id list option) \<Rightarrow> 'x scheduler \<Rightarrow> 'x scheduler" where
  "sched_dispatch now answer s =
     (let (s', batches) = assign_tasks now s in fold (launch_batch now answer) batches s')"

definition sched_tick ::
  "u64 \<Rightarrow> (string \<Rightarrow> task_definition list \<Rightarrow> task_id list option) \<Rightarrow> 'x scheduler \<Rightarrow> 'x scheduler" where
  "sched_tick now answer s =
     sched_dispatch now answer
       (fold (sched_executor_lost now) (reg_stale now (cfg_executor_timeout_ms (sc_config s)) (sc_executors s)) s)"

end
