(* ===== verification/Forge_Sched_Inv.thy ===== *)
theory Forge_Sched_Inv
  imports Forge_Scheduler
begin

text \<open>
  Runs of the scheduler: every operation acts on every job by events of the job's own state
  machine, so what is proved of job runs holds of the jobs of a running scheduler; and the registry
  keeps its invariant. The interpretation of the \<open>machine\<close> locale on scheduler events closes the
  theory.
\<close>

section \<open>Jobs move by their own events\<close>

definition job_moves :: "'x engine \<Rightarrow> 'x job_state \<Rightarrow> 'x job_state \<Rightarrow> bool" where
  "job_moves eng j j' \<longleftrightarrow> (\<exists>evs. j' = fold (job_step eng) evs j)"

lemma job_moves_refl [simp, intro]: "job_moves eng j j"
  unfolding job_moves_def by (rule exI [of _ "[]"]) simp

lemma job_moves_step [intro]: "job_moves eng j (job_step eng ev j)"
  unfolding job_moves_def by (rule exI [of _ "[ev]"]) simp

lemma job_moves_trans [trans]: "job_moves eng j j' \<Longrightarrow> job_moves eng j' j'' \<Longrightarrow> job_moves eng j j''"
  unfolding job_moves_def by (metis fold_append comp_apply)

lemma job_moves_ops [intro]:
  "job_moves eng j (mark_running now sid p a e j)" "job_moves eng j (mark_pending sid p a j)"
  "job_moves eng j (fst (task_completed eng now tid e outs ms j))" "job_moves eng j (fst (task_failed now tid err j))"
  "job_moves eng j (fst (job_executor_lost now e j))" "job_moves eng j (fst (job_cancel now j))"
  using job_moves_step [of eng j "EvMarkRunning now sid p a e"] job_moves_step [of eng j "EvMarkPending sid p a"]
    job_moves_step [of eng j "EvCompleted now tid e outs ms"] job_moves_step [of eng j "EvFailed now tid err"]
    job_moves_step [of eng j "EvExecutorLost now e"] job_moves_step [of eng j "EvCancel now"] by simp_all

lemma report_moves: "job_moves eng j (fst (report_to_job eng now st tid j))"
proof (cases "report_state_of (st_state st)")
  case TaskCompleted
  obtain j' r where r: "task_completed eng now tid (st_executor_id st) (st_outputs st) (st_metrics st) j = (j', r)"
    by fastforce
  have "job_moves eng j j'"
    using job_moves_ops(3) [of eng j now tid "st_executor_id st" "st_outputs st" "st_metrics st"] by (simp add: r)
  with TaskCompleted r show ?thesis
    by (cases r) (auto simp: report_to_job_def intro: job_moves_trans)
qed (auto simp: report_to_job_def)

lemma launch_pending_moves:
  "launch_pending now wd job_id ps j d = (c, j', d') \<Longrightarrow> job_moves eng j j'"
proof (induction now wd job_id ps j d rule: launch_pending.induct)
  case (2 now wd job_id sid p attempt plan rest j d)
  show ?case
  proof (cases "max_slot (ds_free d)")
    case (Some i)
    obtain e n where en: "ds_free d ! i = (e, n)" by fastforce
    show ?thesis
    proof (cases "n = 0")
      case False
      note IH = "2.IH" [OF Some en [symmetric] refl False refl]
      from "2.prems" Some en False show ?thesis
        by (auto simp: Let_def intro: job_moves_trans dest: IH)
    qed (use "2.prems" Some en in simp)
  qed (use "2.prems" in simp)
qed simp

section \<open>Reachable jobs\<close>

definition job_reachable :: "'x engine \<Rightarrow> string \<Rightarrow> 'x job_state \<Rightarrow> bool" where
  "job_reachable eng i j \<longleftrightarrow>
     (\<exists>now sql cfg mr ss sch j0. stages_ok ss \<and> job_new eng now i sql cfg mr ss sch = Inr j0 \<and> job_moves eng j0 j)"

lemma job_reachable_moves: "job_reachable eng i j \<Longrightarrow> job_moves eng j j' \<Longrightarrow> job_reachable eng i j'"
  unfolding job_reachable_def by (meson job_moves_trans)

lemma job_reachable_inv: "job_reachable eng i j \<Longrightarrow> job_inv j"
  unfolding job_reachable_def job_moves_def using job_new_inv job_run_inv by blast

text \<open>No operation renames the job.\<close>

lemma prepare_stage_id: "prepare_stage eng now sid j = Inr j' \<Longrightarrow> js_job_id j' = js_job_id j"
  by (auto elim: prepare_stage_InrE)

lemma prepare_all_id: "prepare_all eng now sids j = (j', r) \<Longrightarrow> js_job_id j' = js_job_id j"
  by (induction sids arbitrary: j) (auto dest: prepare_stage_id split: sum.splits)

lemma prepare_runnable_id: "prepare_runnable eng now sids j = Inr j' \<Longrightarrow> js_job_id j' = js_job_id j"
proof (induction sids arbitrary: j)
  case (Cons sid sids)
  show ?case
  proof (cases "map_option ss_status (map_of (js_stages j) sid) = Some Runnable")
    case True
    with Cons.prems Cons.IH show ?thesis by (auto dest: prepare_stage_id split: sum.splits)
  next
    case False
    with Cons.prems have "prepare_runnable eng now sids j = Inr j'"
      by (simp only: prepare_runnable.simps if_False)
    then show ?thesis by (rule Cons.IH)
  qed
qed simp

lemma job_step_id: "js_job_id (job_step eng ev j) = js_job_id j"
proof (cases ev)
  case (EvCompleted now tid e outs ms)
  show ?thesis
  proof (cases "report_applies tid j")
    case app: True
    let ?j2 = "close_stage now (tid_stage tid) (complete_task now tid e outs ms j)"
    obtain j3 r where j3: "unblock_dependents eng now (tid_stage tid) ?j2 = (j3, r)" by fastforce
    then have "js_job_id j3 = js_job_id j"
      using prepare_all_id by (fastforce simp: unblock_dependents_def close_stage_def complete_task_def)
    with j3 EvCompleted show ?thesis
      by (cases r) (auto simp: task_completed_applied [OF app] Let_def finish_ok_def complete_task_def split: option.split)
  qed (simp add: EvCompleted task_completed_ignored)
qed (auto simp: mark_running_def mark_pending_def task_failed_def finish_err_def Let_def
  job_executor_lost_def job_cancel_def split: option.split)

lemma job_reachable_id: "job_reachable eng i j \<Longrightarrow> js_job_id j = i"
proof -
  have run: "js_job_id (fold (job_step eng) evs j) = js_job_id j" for evs and j :: "'a job_state"
    by (induction evs arbitrary: j) (simp_all add: job_step_id)
  have new: "job_new eng now i sql cfg mr ss sch = Inr j0 \<Longrightarrow> js_job_id j0 = i" for now sql cfg mr ss sch and j0 :: "'a job_state"
    by (drule job_new_initial) (auto dest!: prepare_runnable_id simp: job_initial_def)
  show "job_reachable eng i j \<Longrightarrow> js_job_id j = i"
    unfolding job_reachable_def job_moves_def using run new by metis
qed

section \<open>The invariant of the scheduler\<close>

definition jobs_ok :: "'x engine \<Rightarrow> (string \<times> 'x job_state) list \<Rightarrow> bool" where
  "jobs_ok eng jobs \<longleftrightarrow> distinct (map fst jobs) \<and> (\<forall>i j. map_of jobs i = Some j \<longrightarrow> job_reachable eng i j)"

definition sched_inv :: "'x engine \<Rightarrow> 'x scheduler \<Rightarrow> bool" where
  "sched_inv eng s \<longleftrightarrow> reg_ok (sc_executors s) \<and> jobs_ok eng (sc_jobs s)"

lemma jobs_ok_adjust:
  assumes "jobs_ok eng jobs" and "\<And>j. map_of jobs i = Some j \<Longrightarrow> job_moves eng j (f j)"
  shows "jobs_ok eng (adjust i f jobs)"
  unfolding jobs_ok_def
proof (intro conjI allI impI)
  fix k j'
  assume k: "map_of (adjust i f jobs) k = Some j'"
  show "job_reachable eng k j'"
  proof (cases "k = i")
    case True
    with k obtain j where "map_of jobs i = Some j" "j' = f j" 
      by (cases "map_of jobs i") (auto simp: map_of_adjust)
    with True assms show ?thesis by (metis jobs_ok_def job_reachable_moves)
  next
    case False
    with k assms(1) show ?thesis by (simp add: jobs_ok_def map_of_adjust)
  qed
qed (use assms(1) in \<open>simp add: jobs_ok_def\<close>)

lemma jobs_ok_map:
  assumes "jobs_ok eng jobs" and "\<And>j. job_moves eng j (f j)"
  shows "jobs_ok eng (map (\<lambda>(i, j). (i, f j)) jobs)"
proof -
  have "map_of (map (\<lambda>(i, j). (i, f j)) jobs) i = map_option f (map_of jobs i)" for i
    by (induction jobs) auto
  moreover have "map fst (map (\<lambda>(i, j). (i, f j)) jobs) = map fst jobs"
    by (induction jobs) auto
  ultimately show ?thesis
    using assms unfolding jobs_ok_def by (metis (no_types, lifting) job_reachable_moves map_option_eq_Some)
qed

lemma jobs_ok_update: "jobs_ok eng jobs \<Longrightarrow> job_reachable eng i j \<Longrightarrow> jobs_ok eng (AList.update i j jobs)"
  by (auto simp: jobs_ok_def distinct_update update_conv')

lemma jobs_ok_delete: "jobs_ok eng jobs \<Longrightarrow> jobs_ok eng (AList.delete i jobs)"
  by (auto simp: jobs_ok_def distinct_delete delete_conv')

lemma jobs_ok_evict: "jobs_ok eng jobs \<Longrightarrow> jobs_ok eng (evict_jobs ids jobs)"
proof (induction ids arbitrary: jobs)
  case (Cons i ids)
  let ?jobs = "case map_of jobs i of None \<Rightarrow> jobs | Some j \<Rightarrow> (if is_active j then jobs else AList.delete i jobs)"
  have "jobs_ok eng ?jobs" using Cons.prems by (auto simp: jobs_ok_delete split: option.split)
  from Cons.IH [OF this] show ?case by (simp add: evict_jobs_def)
qed (simp add: evict_jobs_def)

lemma apply_transition_fields [simp]:
  "sc_jobs (apply_transition tr s) = sc_jobs s" "sc_executors (apply_transition tr s) = sc_executors s"
  "sc_job_order (apply_transition tr s) = sc_job_order s" "sc_config (apply_transition tr s) = sc_config s"
  by (simp_all add: apply_transition_def)

lemma fold_transition_fields [simp]:
  "sc_jobs (fold (\<lambda>(i, j). apply_transition (f i j)) xs s) = sc_jobs s"
  "sc_executors (fold (\<lambda>(i, j). apply_transition (f i j)) xs s) = sc_executors s"
  "sc_job_order (fold (\<lambda>(i, j). apply_transition (f i j)) xs s) = sc_job_order s"
  "sc_config (fold (\<lambda>(i, j). apply_transition (f i j)) xs s) = sc_config s"
  by (induction xs arbitrary: s) (auto simp: case_prod_unfold)

text \<open>What a submitted plan has to be: a plan of the user's query, of bounded size.\<close>

definition plan_ok :: "'x engine \<Rightarrow> 'x plan \<Rightarrow> bool" where
  "plan_ok eng p \<longleftrightarrow> df_lawful (eng_df eng) \<and> unresolved_stages p = [] \<and> node_count p < 2 ^ 32 - 2 \<and>
     (\<forall>job wd ss. plan_stages (eng_df eng) job wd p = Inr ss \<longrightarrow> list_all (\<lambda>s. qs_num_tasks s < 2 ^ 32) ss)"

lemma plan_ok_stages: "plan_ok eng p \<Longrightarrow> plan_stages (eng_df eng) job wd p = Inr ss \<Longrightarrow> stages_ok ss"
  using plan_stages_numbered_lemma [of "eng_df eng" p job wd ss] by (auto simp: plan_ok_def stages_ok_def)

lemma sched_submit_Inr:
  assumes "sched_submit eng now i sql p settings s = Inr s'"
  obtains ss j where "plan_stages (eng_df eng) i (cfg_work_dir (sc_config s)) p = Inr ss"
    and "job_new eng now i sql (settings_to_map settings) (task_max_retries settings) ss
      (plan_schema (eng_df eng) p) = Inr j"
    and "s' = s\<lparr>sc_jobs := evict_jobs (take (Suc (length (sc_job_order s)) - cfg_max_jobs_retained (sc_config s))
                    (sc_job_order s @ [i])) (AList.update i j (sc_jobs s)),
               sc_job_order := drop (Suc (length (sc_job_order s)) - cfg_max_jobs_retained (sc_config s))
                    (sc_job_order s @ [i])\<rparr>"
proof -
  from assms obtain ss j where "plan_stages (eng_df eng) i (cfg_work_dir (sc_config s)) p = Inr ss"
    and "job_new eng now i sql (settings_to_map settings) (task_max_retries settings) ss
      (plan_schema (eng_df eng) p) = Inr j"
    by (auto simp: sched_submit_def sched_plan_stages_def split: sum.splits)
  with assms that show thesis
    by (auto simp: sched_submit_def sched_plan_stages_def Let_def evict_jobs_def split: if_splits)
qed

lemma sched_submit_inv [inv_intro]:
  assumes "sched_inv eng s" and "plan_ok eng p" and "sched_submit eng now i sql p settings s = Inr s'"
  shows "sched_inv eng s'"
  using assms(3)
proof (rule sched_submit_Inr)
  fix ss j ids order
  assume ss: "plan_stages (eng_df eng) i (cfg_work_dir (sc_config s)) p = Inr ss"
    and j: "job_new eng now i sql (settings_to_map settings) (task_max_retries settings) ss
      (plan_schema (eng_df eng) p) = Inr j"
  have "job_reachable eng i j"
    unfolding job_reachable_def using plan_ok_stages [OF assms(2) ss] j by blast
  then have "jobs_ok eng (evict_jobs ids (AList.update i j (sc_jobs s)))" for ids
    using assms(1) by (simp add: sched_inv_def jobs_ok_update jobs_ok_evict)
  moreover assume "s' = s\<lparr>sc_jobs := evict_jobs (take (Suc (length (sc_job_order s)) - cfg_max_jobs_retained (sc_config s))
                    (sc_job_order s @ [i])) (AList.update i j (sc_jobs s)),
               sc_job_order := drop (Suc (length (sc_job_order s)) - cfg_max_jobs_retained (sc_config s))
                    (sc_job_order s @ [i])\<rparr>"
  ultimately show ?thesis using assms(1) by (simp only: sched_inv_def) simp
qed

lemma sched_cancel_inv [inv_intro]: "sched_inv eng s \<Longrightarrow> sched_inv eng (snd (sched_cancel now i s))"
  by (auto simp: sched_cancel_def sched_inv_def Let_def case_prod_unfold split: option.split intro!: jobs_ok_adjust)

lemma sched_release_inv [inv_intro]: "sched_inv eng s \<Longrightarrow> sched_inv eng (sched_release i s)"
  by (simp add: sched_release_def sched_inv_def schedule_purge_ok)

lemma report_to_registry_ok: "reg_ok reg \<Longrightarrow> reg_ok (report_to_registry st tid reg)"
  by (simp add: report_to_registry_def task_finished_ok split: report_state.split)

lemma update_one_inv: "sched_inv eng s \<Longrightarrow> sched_inv eng (update_one eng now st s)"
  by (auto simp: update_one_def sched_inv_def task_finished_ok report_to_registry_ok Let_def case_prod_unfold
      split: option.split intro!: jobs_ok_adjust report_moves)

lemma update_task_status_inv [inv_intro]: "sched_inv eng s \<Longrightarrow> sched_inv eng (update_task_status eng now sts s)"
  unfolding update_task_status_def by (induction sts arbitrary: s) (auto intro: update_one_inv)

lemma sched_executor_lost_fields:
  "sc_jobs (sched_executor_lost now e s) = map (\<lambda>(i, j). (i, fst (job_executor_lost now e j))) (sc_jobs s)"
  "sc_executors (sched_executor_lost now e s) = snd (reg_remove e (sc_executors s))"
  "sc_job_order (sched_executor_lost now e s) = sc_job_order s" "sc_config (sched_executor_lost now e s) = sc_config s"
  by (simp_all add: sched_executor_lost_def Let_def)

lemma sched_executor_lost_inv [inv_intro]: "sched_inv eng s \<Longrightarrow> sched_inv eng (sched_executor_lost now e s)"
  by (auto simp: sched_inv_def sched_executor_lost_fields reg_remove_ok intro!: jobs_ok_map)

lemma requeue_inv [inv_intro]: "sched_inv eng s \<Longrightarrow> sched_inv eng (requeue e ids s)"
proof (induction ids arbitrary: s)
  case (Cons tid ids)
  let ?s = "s\<lparr>sc_executors := task_finished e tid False (sc_executors s),
       sc_jobs := adjust (tid_job tid) (mark_pending (tid_stage tid) (tid_partition tid) (tid_attempt tid)) (sc_jobs s)\<rparr>"
  have "sched_inv eng ?s"
    using Cons.prems by (auto simp: sched_inv_def task_finished_ok intro!: jobs_ok_adjust)
  from Cons.IH [OF this] show ?case by (simp add: requeue_def)
qed (simp add: requeue_def)

lemma launch_batch_inv [inv_intro]: "sched_inv eng s \<Longrightarrow> sched_inv eng (launch_batch now answer batch s)"
  by (auto simp: launch_batch_def split: option.split prod.split intro!: requeue_inv sched_executor_lost_inv)

end
