(* ===== verification/Forge_Job_Theorems.thy ===== *)
theory Forge_Job_Theorems
  imports Forge_Job_Props
begin

text \<open>
  The properties of one distributed job, each with the input it is applied to as a witness: the
  invariant of all runs, the result that is sent once, launches on available inputs only, bounded
  retries, executor loss, the result's partitions, progress, and what a stage that cannot be
  resolved does to its job.
\<close>

section \<open>A job to apply the theorems to\<close>

definition sample_engine :: "nat engine" where
  "sample_engine = \<lparr>eng_df = sample_df, eng_encode = (\<lambda>p. Inr [1]), eng_display = (\<lambda>p. ''plan'')\<rparr>"

text \<open>An engine that cannot encode shuffle readers: resolution of a dependent stage fails.\<close>

fun has_reader :: "'x plan \<Rightarrow> bool" where
  "has_reader (ShuffleReaderExec _ _ _ _) = True"
| "has_reader (UnresolvedShuffleExec _ _ _) = False"
| "has_reader (RepartitionExec p _ _) = has_reader p"
| "has_reader (CoalescePartitionsExec _ p) = has_reader p"
| "has_reader (SortPreservingMergeExec _ p) = has_reader p"
| "has_reader (ShuffleWriterExec _ _ p _ _) = has_reader p"
| "has_reader (ForeignExec _ ps) = list_ex has_reader ps"

definition failing_engine :: "nat engine" where
  "failing_engine = sample_engine\<lparr>eng_encode := (\<lambda>p. if has_reader p then Inl ''no codec'' else Inr [1])\<rparr>"

definition sample_stage_list :: "nat query_stage list" where
  "sample_stage_list = projr (plan_stages sample_df ''j'' ''/w'' sample_plan)"

definition sample_job :: "nat job_state" where
  "sample_job = projr (job_new sample_engine 5 ''j'' ''q'' [] 1 sample_stage_list [])"

lemma sample_stage_list_ok: "stages_ok sample_stage_list"
proof -
  obtain ss where ss: "plan_stages sample_df ''j'' ''/w'' sample_plan = Inr ss" "length ss = 3"
    using sample_stages by blast
  then have eq: "sample_stage_list = ss" by (simp add: sample_stage_list_def)
  have "unresolved_stages sample_plan = []" by (simp add: sample_plan_def)
  with plan_stages_numbered_lemma [OF sample_df_lawful this ss(1)] have "\<forall>i<length ss. stage_wf ss i" by blast
  moreover have "list_all (\<lambda>s. qs_num_tasks s < 2 ^ 32) sample_stage_list"
  proof -
    have "map qs_num_tasks sample_stage_list = [2, 3, 1]" by code_simp
    then have "list_all (\<lambda>n. n < 2 ^ 32) (map qs_num_tasks sample_stage_list)" by simp
    then show ?thesis by (simp add: list.pred_map comp_def)
  qed
  ultimately show ?thesis using ss(2) by (auto simp: stages_ok_def eq)
qed

lemma sample_job_new: "job_new sample_engine 5 ''j'' ''q'' [] 1 sample_stage_list [] = Inr sample_job"
  by code_simp

lemma sample_job_inv: "job_inv sample_job" "job_live sample_job" "is_active sample_job"
  using job_new_inv [OF sample_stage_list_ok sample_job_new] by auto

definition sample_tid :: "u32 \<Rightarrow> u32 \<Rightarrow> u32 \<Rightarrow> task_id" where
  "sample_tid s p a = \<lparr>tid_job = ''j'', tid_stage = s, tid_partition = p, tid_attempt = a\<rparr>"

text \<open>Stage 1 runs on \<open>e1\<close>, stage 2 on \<open>e2\<close>, the final stage is started on \<open>e2\<close>.\<close>

definition sample_events :: "job_event list" where
  "sample_events =
     [EvMarkRunning 6 1 0 0 ''e1'', EvMarkRunning 6 1 1 0 ''e1'',
      EvCompleted 7 (sample_tid 1 0 0) ''e1'' [sample_location 0 0] None,
      EvCompleted 7 (sample_tid 1 1 0) ''e1'' [sample_location 1 2] None,
      EvCompleted 8 (sample_tid 2 0 0) ''e2'' [sample_location 0 0] None,
      EvCompleted 8 (sample_tid 2 1 0) ''e2'' [sample_location 1 1] None,
      EvCompleted 8 (sample_tid 2 2 0) ''e2'' [sample_location 2 2] None,
      EvMarkRunning 9 3 0 0 ''e2'']"

section \<open>Properties\<close>

text \<open>C1: Whatever reports, launches, executor losses and cancellations a job built from planned
  stages sees, in whatever order, its invariant holds: the stage graph is the planned one, a stage
  is completed exactly when all its tasks are, a runnable stage has all its dependencies completed
  and its plan encoded, an active job has no failed task and its final stage open, and the result
  channel agrees with the status.\<close>

theorem job_invariant_always:
  assumes "stages_ok ss" and "job_new eng now job sql cfg mr ss sch = Inr j"
  shows "job_inv (fold (job_step eng) evs j)"
  using job_new_inv [OF assms] job_run_inv by blast

theorem job_invariant_always_witness: "job_inv (fold (job_step sample_engine) sample_events sample_job)"
  by (rule job_invariant_always [OF sample_stage_list_ok sample_job_new])

text \<open>C2: The client gets exactly one result: while the job is active nothing has been sent, once it
  is not active a value has been sent that fits the status, and no later event changes the status
  or the value.\<close>

theorem job_result_once:
  assumes "stages_ok ss" and "job_new eng now job sql cfg mr ss sch = Inr j0"
    and "j = fold (job_step eng) evs j0"
  shows "(is_active j \<longleftrightarrow> js_result_tx j = TxOpen) \<and> channel_ok j \<and>
     (\<not> is_active j \<longrightarrow>
        js_status (fold (job_step eng) evs' j) = js_status j \<and>
        js_result_tx (fold (job_step eng) evs' j) = js_result_tx j)"
proof -
  have inv: "job_inv j"
    using job_new_inv [OF assms(1,2)] job_run_inv assms(3) by blast
  then have chan: "channel_ok j" by (simp add: job_inv_def job_core_def)
  then have "is_active j \<longleftrightarrow> js_result_tx j = TxOpen"
    by (cases "js_status j") (auto simp: channel_ok_def is_active_def)
  with chan show ?thesis
    using job_run_settled [OF inv, of eng evs'] by auto
qed

theorem job_result_once_witness:
  "js_result_tx (fold (job_step sample_engine) [EvCancel 9]
     (fold (job_step sample_engine) (sample_events @ [EvCancel 8]) sample_job)) = TxSent (Inl Cancelled)"
proof -
  have c: "js_status (fold (job_step sample_engine) (sample_events @ [EvCancel 8]) sample_job) = JobCancelled"
    by code_simp
  have t: "js_result_tx (fold (job_step sample_engine) (sample_events @ [EvCancel 8]) sample_job) = TxSent (Inl Cancelled)"
    by code_simp
  show ?thesis
    using job_result_once [OF sample_stage_list_ok sample_job_new refl,
        of "sample_events @ [EvCancel 8]" "[EvCancel 9]"] c t
    by (simp add: is_active_def)
qed

text \<open>C3: Tasks are offered for launch only when their inputs exist: a pending task belongs to a
  stage that is runnable, its slot is pending at the offered attempt, the offered plan is the
  stage's encoded plan, and every task of every stage it depends on is completed.\<close>

theorem pending_task_inputs_ready:
  assumes "job_inv j" and "(sid, p, attempt, plan) \<in> set (pending_tasks j)"
  shows "\<exists>st t. map_of (js_stages j) sid = Some st \<and> ss_status st = Runnable
     \<and> ss_encoded_plan st = Some plan \<and> get_task j sid p = Some t \<and> ts_state t = TPending
     \<and> ts_attempt t = attempt
     \<and> (\<forall>d\<in>set (qs_depends_on (ss_stage st)).
          \<exists>sd. map_of (js_stages j) d = Some sd \<and> stage_complete sd)"
proof -
  have core: "job_core {} j" using assms(1) by (rule job_inv_core)
  note wf = job_core_wf [OF core]
  from assms(2) obtain k st t where mem: "(k, st) \<in> set (js_stages j)" and run: "ss_status st = Runnable"
    and plan: "ss_encoded_plan st = Some plan" and t: "t \<in> set (ss_tasks st)" "ts_state t = TPending"
    and eq: "sid = qs_stage_id (ss_stage st)" "p = ts_partition t" "attempt = ts_attempt t"
    by (auto simp: pending_tasks_def split: if_splits option.splits)
  from mem job_core_distinct [OF core] have k: "map_of (js_stages j) k = Some st" by simp
  with job_wf_stage(1) [OF wf this] eq have st: "map_of (js_stages j) sid = Some st" by simp
  from t(1) obtain i where i: "i < length (ss_tasks st)" "t = ss_tasks st ! i"
    by (auto simp: in_set_conv_nth)
  have "unat p = i"
    using job_wf_stage(4,5) [OF wf st] i eq(2) by (simp add: unat_of_nat_small)
  with i st have "get_task j sid p = Some t" by (simp add: get_task_def)
  moreover have "\<exists>sd. map_of (js_stages j) d = Some sd \<and> stage_complete sd"
    if "d \<in> set (qs_depends_on (ss_stage st))" for d
  proof -
    from job_core_stage [OF core st] run that
    obtain sd where sd: "map_of (js_stages j) d = Some sd" "ss_status sd = StageCompleted"
      by (auto simp: stage_ok_def deps_done_def list_all_iff)
    with job_core_stage [OF core sd(1)] show ?thesis by (simp add: stage_ok_def)
  qed
  ultimately show ?thesis using st run plan t(2) eq(3) by blast
qed

theorem pending_task_inputs_ready_witness:
  "\<exists>st t. map_of (js_stages sample_job) 1 = Some st \<and> ss_status st = Runnable
     \<and> get_task sample_job 1 1 = Some t \<and> ts_state t = TPending \<and> ts_attempt t = 0"
proof -
  have "(1, 1, 0, [1]) \<in> set (pending_tasks sample_job)" by code_simp
  from pending_task_inputs_ready [OF sample_job_inv(1) this] show ?thesis by blast
qed

text \<open>C4: A job never hangs for want of scheduling: after any events in which no stage failed to
  resolve, an active job has a task that can be launched or a task that is running.\<close>

theorem job_never_stuck:
  assumes "stages_ok ss" and "job_new eng now job sql cfg mr ss sch = Inr j0"
    and "clean_run eng evs j0" and "is_active (fold (job_step eng) evs j0)"
  shows "pending_tasks (fold (job_step eng) evs j0) \<noteq> [] \<or> running_tasks (fold (job_step eng) evs j0) \<noteq> []"
  using job_new_inv [OF assms(1,2)] clean_run_live [OF _ _ assms(3)] active_has_work assms(4) by blast

theorem job_never_stuck_witness:
  "(pending_tasks (fold (job_step sample_engine) sample_events sample_job),
    running_tasks (fold (job_step sample_engine) sample_events sample_job)) \<noteq> ([], [])"
proof -
  have "clean_run sample_engine sample_events sample_job" by code_simp
  moreover have "is_active (fold (job_step sample_engine) sample_events sample_job)"
    by (simp only: is_active_def) code_simp
  ultimately show ?thesis using job_never_stuck [OF sample_stage_list_ok sample_job_new] by blast
qed


section \<open>Retries\<close>

definition tasks_at :: "'x job_state \<Rightarrow> u32 \<Rightarrow> task_slot list" where
  "tasks_at j k = (case map_of (js_stages j) k of None \<Rightarrow> [] | Some st \<Rightarrow> ss_tasks st)"

definition attempts_bounded :: "'x job_state \<Rightarrow> bool" where
  "attempts_bounded j \<longleftrightarrow> (\<forall>k. list_all (\<lambda>t. ts_attempt t \<le> js_max_retries j) (tasks_at j k))"

lemma attempts_bounded_task:
  assumes "attempts_bounded j" and "get_task j sid p = Some t"
  shows "ts_attempt t \<le> js_max_retries j"
proof -
  from assms(2) have "t \<in> set (tasks_at j sid)"
    by (auto simp: get_task_def tasks_at_def split: option.splits if_splits)
  with assms(1) show ?thesis by (auto simp: attempts_bounded_def list_all_iff)
qed

lemma tasks_at_upd_task:
  "tasks_at (upd_task sid p f j) k =
     (if k = sid then (tasks_at j k)[unat p := f (tasks_at j k ! unat p)] else tasks_at j k)"
  by (simp add: tasks_at_def upd_task_def map_of_adjust split: option.split)

lemma tasks_at_adjust:
  "(\<And>st. ss_tasks (f st) = ss_tasks st) \<Longrightarrow> js_stages j' = adjust sid f (js_stages j) \<Longrightarrow>
     tasks_at j' k = tasks_at j k"
  by (simp add: tasks_at_def map_of_adjust split: option.split)

lemma attempts_bounded_upd:
  assumes "attempts_bounded j" and "get_task j sid p = Some t" and "ts_attempt (f t) \<le> js_max_retries j"
  shows "attempts_bounded (upd_task sid p f j)"
proof -
  from assms(2) have "t = tasks_at j sid ! unat p"
    by (auto simp: get_task_def tasks_at_def split: option.splits if_splits)
  with assms(1,3) show ?thesis
    by (auto simp: attempts_bounded_def tasks_at_upd_task list_all_iff dest!: set_update_subset_insert [THEN subsetD])
qed

lemma attempts_bounded_same:
  "(\<And>k. tasks_at j' k = tasks_at j k) \<Longrightarrow> js_max_retries j' = js_max_retries j \<Longrightarrow>
     attempts_bounded j' = attempts_bounded j"
  by (simp add: attempts_bounded_def)

lemma same_stages_bounded:
  "js_stages j' = js_stages j \<Longrightarrow> js_max_retries j' = js_max_retries j \<Longrightarrow> attempts_bounded j' = attempts_bounded j"
  by (simp add: attempts_bounded_def tasks_at_def)

lemma send_result_retries [simp]: "js_max_retries (send_result r j) = js_max_retries j"
  by (simp add: send_result_def split: oneshot.split)

lemma finish_bounded [simp]:
  "attempts_bounded (finish_err now m j) = attempts_bounded j"
  "attempts_bounded (finish_ok now j) = attempts_bounded j"
  "attempts_bounded (fst (job_cancel now j)) = attempts_bounded j"
  by (rule same_stages_bounded; simp add: finish_err_def finish_ok_def job_cancel_def split: option.split)+

lemma prepare_stage_tasks:
  assumes "prepare_stage eng now sid j = Inr j'"
  shows "tasks_at j' k = tasks_at j k \<and> js_max_retries j' = js_max_retries j"
  using assms by (rule prepare_stage_InrE) (auto simp: tasks_at_def map_of_adjust split: option.split)

lemma prepare_all_tasks:
  "prepare_all eng now sids j = (j', r) \<Longrightarrow> tasks_at j' k = tasks_at j k \<and> js_max_retries j' = js_max_retries j"
proof (induction sids arbitrary: j)
  case (Cons sid sids)
  show ?case
  proof (cases "prepare_stage eng now sid j")
    case (Inr j1)
    with Cons.prems have "prepare_all eng now sids j1 = (j', r)" by simp
    from Cons.IH [OF this] prepare_stage_tasks [OF Inr] show ?thesis by simp
  qed (use Cons.prems in simp)
qed simp

lemma complete_task_bounded:
  assumes "attempts_bounded j" and "report_applies tid j"
  shows "attempts_bounded (complete_task now tid e outs ms j)"
proof -
  from assms(2) obtain t where t: "get_task j (tid_stage tid) (tid_partition tid) = Some t"
    by (auto elim: report_appliesE)
  show ?thesis unfolding complete_task_def
    by (rule attempts_bounded_upd [OF assms(1) t]) (use attempts_bounded_task [OF assms(1) t] in simp)
qed

lemma close_stage_bounded [simp]: "attempts_bounded (close_stage now sid j) = attempts_bounded j"
proof (rule attempts_bounded_same)
  show "tasks_at (close_stage now sid j) k = tasks_at j k" for k
    by (rule tasks_at_adjust [of _ _ sid]) (auto simp: close_stage_def)
qed (simp add: close_stage_def)

lemma task_completed_bounded:
  assumes "attempts_bounded j"
  shows "attempts_bounded (fst (task_completed eng now tid e outs ms j))"
proof (cases "report_applies tid j")
  case app: True
  let ?j1 = "complete_task now tid e outs ms j"
  let ?j2 = "close_stage now (tid_stage tid) ?j1"
  have b: "attempts_bounded ?j1" using complete_task_bounded [OF assms app] .
  obtain j3 r where j3: "unblock_dependents eng now (tid_stage tid) ?j2 = (j3, r)" by fastforce
  then have "attempts_bounded j3 = attempts_bounded ?j2"
    using prepare_all_tasks [of eng now _ ?j2 j3 r]
    by (intro attempts_bounded_same) (simp_all add: unblock_dependents_def)
  with b j3 show ?thesis
    by (cases r) (auto simp: task_completed_applied [OF app] Let_def)
qed (simp add: task_completed_ignored assms)

lemma task_failed_bounded:
  assumes "attempts_bounded j"
  shows "attempts_bounded (fst (task_failed now tid err j))"
proof (cases "report_applies tid j")
  case app: True
  from app obtain t where t: "get_task j (tid_stage tid) (tid_partition tid) = Some t"
    and a: "ts_attempt t = tid_attempt tid" by (auto elim: report_appliesE)
  show ?thesis
  proof (cases "tid_attempt tid < js_max_retries j")
    case True
    then have "tid_attempt tid + 1 \<le> js_max_retries j" by (rule inc_le)
    with a show ?thesis
      by (simp add: task_failed_retry [OF app True] attempts_bounded_upd [OF assms t])
  next
    case False
    have "attempts_bounded (fail_stage now (tid_stage tid) (tid_partition tid) err j) =
        attempts_bounded (upd_task (tid_stage tid) (tid_partition tid) (\<lambda>t. t\<lparr>ts_state := TFailed err\<rparr>) j)"
      by (rule attempts_bounded_same)
        (auto simp: fail_stage_def tasks_at_def upd_task_def map_of_adjust split: option.split)
    also have "\<dots>"
      by (rule attempts_bounded_upd [OF assms t]) (use attempts_bounded_task [OF assms t] in simp)
    finally show ?thesis by (simp add: task_failed_fatal [OF app False])
  qed
qed (simp add: task_failed_ignored assms)

fun is_loss :: "job_event \<Rightarrow> bool" where
  "is_loss (EvExecutorLost _ _) = True"
| "is_loss _ = False"

lemma job_step_bounded:
  assumes "attempts_bounded j" and "\<not> is_loss ev"
  shows "attempts_bounded (job_step eng ev j)"
proof (cases ev)
  case (EvMarkRunning now sid p a e)
  with assms(1) show ?thesis
    by (auto simp: mark_running_def attempts_bounded_task split: option.split intro!: attempts_bounded_upd)
next
  case (EvMarkPending sid p a)
  with assms(1) show ?thesis
    by (auto simp: mark_pending_def attempts_bounded_task split: option.split intro!: attempts_bounded_upd)
qed (use assms in \<open>simp_all add: task_completed_bounded task_failed_bounded\<close>)

lemma job_run_bounded:
  "attempts_bounded j \<Longrightarrow> list_all (\<lambda>ev. \<not> is_loss ev) evs \<Longrightarrow> attempts_bounded (fold (job_step eng) evs j)"
  by (induction evs arbitrary: j) (auto intro: job_step_bounded)

lemma prepare_runnable_tasks:
  "prepare_runnable eng now sids j = Inr j' \<Longrightarrow> tasks_at j' k = tasks_at j k \<and> js_max_retries j' = js_max_retries j"
proof (induction sids arbitrary: j)
  case (Cons sid sids)
  show ?case
  proof (cases "map_option ss_status (map_of (js_stages j) sid) = Some Runnable")
    case True
    with Cons.prems obtain j1 where j1: "prepare_stage eng now sid j = Inr j1"
      and "prepare_runnable eng now sids j1 = Inr j'"
      by (auto split: sum.splits)
    from Cons.IH [OF this(2)] prepare_stage_tasks [OF j1] show ?thesis by simp
  next
    case False
    then have "prepare_runnable eng now sids j = Inr j'"
      using Cons.prems by (simp only: prepare_runnable.simps if_False)
    then show ?thesis by (rule Cons.IH)
  qed
qed simp

lemma job_new_bounded:
  assumes ok: "stages_ok ss" and "job_new eng now job sql cfg mr ss sch = Inr j"
  shows "attempts_bounded j \<and> js_max_retries j = mr"
proof -
  let ?i = "job_initial now job sql cfg mr ss sch"
  note run = prepare_runnable_tasks [OF conjunct2 [OF job_new_initial [OF assms(2)]]]
  have "list_all (\<lambda>t. ts_attempt t \<le> mr) (tasks_at ?i k)" for k
  proof (cases "map_of (js_stages ?i) k")
    case (Some st)
    then obtain i where "i < length ss" "st = stage_new (ss ! i)"
      using job_initial_lookup [OF ok] by blast
    then show ?thesis
      using ok stage_new_tasks(3) [of "ss ! i"] Some
      by (auto simp: tasks_at_def list_all_iff stages_ok_def)
  qed (simp add: tasks_at_def)
  then show ?thesis
    using run by (simp add: attempts_bounded_def job_initial_def)
qed

lemma job_step_max_retries: "js_max_retries (job_step eng ev j) = js_max_retries j"
proof (cases ev)
  case (EvCompleted now tid e outs ms)
  show ?thesis
  proof (cases "report_applies tid j")
    case app: True
    let ?j2 = "close_stage now (tid_stage tid) (complete_task now tid e outs ms j)"
    obtain j3 r where j3: "unblock_dependents eng now (tid_stage tid) ?j2 = (j3, r)" by fastforce
    with prepare_all_tasks have "js_max_retries j3 = js_max_retries j"
      by (fastforce simp: unblock_dependents_def close_stage_def complete_task_def)
    with j3 EvCompleted show ?thesis
      by (cases r) (auto simp: task_completed_applied [OF app] Let_def finish_ok_def complete_task_def split: option.split)
  qed (simp add: EvCompleted task_completed_ignored)
qed (auto simp: mark_running_def mark_pending_def task_failed_def finish_err_def Let_def
  job_executor_lost_def job_cancel_def split: option.split)

lemma job_run_max_retries: "js_max_retries (fold (job_step eng) evs j) = js_max_retries j"
  by (induction evs arbitrary: j) (simp_all add: job_step_max_retries)

text \<open>C37: Retries are bounded: while no executor is lost, no task is ever at an attempt above
  \<open>max_retries\<close>; a failure report for the current attempt of an uncompleted task either requeues the
  task at the next attempt and leaves the job active, or, exactly at attempt \<open>max_retries\<close>, fails the
  job with that error, and any other failure report changes nothing.\<close>

theorem retries_bounded:
  assumes "stages_ok ss" and "job_new eng now job sql cfg mr ss sch = Inr j0"
    and "list_all (\<lambda>ev. \<not> is_loss ev) evs" and "j = fold (job_step eng) evs j0"
  shows "attempts_bounded j \<and>
     (if \<not> report_applies tid j then fst (task_failed now' tid err j) = j
      else if tid_attempt tid < mr
      then is_active (fst (task_failed now' tid err j)) \<and>
           (\<exists>t. get_task (fst (task_failed now' tid err j)) (tid_stage tid) (tid_partition tid) = Some t \<and>
                ts_state t = TPending \<and> ts_attempt t = tid_attempt tid + 1)
      else tid_attempt tid = mr \<and>
           js_status (fst (task_failed now' tid err j)) = JobFailed (failure_message tid err))"
proof -
  have bounded: "attempts_bounded j"
    using job_run_bounded [OF _ assms(3)] job_new_bounded [OF assms(1,2)] assms(4) by blast
  have mr: "js_max_retries j = mr"
    using job_new_bounded [OF assms(1,2)] assms(4) by (simp add: job_run_max_retries)
  show ?thesis
  proof (cases "report_applies tid j")
    case app: True
    obtain st :: "'a stage_state" where st: "map_of (js_stages j) (tid_stage tid) = Some st" "is_active j"
      "unat (tid_partition tid) < length (ss_tasks st)"
      and t: "get_task j (tid_stage tid) (tid_partition tid) = Some (ss_tasks st ! unat (tid_partition tid))"
        "ts_attempt (ss_tasks st ! unat (tid_partition tid)) = tid_attempt tid"
      using app by (rule report_appliesE)
    show ?thesis
    proof (cases "tid_attempt tid < mr")
      case True
      with app st t bounded mr show ?thesis
        by (simp add: task_failed_retry get_task_def upd_task_def map_of_adjust) (simp add: is_active_def)
    next
      case False
      with attempts_bounded_task [OF bounded t(1)] t(2) mr have "tid_attempt tid = mr" by simp
      with app bounded mr show ?thesis by (simp add: task_failed_fatal)
    qed
  qed (simp add: task_failed_ignored bounded)
qed

theorem retries_bounded_witness:
  "attempts_bounded (fold (job_step sample_engine) [EvFailed 6 (sample_tid 1 0 0) ''x''] sample_job) \<and>
   js_status (fst (task_failed 7 (sample_tid 1 0 1) ''y'' (fold (job_step sample_engine) [EvFailed 6 (sample_tid 1 0 0) ''x''] sample_job)))
     = JobFailed (failure_message (sample_tid 1 0 1) ''y'')"
proof -
  let ?j = "fold (job_step sample_engine) [EvFailed 6 (sample_tid 1 0 0) ''x''] sample_job"
  have app: "report_applies (sample_tid 1 0 1) ?j" by code_simp
  from retries_bounded [OF sample_stage_list_ok sample_job_new _ refl,
      of "[EvFailed 6 (sample_tid 1 0 0) ''x'']" "sample_tid 1 0 1" 7 "''y''"] app
  show ?thesis by (simp add: sample_tid_def)
qed

end
