(* ===== verification/Forge_Job_Outcomes.thy ===== *)
theory Forge_Job_Outcomes
  imports Forge_Job_Theorems
begin

text \<open>
  How a job ends, and what an executor's loss does to it: the fencing of lost attempts, the
  partitions of the result, and the job whose dependent stage cannot be prepared.
\<close>

section \<open>Running tasks and their slots\<close>

lemma running_task_slot:
  assumes core: "job_core K j"
  shows "(e, tid) \<in> set (running_tasks j) \<longleftrightarrow> tid_job tid = js_job_id j \<and>
     (\<exists>t. get_task j (tid_stage tid) (tid_partition tid) = Some t \<and> ts_state t = TRunning e \<and>
          ts_attempt t = tid_attempt tid)" (is "?L \<longleftrightarrow> ?R")
proof
  note wf = job_core_wf [OF core]
  assume ?L
  then obtain k st t where mem: "(k, st) \<in> set (js_stages j)" and t: "t \<in> set (ss_tasks st)" "ts_state t = TRunning e"
    and tid: "tid = \<lparr>tid_job = js_job_id j, tid_stage = qs_stage_id (ss_stage st),
                     tid_partition = ts_partition t, tid_attempt = ts_attempt t\<rparr>"
    by (auto simp: running_tasks_def split: task_state.splits)
  from mem job_core_distinct [OF core] have st: "map_of (js_stages j) k = Some st" by simp
  from t(1) obtain i where i: "i < length (ss_tasks st)" "t = ss_tasks st ! i"
    by (auto simp: in_set_conv_nth)
  have "unat (ts_partition t) = i"
    using job_wf_stage(4,5) [OF wf st] i by (simp add: unat_of_nat_small)
  with st i t(2) job_wf_stage(1) [OF wf st] show ?R by (simp add: tid get_task_def)
next
  note wf = job_core_wf [OF core]
  assume ?R
  then obtain t where job: "tid_job tid = js_job_id j" and g: "get_task j (tid_stage tid) (tid_partition tid) = Some t"
    and t: "ts_state t = TRunning e" "ts_attempt t = tid_attempt tid" by blast
  from g obtain st where st: "map_of (js_stages j) (tid_stage tid) = Some st"
    and p: "unat (tid_partition tid) < length (ss_tasks st)" and teq: "t = ss_tasks st ! unat (tid_partition tid)"
    by (rule get_task_SomeD)
  have "ts_partition t = tid_partition tid"
    using job_wf_stage(5) [OF wf st] p teq by simp
  then have "tid = \<lparr>tid_job = js_job_id j, tid_stage = qs_stage_id (ss_stage st),
                     tid_partition = ts_partition t, tid_attempt = ts_attempt t\<rparr>"
    using job t job_wf_stage(1) [OF wf st] by simp
  moreover have "(tid_stage tid, st) \<in> set (js_stages j)" "t \<in> set (ss_tasks st)"
    using map_of_SomeD [OF st] p teq by auto
  ultimately show ?L using t(1) unfolding running_tasks_def by force
qed

section \<open>Executor loss\<close>

lemma get_task_requeue:
  "get_task (requeue_stages e j) sid p = map_option (requeue_lost e) (get_task j sid p)"
  by (simp add: get_task_def map_of_requeue split: option.split)

lemma running_tasks_same:
  "js_stages j' = js_stages j \<Longrightarrow> js_job_id j' = js_job_id j \<Longrightarrow> running_tasks j' = running_tasks j"
  by (simp only: running_tasks_def)

lemma running_tasks_finish: "running_tasks (finish_err now m j) = running_tasks j"
  by (rule running_tasks_same) (simp_all add: finish_err_def)

lemma executor_lost_tasks:
  "is_active j \<Longrightarrow> get_task (fst (job_executor_lost now e j)) sid p = map_option (requeue_lost e) (get_task j sid p)"
  by (simp add: job_executor_lost_def Let_def flip: requeue_stages_def get_task_requeue) (simp add: get_task_def)

text \<open>When an executor is lost, every task it was running goes back to pending under the next
  attempt, so the reports it may still send for the old attempts change nothing; tasks running
  elsewhere stay as they are; and the job fails exactly when the executor holds the output of a
  completed task, with every task still running listed for cancellation.\<close>

theorem executor_loss_fenced:
  assumes "job_inv j" and "is_active j" and "job_executor_lost now e j = (j', tr)"
  shows "(\<forall>(e', tid)\<in>set (running_tasks j).
            if e' = e
            then task_completed eng now' tid e outs ms j' = (j', Inr default_transition) \<and>
                 task_failed now' tid err j' = (j', default_transition)
            else (e', tid) \<in> set (running_tasks j'))
     \<and> (\<forall>(e', tid)\<in>set (running_tasks j'). e' \<noteq> e \<and> (e', tid) \<in> set (running_tasks j))
     \<and> (if \<exists>sid p t. get_task j sid p = Some t \<and> ts_state t = TCompleted e
        then js_status j' = JobFailed (''executor '' @ e @ '' lost with shuffle output still required'') \<and>
             tr = default_transition\<lparr>tr_cancel := running_tasks j', tr_job_finished := True\<rparr>
        else is_active j' \<and> tr = default_transition)"
proof -
  have core: "job_core {} j" using assms(1) by (rule job_inv_core)
  have core': "job_core {} j'"
    using job_executor_lost_inv [OF assms(1), of now e] assms(3) by (simp add: job_inv_def)
  have slot: "get_task j' sid p = map_option (requeue_lost e) (get_task j sid p)" for sid p
    using executor_lost_tasks [OF assms(2), of now e] assms(3) by simp
  have jid: "js_job_id j' = js_job_id j"
    using assms(2,3) by (auto simp: job_executor_lost_def Let_def finish_err_def split: if_splits)
  have keep: "(e', tid) \<in> set (running_tasks j') \<longleftrightarrow> e' \<noteq> e \<and> (e', tid) \<in> set (running_tasks j)" for e' tid
    unfolding running_task_slot [OF core] running_task_slot [OF core'] slot jid
    by (cases "get_task j (tid_stage tid) (tid_partition tid)") (auto simp: requeue_lost_def)
  have stale: "\<not> report_applies tid j'" if "(e, tid) \<in> set (running_tasks j)" for tid
    using that by (auto simp: running_task_slot [OF core] report_applies_def slot requeue_lost_def)
  have "list_ex (\<lambda>(_, st). list_ex (\<lambda>t. ts_state t = TCompleted e) (ss_tasks st)) (js_stages j) \<longleftrightarrow>
      (\<exists>sid p t. get_task j sid p = Some t \<and> ts_state t = TCompleted e)" (is "?L \<longleftrightarrow> ?R")
  proof
    assume ?L
    then obtain k st u where "(k, st) \<in> set (js_stages j)" and u: "u \<in> set (ss_tasks st)"
      and t: "ts_state u = TCompleted e"
      by (auto simp: list_ex_iff)
    then have st: "map_of (js_stages j) k = Some st" using job_core_distinct [OF core] by simp
    from u obtain i where i: "i < length (ss_tasks st)" "u = ss_tasks st ! i"
      by (auto simp: in_set_conv_nth)
    with job_wf_stage(4) [OF job_core_wf [OF core] st] have "get_task j k (of_nat i) = Some u"
      by (simp add: get_task_def unat_of_nat_small st)
    with t show ?R by blast
  next
    assume ?R
    then obtain sid p t where "get_task j sid p = Some t" and t: "ts_state t = TCompleted e" by blast
    then obtain st where "(sid, st) \<in> set (js_stages j)" and "t \<in> set (ss_tasks st)"
      by (metis get_task_SomeD map_of_SomeD nth_mem)
    with t show ?L by (auto simp: list_ex_iff)
  qed
  then have "if \<exists>sid p t. get_task j sid p = Some t \<and> ts_state t = TCompleted e
      then js_status j' = JobFailed (''executor '' @ e @ '' lost with shuffle output still required'') \<and>
             tr = default_transition\<lparr>tr_cancel := running_tasks j', tr_job_finished := True\<rparr>
      else is_active j' \<and> tr = default_transition"
    using assms(2,3)
    by (auto simp: job_executor_lost_def Let_def running_tasks_finish split: if_splits simp flip: requeue_stages_def)
  with stale keep show ?thesis
    by (auto simp: task_completed_ignored task_failed_ignored split: if_splits)
qed

theorem executor_loss_fenced_witness:
  "task_completed sample_engine 9 (sample_tid 3 0 0) ''e2'' [sample_location 0 0] None
     (fst (job_executor_lost 9 ''e2'' (fold (job_step sample_engine) sample_events sample_job))) =
   (fst (job_executor_lost 9 ''e2'' (fold (job_step sample_engine) sample_events sample_job)), Inr default_transition)"
proof -
  let ?j = "fold (job_step sample_engine) sample_events sample_job"
  have "is_active ?j" by (simp only: is_active_def) code_simp
  moreover have "job_inv ?j" by (rule job_run_inv [OF sample_job_inv(1)])
  moreover have "(''e2'', sample_tid 3 0 0) \<in> set (running_tasks ?j)" by code_simp
  ultimately show ?thesis
    using executor_loss_fenced [of ?j 9 "''e2''" "fst (job_executor_lost 9 ''e2'' ?j)"
        "snd (job_executor_lost 9 ''e2'' ?j)" sample_engine 9 "[sample_location 0 0]" None "[]"]
    by auto
qed


section \<open>The result\<close>

definition result_width :: "'x stage_state \<Rightarrow> nat" where
  "result_width st =
     max (case qs_writer_partitioning (qs_plan (ss_stage st)) of
            Some (Some _) \<Rightarrow> qs_output_partitions (ss_stage st)
          | _ \<Rightarrow> qs_num_tasks (ss_stage st)) 1"

lemma place_all:
  "fold (\<lambda>loc parts. let idx = unat (loc_output_partition loc)
                     in if idx < n then parts[idx := parts ! idx @ [loc]] else parts)
      locs (map (\<lambda>i. f i) [0..<n]) =
   map (\<lambda>i. f i @ filter (\<lambda>l. unat (loc_output_partition l) = i) locs) [0..<n]"
proof (induction locs arbitrary: f)
  case (Cons l locs)
  let ?i = "unat (loc_output_partition l)"
  have "(let idx = ?i in if idx < n then (map f [0..<n])[idx := map f [0..<n] ! idx @ [l]] else map f [0..<n]) =
      map (\<lambda>i. f i @ (if ?i = i then [l] else [])) [0..<n]"
    by (rule nth_equalityI) (auto simp: Let_def nth_list_update split: if_splits)
  then show ?case using Cons.IH [of "\<lambda>i. f i @ (if ?i = i then [l] else [])"] by simp
qed simp

lemma result_partitions_table: "result_partitions st = partition_table (result_width st) (all_outputs st)"
  using place_all [of "result_width st" "all_outputs st" "\<lambda>i. []"]
  by (simp add: result_partitions_def partition_table_def result_width_def Let_def map_replicate_const)

definition result_ok :: "'x job_state \<Rightarrow> bool" where
  "result_ok j \<longleftrightarrow> (js_status j = JobCompleted \<longrightarrow>
     (\<exists>st r. map_of (js_stages j) (js_final_stage j) = Some st \<and> stage_complete st \<and>
        js_result_tx j = TxSent (Inr r) \<and> jr_job_id r = js_job_id j \<and> jr_schema r = js_result_schema j \<and>
        jr_partitions r = partition_table (result_width st) (all_outputs st)))"

lemma result_ok_other: "js_status j \<noteq> JobCompleted \<Longrightarrow> result_ok j"
  by (simp add: result_ok_def)

lemma finish_ok_result:
  assumes core: "job_core {} j" and active: "is_active j"
    and final: "map_option ss_status (map_of (js_stages j) (js_final_stage j)) = Some StageCompleted"
  shows "result_ok (finish_ok now j)"
proof -
  from final obtain st where st: "map_of (js_stages j) (js_final_stage j) = Some st" "ss_status st = StageCompleted"
    by auto
  from job_core_stage [OF core st(1)] st(2) have "stage_complete st" by (simp add: stage_ok_def)
  moreover have "js_result_tx j = TxOpen"
    using core active by (auto simp: job_core_def intro: active_open)
  ultimately show ?thesis
    using st by (simp add: result_ok_def finish_ok_def send_result_def result_partitions_table)
qed

lemma task_completed_result:
  assumes inv: "job_inv j" and res: "result_ok j"
  shows "result_ok (fst (task_completed eng now tid e outs ms j))"
proof (cases "report_applies tid j")
  case app: True
  let ?j1 = "complete_task now tid e outs ms j"
  let ?j2 = "close_stage now (tid_stage tid) ?j1"
  have active: "is_active j" using app by (simp add: report_applies_def)
  show ?thesis
  proof (cases "stage_done (tid_stage tid) ?j1")
    case True
    note closed = close_stage_core [OF inv app True]
    obtain j3 r where j3: "unblock_dependents eng now (tid_stage tid) ?j2 = (j3, r)" by fastforce
    from prepare_all_core [OF j3 [unfolded unblock_dependents_def] closed(1) unblock_preparable [OF closed(1)]]
    have core3: "job_core {} j3" and same: "js_status j3 = js_status ?j2" "js_final_stage j3 = js_final_stage ?j2"
      by auto
    have active3: "is_active j3" using active same by (simp add: is_active_def)
    show ?thesis
    proof (cases "tid_stage tid = js_final_stage j")
      case final: True
      from final_unblocks_nothing [OF closed(1)] final j3 have "r = None" "j3 = ?j2"
        by (simp_all add: unblock_dependents_def)
      moreover have "map_option ss_status (map_of (js_stages j3) (js_final_stage j3)) = Some StageCompleted"
        using closed(2) [of "tid_stage tid"] final \<open>j3 = ?j2\<close> by simp
      ultimately show ?thesis
        using True j3 final finish_ok_result [OF core3 active3] by (simp add: task_completed_applied [OF app] Let_def)
    next
      case False
      with True j3 active3 same show ?thesis
        by (cases r) (auto simp: task_completed_applied [OF app] Let_def is_active_def intro: result_ok_other)
    qed
  qed (use active in \<open>auto simp: task_completed_applied [OF app] Let_def is_active_def intro!: result_ok_other\<close>)
qed (simp add: task_completed_ignored res)

text \<open>A stage whose tasks are all completed is not touched by launches and their undoing.\<close>

lemma get_task_complete:
  "get_task j sid p = Some t \<Longrightarrow> map_of (js_stages j) sid = Some st \<Longrightarrow> stage_complete st \<Longrightarrow>
     is_completed (ts_state t)"
  by (auto simp: get_task_def stage_complete_def list_all_length split: if_splits)

lemma mark_complete_stage:
  assumes "map_of (js_stages j) k = Some st" and "stage_complete st"
  shows "map_of (js_stages (mark_running now sid p a e j)) k = Some st"
    and "map_of (js_stages (mark_pending sid p a j)) k = Some st"
proof -
  have "is_completed (ts_state t)" if "get_task j k p = Some t" for t
    using get_task_complete [OF that assms] .
  then show "map_of (js_stages (mark_running now sid p a e j)) k = Some st"
    and "map_of (js_stages (mark_pending sid p a j)) k = Some st"
    using assms(1) by (cases "k = sid"; force simp: mark_running_def mark_pending_def upd_task_def map_of_adjust
        dest: is_running_not_completed split: option.split)+
qed

lemma mark_fields [simp]:
  "js_status (mark_running now sid p a e j) = js_status j" "js_status (mark_pending sid p a j) = js_status j"
  "js_result_tx (mark_running now sid p a e j) = js_result_tx j" "js_result_tx (mark_pending sid p a j) = js_result_tx j"
  "js_final_stage (mark_running now sid p a e j) = js_final_stage j"
  "js_final_stage (mark_pending sid p a j) = js_final_stage j"
  "js_job_id (mark_running now sid p a e j) = js_job_id j" "js_job_id (mark_pending sid p a j) = js_job_id j"
  by (simp_all add: mark_running_def mark_pending_def split: option.split)

lemma mark_schema [simp]:
  "js_result_schema (mark_running now sid p a e j) = js_result_schema j"
  "js_result_schema (mark_pending sid p a j) = js_result_schema j"
  by (simp_all add: mark_running_def mark_pending_def upd_task_def split: option.split)

lemma result_ok_mark:
  assumes "result_ok j"
  shows "result_ok (mark_running now sid p a e j)" and "result_ok (mark_pending sid p a j)"
  using assms mark_complete_stage unfolding result_ok_def mark_fields mark_schema by meson+

lemma job_step_result:
  assumes "job_inv j" and "result_ok j"
  shows "result_ok (job_step eng ev j)"
proof (cases ev)
  case (EvCompleted now tid e outs ms)
  then show ?thesis using task_completed_result [OF assms] by simp
next
  case (EvFailed now tid err)
  have "is_active j \<Longrightarrow> js_status (fst (task_failed now tid err j)) \<noteq> JobCompleted"
    using task_failed_inv [OF assms(1)]
    by (auto simp: task_failed_def is_active_def Let_def split: option.split)
  with EvFailed assms(2) show ?thesis
    by (cases "is_active j") (auto intro: result_ok_other simp: task_failed_def)
next
  case (EvExecutorLost now e)
  with assms(2) show ?thesis
    by (cases "is_active j")
      (auto simp: job_executor_lost_def Let_def is_active_def intro!: result_ok_other)
next
  case (EvCancel now)
  with assms(2) show ?thesis
    by (cases "is_active j") (auto simp: job_cancel_def intro!: result_ok_other)
qed (use assms(2) in \<open>simp_all add: result_ok_mark\<close>)

lemma job_run_result:
  "job_inv j \<Longrightarrow> result_ok j \<Longrightarrow> result_ok (fold (job_step eng) evs j)"
  by (induction evs arbitrary: j) (auto intro: job_step_inv job_step_result)

text \<open>C21: When a job has completed, every task of its final stage is completed and the result that
  was sent is made of exactly their outputs: partition \<open>i\<close> of the result holds, in task order, the
  locations the final stage's tasks reported for output partition \<open>i\<close>.\<close>

theorem job_result_partitions:
  assumes "stages_ok ss" and "job_new eng now job sql cfg mr ss sch = Inr j0"
    and "j = fold (job_step eng) evs j0" and "js_status j = JobCompleted"
  shows "\<exists>st r. map_of (js_stages j) (js_final_stage j) = Some st \<and> stage_complete st \<and>
     js_result_tx j = TxSent (Inr r) \<and> jr_job_id r = js_job_id j \<and> jr_schema r = js_result_schema j \<and>
     length (jr_partitions r) = result_width st \<and>
     (\<forall>i<result_width st. jr_partitions r ! i =
        filter (\<lambda>l. unat (loc_output_partition l) = i) (concat (map ts_outputs (ss_tasks st))))"
proof -
  note new = job_new_inv [OF assms(1,2)]
  then have "result_ok j0" by (intro result_ok_other) (simp add: is_active_def)
  with new have "result_ok j" unfolding assms(3) by (blast intro: job_run_result)
  with assms(4) obtain st r where "map_of (js_stages j) (js_final_stage j) = Some st" "stage_complete st"
    "js_result_tx j = TxSent (Inr r)" "jr_job_id r = js_job_id j" "jr_schema r = js_result_schema j"
    "jr_partitions r = partition_table (result_width st) (all_outputs st)"
    unfolding result_ok_def by blast
  then show ?thesis by (simp add: partition_table_def all_outputs_def)
qed

theorem job_result_partitions_witness:
  "\<exists>st r. map_of (js_stages (fold (job_step sample_engine)
        (sample_events @ [EvCompleted 10 (sample_tid 3 0 0) ''e2'' [sample_location 0 0] None]) sample_job)) 3 = Some st \<and>
     stage_complete st \<and> js_result_tx (fold (job_step sample_engine)
        (sample_events @ [EvCompleted 10 (sample_tid 3 0 0) ''e2'' [sample_location 0 0] None]) sample_job) = TxSent (Inr r)"
proof -
  let ?j = "fold (job_step sample_engine)
        (sample_events @ [EvCompleted 10 (sample_tid 3 0 0) ''e2'' [sample_location 0 0] None]) sample_job"
  have "js_status ?j = JobCompleted" by code_simp
  moreover have "js_final_stage ?j = 3" by code_simp
  ultimately show ?thesis
    using job_result_partitions [OF sample_stage_list_ok sample_job_new refl, of
        "sample_events @ [EvCompleted 10 (sample_tid 3 0 0) ''e2'' [sample_location 0 0] None]"] by auto
qed


section \<open>A stage that cannot be prepared\<close>

lemma unblock_candidates_distinct:
  assumes "job_core K j"
  shows "distinct (unblock_candidates c j)"
proof -
  have d: "distinct (map fst (js_stages j))" using assms by (rule job_core_distinct)
  have "qs_stage_id (ss_stage (snd x)) = fst x" if "x \<in> set (js_stages j)" for x
    using job_wf_stage(1) [OF job_core_wf [OF assms], of "fst x" "snd x"] that d by simp
  then have ids: "map (\<lambda>x. qs_stage_id (ss_stage (snd x))) (filter P (js_stages j)) = map fst (filter P (js_stages j))" for P
    by simp
  show ?thesis
    unfolding unblock_candidates_def filter_map filter_filter map_map comp_def ids
    using d by (rule distinct_map_filter)
qed

lemma prepare_all_error:
  "prepare_all eng now sids j = (j', Some e) \<Longrightarrow> distinct sids \<Longrightarrow>
     \<exists>sid\<in>set sids. map_option ss_status (map_of (js_stages j') sid) = map_option ss_status (map_of (js_stages j) sid)"
proof (induction sids arbitrary: j)
  case (Cons sid sids)
  show ?case
  proof (cases "prepare_stage eng now sid j")
    case (Inr j1)
    with Cons.prems Cons.IH [of j1] obtain k where "k \<in> set sids"
      "map_option ss_status (map_of (js_stages j') k) = map_option ss_status (map_of (js_stages j1) k)"
      by auto
    moreover from this Cons.prems(2) have "k \<noteq> sid" by auto
    ultimately show ?thesis using prepare_stage_status(1) [OF Inr, of k] by force
  qed (use Cons.prems in auto)
qed simp

text \<open>A stage that waits for nothing and was not prepared.\<close>

definition stranded :: "u32 \<Rightarrow> 'x job_state \<Rightarrow> bool" where
  "stranded sid j \<longleftrightarrow> map_option ss_status (map_of (js_stages j) sid) = Some Blocked \<and>
     (\<exists>s. map_option ss_stage (map_of (js_stages j) sid) = Some s \<and> deps_done j s)"

fun reports_on :: "u32 \<Rightarrow> job_event \<Rightarrow> bool" where
  "reports_on sid (EvCompleted _ tid _ _ _) = (tid_stage tid = sid)"
| "reports_on sid (EvFailed _ tid _) = (tid_stage tid = sid)"
| "reports_on sid _ = False"

lemma stranded_mono:
  assumes "stranded sid j"
    and "map_option ss_stage (map_of (js_stages j') sid) = map_option ss_stage (map_of (js_stages j) sid)"
    and "map_option ss_status (map_of (js_stages j') sid) = map_option ss_status (map_of (js_stages j) sid)"
    and "\<And>k. map_option ss_status (map_of (js_stages j) k) = Some StageCompleted \<Longrightarrow>
      map_option ss_status (map_of (js_stages j') k) = Some StageCompleted"
  shows "stranded sid j'"
  using assms deps_done_status_mono [of j j'] unfolding stranded_def by metis

lemma same_stages_stranded: "js_stages j' = js_stages j \<Longrightarrow> stranded sid j' = stranded sid j"
  by (simp add: stranded_def deps_done_def)

lemma finish_stranded [simp]:
  "stranded sid (finish_err now m j) = stranded sid j" "stranded sid (finish_ok now j) = stranded sid j"
  by (rule same_stages_stranded; simp add: finish_ok_def split: option.split)+

lemma upd_task_stranded: "stranded sid j \<Longrightarrow> stranded sid (upd_task k p f j)"
  by (erule stranded_mono) (simp_all only: upd_task_status upd_task_stage)

lemma fail_stage_stranded:
  assumes core: "job_core K j" and app: "report_applies tid j" and other: "tid_stage tid \<noteq> sid"
    and "stranded sid j"
  shows "stranded sid (fail_stage now (tid_stage tid) p err j)"
proof (rule stranded_mono [OF assms(4)])
  from app obtain st :: "'a stage_state" where st: "map_of (js_stages j) (tid_stage tid) = Some st"
    and p: "unat (tid_partition tid) < length (ss_tasks st)" 
    and nc: "\<not> is_completed (ts_state (ss_tasks st ! unat (tid_partition tid)))"
    by (rule report_appliesE)
  have "ss_status st \<noteq> StageCompleted"
    using job_core_stage [OF core st] not_complete_nth [OF p nc] by (simp add: stage_ok_def)
  with st show "map_option ss_status (map_of (js_stages j) k) = Some StageCompleted \<Longrightarrow>
      map_option ss_status (map_of (js_stages (fail_stage now (tid_stage tid) p err j)) k) = Some StageCompleted" for k
    by (auto simp: fail_stage_def map_of_adjust)
qed (use other in \<open>simp_all add: fail_stage_def map_of_adjust\<close>)

lemma task_completed_stranded:
  assumes inv: "job_inv j" and strand: "stranded sid j" and other: "tid_stage tid \<noteq> sid"
  shows "stranded sid (fst (task_completed eng now tid e outs ms j))"
proof (cases "report_applies tid j")
  case app: True
  let ?j1 = "complete_task now tid e outs ms j"
  let ?j2 = "close_stage now (tid_stage tid) ?j1"
  have s1: "stranded sid ?j1" using upd_task_stranded [OF strand] by (simp add: complete_task_def)
  show ?thesis
  proof (cases "stage_done (tid_stage tid) ?j1")
    case True
    note closed = close_stage_core [OF inv app True]
    have s2: "stranded sid ?j2"
      by (rule stranded_mono [OF strand]) (use other closed(2,3) in auto)
    from app inv obtain st :: "'a stage_state" where st: "map_of (js_stages j) (tid_stage tid) = Some st"
      and p: "unat (tid_partition tid) < length (ss_tasks st)"
      and nc: "\<not> is_completed (ts_state (ss_tasks st ! unat (tid_partition tid)))"
      by (auto elim: report_appliesE)
    have "ss_status st \<noteq> StageCompleted"
      using job_core_stage [OF job_inv_core [OF inv] st] not_complete_nth [OF p nc] by (simp add: stage_ok_def)
    with strand st have "\<exists>s. map_option ss_stage (map_of (js_stages ?j2) sid) = Some s \<and> tid_stage tid \<notin> set (qs_depends_on s)"
      unfolding closed(3) by (fastforce simp: stranded_def deps_done_def list_all_iff)
    then have "sid \<notin> set (unblock_candidates (tid_stage tid) ?j2)"
      using unblock_candidates_iff [OF closed(1)] by auto
    obtain j3 r where j3: "unblock_dependents eng now (tid_stage tid) ?j2 = (j3, r)" by fastforce
    note prep = j3 [unfolded unblock_dependents_def]
    have "stranded sid j3"
    proof (rule stranded_mono [OF s2])
      show "map_option ss_status (map_of (js_stages ?j2) k) = Some StageCompleted \<Longrightarrow>
          map_option ss_status (map_of (js_stages j3) k) = Some StageCompleted" for k
      proof -
        assume k: "map_option ss_status (map_of (js_stages ?j2) k) = Some StageCompleted"
        then have "k \<notin> set (unblock_candidates (tid_stage tid) ?j2)"
          using unblock_candidates_iff [OF closed(1)] by auto
        with prepare_all_status(3) [OF prep] k show ?thesis by simp
      qed
    qed (use prepare_all_status(1) [OF prep] prepare_all_status(3) [OF prep \<open>sid \<notin> _\<close>] in auto)
    with True j3 show ?thesis by (cases r) (simp_all add: task_completed_applied [OF app] Let_def)
  qed (use s1 in \<open>simp add: task_completed_applied [OF app] Let_def\<close>)
qed (simp add: task_completed_ignored strand)

lemma job_step_stranded:
  assumes inv: "job_inv j" and strand: "stranded sid j" and "\<not> reports_on sid ev"
  shows "stranded sid (job_step eng ev j)"
proof (cases ev)
  case (EvCompleted now tid e outs ms)
  with assms task_completed_stranded [OF inv strand] show ?thesis by simp
next
  case (EvFailed now tid err)
  with assms show ?thesis
    by (cases "report_applies tid j"; cases "tid_attempt tid < js_max_retries j")
      (simp_all add: task_failed_ignored task_failed_retry task_failed_fatal upd_task_stranded
        fail_stage_stranded [OF job_inv_core])
next
  case (EvExecutorLost now e)
  have "stranded sid (requeue_stages e j)"
    by (rule stranded_mono [OF strand]) (simp_all add: map_of_requeue option.map_comp comp_def)
  with EvExecutorLost strand show ?thesis
    by (simp add: job_executor_lost_def Let_def flip: requeue_stages_def)
next
  case (EvCancel now)
  have "stranded sid (fst (job_cancel now j)) = stranded sid j"
    by (rule same_stages_stranded) (simp add: job_cancel_def)
  with EvCancel strand show ?thesis by simp
qed (simp_all add: strand mark_running_def mark_pending_def upd_task_stranded split: option.split)

lemma job_run_stranded:
  "job_inv j \<Longrightarrow> stranded sid j \<Longrightarrow> list_all (\<lambda>ev. \<not> reports_on sid ev) evs \<Longrightarrow>
     job_inv (fold (job_step eng) evs j) \<and> stranded sid (fold (job_step eng) evs j)"
  by (induction evs arbitrary: j) (auto intro: job_step_inv job_step_stranded)

lemma stranded_not_pending:
  assumes inv: "job_inv j" and strand: "stranded sid j"
  shows "sid \<notin> fst ` set (pending_tasks j)"
proof
  assume "sid \<in> fst ` set (pending_tasks j)"
  then obtain k st where mem: "(k, st) \<in> set (js_stages j)" and run: "ss_status st = Runnable"
    and sid: "sid = qs_stage_id (ss_stage st)"
    by (auto simp: pending_tasks_def split: if_splits option.splits)
  note core = job_inv_core [OF inv]
  from mem job_core_distinct [OF core] have st: "map_of (js_stages j) k = Some st" by simp
  with job_wf_stage(1) [OF job_core_wf [OF core] st] sid run strand show False by (simp add: stranded_def)
qed

lemma task_completed_error:
  assumes inv: "job_inv j" and err: "task_completed eng now tid e outs ms j = (j', Inl x)"
  shows "is_active j' \<and> \<not> report_applies tid j' \<and> (\<exists>sid. stranded sid j')"
proof -
  have app: "report_applies tid j" using err task_completed_ignored by (metis Inl_Inr_False prod.inject)
  let ?j1 = "complete_task now tid e outs ms j"
  let ?j2 = "close_stage now (tid_stage tid) ?j1"
  obtain j3 r where j3: "unblock_dependents eng now (tid_stage tid) ?j2 = (j3, r)" by fastforce
  with err have dn: "stage_done (tid_stage tid) ?j1" and r: "r = Some x" and j': "j' = j3"
    by (auto simp: task_completed_applied [OF app] Let_def split: if_splits option.splits)
  note closed = close_stage_core [OF inv app dn]
  note prep = j3 [unfolded unblock_dependents_def]
  from prepare_all_core [OF prep closed(1) unblock_preparable [OF closed(1)]]
  have core3: "job_core {} j3" and same: "js_status j3 = js_status ?j2" by auto
  have active: "is_active j" using app by (simp add: report_applies_def)
  have completed: "map_option ss_status (map_of (js_stages j3) k) = Some StageCompleted"
    if "map_option ss_status (map_of (js_stages ?j2) k) = Some StageCompleted" for k
    using that prepare_all_status(3) [OF prep, of k] unblock_candidates_iff [OF closed(1), of k] by fastforce
  have "map_option ss_status (map_of (js_stages j3) (tid_stage tid)) = Some StageCompleted"
    using completed closed(2) by simp
  then obtain st where st: "map_of (js_stages j3) (tid_stage tid) = Some st" "ss_status st = StageCompleted" by auto
  with job_core_stage [OF core3] have "stage_complete st" by (auto simp: stage_ok_def)
  then have "\<not> report_applies tid j3"
    using get_task_complete st(1) by (fastforce simp: report_applies_def split: option.splits)
  moreover obtain sid where sid: "sid \<in> set (unblock_candidates (tid_stage tid) ?j2)"
    "map_option ss_status (map_of (js_stages j3) sid) = map_option ss_status (map_of (js_stages ?j2) sid)"
    using prepare_all_error [OF prep [unfolded r] unblock_candidates_distinct [OF closed(1)]] by blast
  then have "stranded sid ?j2" using unblock_candidates_iff [OF closed(1)] by (fastforce simp: stranded_def)
  then have "stranded sid j3"
    by (rule stranded_mono) (use prepare_all_status(1) [OF prep] sid(2) completed in auto)
  ultimately show ?thesis using active same by (auto simp: j' is_active_def)
qed

text \<open>C38: A completion report after which a dependent stage cannot be resolved or encoded leaves the
  job running, and the failure report the scheduler answers it with changes nothing, because the
  task it names is completed: some stage stays blocked with all its dependencies completed, and no
  later event that does not report on this very stage ever makes it runnable or offers its tasks.\<close>

theorem unblock_error_strands_job:
  assumes "job_inv j" and "task_completed eng now tid e outs ms j = (j', Inl x)"
  shows "is_active j' \<and> task_failed now' tid msg j' = (j', default_transition) \<and>
    (\<exists>sid. \<forall>evs. list_all (\<lambda>ev. \<not> reports_on sid ev) evs \<longrightarrow>
       stranded sid (fold (job_step eng') evs j') \<and> sid \<notin> fst ` set (pending_tasks (fold (job_step eng') evs j')))"
proof -
  from task_completed_error [OF assms] obtain sid where "is_active j'" "\<not> report_applies tid j'" "stranded sid j'"
    by blast
  moreover have "job_inv j'" using task_completed_inv [OF assms(1), of eng now tid e outs ms] assms(2) by simp
  ultimately show ?thesis
    using job_run_stranded stranded_not_pending by (metis task_failed_ignored)
qed


definition failing_job :: "nat job_state" where
  "failing_job = projr (job_new failing_engine 5 ''j'' ''q'' [] 1 sample_stage_list [])"

lemma failing_job_new: "job_new failing_engine 5 ''j'' ''q'' [] 1 sample_stage_list [] = Inr failing_job"
  by code_simp

definition failing_events :: "job_event list" where
  "failing_events = butlast (butlast sample_events)"

theorem unblock_error_strands_job_witness:
  "task_failed 9 (sample_tid 2 2 0) ''no codec''
     (fst (task_completed failing_engine 8 (sample_tid 2 2 0) ''e2'' [sample_location 2 2] None
        (fold (job_step failing_engine) failing_events failing_job))) =
   (fst (task_completed failing_engine 8 (sample_tid 2 2 0) ''e2'' [sample_location 2 2] None
        (fold (job_step failing_engine) failing_events failing_job)), default_transition)"
proof -
  let ?j = "fold (job_step failing_engine) failing_events failing_job"
  let ?r = "task_completed failing_engine 8 (sample_tid 2 2 0) ''e2'' [sample_location 2 2] None ?j"
  have "job_inv ?j"
    using job_new_inv [OF sample_stage_list_ok failing_job_new] job_run_inv by blast
  moreover have "snd ?r = Inl (DataFusion ''no codec'')" by code_simp
  then have "?r = (fst ?r, Inl (DataFusion ''no codec''))" by (metis prod.collapse)
  ultimately show ?thesis using unblock_error_strands_job by blast
qed

end
