(* ===== verification/Forge_Dispatch.thy ===== *)
theory Forge_Dispatch
  imports Forge_Sched_Inv Forge_Job_Outcomes
begin

text \<open>
  The dispatcher in terms of the list of picks it makes: which pending task goes to which executor.
  The loops of \<open>dispatch\<close> are shown to mark, start and batch exactly these picks; bounds,
  exhaustiveness and the choice of tasks are then facts about the list.
\<close>

section \<open>Choosing slots\<close>

lemma max_slot_None [simp]: "max_slot xs = None \<longleftrightarrow> xs = []"
  by (cases xs) (auto split: option.split)

lemma max_slot_Some:
  "max_slot xs = Some i \<Longrightarrow> i < length xs \<and> (\<forall>x\<in>set xs. snd x \<le> snd (xs ! i))"
  by (induction xs arbitrary: i) (force split: option.splits if_splits)+

fun pick_slots :: "nat \<Rightarrow> (string \<times> u32) list \<Rightarrow> string list \<times> (string \<times> u32) list" where
  "pick_slots 0 free = ([], free)"
| "pick_slots (Suc k) free =
     (case max_slot free of
        None \<Rightarrow> ([], free)
      | Some i \<Rightarrow>
          (let (e, n) = free ! i
           in if n = 0 then ([], free)
              else (let (es, free') = pick_slots k (free[i := (e, n - 1)]) in (e # es, free'))))"

definition slots_of :: "(string \<times> u32) list \<Rightarrow> string \<Rightarrow> nat" where
  "slots_of free e = (case map_of free e of None \<Rightarrow> 0 | Some n \<Rightarrow> unat n)"

lemma map_fst_list_update: "fst x = fst (xs ! i) \<Longrightarrow> map fst (xs[i := x]) = map fst xs"
  by (cases "i < length xs") (auto simp: list_eq_iff_nth_eq nth_list_update)

lemma map_of_list_update:
  "distinct (map fst xs) \<Longrightarrow> i < length xs \<Longrightarrow> fst (xs ! i) = e \<Longrightarrow> map_of (xs[i := (e, m)]) = (map_of xs)(e \<mapsto> m)"
proof (induction xs arbitrary: i)
  case (Cons x xs)
  show ?case
  proof (cases i)
    case 0
    with Cons.prems show ?thesis by (cases x) auto
  next
    case (Suc k)
    with Cons.prems have "fst x \<noteq> e" by auto
    with Suc Cons show ?thesis by (cases x) (auto simp: fun_upd_twist)
  qed
qed simp

lemma slots_of_take:
  assumes "distinct (map fst free)" and "i < length free" and "free ! i = (e, n)" and "n \<noteq> 0"
  shows "slots_of free e' = slots_of (free[i := (e, n - 1)]) e' + (if e' = e then 1 else 0)"
proof -
  have "(e, n) \<in> set free" using assms(2,3) nth_mem by fastforce
  with assms(1) have "map_of free e = Some n" by simp
  moreover have "unat (n - 1) + 1 = unat n" using assms(4) by (simp add: unat_minus_one unat_gt_0 Suc_leI)
  ultimately show ?thesis
    using map_of_list_update [OF assms(1,2), of e "n - 1"] assms(3) by (auto simp: slots_of_def split: option.split)
qed

lemma pick_slots_facts:
  "distinct (map fst free) \<Longrightarrow> pick_slots k free = (es, free') \<Longrightarrow>
     map fst free' = map fst free \<and> slots_of free e = slots_of free' e + count_list es e \<and>
     length es \<le> k \<and> (length es < k \<longrightarrow> slots_of free' e = 0)"
proof (induction k free arbitrary: es free' rule: pick_slots.induct)
  case (2 k free)
  note d = "2.prems"(1) and r = "2.prems"(2)
  show ?case
  proof (cases "max_slot free")
    case None
    with r show ?thesis by (simp add: slots_of_def)
  next
    case (Some i)
    obtain e0 n where en: "free ! i = (e0, n)" by fastforce
    note i = max_slot_Some [OF Some]
    show ?thesis
    proof (cases "n = 0")
      case True
      have "slots_of free e = 0"
        using i True en by (auto simp: slots_of_def split: option.split dest!: map_of_SomeD)
      with True r Some en show ?thesis by simp
    next
      case False
      obtain es0 where rec: "pick_slots k (free[i := (e0, n - 1)]) = (es0, free')" and es: "es = e0 # es0"
        using r Some en False by (auto simp: Let_def split: prod.splits)
      have same: "map fst (free[i := (e0, n - 1)]) = map fst free" using en by (simp add: map_fst_list_update)
      with "2.IH" [OF Some en [symmetric] refl False] rec d slots_of_take [OF d _ en False, of e] i es
      show ?thesis by auto
    qed
  qed
qed simp

lemma pick_slots_length: "pick_slots k free = (es, free') \<Longrightarrow> length es \<le> k"
  by (induction k free arbitrary: es free' rule: pick_slots.induct) (auto simp: Let_def split: option.splits prod.splits if_splits)

section \<open>The picks of one dispatch\<close>

type_synonym pick = "string \<times> string \<times> u32 \<times> u32 \<times> u32 \<times> bytes"

fun pick_tid :: "pick \<Rightarrow> task_id" where
  "pick_tid (e, i, sid, p, a, plan) = \<lparr>tid_job = i, tid_stage = sid, tid_partition = p, tid_attempt = a\<rparr>"

fun mark_pick :: "u64 \<Rightarrow> pick \<Rightarrow> (string \<times> 'x job_state) list \<Rightarrow> (string \<times> 'x job_state) list" where
  "mark_pick now (e, i, sid, p, a, plan) jobs = adjust i (mark_running now sid p a e) jobs"

definition job_config :: "(string \<times> 'x job_state) list \<Rightarrow> string \<Rightarrow> (string \<times> string) list" where
  "job_config jobs i = (case map_of jobs i of None \<Rightarrow> [] | Some j \<Rightarrow> js_session_config j)"

fun pick_task :: "string \<Rightarrow> (string \<Rightarrow> (string \<times> string) list) \<Rightarrow> pick \<Rightarrow> task_definition" where
  "pick_task wd cfg (e, i, sid, p, a, plan) =
     \<lparr>td_id = pick_tid (e, i, sid, p, a, plan), td_plan = plan, td_session_config = cfg i, td_work_dir = wd\<rparr>"

definition push_pick ::
  "string \<Rightarrow> (string \<Rightarrow> (string \<times> string) list) \<Rightarrow> pick
     \<Rightarrow> (string \<times> task_definition list) list \<Rightarrow> (string \<times> task_definition list) list" where
  "push_pick wd cfg pk = push_entry (fst pk) (pick_task wd cfg pk)"

definition start_picks :: "pick list \<Rightarrow> registry \<Rightarrow> registry" where
  "start_picks pks = reg_slots.starts (map (\<lambda>pk. (fst pk, pick_tid pk)) pks)"

lemma start_picks_simps [simp]:
  "start_picks [] reg = reg" "start_picks (pk # pks) reg = start_picks pks (task_started (fst pk) (pick_tid pk) reg)"
  "start_picks (pks @ pks') reg = start_picks pks' (start_picks pks reg)"
  by (simp_all add: start_picks_def reg_slots.starts_def)

fun dispatch_picks ::
  "u64 \<Rightarrow> string list \<Rightarrow> (string \<times> 'x job_state) list \<Rightarrow> (string \<times> u32) list
     \<Rightarrow> pick list \<times> (string \<times> u32) list" where
  "dispatch_picks now [] jobs free = ([], free)"
| "dispatch_picks now (i # order) jobs free =
     (case map_of jobs i of
        None \<Rightarrow> dispatch_picks now order jobs free
      | Some j \<Rightarrow>
          (if \<not> is_active j then dispatch_picks now order jobs free
           else
             let ps = pending_tasks j;
                 (es, free') = pick_slots (length ps) free;
                 pks = map (\<lambda>(e, t). (e, i, t)) (zip es ps)
             in if length es < length ps then (pks, free')
                else let (rest, free'') = dispatch_picks now order (fold (mark_pick now) pks jobs) free'
                     in (pks @ rest, free'')))"

lemma mark_running_config [simp]: "js_session_config (mark_running now sid p a e j) = js_session_config j"
  by (simp add: mark_running_def upd_task_def split: option.split)

lemma launch_pending_picks:
  "pick_slots (length ps) (ds_free d) = (es, free') \<Longrightarrow>
   launch_pending now wd i ps j d =
     (length es = length ps,
      fold (\<lambda>(e, sid, p, a, plan). mark_running now sid p a e) (zip es ps) j,
      \<lparr>ds_free = free',
       ds_executors = start_picks (map (\<lambda>(e, t). (e, i, t)) (zip es ps)) (ds_executors d),
       ds_launches = fold (push_pick wd (\<lambda>_. js_session_config j)) (map (\<lambda>(e, t). (e, i, t)) (zip es ps)) (ds_launches d)\<rparr>)"
proof (induction ps arbitrary: j d es)
  case (Cons t ps)
  obtain sid p a plan where t: "t = (sid, p, a, plan)" by (cases t) auto
  show ?case
  proof (cases "max_slot (ds_free d)")
    case None
    with Cons.prems show ?thesis by (auto simp: t)
  next
    case (Some k)
    obtain e n where en: "ds_free d ! k = (e, n)" by fastforce
    show ?thesis
    proof (cases "n = 0")
      case True
      with Some en Cons.prems show ?thesis by (auto simp: t)
    next
      case False
      obtain es0 where rec: "pick_slots (length ps) ((ds_free d)[k := (e, n - 1)]) = (es0, free')" and es: "es = e # es0"
        using Cons.prems Some en False by (auto simp: Let_def split: prod.splits)
      let ?tid = "\<lparr>tid_job = i, tid_stage = sid, tid_partition = p, tid_attempt = a\<rparr>"
      let ?d = "\<lparr>ds_free = (ds_free d)[k := (e, n - 1)], ds_executors = task_started e ?tid (ds_executors d),
         ds_launches = push_entry e \<lparr>td_id = ?tid, td_plan = plan, td_session_config = js_session_config j,
                                      td_work_dir = wd\<rparr> (ds_launches d)\<rparr>"
      from Cons.IH [of ?d es0 "mark_running now sid p a e j"] rec
      show ?thesis by (simp add: t Some en False es Let_def push_pick_def)
    qed
  qed
qed simp

lemma adjust_fold: "fold (\<lambda>x. adjust k (g x)) xs m = adjust k (fold g xs) m"
  by (induction xs arbitrary: m) (simp_all add: adjust_adjust)

lemma adjust_const:
  "distinct (map fst m) \<Longrightarrow> map_of m k = Some v \<Longrightarrow> adjust k (\<lambda>_. f v) m = adjust k f m"
  by (auto simp: adjust_def dest: eq_key_imp_eq_value)

lemma fold_mark_picks:
  assumes "distinct (map fst jobs)" and "map_of jobs i = Some j"
  shows "adjust i (\<lambda>_. fold (\<lambda>(e, sid, p, a, plan). mark_running now sid p a e) xs j) jobs =
     fold (mark_pick now) (map (\<lambda>(e, t). (e, i, t)) xs) jobs"
proof -
  have "fold (mark_pick now) (map (\<lambda>(e, t). (e, i, t)) xs) jobs =
      fold (\<lambda>x. adjust i (case x of (e, sid, p, a, plan) \<Rightarrow> mark_running now sid p a e)) xs jobs"
    by (induction xs arbitrary: jobs) auto
  then show ?thesis using assms by (simp add: adjust_fold adjust_const)
qed

lemma mark_pick_keys [simp]: "map fst (mark_pick now pk jobs) = map fst jobs"
  by (cases pk) simp

lemma mark_picks_keys [simp]: "map fst (fold (mark_pick now) pks jobs) = map fst jobs"
  by (induction pks arbitrary: jobs) simp_all

lemma job_config_mark [simp]: "job_config (mark_pick now pk jobs) = job_config jobs"
  by (cases pk) (auto simp: job_config_def map_of_adjust fun_eq_iff split: option.split)

lemma job_config_marks [simp]: "job_config (fold (mark_pick now) pks jobs) = job_config jobs"
  by (induction pks arbitrary: jobs) simp_all

lemma dispatch_jobs_picks:
  assumes "distinct (map fst jobs)" and "dispatch_picks now order jobs (ds_free d) = (pks, free')"
  shows "dispatch_jobs now wd order jobs d =
     (fold (mark_pick now) pks jobs,
      \<lparr>ds_free = free', ds_executors = start_picks pks (ds_executors d),
       ds_launches = fold (push_pick wd (job_config jobs)) pks (ds_launches d)\<rparr>)"
  using assms
proof (induction order arbitrary: jobs d pks)
  case (Cons i order)
  show ?case
  proof (cases "map_of jobs i")
    case (Some j)
    show ?thesis
    proof (cases "is_active j")
      case True
      obtain es free1 where sl: "pick_slots (length (pending_tasks j)) (ds_free d) = (es, free1)" by fastforce
      let ?pks = "map (\<lambda>(e, t). (e, i, t)) (zip es (pending_tasks j))"
      note launch = launch_pending_picks [OF sl, of now wd i j]
      note marks = fold_mark_picks [OF Cons.prems(1) Some, of now "zip es (pending_tasks j)"]
      have cfg: "fold (push_pick wd (\<lambda>_. js_session_config j)) ?pks m = fold (push_pick wd (job_config jobs)) ?pks m" for m
        by (rule fold_cong) (auto simp: push_pick_def job_config_def Some)
      show ?thesis
      proof (cases "length es < length (pending_tasks j)")
        case less: True
        with Cons.prems(2) Some True sl have "pks = ?pks" "free' = free1" by simp_all
        with less Some True launch marks cfg show ?thesis by simp
      next
        case False
        with Cons.prems(2) Some True sl obtain rest where
          rest: "dispatch_picks now order (fold (mark_pick now) ?pks jobs) free1 = (rest, free')" and pks: "pks = ?pks @ rest"
          by (auto simp: Let_def split: prod.splits)
        let ?d = "\<lparr>ds_free = free1, ds_executors = start_picks ?pks (ds_executors d),
          ds_launches = fold (push_pick wd (\<lambda>_. js_session_config j)) ?pks (ds_launches d)\<rparr>"
        have "length es = length (pending_tasks j)"
          using False pick_slots_length [OF sl] by simp
        with Cons.IH [of "fold (mark_pick now) ?pks jobs" ?d rest] Cons.prems(1) rest Some True launch marks cfg pks
        show ?thesis by simp
      qed
    qed (use Cons Some in simp)
  qed (use Cons in simp)
qed simp


section \<open>Pending tasks before and after a pick\<close>

lemma pending_task_slot:
  assumes core: "job_core K j"
  shows "(sid, p, a, plan) \<in> set (pending_tasks j) \<longleftrightarrow> is_active j \<and>
     (\<exists>st. map_of (js_stages j) sid = Some st \<and> ss_status st = Runnable \<and> ss_encoded_plan st = Some plan) \<and>
     (\<exists>t. get_task j sid p = Some t \<and> ts_state t = TPending \<and> ts_attempt t = a)" (is "?L \<longleftrightarrow> ?R")
proof
  note wf = job_core_wf [OF core]
  assume ?L
  then obtain k st t where mem: "(k, st) \<in> set (js_stages j)" and run: "ss_status st = Runnable" and active: "is_active j"
    and plan: "ss_encoded_plan st = Some plan" and t: "t \<in> set (ss_tasks st)" "ts_state t = TPending"
    and eq: "sid = qs_stage_id (ss_stage st)" "p = ts_partition t" "a = ts_attempt t"
    by (auto simp: pending_tasks_def split: if_splits option.splits)
  from mem job_core_distinct [OF core] have "map_of (js_stages j) k = Some st" by simp
  with job_wf_stage(1) [OF wf this] eq have st: "map_of (js_stages j) sid = Some st" by simp
  from t(1) obtain i where i: "i < length (ss_tasks st)" "t = ss_tasks st ! i" by (auto simp: in_set_conv_nth)
  have "unat p = i" using job_wf_stage(4,5) [OF wf st] i eq(2) by (simp add: unat_of_nat_small)
  with i st have "get_task j sid p = Some t" by (simp add: get_task_def)
  with st run plan active t(2) eq(3) show ?R by blast
next
  note wf = job_core_wf [OF core]
  assume ?R
  then obtain st t where active: "is_active j" and st: "map_of (js_stages j) sid = Some st" and run: "ss_status st = Runnable"
    and plan: "ss_encoded_plan st = Some plan" and t: "get_task j sid p = Some t" "ts_state t = TPending" "ts_attempt t = a"
    by blast
  from t(1) st have p: "unat p < length (ss_tasks st)" and teq: "t = ss_tasks st ! unat p"
    by (auto simp: get_task_def split: if_splits)
  have "ts_partition t = p" using job_wf_stage(5) [OF wf st] p teq by simp
  with p teq have "t \<in> set (ss_tasks st)" "ts_partition t = p" by auto
  with map_of_SomeD [OF st] active run plan t job_wf_stage(1) [OF wf st] show ?L
    by (force simp: pending_tasks_def)
qed

lemma get_task_upd_task:
  "get_task (upd_task sid p f j) sid' p' =
     (if sid' = sid \<and> p' = p then map_option f (get_task j sid p) else get_task j sid' p')"
proof (cases "sid' = sid")
  case True
  show ?thesis
  proof (cases "p' = p")
    case False
    then have "unat p' \<noteq> unat p" by (simp add: word_unat_eq_iff)
    with True False show ?thesis
      by (simp add: upd_task_def get_task_def map_of_adjust split: option.split)
  qed (simp add: True upd_task_def get_task_def map_of_adjust split: option.split)
qed (simp add: upd_task_def get_task_def map_of_adjust)

lemma get_task_mark_running:
  "get_task (mark_running now sid p a e j) sid' p' =
     (if sid' = sid \<and> p' = p
      then map_option (\<lambda>t. if ts_attempt t = a \<and> ts_state t = TPending
                           then t\<lparr>ts_state := TRunning e, ts_started_ms := now\<rparr> else t) (get_task j sid p)
      else get_task j sid' p')"
  by (cases "get_task j sid p") (auto simp: mark_running_def get_task_upd_task)

lemma mark_running_stage:
  "map_of (js_stages (mark_running now sid p a e j)) k = Some st' \<Longrightarrow>
     \<exists>st. map_of (js_stages j) k = Some st \<and> ss_status st' = ss_status st \<and> ss_encoded_plan st' = ss_encoded_plan st"
  by (auto simp: mark_running_def upd_task_def map_of_adjust split: option.splits if_splits)

lemma mark_running_stage':
  "map_of (js_stages j) k = Some st \<Longrightarrow>
     \<exists>st'. map_of (js_stages (mark_running now sid p a e j)) k = Some st' \<and> ss_status st' = ss_status st \<and>
       ss_encoded_plan st' = ss_encoded_plan st"
  by (auto simp: mark_running_def upd_task_def map_of_adjust split: option.splits if_splits)

lemma mark_running_active [simp]: "is_active (mark_running now sid p a e j) = is_active j"
  by (simp add: is_active_def)

lemma slot_running_same: "t = t\<lparr>ts_state := x, ts_started_ms := n\<rparr> \<Longrightarrow> ts_state t = x"
  by (drule arg_cong [where f = ts_state]) simp

lemma pending_mark_running:
  assumes inv: "job_inv j"
  shows "(sid', p', a', plan) \<in> set (pending_tasks (mark_running now sid p a e j)) \<longleftrightarrow>
     (sid', p', a', plan) \<in> set (pending_tasks j) \<and> (sid', p', a') \<noteq> (sid, p, a)"
proof -
  note core = job_inv_core [OF inv] and core' = job_inv_core [OF mark_running_inv [OF inv, of now sid p a e]]
  show ?thesis
    unfolding pending_task_slot [OF core] pending_task_slot [OF core'] get_task_mark_running mark_running_active
    using mark_running_stage [of now sid p a e j sid'] mark_running_stage' [of j sid' _ now sid p a e]
    by (auto split: if_splits dest: slot_running_same)
qed

lemma running_mark_running:
  assumes inv: "job_inv j" and pend: "(sid, p, a, plan) \<in> set (pending_tasks j)"
  shows "set (running_tasks (mark_running now sid p a e j)) =
     insert (e, \<lparr>tid_job = js_job_id j, tid_stage = sid, tid_partition = p, tid_attempt = a\<rparr>) (set (running_tasks j))"
proof -
  note core = job_inv_core [OF inv] and core' = job_inv_core [OF mark_running_inv [OF inv, of now sid p a e]]
  from pend [unfolded pending_task_slot [OF core]] obtain t where t: "get_task j sid p = Some t"
    "ts_state t = TPending" "ts_attempt t = a" by blast
  have "(e', tid) \<in> set (running_tasks (mark_running now sid p a e j)) \<longleftrightarrow>
      (e', tid) = (e, \<lparr>tid_job = js_job_id j, tid_stage = sid, tid_partition = p, tid_attempt = a\<rparr>) \<or>
      (e', tid) \<in> set (running_tasks j)" for e' tid
    unfolding running_task_slot [OF core] running_task_slot [OF core'] get_task_mark_running mark_fields
    using t by (cases tid) auto
  then show ?thesis by auto
qed


section \<open>The table of jobs under picks\<close>

definition table_ok :: "(string \<times> 'x job_state) list \<Rightarrow> bool" where
  "table_ok jobs \<longleftrightarrow> distinct (map fst jobs) \<and>
     (\<forall>i j. map_of jobs i = Some j \<longrightarrow> job_inv j \<and> js_job_id j = i)"

definition table_pending :: "(string \<times> 'x job_state) list \<Rightarrow> (string \<times> u32 \<times> u32 \<times> u32 \<times> bytes) set" where
  "table_pending jobs = {(i, t). \<exists>j. map_of jobs i = Some j \<and> t \<in> set (pending_tasks j)}"

definition table_running :: "(string \<times> 'x job_state) list \<Rightarrow> (string \<times> task_id) set" where
  "table_running jobs = {(e, tid). \<exists>j. map_of jobs (tid_job tid) = Some j \<and> (e, tid) \<in> set (running_tasks j)}"

lemma sched_table_ok: "sched_inv eng s \<Longrightarrow> table_ok (sc_jobs s)"
  unfolding sched_inv_def jobs_ok_def table_ok_def using job_reachable_inv job_reachable_id by blast

lemma table_ok_mark: "table_ok jobs \<Longrightarrow> table_ok (mark_pick now pk jobs)"
  by (cases pk) (auto simp: table_ok_def map_of_adjust intro: mark_running_inv split: if_splits)

lemma table_ok_marks: "table_ok jobs \<Longrightarrow> table_ok (fold (mark_pick now) pks jobs)"
  by (induction pks arbitrary: jobs) (auto intro: table_ok_mark)

lemma table_pending_mark:
  assumes "table_ok jobs"
  shows "(i', sid', p', a', plan') \<in> table_pending (mark_pick now (e, i, sid, p, a, plan) jobs) \<longleftrightarrow>
     (i', sid', p', a', plan') \<in> table_pending jobs \<and> (i', sid', p', a') \<noteq> (i, sid, p, a)"
  using assms pending_mark_running by (auto simp: table_pending_def table_ok_def map_of_adjust split: if_splits) blast+

fun pick_key :: "pick \<Rightarrow> string \<times> u32 \<times> u32 \<times> u32" where
  "pick_key (e, i, sid, p, a, plan) = (i, sid, p, a)"

lemma table_pending_marks:
  "table_ok jobs \<Longrightarrow> (i', sid', p', a', plan') \<in> table_pending (fold (mark_pick now) pks jobs) \<longleftrightarrow>
     (i', sid', p', a', plan') \<in> table_pending jobs \<and> (i', sid', p', a') \<notin> pick_key ` set pks"
proof (induction pks arbitrary: jobs)
  case (Cons pk pks)
  obtain e i sid p a plan where pk: "pk = (e, i, sid, p, a, plan)" by (cases pk) auto
  from Cons.IH [OF table_ok_mark [OF Cons.prems]] show ?case
    by (auto simp: pk table_pending_mark [OF Cons.prems] simp del: mark_pick.simps)
qed simp

lemma table_running_mark:
  assumes ok: "table_ok jobs" and pend: "(i, sid, p, a, plan) \<in> table_pending jobs"
  shows "table_running (mark_pick now (e, i, sid, p, a, plan) jobs) =
     insert (e, pick_tid (e, i, sid, p, a, plan)) (table_running jobs)"
proof -
  from pend obtain j where j: "map_of jobs i = Some j" and t: "(sid, p, a, plan) \<in> set (pending_tasks j)"
    by (auto simp: table_pending_def)
  have inv: "job_inv j" "js_job_id j = i" using ok j by (auto simp: table_ok_def)
  note run = running_mark_running [OF inv(1) t, of now e]
  have "(e', tid) \<in> table_running (mark_pick now (e, i, sid, p, a, plan) jobs) \<longleftrightarrow>
      (e', tid) = (e, pick_tid (e, i, sid, p, a, plan)) \<or> (e', tid) \<in> table_running jobs" for e' tid
    using j run inv(2) by (cases "tid_job tid = i") (auto simp: table_running_def map_of_adjust)
  then show ?thesis by auto
qed

lemma pending_tasks_distinct:
  assumes "job_inv j"
  shows "distinct (map (\<lambda>(sid, p, a, plan). (sid, p, a)) (pending_tasks j))"
proof -
  note core = job_inv_core [OF assms]
  note wf = job_core_wf [OF core] and d = job_core_distinct [OF core]
  let ?tasks = "\<lambda>st. if ss_status st \<noteq> Runnable then [] else
     case ss_encoded_plan st of None \<Rightarrow> [] | Some plan \<Rightarrow>
       map (\<lambda>t. (qs_stage_id (ss_stage st), ts_partition t, ts_attempt t, plan)) (filter (\<lambda>t. ts_state t = TPending) (ss_tasks st))"
  let ?f = "\<lambda>(sid, p, a, plan). (sid, p, a)"
  have parts: "distinct (map ts_partition (ss_tasks st))" if "(k, st) \<in> set (js_stages j)" for k st
  proof -
    from that d have st: "map_of (js_stages j) k = Some st" by simp
    have "i < length (ss_tasks st) \<Longrightarrow> m < length (ss_tasks st) \<Longrightarrow>
        ts_partition (ss_tasks st ! i) = ts_partition (ss_tasks st ! m) \<Longrightarrow> i = m" for i m
      using job_wf_stage(4,5) [OF wf st] of_nat_word_inj [of i m, where 'a = 32] by auto
    then show ?thesis by (auto simp: distinct_conv_nth)
  qed
  have one: "distinct (map ?f (?tasks st))" if "(k, st) \<in> set (js_stages j)" for k st
  proof (cases "ss_encoded_plan st")
    case (Some plan)
    have "distinct (map (\<lambda>t. (qs_stage_id (ss_stage st), ts_partition t, ts_attempt t)) (ss_tasks st))"
      using parts [OF that] by (auto simp: distinct_map inj_on_def)
    with Some show ?thesis by (simp add: comp_def distinct_map_filter)
  qed simp
  have ids: "qs_stage_id (ss_stage st) = k" if "(k, st) \<in> set (js_stages j)" for k st
    using job_wf_stage(1) [OF wf] that d by simp
  have "distinct (concat (map (\<lambda>x. map ?f (?tasks (snd x))) (js_stages j)))"
  proof (rule distinct_concat_keyed [where key = fst, OF d])
    show "distinct (map ?f (?tasks (snd x)))" if "x \<in> set (js_stages j)" for x
      using one [of "fst x" "snd x"] that by simp
    show "fst y = fst x" if "x \<in> set (js_stages j)" "y \<in> set (map ?f (?tasks (snd x)))" for x y
      using that ids [of "fst x" "snd x"] by (auto split: option.splits if_splits)
  qed
  moreover have "map ?f (pending_tasks j) =
      (if is_active j then concat (map (\<lambda>x. map ?f (?tasks (snd x))) (js_stages j)) else [])"
    by (simp add: pending_tasks_def map_concat comp_def case_prod_unfold)
  ultimately show ?thesis by simp
qed

end
