(* ===== verification/Forge_Dispatch_Theorems.thy ===== *)
theory Forge_Dispatch_Theorems
  imports Forge_Dispatch
begin

text \<open>
  What the scheduler promises: executors are never given more tasks than they have slots, only
  pending tasks of active jobs are launched and each once, a dispatch leaves work undone only when
  every slot is taken, every run of the scheduler keeps its invariant and moves jobs by their own
  events only, and what becomes of an active job evicted from the submission order.
\<close>

section \<open>Facts about the picks\<close>

lemma dispatch_picks_cases:
  assumes "dispatch_picks now (i # order) jobs free = (pks, free')"
  obtains "map_of jobs i = None" "dispatch_picks now order jobs free = (pks, free')"
  | j where "map_of jobs i = Some j" "\<not> is_active j" "dispatch_picks now order jobs free = (pks, free')"
  | j es where "map_of jobs i = Some j" "is_active j" "pick_slots (length (pending_tasks j)) free = (es, free')"
      "length es < length (pending_tasks j)" "pks = map (\<lambda>(e, t). (e, i, t)) (zip es (pending_tasks j))"
  | j es free1 rest where "map_of jobs i = Some j" "is_active j"
      "pick_slots (length (pending_tasks j)) free = (es, free1)" "length es = length (pending_tasks j)"
      "dispatch_picks now order (fold (mark_pick now) (map (\<lambda>(e, t). (e, i, t)) (zip es (pending_tasks j))) jobs) free1 = (rest, free')"
      "pks = map (\<lambda>(e, t). (e, i, t)) (zip es (pending_tasks j)) @ rest"
proof (cases "map_of jobs i")
  case None
  with assms that(1) show thesis by simp
next
  case (Some j)
  show thesis
  proof (cases "is_active j")
    case True
    obtain es free1 where sl: "pick_slots (length (pending_tasks j)) free = (es, free1)" by fastforce
    note len = pick_slots_length [OF sl]
    show thesis
    proof (cases "length es < length (pending_tasks j)")
      case True
      with assms Some \<open>is_active j\<close> sl that(3) show thesis by auto
    next
      case False
      with len have "length es = length (pending_tasks j)" by simp
      with False assms Some True sl that(4) show thesis by (auto simp: Let_def split: prod.splits)
    qed
  qed (use assms Some that(2) in simp)
qed

lemma executors_of_picks: "length es \<le> length ts \<Longrightarrow> map fst (map (\<lambda>(e, t). (e, i, t)) (zip es ts)) = es"
  by (simp add: comp_def case_prod_unfold map_fst_zip_take)

lemma dispatch_picks_slots:
  "distinct (map fst free) \<Longrightarrow> dispatch_picks now order jobs free = (pks, free') \<Longrightarrow>
     slots_of free e = slots_of free' e + count_list (map fst pks) e \<and> map fst free' = map fst free"
proof (induction order arbitrary: jobs free pks)
  case (Cons i order)
  from Cons.prems(2) show ?case
  proof (cases rule: dispatch_picks_cases)
    case (3 j es)
    with pick_slots_facts [OF Cons.prems(1) 3(3), of e] show ?thesis
      by (simp add: executors_of_picks del: map_map)
  next
    case (4 j es free1 rest)
    note sl = pick_slots_facts [OF Cons.prems(1) 4(3), of e]
    then have "distinct (map fst free1)" using Cons.prems(1) by simp
    from Cons.IH [OF this 4(5)] sl 4(4,6) show ?thesis
      by (simp add: executors_of_picks del: map_map)
  qed (use Cons in auto)
qed simp

lemma picks_pending:
  assumes "map_of jobs i = Some j" and "pk \<in> set (map (\<lambda>(e, t). (e, i, t)) (zip es (pending_tasks j)))"
  shows "snd pk \<in> table_pending jobs"
  using assms by (auto simp: table_pending_def dest: set_zip_rightD)

lemma pick_keys_zip:
  "map pick_key (map (\<lambda>(e, t). (e, i, t)) (zip es ts)) =
     map (\<lambda>(sid, p, a, plan). (i, sid, p, a)) (take (length es) ts)"
  by (induction es ts rule: list_induct2') auto

lemma dispatch_picks_facts:
  assumes "table_ok jobs" and "dispatch_picks now order jobs free = (pks, free')"
  shows "(\<forall>pk\<in>set pks. snd pk \<in> table_pending jobs \<and> fst (snd pk) \<in> set order) \<and> distinct (map pick_key pks)"
  using assms
proof (induction order arbitrary: jobs free pks)
  case (Cons i order)
  have first: "distinct (map pick_key (map (\<lambda>(e, t). (e, i, t)) (zip es (pending_tasks j))))"
    if j: "map_of jobs i = Some j" for j es
  proof -
    have "distinct (map (\<lambda>(sid, p, a, plan). (sid, p, a)) (take (length es) (pending_tasks j)))"
      using pending_tasks_distinct [of j] Cons.prems(1) j by (auto simp: table_ok_def simp flip: take_map)
    then have "distinct (map (Pair i) (map (\<lambda>(sid, p, a, plan). (sid, p, a)) (take (length es) (pending_tasks j))))"
      by (subst distinct_map) (simp add: inj_on_def)
    then show ?thesis
      unfolding pick_keys_zip by (simp add: comp_def case_prod_unfold)
  qed
  from Cons.prems(2) show ?case
  proof (cases rule: dispatch_picks_cases)
    case (3 j es)
    have "snd pk \<in> table_pending jobs \<and> fst (snd pk) = i" if "pk \<in> set pks" for pk
      using picks_pending [OF 3(1) that [unfolded 3(5)]] that [unfolded 3(5)] by auto
    with first [OF 3(1)] show ?thesis unfolding 3(5) by (metis list.set_intros(1))
  next
    case (4 j es free1 rest)
    let ?pks = "map (\<lambda>(e, t). (e, i, t)) (zip es (pending_tasks j))"
    note IH = Cons.IH [OF table_ok_marks [OF Cons.prems(1)] 4(5)]
    have later: "snd pk \<in> table_pending jobs \<and> pick_key pk \<notin> pick_key ` set ?pks" if "pk \<in> set rest" for pk
    proof -
      obtain e i' sid p a plan where pk: "pk = (e, i', sid, p, a, plan)" by (cases pk) auto
      from IH that have "(i', sid, p, a, plan) \<in> table_pending (fold (mark_pick now) ?pks jobs)" by (auto simp: pk)
      then show ?thesis unfolding table_pending_marks [OF Cons.prems(1)] by (simp add: pk)
    qed
    have "x \<notin> set (map pick_key ?pks)" if x: "x \<in> set (map pick_key rest)" for x
    proof -
      from x obtain pk where "pk \<in> set rest" "x = pick_key pk" unfolding set_map by (rule imageE)
      with later [of pk] show ?thesis by (simp only: set_map simp_thms)
    qed
    then have "set (map pick_key ?pks) \<inter> set (map pick_key rest) = {}" by (metis disjoint_iff)
    then have "distinct (map pick_key pks)"
      unfolding 4(6) map_append distinct_append using first [OF 4(1)] IH by blast
    moreover have "snd pk \<in> table_pending jobs \<and> fst (snd pk) \<in> set (i # order)" if "pk \<in> set pks" for pk
    proof (cases "pk \<in> set rest")
      case False
      with that 4(6) have "pk \<in> set ?pks" by simp
      from picks_pending [OF 4(1) this] this show ?thesis by auto
    qed (use later IH in auto)
    ultimately show ?thesis by blast
  qed (use Cons in auto)
qed simp


text \<open>Picks after marks: what is picked is running afterwards, and running tasks stay so.\<close>

lemma table_running_marks:
  assumes "table_ok jobs" and "\<forall>pk\<in>set pks. snd pk \<in> table_pending jobs" and "distinct (map pick_key pks)"
  shows "table_running (fold (mark_pick now) pks jobs) =
     table_running jobs \<union> (\<lambda>pk. (fst pk, pick_tid pk)) ` set pks"
  using assms
proof (induction pks arbitrary: jobs)
  case (Cons pk pks)
  obtain e i sid p a plan where pk: "pk = (e, i, sid, p, a, plan)" by (cases pk) auto
  have "snd pk' \<in> table_pending (mark_pick now pk jobs)" if "pk' \<in> set pks" for pk'
  proof -
    obtain e' i' sid' p' a' plan' where pk': "pk' = (e', i', sid', p', a', plan')" by (cases pk') auto
    have "pick_key pk \<notin> pick_key ` set pks" using Cons.prems(3) by simp
    moreover have "pick_key pk' \<in> pick_key ` set pks" using that by (rule imageI)
    ultimately have "pick_key pk' \<noteq> pick_key pk" by metis
    then have "(i', sid', p', a') \<noteq> (i, sid, p, a)" by (simp only: pk pk' pick_key.simps not_False_eq_True)
    moreover have "(i', sid', p', a', plan') \<in> table_pending jobs"
      using that Cons.prems(2) pk' by (metis list.set_intros(2) snd_conv)
    ultimately show ?thesis
      unfolding pk pk' snd_conv table_pending_mark [OF Cons.prems(1)] by blast
  qed
  with Cons.IH [OF table_ok_mark [OF Cons.prems(1)]] Cons.prems
  have "table_running (fold (mark_pick now) pks (mark_pick now pk jobs)) =
      table_running (mark_pick now pk jobs) \<union> (\<lambda>pk. (fst pk, pick_tid pk)) ` set pks" by simp
  moreover have "table_running (mark_pick now pk jobs) = insert (fst pk, pick_tid pk) (table_running jobs)"
    using table_running_mark [OF Cons.prems(1), of i sid p a plan now e] Cons.prems(2) by (simp add: pk)
  ultimately show ?case by auto
qed simp

text \<open>Work is left undone only when no slot is left.\<close>

lemma picked_all_pending:
  assumes "table_ok jobs" and "map_of jobs i = Some j" and "length es = length (pending_tasks j)"
    and "j' \<in> ran (map_of (fold (mark_pick now) (map (\<lambda>(e, t). (e, i, t)) (zip es (pending_tasks j))) jobs))"
    and "js_job_id j' = i"
  shows "pending_tasks j' = []"
proof (rule ccontr)
  let ?pks = "map (\<lambda>(e, t). (e, i, t)) (zip es (pending_tasks j))"
  let ?jobs = "fold (mark_pick now) ?pks jobs"
  assume "pending_tasks j' \<noteq> []"
  then obtain t where t: "t \<in> set (pending_tasks j')" by (cases "pending_tasks j'") auto
  obtain sid p a plan where teq: "t = (sid, p, a, plan)" by (cases t) auto
  from assms(4) obtain k where k: "map_of ?jobs k = Some j'" by (auto simp: ran_def)
  with table_ok_marks [OF assms(1)] assms(5) have "k = i" by (auto simp: table_ok_def)
  with k t have "(i, t) \<in> table_pending ?jobs" by (auto simp: table_pending_def)
  then have "(i, t) \<in> table_pending jobs" and no: "(i, sid, p, a) \<notin> pick_key ` set ?pks"
    unfolding teq table_pending_marks [OF assms(1)] by auto
  with assms(2) have "t \<in> set (pending_tasks j)" by (auto simp: table_pending_def)
  then have "(\<lambda>(sid, p, a, plan). (i, sid, p, a)) t \<in> set (map pick_key ?pks)"
    unfolding pick_keys_zip assms(3) by simp
  with no show False by (auto simp: teq)
qed

lemma dispatch_picks_exhaustive:
  assumes "table_ok jobs" and "distinct (map fst free)" and "dispatch_picks now order jobs free = (pks, free')"
    and "i \<in> set order" and "(i, t) \<in> table_pending (fold (mark_pick now) pks jobs)"
  shows "slots_of free' e = 0"
  using assms
proof (induction order arbitrary: jobs free pks)
  case (Cons k order)
  from Cons.prems(3) show ?case
  proof (cases rule: dispatch_picks_cases)
    case 1
    have "i \<noteq> k"
    proof
      assume "i = k"
      moreover have "map_of (fold (mark_pick now) pks jobs) k = None"
        using 1(1) by (metis map_of_eq_None_iff mark_picks_keys set_map)
      ultimately show False using Cons.prems(5) by (simp add: table_pending_def)
    qed
    with Cons 1 show ?thesis by simp
  next
    case (2 j)
    obtain sid p a plan where t: "t = (sid, p, a, plan)" by (cases t) auto
    have "i \<noteq> k"
      using Cons.prems(5) 2(1,2) unfolding t table_pending_marks [OF Cons.prems(1)]
      by (auto simp: table_pending_def pending_tasks_def)
    with Cons 2 show ?thesis by simp
  next
    case (3 j es)
    with pick_slots_facts [OF Cons.prems(2) 3(3), of e] show ?thesis by blast
  next
    case (4 j es free1 rest)
    let ?pks = "map (\<lambda>(e, t). (e, k, t)) (zip es (pending_tasks j))"
    let ?jobs = "fold (mark_pick now) ?pks jobs"
    note ok = table_ok_marks [OF Cons.prems(1), of now ?pks]
    have d: "distinct (map fst free1)" using pick_slots_facts [OF Cons.prems(2) 4(3)] Cons.prems(2) by simp
    have pend: "(i, t) \<in> table_pending (fold (mark_pick now) rest ?jobs)"
      using Cons.prems(5) by (simp add: 4(6))
    show ?thesis
    proof (cases "i \<in> set order")
      case True
      from Cons.IH [OF ok d 4(5) this pend] show ?thesis .
    next
      case False
      with Cons.prems(4) have "i = k" by simp
      obtain sid p a plan where t: "t = (sid, p, a, plan)" by (cases t) auto
      from pend have "(i, t) \<in> table_pending ?jobs" unfolding t table_pending_marks [OF ok] by simp
      then obtain j' where j': "map_of ?jobs i = Some j'" "t \<in> set (pending_tasks j')"
        unfolding table_pending_def by blast
      from ok j'(1) have "js_job_id j' = i" unfolding table_ok_def by blast
      then have "js_job_id j' = k" using \<open>i = k\<close> by simp
      moreover have "j' \<in> ran (map_of ?jobs)" using j'(1) by (rule ranI)
      ultimately have "pending_tasks j' = []" using picked_all_pending [OF Cons.prems(1) 4(1,4)] by blast
      with j'(2) show ?thesis by simp
    qed
  qed
qed simp


section \<open>Launch batches\<close>

definition batch_of :: "string \<Rightarrow> (string \<times> task_definition list) list \<Rightarrow> task_definition list" where
  "batch_of e batches = (case map_of batches e of None \<Rightarrow> [] | Some ts \<Rightarrow> ts)"

lemma push_entry_facts:
  assumes "distinct (map fst m)"
  shows "distinct (map fst (push_entry k v m))"
    and "batch_of e (push_entry k v m) = (if e = k then batch_of e m @ [v] else batch_of e m)"
proof -
  show "distinct (map fst (push_entry k v m))"
    using assms by (auto simp: push_entry_def map_of_eq_None_iff split: option.split)
  show "batch_of e (push_entry k v m) = (if e = k then batch_of e m @ [v] else batch_of e m)"
    by (auto simp: push_entry_def batch_of_def map_of_adjust map_add_def split: option.split)
qed

lemma push_picks_facts:
  "distinct (map fst m) \<Longrightarrow> distinct (map fst (fold (push_pick wd cfg) pks m)) \<and>
     batch_of e (fold (push_pick wd cfg) pks m) = batch_of e m @ map (pick_task wd cfg) (filter (\<lambda>pk. fst pk = e) pks)"
proof (induction pks arbitrary: m)
  case (Cons pk pks)
  have "distinct (map fst (push_pick wd cfg pk m))"
    using push_entry_facts(1) [OF Cons.prems] by (simp add: push_pick_def)
  from Cons.IH [OF this] show ?case
    using push_entry_facts(2) [OF Cons.prems, of e "fst pk" "pick_task wd cfg pk"] by (auto simp: push_pick_def)
qed simp

lemma batch_of_member: "distinct (map fst m) \<Longrightarrow> (e, ts) \<in> set m \<Longrightarrow> batch_of e m = ts"
  by (simp add: batch_of_def)

lemma td_id_pick [simp]: "td_id (pick_task wd cfg pk) = pick_tid pk"
  by (cases pk) simp

section \<open>Free slots\<close>

lemma free_list_slots:
  assumes "reg_ok reg"
  shows "distinct (map fst (free_list reg))" and "slots_of (free_list reg) e = slots_cap reg e - slots_used reg e"
proof -
  let ?es = "sort_key (\<lambda>e. - int (unat (free_slots e))) (reg_list reg)"
  have ids: "map (\<lambda>e. em_id (ee_metadata e)) (reg_list reg) = map fst reg"
    using assms by (auto simp: reg_ok_def reg_list_def entry_ok_def)
  have "distinct (map (\<lambda>e. em_id (ee_metadata e)) ?es)"
  proof -
    have "mset (map (\<lambda>e. em_id (ee_metadata e)) ?es) = mset (map fst reg)"
      by (simp flip: ids)
    then show ?thesis using reg_ok_distinct [OF assms] by (metis mset_eq_imp_distinct_iff)
  qed
  then show d: "distinct (map fst (free_list reg))"
    by (simp add: free_list_def comp_def distinct_map_filter)
  have mem: "(e, n) \<in> set (free_list reg) \<longleftrightarrow> (\<exists>en. map_of reg e = Some en \<and> n = free_slots en \<and> 0 < n)" for n
  proof -
    have "(e, n) \<in> set (free_list reg) \<longleftrightarrow>
        (\<exists>i en. (i, en) \<in> set reg \<and> e = em_id (ee_metadata en) \<and> n = free_slots en \<and> 0 < n)"
      unfolding free_list_def reg_list_def by (auto simp: image_iff) metis+
    also have "\<dots> \<longleftrightarrow> (\<exists>en. map_of reg e = Some en \<and> n = free_slots en \<and> 0 < n)"
    proof -
      have "map_of reg i = Some en \<Longrightarrow> em_id (ee_metadata en) = i" for i en
        using reg_ok_entry [OF assms] by (simp add: entry_ok_def)
      then show ?thesis using reg_ok_distinct [OF assms] by (metis map_of_eq_Some_iff)
    qed
    finally show ?thesis .
  qed
  show "slots_of (free_list reg) e = slots_cap reg e - slots_used reg e"
  proof (cases "map_of (free_list reg) e")
    case None
    have "(e, n) \<notin> set (free_list reg)" for n
      using None by (metis domI dom_map_of_conv_image_fst fst_conv image_eqI map_of_eq_None_iff)
    with mem have "free_slots en = 0" if "map_of reg e = Some en" for en
      using that by (metis word_gt_0)
    then have "slots_cap reg e - slots_used reg e = 0"
      using free_slots_gap [OF assms, of e] by (cases "map_of reg e") (auto simp: slots_cap_def)
    with None show ?thesis by (simp add: slots_of_def)
  next
    case (Some n)
    from map_of_SomeD [OF Some] mem [of n] obtain en where "map_of reg e = Some en" "n = free_slots en" by blast
    with Some free_slots_gap [OF assms this(1)] show ?thesis by (simp add: slots_of_def)
  qed
qed

section \<open>One dispatch\<close>

lemma assign_tasks_picks:
  assumes inv: "sched_inv eng s" and run: "assign_tasks now s = (s', batches)"
  obtains pks free' where
    "dispatch_picks now (sc_job_order s) (sc_jobs s) (free_list (sc_executors s)) = (pks, free')"
    "s' = s\<lparr>sc_jobs := fold (mark_pick now) pks (sc_jobs s), sc_executors := start_picks pks (sc_executors s)\<rparr>"
    "batches = fold (push_pick (cfg_work_dir (sc_config s)) (job_config (sc_jobs s))) pks []"
proof -
  have reg: "reg_ok (sc_executors s)" and ok: "table_ok (sc_jobs s)"
    using inv sched_table_ok by (auto simp: sched_inv_def)
  obtain pks free' where pks: "dispatch_picks now (sc_job_order s) (sc_jobs s) (free_list (sc_executors s)) = (pks, free')"
    by fastforce
  show thesis
  proof (cases "free_list (sc_executors s) = []")
    case True
    have "pks = []"
    proof (cases pks)
      case (Cons pk pks')
      with dispatch_picks_slots [OF free_list_slots(1) [OF reg] pks, of "fst pk"] True
      show ?thesis by (simp add: slots_of_def)
    qed simp
    with pks True run that [OF pks] show thesis by (simp add: assign_tasks_def)
  next
    case False
    have d: "distinct (map fst (sc_jobs s))" using ok by (simp add: table_ok_def)
    from dispatch_jobs_picks [OF d, of now "sc_job_order s" "\<lparr>ds_free = free_list (sc_executors s),
        ds_executors = sc_executors s, ds_launches = []\<rparr>" pks free' "cfg_work_dir (sc_config s)"] pks False run that [OF pks]
    show thesis by (simp add: assign_tasks_def)
  qed
qed

lemma jobs_ok_mark: "jobs_ok eng jobs \<Longrightarrow> jobs_ok eng (mark_pick now pk jobs)"
  by (cases pk) (auto intro!: jobs_ok_adjust)

lemma jobs_ok_marks: "jobs_ok eng jobs \<Longrightarrow> jobs_ok eng (fold (mark_pick now) pks jobs)"
  by (induction pks arbitrary: jobs) (auto intro: jobs_ok_mark)

lemma picks_within:
  assumes "reg_ok reg" and "dispatch_picks now order jobs (free_list reg) = (pks, free')"
  shows "count_list (map fst pks) e \<le> slots_cap reg e - slots_used reg e"
  using dispatch_picks_slots [OF free_list_slots(1) [OF assms(1)] assms(2), of e] free_list_slots(2) [OF assms(1)]
  by simp

lemma assign_tasks_inv [inv_intro]:
  assumes inv: "sched_inv eng s"
  shows "sched_inv eng (fst (assign_tasks now s))"
proof -
  obtain s' batches where run: "assign_tasks now s = (s', batches)" by fastforce
  from inv run show ?thesis
  proof (rule assign_tasks_picks)
    fix pks free'
    assume pks: "dispatch_picks now (sc_job_order s) (sc_jobs s) (free_list (sc_executors s)) = (pks, free')"
      and s': "s' = s\<lparr>sc_jobs := fold (mark_pick now) pks (sc_jobs s), sc_executors := start_picks pks (sc_executors s)\<rparr>"
    have reg: "reg_ok (sc_executors s)" using inv by (simp add: sched_inv_def)
    have "reg_ok (start_picks pks (sc_executors s))"
      unfolding start_picks_def using picks_within [OF reg pks]
      by (intro starts_ok [OF reg]) (simp add: comp_def)
    then show ?thesis using inv run by (simp add: s' sched_inv_def jobs_ok_marks)
  qed
qed

lemma count_filter: "count_list (map fst pks) e = length (filter (\<lambda>pk. fst pk = e) pks)"
  by (induction pks) auto


section \<open>Runs of the scheduler\<close>

text \<open>A launch answer is an event of its own, so everything may happen between assignment and answer.\<close>

datatype 'x sched_event =
    SchedRegister u64 executor_metadata executor_resources
  | SchedHeartbeat u64 string "executor_resources option"
  | SchedSubmit u64 string string "'x plan" session_settings
  | SchedCancel u64 string
  | SchedRelease string
  | SchedReports u64 "task_status list"
  | SchedLost u64 string
  | SchedAssign u64
  | SchedAnswer u64 string "task_definition list" "task_id list option"

fun sched_step :: "'x engine \<Rightarrow> 'x sched_event \<Rightarrow> 'x scheduler \<Rightarrow> 'x scheduler" where
  "sched_step eng (SchedRegister now md rs) s = s\<lparr>sc_executors := reg_register now md rs (sc_executors s)\<rparr>"
| "sched_step eng (SchedHeartbeat now e rs) s = s\<lparr>sc_executors := snd (reg_heartbeat now e rs (sc_executors s))\<rparr>"
| "sched_step eng (SchedSubmit now i sql p settings) s =
     (case sched_submit eng now i sql p settings s of Inl _ \<Rightarrow> s | Inr s' \<Rightarrow> s')"
| "sched_step eng (SchedCancel now i) s = snd (sched_cancel now i s)"
| "sched_step eng (SchedRelease i) s = sched_release i s"
| "sched_step eng (SchedReports now sts) s = update_task_status eng now sts s"
| "sched_step eng (SchedLost now e) s = sched_executor_lost now e s"
| "sched_step eng (SchedAssign now) s = fst (assign_tasks now s)"
| "sched_step eng (SchedAnswer now e tasks answer) s = launch_batch now (\<lambda>_ _. answer) (e, tasks) s"

fun event_ok :: "'x engine \<Rightarrow> 'x sched_event \<Rightarrow> bool" where
  "event_ok eng (SchedSubmit now i sql p settings) = plan_ok eng p"
| "event_ok eng _ = True"

lemma sched_step_inv: "sched_inv eng s \<Longrightarrow> event_ok eng ev \<Longrightarrow> sched_inv eng (sched_step eng ev s)"
proof (cases ev)
  case (SchedSubmit now i sql p settings)
  assume "sched_inv eng s" "event_ok eng ev"
  with SchedSubmit show ?thesis by (auto split: sum.split intro: sched_submit_inv)
qed (auto intro: inv_intro simp: sched_inv_def [where s = "s\<lparr>sc_executors := x\<rparr>" for x] sched_inv_def [where s = s])

interpretation sched_machine: machine "sched_step eng" "event_ok eng" "sched_inv eng" for eng
  by unfold_locales (rule sched_step_inv)

lemma sched_new_inv: "sched_inv eng (sched_new cfg)"
  by (simp add: sched_inv_def sched_new_def reg_ok_def jobs_ok_def)

text \<open>A dispatch of real loops is a run of these events.\<close>

lemma sched_dispatch_events:
  "sched_dispatch now answer s =
     fold (sched_step eng) (SchedAssign now # map (\<lambda>(e, ts). SchedAnswer now e ts (answer e ts)) (snd (assign_tasks now s))) s"
proof -
  have "fold (launch_batch now answer) bs s =
      fold (sched_step eng) (map (\<lambda>(e, ts). SchedAnswer now e ts (answer e ts)) bs) s" for bs s
    by (induction bs arbitrary: s) (auto simp: launch_batch_def)
  then show ?thesis by (simp add: sched_dispatch_def Let_def split: prod.split)
qed

section \<open>A scheduler to apply the theorems to\<close>

definition sample_settings_fast :: session_settings where
  "sample_settings_fast = default_settings\<lparr>task_max_retries := 1, batch_size := 1, adaptive_coalesce_target_bytes := 1\<rparr>"

definition sample_config :: "nat \<Rightarrow> scheduler_config" where
  "sample_config n =
     \<lparr>cfg_driver_id = ''d'', cfg_driver_addr = ''http://d'', cfg_work_dir = ''/w'', cfg_executor_timeout_ms = 30000,
      cfg_max_jobs_retained = n\<rparr>"

definition sample_metadata :: "string \<Rightarrow> u32 \<Rightarrow> executor_metadata" where
  "sample_metadata i n = \<lparr>em_id = i, em_host = ''h'', em_port = 7000, em_task_slots = n, em_labels = []\<rparr>"

definition sample_resources :: executor_resources where
  "sample_resources = \<lparr>er_total_memory_bytes = 0, er_available_memory_bytes = 0, er_cpu_cores = 1, er_free_task_slots = 1\<rparr>"

definition sample_sched_events :: "nat sched_event list" where
  "sample_sched_events =
     [SchedRegister 1 (sample_metadata ''e1'' 2) sample_resources, SchedRegister 1 (sample_metadata ''e2'' 1) sample_resources,
      SchedSubmit 2 ''j'' ''q'' sample_plan sample_settings_fast]"

definition sample_sched :: "nat scheduler" where
  "sample_sched = fold (sched_step sample_engine) sample_sched_events (sched_new (sample_config 1))"

lemma sample_plan_stages:
  "plan_stages sample_df job wd sample_plan = Inr ss \<Longrightarrow> map qs_num_tasks ss = [2, 3, 1]"
  by (auto simp: plan_stages_def sample_plan_def split_plan.simps cut_exchange_def push_stage_def sample_df_def planner_new_def Let_def)

lemma sample_plan_ok: "plan_ok sample_engine sample_plan"
proof -
  have "list_all (\<lambda>s. qs_num_tasks s < 2 ^ 32) ss" if "plan_stages sample_df job wd sample_plan = Inr ss" for job wd ss
  proof -
    have "list_all (\<lambda>n. n < 2 ^ 32) (map qs_num_tasks ss)" unfolding sample_plan_stages [OF that] by simp
    then show ?thesis by (simp add: list.pred_map comp_def)
  qed
  moreover have "unresolved_stages sample_plan = []" "node_count sample_plan < 2 ^ 32 - 2" by (simp_all add: sample_plan_def)
  ultimately show ?thesis using sample_df_lawful by (simp add: plan_ok_def sample_engine_def)
qed

lemma sample_sched_inv: "sched_inv sample_engine sample_sched"
  unfolding sample_sched_def
  by (rule sched_machine.inv_run [OF sched_new_inv]) (simp add: sample_sched_events_def sample_plan_ok)

section \<open>Properties\<close>

text \<open>C40: In any run of the scheduler, with events interleaved in any order, the registry keeps every
  executor within its slots and every job in the table is one that was built from planned stages and
  has since moved by events of its own state machine only, so all that is proved of job runs holds
  of it.\<close>

theorem scheduler_invariant_always:
  assumes "list_all (event_ok eng) evs" and "s = fold (sched_step eng) evs (sched_new cfg)"
  shows "(\<forall>e. slots_used (sc_executors s) e \<le> slots_cap (sc_executors s) e) \<and>
     (\<forall>i j. map_of (sc_jobs s) i = Some j \<longrightarrow> job_reachable eng i j \<and> job_inv j \<and> js_job_id j = i)"
proof -
  have "sched_inv eng s"
    unfolding assms(2) by (rule sched_machine.inv_run [OF sched_new_inv assms(1)])
  then show ?thesis
    using reg_ok_slots job_reachable_inv job_reachable_id unfolding sched_inv_def jobs_ok_def by blast
qed

theorem scheduler_invariant_always_witness:
  "slots_used (sc_executors sample_sched) ''e1'' \<le> slots_cap (sc_executors sample_sched) ''e1''"
  using scheduler_invariant_always [OF _ sample_sched_def]
  by (simp add: sample_sched_events_def sample_plan_ok)

text \<open>A dispatch never gives an executor more tasks than it had free slots, and no executor ends
  up running more tasks than it has slots.\<close>

theorem dispatch_within_slots:
  assumes "sched_inv eng s" and "assign_tasks now s = (s', batches)"
  shows "length (batch_of e batches) \<le> slots_cap (sc_executors s) e - slots_used (sc_executors s) e \<and>
     slots_used (sc_executors s') e \<le> slots_cap (sc_executors s') e"
  using assms
proof (rule assign_tasks_picks)
  fix pks free'
  assume pks: "dispatch_picks now (sc_job_order s) (sc_jobs s) (free_list (sc_executors s)) = (pks, free')"
    and b: "batches = fold (push_pick (cfg_work_dir (sc_config s)) (job_config (sc_jobs s))) pks []"
  have reg: "reg_ok (sc_executors s)" and reg': "reg_ok (sc_executors s')"
    using assms assign_tasks_inv [OF assms(1), of now] by (auto simp: sched_inv_def)
  have "length (batch_of e batches) = count_list (map fst pks) e"
    unfolding b using push_picks_facts [of "[]" _ _ pks e] by (simp add: count_filter batch_of_def)
  with picks_within [OF reg pks] reg_ok_slots [OF reg'] show ?thesis by simp
qed

theorem dispatch_within_slots_witness:
  "length (batch_of ''e1'' (snd (assign_tasks 3 sample_sched))) \<le> slots_cap (sc_executors sample_sched) ''e1''"
  using dispatch_within_slots [OF sample_sched_inv prod.collapse [symmetric], where e = "''e1''"]
  by (meson diff_le_self order_trans)

text \<open>Every task a dispatch sends out was a pending task, at its current attempt and with its
  stage's encoded plan, of an active job in the submission order, carries that job's session
  configuration, and is afterwards recorded as running on exactly the executor it is sent to; no
  task is sent twice.\<close>

theorem dispatch_launches_pending:
  assumes "sched_inv eng s" and "assign_tasks now s = (s', batches)"
  shows "(\<forall>td\<in>set (batch_of e batches). \<exists>j. map_of (sc_jobs s) (tid_job (td_id td)) = Some j \<and> is_active j \<and>
            tid_job (td_id td) \<in> set (sc_job_order s) \<and>
            (tid_stage (td_id td), tid_partition (td_id td), tid_attempt (td_id td), td_plan td) \<in> set (pending_tasks j) \<and>
            td_session_config td = js_session_config j \<and>
            (e, td_id td) \<in> table_running (sc_jobs s'))
     \<and> distinct (map td_id (batch_of e batches))
     \<and> (\<forall>e'. e' \<noteq> e \<longrightarrow> set (map td_id (batch_of e batches)) \<inter> set (map td_id (batch_of e' batches)) = {})"
  using assms
proof (rule assign_tasks_picks)
  fix pks :: "pick list" and free'
  let ?cfg = "job_config (sc_jobs s)" and ?wd = "cfg_work_dir (sc_config s)"
  let ?on = "\<lambda>e. filter (\<lambda>pk. fst pk = e) pks"
  assume pks: "dispatch_picks now (sc_job_order s) (sc_jobs s) (free_list (sc_executors s)) = (pks, free')"
    and s': "s' = s\<lparr>sc_jobs := fold (mark_pick now) pks (sc_jobs s), sc_executors := start_picks pks (sc_executors s)\<rparr>"
    and b: "batches = fold (push_pick ?wd ?cfg) pks []"
  have ok: "table_ok (sc_jobs s)" using assms(1) by (rule sched_table_ok)
  note facts = dispatch_picks_facts [OF ok pks]
  have batch: "batch_of e batches = map (pick_task ?wd ?cfg) (?on e)" for e
    unfolding b using push_picks_facts [of "[]" ?wd ?cfg pks e] by (simp add: batch_of_def)
  have running: "table_running (sc_jobs s') = table_running (sc_jobs s) \<union> (\<lambda>pk. (fst pk, pick_tid pk)) ` set pks"
    using table_running_marks [OF ok, of pks now] facts by (simp add: s')
  have tid_key: "pick_tid pk = pick_tid pk' \<longleftrightarrow> pick_key pk = pick_key pk'" for pk pk'
    by (cases pk; cases pk') auto
  have d: "distinct (map pick_tid pks)"
    using conjunct2 [OF facts] by (auto simp: distinct_map inj_on_def tid_key)
  have ids: "map td_id (batch_of e batches) = map pick_tid (?on e)" for e
    unfolding batch by (simp add: comp_def)
  have "\<exists>j. map_of (sc_jobs s) (tid_job (td_id td)) = Some j \<and> is_active j \<and>
            tid_job (td_id td) \<in> set (sc_job_order s) \<and>
            (tid_stage (td_id td), tid_partition (td_id td), tid_attempt (td_id td), td_plan td) \<in> set (pending_tasks j) \<and>
            td_session_config td = js_session_config j \<and> (e, td_id td) \<in> table_running (sc_jobs s')"
    if "td \<in> set (batch_of e batches)" for td
  proof -
    from that obtain pk where pk: "pk \<in> set pks" "fst pk = e" "td = pick_task ?wd ?cfg pk" by (auto simp: batch)
    obtain i sid p a plan where pkeq: "pk = (e, i, sid, p, a, plan)" using pk(2) by (cases pk) auto
    from facts pk(1) obtain j where j: "map_of (sc_jobs s) i = Some j" "(sid, p, a, plan) \<in> set (pending_tasks j)"
      and o: "i \<in> set (sc_job_order s)" by (auto simp: table_pending_def pkeq)
    from j(2) have "is_active j" by (auto simp: pending_tasks_def split: if_splits)
    moreover have "(e, td_id td) \<in> table_running (sc_jobs s')" unfolding running using pk by auto
    ultimately show ?thesis using j o by (simp add: pk(3) pkeq job_config_def)
  qed
  moreover have "distinct (map td_id (batch_of e batches))"
    unfolding ids using d by (rule distinct_map_filter)
  moreover have "set (map td_id (batch_of e batches)) \<inter> set (map td_id (batch_of e' batches)) = {}" if "e' \<noteq> e" for e'
    unfolding ids using d that by (auto simp: distinct_map inj_on_def)
  ultimately show ?thesis by blast
qed

theorem dispatch_launches_pending_witness:
  "distinct (map td_id (batch_of ''e1'' (snd (assign_tasks 3 sample_sched))))"
  using dispatch_launches_pending [OF sample_sched_inv prod.collapse [symmetric]] by blast

text \<open>Dispatch is work-conserving: if after it some job of the submission order still has a
  pending task, every executor was given as many tasks as it had free slots.\<close>

theorem dispatch_exhausts_slots:
  assumes "sched_inv eng s" and "assign_tasks now s = (s', batches)"
    and "i \<in> set (sc_job_order s)" and "map_of (sc_jobs s') i = Some j" and "pending_tasks j \<noteq> []"
  shows "length (batch_of e batches) = slots_cap (sc_executors s) e - slots_used (sc_executors s) e"
  using assms(1,2)
proof (rule assign_tasks_picks)
  fix pks free'
  assume pks: "dispatch_picks now (sc_job_order s) (sc_jobs s) (free_list (sc_executors s)) = (pks, free')"
    and s': "s' = s\<lparr>sc_jobs := fold (mark_pick now) pks (sc_jobs s), sc_executors := start_picks pks (sc_executors s)\<rparr>"
    and b: "batches = fold (push_pick (cfg_work_dir (sc_config s)) (job_config (sc_jobs s))) pks []"
  have reg: "reg_ok (sc_executors s)" using assms(1) by (simp add: sched_inv_def)
  obtain t where t: "t \<in> set (pending_tasks j)" using assms(5) by (cases "pending_tasks j") auto
  have "(i, t) \<in> table_pending (fold (mark_pick now) pks (sc_jobs s))"
    using assms(4) t by (auto simp: table_pending_def s')
  from dispatch_picks_exhaustive [OF sched_table_ok [OF assms(1)] free_list_slots(1) [OF reg] pks assms(3) this]
  have "slots_of free' e = 0" .
  moreover have "length (batch_of e batches) = count_list (map fst pks) e"
    unfolding b using push_picks_facts [of "[]" _ _ pks e] by (simp add: count_filter batch_of_def)
  ultimately show ?thesis
    using dispatch_picks_slots [OF free_list_slots(1) [OF reg] pks, of e] free_list_slots(2) [OF reg] by simp
qed


definition sample_small_sched :: "nat scheduler" where
  "sample_small_sched = fold (sched_step sample_engine) (tl sample_sched_events) (sched_new (sample_config 1))"

lemma sample_small_inv: "sched_inv sample_engine sample_small_sched"
  unfolding sample_small_sched_def
  by (rule sched_machine.inv_run [OF sched_new_inv]) (simp add: sample_sched_events_def sample_plan_ok)

theorem dispatch_exhausts_slots_witness:
  "length (batch_of ''e2'' (snd (assign_tasks 3 sample_small_sched))) =
     slots_cap (sc_executors sample_small_sched) ''e2'' - slots_used (sc_executors sample_small_sched) ''e2''"
proof -
  have o: "''j'' \<in> set (sc_job_order sample_small_sched)" by code_simp
  have "map_option (\<lambda>j. pending_tasks j \<noteq> []) (map_of (sc_jobs (fst (assign_tasks 3 sample_small_sched))) ''j'') = Some True"
    by code_simp
  then obtain j where "map_of (sc_jobs (fst (assign_tasks 3 sample_small_sched))) ''j'' = Some j" "pending_tasks j \<noteq> []"
    by (auto simp del: map_of_eq_Some_iff)
  from dispatch_exhausts_slots [OF sample_small_inv prod.collapse [symmetric] o this] show ?thesis .
qed

section \<open>Eviction\<close>

fun submits :: "string \<Rightarrow> 'x sched_event \<Rightarrow> bool" where
  "submits i (SchedSubmit now i' sql p settings) = (i' = i)"
| "submits i _ = False"

lemma update_task_status_order: "sc_job_order (update_task_status eng now sts s) = sc_job_order s"
proof -
  have "sc_job_order (update_one eng now st s) = sc_job_order s" for st and s :: "'a scheduler"
    by (simp add: update_one_def Let_def split: option.split prod.split)
  then have "sc_job_order (fold (update_one eng now) sts s) = sc_job_order s"
    by (induction sts arbitrary: s) simp_all
  then show ?thesis by (simp add: update_task_status_def)
qed

lemma requeue_order: "sc_job_order (requeue e ids s) = sc_job_order s"
  by (induction ids arbitrary: s) (simp_all add: requeue_def)

lemma assign_tasks_order: "sc_job_order (fst (assign_tasks now s)) = sc_job_order s"
  by (simp add: assign_tasks_def Let_def split: prod.split)

lemma sched_step_order:
  assumes "\<not> submits i ev" and "i \<notin> set (sc_job_order s)"
  shows "i \<notin> set (sc_job_order (sched_step eng ev s))"
proof (cases ev)
  case (SchedSubmit now i' sql p settings)
  show ?thesis
  proof (cases "sched_submit eng now i' sql p settings s")
    case (Inr s')
    then obtain n where "sc_job_order s' = drop n (sc_job_order s @ [i'])"
      by (auto elim!: sched_submit_Inr simp del: drop_append)
    with assms SchedSubmit Inr show ?thesis by (auto dest: in_set_dropD simp del: drop_append)
  qed (use assms SchedSubmit in simp)
qed (use assms in \<open>auto simp: sched_cancel_def sched_release_def update_task_status_order sched_executor_lost_fields
    assign_tasks_order launch_batch_def requeue_order Let_def split: option.split prod.split\<close>)

lemma sched_run_order:
  "list_all (\<lambda>ev. \<not> submits i ev) evs \<Longrightarrow> i \<notin> set (sc_job_order s) \<Longrightarrow>
     i \<notin> set (sc_job_order (fold (sched_step eng) evs s))"
  by (induction evs arbitrary: s) (auto dest: sched_step_order)

lemma evict_active:
  "map_of jobs i = Some j \<Longrightarrow> is_active j \<Longrightarrow> map_of (evict_jobs ids jobs) i = Some j"
proof (induction ids arbitrary: jobs)
  case (Cons k ids)
  let ?jobs = "case map_of jobs k of None \<Rightarrow> jobs | Some j \<Rightarrow> (if is_active j then jobs else AList.delete k jobs)"
  have "map_of ?jobs i = Some j"
    using Cons.prems by (cases "k = i") (auto split: option.split)
  from Cons.IH [OF this Cons.prems(2)] show ?case by (simp add: evict_jobs_def)
qed (simp add: evict_jobs_def)

lemma dispatch_skips:
  assumes "sched_inv eng s" and "i \<notin> set (sc_job_order s)" and "assign_tasks now s = (s', batches)"
  shows "map_of (sc_jobs s') i = map_of (sc_jobs s) i \<and>
     (\<forall>td\<in>set (batch_of e batches). tid_job (td_id td) \<noteq> i)"
  using assms(1,3)
proof (rule assign_tasks_picks)
  fix pks :: "pick list" and free'
  let ?cfg = "job_config (sc_jobs s)" and ?wd = "cfg_work_dir (sc_config s)"
  assume pks: "dispatch_picks now (sc_job_order s) (sc_jobs s) (free_list (sc_executors s)) = (pks, free')"
    and s': "s' = s\<lparr>sc_jobs := fold (mark_pick now) pks (sc_jobs s), sc_executors := start_picks pks (sc_executors s)\<rparr>"
    and b: "batches = fold (push_pick ?wd ?cfg) pks []"
  have other: "\<forall>pk\<in>set pks. fst (snd pk) \<noteq> i"
    using dispatch_picks_facts [OF sched_table_ok [OF assms(1)] pks] assms(2) by auto
  have "map_of (fold (mark_pick now) pks jobs) i = map_of jobs i" if "\<forall>pk\<in>set pks. fst (snd pk) \<noteq> i" for pks jobs
    using that by (induction pks arbitrary: jobs) (auto simp: map_of_adjust)
  with other have "map_of (sc_jobs s') i = map_of (sc_jobs s) i" by (simp add: s')
  moreover have "batch_of e batches = map (pick_task ?wd ?cfg) (filter (\<lambda>pk. fst pk = e) pks)"
    unfolding b using push_picks_facts [of "[]" ?wd ?cfg pks e] by (simp add: batch_of_def)
  moreover have "tid_job (pick_tid pk) = fst (snd pk)" for pk by (cases pk) simp
  ultimately show ?thesis using other by auto
qed

text \<open>A submission that exceeds the retention limit evicts the oldest ids even when their jobs are
  active: such a job stays in the table, active, but has left the submission order, and unless the
  same id is submitted again no later dispatch ever launches one of its tasks.\<close>

theorem evicted_job_starves:
  assumes "sched_inv eng s" and "plan_ok eng p" and "sched_submit eng now k sql p settings s = Inr s'"
    and "i \<in> set (take (Suc (length (sc_job_order s)) - cfg_max_jobs_retained (sc_config s)) (sc_job_order s))"
    and "distinct (sc_job_order s)" and "i \<noteq> k" and "map_of (sc_jobs s) i = Some j" and "is_active j"
  shows "map_of (sc_jobs s') i = Some j \<and>
    (\<forall>evs now'. list_all (\<lambda>ev. event_ok eng ev \<and> \<not> submits i ev) evs \<longrightarrow>
       (\<forall>td\<in>set (batch_of e (snd (assign_tasks now' (fold (sched_step eng) evs s')))). tid_job (td_id td) \<noteq> i))"
proof -
  let ?n = "Suc (length (sc_job_order s)) - cfg_max_jobs_retained (sc_config s)"
  from assms(3) obtain ss jk where s': "s' = s\<lparr>sc_jobs := evict_jobs (take ?n (sc_job_order s @ [k])) (AList.update k jk (sc_jobs s)),
               sc_job_order := drop ?n (sc_job_order s @ [k])\<rparr>"
    by (rule sched_submit_Inr)
  have "map_of (AList.update k jk (sc_jobs s)) i = Some j" using assms(6,7) by (simp add: update_conv')
  from evict_active [OF this assms(8)] have stays: "map_of (sc_jobs s') i = Some j" by (simp add: s' del: take_append)
  have "i \<notin> set (drop ?n (sc_job_order s))"
    using assms(4,5) by (metis disjoint_iff set_take_disj_set_drop_if_distinct order_refl)
  then have gone: "i \<notin> set (sc_job_order s')" using assms(6) by (auto simp: s' dest: in_set_dropD)
  have inv': "sched_inv eng s'" using sched_submit_inv [OF assms(1-3)] .
  have "\<forall>td\<in>set (batch_of e (snd (assign_tasks now' (fold (sched_step eng) evs s')))). tid_job (td_id td) \<noteq> i"
    if "list_all (\<lambda>ev. event_ok eng ev \<and> \<not> submits i ev) evs" for evs now'
  proof -
    from that have "list_all (event_ok eng) evs" "list_all (\<lambda>ev. \<not> submits i ev) evs" by (auto simp: list_all_iff)
    from dispatch_skips [OF sched_machine.inv_run [OF inv' this(1)] sched_run_order [OF this(2) gone] prod.collapse [symmetric]]
    show ?thesis by blast
  qed
  with stays show ?thesis by blast
qed

theorem evicted_job_starves_witness:
  "map_option is_active (map_of (sc_jobs (sched_step sample_engine
      (SchedSubmit 4 ''k'' ''q'' sample_plan sample_settings_fast) sample_sched)) ''j'') = Some True"
proof -
  obtain s' where s': "sched_submit sample_engine 4 ''k'' ''q'' sample_plan sample_settings_fast sample_sched = Inr s'"
  proof -
    have "(case sched_submit sample_engine 4 ''k'' ''q'' sample_plan sample_settings_fast sample_sched of
        Inl _ \<Rightarrow> False | Inr _ \<Rightarrow> True)" by code_simp
    then show thesis using that by (auto split: sum.splits)
  qed
  have "map_option is_active (map_of (sc_jobs sample_sched) ''j'') = Some True" by code_simp
  then obtain j where j: "map_of (sc_jobs sample_sched) ''j'' = Some j" "is_active j" by (auto simp del: map_of_eq_Some_iff)
  have "''j'' \<in> set (take (Suc (length (sc_job_order sample_sched)) - cfg_max_jobs_retained (sc_config sample_sched))
      (sc_job_order sample_sched))" "distinct (sc_job_order sample_sched)" by code_simp+
  from evicted_job_starves [OF sample_sched_inv sample_plan_ok s' this _ j] j(2) s' show ?thesis by simp
qed

end
