(* ===== verification/Api_Json.thy ===== *)
theory Api_Json
  imports Strings "HOL-Library.List_Lexorder" "HOL-Library.Char_ord"
begin

text \<open>
  \<open>serde_json::Value\<close> as the control plane uses it: every resource is a JSON document. An object is
  a map with sorted keys (\<open>serde_json\<close> is built without \<open>preserve_order\<close>); a number that is not an
  integer keeps its text. \<open>v["k"]\<close> yields \<open>Null\<close> for what is not there, as serde's indexing does,
  and the error envelope of \<open>lakeforge-api/src/error.rs\<close> is rendered as JSON.
\<close>

datatype json =
    JNull
  | JBool bool
  | JInt int
  | JFloat string
  | JStr string
  | JArr "json list"
  | JObj "(string \<times> json) list"

definition j_get :: "json \<Rightarrow> string \<Rightarrow> json" where
  "j_get v k = (case v of JObj m \<Rightarrow> (case map_of m k of None \<Rightarrow> JNull | Some x \<Rightarrow> x) | _ \<Rightarrow> JNull)"

text \<open>\<open>v[k] = x\<close> on an object (\<open>Null\<close> becomes one); the source never assigns into anything else.\<close>

definition j_set :: "string \<Rightarrow> json \<Rightarrow> json \<Rightarrow> json" where
  "j_set k x v = (case v of JObj m \<Rightarrow> JObj (bt_insert k x m) | JNull \<Rightarrow> JObj [(k, x)] | _ \<Rightarrow> v)"

definition j_remove :: "string \<Rightarrow> json \<Rightarrow> json" where
  "j_remove k v = (case v of JObj m \<Rightarrow> JObj (filter (\<lambda>(k', _). k' \<noteq> k) m) | _ \<Rightarrow> v)"

definition jobj :: "(string \<times> json) list \<Rightarrow> json" where
  "jobj kvs = JObj (fold (\<lambda>(k, v). bt_insert k v) kvs [])"

fun as_str :: "json \<Rightarrow> string option" where
  "as_str (JStr s) = Some s"
| "as_str _ = None"

fun as_array :: "json \<Rightarrow> json list option" where
  "as_array (JArr xs) = Some xs"
| "as_array _ = None"

fun as_int :: "json \<Rightarrow> int option" where
  "as_int (JInt n) = Some n"
| "as_int _ = None"

fun as_bool :: "json \<Rightarrow> bool option" where
  "as_bool (JBool b) = Some b"
| "as_bool _ = None"

fun as_object :: "json \<Rightarrow> (string \<times> json) list option" where
  "as_object (JObj m) = Some m"
| "as_object _ = None"

definition or_default :: "'a \<Rightarrow> 'a option \<Rightarrow> 'a" where
  "or_default d o' = (case o' of None \<Rightarrow> d | Some x \<Rightarrow> x)"

lemma or_default_simps [simp]: "or_default d None = d" "or_default d (Some x) = x"
  by (simp_all add: or_default_def)

definition jstr_opt :: "string option \<Rightarrow> json" where
  "jstr_opt o' = (case o' of None \<Rightarrow> JNull | Some s \<Rightarrow> JStr s)"

definition jstrs :: "string list \<Rightarrow> json" where
  "jstrs ss = JArr (map JStr ss)"

lemma map_of_fold_bt:
  "map_of (fold (\<lambda>(k, v). bt_insert k v) kvs m) k =
     (case map_of (rev kvs) k of None \<Rightarrow> map_of m k | Some v \<Rightarrow> Some v)"
  by (induction kvs arbitrary: m) (auto simp: bt_get_insert map_add_def split: option.splits if_splits)

lemma map_of_rev_distinct: "distinct (map fst kvs) \<Longrightarrow> map_of (rev kvs) = map_of kvs"
proof (induction kvs)
  case (Cons kv kvs)
  then have "map_of kvs (fst kv) = None" by (simp add: map_of_eq_None_iff)
  with Cons show ?case by (cases kv) (auto simp: map_add_def fun_eq_iff split: option.splits)
qed simp

lemma bt_ok_fold_bt: "bt_ok m \<Longrightarrow> bt_ok (fold (\<lambda>(k, v). bt_insert k v) kvs m)"
  by (induction kvs arbitrary: m) auto

lemma j_get_jobj: "j_get (jobj kvs) k = or_default JNull (map_of (rev kvs) k)"
  by (simp add: j_get_def jobj_def map_of_fold_bt or_default_def split: option.split)

lemma j_get_set [simp]:
  "j_get (j_set k x (JObj m)) k' = (if k' = k then x else j_get (JObj m) k')"
  by (simp add: j_get_def j_set_def bt_get_insert)

lemma j_get_simps [simp]:
  "j_get JNull k = JNull" "j_get (JStr s) k = JNull" "j_get (JArr xs) k = JNull"
  "j_get (JInt n) k = JNull" "j_get (JBool b) k = JNull"
  by (simp_all add: j_get_def)

lemma as_str_opt [simp]: "as_str (jstr_opt o') = o'"
  by (cases o') (simp_all add: jstr_opt_def)

section \<open>Errors\<close>

datatype api_error =
    InvalidParameter string
  | NotFound string
  | AlreadyExists string
  | Unauthenticated string
  | PermissionDenied string
  | InvalidState string
  | InternalError string
  | Unavailable string

fun error_code :: "api_error \<Rightarrow> string \<times> nat" where
  "error_code (InvalidParameter _) = (''INVALID_PARAMETER_VALUE'', 400)"
| "error_code (NotFound _) = (''RESOURCE_DOES_NOT_EXIST'', 404)"
| "error_code (AlreadyExists _) = (''RESOURCE_ALREADY_EXISTS'', 409)"
| "error_code (Unauthenticated _) = (''UNAUTHENTICATED'', 401)"
| "error_code (PermissionDenied _) = (''PERMISSION_DENIED'', 403)"
| "error_code (InvalidState _) = (''INVALID_STATE'', 400)"
| "error_code (InternalError _) = (''INTERNAL_ERROR'', 500)"
| "error_code (Unavailable _) = (''TEMPORARILY_UNAVAILABLE'', 503)"

fun error_message :: "api_error \<Rightarrow> string" where
  "error_message (InvalidParameter m) = m"
| "error_message (NotFound m) = m"
| "error_message (AlreadyExists m) = m"
| "error_message (Unauthenticated m) = m"
| "error_message (PermissionDenied m) = m"
| "error_message (InvalidState m) = m"
| "error_message (InternalError m) = m"
| "error_message (Unavailable m) = m"

definition err_not_found :: "string \<Rightarrow> string \<Rightarrow> api_error" where
  "err_not_found what i = NotFound (what @ '' '' @ i @ '' does not exist.'')"

definition into_response :: "api_error \<Rightarrow> nat \<times> json" where
  "into_response e = (snd (error_code e),
     jobj [(''error_code'', JStr (fst (error_code e))), (''message'', JStr (error_message e))])"

text \<open>The \<open>?\<close> operator: an error returns early.\<close>

definition try_then :: "'e + 'a \<Rightarrow> ('a \<Rightarrow> 'e + 'b) \<Rightarrow> 'e + 'b" where
  "try_then r f = (case r of Inl e \<Rightarrow> Inl e | Inr x \<Rightarrow> f x)"

lemma try_then_simps [simp]: "try_then (Inl e) f = Inl e" "try_then (Inr x) f = f x"
  by (simp_all add: try_then_def)

lemma try_then_Inr: "try_then r f = Inr y \<longleftrightarrow> (\<exists>x. r = Inr x \<and> f x = Inr y)"
  by (cases r) auto

lemma try_then_Inl: "try_then r f = Inl e \<longleftrightarrow> r = Inl e \<or> (\<exists>x. r = Inr x \<and> f x = Inl e)"
  by (cases r) auto

definition ok_or :: "'e \<Rightarrow> 'a option \<Rightarrow> 'e + 'a" where
  "ok_or e o' = (case o' of None \<Rightarrow> Inl e | Some x \<Rightarrow> Inr x)"

lemma ok_or_simps [simp]: "ok_or e None = Inl e" "ok_or e (Some x) = Inr x"
  by (simp_all add: ok_or_def)

lemma ok_or_Inr [simp]: "ok_or e o' = Inr x \<longleftrightarrow> o' = Some x"
  by (cases o') auto

text \<open>Envelopes keep the error apart: the code and the message determine the error.\<close>

lemma into_response_inj: "into_response a = into_response b \<longleftrightarrow> a = b"
proof
  assume eq: "into_response a = into_response b"
  have get: "j_get (snd (into_response e)) ''error_code'' = JStr (fst (error_code e))"
            "j_get (snd (into_response e)) ''message'' = JStr (error_message e)" for e
    by (simp_all add: into_response_def j_get_jobj)
  from get [of a] get [of b] eq
  have "fst (error_code a) = fst (error_code b)" "error_message a = error_message b" by simp_all
  then show "a = b" by (cases a; cases b) simp_all
qed simp

end
