(* ===== verification/Api_Store.thy ===== *)
theory Api_Store
  imports Api_Json
begin

text \<open>
  The document store (\<open>lakeforge-api/src/store.rs\<close>): one table of JSON documents with the indexed
  columns kind, id, workspace, parent and name, and one key/value table. The SQL statements are
  read as operations on the rows; what SQLite and Postgres document differently (\<open>LIKE\<close>) depends on
  the dialect. Text columns compare by bytes. A failing database is not modelled. Operations
  that stamp a row take the clock reading as an argument.
\<close>

section \<open>Rows\<close>

datatype dialect = Sqlite | Postgres

record doc =
  d_id :: string
  d_kind :: string
  d_ws :: string
  d_parent :: "string option"
  d_name :: "string option"
  d_data :: json
  d_created_at :: int
  d_updated_at :: int

record store =
  st_dialect :: dialect
  st_docs :: "doc list"
  st_kv :: "(string \<times> string) list"

record store_filter =
  f_parent :: "string option"
  f_name :: "string option"
  f_prefix :: "string option"
  f_limit :: "int option"
  f_offset :: "int option"
  f_newest :: bool

definition default_filter :: store_filter where
  "default_filter = \<lparr>f_parent = None, f_name = None, f_prefix = None, f_limit = None, f_offset = None,
     f_newest = False\<rparr>"

definition is_key :: "string \<Rightarrow> string \<Rightarrow> doc \<Rightarrow> bool" where
  "is_key k i d \<longleftrightarrow> d_kind d = k \<and> d_id d = i"

text \<open>The primary key of the table.\<close>

definition store_inv :: "store \<Rightarrow> bool" where
  "store_inv s \<longleftrightarrow> distinct (map (\<lambda>d. (d_kind d, d_id d)) (st_docs s)) \<and> distinct (map fst (st_kv s))"

section \<open>Pattern matching\<close>

text \<open>
  \<open>x LIKE p\<close> without an \<open>ESCAPE\<close> clause. In SQLite no character escapes and ASCII letters match in
  either case; in Postgres a backslash escapes the next character and case matters.
\<close>

fun like_sqlite :: "string \<Rightarrow> string \<Rightarrow> bool" where
  "like_sqlite [] s = (s = [])"
| "like_sqlite (p # ps) [] = (p = CHR ''%'' \<and> like_sqlite ps [])"
| "like_sqlite (p # ps) (c # s) =
     (if p = CHR ''%'' then like_sqlite ps (c # s) \<or> like_sqlite (p # ps) s
      else (p = CHR ''_'' \<or> lower_char p = lower_char c) \<and> like_sqlite ps s)"

abbreviation backslash :: char where
  "backslash \<equiv> CHR 0x5C"

fun like_postgres :: "string \<Rightarrow> string \<Rightarrow> bool" where
  "like_postgres [] s = (s = [])"
| "like_postgres (p # ps) [] = (p = CHR ''%'' \<and> like_postgres ps [])"
| "like_postgres (p # ps) (c # s) =
     (if p = CHR ''%'' then like_postgres ps (c # s) \<or> like_postgres (p # ps) s
      else if p = CHR ''_'' then like_postgres ps s
      else if p = backslash then
        (case ps of [] \<Rightarrow> False | q # qs \<Rightarrow> q = c \<and> like_postgres qs s)
      else p = c \<and> like_postgres ps s)"

definition sql_like :: "dialect \<Rightarrow> string \<Rightarrow> string \<Rightarrow> bool" where
  "sql_like d p s = (case d of Sqlite \<Rightarrow> like_sqlite p s | Postgres \<Rightarrow> like_postgres p s)"

definition prefix_pattern :: "string \<Rightarrow> string" where
  "prefix_pattern p = replace_char (CHR ''_'') [backslash, CHR ''_'']
     (replace_char (CHR ''%'') [backslash, CHR ''%''] p) @ ''%''"

section \<open>Documents\<close>

definition store_insert ::
  "int \<Rightarrow> string \<Rightarrow> string \<Rightarrow> string \<Rightarrow> string option \<Rightarrow> string option \<Rightarrow> json \<Rightarrow> store \<Rightarrow> (api_error + doc) \<times> store"
where
  "store_insert now k ws i parent name data s =
     (if list_ex (is_key k i) (st_docs s) then (Inl (AlreadyExists (k @ '' '' @ i @ '' already exists.'')), s)
      else let d = \<lparr>d_id = i, d_kind = k, d_ws = ws, d_parent = parent, d_name = name, d_data = data,
                    d_created_at = now, d_updated_at = now\<rparr>
           in (Inr d, s\<lparr>st_docs := st_docs s @ [d]\<rparr>))"

definition store_get :: "string \<Rightarrow> string \<Rightarrow> store \<Rightarrow> doc option" where
  "store_get k i s = find (is_key k i) (st_docs s)"

definition store_require :: "string \<Rightarrow> string \<Rightarrow> string \<Rightarrow> store \<Rightarrow> api_error + doc" where
  "store_require k i what s = ok_or (err_not_found what i) (store_get k i s)"

definition find_by_name :: "string \<Rightarrow> string \<Rightarrow> string option \<Rightarrow> string \<Rightarrow> store \<Rightarrow> doc option" where
  "find_by_name k ws parent name s =
     find (\<lambda>d. d_kind d = k \<and> d_ws d = ws \<and> d_name d = Some name \<and>
       (parent = None \<and> d_parent d = None \<or> parent \<noteq> None \<and> d_parent d = parent)) (st_docs s)"

definition row_matches :: "dialect \<Rightarrow> string \<Rightarrow> string \<Rightarrow> store_filter \<Rightarrow> doc \<Rightarrow> bool" where
  "row_matches dia k ws f d \<longleftrightarrow>
     d_kind d = k \<and> d_ws d = ws \<and> (f_parent f \<noteq> None \<longrightarrow> d_parent d = f_parent f) \<and>
     (f_name f \<noteq> None \<longrightarrow> d_name d = f_name f) \<and>
     (case f_prefix f of None \<Rightarrow> True
      | Some p \<Rightarrow> (case d_name d of None \<Rightarrow> False | Some n \<Rightarrow> sql_like dia (prefix_pattern p) n))"

definition created_order :: "doc list \<Rightarrow> doc list" where
  "created_order ds = sort_key d_created_at (sort_key d_id ds)"

definition limit_rows :: "int \<Rightarrow> 'a list \<Rightarrow> 'a list" where
  "limit_rows n xs = (if n < 0 then xs else take (nat n) xs)"

lemma limit_rows_code [code]:
  "limit_rows n xs = (if n < 0 \<or> int (length xs) \<le> n then xs else take (nat n) xs)"
  by (auto simp: limit_rows_def)

definition store_list :: "string \<Rightarrow> string \<Rightarrow> store_filter \<Rightarrow> store \<Rightarrow> doc list" where
  "store_list k ws f s =
     (let rows = created_order (filter (row_matches (st_dialect s) k ws f) (st_docs s));
          ordered = (if f_newest f then rev rows else rows)
      in limit_rows (or_default 10000 (f_limit f)) (drop (nat (or_default 0 (f_offset f))) ordered))"

definition store_count :: "string \<Rightarrow> string \<Rightarrow> string option \<Rightarrow> store \<Rightarrow> int" where
  "store_count k ws parent s =
     int (length (filter (\<lambda>d. d_kind d = k \<and> d_ws d = ws \<and> (parent \<noteq> None \<longrightarrow> d_parent d = parent)) (st_docs s)))"

definition store_put ::
  "int \<Rightarrow> string \<Rightarrow> string \<Rightarrow> string option \<Rightarrow> string option \<Rightarrow> json \<Rightarrow> store \<Rightarrow> (api_error + unit) \<times> store"
where
  "store_put now k i parent name data s =
     (if list_ex (is_key k i) (st_docs s)
      then (Inr (), s\<lparr>st_docs := map (\<lambda>d. if is_key k i d
              then d\<lparr>d_data := data, d_parent := parent, d_name := name, d_updated_at := now\<rparr> else d) (st_docs s)\<rparr>)
      else (Inl (err_not_found k i), s))"

definition store_upsert ::
  "int \<Rightarrow> string \<Rightarrow> string \<Rightarrow> string \<Rightarrow> string option \<Rightarrow> string option \<Rightarrow> json \<Rightarrow> store \<Rightarrow> (api_error + unit) \<times> store"
where
  "store_upsert now k ws i parent name data s =
     (case store_put now k i parent name data s of
        (Inr u, s') \<Rightarrow> (Inr (), s')
      | (Inl e, s') \<Rightarrow>
          (case e of
             NotFound _ \<Rightarrow> (case store_insert now k ws i parent name data s' of
                               (Inl e', s'') \<Rightarrow> (Inl e', s'') | (Inr _, s'') \<Rightarrow> (Inr (), s''))
           | _ \<Rightarrow> (Inl e, s')))"

definition store_update ::
  "int \<Rightarrow> int \<Rightarrow> string \<Rightarrow> string \<Rightarrow> string \<Rightarrow> (json \<Rightarrow> api_error + json) \<Rightarrow> store \<Rightarrow> (api_error + doc) \<times> store"
where
  "store_update now now' k i what f s =
     (case store_require k i what s of
        Inl e \<Rightarrow> (Inl e, s)
      | Inr d \<Rightarrow> (case f (d_data d) of
          Inl e \<Rightarrow> (Inl e, s)
        | Inr data \<Rightarrow> (case store_put now k i (d_parent d) (d_name d) data s of
            (Inl e, s') \<Rightarrow> (Inl e, s')
          | (Inr _, s') \<Rightarrow> (Inr (d\<lparr>d_data := data, d_updated_at := now'\<rparr>), s'))))"

definition store_delete :: "string \<Rightarrow> string \<Rightarrow> store \<Rightarrow> bool \<times> store" where
  "store_delete k i s =
     (list_ex (is_key k i) (st_docs s), s\<lparr>st_docs := filter (\<lambda>d. \<not> is_key k i d) (st_docs s)\<rparr>)"

definition delete_oldest :: "string \<Rightarrow> string \<Rightarrow> nat \<Rightarrow> store \<Rightarrow> nat \<times> store" where
  "delete_oldest k ws n s =
     (let ids = map d_id (take n (created_order (filter (\<lambda>d. d_kind d = k \<and> d_ws d = ws) (st_docs s))));
          kept = filter (\<lambda>d. d_id d \<notin> set ids) (st_docs s)
      in (length (st_docs s) - length kept, s\<lparr>st_docs := kept\<rparr>))"

definition delete_children :: "string \<Rightarrow> string \<Rightarrow> store \<Rightarrow> nat \<times> store" where
  "delete_children k parent s =
     (let kept = filter (\<lambda>d. \<not> (d_kind d = k \<and> d_parent d = Some parent)) (st_docs s)
      in (length (st_docs s) - length kept, s\<lparr>st_docs := kept\<rparr>))"

section \<open>Key/value pairs\<close>

definition kv_get :: "string \<Rightarrow> store \<Rightarrow> string option" where
  "kv_get k s = map_of (st_kv s) k"

definition kv_set :: "string \<Rightarrow> string \<Rightarrow> store \<Rightarrow> store" where
  "kv_set k v s = s\<lparr>st_kv := AList.update k v (st_kv s)\<rparr>"

definition kv_delete :: "string \<Rightarrow> store \<Rightarrow> store" where
  "kv_delete k s = s\<lparr>st_kv := AList.delete k (st_kv s)\<rparr>"

text \<open>\<open>str::parse::<i64>\<close> and the display of an \<open>i64\<close>.\<close>

definition show_int :: "int \<Rightarrow> string" where
  "show_int n = (if n < 0 then CHR ''-'' # show_nat (nat (- n)) else show_nat (nat n))"

definition parse_i64 :: "string \<Rightarrow> int option" where
  "parse_i64 s =
     (case s of
        c # cs \<Rightarrow> if c = CHR ''-''
                  then (if list_ex (\<lambda>x. x = CHR ''+'') cs then None
                        else map_option (\<lambda>n. - int n) (parse_uint (2 ^ 63 + 1) cs))
                  else map_option int (parse_uint (2 ^ 63) s)
      | [] \<Rightarrow> None)"

definition parse_uint_int :: "int \<Rightarrow> string \<Rightarrow> nat option" where
  "parse_uint_int b s = parse_uint (nat b) s"

lemma parse_uint_int_code [code]:
  "parse_uint_int b s =
     (let ds = (case s of [] \<Rightarrow> [] | c # cs \<Rightarrow> if c = CHR ''+'' then cs else s)
      in if ds \<noteq> [] \<and> list_all is_digit ds \<and> int (read_nat ds) < b then Some (read_nat ds) else None)"
  by (simp add: parse_uint_int_def parse_uint_def Let_def zless_nat_conj zless_nat_eq_int_zless)

lemma parse_i64_code [code]:
  "parse_i64 s =
     (case s of
        c # cs \<Rightarrow> if c = CHR ''-''
                  then (if list_ex (\<lambda>x. x = CHR ''+'') cs then None
                        else map_option (\<lambda>n. - int n) (parse_uint_int 9223372036854775809 cs))
                  else map_option int (parse_uint_int 9223372036854775808 s)
      | [] \<Rightarrow> None)"
  by (simp add: parse_i64_def parse_uint_int_def nat_power_eq nat_add_distrib split: list.split)

text \<open>The sequence number, \<open>i64\<close> with the overflow of \<open>cur + 1\<close> wrapping.\<close>

definition wrap_i64 :: "int \<Rightarrow> int" where
  "wrap_i64 n = sint (word_of_int n :: u64)"

lemma wrap_i64_code [code]:
  "wrap_i64 n = (if - 9223372036854775808 \<le> n \<and> n < 9223372036854775808 then n else sint (word_of_int n :: u64))"
  by (auto simp: wrap_i64_def signed_of_int signed_take_bit_int_eq_self_iff)

definition next_seq :: "string \<Rightarrow> store \<Rightarrow> int \<times> store" where
  "next_seq name s =
     (let key = ''seq:'' @ name;
          cur = or_default 1000 (Option.bind (kv_get key s) parse_i64);
          nxt = wrap_i64 (cur + 1)
      in (nxt, kv_set key (show_int nxt) s))"

end
