(* ===== verification/Api_Store_Laws.thy ===== *)
theory Api_Store_Laws
  imports Api_Store
begin

text \<open>
  The laws of the document store: what every operation leaves in the table, that the primary key is
  kept, and the contract of a keyed table (locale \<open>keyed_table\<close>), which both the documents and the
  key/value pairs meet. The permission and grant components rest on the contract.
\<close>

named_theorems store_simps \<open>lookups after an operation on the store\<close>

section \<open>The contract of a keyed table\<close>

locale keyed_table =
  fixes get :: "'k \<Rightarrow> 's \<Rightarrow> 'v option"
    and put :: "'k \<Rightarrow> 'v \<Rightarrow> 's \<Rightarrow> 's"
    and del :: "'k \<Rightarrow> 's \<Rightarrow> 's"
    and inv :: "'s \<Rightarrow> bool"
  assumes get_put: "inv s \<Longrightarrow> get k' (put k v s) = (if k' = k then Some v else get k' s)"
    and get_del: "inv s \<Longrightarrow> get k' (del k s) = (if k' = k then None else get k' s)"
    and inv_put: "inv s \<Longrightarrow> inv (put k v s)"
    and inv_del: "inv s \<Longrightarrow> inv (del k s)"
begin

lemma inv_del_all: "inv s \<Longrightarrow> inv (fold del ks s)"
  by (induction ks arbitrary: s) (auto intro: inv_del)

lemma get_del_all: "inv s \<Longrightarrow> get k (fold del ks s) = (if k \<in> set ks then None else get k s)"
  by (induction ks arbitrary: s) (auto simp: get_del inv_del)

text \<open>A rename: the entry moves and nothing else changes.\<close>

lemma get_move:
  assumes "inv s" and "get k s = Some v"
  shows "get k' (put k2 v (del k s)) = (if k' = k2 then Some v else if k' = k then None else get k' s)"
  using assms by (simp add: get_put get_del inv_del)

lemma get_put_all:
  "inv s \<Longrightarrow> distinct (map fst kvs) \<Longrightarrow>
     get k (fold (\<lambda>(k, v). put k v) kvs s) = (case map_of kvs k of None \<Rightarrow> get k s | Some v \<Rightarrow> Some v)"
proof (induction kvs arbitrary: s)
  case (Cons kv kvs)
  then have "map_of kvs (fst kv) = None" by (simp add: map_of_eq_None_iff)
  with Cons show ?case
    by (cases kv) (auto simp: get_put inv_put split: option.split)
qed simp

end

section \<open>Lookups\<close>

lemma find_none_ex: "(find P xs = None) = (\<not> list_ex P xs)"
  by (induction xs) auto

lemma find_some_ex: "find P xs = Some x \<Longrightarrow> list_ex P xs"
  by (induction xs) (auto split: if_splits)

lemma is_key_same: "is_key k i d \<Longrightarrow> is_key k' i' d \<longleftrightarrow> k' = k \<and> i' = i"
  by (auto simp: is_key_def)

lemma find_map_if:
  "(\<And>x. P (f x) = P x) \<Longrightarrow> find P (map f xs) = map_option f (find P xs)"
  by (induction xs) auto

lemma find_filter_not_other:
  "(\<And>x. P x \<Longrightarrow> \<not> Q x) \<Longrightarrow> find P (filter (\<lambda>x. \<not> Q x) xs) = find P xs"
  by (induction xs) auto

lemma find_filter_none: "find P (filter (\<lambda>x. \<not> P x) xs) = None"
  by (induction xs) auto

lemma is_key_upd [simp]:
  "is_key k i (d\<lparr>d_data := v, d_parent := p, d_name := n, d_updated_at := t\<rparr>) = is_key k i d"
  by (simp add: is_key_def)

lemma store_get_None: "store_get k i s = None \<longleftrightarrow> \<not> list_ex (is_key k i) (st_docs s)"
  by (simp add: store_get_def find_none_ex)

lemma store_get_key: "store_get k i s = Some d \<Longrightarrow> d_kind d = k \<and> d_id d = i"
  unfolding store_get_def by (induction "st_docs s" arbitrary: s) (auto simp: find_Some_iff is_key_def)

lemma store_get_in: "store_get k i s = Some d \<Longrightarrow> d \<in> set (st_docs s)"
  by (auto simp: store_get_def find_Some_iff)

lemma store_get_iff:
  assumes "store_inv s"
  shows "store_get k i s = Some d \<longleftrightarrow> d \<in> set (st_docs s) \<and> d_kind d = k \<and> d_id d = i"
proof -
  have "distinct (map (\<lambda>d. (d_kind d, d_id d)) (st_docs s))" using assms by (simp add: store_inv_def)
  from find_key_iff [OF this, of "(k, i)" d] show ?thesis
    by (simp add: store_get_def is_key_def [abs_def])
qed

lemma find_key_map:
  "(\<And>d. is_key k i d \<Longrightarrow> is_key k i (g d)) \<Longrightarrow>
     find (is_key k' i') (map (\<lambda>d. if is_key k i d then g d else d) xs) =
       (if k' = k \<and> i' = i then map_option g (find (is_key k i) xs) else find (is_key k' i') xs)"
proof (induction xs)
  case (Cons x xs)
  then show ?case
    by (cases "is_key k i x"; cases "is_key k' i' x") (auto simp: is_key_same dest: is_key_same)
qed simp

lemma find_key_filter:
  "find (is_key k' i') (filter (\<lambda>d. \<not> is_key k i d) xs) =
     (if k' = k \<and> i' = i then None else find (is_key k' i') xs)"
proof (induction xs)
  case (Cons x xs)
  then show ?case by (cases "is_key k i x") (auto simp: is_key_same)
qed simp

lemma get_after_insert [store_simps]:
  "store_get k' i' (snd (store_insert now k ws i p n v s)) =
     (if k' = k \<and> i' = i \<and> store_get k i s = None
      then Some \<lparr>d_id = i, d_kind = k, d_ws = ws, d_parent = p, d_name = n, d_data = v,
                 d_created_at = now, d_updated_at = now\<rparr>
      else store_get k' i' s)"
proof (cases "store_get k i s")
  case (Some d)
  then have "list_ex (is_key k i) (st_docs s)" using store_get_None [of k i s] by simp
  with Some show ?thesis by (simp add: store_insert_def)
next
  case None
  then have "\<not> list_ex (is_key k i) (st_docs s)" by (simp add: store_get_None)
  with None show ?thesis
    by (auto simp: store_insert_def store_get_def find_append is_key_def Let_def split: option.split)
qed

lemma get_after_delete [store_simps]:
  "store_get k' i' (snd (store_delete k i s)) =
     (if k' = k \<and> i' = i then None else store_get k' i' s)"
  by (simp add: store_delete_def store_get_def find_key_filter)

lemma get_after_put [store_simps]:
  "store_get k' i' (snd (store_put now k i p n v s)) =
     (if k' = k \<and> i' = i
      then map_option (\<lambda>d. d\<lparr>d_data := v, d_parent := p, d_name := n, d_updated_at := now\<rparr>) (store_get k i s)
      else store_get k' i' s)"
proof (cases "store_get k i s")
  case None
  then have "\<not> list_ex (is_key k i) (st_docs s)" by (simp add: store_get_None)
  with None show ?thesis by (simp add: store_put_def)
next
  case (Some d)
  then have "list_ex (is_key k i) (st_docs s)" using store_get_None [of k i s] by simp
  then show ?thesis by (simp add: store_put_def store_get_def find_key_map)
qed

text \<open>An upsert always succeeds; it keeps the row's workspace and creation time.\<close>

definition upserted ::
  "int \<Rightarrow> string \<Rightarrow> string \<Rightarrow> string \<Rightarrow> string option \<Rightarrow> string option \<Rightarrow> json \<Rightarrow> doc option \<Rightarrow> doc"
where
  "upserted now k ws i p n v old =
     (case old of
        None \<Rightarrow> \<lparr>d_id = i, d_kind = k, d_ws = ws, d_parent = p, d_name = n, d_data = v,
                 d_created_at = now, d_updated_at = now\<rparr>
      | Some d \<Rightarrow> d\<lparr>d_data := v, d_parent := p, d_name := n, d_updated_at := now\<rparr>)"

lemma upsert_eq:
  "store_upsert now k ws i p n v s =
     (if store_get k i s = None then (Inr (), snd (store_insert now k ws i p n v s))
      else (Inr (), snd (store_put now k i p n v s)))"
  by (auto simp: store_upsert_def store_put_def store_insert_def store_get_None err_not_found_def Let_def)

lemma upsert_ok [simp]: "fst (store_upsert now k ws i p n v s) = Inr ()"
  by (simp add: upsert_eq)

lemma get_after_upsert [store_simps]:
  "store_get k' i' (snd (store_upsert now k ws i p n v s)) =
     (if k' = k \<and> i' = i then Some (upserted now k ws i p n v (store_get k i s)) else store_get k' i' s)"
  by (auto simp: upsert_eq upserted_def store_simps)

lemma upserted_simps [simp]:
  "d_data (upserted now k ws i p n v old) = v"
  "d_name (upserted now k ws i p n v old) = n"
  "d_parent (upserted now k ws i p n v old) = p"
  "d_updated_at (upserted now k ws i p n v old) = now"
  by (simp_all add: upserted_def split: option.split)

section \<open>Other columns of the state\<close>

lemma kv_frame [simp]:
  "st_kv (snd (store_insert now k ws i p n v s)) = st_kv s"
  "st_kv (snd (store_put now k i p n v s)) = st_kv s"
  "st_kv (snd (store_upsert now k ws i p n v s)) = st_kv s"
  "st_kv (snd (store_delete k i s)) = st_kv s"
  "st_kv (snd (delete_children k pa s)) = st_kv s"
  "st_kv (snd (delete_oldest k ws num s)) = st_kv s"
  by (simp_all add: store_insert_def store_put_def upsert_eq store_delete_def delete_children_def
      delete_oldest_def Let_def)

lemma dialect_frame [simp]:
  "st_dialect (snd (store_insert now k ws i p n v s)) = st_dialect s"
  "st_dialect (snd (store_put now k i p n v s)) = st_dialect s"
  "st_dialect (snd (store_upsert now k ws i p n v s)) = st_dialect s"
  "st_dialect (snd (store_delete k i s)) = st_dialect s"
  "st_dialect (snd (delete_children k pa s)) = st_dialect s"
  "st_dialect (snd (delete_oldest k ws num s)) = st_dialect s"
  "st_dialect (kv_set key val s) = st_dialect s"
  "st_dialect (kv_delete key s) = st_dialect s"
  by (simp_all add: store_insert_def store_put_def upsert_eq store_delete_def delete_children_def
      delete_oldest_def Let_def kv_set_def kv_delete_def)

lemma docs_frame [simp]:
  "st_docs (kv_set key val s) = st_docs s" "st_docs (kv_delete key s) = st_docs s"
  by (simp_all add: kv_set_def kv_delete_def)

lemma store_get_kv [simp]:
  "store_get k i (kv_set key val s) = store_get k i s" "store_get k i (kv_delete key s) = store_get k i s"
  by (simp_all add: store_get_def)

lemma kv_get_docs [simp]:
  "kv_get key (snd (store_insert now k ws i p n v s)) = kv_get key s"
  "kv_get key (snd (store_upsert now k ws i p n v s)) = kv_get key s"
  "kv_get key (snd (store_put now k i p n v s)) = kv_get key s"
  "kv_get key (snd (store_delete k i s)) = kv_get key s"
  "kv_get key (snd (delete_children k pa s)) = kv_get key s"
  by (simp_all add: kv_get_def)

lemma kv_get_set [store_simps]: "kv_get k' (kv_set k v s) = (if k' = k then Some v else kv_get k' s)"
  by (simp add: kv_get_def kv_set_def update_conv')

lemma kv_get_delete [store_simps]: "kv_get k' (kv_delete k s) = (if k' = k then None else kv_get k' s)"
  by (simp add: kv_get_def kv_delete_def delete_conv')

section \<open>The primary key is kept\<close>

lemma inv_insert [inv_intro]: "store_inv s \<Longrightarrow> store_inv (snd (store_insert now k ws i p n v s))"
  by (auto simp: store_inv_def store_insert_def Let_def list_ex_iff is_key_def)

lemma inv_put [inv_intro]: "store_inv s \<Longrightarrow> store_inv (snd (store_put now k i p n v s))"
proof -
  assume s: "store_inv s"
  let ?f = "\<lambda>d. if is_key k i d then d\<lparr>d_data := v, d_parent := p, d_name := n, d_updated_at := now\<rparr> else d"
  have "map (\<lambda>d. (d_kind d, d_id d)) (map ?f xs) = map (\<lambda>d. (d_kind d, d_id d)) xs" for xs by simp
  with s show ?thesis by (simp add: store_inv_def store_put_def del: map_map)
qed

lemma inv_upsert [inv_intro]: "store_inv s \<Longrightarrow> store_inv (snd (store_upsert now k ws i p n v s))"
  by (simp add: upsert_eq inv_insert inv_put)

lemma inv_filter: "store_inv s \<Longrightarrow> store_inv (s\<lparr>st_docs := filter P (st_docs s)\<rparr>)"
  by (auto simp: store_inv_def distinct_map intro: inj_on_subset)

lemma inv_delete [inv_intro]: "store_inv s \<Longrightarrow> store_inv (snd (store_delete k i s))"
  by (simp add: store_delete_def inv_filter)

lemma inv_delete_children [inv_intro]: "store_inv s \<Longrightarrow> store_inv (snd (delete_children k p s))"
  by (simp add: delete_children_def Let_def inv_filter)

lemma inv_delete_oldest [inv_intro]: "store_inv s \<Longrightarrow> store_inv (snd (delete_oldest k ws n s))"
  by (simp add: delete_oldest_def Let_def inv_filter)

lemma inv_kv_set [inv_intro]: "store_inv s \<Longrightarrow> store_inv (kv_set k v s)"
  by (simp add: store_inv_def kv_set_def distinct_update)

lemma inv_kv_delete [inv_intro]: "store_inv s \<Longrightarrow> store_inv (kv_delete k s)"
  by (simp add: store_inv_def kv_delete_def distinct_delete)

section \<open>The store meets the contract\<close>

text \<open>The payload of a document: its parent, name and data.\<close>

definition doc_payload :: "string \<Rightarrow> string \<Rightarrow> store \<Rightarrow> (string option \<times> string option \<times> json) option" where
  "doc_payload k i s = map_option (\<lambda>d. (d_parent d, d_name d, d_data d)) (store_get k i s)"

interpretation documents: keyed_table
  "\<lambda>(k, i). doc_payload k i" "\<lambda>(k, i) (p, n, v) s. snd (store_upsert now k ws i p n v s)"
  "\<lambda>(k, i) s. snd (store_delete k i s)" store_inv for now ws
  by unfold_locales (simp_all add: doc_payload_def store_simps inv_upsert inv_delete split: prod.splits if_splits)

interpretation pairs: keyed_table kv_get kv_set kv_delete store_inv
  by unfold_locales (auto simp: store_simps intro: inv_intro)

section \<open>Listing\<close>

lemma set_created_order [simp]: "set (created_order ds) = set ds"
  by (simp add: created_order_def)

lemma length_created_order [simp]: "length (created_order ds) = length ds"
  by (simp add: created_order_def)

lemma set_list_subset: "set (store_list k ws f s) \<subseteq> {d \<in> set (st_docs s). row_matches (st_dialect s) k ws f d}"
  unfolding store_list_def limit_rows_def Let_def
  by (auto dest!: in_set_takeD in_set_dropD)

text \<open>Within the default limit a listing is complete.\<close>

definition within_limit :: "string \<Rightarrow> store \<Rightarrow> bool" where
  "within_limit k s \<longleftrightarrow> length (filter (\<lambda>d. d_kind d = k) (st_docs s)) \<le> 10000"

lemma length_filter_mono:
  "(\<And>x. P x \<Longrightarrow> Q x) \<Longrightarrow> length (filter P xs) \<le> length (filter Q xs)"
  by (induction xs) auto

lemma set_list_all:
  assumes "within_limit k s" and "f_limit f = None" and "f_offset f = None"
  shows "set (store_list k ws f s) = {d \<in> set (st_docs s). row_matches (st_dialect s) k ws f d}"
proof -
  let ?rows = "filter (row_matches (st_dialect s) k ws f) (st_docs s)"
  have "length ?rows \<le> length (filter (\<lambda>d. d_kind d = k) (st_docs s))"
    by (rule length_filter_mono) (simp add: row_matches_def)
  with assms(1) have "length ?rows \<le> 10000" by (simp add: within_limit_def)
  then show ?thesis using assms(2,3)
    by (auto simp: store_list_def limit_rows_def Let_def)
qed

section \<open>Sequence numbers\<close>

lemma parse_show_i64:
  assumes "- (2 ^ 63) \<le> n" and "n < 2 ^ 63"
  shows "parse_i64 (show_int n) = Some n"
proof -
  have plain: "c \<noteq> CHR ''-'' \<and> c \<noteq> CHR ''+''" if "c \<in> set (show_nat m)" for c m
    using that is_digit_show [of m] by (auto simp: list_all_iff)
  show ?thesis
  proof (cases "n < 0")
    case True
    have "nat (- n) < 2 ^ 63 + 1" using assms(1) by (simp add: nat_less_iff)
    then have "parse_uint (2 ^ 63 + 1) (show_nat (nat (- n))) = Some (nat (- n))" by (rule parse_show_uint)
    moreover have "\<not> list_ex (\<lambda>x. x = CHR ''+'') (show_nat (nat (- n)))"
      using plain by (auto simp: list_ex_iff)
    ultimately show ?thesis using True by (simp add: show_int_def parse_i64_def)
  next
    case False
    have "nat n < 2 ^ 63" using assms(2) False by (simp add: nat_less_iff)
    then have p: "parse_uint (2 ^ 63) (show_nat (nat n)) = Some (nat n)" by (rule parse_show_uint)
    obtain c cs where c: "show_nat (nat n) = c # cs" by (cases "show_nat (nat n)") auto
    have "c \<noteq> CHR ''-''" using plain [of c "nat n"] by (simp add: c)
    with p False show ?thesis by (simp add: show_int_def parse_i64_def c)
  qed
qed

end
