(* ===== verification/Api_Auth.thy ===== *)
theory Api_Auth
  imports Api_Store_Laws
begin

text \<open>
  Users, groups, tokens and authentication (\<open>lakeforge-api/src/auth.rs\<close>). The three records are
  stored as JSON documents; their codecs follow the serde attributes of the source. Hashes,
  signatures and base64 are library code and are the fields of \<open>auth_lib\<close>; random values and
  clock readings are arguments.
\<close>

section \<open>Records and their documents\<close>

definition KIND_USER :: string where "KIND_USER = ''user''"
definition KIND_GROUP :: string where "KIND_GROUP = ''group''"
definition KIND_TOKEN :: string where "KIND_TOKEN = ''token''"
definition ADMINS_GROUP :: string where "ADMINS_GROUP = ''admins''"
definition USERS_GROUP :: string where "USERS_GROUP = ''users''"

lemmas kind_defs = KIND_USER_def KIND_GROUP_def KIND_TOKEN_def

definition workspace_id :: string where "workspace_id = ''default''"

record user =
  u_user_name :: string
  u_display_name :: string
  u_password_hash :: "string option"
  u_active :: bool
  u_groups :: "string list"
  u_application_id :: "string option"
  u_entitlements :: "string list"

record group =
  g_display_name :: string
  g_members :: "string list"
  g_entitlements :: "string list"

record token =
  t_token_id :: string
  t_comment :: string
  t_created_by_id :: string
  t_created_by_username :: string
  t_creation_time :: int
  t_expiry_time :: int
  t_hash :: string
  t_owner_id :: string

record principal =
  p_user_id :: string
  p_user_name :: string
  p_is_admin :: bool
  p_groups :: "string list"

definition j_field :: "json \<Rightarrow> string \<Rightarrow> json option" where
  "j_field v k = (case v of JObj m \<Rightarrow> map_of m k | _ \<Rightarrow> None)"

lemma j_field_jobj: "j_field (jobj kvs) k = map_of (rev kvs) k"
  by (simp add: j_field_def jobj_def map_of_fold_bt split: option.split)

definition field_with :: "(json \<Rightarrow> 'a option) \<Rightarrow> 'a option \<Rightarrow> json \<Rightarrow> string \<Rightarrow> 'a option" where
  "field_with f dflt v k = (case j_field v k of None \<Rightarrow> dflt | Some x \<Rightarrow> f x)"

fun opt_str :: "json \<Rightarrow> string option option" where
  "opt_str JNull = Some None"
| "opt_str (JStr s) = Some (Some s)"
| "opt_str _ = None"

fun all_some :: "'a option list \<Rightarrow> 'a list option" where
  "all_some [] = Some []"
| "all_some (None # xs) = None"
| "all_some (Some x # xs) = map_option ((#) x) (all_some xs)"

definition strs_of :: "json \<Rightarrow> string list option" where
  "strs_of v = Option.bind (as_array v) (\<lambda>xs. all_some (map as_str xs))"

definition user_to_json :: "user \<Rightarrow> json" where
  "user_to_json u = jobj
     [(''user_name'', JStr (u_user_name u)), (''display_name'', JStr (u_display_name u)),
      (''password_hash'', jstr_opt (u_password_hash u)), (''active'', JBool (u_active u)),
      (''groups'', jstrs (u_groups u)), (''application_id'', jstr_opt (u_application_id u)),
      (''entitlements'', jstrs (u_entitlements u))]"

definition user_of_json :: "json \<Rightarrow> user option" where
  "user_of_json v =
     Option.bind (field_with as_str None v ''user_name'') (\<lambda>n.
     Option.bind (field_with as_str (Some []) v ''display_name'') (\<lambda>dn.
     Option.bind (field_with opt_str (Some None) v ''password_hash'') (\<lambda>ph.
     Option.bind (field_with as_bool (Some True) v ''active'') (\<lambda>a.
     Option.bind (field_with strs_of (Some []) v ''groups'') (\<lambda>gs.
     Option.bind (field_with opt_str (Some None) v ''application_id'') (\<lambda>ai.
     Option.bind (field_with strs_of (Some []) v ''entitlements'') (\<lambda>es.
       Some \<lparr>u_user_name = n, u_display_name = dn, u_password_hash = ph, u_active = a, u_groups = gs,
             u_application_id = ai, u_entitlements = es\<rparr>)))))))"

definition group_to_json :: "group \<Rightarrow> json" where
  "group_to_json g = jobj
     [(''display_name'', JStr (g_display_name g)), (''members'', jstrs (g_members g)),
      (''entitlements'', jstrs (g_entitlements g))]"

definition group_of_json :: "json \<Rightarrow> group option" where
  "group_of_json v =
     Option.bind (field_with as_str None v ''display_name'') (\<lambda>n.
     Option.bind (field_with strs_of (Some []) v ''members'') (\<lambda>ms.
     Option.bind (field_with strs_of (Some []) v ''entitlements'') (\<lambda>es.
       Some \<lparr>g_display_name = n, g_members = ms, g_entitlements = es\<rparr>)))"

definition token_to_json :: "token \<Rightarrow> json" where
  "token_to_json t = jobj
     [(''token_id'', JStr (t_token_id t)), (''comment'', JStr (t_comment t)),
      (''created_by_id'', JStr (t_created_by_id t)), (''created_by_username'', JStr (t_created_by_username t)),
      (''creation_time'', JInt (t_creation_time t)), (''expiry_time'', JInt (t_expiry_time t)),
      (''hash'', JStr (t_hash t)), (''owner_id'', JStr (t_owner_id t))]"

definition token_of_json :: "json \<Rightarrow> token option" where
  "token_of_json v =
     Option.bind (field_with as_str None v ''token_id'') (\<lambda>i.
     Option.bind (field_with as_str None v ''comment'') (\<lambda>c.
     Option.bind (field_with as_str None v ''created_by_id'') (\<lambda>ci.
     Option.bind (field_with as_str None v ''created_by_username'') (\<lambda>cu.
     Option.bind (field_with as_int None v ''creation_time'') (\<lambda>ct.
     Option.bind (field_with as_int None v ''expiry_time'') (\<lambda>et.
     Option.bind (field_with as_str None v ''hash'') (\<lambda>h.
     Option.bind (field_with as_str (Some []) v ''owner_id'') (\<lambda>oi.
       Some \<lparr>t_token_id = i, t_comment = c, t_created_by_id = ci, t_created_by_username = cu,
             t_creation_time = ct, t_expiry_time = et, t_hash = h, t_owner_id = oi\<rparr>))))))))"

text \<open>\<open>row_to_doc::<T>\<close>: a document whose data does not decode is corrupt.\<close>

definition decode_doc :: "(json \<Rightarrow> 'a option) \<Rightarrow> doc \<Rightarrow> api_error + doc \<times> 'a" where
  "decode_doc dec d = ok_or (InternalError ''corrupt document: '') (map_option (Pair d) (dec (d_data d)))"

definition decode_opt :: "(json \<Rightarrow> 'a option) \<Rightarrow> doc option \<Rightarrow> api_error + (doc \<times> 'a) option" where
  "decode_opt dec o' =
     (case o' of None \<Rightarrow> Inr None
      | Some d \<Rightarrow> (case decode_doc dec d of Inl e \<Rightarrow> Inl e | Inr x \<Rightarrow> Inr (Some x)))"

definition require_as :: "(json \<Rightarrow> 'a option) \<Rightarrow> string \<Rightarrow> string \<Rightarrow> string \<Rightarrow> store \<Rightarrow> api_error + doc \<times> 'a" where
  "require_as dec k i what s =
     (case decode_opt dec (store_get k i s) of
        Inl e \<Rightarrow> Inl e | Inr None \<Rightarrow> Inl (err_not_found what i) | Inr (Some x) \<Rightarrow> Inr x)"

definition list_as :: "(json \<Rightarrow> 'a option) \<Rightarrow> string \<Rightarrow> store_filter \<Rightarrow> store \<Rightarrow> api_error + (doc \<times> 'a) list" where
  "list_as dec k f s = try_map (decode_doc dec) (store_list k workspace_id f s)"

section \<open>Principals\<close>

definition require_admin :: "principal \<Rightarrow> api_error + unit" where
  "require_admin p =
     (if p_is_admin p then Inr ()
      else Inl (PermissionDenied ''This operation requires workspace admin privileges.''))"

definition user_by_name :: "string \<Rightarrow> store \<Rightarrow> api_error + (doc \<times> user) option" where
  "user_by_name name s = decode_opt user_of_json (find_by_name KIND_USER workspace_id None name s)"

definition add_group :: "string \<Rightarrow> doc \<times> group \<Rightarrow> string list \<Rightarrow> string list" where
  "add_group uid g gs =
     (if uid \<in> set (g_members (snd g)) \<and> g_display_name (snd g) \<notin> set gs
      then gs @ [g_display_name (snd g)] else gs)"

definition principal_for_user :: "doc \<times> user \<Rightarrow> store \<Rightarrow> api_error + principal" where
  "principal_for_user du s =
     (if \<not> u_active (snd du) then Inl (Unauthenticated ''User is deactivated.'')
      else try_then (list_as group_of_json KIND_GROUP default_filter s) (\<lambda>all.
        let gs = fold (add_group (d_id (fst du))) all (u_groups (snd du))
        in Inr \<lparr>p_user_id = d_id (fst du), p_user_name = u_user_name (snd du),
                p_is_admin = ADMINS_GROUP \<in> set gs, p_groups = gs\<rparr>))"

definition ok_principal :: "string \<Rightarrow> store \<Rightarrow> principal option" where
  "ok_principal name s =
     (case user_by_name name s of
        Inr (Some du) \<Rightarrow> (case principal_for_user du s of Inr p \<Rightarrow> Some p | Inl _ \<Rightarrow> None)
      | _ \<Rightarrow> None)"

definition system_principal :: "string \<Rightarrow> string \<Rightarrow> store \<Rightarrow> principal" where
  "system_principal admin_user user_name s =
     (case ok_principal user_name s of
        Some p \<Rightarrow> p
      | None \<Rightarrow> (case ok_principal admin_user s of
          Some p \<Rightarrow> p
        | None \<Rightarrow> \<lparr>p_user_id = ''system'', p_user_name = ''system'', p_is_admin = True,
                   p_groups = [ADMINS_GROUP]\<rparr>))"

definition admin_principal :: "string \<Rightarrow> store \<Rightarrow> api_error + principal" where
  "admin_principal admin_user s =
     try_then (user_by_name admin_user s) (\<lambda>o'.
     try_then (ok_or (InternalError ''admin user missing'') o') (\<lambda>du. principal_for_user du s))"

section \<open>Authentication\<close>

record auth_lib =
  l_verify_password :: "string \<Rightarrow> string \<Rightarrow> bool"
  l_hash_token :: "string \<Rightarrow> string"
  l_verify_jwt :: "string \<Rightarrow> string option"
  l_base64_decode :: "string \<Rightarrow> string option"

definition authenticate_password :: "auth_lib \<Rightarrow> string \<Rightarrow> string \<Rightarrow> store \<Rightarrow> api_error + principal" where
  "authenticate_password lib user_name password s =
     try_then (user_by_name user_name s) (\<lambda>o'.
     try_then (ok_or (Unauthenticated ''Invalid credentials.'') o') (\<lambda>du.
       if (case u_password_hash (snd du) of None \<Rightarrow> False | Some h \<Rightarrow> l_verify_password lib password h)
       then principal_for_user du s
       else Inl (Unauthenticated ''Invalid credentials.'')))"

definition authenticate_bearer :: "auth_lib \<Rightarrow> int \<Rightarrow> string \<Rightarrow> store \<Rightarrow> api_error + principal" where
  "authenticate_bearer lib now tok s =
     (if starts_with tok ''dapi'' then
        try_then (decode_opt token_of_json (find_by_name KIND_TOKEN workspace_id None (l_hash_token lib tok) s)) (\<lambda>o'.
        try_then (ok_or (Unauthenticated ''Invalid access token.'') o') (\<lambda>dt.
          if 0 < t_expiry_time (snd dt) \<and> t_expiry_time (snd dt) < now
          then Inl (Unauthenticated ''Access token expired.'')
          else try_then (require_as user_of_json KIND_USER (t_owner_id (snd dt)) ''User'' s) (\<lambda>du.
            principal_for_user du s)))
      else
        try_then (ok_or (Unauthenticated ''Invalid or expired session.'') (l_verify_jwt lib tok)) (\<lambda>uid.
        try_then (require_as user_of_json KIND_USER uid ''User'' s) (\<lambda>du. principal_for_user du s)))"

text \<open>\<open>value\<close> and \<open>uuid\<close> are fresh random strings.\<close>

definition create_token ::
  "auth_lib \<Rightarrow> string \<Rightarrow> string \<Rightarrow> int \<Rightarrow> int \<Rightarrow> principal \<Rightarrow> string \<Rightarrow> int option \<Rightarrow> store
     \<Rightarrow> (api_error + string \<times> token) \<times> store"
where
  "create_token lib val uuid now now' p comment lifetime s =
     (let tok = \<lparr>t_token_id = uuid, t_comment = comment, t_created_by_id = p_user_id p,
           t_created_by_username = p_user_name p, t_creation_time = now,
           t_expiry_time = (case lifetime of None \<Rightarrow> -1 | Some l \<Rightarrow> if 0 < l then wrap_i64 (now + wrap_i64 (l * 1000)) else -1),
           t_hash = l_hash_token lib val, t_owner_id = p_user_id p\<rparr>
      in case store_insert now' KIND_TOKEN workspace_id uuid None (Some (t_hash tok)) (token_to_json tok) s of
           (Inl e, s') \<Rightarrow> (Inl e, s')
         | (Inr _, s') \<Rightarrow> (Inr (val, tok), s'))"

definition default_entitlements :: "string list" where
  "default_entitlements = [''workspace-access'', ''databricks-sql-access'', ''allow-cluster-create'']"

definition ensure_group :: "int \<Rightarrow> string \<times> string \<Rightarrow> store \<Rightarrow> (api_error + unit) \<times> store" where
  "ensure_group now ni s =
     (case decode_opt group_of_json (store_get KIND_GROUP (snd ni) s) of
        Inl e \<Rightarrow> (Inl e, s)
      | Inr (Some _) \<Rightarrow> (Inr (), s)
      | Inr None \<Rightarrow>
          (case store_insert now KIND_GROUP workspace_id (snd ni) None (Some (fst ni))
                  (group_to_json \<lparr>g_display_name = fst ni, g_members = [], g_entitlements = default_entitlements\<rparr>) s of
             (Inl e, s') \<Rightarrow> (Inl e, s')
           | (Inr _, s') \<Rightarrow> (Inr (), s')))"

text \<open>\<open>password_hash\<close> is the salted hash of the configured password.\<close>

definition ensure_admin :: "int \<Rightarrow> string \<Rightarrow> string \<Rightarrow> string \<Rightarrow> store \<Rightarrow> (api_error + unit) \<times> store" where
  "ensure_admin now uuid admin_user password_hash s =
     (case list_as user_of_json KIND_USER (default_filter\<lparr>f_limit := Some 1\<rparr>) s of
        Inl e \<Rightarrow> (Inl e, s)
      | Inr (_ # _) \<Rightarrow> (Inr (), s)
      | Inr [] \<Rightarrow>
          (case store_insert now KIND_USER workspace_id uuid None (Some admin_user)
                  (user_to_json \<lparr>u_user_name = admin_user, u_display_name = ''Workspace Admin'',
                     u_password_hash = Some password_hash, u_active = True,
                     u_groups = [ADMINS_GROUP, USERS_GROUP], u_application_id = None,
                     u_entitlements = default_entitlements\<rparr>) s of
             (Inl e, s') \<Rightarrow> (Inl e, s')
           | (Inr _, s') \<Rightarrow> (Inr (), s')))"

definition bootstrap_auth :: "int \<Rightarrow> string \<Rightarrow> string \<Rightarrow> string \<Rightarrow> store \<Rightarrow> (api_error + unit) \<times> store" where
  "bootstrap_auth now uuid admin_user password_hash s =
     (case ensure_group now (ADMINS_GROUP, ''group-admins'') s of
        (Inl e, s1) \<Rightarrow> (Inl e, s1)
      | (Inr _, s1) \<Rightarrow> (case ensure_group now (USERS_GROUP, ''group-users'') s1 of
          (Inl e, s2) \<Rightarrow> (Inl e, s2)
        | (Inr _, s2) \<Rightarrow> ensure_admin now uuid admin_user password_hash s2))"

section \<open>Requests\<close>

definition is_public :: "string \<Rightarrow> bool" where
  "is_public path \<longleftrightarrow>
     path = ''/health'' \<or> path = ''/api/2.0/auth/login'' \<or> path = ''/api/2.0/lakeforge/login'' \<or>
     path = ''/api/2.0/lakeforge/info'' \<or> \<not> starts_with path ''/api/''"

definition first_some :: "('a \<Rightarrow> 'b option) \<Rightarrow> 'a list \<Rightarrow> 'b option" where
  "first_some f xs = (case find (\<lambda>x. f x \<noteq> None) xs of None \<Rightarrow> None | Some x \<Rightarrow> f x)"

definition cookie_token :: "string option \<Rightarrow> string option" where
  "cookie_token cookies =
     Option.bind cookies (\<lambda>cs.
       map_option (\<lambda>v. ''Bearer '' @ v)
         (first_some (\<lambda>c. strip_prefix c ''lakeforge_session='') (map trim (split_on (CHR '';'') cs))))"

definition split_once :: "char \<Rightarrow> string \<Rightarrow> (string \<times> string) option" where
  "split_once c s =
     (if c \<in> set s then Some (takeWhile (\<lambda>x. x \<noteq> c) s, tl (dropWhile (\<lambda>x. x \<noteq> c) s)) else None)"

definition or_else :: "'a option \<Rightarrow> 'a option \<Rightarrow> 'a option" where
  "or_else a b = (case a of None \<Rightarrow> b | Some x \<Rightarrow> Some x)"

text \<open>
  The middleware: \<open>Inr None\<close> lets a public request through without a principal, \<open>Inr (Some p)\<close> runs
  the request as \<open>p\<close>. \<open>hdr\<close> and \<open>cookies\<close> are the \<open>Authorization\<close> and \<open>Cookie\<close> headers, where they
  are readable text.
\<close>

definition authenticate_header :: "auth_lib \<Rightarrow> int \<Rightarrow> string \<Rightarrow> store \<Rightarrow> api_error + principal" where
  "authenticate_header lib now hdr s =
     (case or_else (strip_prefix hdr ''Bearer '') (strip_prefix hdr ''bearer '') of
        Some tok \<Rightarrow> authenticate_bearer lib now (trim tok) s
      | None \<Rightarrow> (case strip_prefix hdr ''Basic '' of
          Some b64 \<Rightarrow>
            try_then (ok_or (Unauthenticated ''Malformed basic auth.'') (l_base64_decode lib (trim b64))) (\<lambda>raw.
            try_then (ok_or (Unauthenticated ''Malformed basic auth.'') (split_once (CHR '':'') raw)) (\<lambda>(u, p).
              if u = ''token'' then authenticate_bearer lib now p s else authenticate_password lib u p s))
        | None \<Rightarrow> Inl (Unauthenticated ''Unsupported Authorization scheme.'')))"

definition auth_middleware ::
  "auth_lib \<Rightarrow> int \<Rightarrow> string \<Rightarrow> string option \<Rightarrow> string option \<Rightarrow> store \<Rightarrow> api_error + principal option"
where
  "auth_middleware lib now path hdr cookies s =
     (if is_public path then Inr None
      else case or_else hdr (cookie_token cookies) of
        None \<Rightarrow> Inl (Unauthenticated ''Missing Authorization header.'')
      | Some h \<Rightarrow> (case authenticate_header lib now h s of Inl e \<Rightarrow> Inl e | Inr p \<Rightarrow> Inr (Some p)))"

end
