(* ===== verification/Api_Auth_Theorems.thy ===== *)
theory Api_Auth_Theorems
  imports Api_Auth
begin

text \<open>
  What authentication guarantees: the codecs of users, groups and tokens round trip; a principal is
  only ever issued for an active stored user, with exactly the groups the store records; a token
  authenticates its owner until it expires.
\<close>

section \<open>Codecs\<close>

lemma all_some_map [simp]: "all_some (map Some xs) = Some xs"
  by (induction xs) auto

lemma strs_of_jstrs [simp]: "strs_of (jstrs ss) = Some ss"
  by (simp add: strs_of_def jstrs_def o_def)

lemma opt_str_jstr [simp]: "opt_str (jstr_opt x) = Some x"
  by (cases x) (simp_all add: jstr_opt_def)

lemma user_codec [simp]: "user_of_json (user_to_json u) = Some u"
  by (cases u) (simp add: user_of_json_def user_to_json_def field_with_def j_field_jobj)

lemma group_codec [simp]: "group_of_json (group_to_json g) = Some g"
  by (cases g) (simp add: group_of_json_def group_to_json_def field_with_def j_field_jobj)

lemma token_codec [simp]: "token_of_json (token_to_json t) = Some t"
  by (cases t) (simp add: token_of_json_def token_to_json_def field_with_def j_field_jobj)

section \<open>Principals come from active users\<close>

definition groups_of :: "string \<Rightarrow> user \<Rightarrow> (doc \<times> group) list \<Rightarrow> string set" where
  "groups_of uid u all = set (u_groups u) \<union> {g_display_name (snd g) |g. g \<in> set all \<and> uid \<in> set (g_members (snd g))}"

lemma set_add_groups:
  "set (fold (add_group uid) all gs) =
     set gs \<union> {g_display_name (snd g) |g. g \<in> set all \<and> uid \<in> set (g_members (snd g))}"
proof (induction all arbitrary: gs)
  case (Cons g all)
  have "{f g' |g'. g' \<in> set (g # all) \<and> P g'} = (if P g then {f g} else {}) \<union> {f g' |g'. g' \<in> set all \<and> P g'}"
    for f :: "doc \<times> group \<Rightarrow> string" and P by (auto split: if_splits simp del: split_paired_Ex)
  from this [of "\<lambda>g. g_display_name (snd g)" "\<lambda>g. uid \<in> set (g_members (snd g))"] show ?case
    by (simp only: fold.simps o_apply Cons.IH) (simp add: add_group_def insert_absorb)
qed simp

lemma principal_for_user_Inr:
  "principal_for_user du s = Inr p \<longleftrightarrow>
     u_active (snd du) \<and> (\<exists>all. list_as group_of_json KIND_GROUP default_filter s = Inr all \<and>
       p = \<lparr>p_user_id = d_id (fst du), p_user_name = u_user_name (snd du),
            p_is_admin = ADMINS_GROUP \<in> set (fold (add_group (d_id (fst du))) all (u_groups (snd du))),
            p_groups = fold (add_group (d_id (fst du))) all (u_groups (snd du))\<rparr>)"
  by (auto simp: principal_for_user_def try_then_Inr Let_def)

lemma decode_opt_Some: "decode_opt dec o' = Inr (Some (d, x)) \<longleftrightarrow> o' = Some d \<and> dec (d_data d) = Some x"
  by (cases o') (auto simp: decode_opt_def decode_doc_def split: sum.splits)

lemma require_as_Inr:
  "require_as dec k i what s = Inr (d, x) \<longleftrightarrow> store_get k i s = Some d \<and> dec (d_data d) = Some x"
  by (cases "store_get k i s") (auto simp: require_as_def decode_opt_def decode_doc_def ok_or_def
      split: sum.splits option.splits)

lemma find_by_name_in:
  "find_by_name k ws p n s = Some d \<Longrightarrow> d \<in> set (st_docs s) \<and> d_kind d = k \<and> d_name d = Some n"
  by (auto simp: find_by_name_def find_Some_iff)

definition stored_user :: "doc \<Rightarrow> user \<Rightarrow> store \<Rightarrow> bool" where
  "stored_user d u s \<longleftrightarrow> d \<in> set (st_docs s) \<and> d_kind d = KIND_USER \<and> user_of_json (d_data d) = Some u"

lemma stored_user_required: "require_as user_of_json KIND_USER i what s = Inr (d, u) \<Longrightarrow> stored_user d u s"
  by (auto simp: require_as_Inr stored_user_def dest: store_get_in store_get_key)

lemma stored_user_named: "user_by_name n s = Inr (Some (d, u)) \<Longrightarrow> stored_user d u s"
  by (auto simp: user_by_name_def decode_opt_Some stored_user_def dest: find_by_name_in)

definition issued_for_user :: "principal \<Rightarrow> store \<Rightarrow> bool" where
  "issued_for_user p s \<longleftrightarrow>
     (\<exists>d u. stored_user d u s \<and> principal_for_user (d, u) s = Inr p)"

lemma bearer_issued: "authenticate_bearer lib now tok s = Inr p \<Longrightarrow> issued_for_user p s"
  by (auto simp: authenticate_bearer_def issued_for_user_def try_then_Inr dest!: stored_user_required
      split: if_splits)

lemma password_issued: "authenticate_password lib u pw s = Inr p \<Longrightarrow> issued_for_user p s"
  by (auto simp: authenticate_password_def issued_for_user_def try_then_Inr dest!: stored_user_named
      split: if_splits)

lemma header_issued: "authenticate_header lib now h s = Inr p \<Longrightarrow> issued_for_user p s"
  by (auto simp: authenticate_header_def try_then_Inr split: option.splits if_splits
      dest: bearer_issued password_issued)

lemma issued_facts:
  assumes "issued_for_user p s"
  shows "\<exists>d u all. stored_user d u s \<and> u_active u \<and> p_user_id p = d_id d \<and> p_user_name p = u_user_name u \<and>
     list_as group_of_json KIND_GROUP default_filter s = Inr all \<and>
     set (p_groups p) = groups_of (d_id d) u all \<and> p_is_admin p = (ADMINS_GROUP \<in> set (p_groups p))"
proof -
  obtain d u where d: "stored_user d u s" and p: "principal_for_user (d, u) s = Inr p"
    using assms by (auto simp: issued_for_user_def)
  then show ?thesis
    by (auto simp: principal_for_user_Inr groups_of_def set_add_groups intro!: exI [of _ d] exI [of _ u])
qed

text \<open>C31: A request to a path that is not public runs only as a principal of a stored, active user,
  whose groups are exactly the ones of the user's document and of the group documents listing the
  user as a member, and who is an administrator exactly when that includes \<open>admins\<close>; a request
  without a principal only reaches public paths.\<close>

theorem middleware_sound:
  assumes "auth_middleware lib now path hdr cookies s = Inr r"
  shows "case r of
      None \<Rightarrow> is_public path
    | Some p \<Rightarrow> (\<exists>d u all. stored_user d u s \<and> u_active u \<and> p_user_id p = d_id d \<and>
        p_user_name p = u_user_name u \<and> list_as group_of_json KIND_GROUP default_filter s = Inr all \<and>
        set (p_groups p) = groups_of (d_id d) u all \<and> p_is_admin p = (ADMINS_GROUP \<in> set (p_groups p)))"
proof (cases r)
  case None
  with assms show ?thesis by (auto simp: auth_middleware_def split: if_splits option.splits sum.splits)
next
  case (Some p)
  with assms have "issued_for_user p s"
    by (auto simp: auth_middleware_def split: if_splits option.splits sum.splits dest: header_issued)
  from issued_facts [OF this] Some show ?thesis by simp
qed

section \<open>Tokens\<close>

text \<open>No other token document carries the hash.\<close>

definition fresh_hash :: "string \<Rightarrow> store \<Rightarrow> bool" where
  "fresh_hash h s \<longleftrightarrow> list_all (\<lambda>d. \<not> (d_kind d = KIND_TOKEN \<and> d_name d = Some h)) (st_docs s)"

lemma create_token_row:
  assumes "create_token lib val uuid now now' p comment lt s = (Inr (v, tok), s')"
  shows "v = val \<and> t_hash tok = l_hash_token lib val \<and> t_owner_id tok = p_user_id p \<and>
    st_docs s' = st_docs s @ [\<lparr>d_id = uuid, d_kind = KIND_TOKEN, d_ws = workspace_id, d_parent = None,
      d_name = Some (l_hash_token lib val), d_data = token_to_json tok, d_created_at = now', d_updated_at = now'\<rparr>]"
  using assms
  by (auto simp: create_token_def store_insert_def Let_def split: if_splits prod.splits sum.splits)

lemma find_fresh_name:
  assumes "fresh_hash h s" and "st_docs s' = st_docs s @ [d]"
    and "d_kind d = KIND_TOKEN" and "d_name d = Some h" and "d_ws d = workspace_id" and "d_parent d = None"
  shows "find_by_name KIND_TOKEN workspace_id None h s' = Some d"
proof -
  have "find (\<lambda>d. d_kind d = KIND_TOKEN \<and> d_ws d = workspace_id \<and> d_name d = Some h \<and> d_parent d = None)
      (st_docs s) = None"
    using assms(1) by (auto simp: fresh_hash_def find_None_iff list_all_iff)
  with assms show ?thesis by (simp add: find_by_name_def find_append)
qed

lemma list_other_kind:
  assumes "st_docs s' = st_docs s @ [d]" and "st_dialect s' = st_dialect s" and "d_kind d \<noteq> k"
  shows "store_list k ws f s' = store_list k ws f s"
  using assms by (simp add: store_list_def row_matches_def)

lemma get_other_kind:
  assumes "st_docs s' = st_docs s @ [d]" and "d_kind d \<noteq> k"
  shows "store_get k i s' = store_get k i s"
  using assms by (simp add: store_get_def find_append is_key_def split: option.split)

lemma kind_distinct [simp]:
  "KIND_TOKEN \<noteq> KIND_GROUP" "KIND_TOKEN \<noteq> KIND_USER" "KIND_USER \<noteq> KIND_GROUP"
  by (simp_all add: kind_defs)

lemma principal_frame:
  assumes "st_docs s' = st_docs s @ [d]" and "st_dialect s' = st_dialect s" and "d_kind d = KIND_TOKEN"
  shows "principal_for_user du s' = principal_for_user du s"
    and "require_as user_of_json KIND_USER i w s' = require_as user_of_json KIND_USER i w s"
  using list_other_kind [OF assms(1,2), of KIND_GROUP] get_other_kind [OF assms(1), of KIND_USER i] assms(3)
  by (simp_all add: principal_for_user_def list_as_def require_as_def)

text \<open>A created token authenticates exactly its owner: presented before its expiry it gives what
  the owner's user document gives, and after its expiry it is refused.\<close>

theorem token_roundtrip:
  assumes create: "create_token lib val uuid now now' p comment lt s = (Inr (v, tok), s')"
    and dapi: "starts_with val ''dapi''"
    and fresh: "fresh_hash (l_hash_token lib val) s"
  shows "authenticate_bearer lib later v s' =
    (if 0 < t_expiry_time tok \<and> t_expiry_time tok < later then Inl (Unauthenticated ''Access token expired.'')
     else try_then (require_as user_of_json KIND_USER (p_user_id p) ''User'' s) (\<lambda>du. principal_for_user du s))"
proof -
  note row = create_token_row [OF create]
  let ?d = "\<lparr>d_id = uuid, d_kind = KIND_TOKEN, d_ws = workspace_id, d_parent = None,
      d_name = Some (l_hash_token lib val), d_data = token_to_json tok, d_created_at = now', d_updated_at = now'\<rparr>"
  have docs: "st_docs s' = st_docs s @ [?d]" using row by blast
  have dia: "st_dialect s' = st_dialect s"
    using create by (auto simp: create_token_def store_insert_def Let_def split: if_splits prod.splits sum.splits)
  have "find_by_name KIND_TOKEN workspace_id None (l_hash_token lib val) s' = Some ?d"
    by (rule find_fresh_name [OF fresh docs]) simp_all
  then show ?thesis
    using row dapi principal_frame [OF docs dia]
    by (simp add: authenticate_bearer_def decode_opt_def decode_doc_def)
qed

section \<open>Witnesses\<close>

definition sample_user :: user where
  "sample_user = \<lparr>u_user_name = ''ann'', u_display_name = ''Ann'', u_password_hash = Some ''h'', u_active = True,
     u_groups = [''users''], u_application_id = None, u_entitlements = []\<rparr>"

definition sample_group :: group where
  "sample_group = \<lparr>g_display_name = ''admins'', g_members = [''u1''], g_entitlements = []\<rparr>"

definition sample_store :: store where
  "sample_store = \<lparr>st_dialect = Sqlite, st_docs =
     [\<lparr>d_id = ''u1'', d_kind = KIND_USER, d_ws = workspace_id, d_parent = None, d_name = Some ''ann'',
       d_data = user_to_json sample_user, d_created_at = 1, d_updated_at = 1\<rparr>,
      \<lparr>d_id = ''g1'', d_kind = KIND_GROUP, d_ws = workspace_id, d_parent = None, d_name = Some ''admins'',
       d_data = group_to_json sample_group, d_created_at = 1, d_updated_at = 1\<rparr>], st_kv = []\<rparr>"

definition sample_lib :: auth_lib where
  "sample_lib = \<lparr>l_verify_password = (\<lambda>p h. p = ''pw'' \<and> h = ''h''), l_hash_token = (\<lambda>t. t),
     l_verify_jwt = (\<lambda>t. None), l_base64_decode = (\<lambda>t. Some t)\<rparr>"

definition sample_principal :: principal where
  "sample_principal = \<lparr>p_user_id = ''u1'', p_user_name = ''ann'', p_is_admin = True, p_groups = [''users'', ''admins'']\<rparr>"

lemma middleware_sample:
  "auth_middleware sample_lib 5 ''/api/2.0/jobs/list'' (Some ''Basic ann:pw'') None sample_store =
     Inr (Some sample_principal)"
  by code_simp

theorem middleware_sound_witness:
  "\<exists>d u all. stored_user d u sample_store \<and> u_active u \<and> p_user_id sample_principal = d_id d \<and>
     p_user_name sample_principal = u_user_name u \<and>
     list_as group_of_json KIND_GROUP default_filter sample_store = Inr all \<and>
     set (p_groups sample_principal) = groups_of (d_id d) u all \<and>
     p_is_admin sample_principal = (ADMINS_GROUP \<in> set (p_groups sample_principal))"
  using middleware_sound [OF middleware_sample] by simp

definition sample_token :: token where
  "sample_token = \<lparr>t_token_id = ''t1'', t_comment = [], t_created_by_id = ''u1'',
     t_created_by_username = ''ann'', t_creation_time = 2, t_expiry_time = -1, t_hash = ''dapi7'', t_owner_id = ''u1''\<rparr>"

lemma create_token_sample:
  "create_token sample_lib ''dapi7'' ''t1'' 2 2 sample_principal [] None sample_store =
     (Inr (''dapi7'', sample_token), snd (create_token sample_lib ''dapi7'' ''t1'' 2 2 sample_principal [] None sample_store))"
  by (simp add: create_token_def Let_def store_insert_def sample_store_def is_key_def sample_lib_def
      sample_principal_def sample_token_def KIND_TOKEN_def KIND_USER_def KIND_GROUP_def)

lemma principal_sample:
  "try_then (require_as user_of_json KIND_USER (p_user_id sample_principal) ''User'' sample_store)
     (\<lambda>du. principal_for_user du sample_store) = Inr sample_principal"
  by code_simp

theorem token_roundtrip_witness:
  "authenticate_bearer sample_lib 99 ''dapi7''
     (snd (create_token sample_lib ''dapi7'' ''t1'' 2 2 sample_principal [] None sample_store)) =
   Inr sample_principal"
proof -
  have "starts_with ''dapi7'' ''dapi''" by code_simp
  moreover have "fresh_hash (l_hash_token sample_lib ''dapi7'') sample_store" by code_simp
  ultimately show ?thesis
    using token_roundtrip [OF create_token_sample, of 99] principal_sample by (simp add: sample_token_def)
qed

end
