(* ===== verification/Uc_Privileges.thy ===== *)
theory Uc_Privileges
  imports Api_Auth
begin

text \<open>
  The Unity Catalog privilege model (\<open>lakeforge-api/src/uc/privileges.rs\<close>): securables and their
  lineage, grants stored one document per securable, the per-request authorizer with its two caches,
  and the operations that change grants. The configuration's admin user and the store are the
  fields of \<open>app_state\<close>.
\<close>

section \<open>Names\<close>

definition KIND_CATALOG :: string where "KIND_CATALOG = ''uc_catalog''"
definition KIND_SCHEMA :: string where "KIND_SCHEMA = ''uc_schema''"
definition KIND_TABLE :: string where "KIND_TABLE = ''uc_table''"
definition KIND_VOLUME :: string where "KIND_VOLUME = ''uc_volume''"
definition KIND_FUNCTION :: string where "KIND_FUNCTION = ''uc_function''"
definition KIND_EXT_LOCATION :: string where "KIND_EXT_LOCATION = ''uc_external_location''"
definition KIND_STORAGE_CRED :: string where "KIND_STORAGE_CRED = ''uc_storage_credential''"
definition KIND_CONNECTION :: string where "KIND_CONNECTION = ''uc_connection''"
definition KIND_GRANTS :: string where "KIND_GRANTS = ''uc_grants''"
definition METASTORE_ID :: string where "METASTORE_ID = ''lakeforge-metastore''"
definition UC_DEFAULT_CATALOG :: string where "UC_DEFAULT_CATALOG = ''main''"
definition KIND_SHARE :: string where "KIND_SHARE = ''uc_share''"
definition KIND_RECIPIENT :: string where "KIND_RECIPIENT = ''uc_recipient''"
definition KIND_PROVIDER :: string where "KIND_PROVIDER = ''uc_provider''"
definition ACCOUNT_USERS :: string where "ACCOUNT_USERS = ''account users''"

lemmas uc_kind_defs = KIND_CATALOG_def KIND_SCHEMA_def KIND_TABLE_def KIND_VOLUME_def KIND_FUNCTION_def
  KIND_EXT_LOCATION_def KIND_STORAGE_CRED_def KIND_CONNECTION_def KIND_GRANTS_def KIND_SHARE_def
  KIND_RECIPIENT_def KIND_PROVIDER_def

definition ALL_PRIVILEGES :: "string list" where
  "ALL_PRIVILEGES = [''ALL_PRIVILEGES'', ''APPLY_TAG'', ''BROWSE'', ''CREATE_CATALOG'', ''CREATE_CONNECTION'',
     ''CREATE_EXTERNAL_LOCATION'', ''CREATE_EXTERNAL_TABLE'', ''CREATE_EXTERNAL_VOLUME'',
     ''CREATE_FOREIGN_CATALOG'', ''CREATE_FOREIGN_SECURABLE'', ''CREATE_FUNCTION'', ''CREATE_MANAGED_STORAGE'',
     ''CREATE_MATERIALIZED_VIEW'', ''CREATE_MODEL'', ''CREATE_PROVIDER'', ''CREATE_RECIPIENT'',
     ''CREATE_SCHEMA'', ''CREATE_SERVICE_CREDENTIAL'', ''CREATE_SHARE'', ''CREATE_STORAGE_CREDENTIAL'',
     ''CREATE_TABLE'', ''CREATE_VIEW'', ''CREATE_VOLUME'', ''EXECUTE'', ''MANAGE'', ''MANAGE_ALLOWLIST'',
     ''MODIFY'', ''READ_FILES'', ''READ_PRIVATE_FILES'', ''READ_VOLUME'', ''REFRESH'', ''SELECT'',
     ''SET_SHARE_PERMISSION'', ''USE_CATALOG'', ''USE_CONNECTION'', ''USE_MARKETPLACE_ASSETS'',
     ''USE_PROVIDER'', ''USE_RECIPIENT'', ''USE_SCHEMA'', ''USE_SHARE'', ''WRITE_FILES'',
     ''WRITE_PRIVATE_FILES'', ''WRITE_VOLUME'']"

definition normalize_privilege :: "string \<Rightarrow> string" where
  "normalize_privilege p = replace_char (CHR '' '') ''_'' (to_upper (trim p))"

definition is_known_privilege :: "string \<Rightarrow> bool" where
  "is_known_privilege p = List.member ALL_PRIVILEGES p"

datatype securable =
    Metastore | Catalog | Schema | Table | Volume | Function | ExternalLocation | StorageCredential
  | Connection | Share | Recipient | Provider

definition securable_parse :: "string \<Rightarrow> api_error + securable" where
  "securable_parse s =
     (let t = replace_char (CHR ''-'') ''_'' (to_lower s)
      in if t = ''metastore'' then Inr Metastore
         else if t = ''catalog'' then Inr Catalog
         else if t = ''schema'' then Inr Schema
         else if t = ''table'' \<or> t = ''view'' \<or> t = ''materialized_view'' \<or> t = ''streaming_table'' then Inr Table
         else if t = ''volume'' then Inr Volume
         else if t = ''function'' \<or> t = ''registered_model'' \<or> t = ''model'' then Inr Function
         else if t = ''external_location'' then Inr ExternalLocation
         else if t = ''storage_credential'' \<or> t = ''credential'' then Inr StorageCredential
         else if t = ''connection'' then Inr Connection
         else if t = ''share'' then Inr Share
         else if t = ''recipient'' then Inr Recipient
         else if t = ''provider'' then Inr Provider
         else Inl (InvalidParameter (''Unknown securable type '' @ [CHR 0x27] @ t @ [CHR 0x27])))"

fun sec_as_str :: "securable \<Rightarrow> string" where
  "sec_as_str Metastore = ''metastore''"
| "sec_as_str Catalog = ''catalog''"
| "sec_as_str Schema = ''schema''"
| "sec_as_str Table = ''table''"
| "sec_as_str Volume = ''volume''"
| "sec_as_str Function = ''function''"
| "sec_as_str ExternalLocation = ''external_location''"
| "sec_as_str StorageCredential = ''storage_credential''"
| "sec_as_str Connection = ''connection''"
| "sec_as_str Share = ''share''"
| "sec_as_str Recipient = ''recipient''"
| "sec_as_str Provider = ''provider''"

fun api_type :: "securable \<Rightarrow> string" where
  "api_type Metastore = ''METASTORE''"
| "api_type Catalog = ''CATALOG''"
| "api_type Schema = ''SCHEMA''"
| "api_type Table = ''TABLE''"
| "api_type Volume = ''VOLUME''"
| "api_type Function = ''FUNCTION''"
| "api_type ExternalLocation = ''EXTERNAL_LOCATION''"
| "api_type StorageCredential = ''STORAGE_CREDENTIAL''"
| "api_type Connection = ''CONNECTION''"
| "api_type Share = ''SHARE''"
| "api_type Recipient = ''RECIPIENT''"
| "api_type Provider = ''PROVIDER''"

fun sec_kind :: "securable \<Rightarrow> string option" where
  "sec_kind Metastore = None"
| "sec_kind Catalog = Some KIND_CATALOG"
| "sec_kind Schema = Some KIND_SCHEMA"
| "sec_kind Table = Some KIND_TABLE"
| "sec_kind Volume = Some KIND_VOLUME"
| "sec_kind Function = Some KIND_FUNCTION"
| "sec_kind ExternalLocation = Some KIND_EXT_LOCATION"
| "sec_kind StorageCredential = Some KIND_STORAGE_CRED"
| "sec_kind Connection = Some KIND_CONNECTION"
| "sec_kind Share = Some KIND_SHARE"
| "sec_kind Recipient = Some KIND_RECIPIENT"
| "sec_kind Provider = Some KIND_PROVIDER"

definition lineage_of :: "securable \<Rightarrow> string \<Rightarrow> (securable \<times> string) list" where
  "lineage_of sec full_name =
     [(sec, full_name)] @
     (if sec = Table \<or> sec = Volume \<or> sec = Function then
        (case split_on (CHR ''.'') full_name of
           p0 # p1 # p2 # _ \<Rightarrow> [(Schema, p0 @ ''.'' @ p1), (Catalog, p0)]
         | [p0, p1] \<Rightarrow> [(Catalog, p0)]
         | _ \<Rightarrow> [])
      else if sec = Schema then
        (case split_once (CHR ''.'') full_name of Some (c, _) \<Rightarrow> [(Catalog, c)] | None \<Rightarrow> [])
      else []) @
     (if sec \<noteq> Metastore then [(Metastore, METASTORE_ID)] else [])"

definition grants_key :: "securable \<Rightarrow> string \<Rightarrow> string" where
  "grants_key sec full_name = sec_as_str sec @ '':'' @ full_name"

definition grants_doc_id :: "securable \<Rightarrow> string \<Rightarrow> string" where
  "grants_doc_id sec full_name = KIND_GRANTS @ '':'' @ grants_key sec full_name"

section \<open>Assignments\<close>

record assignment =
  a_principal :: string
  a_privileges :: "string list"

definition filter_map :: "('a \<Rightarrow> 'b option) \<Rightarrow> 'a list \<Rightarrow> 'b list" where
  "filter_map f xs = List.map_filter f xs"

definition parse_assignments :: "json \<Rightarrow> assignment list" where
  "parse_assignments v =
     (case as_array (j_get v ''privilege_assignments'') of
        None \<Rightarrow> []
      | Some xs \<Rightarrow> map (\<lambda>x. \<lparr>a_principal = or_default [] (as_str (j_get x ''principal'')),
          a_privileges = (case as_array (j_get x ''privileges'') of
             None \<Rightarrow> []
           | Some ps \<Rightarrow> filter_map (\<lambda>s. map_option normalize_privilege (as_str s)) ps)\<rparr>) xs)"

definition assignments_json :: "assignment list \<Rightarrow> json" where
  "assignments_json as = jobj [(''privilege_assignments'',
     JArr (map (\<lambda>x. jobj [(''principal'', JStr (a_principal x)), (''privileges'', jstrs (a_privileges x))])
       (filter (\<lambda>x. a_privileges x \<noteq> []) as)))]"

definition principal_matches :: "principal \<Rightarrow> string \<Rightarrow> bool" where
  "principal_matches p name \<longleftrightarrow>
     eq_ignore_case name (p_user_name p) \<or> name = p_user_id p \<or>
     eq_ignore_case name ACCOUNT_USERS \<or> eq_ignore_case name USERS_GROUP \<or>
     list_ex (\<lambda>g. eq_ignore_case g name) (p_groups p)"

section \<open>The authorizer\<close>

record app_state =
  as_store :: store
  as_admin_user :: string

record authorizer =
  az_st :: app_state
  az_principal :: principal
  az_grants :: "(string \<times> assignment list) list"
  az_owners :: "(string \<times> string option) list"

definition az_new :: "app_state \<Rightarrow> principal \<Rightarrow> authorizer" where
  "az_new st p = \<lparr>az_st = st, az_principal = p, az_grants = [], az_owners = []\<rparr>"

definition az_is_admin :: "authorizer \<Rightarrow> bool" where
  "az_is_admin az = p_is_admin (az_principal az)"

definition grants_for :: "securable \<Rightarrow> string \<Rightarrow> app_state \<Rightarrow> assignment list" where
  "grants_for sec n st =
     (case store_get KIND_GRANTS (grants_doc_id sec n) (as_store st) of
        None \<Rightarrow> [] | Some d \<Rightarrow> parse_assignments (d_data d))"

definition az_grants_of :: "securable \<Rightarrow> string \<Rightarrow> authorizer \<Rightarrow> assignment list \<times> authorizer" where
  "az_grants_of sec n az =
     (let key = grants_key sec n
      in case map_of (az_grants az) key of
           Some g \<Rightarrow> (g, az)
         | None \<Rightarrow>
             (let g = (case store_get KIND_GRANTS (grants_doc_id sec n) (as_store (az_st az)) of
                         None \<Rightarrow> [] | Some d \<Rightarrow> parse_assignments (d_data d))
              in (g, az\<lparr>az_grants := (key, g) # az_grants az\<rparr>)))"

definition uc_doc_id :: "string \<Rightarrow> string \<Rightarrow> string" where
  "uc_doc_id kind full_name = kind @ '':'' @ full_name"

definition owner_lookup :: "securable \<Rightarrow> string \<Rightarrow> app_state \<Rightarrow> string option" where
  "owner_lookup sec n st =
     (if sec = Metastore then Some (as_admin_user st)
      else let kind = or_default KIND_TABLE (sec_kind sec)
           in case store_get kind (uc_doc_id kind n) (as_store st) of
                None \<Rightarrow> None | Some d \<Rightarrow> as_str (j_get (d_data d) ''owner''))"

definition az_owner :: "securable \<Rightarrow> string \<Rightarrow> authorizer \<Rightarrow> string option \<times> authorizer" where
  "az_owner sec n az =
     (let key = grants_key sec n
      in case map_of (az_owners az) key of
           Some o' \<Rightarrow> (o', az)
         | None \<Rightarrow> (let o' = owner_lookup sec n (az_st az) in (o', az\<lparr>az_owners := (key, o') # az_owners az\<rparr>)))"

text \<open>A loop over the lineage that returns at the first hit, threading the caches.\<close>

fun az_any :: "('a \<Rightarrow> authorizer \<Rightarrow> bool \<times> authorizer) \<Rightarrow> 'a list \<Rightarrow> authorizer \<Rightarrow> bool \<times> authorizer" where
  "az_any f [] az = (False, az)"
| "az_any f (x # xs) az = (case f x az of (True, az') \<Rightarrow> (True, az') | (False, az') \<Rightarrow> az_any f xs az')"

definition owner_hit :: "securable \<Rightarrow> string \<Rightarrow> authorizer \<Rightarrow> bool \<times> authorizer" where
  "owner_hit s n az =
     (case az_owner s n az of
        (o', az') \<Rightarrow> (case o' of None \<Rightarrow> False | Some w \<Rightarrow> principal_matches (az_principal az) w, az'))"

definition grant_hit :: "(assignment \<Rightarrow> bool) \<Rightarrow> securable \<Rightarrow> string \<Rightarrow> authorizer \<Rightarrow> bool \<times> authorizer" where
  "grant_hit ok s n az =
     (case az_grants_of s n az of
        (gs, az') \<Rightarrow> (list_ex (\<lambda>a. principal_matches (az_principal az) (a_principal a) \<and> ok a) gs, az'))"

definition owner_or_grant :: "(assignment \<Rightarrow> bool) \<Rightarrow> securable \<times> string \<Rightarrow> authorizer \<Rightarrow> bool \<times> authorizer" where
  "owner_or_grant ok sn az =
     (case owner_hit (fst sn) (snd sn) az of
        (True, az') \<Rightarrow> (True, az') | (False, az') \<Rightarrow> grant_hit ok (fst sn) (snd sn) az')"

definition az_is_owner :: "securable \<Rightarrow> string \<Rightarrow> authorizer \<Rightarrow> bool \<times> authorizer" where
  "az_is_owner sec n az =
     (if az_is_admin az then (True, az) else az_any (\<lambda>(s, m). owner_hit s m) (lineage_of sec n) az)"

definition grants_privilege :: "string \<Rightarrow> assignment \<Rightarrow> bool" where
  "grants_privilege priv a \<longleftrightarrow> List.member (a_privileges a) priv \<or> List.member (a_privileges a) ''ALL_PRIVILEGES''"

definition az_has_privilege :: "securable \<Rightarrow> string \<Rightarrow> string \<Rightarrow> authorizer \<Rightarrow> bool \<times> authorizer" where
  "az_has_privilege sec n privilege az =
     (if az_is_admin az then (True, az)
      else az_any (owner_or_grant (grants_privilege (normalize_privilege privilege))) (lineage_of sec n) az)"

definition az_can_manage :: "securable \<Rightarrow> string \<Rightarrow> authorizer \<Rightarrow> bool \<times> authorizer" where
  "az_can_manage sec n az =
     (case az_is_owner sec n az of (True, az') \<Rightarrow> (True, az') | (False, az') \<Rightarrow> az_has_privilege sec n ''MANAGE'' az')"

definition az_has_any_privilege :: "securable \<Rightarrow> string \<Rightarrow> authorizer \<Rightarrow> bool \<times> authorizer" where
  "az_has_any_privilege sec n az =
     (if az_is_admin az then (True, az)
      else az_any (owner_or_grant (\<lambda>a. a_privileges a \<noteq> [])) (lineage_of sec n) az)"

section \<open>Refusals\<close>

definition quoted :: "string \<Rightarrow> string" where
  "quoted s = [CHR 0x27] @ s @ [CHR 0x27]"

definition sec_title :: "securable \<Rightarrow> string" where
  "sec_title sec =
     (if sec = Metastore then ''Metastore''
      else case api_type sec of
        [] \<Rightarrow> []
      | c # cs \<Rightarrow> upper_char c # replace_char (CHR ''_'') '' '' (to_lower cs))"

definition denied :: "principal \<Rightarrow> string \<Rightarrow> securable \<Rightarrow> string \<Rightarrow> api_error" where
  "denied p privilege sec full_name =
     PermissionDenied (''[INSUFFICIENT_PERMISSIONS] User '' @ p_user_name p @ '' does not have '' @
       replace_char (CHR ''_'') '' '' (normalize_privilege privilege) @ '' on '' @ sec_title sec @ '' '' @
       quoted full_name @ ''.'')"

definition az_require :: "securable \<Rightarrow> string \<Rightarrow> string \<Rightarrow> authorizer \<Rightarrow> (api_error + unit) \<times> authorizer" where
  "az_require sec n privilege az =
     (case az_has_privilege sec n privilege az of
        (ok, az') \<Rightarrow> (if ok then Inr () else Inl (denied (az_principal az) privilege sec n), az'))"

definition az_require_owner :: "securable \<Rightarrow> string \<Rightarrow> authorizer \<Rightarrow> (api_error + unit) \<times> authorizer" where
  "az_require_owner sec n az =
     (case az_can_manage sec n az of
        (ok, az') \<Rightarrow> (if ok then Inr () else Inl (PermissionDenied (''User does not own '' @ api_type sec @ '' '' @
          quoted n @ '' and does not have MANAGE on it.'')), az'))"

text \<open>Two requirements in sequence, the second only when the first holds.\<close>

definition az_then ::
  "(authorizer \<Rightarrow> (api_error + unit) \<times> authorizer) \<Rightarrow> (authorizer \<Rightarrow> (api_error + unit) \<times> authorizer)
     \<Rightarrow> authorizer \<Rightarrow> (api_error + unit) \<times> authorizer" where
  "az_then f g az = (case f az of (Inl e, az') \<Rightarrow> (Inl e, az') | (Inr _, az') \<Rightarrow> g az')"

definition az_require_use_path :: "string \<Rightarrow> authorizer \<Rightarrow> (api_error + unit) \<times> authorizer" where
  "az_require_use_path full_name =
     (let parts = split_on (CHR ''.'') full_name
      in az_then (case parts of [] \<Rightarrow> Pair (Inr ()) | c # _ \<Rightarrow> az_require Catalog c ''USE_CATALOG'')
           (case parts of p0 # p1 # p2 # _ \<Rightarrow> az_require Schema (p0 @ ''.'' @ p1) ''USE_SCHEMA''
            | _ \<Rightarrow> Pair (Inr ())))"

definition az_require_on_object :: "securable \<Rightarrow> string \<Rightarrow> string \<Rightarrow> authorizer \<Rightarrow> (api_error + unit) \<times> authorizer" where
  "az_require_on_object sec n privilege = az_then (az_require_use_path n) (az_require sec n privilege)"

section \<open>Browsing\<close>

definition all_grants :: "app_state \<Rightarrow> (string \<times> assignment list) list" where
  "all_grants st = map (\<lambda>d. (or_default [] (d_name d), parse_assignments (d_data d)))
     (store_list KIND_GRANTS workspace_id default_filter (as_store st))"

definition has_grant_below :: "string \<Rightarrow> authorizer \<Rightarrow> bool" where
  "has_grant_below prefix az =
     (let want = prefix @ ''.''; p = az_principal az; s = as_store (az_st az)
      in list_ex (\<lambda>(key, as). case split_once (CHR '':'') key of
             None \<Rightarrow> False
           | Some (_, name) \<Rightarrow> starts_with name want \<and>
               list_ex (\<lambda>a. principal_matches p (a_principal a) \<and> a_privileges a \<noteq> []) as) (all_grants (az_st az)) \<or>
         list_ex (\<lambda>kind. list_ex (\<lambda>d. case as_str (j_get (d_data d) ''owner'') of
               None \<Rightarrow> False | Some w \<Rightarrow> principal_matches p w)
             (store_list kind workspace_id (default_filter\<lparr>f_prefix := Some want\<rparr>) s))
           [KIND_SCHEMA, KIND_TABLE, KIND_VOLUME, KIND_FUNCTION])"

definition az_can_browse :: "securable \<Rightarrow> string \<Rightarrow> authorizer \<Rightarrow> bool \<times> authorizer" where
  "az_can_browse sec n az =
     (case az_has_any_privilege sec n az of
        (True, az') \<Rightarrow> (True, az')
      | (False, az') \<Rightarrow> (if sec = Catalog \<or> sec = Schema then has_grant_below n az' else False, az'))"

text \<open>The effective permissions of every principal, nearest securable first.\<close>

fun effective_entry :: "bool \<Rightarrow> securable \<Rightarrow> string \<Rightarrow> string list \<Rightarrow> json list \<Rightarrow> json list" where
  "effective_entry inh s n [] acc = acc"
| "effective_entry inh s n (pv # pvs) acc =
     (if list_ex (\<lambda>v. j_get v ''privilege'' = JStr pv) acc then effective_entry inh s n pvs acc
      else effective_entry inh s n pvs (acc @ [
        if inh then j_set ''inherited_from_name'' (JStr n) (j_set ''inherited_from_type'' (JStr (api_type s))
                      (jobj [(''privilege'', JStr pv)]))
        else jobj [(''privilege'', JStr pv)]]))"

fun upsert_entry :: "string \<Rightarrow> (json list \<Rightarrow> json list) \<Rightarrow> (string \<times> json list) list \<Rightarrow> (string \<times> json list) list" where
  "upsert_entry p f [] = [(p, f [])]"
| "upsert_entry p f ((q, vs) # rest) = (if q = p then (q, f vs) # rest else (q, vs) # upsert_entry p f rest)"

fun effective_loop ::
  "string option \<Rightarrow> bool \<Rightarrow> (securable \<times> string) list \<Rightarrow> (string \<times> json list) list \<Rightarrow> authorizer
     \<Rightarrow> (string \<times> json list) list \<times> authorizer"
where
  "effective_loop only inh [] acc az = (acc, az)"
| "effective_loop only inh ((s, n) # rest) acc az =
     (case az_grants_of s n az of
        (gs, az') \<Rightarrow> effective_loop only True rest
          (fold (\<lambda>a acc. upsert_entry (a_principal a) (effective_entry inh s n (a_privileges a)) acc)
             (filter (\<lambda>a. case only of None \<Rightarrow> True | Some p \<Rightarrow> eq_ignore_case (a_principal a) p) gs) acc) az')"

definition az_effective :: "securable \<Rightarrow> string \<Rightarrow> string option \<Rightarrow> authorizer \<Rightarrow> json \<times> authorizer" where
  "az_effective sec n only az =
     (case effective_loop only False (lineage_of sec n) [] az of
        (acc, az') \<Rightarrow> (jobj [(''privilege_assignments'',
          JArr (map (\<lambda>(p, vs). jobj [(''principal'', JStr p), (''privileges'', JArr vs)]) acc))], az'))"

section \<open>Changing grants\<close>

fun index_of :: "('a \<Rightarrow> bool) \<Rightarrow> 'a list \<Rightarrow> nat option" where
  "index_of P [] = None"
| "index_of P (x # xs) = (if P x then Some 0 else map_option Suc (index_of P xs))"

fun add_privileges :: "string list \<Rightarrow> string list \<Rightarrow> api_error + string list" where
  "add_privileges [] ps = Inr ps"
| "add_privileges (a # as) ps =
     (let a = normalize_privilege a
      in if \<not> is_known_privilege a then Inl (InvalidParameter (''Privilege '' @ a @ '' is not supported''))
         else add_privileges as (if List.member ps a then ps else ps @ [a]))"

definition remove_privilege :: "string \<Rightarrow> string list \<Rightarrow> string list" where
  "remove_privilege r ps =
     (let r = normalize_privilege r in if r = ''ALL_PRIVILEGES'' then [] else filter (\<lambda>p. p \<noteq> r) ps)"

definition store_of :: "store \<Rightarrow> app_state \<Rightarrow> app_state" where
  "store_of s st = st\<lparr>as_store := s\<rparr>"

definition change_grants ::
  "int \<Rightarrow> securable \<Rightarrow> string \<Rightarrow> string \<Rightarrow> string list \<Rightarrow> string list \<Rightarrow> app_state
     \<Rightarrow> (api_error + assignment list) \<times> app_state"
where
  "change_grants now sec n who add remove st =
     (let as0 = grants_for sec n st;
          (as1, idx) = (case index_of (\<lambda>a. eq_ignore_case (a_principal a) who) as0 of
             Some i \<Rightarrow> (as0, i)
           | None \<Rightarrow> (as0 @ [\<lparr>a_principal = who, a_privileges = []\<rparr>], length as0))
      in case add_privileges add (a_privileges (as1 ! idx)) of
           Inl e \<Rightarrow> (Inl e, st)
         | Inr ps \<Rightarrow>
             (let ps' = fold remove_privilege remove ps;
                  as2 = filter (\<lambda>a. a_privileges a \<noteq> []) (as1[idx := (as1 ! idx)\<lparr>a_privileges := ps'\<rparr>])
              in if as2 = [] then (Inr as2, store_of (snd (store_delete KIND_GRANTS (grants_doc_id sec n) (as_store st))) st)
                 else (case store_upsert now KIND_GRANTS workspace_id (grants_doc_id sec n) None (Some (grants_key sec n))
                               (assignments_json as2) (as_store st) of
                         (Inl e, s') \<Rightarrow> (Inl e, store_of s' st)
                       | (Inr _, s') \<Rightarrow> (Inr as2, store_of s' st))))"

definition drop_grants :: "securable \<Rightarrow> string \<Rightarrow> app_state \<Rightarrow> app_state" where
  "drop_grants sec n st =
     (let st1 = store_of (snd (store_delete KIND_GRANTS (grants_doc_id sec n) (as_store st))) st
      in if sec = Catalog \<or> sec = Schema then
           fold (\<lambda>(key, _) st'. case split_once (CHR '':'') key of
               None \<Rightarrow> st'
             | Some (t, name) \<Rightarrow>
                 (if starts_with name (n @ ''.'') then
                    (case securable_parse t of
                       Inl _ \<Rightarrow> st'
                     | Inr s \<Rightarrow> store_of (snd (store_delete KIND_GRANTS (grants_doc_id s name) (as_store st'))) st')
                  else st')) (all_grants st1) st1
         else st1)"

definition move_grants :: "int \<Rightarrow> securable \<Rightarrow> string \<Rightarrow> string \<Rightarrow> app_state \<Rightarrow> (api_error + unit) \<times> app_state" where
  "move_grants now sec from to st =
     (let a = grants_for sec from st
      in if a = [] then (Inr (), st)
         else case store_upsert now KIND_GRANTS workspace_id (grants_doc_id sec to) None (Some (grants_key sec to))
                     (assignments_json a) (snd (store_delete KIND_GRANTS (grants_doc_id sec from) (as_store st))) of
                (Inl e, s') \<Rightarrow> (Inl e, store_of s' st) | (Inr _, s') \<Rightarrow> (Inr (), store_of s' st))"

definition ensure_default_grants :: "int \<Rightarrow> app_state \<Rightarrow> (api_error + unit) \<times> app_state" where
  "ensure_default_grants now st =
     (if kv_get ''uc_default_grants_v1'' (as_store st) \<noteq> None then (Inr (), st)
      else case change_grants now Catalog UC_DEFAULT_CATALOG ACCOUNT_USERS
                  [''USE_CATALOG'', ''USE_SCHEMA'', ''BROWSE'', ''CREATE_SCHEMA''] [] st of
             (Inl e, st1) \<Rightarrow> (Inl e, st1)
           | (Inr _, st1) \<Rightarrow>
               (case change_grants now Schema (UC_DEFAULT_CATALOG @ ''.default'') ACCOUNT_USERS
                       [''CREATE_TABLE'', ''CREATE_VOLUME'', ''CREATE_FUNCTION'', ''CREATE_MODEL'', ''SELECT'',
                        ''MODIFY'', ''READ_VOLUME'', ''WRITE_VOLUME'', ''EXECUTE''] [] st1 of
                  (Inl e, st2) \<Rightarrow> (Inl e, st2)
                | (Inr _, st2) \<Rightarrow> (Inr (), store_of (kv_set ''uc_default_grants_v1'' ''1'' (as_store st2)) st2)))"

definition principal_exists :: "string \<Rightarrow> app_state \<Rightarrow> api_error + bool" where
  "principal_exists name st =
     (if eq_ignore_case name ACCOUNT_USERS \<or> eq_ignore_case name USERS_GROUP then Inr True
      else try_then (user_by_name name (as_store st)) (\<lambda>u.
        if u \<noteq> None then Inr True
        else try_then (list_as group_of_json KIND_GROUP default_filter (as_store st)) (\<lambda>gs.
          Inr (list_ex (\<lambda>g. eq_ignore_case (g_display_name (snd g)) name) gs))))"

end
