(* ===== verification/Uc_GrantSql.thy ===== *)
theory Uc_GrantSql
  imports Uc_Privileges
begin

text \<open>
  The privilege statements of Databricks SQL (\<open>lakeforge-api/src/uc/grant_sql.rs\<close>): \<open>GRANT\<close>,
  \<open>REVOKE\<close>, \<open>SHOW GRANTS\<close> and \<open>ALTER ... OWNER TO\<close>, tokenised and parsed by hand before the SQL
  engine sees the text.
\<close>

section \<open>Tokens\<close>

datatype grant_stmt =
    GGrant (gs_privileges: "string list") (gs_securable: securable) (gs_name: string) (gs_principal: string)
  | GRevoke (gs_privileges: "string list") (gs_securable: securable) (gs_name: string) (gs_principal: string)
  | GShowGrants (gs_only: "string option") (gs_securable: securable) (gs_name: string)
  | GSetOwner (gs_securable: securable) (gs_name: string) (gs_owner: string)

record tok =
  tk_text :: string
  tk_quoted :: bool

abbreviation backquote :: char where "backquote \<equiv> CHR 0x60"
abbreviation quote1 :: char where "quote1 \<equiv> CHR 0x27"
abbreviation quote2 :: char where "quote2 \<equiv> CHR 0x22"

text \<open>The text up to the closing quote, or to the end of the input.\<close>

fun until :: "char \<Rightarrow> string \<Rightarrow> string \<times> string" where
  "until c [] = ([], [])"
| "until c (d # s) = (if d = c then ([], s) else (case until c s of (a, b) \<Rightarrow> (d # a, b)))"

definition flush :: "string \<Rightarrow> bool \<Rightarrow> tok list" where
  "flush cur q = (if cur \<noteq> [] \<or> q then [\<lparr>tk_text = cur, tk_quoted = q\<rparr>] else [])"

lemma until_length: "length (snd (until c s)) \<le> length s"
  by (induction s) (auto split: prod.split)

function (sequential) lex :: "string \<Rightarrow> string \<Rightarrow> bool \<Rightarrow> tok list" where
  "lex [] cur q = flush cur q"
| "lex (c # s) cur q =
     (if c = backquote \<or> c = quote2 \<or> c = quote1 then lex (snd (until c s)) (cur @ fst (until c s)) True
      else if c = CHR '','' then flush cur q @ \<lparr>tk_text = '','', tk_quoted = False\<rparr> # lex s [] False
      else if is_space c then flush cur q @ lex s [] False
      else lex s (cur @ [c]) q)"
  by pat_completeness auto
termination
  by (relation "measure (\<lambda>(s, _, _). length s)") (auto simp: le_imp_less_Suc [OF until_length])

definition tokenize :: "string \<Rightarrow> tok list" where
  "tokenize s = lex s [] False"

section \<open>The parser\<close>

definition PRIVILEGE_WORDS :: "string list" where
  "PRIVILEGE_WORDS = [''ALL'', ''PRIVILEGES'', ''SELECT'', ''MODIFY'', ''USE'', ''CATALOG'', ''SCHEMA'', ''CREATE'',
     ''TABLE'', ''VOLUME'', ''FUNCTION'', ''MODEL'', ''READ'', ''WRITE'', ''EXECUTE'', ''MANAGE'', ''FILES'',
     ''BROWSE'', ''APPLY'', ''TAG'', ''REFRESH'', ''EXTERNAL'', ''LOCATION'', ''STORAGE'', ''CREDENTIAL'',
     ''CONNECTION'', ''FOREIGN'', ''MANAGED'', ''SERVICE'', ''USAGE'', ''MATERIALIZED'', ''VIEW'', ''ACCESS'',
     ''CLEAN'', ''ROOM'', ''PROVIDER'', ''RECIPIENT'', ''SHARE'', ''SET'', ''OWNER'']"

definition tok_at :: "tok list \<Rightarrow> nat \<Rightarrow> tok option" where
  "tok_at toks i = (if i < length toks then Some (toks ! i) else None)"

definition position :: "tok list \<Rightarrow> string \<Rightarrow> nat \<Rightarrow> nat option" where
  "position toks word from =
     map_option (\<lambda>i. from + i) (index_of (\<lambda>t. \<not> tk_quoted t \<and> eq_ignore_case (tk_text t) word) (drop from toks))"

definition flush_words :: "string list \<Rightarrow> string list" where
  "flush_words ws = (if ws = [] then [] else [normalize_privilege (join_with ''_'' ws)])"

fun privilege_loop :: "tok list \<Rightarrow> string list \<Rightarrow> string list \<Rightarrow> string + string list" where
  "privilege_loop [] ws out = Inr (out @ flush_words ws)"
| "privilege_loop (t # ts) ws out =
     (if tk_text t = '','' then privilege_loop ts [] (out @ flush_words ws)
      else let w = to_upper (tk_text t)
           in if \<not> List.member PRIVILEGE_WORDS w then Inl (''Unknown privilege token '' @ quoted (tk_text t))
              else privilege_loop ts (ws @ [w]) out)"

definition parse_privileges :: "tok list \<Rightarrow> string + string list" where
  "parse_privileges toks =
     try_then (privilege_loop toks [] []) (\<lambda>out.
       if out = [] then Inl ''Expected at least one privilege''
       else Inr (map (\<lambda>p. if p = ''ALL'' then ''ALL_PRIVILEGES'' else p) out))"

text \<open>The unquoted word at a position, in upper case; empty when there is none.\<close>

definition word_at :: "tok list \<Rightarrow> nat \<Rightarrow> string" where
  "word_at toks j = (case tok_at toks j of None \<Rightarrow> [] | Some t \<Rightarrow> if tk_quoted t then [] else to_upper (tk_text t))"

definition securable_keyword :: "tok list \<Rightarrow> nat \<Rightarrow> securable option \<times> nat" where
  "securable_keyword toks i =
     (let w = word_at toks i; v = word_at toks (i + 1)
      in if w = ''CATALOG'' then (Some Catalog, i + 1)
         else if w = ''SCHEMA'' \<or> w = ''DATABASE'' then (Some Schema, i + 1)
         else if w = ''TABLE'' \<or> w = ''VIEW'' then (Some Table, i + 1)
         else if w = ''MATERIALIZED'' \<and> v = ''VIEW'' then (Some Table, i + 2)
         else if w = ''STREAMING'' \<and> v = ''TABLE'' then (Some Table, i + 2)
         else if w = ''VOLUME'' then (Some Volume, i + 1)
         else if w = ''FUNCTION'' \<or> w = ''MODEL'' then (Some Function, i + 1)
         else if w = ''EXTERNAL'' \<and> v = ''LOCATION'' then (Some ExternalLocation, i + 2)
         else if w = ''STORAGE'' \<and> v = ''CREDENTIAL'' then (Some StorageCredential, i + 2)
         else if w = ''CONNECTION'' then (Some Connection, i + 1)
         else if w = ''SHARE'' then (Some Share, i + 1)
         else if w = ''RECIPIENT'' then (Some Recipient, i + 1)
         else if w = ''PROVIDER'' then (Some Provider, i + 1)
         else (None, i))"

definition resolve_full :: "securable \<Rightarrow> string \<Rightarrow> string \<Rightarrow> string \<Rightarrow> string" where
  "resolve_full sec raw dc ds =
     (let k = length (split_on (CHR ''.'') raw)
      in if sec = Schema \<and> k = 1 then dc @ ''.'' @ raw
         else if sec = Table \<or> sec = Volume \<or> sec = Function then
           (if k = 1 then dc @ ''.'' @ ds @ ''.'' @ raw else if k = 2 then dc @ ''.'' @ raw else raw)
         else raw)"

definition parse_securable :: "tok list \<Rightarrow> nat \<Rightarrow> string \<Rightarrow> string \<Rightarrow> string + securable \<times> string \<times> nat" where
  "parse_securable toks i dc ds =
     (if word_at toks i = ''METASTORE'' then Inr (Metastore, METASTORE_ID, i + 1)
      else case securable_keyword toks i of (s, j) \<Rightarrow>
        (case tok_at toks j of
           None \<Rightarrow> Inl ''Expected a securable name''
         | Some t \<Rightarrow>
             (let raw = trim_char backquote (tk_text t);
                  k = length (split_on (CHR ''.'') raw);
                  sec = (case s of Some s' \<Rightarrow> s' | None \<Rightarrow> if k = 1 then Catalog else if k = 2 then Schema else Table)
              in Inr (sec, resolve_full sec raw dc ds, j + 1))))"

definition is_word :: "tok option \<Rightarrow> string \<Rightarrow> bool" where
  "is_word t w \<longleftrightarrow> (case t of None \<Rightarrow> False | Some t \<Rightarrow> \<not> tk_quoted t \<and> eq_ignore_case (tk_text t) w)"

definition is_text :: "tok option \<Rightarrow> string \<Rightarrow> bool" where
  "is_text t w \<longleftrightarrow> (case t of None \<Rightarrow> False | Some t \<Rightarrow> eq_ignore_case (tk_text t) w)"

definition principal_at :: "tok list \<Rightarrow> nat \<Rightarrow> string option" where
  "principal_at toks i =
     (case tok_at toks i of None \<Rightarrow> None | Some t \<Rightarrow> if tk_text t = [] then None else Some (tk_text t))"

definition parse_grant_like :: "tok list \<Rightarrow> bool \<Rightarrow> string \<Rightarrow> string \<Rightarrow> string + grant_stmt" where
  "parse_grant_like toks grant dc ds =
     try_then (ok_or ''Expected ON'' (position toks ''ON'' 1)) (\<lambda>on.
     try_then (parse_privileges (drop 1 (take on toks))) (\<lambda>privileges.
     try_then (parse_securable toks (on + 1) dc ds) (\<lambda>(sec, name, nxt).
       let kw = (if grant then ''TO'' else ''FROM'')
       in if \<not> is_word (tok_at toks nxt) kw then Inl (''Expected '' @ kw @ '' after the securable name'')
          else try_then (ok_or ''Expected a principal'' (principal_at toks (nxt + 1))) (\<lambda>who.
            if nxt + 2 < length toks then Inl (''Unexpected token '' @ quoted (tk_text (toks ! (nxt + 2))))
            else Inr (if grant then GGrant privileges sec name who else GRevoke privileges sec name who)))))"

definition parse_show :: "tok list \<Rightarrow> string \<Rightarrow> string \<Rightarrow> string + grant_stmt" where
  "parse_show toks dc ds =
     try_then (ok_or ''Expected ON'' (position toks ''ON'' 2)) (\<lambda>on.
     try_then (if on = 2 then Inr None else if on = 3 then Inr (Some (tk_text (toks ! 2)))
               else Inl ''Expected SHOW GRANTS [principal] ON securable'') (\<lambda>who.
     try_then (parse_securable toks (on + 1) dc ds) (\<lambda>(sec, name, nxt).
       if nxt < length toks then Inl (''Unexpected token '' @ quoted (tk_text (toks ! nxt)))
       else Inr (GShowGrants who sec name))))"

definition parse_owner :: "tok list \<Rightarrow> string \<Rightarrow> string \<Rightarrow> string + grant_stmt" where
  "parse_owner toks dc ds =
     try_then (parse_securable toks 1 dc ds) (\<lambda>(sec, name, nxt0).
       let nxt = (if is_text (tok_at toks nxt0) ''SET'' then nxt0 + 1 else nxt0)
       in if \<not> (is_text (tok_at toks nxt) ''OWNER'' \<and> is_text (tok_at toks (nxt + 1)) ''TO'') then Inl ''Expected OWNER TO''
          else try_then (ok_or ''Expected a principal after OWNER TO'' (map_option tk_text (tok_at toks (nxt + 2)))) (\<lambda>owner.
            Inr (GSetOwner sec name owner)))"

definition grant_parse :: "string \<Rightarrow> string \<Rightarrow> string \<Rightarrow> (string + grant_stmt) option" where
  "grant_parse sql dc ds =
     (let toks = tokenize (trim_end_char (CHR '';'') (trim sql));
          up = (\<lambda>i. case tok_at toks i of None \<Rightarrow> [] | Some t \<Rightarrow> to_upper (tk_text t))
      in if up 0 = ''GRANT'' then Some (parse_grant_like toks True dc ds)
         else if up 0 = ''REVOKE'' then Some (parse_grant_like toks False dc ds)
         else if up 0 = ''SHOW'' \<and> (up 1 = ''GRANTS'' \<or> up 1 = ''GRANT'') then Some (parse_show toks dc ds)
         else if up 0 = ''ALTER'' \<and> list_ex (\<lambda>t. eq_ignore_case (tk_text t) ''OWNER'') toks
         then Some (parse_owner toks dc ds)
         else None)"

end
