(* ===== verification/Uc_Authorizer.thy ===== *)
theory Uc_Authorizer
  imports Uc_Privileges
begin

text \<open>
  What the authorizer computes: the two caches are transparent, so every check of a request answers
  what the grants and owners in the store say (\<open>holds\<close>); privileges and ownership are inherited
  along the lineage; a grant below a catalog or schema makes it visible.
\<close>

section \<open>Keys\<close>

lemma sec_as_str_plain: "CHR '':'' \<notin> set (sec_as_str sec)"
  by (cases sec) simp_all

lemma sec_as_str_inj: "sec_as_str a = sec_as_str b \<longleftrightarrow> a = b"
  by (cases a; cases b) simp_all

lemma securable_parse_str [simp]: "securable_parse (sec_as_str sec) = Inr sec"
  by (induction sec) code_simp+

lemma takeWhile_sep: "c \<notin> set a \<Longrightarrow> takeWhile (\<lambda>x. x \<noteq> c) (a @ c # b) = a"
  by (induction a) auto

lemma dropWhile_sep: "c \<notin> set a \<Longrightarrow> dropWhile (\<lambda>x. x \<noteq> c) (a @ c # b) = c # b"
  by (induction a) auto

lemma split_once_append: "c \<notin> set a \<Longrightarrow> split_once c (a @ c # b) = Some (a, b)"
  by (simp add: split_once_def takeWhile_sep dropWhile_sep)

lemma split_once_Some: "split_once c s = Some (a, b) \<longleftrightarrow> s = a @ c # b \<and> c \<notin> set a"
proof
  assume "split_once c s = Some (a, b)"
  then have c: "c \<in> set s" and a: "a = takeWhile (\<lambda>x. x \<noteq> c) s" and b: "b = tl (dropWhile (\<lambda>x. x \<noteq> c) s)"
    by (auto simp: split_once_def split: if_splits)
  have "dropWhile (\<lambda>x. x \<noteq> c) s \<noteq> []" using c by (auto simp: dropWhile_eq_Nil_conv)
  then obtain d ds where d: "dropWhile (\<lambda>x. x \<noteq> c) s = d # ds" by (cases "dropWhile (\<lambda>x. x \<noteq> c) s") auto
  then have "d = c" using hd_dropWhile [of "\<lambda>x. x \<noteq> c" s] by simp
  then show "s = a @ c # b \<and> c \<notin> set a"
    using takeWhile_dropWhile_id [of "\<lambda>x. x \<noteq> c" s] d a b by (auto dest: set_takeWhileD)
qed (auto simp: split_once_append)

lemma split_grants_key [simp]: "split_once (CHR '':'') (grants_key sec n) = Some (sec_as_str sec, n)"
  using split_once_append [OF sec_as_str_plain, of sec n] by (simp add: grants_key_def)

lemma grants_key_inj: "grants_key s n = grants_key s' n' \<longleftrightarrow> s = s' \<and> n = n'"
proof
  assume "grants_key s n = grants_key s' n'"
  then have "Some (sec_as_str s, n) = Some (sec_as_str s', n')"
    by (metis split_grants_key)
  then show "s = s' \<and> n = n'" by (simp add: sec_as_str_inj)
qed simp

lemma grants_doc_id_inj: "grants_doc_id s n = grants_doc_id s' n' \<longleftrightarrow> s = s' \<and> n = n'"
  by (simp add: grants_doc_id_def grants_key_inj)

section \<open>The reference\<close>

definition owned_by :: "app_state \<Rightarrow> principal \<Rightarrow> securable \<times> string \<Rightarrow> bool" where
  "owned_by st p sn = (case owner_lookup (fst sn) (snd sn) st of None \<Rightarrow> False | Some w \<Rightarrow> principal_matches p w)"

definition granted :: "app_state \<Rightarrow> principal \<Rightarrow> (assignment \<Rightarrow> bool) \<Rightarrow> securable \<times> string \<Rightarrow> bool" where
  "granted st p ok sn = list_ex (\<lambda>a. principal_matches p (a_principal a) \<and> ok a) (grants_for (fst sn) (snd sn) st)"

definition owns :: "app_state \<Rightarrow> principal \<Rightarrow> securable \<Rightarrow> string \<Rightarrow> bool" where
  "owns st p sec n \<longleftrightarrow> p_is_admin p \<or> list_ex (owned_by st p) (lineage_of sec n)"

definition holds_some :: "app_state \<Rightarrow> principal \<Rightarrow> (assignment \<Rightarrow> bool) \<Rightarrow> securable \<Rightarrow> string \<Rightarrow> bool" where
  "holds_some st p ok sec n \<longleftrightarrow>
     p_is_admin p \<or> list_ex (\<lambda>sn. owned_by st p sn \<or> granted st p ok sn) (lineage_of sec n)"

definition holds :: "app_state \<Rightarrow> principal \<Rightarrow> securable \<Rightarrow> string \<Rightarrow> string \<Rightarrow> bool" where
  "holds st p sec n privilege = holds_some st p (grants_privilege (normalize_privilege privilege)) sec n"

definition require_ref :: "app_state \<Rightarrow> principal \<Rightarrow> securable \<Rightarrow> string \<Rightarrow> string \<Rightarrow> api_error + unit" where
  "require_ref st p sec n privilege = (if holds st p sec n privilege then Inr () else Inl (denied p privilege sec n))"

definition use_path_ref :: "app_state \<Rightarrow> principal \<Rightarrow> string \<Rightarrow> api_error + unit" where
  "use_path_ref st p full_name =
     (case split_on (CHR ''.'') full_name of
        [] \<Rightarrow> Inr ()
      | c # rest \<Rightarrow> try_then (require_ref st p Catalog c ''USE_CATALOG'') (\<lambda>_.
          case rest of p1 # p2 # _ \<Rightarrow> require_ref st p Schema (c @ ''.'' @ p1) ''USE_SCHEMA'' | _ \<Rightarrow> Inr ()))"

section \<open>The caches agree with the store\<close>

definition az_ok :: "app_state \<Rightarrow> principal \<Rightarrow> authorizer \<Rightarrow> bool" where
  "az_ok st p az \<longleftrightarrow> az_st az = st \<and> az_principal az = p \<and>
     (\<forall>s n g. map_of (az_grants az) (grants_key s n) = Some g \<longrightarrow> g = grants_for s n st) \<and>
     (\<forall>s n w. map_of (az_owners az) (grants_key s n) = Some w \<longrightarrow> w = owner_lookup s n st)"

text \<open>An operation of the authorizer answers \<open>v\<close> and keeps the caches right, whatever they hold.\<close>

definition answers :: "app_state \<Rightarrow> principal \<Rightarrow> (authorizer \<Rightarrow> 'a \<times> authorizer) \<Rightarrow> 'a \<Rightarrow> bool" where
  "answers st p f v \<longleftrightarrow> (\<forall>az. az_ok st p az \<longrightarrow> fst (f az) = v \<and> az_ok st p (snd (f az)))"

lemma answersI: "(\<And>az. az_ok st p az \<Longrightarrow> fst (f az) = v \<and> az_ok st p (snd (f az))) \<Longrightarrow> answers st p f v"
  by (simp add: answers_def)

lemma answersD: "answers st p f v \<Longrightarrow> az_ok st p az \<Longrightarrow> \<exists>az'. f az = (v, az') \<and> az_ok st p az'"
  by (metis answers_def prod.collapse)

lemma answersE:
  "answers st p f v \<Longrightarrow> az_ok st p az \<Longrightarrow> (\<And>az'. f az = (v, az') \<Longrightarrow> az_ok st p az' \<Longrightarrow> R) \<Longrightarrow> R"
  by (metis answersD)

lemma az_ok_new: "az_ok st p (az_new st p)"
  by (simp add: az_ok_def az_new_def)

lemma az_okD [simp]: "az_ok st p az \<Longrightarrow> az_st az = st" "az_ok st p az \<Longrightarrow> az_principal az = p"
  by (simp_all add: az_ok_def)

lemma az_ok_grants:
  assumes ok: "az_ok st p az" and "az_grants az' = (grants_key s n, grants_for s n st) # az_grants az"
    and "az_st az' = az_st az" "az_principal az' = az_principal az" "az_owners az' = az_owners az"
  shows "az_ok st p az'"
  unfolding az_ok_def
proof (intro conjI allI impI)
  fix s' n' g assume m: "map_of (az_grants az') (grants_key s' n') = Some g"
  show "g = grants_for s' n' st"
  proof (cases "s' = s \<and> n' = n")
    case True
    with m assms(2) show ?thesis by simp
  next
    case False
    then have "grants_key s n \<noteq> grants_key s' n'" by (auto simp: grants_key_inj)
    with m assms(2) have "map_of (az_grants az) (grants_key s' n') = Some g" by simp
    with ok show ?thesis unfolding az_ok_def by simp
  qed
next
  fix s' n' w assume "map_of (az_owners az') (grants_key s' n') = Some w"
  then show "w = owner_lookup s' n' st" using ok assms(5) unfolding az_ok_def by simp
qed (use az_okD [OF ok] assms(3,4) in simp_all)

lemma az_ok_owners:
  assumes ok: "az_ok st p az" and "az_owners az' = (grants_key s n, owner_lookup s n st) # az_owners az"
    and "az_st az' = az_st az" "az_principal az' = az_principal az" "az_grants az' = az_grants az"
  shows "az_ok st p az'"
  unfolding az_ok_def
proof (intro conjI allI impI)
  fix s' n' g assume m: "map_of (az_owners az') (grants_key s' n') = Some g"
  show "g = owner_lookup s' n' st"
  proof (cases "s' = s \<and> n' = n")
    case True
    with m assms(2) show ?thesis by simp
  next
    case False
    then have "grants_key s n \<noteq> grants_key s' n'" by (auto simp: grants_key_inj)
    with m assms(2) have "map_of (az_owners az) (grants_key s' n') = Some g" by simp
    with ok show ?thesis unfolding az_ok_def by simp
  qed
next
  fix s' n' w assume "map_of (az_grants az') (grants_key s' n') = Some w"
  then show "w = grants_for s' n' st" using ok assms(5) unfolding az_ok_def by simp
qed (use az_okD [OF ok] assms(3,4) in simp_all)

lemma answers_grants: "answers st p (az_grants_of s n) (grants_for s n st)"
proof (rule answersI)
  fix az assume ok: "az_ok st p az"
  show "fst (az_grants_of s n az) = grants_for s n st \<and> az_ok st p (snd (az_grants_of s n az))"
  proof (cases "map_of (az_grants az) (grants_key s n)")
    case None
    have g: "(case store_get KIND_GRANTS (grants_doc_id s n) (as_store (az_st az)) of
        None \<Rightarrow> [] | Some d \<Rightarrow> parse_assignments (d_data d)) = grants_for s n st"
      using ok by (simp add: grants_for_def)
    show ?thesis using None by (simp add: az_grants_of_def Let_def g az_ok_grants [OF ok])
  next
    case (Some g)
    with ok have "g = grants_for s n st" unfolding az_ok_def by simp
    with Some ok show ?thesis by (simp add: az_grants_of_def Let_def)
  qed
qed

lemma answers_owner: "answers st p (az_owner s n) (owner_lookup s n st)"
proof (rule answersI)
  fix az assume ok: "az_ok st p az"
  show "fst (az_owner s n az) = owner_lookup s n st \<and> az_ok st p (snd (az_owner s n az))"
  proof (cases "map_of (az_owners az) (grants_key s n)")
    case None
    with ok show ?thesis by (simp add: az_owner_def Let_def az_ok_owners [OF ok])
  next
    case (Some g)
    with ok have "g = owner_lookup s n st" unfolding az_ok_def by simp
    with Some ok show ?thesis by (simp add: az_owner_def Let_def)
  qed
qed

lemma answers_owner_hit: "answers st p (owner_hit s n) (owned_by st p (s, n))"
proof (rule answersI)
  fix az assume ok: "az_ok st p az"
  obtain az' where "az_owner s n az = (owner_lookup s n st, az')" "az_ok st p az'"
    by (rule answersE [OF answers_owner ok])
  with ok show "fst (owner_hit s n az) = owned_by st p (s, n) \<and> az_ok st p (snd (owner_hit s n az))"
    by (cases "owner_lookup s n st") (simp_all add: owner_hit_def owned_by_def)
qed

lemma answers_grant_hit: "answers st p (grant_hit ok s n) (granted st p ok (s, n))"
proof (rule answersI)
  fix az assume ok: "az_ok st p az"
  obtain az' where "az_grants_of s n az = (grants_for s n st, az')" "az_ok st p az'"
    by (rule answersE [OF answers_grants ok])
  with ok show "fst (grant_hit ok s n az) = granted st p ok (s, n) \<and> az_ok st p (snd (grant_hit ok s n az))"
    by (simp add: grant_hit_def granted_def)
qed

lemma answers_owner_or_grant:
  "answers st p (owner_or_grant ok sn) (owned_by st p sn \<or> granted st p ok sn)"
proof (rule answersI)
  fix az assume ok: "az_ok st p az"
  obtain az1 where o: "owner_hit (fst sn) (snd sn) az = (owned_by st p sn, az1)" and ok1: "az_ok st p az1"
      by (rule answersE [OF answers_owner_hit [of _ _ "fst sn" "snd sn"] ok]) simp
  obtain az2 where g: "grant_hit ok (fst sn) (snd sn) az1 = (granted st p ok sn, az2)" and ok2: "az_ok st p az2"
      by (rule answersE [OF answers_grant_hit [of _ _ ok "fst sn" "snd sn"] ok1]) simp
  show "fst (owner_or_grant ok sn az) = (owned_by st p sn \<or> granted st p ok sn) \<and> az_ok st p (snd (owner_or_grant ok sn az))"
    using o g ok1 ok2 by (cases "owned_by st p sn") (simp_all add: owner_or_grant_def)
qed

lemma answers_any:
  assumes "\<And>x. answers st p (f x) (P x)"
  shows "answers st p (az_any f xs) (list_ex P xs)"
proof (induction xs)
  case Nil
  then show ?case by (simp add: answers_def)
next
  case (Cons x xs)
  show ?case
  proof (rule answersI)
    fix az assume ok: "az_ok st p az"
    obtain az1 where x: "f x az = (P x, az1)" and ok1: "az_ok st p az1"
      by (rule answersE [OF assms ok])
    obtain az2 where "az_any f xs az1 = (list_ex P xs, az2)" "az_ok st p az2"
      by (rule answersE [OF Cons ok1])
    with x ok1 show "fst (az_any f (x # xs) az) = list_ex P (x # xs) \<and> az_ok st p (snd (az_any f (x # xs) az))"
      by (cases "P x") simp_all
  qed
qed

lemma answers_if_admin:
  assumes "answers st p f v"
  shows "answers st p (\<lambda>az. if az_is_admin az then (True, az) else f az) (p_is_admin p \<or> v)"
  using assms by (auto simp: answers_def az_is_admin_def)

lemma answers_is_owner: "answers st p (az_is_owner sec n) (owns st p sec n)"
proof -
  have "answers st p (az_any (\<lambda>(s, m). owner_hit s m) (lineage_of sec n)) (list_ex (owned_by st p) (lineage_of sec n))"
    by (rule answers_any) (auto simp: case_prod_unfold intro: answers_owner_hit)
  from answers_if_admin [OF this] show ?thesis by (simp add: az_is_owner_def [abs_def] owns_def)
qed

lemma answers_has_privilege: "answers st p (az_has_privilege sec n privilege) (holds st p sec n privilege)"
  using answers_if_admin [OF answers_any [OF answers_owner_or_grant]]
  by (simp add: az_has_privilege_def [abs_def] holds_def holds_some_def)

lemma answers_has_any:
  "answers st p (az_has_any_privilege sec n) (holds_some st p (\<lambda>a. a_privileges a \<noteq> []) sec n)"
  using answers_if_admin [OF answers_any [OF answers_owner_or_grant]]
  by (simp add: az_has_any_privilege_def [abs_def] holds_some_def)

lemma owns_holds: "owns st p sec n \<Longrightarrow> holds st p sec n privilege"
  by (auto simp: owns_def holds_def holds_some_def list_ex_iff)

lemma answers_can_manage: "answers st p (az_can_manage sec n) (holds st p sec n ''MANAGE'')"
proof (rule answersI)
  fix az assume ok: "az_ok st p az"
  obtain az1 where o: "az_is_owner sec n az = (owns st p sec n, az1)" and ok1: "az_ok st p az1"
      by (rule answersE [OF answers_is_owner ok])
  obtain az2 where "az_has_privilege sec n ''MANAGE'' az1 = (holds st p sec n ''MANAGE'', az2)" "az_ok st p az2"
      by (rule answersE [OF answers_has_privilege ok1])
  with o ok1 show "fst (az_can_manage sec n az) = holds st p sec n ''MANAGE'' \<and> az_ok st p (snd (az_can_manage sec n az))"
    using owns_holds [of st p sec n "''MANAGE''"] by (cases "owns st p sec n") (simp_all add: az_can_manage_def)
qed

lemma answers_require: "answers st p (az_require sec n privilege) (require_ref st p sec n privilege)"
proof (rule answersI)
  fix az assume ok: "az_ok st p az"
  obtain az1 where "az_has_privilege sec n privilege az = (holds st p sec n privilege, az1)" "az_ok st p az1"
      by (rule answersE [OF answers_has_privilege ok])
  with ok show "fst (az_require sec n privilege az) = require_ref st p sec n privilege \<and>
      az_ok st p (snd (az_require sec n privilege az))"
    by (simp add: az_require_def require_ref_def)
qed

lemma answers_then:
  assumes "answers st p f v" and "answers st p g w"
  shows "answers st p (az_then f g) (try_then v (\<lambda>_. w))"
proof (rule answersI)
  fix az assume ok: "az_ok st p az"
  obtain az1 where f: "f az = (v, az1)" and ok1: "az_ok st p az1"
      by (rule answersE [OF assms(1) ok])
  obtain az2 where "g az1 = (w, az2)" "az_ok st p az2"
      by (rule answersE [OF assms(2) ok1])
  with f ok1 show "fst (az_then f g az) = try_then v (\<lambda>_. w) \<and> az_ok st p (snd (az_then f g az))"
    by (cases v) (simp_all add: az_then_def)
qed

lemma answers_Pair: "answers st p (Pair v) v"
  by (simp add: answers_def)

lemma answers_use_path: "answers st p (az_require_use_path n) (use_path_ref st p n)"
proof -
  obtain c rest where s: "split_on (CHR ''.'') n = c # rest" by (cases "split_on (CHR ''.'') n") auto
  have "answers st p (case c # rest of p0 # p1 # p2 # _ \<Rightarrow> az_require Schema (p0 @ ''.'' @ p1) ''USE_SCHEMA''
            | _ \<Rightarrow> Pair (Inr ()))
      (case rest of p1 # p2 # _ \<Rightarrow> require_ref st p Schema (c @ ''.'' @ p1) ''USE_SCHEMA'' | _ \<Rightarrow> Inr ())"
    by (auto intro: answers_require answers_Pair split: list.split)
  from answers_then [OF answers_require this] show ?thesis
    by (simp add: az_require_use_path_def [abs_def] use_path_ref_def s Let_def)
qed

lemma answers_on_object:
  "answers st p (az_require_on_object sec n privilege)
     (try_then (use_path_ref st p n) (\<lambda>_. require_ref st p sec n privilege))"
  unfolding az_require_on_object_def by (rule answers_then [OF answers_use_path answers_require])

definition grant_below :: "app_state \<Rightarrow> principal \<Rightarrow> string \<Rightarrow> bool" where
  "grant_below st p n = has_grant_below n (az_new st p)"

lemma has_grant_below_ok: "az_ok st p az \<Longrightarrow> has_grant_below n az = grant_below st p n"
  by (simp add: grant_below_def has_grant_below_def az_new_def)

lemma answers_can_browse:
  "answers st p (az_can_browse sec n)
     (holds_some st p (\<lambda>a. a_privileges a \<noteq> []) sec n \<or> (sec = Catalog \<or> sec = Schema) \<and> grant_below st p n)"
proof (rule answersI)
  fix az assume ok: "az_ok st p az"
  obtain az1 where "az_has_any_privilege sec n az = (holds_some st p (\<lambda>a. a_privileges a \<noteq> []) sec n, az1)" "az_ok st p az1"
      by (rule answersE [OF answers_has_any ok])
  then show "fst (az_can_browse sec n az) =
      (holds_some st p (\<lambda>a. a_privileges a \<noteq> []) sec n \<or> (sec = Catalog \<or> sec = Schema) \<and> grant_below st p n) \<and>
      az_ok st p (snd (az_can_browse sec n az))"
    by (cases "holds_some st p (\<lambda>a. a_privileges a \<noteq> []) sec n") (auto simp: az_can_browse_def has_grant_below_ok)
qed

text \<open>C22: The authorizer's caches are transparent: a sequence of checks on one authorizer gives, for
  each check, what the grants and owners in the store give when looked up afresh.\<close>

theorem authorizer_refines:
  "az_ok st p (az_new st p) \<and>
   answers st p (az_is_owner sec n) (owns st p sec n) \<and>
   answers st p (az_has_privilege sec n privilege) (holds st p sec n privilege) \<and>
   answers st p (az_can_manage sec n) (holds st p sec n ''MANAGE'') \<and>
   answers st p (az_require_on_object sec n privilege)
     (try_then (use_path_ref st p n) (\<lambda>_. require_ref st p sec n privilege)) \<and>
   answers st p (az_can_browse sec n)
     (holds_some st p (\<lambda>a. a_privileges a \<noteq> []) sec n \<or> (sec = Catalog \<or> sec = Schema) \<and> grant_below st p n)"
  by (intro conjI az_ok_new answers_is_owner answers_has_privilege answers_can_manage answers_on_object
      answers_can_browse)

section \<open>Inheritance\<close>

lemma split_on_Cons:
  "split_on c s = a # b # rest \<Longrightarrow> \<exists>t. s = a @ c # t \<and> c \<notin> set a \<and> split_on c t = b # rest"
proof (induction s arbitrary: a)
  case (Cons x s)
  show ?case
  proof (cases "x = c")
    case True
    with Cons.prems show ?thesis by (intro exI [of _ s]) simp
  next
    case False
    obtain q qs where q: "split_on c s = q # qs" by (cases "split_on c s") auto
    with Cons.prems False have a: "a = x # q" and "qs = b # rest" by auto
    with Cons.IH [of q] q False show ?thesis by auto
  qed
qed simp

lemma split_on_first: "split_on c s = a # rest \<Longrightarrow> c \<notin> set a"
  by (induction s arbitrary: a rest) (auto split: if_splits list.splits)

lemma lineage_metastore: "(Metastore, METASTORE_ID) \<in> set (lineage_of sec n) \<or> sec = Metastore"
  by (auto simp: lineage_of_def)

lemma lineage_self: "(sec, n) \<in> set (lineage_of sec n)"
  by (simp add: lineage_of_def)

lemma lineage_schema: "CHR ''.'' \<notin> set c \<Longrightarrow>
    set (lineage_of Schema (c @ ''.'' @ s)) = {(Schema, c @ ''.'' @ s), (Catalog, c), (Metastore, METASTORE_ID)}"
  using split_once_append [of "CHR ''.''" c s] by (auto simp: lineage_of_def)

lemma lineage_trans:
  assumes "(s, m) \<in> set (lineage_of sec n)"
  shows "set (lineage_of s m) \<subseteq> set (lineage_of sec n)"
proof -
  let ?up = "case split_on (CHR ''.'') n of p0 # p1 # p2 # _ \<Rightarrow> [(Schema, p0 @ ''.'' @ p1), (Catalog, p0)]
         | [p0, p1] \<Rightarrow> [(Catalog, p0)] | _ \<Rightarrow> []"
  consider (obj) "sec = Table \<or> sec = Volume \<or> sec = Function" | (sch) "sec = Schema"
    | (other) "sec \<noteq> Table" "sec \<noteq> Volume" "sec \<noteq> Function" "sec \<noteq> Schema" by blast
  then show ?thesis
  proof cases
    case obj
    then have lin: "set (lineage_of sec n) = insert (sec, n) (set ?up \<union> {(Metastore, METASTORE_ID)})"
      by (auto simp: lineage_of_def)
    show ?thesis
    proof (cases "(s, m) = (sec, n)")
      case False
      with assms lin consider "(s, m) \<in> set ?up" | "(s, m) = (Metastore, METASTORE_ID)" by auto
      then show ?thesis
      proof cases
        case 1
        obtain p0 rest where p: "split_on (CHR ''.'') n = p0 # rest" by (cases "split_on (CHR ''.'') n") auto
        have plain: "CHR ''.'' \<notin> set p0" by (rule split_on_first [OF p])
        have cat: "set (lineage_of Catalog p0) = {(Catalog, p0), (Metastore, METASTORE_ID)}"
          by (simp add: lineage_of_def insert_commute)
        show ?thesis
        proof (cases rest)
          case Nil
          with 1 show ?thesis by (simp add: p)
        next
          case (Cons p1 rest')
          show ?thesis
          proof (cases rest')
            case Nil
            with 1 Cons cat show ?thesis by (simp add: p lin)
          next
            case (Cons p2 rest'')
            with \<open>rest = p1 # rest'\<close> 1 cat lineage_schema [OF plain, of p1] show ?thesis
              by (auto simp: p lin)
          qed
        qed
      qed (auto simp: lin lineage_of_def [of Metastore])
    qed simp
  next
    case sch
    have met: "set (lineage_of Metastore x) = {(Metastore, x)}"
      and cat: "set (lineage_of Catalog x) = {(Catalog, x), (Metastore, METASTORE_ID)}" for x
      by (simp_all add: lineage_of_def insert_commute)
    show ?thesis
    proof (cases "split_once (CHR ''.'') n")
      case None
      with sch have lin: "set (lineage_of sec n) = {(Schema, n), (Metastore, METASTORE_ID)}"
        by (simp add: lineage_of_def)
      with assms sch consider "s = sec \<and> m = n" | "s = Metastore \<and> m = METASTORE_ID" by auto
      then show ?thesis by cases (simp_all add: lin met)
    next
      case (Some cx)
      with sch have lin: "set (lineage_of sec n) = {(Schema, n), (Catalog, fst cx), (Metastore, METASTORE_ID)}"
        by (cases cx) (simp add: lineage_of_def)
      with assms sch consider "s = sec \<and> m = n" | "s = Metastore \<and> m = METASTORE_ID" | "s = Catalog \<and> m = fst cx"
        by auto
      then show ?thesis by cases (simp_all add: lin met cat)
    qed
  next
    case other
    then have lin: "set (lineage_of sec n) = insert (sec, n) (if sec = Metastore then {} else {(Metastore, METASTORE_ID)})"
      by (simp add: lineage_of_def insert_commute)
    have met: "set (lineage_of Metastore x) = {(Metastore, x)}" for x
      by (simp add: lineage_of_def)
    show ?thesis
    proof (cases "s = sec \<and> m = n")
      case False
      with assms lin have "sec \<noteq> Metastore \<and> s = Metastore \<and> m = METASTORE_ID" by (simp split: if_splits)
      then show ?thesis by (simp add: lin met)
    qed simp
  qed
qed

lemma list_ex_mono_set: "list_ex P xs \<Longrightarrow> set xs \<subseteq> set ys \<Longrightarrow> list_ex P ys"
  by (auto simp: list_ex_iff)

text \<open>What a principal holds at one level: it owns the securable, or a grant there carries the privilege or \<open>ALL_PRIVILEGES\<close>.\<close>

definition held_at :: "app_state \<Rightarrow> principal \<Rightarrow> string \<Rightarrow> securable \<Rightarrow> string \<Rightarrow> bool" where
  "held_at st p privilege s n \<longleftrightarrow>
     (\<exists>w. owner_lookup s n st = Some w \<and> principal_matches p w) \<or>
     (\<exists>a \<in> set (grants_for s n st). principal_matches p (a_principal a) \<and>
        (normalize_privilege privilege \<in> set (a_privileges a) \<or> ''ALL_PRIVILEGES'' \<in> set (a_privileges a)))"

lemma holds_held: "holds st p sec n privilege \<longleftrightarrow> p_is_admin p \<or> (\<exists>(s, m) \<in> set (lineage_of sec n). held_at st p privilege s m)"
proof -
  have "owned_by st p sn \<or> granted st p (grants_privilege (normalize_privilege privilege)) sn \<longleftrightarrow> held_at st p privilege (fst sn) (snd sn)" for sn
    by (cases "owner_lookup (fst sn) (snd sn) st")
      (auto simp: held_at_def owned_by_def granted_def grants_privilege_def list_ex_iff)
  then show ?thesis by (simp add: holds_def holds_some_def list_ex_iff case_prod_unfold)
qed

lemma has_privilege_held: "az_ok st p az \<Longrightarrow> fst (az_has_privilege sec n privilege az) \<longleftrightarrow>
    p_is_admin p \<or> (\<exists>(s, m) \<in> set (lineage_of sec n). held_at st p privilege s m)"
  using answers_has_privilege by (simp add: answers_def holds_held)

lemma is_owner_has: "az_ok st p az \<Longrightarrow> fst (az_is_owner s m az) \<Longrightarrow> (s, m) \<in> set (lineage_of sec n) \<Longrightarrow>
    fst (az_has_privilege sec n privilege az)"
proof -
  assume ok: "az_ok st p az" and "fst (az_is_owner s m az)" and m: "(s, m) \<in> set (lineage_of sec n)"
  then have "owns st p s m" using answers_is_owner [of st p s m] by (simp add: answers_def)
  then have "holds st p s m privilege" by (rule owns_holds)
  then have "holds st p sec n privilege"
    using list_ex_mono_set [OF _ lineage_trans [OF m]] by (auto simp: holds_def holds_some_def)
  then show ?thesis using answers_has_privilege ok by (simp add: answers_def)
qed

text \<open>C23: Privileges are inherited along the three-level names: an authorizer finds a privilege on a
  catalog, on a schema, and on a table, volume or function exactly for administrators and for those who
  own, or were granted the privilege or \<open>ALL_PRIVILEGES\<close> on, the securable itself, its schema, its
  catalog or the metastore; and an owner of a catalog or schema holds every privilege below it.\<close>

theorem privileges_inherited:
  assumes "az_ok st p az" and "CHR ''.'' \<notin> set c" and "CHR ''.'' \<notin> set s" and "CHR ''.'' \<notin> set t"
    and "sec \<in> {Table, Volume, Function}"
  shows "(fst (az_has_privilege Catalog c privilege az) \<longleftrightarrow>
      p_is_admin p \<or> held_at st p privilege Catalog c \<or> held_at st p privilege Metastore METASTORE_ID) \<and>
    (fst (az_has_privilege Schema (c @ ''.'' @ s) privilege az) \<longleftrightarrow>
      p_is_admin p \<or> held_at st p privilege Schema (c @ ''.'' @ s) \<or> held_at st p privilege Catalog c \<or>
      held_at st p privilege Metastore METASTORE_ID) \<and>
    (fst (az_has_privilege sec (c @ ''.'' @ s @ ''.'' @ t) privilege az) \<longleftrightarrow>
      p_is_admin p \<or> held_at st p privilege sec (c @ ''.'' @ s @ ''.'' @ t) \<or> held_at st p privilege Schema (c @ ''.'' @ s) \<or>
      held_at st p privilege Catalog c \<or> held_at st p privilege Metastore METASTORE_ID) \<and>
    (fst (az_is_owner Catalog c az) \<longrightarrow> fst (az_has_privilege Schema (c @ ''.'' @ s) privilege az)) \<and>
    (fst (az_is_owner Catalog c az) \<or> fst (az_is_owner Schema (c @ ''.'' @ s) az) \<longrightarrow>
      fst (az_has_privilege sec (c @ ''.'' @ s @ ''.'' @ t) privilege az))"
proof -
  let ?m = "(Metastore, METASTORE_ID)"
  have split: "split_on (CHR ''.'') (c @ CHR ''.'' # s @ CHR ''.'' # t) = [c, s, t]"
    using assms(2-4) by (simp add: split_on_append split_on_plain)
  have cat: "set (lineage_of Catalog c) = {(Catalog, c), ?m}" by (auto simp: lineage_of_def)
  have sch: "set (lineage_of Schema (c @ ''.'' @ s)) = {(Schema, c @ ''.'' @ s), (Catalog, c), ?m}"
    using assms(2) by (auto simp: lineage_of_def split_once_append)
  have obj: "set (lineage_of sec (c @ ''.'' @ s @ ''.'' @ t)) =
      {(sec, c @ ''.'' @ s @ ''.'' @ t), (Schema, c @ ''.'' @ s), (Catalog, c), ?m}"
    using assms(5) split by (auto simp: lineage_of_def)
  note has = has_privilege_held [OF assms(1)] and owner = is_owner_has [OF assms(1)]
  show ?thesis
    using owner [of Catalog c Schema "c @ ''.'' @ s"] owner [of Catalog c sec "c @ ''.'' @ s @ ''.'' @ t"]
      owner [of Schema "c @ ''.'' @ s" sec "c @ ''.'' @ s @ ''.'' @ t"]
    unfolding has cat sch obj by auto
qed

end
