(* ===== verification/Uc_Grants.thy ===== *)
theory Uc_Grants
  imports Uc_Authorizer
begin

text \<open>
  What the operations on grants do to the stored grants: the JSON form of the assignments round
  trips, a change affects exactly the named principal on the named securable, a drop removes the
  grants of the securable and of its descendants, a rename moves them.
\<close>

section \<open>Normal forms\<close>

lemma replace_char_single: "replace_char c [r] s = map (\<lambda>x. if x = c then r else x) s"
  by (induction s) (auto simp: replace_char_def)

definition trimmed :: "string \<Rightarrow> bool" where
  "trimmed s \<longleftrightarrow> s = [] \<or> \<not> is_space (hd s) \<and> \<not> is_space (last s)"

lemma dropWhile_hd: "s \<noteq> [] \<Longrightarrow> \<not> P (hd s) \<Longrightarrow> dropWhile P s = s"
  by (cases s) auto

lemma trim_trimmed: "trimmed s \<Longrightarrow> trim s = s"
proof (cases "s = []")
  case False
  assume "trimmed s"
  with False have "dropWhile is_space s = s" "dropWhile is_space (rev s) = rev s"
    by (auto simp: trimmed_def hd_rev intro!: dropWhile_hd)
  then show ?thesis by (simp add: trim_def)
qed (simp add: trim_def)

lemma last_dropWhile: "dropWhile P xs \<noteq> [] \<Longrightarrow> last (dropWhile P xs) = last xs"
  by (induction xs) (auto split: if_splits)

lemma trimmed_trim: "trimmed (trim s)"
proof -
  let ?t = "dropWhile is_space s" and ?u = "dropWhile is_space (rev (dropWhile is_space s))"
  have "?u \<noteq> [] \<Longrightarrow> \<not> is_space (hd ?u) \<and> \<not> is_space (last ?u)"
  proof -
    assume u: "?u \<noteq> []"
    then have t: "?t \<noteq> []" by (metis dropWhile.simps(1) rev.simps(1))
    have "last ?u = hd ?t" using last_dropWhile [OF u] t by (simp add: last_rev)
    then show ?thesis using hd_dropWhile [OF u] hd_dropWhile [OF t] by simp
  qed
  then show ?thesis unfolding trimmed_def trim_def by (cases "?u = []") (simp_all add: hd_rev last_rev del: dropWhile_eq_Nil_conv)
qed

lemma space_upper [simp]: "is_space (upper_char c) = is_space c"
  by (cases c) (auto simp: upper_char_def is_space_def)

lemma trimmed_map: "(\<And>c. is_space (f c) \<Longrightarrow> is_space c) \<Longrightarrow> trimmed s \<Longrightarrow> trimmed (map f s)"
  by (auto simp: trimmed_def hd_map last_map)

lemma upper_idem [simp]: "upper_char (upper_char c) = upper_char c"
  by (cases c) (auto simp: upper_char_def)

lemma normalize_map:
  "normalize_privilege p = map (\<lambda>c. if upper_char c = CHR '' '' then CHR ''_'' else upper_char c) (trim p)"
  by (simp add: normalize_privilege_def replace_char_single to_upper_def o_def)

lemma normalize_idem [simp]: "normalize_privilege (normalize_privilege p) = normalize_privilege p"
proof -
  let ?f = "\<lambda>c. if upper_char c = CHR '' '' then CHR ''_'' else upper_char c"
  have sp: "is_space c" if "is_space (?f c)" for c
  proof (cases "upper_char c = CHR '' ''")
    case True
    with that have "is_space (CHR ''_'')" by simp
    then show ?thesis by (simp add: is_space_def)
  next
    case False
    with that show ?thesis by simp
  qed
  have idem: "?f (?f c) = ?f c" for c
  proof (cases "upper_char c = CHR '' ''")
    case True
    have "upper_char (CHR ''_'') = CHR ''_''" by (simp add: upper_char_def)
    with True show ?thesis by simp
  qed simp
  have "trim (map ?f (trim p)) = map ?f (trim p)"
    by (rule trim_trimmed, rule trimmed_map [OF _ trimmed_trim], rule sp)
  then have "normalize_privilege (map ?f (trim p)) = map ?f (map ?f (trim p))"
    by (simp add: normalize_map)
  also have "\<dots> = map ?f (trim p)" using idem by (simp add: o_def)
  finally show ?thesis by (simp add: normalize_map [of p])
qed

section \<open>The JSON form\<close>

definition normal_assignment :: "assignment \<Rightarrow> bool" where
  "normal_assignment a \<longleftrightarrow> (\<forall>p \<in> set (a_privileges a). normalize_privilege p = p)"

lemma map_filter_JStr:
  "(\<forall>p \<in> set ps. normalize_privilege p = p) \<Longrightarrow>
     filter_map (\<lambda>s. map_option normalize_privilege (as_str s)) (map JStr ps) = ps"
  by (induction ps) (simp_all add: filter_map_def List.map_filter_simps)

lemma parse_assignments_json:
  "list_all normal_assignment as \<Longrightarrow>
     parse_assignments (assignments_json as) = filter (\<lambda>a. a_privileges a \<noteq> []) as"
  by (induction as) (auto simp: parse_assignments_def assignments_json_def j_get_jobj jstrs_def
      normal_assignment_def map_filter_JStr)

lemma filter_map_normal: "p \<in> set (filter_map (\<lambda>s. map_option normalize_privilege (as_str s)) xs) \<Longrightarrow> normalize_privilege p = p"
  by (auto simp: filter_map_def List.map_filter_def)

lemma parse_normal: "list_all normal_assignment (parse_assignments v)"
  by (auto simp: parse_assignments_def list_all_iff normal_assignment_def split: option.splits dest!: filter_map_normal)

lemma grants_for_normal: "list_all normal_assignment (grants_for sec n st)"
  by (auto simp: grants_for_def parse_normal split: option.split)

section \<open>What a grants document holds\<close>

lemma grants_for_payload:
  "grants_for sec n st =
     (case doc_payload KIND_GRANTS (grants_doc_id sec n) (as_store st) of
        None \<Rightarrow> [] | Some pnv \<Rightarrow> parse_assignments (snd (snd pnv)))"
  by (simp add: grants_for_def doc_payload_def split: option.split)

lemma store_of_simps [simp]:
  "as_store (store_of s st) = s" "as_admin_user (store_of s st) = as_admin_user st"
  "store_of s (store_of s' st) = store_of s st" "store_of (as_store st) st = st"
  by (simp_all add: store_of_def)

lemma grants_for_delete:
  "grants_for s' n' (store_of (snd (store_delete KIND_GRANTS (grants_doc_id sec n) (as_store st))) st) =
     (if s' = sec \<and> n' = n then [] else grants_for s' n' st)"
  by (auto simp: grants_for_def store_simps grants_doc_id_inj)

lemma grants_for_upsert:
  "grants_for s' n' (store_of (snd (store_upsert now KIND_GRANTS ws (grants_doc_id sec n) p nm v s)) st) =
     (if s' = sec \<and> n' = n then parse_assignments v else grants_for s' n' (store_of s st))"
  by (auto simp: grants_for_def store_simps grants_doc_id_inj)

section \<open>Changing grants\<close>

definition distinct_principals :: "assignment list \<Rightarrow> bool" where
  "distinct_principals as \<longleftrightarrow> distinct (map (\<lambda>a. to_lower (a_principal a)) as)"

definition privs_of :: "string \<Rightarrow> assignment list \<Rightarrow> string set" where
  "privs_of who as = (\<Union>a \<in> {a \<in> set as. eq_ignore_case (a_principal a) who}. set (a_privileges a))"

definition removes :: "string list \<Rightarrow> string \<Rightarrow> bool" where
  "removes rs p \<longleftrightarrow> p \<in> normalize_privilege ` set rs \<or> ''ALL_PRIVILEGES'' \<in> normalize_privilege ` set rs"

lemma privs_of_nonempty: "privs_of who (filter (\<lambda>a. a_privileges a \<noteq> []) as) = privs_of who as"
  by (auto simp: privs_of_def)

lemma privs_of_snoc_empty: "a_privileges x = [] \<Longrightarrow> privs_of who (as @ [x]) = privs_of who as"
  by (auto simp: privs_of_def)

lemma privs_of_update:
  assumes d: "distinct_principals as" and i: "i < length as" and x: "a_principal x = a_principal (as ! i)"
  shows "privs_of who (as[i := x]) =
    (if eq_ignore_case (a_principal (as ! i)) who then set (a_privileges x) else privs_of who as)"
proof -
  have split: "as = take i as @ as ! i # drop (Suc i) as" by (rule id_take_nth_drop [OF i])
  have upd: "as[i := x] = take i as @ x # drop (Suc i) as" by (rule upd_conv_take_nth_drop [OF i])
  have out: "to_lower (a_principal a) \<noteq> to_lower (a_principal (as ! i))"
    if "a \<in> set (take i as) \<union> set (drop (Suc i) as)" for a
  proof -
    have "distinct (map (\<lambda>a. to_lower (a_principal a)) (take i as @ as ! i # drop (Suc i) as))"
      using d split unfolding distinct_principals_def by simp
    with that show ?thesis by (auto simp: image_iff)
  qed
  show ?thesis
  proof (cases "eq_ignore_case (a_principal (as ! i)) who")
    case True
    with out x show ?thesis by (auto simp: upd privs_of_def eq_ignore_case_def)
  next
    case False
    have "set as = insert (as ! i) (set (take i as) \<union> set (drop (Suc i) as))"
      using arg_cong [OF split, of set] by auto
    with False x show ?thesis by (auto simp: upd privs_of_def)
  qed
qed

lemma privs_of_entry:
  assumes "distinct_principals as" and "i < length as" and "eq_ignore_case (a_principal (as ! i)) who"
  shows "privs_of who as = set (a_privileges (as ! i))"
  using privs_of_update [OF assms(1,2) refl, of who] assms(3) by simp

lemma set_add_privileges:
  "add_privileges as ps = Inr qs \<Longrightarrow> set qs = set ps \<union> normalize_privilege ` set as"
  by (induction as arbitrary: ps) (auto simp: Let_def split: if_splits)

lemma add_privileges_error:
  "(\<exists>e. add_privileges as ps = Inl e) \<longleftrightarrow> (\<exists>a \<in> set as. \<not> is_known_privilege (normalize_privilege a))"
  by (induction as arbitrary: ps) (auto simp: Let_def)

lemma set_remove_privileges: "set (fold remove_privilege rs ps) = {p \<in> set ps. \<not> removes rs p}"
  by (induction rs arbitrary: ps) (auto simp: remove_privilege_def Let_def removes_def)

lemma index_of_Some: "index_of P xs = Some i \<Longrightarrow> i < length xs \<and> P (xs ! i)"
  by (induction xs arbitrary: i) (auto split: if_splits)

lemma index_of_None: "index_of P xs = None \<longleftrightarrow> (\<forall>x \<in> set xs. \<not> P x)"
  by (induction xs) auto

text \<open>The list the change works on: the principal's entry, appended when missing, and its index.\<close>

definition entry_of :: "string \<Rightarrow> assignment list \<Rightarrow> assignment list \<times> nat" where
  "entry_of who as0 =
     (case index_of (\<lambda>a. eq_ignore_case (a_principal a) who) as0 of
        Some i \<Rightarrow> (as0, i) | None \<Rightarrow> (as0 @ [\<lparr>a_principal = who, a_privileges = []\<rparr>], length as0))"

lemma entry_of_facts:
  assumes "entry_of who as0 = (as1, i)" and "distinct_principals as0" and "list_all normal_assignment as0"
  shows "distinct_principals as1" "i < length as1" "eq_ignore_case (a_principal (as1 ! i)) who"
    "privs_of w as1 = privs_of w as0" "list_all normal_assignment as1"
  using assms
proof -
  let ?new = "\<lparr>a_principal = who, a_privileges = []\<rparr>"
  have "distinct_principals as1 \<and> i < length as1 \<and> eq_ignore_case (a_principal (as1 ! i)) who \<and>
    privs_of w as1 = privs_of w as0 \<and> list_all normal_assignment as1"
  proof (cases "index_of (\<lambda>a. eq_ignore_case (a_principal a) who) as0")
    case None
    then have "\<forall>a \<in> set as0. to_lower (a_principal a) \<noteq> to_lower who"
      by (simp add: index_of_None eq_ignore_case_def)
    then have "distinct_principals (as0 @ [?new])"
      using assms(2) by (force simp: distinct_principals_def)
    with None assms show ?thesis
      by (auto simp: entry_of_def privs_of_snoc_empty normal_assignment_def eq_ignore_case_def)
  next
    case (Some j)
    with assms index_of_Some [OF Some] show ?thesis by (auto simp: entry_of_def)
  qed
  then show "distinct_principals as1" "i < length as1" "eq_ignore_case (a_principal (as1 ! i)) who"
    "privs_of w as1 = privs_of w as0" "list_all normal_assignment as1" by simp_all
qed

lemma upsert_case:
  "(case store_upsert now k ws i p n v s of (Inl e, s') \<Rightarrow> f e s' | (Inr u, s') \<Rightarrow> g u s') =
     g () (snd (store_upsert now k ws i p n v s))"
  using upsert_ok [of now k ws i p n v s] by (cases "store_upsert now k ws i p n v s") simp

lemma change_grants_entry:
  "change_grants now sec n who add remove st =
     (case entry_of who (grants_for sec n st) of
        (as1, i) \<Rightarrow> (case add_privileges add (a_privileges (as1 ! i)) of
          Inl e \<Rightarrow> (Inl e, st)
        | Inr ps \<Rightarrow>
            (let as2 = filter (\<lambda>a. a_privileges a \<noteq> [])
                   (as1[i := (as1 ! i)\<lparr>a_privileges := fold remove_privilege remove ps\<rparr>])
             in (Inr as2, store_of (if as2 = [] then snd (store_delete KIND_GRANTS (grants_doc_id sec n) (as_store st))
                  else snd (store_upsert now KIND_GRANTS workspace_id (grants_doc_id sec n) None
                    (Some (grants_key sec n)) (assignments_json as2) (as_store st))) st))))"
proof (cases "entry_of who (grants_for sec n st)")
  case (Pair as1 i)
  then have e: "(case index_of (\<lambda>a. eq_ignore_case (a_principal a) who) (grants_for sec n st) of
        Some i \<Rightarrow> (grants_for sec n st, i)
      | None \<Rightarrow> (grants_for sec n st @ [\<lparr>a_principal = who, a_privileges = []\<rparr>], length (grants_for sec n st))) = (as1, i)"
    by (simp add: entry_of_def)
  have c: "(if as = [] then (Inr as, store_of s st)
      else case store_upsert now k ws j p nm v s0 of (Inl e, s') \<Rightarrow> (Inl e, store_of s' st) | (Inr _, s') \<Rightarrow> (Inr as, store_of s' st)) =
      (Inr as, store_of (if as = [] then s else snd (store_upsert now k ws j p nm v s0)) st)" for as s k ws j p nm v s0
    by (simp add: upsert_case)
  show ?thesis
    unfolding change_grants_def Let_def e Pair prod.case c ..
qed

lemma change_grants_effect:
  assumes d: "distinct_principals (grants_for sec n st)"
    and run: "change_grants now sec n who add remove st = (r, st')"
  shows "case r of
      Inl e \<Rightarrow> (\<exists>a \<in> set add. \<not> is_known_privilege (normalize_privilege a)) \<and> st' = st
    | Inr as \<Rightarrow> grants_for sec n st' = as \<and> distinct_principals as \<and>
        privs_of who as = {p \<in> privs_of who (grants_for sec n st) \<union> normalize_privilege ` set add. \<not> removes remove p} \<and>
        (\<forall>w. \<not> eq_ignore_case w who \<longrightarrow> privs_of w as = privs_of w (grants_for sec n st)) \<and>
        (\<forall>s' n'. (s', n') \<noteq> (sec, n) \<longrightarrow> grants_for s' n' st' = grants_for s' n' st)"
proof -
  obtain as1 i where e: "entry_of who (grants_for sec n st) = (as1, i)" by (cases "entry_of who (grants_for sec n st)")
  note f = entry_of_facts [OF e d grants_for_normal]
  show ?thesis
  proof (cases "add_privileges add (a_privileges (as1 ! i))")
    case (Inl err)
    with run have "r = Inl err" "st' = st" by (simp_all add: change_grants_entry e)
    moreover have "\<exists>a \<in> set add. \<not> is_known_privilege (normalize_privilege a)"
      using Inl add_privileges_error by metis
    ultimately show ?thesis by simp
  next
    case (Inr ps)
    let ?x = "(as1 ! i)\<lparr>a_privileges := fold remove_privilege remove ps\<rparr>"
    let ?as = "filter (\<lambda>a. a_privileges a \<noteq> []) (as1[i := ?x])"
    have r: "r = Inr ?as" and st': "st' = store_of (if ?as = [] then snd (store_delete KIND_GRANTS (grants_doc_id sec n) (as_store st))
        else snd (store_upsert now KIND_GRANTS workspace_id (grants_doc_id sec n) None
          (Some (grants_key sec n)) (assignments_json ?as) (as_store st))) st"
      using run by (auto simp: change_grants_entry e Inr Let_def)
    have old: "set (a_privileges (as1 ! i)) = privs_of who (grants_for sec n st)"
      using privs_of_entry [OF f(1-3)] f(4) by simp
    have ps: "set ps = privs_of who (grants_for sec n st) \<union> normalize_privilege ` set add"
      using set_add_privileges [OF Inr] old by simp
    have "normal_assignment (as1 ! i)" using f(2,5) by (simp add: list_all_length)
    with ps set_add_privileges [OF Inr] have nx: "normal_assignment ?x"
      by (auto simp: normal_assignment_def set_remove_privileges)
    then have normal: "list_all normal_assignment (as1[i := ?x])"
      using f(5) by (auto simp: list_all_iff dest!: set_update_subset_insert [THEN subsetD])
    have names: "map (\<lambda>a. to_lower (a_principal a)) (as1[i := ?x]) = map (\<lambda>a. to_lower (a_principal a)) as1"
      using f(2) by (simp add: map_update list_update_same_conv)
    have dist: "distinct_principals ?as"
      using f(1) names unfolding distinct_principals_def by (metis distinct_map_filter)
    have who: "privs_of who ?as = {p \<in> privs_of who (grants_for sec n st) \<union> normalize_privilege ` set add. \<not> removes remove p}"
      using privs_of_update [OF f(1,2), of ?x who] f(3) ps
      by (simp add: privs_of_nonempty set_remove_privileges)
    have others: "privs_of w ?as = privs_of w (grants_for sec n st)" if "\<not> eq_ignore_case w who" for w
    proof -
      have "\<not> eq_ignore_case (a_principal (as1 ! i)) w" using that f(3) by (simp add: eq_ignore_case_def)
      then show ?thesis using privs_of_update [OF f(1,2), of ?x w] f(4) by (simp add: privs_of_nonempty)
    qed
    have "list_all normal_assignment ?as" using normal by (auto simp: list_all_iff)
    then have parse: "parse_assignments (assignments_json ?as) = ?as" by (simp add: parse_assignments_json)
    have stored: "grants_for s' n' st' = (if s' = sec \<and> n' = n then ?as else grants_for s' n' st)" for s' n'
    proof (cases "?as = []")
      case True
      then show ?thesis by (simp add: st' grants_for_delete del: filter_empty_conv)
    next
      case False
      then show ?thesis by (simp add: st' grants_for_upsert parse del: filter_empty_conv)
    qed
    show ?thesis using r dist who others stored by simp
  qed
qed

text \<open>Changing the grants of a principal on a securable leaves in the store exactly the returned
  assignments, in which the principal (in any case of its name) has the old and the added privileges
  less the removed ones (all of them when \<open>ALL_PRIVILEGES\<close> is removed); other principals and other
  securables keep theirs, no principal gets a second entry, and an unknown privilege is refused.\<close>

theorem change_grants_exact:
  assumes d: "distinct_principals (grants_for sec n st)"
    and run: "change_grants now sec n who add remove st = (r, st')"
  shows "case r of
      Inl e \<Rightarrow> (\<exists>a \<in> set add. \<not> is_known_privilege (normalize_privilege a)) \<and> st' = st
    | Inr as \<Rightarrow> grants_for sec n st' = as \<and> distinct_principals as \<and>
        privs_of who as = {p \<in> privs_of who (grants_for sec n st) \<union> normalize_privilege ` set add. \<not> removes remove p} \<and>
        (\<forall>w. \<not> eq_ignore_case w who \<longrightarrow> privs_of w as = privs_of w (grants_for sec n st)) \<and>
        (\<forall>s' n'. (s', n') \<noteq> (sec, n) \<longrightarrow> grants_for s' n' st' = grants_for s' n' st)"
  by (rule change_grants_effect [OF d run])

end
