(* ===== verification/Api_Store_Theorems.thy ===== *)
theory Api_Store_Theorems
  imports Api_Store_Laws
begin

text \<open>
  What the listing by name prefix returns on the two databases, the sequence numbers, and the
  eviction of the oldest documents.
\<close>

section \<open>The prefix pattern\<close>

lemma replace_char_append: "replace_char c r (a @ b) = replace_char c r a @ replace_char c r b"
  by (simp add: replace_char_def)

lemma replace_char_Cons: "replace_char c r (x # xs) = (if x = c then r else [x]) @ replace_char c r xs"
  by (simp add: replace_char_def)

lemma replace_char_Nil [simp]: "replace_char c r [] = []"
  by (simp add: replace_char_def)

lemma prefix_pattern_Nil: "prefix_pattern [] = ''%''"
  by (simp add: prefix_pattern_def)

lemma prefix_pattern_Cons:
  "prefix_pattern (c # p) =
     (if c = CHR ''%'' then [backslash, CHR ''%''] else if c = CHR ''_'' then [backslash, CHR ''_''] else [c])
       @ prefix_pattern p"
  by (simp add: prefix_pattern_def replace_char_Cons)

lemma like_postgres_any [simp]: "like_postgres ''%'' s"
  by (induction s) auto

lemma like_sqlite_any [simp]: "like_sqlite ''%'' s"
  by (induction s) auto

lemma postgres_prefix: "backslash \<notin> set p \<Longrightarrow> like_postgres (prefix_pattern p) s = starts_with s p"
proof (induction p arbitrary: s)
  case Nil
  then show ?case by (simp add: prefix_pattern_Nil)
next
  case (Cons c p)
  then show ?case by (cases s) (auto simp: prefix_pattern_Cons)
qed

lemma sqlite_plain_prefix:
  "CHR ''%'' \<notin> set p \<Longrightarrow> CHR ''_'' \<notin> set p \<Longrightarrow>
     like_sqlite (prefix_pattern p) s = starts_with (to_lower s) (to_lower p)"
proof (induction p arbitrary: s)
  case Nil
  then show ?case by (simp add: prefix_pattern_Nil to_lower_def)
next
  case (Cons c p)
  then show ?case by (cases s) (auto simp: prefix_pattern_Cons to_lower_def)
qed

lemma lower_backslash: "lower_char c = backslash \<Longrightarrow> c = backslash"
proof (cases c)
  case (Char b0 b1 b2 b3 b4 b5 b6 b7)
  assume "lower_char c = backslash"
  then show ?thesis by (auto simp: lower_char_def Char split: if_splits)
qed

lemma sqlite_special_prefix:
  "like_sqlite (prefix_pattern p) s \<Longrightarrow> CHR ''%'' \<in> set p \<or> CHR ''_'' \<in> set p \<Longrightarrow> backslash \<in> set s"
proof (induction p arbitrary: s)
  case (Cons c p)
  have bs: "lower_char backslash = backslash" by (simp add: lower_char_def)
  show ?case
  proof (cases "c = CHR ''%'' \<or> c = CHR ''_''")
    case True
    with Cons.prems(1) obtain x xs where "s = x # xs" "lower_char x = backslash"
      by (cases s) (auto simp: prefix_pattern_Cons bs split: if_splits)
    then show ?thesis using lower_backslash by auto
  next
    case False
    with Cons.prems obtain x xs where "s = x # xs" "like_sqlite (prefix_pattern p) xs"
      by (cases s) (auto simp: prefix_pattern_Cons split: if_splits)
    with False Cons show ?thesis by auto
  qed
qed simp

definition prefix_listed :: "store \<Rightarrow> string \<Rightarrow> string \<Rightarrow> string \<Rightarrow> doc \<Rightarrow> bool" where
  "prefix_listed s k ws p d \<longleftrightarrow> d \<in> set (store_list k ws (default_filter\<lparr>f_prefix := Some p\<rparr>) s)"

lemma prefix_listed_iff:
  assumes "within_limit k s"
  shows "prefix_listed s k ws p d \<longleftrightarrow> d \<in> set (st_docs s) \<and> d_kind d = k \<and> d_ws d = ws \<and>
    (\<exists>n. d_name d = Some n \<and> sql_like (st_dialect s) (prefix_pattern p) n)"
  using set_list_all [OF assms, of "default_filter\<lparr>f_prefix := Some p\<rparr>" ws]
  by (auto simp: prefix_listed_def default_filter_def row_matches_def split: option.splits)

text \<open>Listing by name prefix, which the catalog uses to find the descendants of a securable. On
  Postgres it returns exactly the documents whose name starts with the prefix; on SQLite the
  comparison ignores case, and a prefix with an underscore or a percent sign matches no name at all
  unless it contains a backslash, because the query has no \<open>ESCAPE\<close> clause.\<close>

theorem prefix_listing:
  assumes "within_limit k s" and "d \<in> set (st_docs s)" and "d_kind d = k" and "d_ws d = ws" and "d_name d = Some n"
  shows "(st_dialect s = Postgres \<and> backslash \<notin> set p \<longrightarrow> prefix_listed s k ws p d = starts_with n p) \<and>
    (st_dialect s = Sqlite \<and> CHR ''%'' \<notin> set p \<and> CHR ''_'' \<notin> set p \<longrightarrow>
       prefix_listed s k ws p d = starts_with (to_lower n) (to_lower p)) \<and>
    (st_dialect s = Sqlite \<and> (CHR ''%'' \<in> set p \<or> CHR ''_'' \<in> set p) \<and> backslash \<notin> set n \<longrightarrow>
       \<not> prefix_listed s k ws p d)"
proof -
  have "prefix_listed s k ws p d = sql_like (st_dialect s) (prefix_pattern p) n"
    using assms by (simp add: prefix_listed_iff)
  then show ?thesis
    using postgres_prefix sqlite_plain_prefix sqlite_special_prefix by (auto simp: sql_like_def)
qed

definition owned_schema :: doc where
  "owned_schema = \<lparr>d_id = ''uc_schema:my_cat.s'', d_kind = ''uc_schema'', d_ws = ''default'', d_parent = Some ''my_cat'',
     d_name = Some ''my_cat.s'', d_data = jobj [(''owner'', JStr ''bob'')], d_created_at = 1, d_updated_at = 1\<rparr>"

definition store_on :: "dialect \<Rightarrow> store" where
  "store_on dia = \<lparr>st_dialect = dia, st_docs = [owned_schema], st_kv = []\<rparr>"

theorem prefix_listing_witness:
  "prefix_listed (store_on Postgres) ''uc_schema'' ''default'' ''my_cat.'' owned_schema \<and>
   \<not> prefix_listed (store_on Sqlite) ''uc_schema'' ''default'' ''my_cat.'' owned_schema"
proof -
  have "within_limit ''uc_schema'' (store_on dia)" for dia
    by (simp add: within_limit_def store_on_def owned_schema_def)
  then have all: "(st_dialect (store_on dia) = Postgres \<and> backslash \<notin> set ''my_cat.'' \<longrightarrow>
      prefix_listed (store_on dia) ''uc_schema'' ''default'' ''my_cat.'' owned_schema = starts_with ''my_cat.s'' ''my_cat.'') \<and>
    (st_dialect (store_on dia) = Sqlite \<and> CHR ''%'' \<notin> set ''my_cat.'' \<and> CHR ''_'' \<notin> set ''my_cat.'' \<longrightarrow>
       prefix_listed (store_on dia) ''uc_schema'' ''default'' ''my_cat.'' owned_schema =
         starts_with (to_lower ''my_cat.s'') (to_lower ''my_cat.'')) \<and>
    (st_dialect (store_on dia) = Sqlite \<and> (CHR ''%'' \<in> set ''my_cat.'' \<or> CHR ''_'' \<in> set ''my_cat.'') \<and>
       backslash \<notin> set ''my_cat.s'' \<longrightarrow> \<not> prefix_listed (store_on dia) ''uc_schema'' ''default'' ''my_cat.'' owned_schema)"
    for dia
    by (rule prefix_listing) (simp_all add: store_on_def owned_schema_def)
  show ?thesis using all [of Postgres] all [of Sqlite] by (simp add: store_on_def)
qed

section \<open>Sequence numbers\<close>

definition seq_value :: "string \<Rightarrow> store \<Rightarrow> int" where
  "seq_value name s = or_default 1000 (Option.bind (kv_get (''seq:'' @ name) s) parse_i64)"

lemma wrap_i64_range: "- (2 ^ 63) \<le> wrap_i64 n" "wrap_i64 n < 2 ^ 63"
  using sint_range_size [of "word_of_int n :: u64"]
  by (simp_all add: wrap_i64_def word_size)

lemma wrap_i64_small: "- (2 ^ 63) \<le> n \<Longrightarrow> n < 2 ^ 63 \<Longrightarrow> wrap_i64 n = n"
  by (simp add: wrap_i64_def signed_of_int signed_take_bit_int_eq_self_iff)

lemma parse_uint_bound: "parse_uint b s = Some n \<Longrightarrow> n < b"
  by (auto simp: parse_uint_def Let_def split: if_splits)

lemma parse_i64_range: "parse_i64 s = Some n \<Longrightarrow> - (2 ^ 63) \<le> n \<and> n < 2 ^ 63"
  by (auto simp: parse_i64_def split: list.splits if_splits dest!: parse_uint_bound)

lemma seq_value_range: "- (2 ^ 63) \<le> seq_value name s \<and> seq_value name s < 2 ^ 63"
  by (auto simp: seq_value_def or_default_def bind_eq_Some_conv split: option.splits dest: parse_i64_range)

lemma next_seq_value: "seq_value name (snd (next_seq name s)) = fst (next_seq name s)"
  using parse_show_i64 [OF wrap_i64_range]
  by (simp add: seq_value_def next_seq_def Let_def kv_get_set)

lemma next_seq_other: "name' \<noteq> name \<Longrightarrow> seq_value name' (snd (next_seq name s)) = seq_value name' s"
  by (simp add: seq_value_def next_seq_def Let_def kv_get_set)

lemma next_seq_fst: "fst (next_seq name s) = wrap_i64 (seq_value name s + 1)"
  by (simp add: next_seq_def Let_def seq_value_def)

fun seq_ids :: "nat \<Rightarrow> string \<Rightarrow> store \<Rightarrow> int list \<times> store" where
  "seq_ids 0 name s = ([], s)"
| "seq_ids (Suc n) name s =
     (case next_seq name s of (i, s') \<Rightarrow> (case seq_ids n name s' of (is, s'') \<Rightarrow> (i # is, s'')))"

text \<open>The ids drawn from a sequence count up by one from the stored value, without repetition, as
  long as they stay below the range of 64 bits; other sequences do not change.\<close>

theorem sequence_ids_distinct:
  assumes "seq_value name s + int n < 2 ^ 63"
  shows "fst (seq_ids n name s) = map (\<lambda>i. seq_value name s + 1 + int i) [0..<n] \<and>
    distinct (fst (seq_ids n name s)) \<and> seq_value name (snd (seq_ids n name s)) = seq_value name s + int n \<and>
    (name' \<noteq> name \<longrightarrow> seq_value name' (snd (seq_ids n name s)) = seq_value name' s)"
  using assms
proof (induction n arbitrary: s)
  case (Suc n)
  obtain i s' where step: "next_seq name s = (i, s')" by (cases "next_seq name s")
  have i: "i = seq_value name s + 1"
    using next_seq_fst [of name s] seq_value_range [of name s] Suc.prems wrap_i64_small [of "seq_value name s + 1"]
    by (simp add: step)
  have v: "seq_value name s' = i" using next_seq_value [of name s] by (simp add: step)
  obtain ids s'' where rest: "seq_ids n name s' = (ids, s'')" by (cases "seq_ids n name s'")
  have IH: "ids = map (\<lambda>j. i + 1 + int j) [0..<n] \<and> seq_value name s'' = i + int n \<and>
      (name' \<noteq> name \<longrightarrow> seq_value name' s'' = seq_value name' s')"
    using Suc.IH [of s'] Suc.prems by (simp add: rest v i)
  have "i # ids = map (\<lambda>j. seq_value name s + 1 + int j) [0..<Suc n]"
    using IH i by (simp add: upt_conv_Cons map_Suc_upt [symmetric] del: upt_Suc)
  moreover have "distinct (map (\<lambda>j. seq_value name s + 1 + int j) [0..<Suc n])"
    by (simp add: distinct_map inj_on_def del: upt_Suc)
  ultimately show ?case
    using IH i next_seq_other [of name' name s] by (simp add: step rest del: upt_Suc)
qed simp

theorem sequence_ids_distinct_witness:
  "fst (seq_ids 3 ''job'' \<lparr>st_dialect = Sqlite, st_docs = [], st_kv = []\<rparr>) = [1001, 1002, 1003]"
proof -
  have "seq_value ''job'' \<lparr>st_dialect = Sqlite, st_docs = [], st_kv = []\<rparr> = 1000"
    by (simp add: seq_value_def kv_get_def)
  with sequence_ids_distinct [of "''job''" "\<lparr>st_dialect = Sqlite, st_docs = [], st_kv = []\<rparr>" 3] show ?thesis
    by (simp add: upt_rec)
qed

end
