(* ===== verification/Uc_Grants_Tree.thy ===== *)
theory Uc_Grants_Tree
  imports Uc_Grants Api_Store_Theorems
begin

text \<open>
  Grants along the tree of securables: what dropping and renaming a securable does to the grants of
  its descendants, what a principal can browse, and concrete instances of the grant theorems.
\<close>

section \<open>The grants table\<close>

text \<open>Every grants document is stored under the id and the name of its securable.\<close>

definition grants_row :: "doc \<Rightarrow> bool" where
  "grants_row d \<longleftrightarrow> d_ws d = workspace_id \<and>
     (\<exists>s n. d_id d = grants_doc_id s n \<and> d_name d = Some (grants_key s n))"

definition grants_table_ok :: "app_state \<Rightarrow> bool" where
  "grants_table_ok st \<longleftrightarrow> store_inv (as_store st) \<and> within_limit KIND_GRANTS (as_store st) \<and>
     (\<forall>d \<in> set (st_docs (as_store st)). d_kind d = KIND_GRANTS \<longrightarrow> grants_row d)"

lemma set_all_grants:
  assumes "grants_table_ok st"
  shows "set (all_grants st) =
    {(grants_key s n, grants_for s n st) |s n. store_get KIND_GRANTS (grants_doc_id s n) (as_store st) \<noteq> None}"
proof -
  let ?s = "as_store st"
  have inv: "store_inv ?s" and lim: "within_limit KIND_GRANTS ?s"
    and rows: "\<And>d. d \<in> set (st_docs ?s) \<Longrightarrow> d_kind d = KIND_GRANTS \<Longrightarrow> grants_row d"
    using assms by (auto simp: grants_table_ok_def)
  have docs: "set (store_list KIND_GRANTS workspace_id default_filter ?s) =
      {d \<in> set (st_docs ?s). d_kind d = KIND_GRANTS \<and> d_ws d = workspace_id}"
    using set_list_all [OF lim, of default_filter workspace_id] by (auto simp: default_filter_def row_matches_def)
  show ?thesis
  proof (intro set_eqI iffI)
    fix x assume "x \<in> set (all_grants st)"
    then obtain d where d: "d \<in> set (st_docs ?s)" "d_kind d = KIND_GRANTS"
      and x: "x = (or_default [] (d_name d), parse_assignments (d_data d))"
      unfolding all_grants_def using docs by auto
    from rows [OF d] obtain s n where id: "d_id d = grants_doc_id s n" "d_name d = Some (grants_key s n)"
      by (auto simp: grants_row_def)
    then have "store_get KIND_GRANTS (grants_doc_id s n) ?s = Some d"
      using d by (simp add: store_get_iff [OF inv])
    with x id show "x \<in> {(grants_key s n, grants_for s n st) |s n. store_get KIND_GRANTS (grants_doc_id s n) ?s \<noteq> None}"
      unfolding mem_Collect_eq by (intro exI [of _ s] exI [of _ n]) (simp add: grants_for_def)
  next
    fix x assume "x \<in> {(grants_key s n, grants_for s n st) |s n. store_get KIND_GRANTS (grants_doc_id s n) ?s \<noteq> None}"
    then obtain s n d where x: "x = (grants_key s n, grants_for s n st)"
      and d: "store_get KIND_GRANTS (grants_doc_id s n) ?s = Some d" by auto
    then have in_d: "d \<in> set (st_docs ?s)" "d_kind d = KIND_GRANTS" "d_id d = grants_doc_id s n"
      by (simp_all add: store_get_iff [OF inv])
    with rows [OF in_d(1,2)] have "d_name d = Some (grants_key s n)" "d_ws d = workspace_id"
      by (auto simp: grants_row_def grants_doc_id_inj)
    with in_d docs x d show "x \<in> set (all_grants st)"
      unfolding all_grants_def by (auto simp: grants_for_def image_iff intro!: bexI [of _ d])
  qed
qed

lemma grants_table_delete:
  assumes "grants_table_ok st"
  shows "grants_table_ok (store_of (snd (store_delete KIND_GRANTS i (as_store st))) st)"
proof -
  have "length (filter (\<lambda>d. d_kind d = KIND_GRANTS) (st_docs (snd (store_delete KIND_GRANTS i (as_store st))))) \<le>
      length (filter (\<lambda>d. d_kind d = KIND_GRANTS) (st_docs (as_store st)))"
    unfolding store_delete_def by simp (rule length_filter_mono, simp)
  moreover have "set (st_docs (snd (store_delete KIND_GRANTS i (as_store st)))) \<subseteq> set (st_docs (as_store st))"
    by (auto simp: store_delete_def)
  ultimately show ?thesis
    using assms by (auto simp: grants_table_ok_def within_limit_def inv_delete)
qed

section \<open>Dropping\<close>

definition drops :: "string \<Rightarrow> string \<times> assignment list \<Rightarrow> (string \<times> string) list" where
  "drops n ka =
     (case split_once (CHR '':'') (fst ka) of
        None \<Rightarrow> []
      | Some (t, name) \<Rightarrow> if starts_with name (n @ ''.'') then
          (case securable_parse t of Inl _ \<Rightarrow> [] | Inr s \<Rightarrow> [(KIND_GRANTS, grants_doc_id s name)]) else [])"

lemma drop_step:
  "(case split_once (CHR '':'') key of
      None \<Rightarrow> st'
    | Some (t, name) \<Rightarrow>
        (if starts_with name (n @ ''.'') then
           (case securable_parse t of
              Inl _ \<Rightarrow> st'
            | Inr s \<Rightarrow> store_of (snd (store_delete KIND_GRANTS (grants_doc_id s name) (as_store st'))) st')
         else st')) =
     store_of (fold (\<lambda>(k, i) s. snd (store_delete k i s)) (drops n (key, as)) (as_store st')) st'"
  by (auto simp: drops_def split: option.split sum.split)

lemma drop_fold:
  "fold (\<lambda>(key, as) st'. case split_once (CHR '':'') key of
               None \<Rightarrow> st'
             | Some (t, name) \<Rightarrow>
                 (if starts_with name (n @ ''.'') then
                    (case securable_parse t of
                       Inl _ \<Rightarrow> st'
                     | Inr s \<Rightarrow> store_of (snd (store_delete KIND_GRANTS (grants_doc_id s name) (as_store st'))) st')
                  else st')) kas st =
     store_of (fold (\<lambda>(k, i) s. snd (store_delete k i s)) (concat (map (drops n) kas)) (as_store st)) st"
proof (induction kas arbitrary: st)
  case (Cons ka kas)
  obtain key as where ka: "ka = (key, as)" by (cases ka)
  show ?case
    unfolding fold.simps o_apply Cons.IH ka prod.case drop_step [where key = key and n = n and as = as]
    by simp
qed simp

lemma drops_grants_key:
  "drops n (grants_key s m, as) = (if starts_with m (n @ ''.'') then [(KIND_GRANTS, grants_doc_id s m)] else [])"
  by (simp add: drops_def)

text \<open>Dropping a catalog or schema removes its grants and the grants of everything named below it,
  and no others; dropping any other securable removes its own grants only.\<close>

theorem drop_grants_exact:
  assumes "grants_table_ok st"
  shows "grants_for s m (drop_grants sec n st) =
    (if (s, m) = (sec, n) \<or> (sec = Catalog \<or> sec = Schema) \<and> starts_with m (n @ ''.'') then []
     else grants_for s m st)"
proof -
  let ?st1 = "store_of (snd (store_delete KIND_GRANTS (grants_doc_id sec n) (as_store st))) st"
  have one: "grants_for s' m' ?st1 = (if s' = sec \<and> m' = n then [] else grants_for s' m' st)" for s' m'
    by (rule grants_for_delete)
  show ?thesis
  proof (cases "sec = Catalog \<or> sec = Schema")
    case False
    then show ?thesis using one [of s m] by (simp add: drop_grants_def Let_def)
  next
    case True
    have ok1: "grants_table_ok ?st1" by (rule grants_table_delete [OF assms])
    let ?ks = "concat (map (drops n) (all_grants ?st1))"
    have inv: "store_inv (as_store ?st1)" using ok1 by (simp add: grants_table_ok_def)
    have hit: "(KIND_GRANTS, grants_doc_id s m) \<in> set ?ks \<longleftrightarrow>
        starts_with m (n @ ''.'') \<and> store_get KIND_GRANTS (grants_doc_id s m) (as_store ?st1) \<noteq> None"
      (is "_ \<longleftrightarrow> ?R")
    proof
      assume "(KIND_GRANTS, grants_doc_id s m) \<in> set ?ks"
      then obtain ka where ka: "ka \<in> set (all_grants ?st1)" "(KIND_GRANTS, grants_doc_id s m) \<in> set (drops n ka)"
        by auto
      from ka(1) obtain s' m' where "ka = (grants_key s' m', grants_for s' m' ?st1)"
        "store_get KIND_GRANTS (grants_doc_id s' m') (as_store ?st1) \<noteq> None"
        unfolding set_all_grants [OF ok1] by blast
      with ka(2) show ?R by (auto simp: drops_grants_key grants_doc_id_inj split: if_splits)
    next
      assume R: ?R
      then have "(grants_key s m, grants_for s m ?st1) \<in> set (all_grants ?st1)"
        unfolding set_all_grants [OF ok1] by blast
      moreover have "(KIND_GRANTS, grants_doc_id s m) \<in> set (drops n (grants_key s m, grants_for s m ?st1))"
        using R by (simp add: drops_grants_key)
      ultimately show "(KIND_GRANTS, grants_doc_id s m) \<in> set ?ks" unfolding set_concat set_map by blast
    qed
    have run: "drop_grants sec n st = store_of (fold (\<lambda>(k, i) s. snd (store_delete k i s)) ?ks (as_store ?st1)) ?st1"
      using True unfolding drop_grants_def Let_def drop_fold by simp
    have "doc_payload KIND_GRANTS (grants_doc_id s m) (as_store (drop_grants sec n st)) =
        (if (KIND_GRANTS, grants_doc_id s m) \<in> set ?ks then None
         else doc_payload KIND_GRANTS (grants_doc_id s m) (as_store ?st1))"
      using documents.get_del_all [OF inv, of "(KIND_GRANTS, grants_doc_id s m)" ?ks] unfolding run by simp
    then have "grants_for s m (drop_grants sec n st) =
        (if starts_with m (n @ ''.'') then [] else grants_for s m ?st1)"
      unfolding grants_for_payload hit by (auto simp: doc_payload_def)
    then show ?thesis using True one [of s m] by auto
  qed
qed

section \<open>Renaming\<close>

text \<open>Renaming a securable moves its non-empty assignments to the new name, replacing whatever
  grants the new name had; a securable without grants leaves the grants already stored under the new
  name in place, and the grants of descendants stay under their old names.\<close>

theorem move_grants_exact:
  assumes "from \<noteq> to"
  shows "fst (move_grants now sec from to st) = Inr () \<and>
    grants_for s m (snd (move_grants now sec from to st)) =
      (if grants_for sec from st = [] then grants_for s m st
       else if (s, m) = (sec, to) then filter (\<lambda>a. a_privileges a \<noteq> []) (grants_for sec from st)
       else if (s, m) = (sec, from) then [] else grants_for s m st)"
proof (cases "grants_for sec from st = []")
  case True
  then show ?thesis by (simp add: move_grants_def)
next
  case False
  let ?s1 = "snd (store_delete KIND_GRANTS (grants_doc_id sec from) (as_store st))"
  have run: "move_grants now sec from to st = (Inr (), store_of (snd (store_upsert now KIND_GRANTS workspace_id
      (grants_doc_id sec to) None (Some (grants_key sec to)) (assignments_json (grants_for sec from st)) ?s1)) st)"
    using False by (simp add: move_grants_def Let_def upsert_case)
  show ?thesis
    unfolding run snd_conv grants_for_upsert
    using False assms by (auto simp: parse_assignments_json grants_for_normal grants_for_delete)
qed

section \<open>Browsing\<close>

text \<open>A grant of any privilege on something below a catalog or a schema lets the principal browse
  that catalog or schema.\<close>

theorem grant_below_browsable:
  assumes ok: "grants_table_ok st" and sec: "sec = Catalog \<or> sec = Schema"
    and below: "starts_with m (n @ ''.'')"
    and a: "a \<in> set (grants_for s m st)" "principal_matches p (a_principal a)" "a_privileges a \<noteq> []"
  shows "fst (az_can_browse sec n (az_new st p))"
proof -
  have "store_get KIND_GRANTS (grants_doc_id s m) (as_store st) \<noteq> None"
    using a(1) by (cases "store_get KIND_GRANTS (grants_doc_id s m) (as_store st)") (simp_all add: grants_for_def)
  then have "(grants_key s m, grants_for s m st) \<in> set (all_grants st)"
    unfolding set_all_grants [OF ok] by blast
  moreover have "list_ex (\<lambda>a. principal_matches p (a_principal a) \<and> a_privileges a \<noteq> []) (grants_for s m st)"
    using a by (auto simp: list_ex_iff)
  ultimately have "grant_below st p n"
    using below unfolding grant_below_def has_grant_below_def az_new_def Let_def
    by (auto simp: list_ex_iff intro!: bexI [of _ "(grants_key s m, grants_for s m st)"])
  with sec show ?thesis
    using answersD [OF answers_can_browse [of st p sec n] az_ok_new] by auto
qed

section \<open>Witnesses\<close>

definition grants_doc :: "securable \<Rightarrow> string \<Rightarrow> assignment list \<Rightarrow> doc" where
  "grants_doc s n as = \<lparr>d_id = grants_doc_id s n, d_kind = KIND_GRANTS, d_ws = workspace_id, d_parent = None,
     d_name = Some (grants_key s n), d_data = assignments_json as, d_created_at = 1, d_updated_at = 1\<rparr>"

definition bob :: principal where
  "bob = \<lparr>p_user_id = ''u2'', p_user_name = ''bob'', p_is_admin = False, p_groups = []\<rparr>"

definition bob_select :: "assignment list" where
  "bob_select = [\<lparr>a_principal = ''Bob'', a_privileges = [''SELECT'']\<rparr>]"

definition grant_state :: app_state where
  "grant_state = \<lparr>as_store = \<lparr>st_dialect = Sqlite,
     st_docs = [grants_doc Schema ''m.s'' bob_select, grants_doc Table ''m.s.t'' bob_select, grants_doc Table ''x.s.t'' bob_select],
     st_kv = []\<rparr>, as_admin_user = ''root''\<rparr>"

lemma grants_doc_row: "grants_row (grants_doc s n as)"
  unfolding grants_row_def grants_doc_def by (intro conjI exI [of _ s] exI [of _ n]) simp_all

lemma grant_state_ok: "grants_table_ok grant_state"
proof -
  have "d_kind (grants_doc s n as) = KIND_GRANTS" "d_id (grants_doc s n as) = grants_doc_id s n" for s n as
    by (simp_all add: grants_doc_def)
  then show ?thesis
    by (simp add: grants_table_ok_def grant_state_def store_inv_def within_limit_def grants_doc_row grants_doc_id_inj)
qed

lemma grant_state_grants:
  "grants_for Schema ''m.s'' grant_state = bob_select"
  "grants_for Table ''m.s.t'' grant_state = bob_select"
  "grants_for Table ''x.s.t'' grant_state = bob_select"
  "grants_for Table ''x.s.u'' grant_state = []"
  by code_simp+

theorem privileges_inherited_witness: "fst (az_has_privilege Table ''m.s.v'' ''select'' (az_new grant_state bob))"
proof -
  have "held_at grant_state bob ''select'' Schema ''m.s''"
    unfolding held_at_def grant_state_grants by (intro disjI2) code_simp
  then show ?thesis
    using privileges_inherited [OF az_ok_new [of grant_state bob], where c = "''m''" and s = "''s''" and t = "''v''" and sec = Table] by simp
qed

theorem change_grants_exact_witness:
  "grants_for Schema ''m.s'' (snd (change_grants 2 Schema ''m.s'' ''bob'' [''use schema''] [''select''] grant_state)) =
     [\<lparr>a_principal = ''Bob'', a_privileges = [''USE_SCHEMA'']\<rparr>]"
proof -
  have "distinct_principals (grants_for Schema ''m.s'' grant_state)" by code_simp
  moreover have "change_grants 2 Schema ''m.s'' ''bob'' [''use schema''] [''select''] grant_state =
      (Inr [\<lparr>a_principal = ''Bob'', a_privileges = [''USE_SCHEMA'']\<rparr>],
       snd (change_grants 2 Schema ''m.s'' ''bob'' [''use schema''] [''select''] grant_state))"
  proof (rule prod_eqI)
    show "fst (change_grants 2 Schema ''m.s'' ''bob'' [''use schema''] [''select''] grant_state) =
      fst (Inr [\<lparr>a_principal = ''Bob'', a_privileges = [''USE_SCHEMA'']\<rparr>],
        snd (change_grants 2 Schema ''m.s'' ''bob'' [''use schema''] [''select''] grant_state))"
      by code_simp
  qed simp
  ultimately show ?thesis using change_grants_exact by fastforce
qed

theorem drop_grants_exact_witness:
  "grants_for Table ''m.s.t'' (drop_grants Catalog ''m'' grant_state) = [] \<and>
   grants_for Table ''x.s.t'' (drop_grants Catalog ''m'' grant_state) = bob_select"
  by (simp add: drop_grants_exact [OF grant_state_ok] grant_state_grants)

theorem move_grants_exact_witness:
  "grants_for Table ''x.s.u'' (snd (move_grants 3 Table ''m.s.t'' ''x.s.u'' grant_state)) = bob_select \<and>
   grants_for Table ''m.s.t'' (snd (move_grants 3 Table ''m.s.t'' ''x.s.u'' grant_state)) = []"
proof -
  have "''m.s.t'' \<noteq> ''x.s.u''" by simp
  from move_grants_exact [OF this, where now = 3 and sec = Table and st = grant_state] show ?thesis
    by (simp add: grant_state_grants) (simp add: bob_select_def)
qed

theorem grant_below_browsable_witness:
  "fst (az_can_browse Catalog ''x'' (az_new grant_state bob))"
proof -
  have "starts_with ''x.s.t'' (''x'' @ ''.'')" by simp
  moreover have "\<lparr>a_principal = ''Bob'', a_privileges = [''SELECT'']\<rparr> \<in> set (grants_for Table ''x.s.t'' grant_state)"
    by (simp add: grant_state_grants bob_select_def)
  moreover have "principal_matches bob (a_principal \<lparr>a_principal = ''Bob'', a_privileges = [''SELECT'']\<rparr>)" by code_simp
  ultimately show ?thesis
    using grant_below_browsable [OF grant_state_ok, of Catalog "''x.s.t''" "''x''"] by simp
qed

end
