(* ===== verification/Uc_GrantSql_Theorems.thy ===== *)
theory Uc_GrantSql_Theorems
  imports Uc_GrantSql Uc_Grants_Tree
begin

text \<open>
  The grammar of the privilege statements: every statement over fully qualified names, with the
  privileges whose words the parser knows, can be written so that the parser reads it back; which
  privileges have no spelling; and which statements the parser wrongly takes for its own.
\<close>

section \<open>Writing statements\<close>

definition word_tok :: "string \<Rightarrow> tok" where
  "word_tok w = \<lparr>tk_text = w, tk_quoted = False\<rparr>"

definition quoted_tok :: "string \<Rightarrow> tok" where
  "quoted_tok w = \<lparr>tk_text = w, tk_quoted = True\<rparr>"

fun keyword_of :: "securable \<Rightarrow> string list" where
  "keyword_of Metastore = [''METASTORE'']"
| "keyword_of Catalog = [''CATALOG'']"
| "keyword_of Schema = [''SCHEMA'']"
| "keyword_of Table = [''TABLE'']"
| "keyword_of Volume = [''VOLUME'']"
| "keyword_of Function = [''FUNCTION'']"
| "keyword_of ExternalLocation = [''EXTERNAL'', ''LOCATION'']"
| "keyword_of StorageCredential = [''STORAGE'', ''CREDENTIAL'']"
| "keyword_of Connection = [''CONNECTION'']"
| "keyword_of Share = [''SHARE'']"
| "keyword_of Recipient = [''RECIPIENT'']"
| "keyword_of Provider = [''PROVIDER'']"

definition sec_toks :: "securable \<Rightarrow> string \<Rightarrow> tok list" where
  "sec_toks sec n = map word_tok (keyword_of sec) @ (if sec = Metastore then [] else [quoted_tok n])"

definition priv_words :: "string \<Rightarrow> string list" where
  "priv_words p = split_on (CHR ''_'') p"

fun priv_toks :: "string list \<Rightarrow> tok list" where
  "priv_toks [] = []"
| "priv_toks [p] = map word_tok (priv_words p)"
| "priv_toks (p # q # ps) = map word_tok (priv_words p) @ word_tok '','' # priv_toks (q # ps)"

fun stmt_toks :: "grant_stmt \<Rightarrow> tok list" where
  "stmt_toks (GGrant ps sec n w) =
     word_tok ''GRANT'' # priv_toks ps @ word_tok ''ON'' # sec_toks sec n @ [word_tok ''TO'', quoted_tok w]"
| "stmt_toks (GRevoke ps sec n w) =
     word_tok ''REVOKE'' # priv_toks ps @ word_tok ''ON'' # sec_toks sec n @ [word_tok ''FROM'', quoted_tok w]"
| "stmt_toks (GShowGrants None sec n) = word_tok ''SHOW'' # word_tok ''GRANTS'' # word_tok ''ON'' # sec_toks sec n"
| "stmt_toks (GShowGrants (Some w) sec n) =
     word_tok ''SHOW'' # word_tok ''GRANTS'' # quoted_tok w # word_tok ''ON'' # sec_toks sec n"
| "stmt_toks (GSetOwner sec n w) =
     word_tok ''ALTER'' # sec_toks sec n @ [word_tok ''OWNER'', word_tok ''TO'', quoted_tok w]"

definition render :: "tok \<Rightarrow> string" where
  "render t = (if tk_quoted t then backquote # tk_text t @ [backquote] else tk_text t)"

definition print_stmt :: "grant_stmt \<Rightarrow> string" where
  "print_stmt g = join_with '' '' (map render (stmt_toks g))"

section \<open>Statements that have a spelling\<close>

definition spelled_privilege :: "string \<Rightarrow> bool" where
  "spelled_privilege p \<longleftrightarrow> is_known_privilege p \<and> list_all (\<lambda>w. w \<in> set PRIVILEGE_WORDS) (priv_words p)"

definition full_name :: "securable \<Rightarrow> string \<Rightarrow> bool" where
  "full_name sec n \<longleftrightarrow> backquote \<notin> set n \<and>
     (let k = length (split_on (CHR ''.'') n)
      in if sec = Metastore then n = METASTORE_ID
         else if sec = Schema then k \<noteq> 1
         else if sec = Table \<or> sec = Volume \<or> sec = Function then 3 \<le> k else True)"

fun spelled :: "grant_stmt \<Rightarrow> bool" where
  "spelled (GGrant ps sec n w) \<longleftrightarrow> ps \<noteq> [] \<and> list_all spelled_privilege ps \<and> full_name sec n \<and> w \<noteq> [] \<and> backquote \<notin> set w"
| "spelled (GRevoke ps sec n w) \<longleftrightarrow> ps \<noteq> [] \<and> list_all spelled_privilege ps \<and> full_name sec n \<and> w \<noteq> [] \<and> backquote \<notin> set w"
| "spelled (GShowGrants None sec n) \<longleftrightarrow> full_name sec n"
| "spelled (GShowGrants (Some w) sec n) \<longleftrightarrow> full_name sec n \<and> backquote \<notin> set w"
| "spelled (GSetOwner sec n w) \<longleftrightarrow> full_name sec n \<and> backquote \<notin> set w"

section \<open>The tokenizer reads back what was written\<close>

definition plain_char :: "char \<Rightarrow> bool" where
  "plain_char c \<longleftrightarrow> c \<noteq> backquote \<and> c \<noteq> quote1 \<and> c \<noteq> quote2 \<and> c \<noteq> CHR '','' \<and> \<not> is_space c"

definition writable :: "tok \<Rightarrow> bool" where
  "writable t \<longleftrightarrow> (if tk_quoted t then backquote \<notin> set (tk_text t)
     else tk_text t = '','' \<or> tk_text t \<noteq> [] \<and> list_all plain_char (tk_text t))"

lemma lex_plain: "list_all plain_char w \<Longrightarrow> lex (w @ s) cur q = lex s (cur @ w) q"
  by (induction w arbitrary: cur) (auto simp: plain_char_def)

lemma until_plain: "c \<notin> set w \<Longrightarrow> until c (w @ c # s) = (w, s)"
  by (induction w) auto

lemma space_char: "is_space (CHR '' '')" by (simp add: is_space_def)

lemma lex_tok:
  assumes "writable t" and "s = [] \<or> (\<exists>s'. s = CHR '' '' # s')"
  shows "lex (render t @ s) [] False = t # lex (drop 1 s) [] False"
proof (cases "tk_quoted t")
  case True
  with assms(1) have "until backquote (tk_text t @ backquote # s) = (tk_text t, s)"
    by (simp add: writable_def until_plain)
  moreover have "t = \<lparr>tk_text = tk_text t, tk_quoted = True\<rparr>" using True by simp
  ultimately show ?thesis using True assms(2) space_char by (auto simp: render_def flush_def)
next
  case False
  have t: "t = \<lparr>tk_text = tk_text t, tk_quoted = False\<rparr>" using False by simp
  show ?thesis
  proof (cases "tk_text t = '',''")
    case True
    with False t assms(2) space_char show ?thesis by (auto simp: render_def flush_def)
  next
    case plain: False
    with assms(1) False have w: "tk_text t \<noteq> []" "list_all plain_char (tk_text t)" by (auto simp: writable_def)
    from lex_plain [OF w(2), of s "[]" False] t w(1) False assms(2) space_char show ?thesis
      by (auto simp: render_def flush_def)
  qed
qed

lemma lex_print: "list_all writable ts \<Longrightarrow> lex (join_with '' '' (map render ts)) [] False = ts"
proof (induction ts)
  case (Cons t ts)
  show ?case
  proof (cases ts)
    case Nil
    with Cons lex_tok [of t "[]"] show ?thesis by (simp add: flush_def)
  next
    case (Cons u us)
    with \<open>list_all writable (t # ts)\<close> Cons.IH lex_tok [of t "CHR '' '' # join_with '' '' (map render ts)"]
    show ?thesis by simp
  qed
qed (simp add: flush_def)

lemma words_fixed:
  "list_all (\<lambda>w. w \<noteq> [] \<and> w \<noteq> '','' \<and> to_upper w = w \<and> list_all plain_char w \<and> \<not> eq_ignore_case w ''ON'')
     PRIVILEGE_WORDS"
  by code_simp

lemma known_normal: "list_all (\<lambda>p. normalize_privilege p = p \<and> p \<noteq> ''ALL'') ALL_PRIVILEGES"
  by code_simp

lemma privilege_word:
  assumes "w \<in> set PRIVILEGE_WORDS"
  shows "w \<noteq> []" "w \<noteq> '',''" "to_upper w = w" "list_all plain_char w" "\<not> eq_ignore_case w ''ON''"
  using words_fixed assms by (auto simp: list_all_iff)

lemma priv_words_join: "join_with ''_'' (priv_words p) = p"
  by (simp add: priv_words_def join_split)

lemma priv_words_not_Nil [simp]: "priv_words p \<noteq> []"
  by (simp add: priv_words_def)

lemma loop_words:
  "list_all (\<lambda>w. w \<in> set PRIVILEGE_WORDS) ws' \<Longrightarrow>
     privilege_loop (map word_tok ws' @ ts) ws out = privilege_loop ts (ws @ ws') out"
  by (induction ws' arbitrary: ws) (auto simp: word_tok_def privilege_word)

lemma flush_priv: "spelled_privilege p \<Longrightarrow> flush_words (priv_words p) = [p]"
  using known_normal by (auto simp: flush_words_def priv_words_join spelled_privilege_def is_known_privilege_def list_all_iff)

lemma loop_privs:
  "ps \<noteq> [] \<Longrightarrow> list_all spelled_privilege ps \<Longrightarrow> privilege_loop (priv_toks ps) [] out = Inr (out @ ps)"
proof (induction ps arbitrary: out rule: priv_toks.induct)
  case (2 p)
  then have "list_all (\<lambda>w. w \<in> set PRIVILEGE_WORDS) (priv_words p)" by (simp add: spelled_privilege_def)
  from loop_words [OF this, of "[]" "[]" out] 2 show ?case by (simp add: flush_priv)
next
  case (3 p q ps)
  then have "list_all (\<lambda>w. w \<in> set PRIVILEGE_WORDS) (priv_words p)" by (simp add: spelled_privilege_def)
  from loop_words [OF this, of "word_tok '','' # priv_toks (q # ps)" "[]" out] 3 show ?case
    by (simp add: flush_priv word_tok_def)
qed simp

lemma parse_privs: "ps \<noteq> [] \<Longrightarrow> list_all spelled_privilege ps \<Longrightarrow> parse_privileges (priv_toks ps) = Inr ps"
  using known_normal loop_privs [of ps "[]"]
  by (auto simp: parse_privileges_def list_all_iff spelled_privilege_def is_known_privilege_def intro!: map_idI)

lemma word_toks_plain:
  assumes "list_all (\<lambda>w. w \<in> set PRIVILEGE_WORDS) ws" and "t \<in> set (map word_tok ws)"
  shows "writable t \<and> \<not> (\<not> tk_quoted t \<and> eq_ignore_case (tk_text t) ''ON'')"
proof -
  from assms obtain w where w: "t = word_tok w" "w \<in> set PRIVILEGE_WORDS" by (auto simp: list_all_iff)
  then show ?thesis using privilege_word [OF w(2)] by (simp add: word_tok_def writable_def)
qed

lemma priv_toks_plain:
  "list_all spelled_privilege ps \<Longrightarrow> t \<in> set (priv_toks ps) \<Longrightarrow>
     writable t \<and> \<not> (\<not> tk_quoted t \<and> eq_ignore_case (tk_text t) ''ON'')"
proof (induction ps rule: priv_toks.induct)
  case (2 p)
  then have "list_all (\<lambda>w. w \<in> set PRIVILEGE_WORDS) (priv_words p)" by (simp add: spelled_privilege_def)
  from word_toks_plain [OF this] 2 show ?case by simp
next
  case (3 p q ps)
  have comma: "writable (word_tok '','') \<and> \<not> eq_ignore_case '','' ''ON''"
    by (simp add: writable_def word_tok_def eq_ignore_case_def to_lower_def lower_char_def)
  from 3 have "list_all (\<lambda>w. w \<in> set PRIVILEGE_WORDS) (priv_words p)" by (simp add: spelled_privilege_def)
  from word_toks_plain [OF this] 3 comma show ?case by (auto simp: word_tok_def)
qed simp

section \<open>The parser reads back what was written\<close>

lemma tok_at_append [simp]: "tok_at (xs @ ys) (length xs) = tok_at ys 0"
  "tok_at (xs @ ys) (Suc (length xs)) = tok_at ys (Suc 0)"
  "tok_at (xs @ ys) (Suc (Suc (length xs))) = tok_at ys (Suc (Suc 0))"
  "tok_at (xs @ ys) (length xs + k) = tok_at ys k"
  by (auto simp: tok_at_def nth_append numeral_2_eq_2)

lemma tok_at_Cons [simp]: "tok_at (t # ts) 0 = Some t" "tok_at (t # ts) (Suc k) = tok_at ts k"
  by (auto simp: tok_at_def)

lemma tok_at_Nil [simp]: "tok_at [] k = None"
  by (simp add: tok_at_def)

lemma trim_char_id: "c \<notin> set s \<Longrightarrow> trim_char c s = s"
proof -
  assume "c \<notin> set s"
  then have "dropWhile (\<lambda>x. x = c) s = s" "dropWhile (\<lambda>x. x = c) (rev s) = rev s"
    by (auto simp: dropWhile_eq_self_iff hd_rev)
  then show ?thesis by (simp add: trim_char_def trim_end_char_def)
qed

lemma resolve_full_id: "full_name sec n \<Longrightarrow> resolve_full sec n dc ds = n"
  by (auto simp: full_name_def resolve_full_def Let_def split: if_splits)

lemma parse_sec:
  assumes "full_name sec n"
  shows "parse_securable (pre @ sec_toks sec n @ rest) (length pre) dc ds =
    Inr (sec, n, length pre + length (sec_toks sec n))"
proof -
  have n: "trim_char backquote n = n" using assms by (auto simp: full_name_def trim_char_id)
  have m: "sec = Metastore \<Longrightarrow> n = METASTORE_ID" using assms by (simp add: full_name_def Let_def)
  show ?thesis
    using n m resolve_full_id [OF assms, of dc ds]
    by (cases sec) (simp_all add: parse_securable_def sec_toks_def securable_keyword_def word_at_def word_tok_def
        quoted_tok_def Let_def to_upper_def upper_char_def)
qed

lemma index_of_append:
  "(\<forall>x \<in> set xs. \<not> P x) \<Longrightarrow> P y \<Longrightarrow> index_of P (xs @ y # ys) = Some (length xs)"
  by (induction xs) auto

lemma position_on:
  assumes "\<forall>t \<in> set ts. \<not> (\<not> tk_quoted t \<and> eq_ignore_case (tk_text t) ''ON'')"
  shows "position (pre @ ts @ word_tok ''ON'' # rest) ''ON'' (length pre) = Some (length pre + length ts)"
  using index_of_append [OF assms, of "word_tok ''ON''" rest]
  by (simp add: position_def word_tok_def eq_ignore_case_def)

lemma grant_like_print:
  assumes ps: "ps \<noteq> []" "list_all spelled_privilege ps" and n: "full_name sec n" and w: "w \<noteq> []"
  shows "parse_grant_like (word_tok kw0 # priv_toks ps @ word_tok ''ON'' # sec_toks sec n @
      [word_tok (if grant then ''TO'' else ''FROM''), quoted_tok w]) grant dc ds =
    Inr (if grant then GGrant ps sec n w else GRevoke ps sec n w)"
proof -
  let ?last = "[word_tok (if grant then ''TO'' else ''FROM''), quoted_tok w]"
  let ?pre = "word_tok kw0 # priv_toks ps @ [word_tok ''ON'']"
  let ?toks = "word_tok kw0 # priv_toks ps @ word_tok ''ON'' # sec_toks sec n @ ?last"
  have on: "position ?toks ''ON'' 1 = Some (1 + length (priv_toks ps))"
    using position_on [of "priv_toks ps" "[word_tok kw0]" "sec_toks sec n @ ?last"] priv_toks_plain [OF ps(2)]
    by simp
  have privs: "drop 1 (take (1 + length (priv_toks ps)) ?toks) = priv_toks ps" by simp
  have split: "?toks = ?pre @ sec_toks sec n @ ?last" by simp
  have sec: "parse_securable ?toks (1 + length (priv_toks ps) + 1) dc ds =
      Inr (sec, n, length (?pre @ sec_toks sec n))"
    using parse_sec [OF n, of ?pre ?last dc ds] unfolding split by simp
  have at: "tok_at ?toks (length (?pre @ sec_toks sec n)) = Some (word_tok (if grant then ''TO'' else ''FROM''))"
    "tok_at ?toks (length (?pre @ sec_toks sec n) + 1) = Some (quoted_tok w)"
    using tok_at_append(1) [of "?pre @ sec_toks sec n" ?last] tok_at_append(2) [of "?pre @ sec_toks sec n" ?last]
    unfolding split by simp_all
  have len: "\<not> length (?pre @ sec_toks sec n) + 2 < length ?toks" by simp
  have kw: "is_word (Some (word_tok (if grant then ''TO'' else ''FROM''))) (if grant then ''TO'' else ''FROM'')"
    by (simp add: is_word_def word_tok_def eq_ignore_case_def)
  show ?thesis
    unfolding parse_grant_like_def on ok_or_simps try_then_simps privs parse_privs [OF ps] sec prod.case Let_def
      principal_at_def at
    using kw w len by (simp add: quoted_tok_def)
qed

lemma show_print:
  assumes "full_name sec n"
  shows "parse_show (stmt_toks (GShowGrants only sec n)) dc ds = Inr (GShowGrants only sec n)"
proof (cases only)
  case None
  let ?pre = "[word_tok ''SHOW'', word_tok ''GRANTS'', word_tok ''ON'']"
  have "position (?pre @ sec_toks sec n) ''ON'' 2 = Some 2"
    using position_on [of "[]" "[word_tok ''SHOW'', word_tok ''GRANTS'']" "sec_toks sec n"]
    by (simp add: numeral_2_eq_2)
  with parse_sec [OF assms, of ?pre "[]" dc ds] None show ?thesis
    by (simp add: parse_show_def numeral_3_eq_3)
next
  case (Some w)
  let ?pre = "[word_tok ''SHOW'', word_tok ''GRANTS'', quoted_tok w, word_tok ''ON'']"
  have "position (?pre @ sec_toks sec n) ''ON'' 2 = Some 3"
    using position_on [of "[quoted_tok w]" "[word_tok ''SHOW'', word_tok ''GRANTS'']" "sec_toks sec n"]
    by (simp add: quoted_tok_def numeral_2_eq_2 numeral_3_eq_3)
  with parse_sec [OF assms, of ?pre "[]" dc ds] Some show ?thesis
    by (simp add: parse_show_def quoted_tok_def numeral_3_eq_3 eval_nat_numeral)
qed

lemma owner_print:
  assumes "full_name sec n"
  shows "parse_owner (stmt_toks (GSetOwner sec n w)) dc ds = Inr (GSetOwner sec n w)"
proof -
  let ?last = "[word_tok ''OWNER'', word_tok ''TO'', quoted_tok w]"
  have not_set: "\<not> eq_ignore_case ''OWNER'' ''SET''" by code_simp
  let ?pre = "word_tok ''ALTER'' # sec_toks sec n"
  have sec: "parse_securable (?pre @ ?last) 1 dc ds = Inr (sec, n, length ?pre)"
    using parse_sec [OF assms, of "[word_tok ''ALTER'']" ?last dc ds] by simp
  have at: "tok_at (?pre @ ?last) (length ?pre) = Some (word_tok ''OWNER'')"
    "tok_at (?pre @ ?last) (length ?pre + 1) = Some (word_tok ''TO'')"
    "tok_at (?pre @ ?last) (length ?pre + 2) = Some (quoted_tok w)"
    using tok_at_append(1) [of ?pre ?last] tok_at_append(2) [of ?pre ?last] tok_at_append(3) [of ?pre ?last]
    by simp_all
  have toks: "stmt_toks (GSetOwner sec n w) = ?pre @ ?last" by simp
  show ?thesis
    unfolding parse_owner_def toks sec try_then_simps prod.case Let_def
    using not_set at by (simp add: is_text_def word_tok_def quoted_tok_def eq_ignore_case_def)
qed

lemma stmt_toks_writable: "spelled g \<Longrightarrow> list_all writable (stmt_toks g)"
proof -
  have key: "list_all (\<lambda>w. list_all plain_char w \<and> w \<noteq> []) (concat (map keyword_of
      [Metastore, Catalog, Schema, Table, Volume, Function, ExternalLocation, StorageCredential, Connection, Share,
       Recipient, Provider]))" by code_simp
  have sec: "list_all writable (sec_toks sec n)" if "full_name sec n" for sec n
    using that key by (cases sec) (simp_all add: sec_toks_def word_tok_def quoted_tok_def writable_def full_name_def)
  have kw: "list_all (\<lambda>w. writable (word_tok w))
      [''GRANT'', ''ON'', ''TO'', ''REVOKE'', ''FROM'', ''SHOW'', ''GRANTS'', ''ALTER'', ''OWNER'']" by code_simp
  have pv: "list_all writable (priv_toks ps)" if "list_all spelled_privilege ps" for ps
    using priv_toks_plain [OF that] by (simp add: list_all_iff)
  show "spelled g \<Longrightarrow> list_all writable (stmt_toks g)"
    using kw by (cases g rule: spelled.cases) (auto simp: sec pv quoted_tok_def writable_def full_name_def)
qed

text \<open>The written text starts with a letter and ends with a letter or a closing quote.\<close>

lemma print_trimmed:
  assumes "spelled g"
  shows "trim_end_char (CHR '';'') (trim (print_stmt g)) = print_stmt g"
proof -
  have lst: "\<exists>c. last (map render (stmt_toks g)) \<noteq> [] \<and> last (last (map render (stmt_toks g))) = c \<and> c \<in> {backquote, CHR ''E''}"
  proof (cases g rule: spelled.cases)
    case (3 sec n)
    then show ?thesis by (cases sec) (simp_all add: sec_toks_def render_def quoted_tok_def word_tok_def)
  next
    case (4 w sec n)
    then show ?thesis by (cases sec) (simp_all add: sec_toks_def render_def quoted_tok_def word_tok_def)
  qed (simp_all add: render_def quoted_tok_def)
  have ne: "map render (stmt_toks g) \<noteq> []" by (cases g rule: spelled.cases) simp_all
  from lst last_join [OF ne, of "'' ''"] have last: "last (print_stmt g) \<in> {backquote, CHR ''E''}" "print_stmt g \<noteq> []"
    unfolding print_stmt_def by auto
  have "hd (print_stmt g) \<in> {CHR ''G'', CHR ''R'', CHR ''S'', CHR ''A''}"
    unfolding print_stmt_def by (cases g rule: spelled.cases) (simp_all add: hd_join render_def word_tok_def)
  with last have "trimmed (print_stmt g)" by (auto simp: trimmed_def is_space_def)
  then have t: "trim (print_stmt g) = print_stmt g" by (rule trim_trimmed)
  have "hd (rev (print_stmt g)) \<noteq> CHR '';''" using last by (auto simp: hd_rev)
  then have "dropWhile (\<lambda>x. x = CHR '';'') (rev (print_stmt g)) = rev (print_stmt g)"
    using last(2) by (intro dropWhile_hd) simp_all
  with t show ?thesis by (simp add: trim_end_char_def)
qed

text \<open>C35: Every privilege statement over fully qualified names, with privileges made of the parser's
  words, has a spelling the parser reads back as that statement, whatever the session's default
  catalog and schema.\<close>

theorem grant_sql_roundtrip:
  assumes "spelled g"
  shows "grant_parse (print_stmt g) dc ds = Some (Inr g)"
proof -
  have toks: "tokenize (trim_end_char (CHR '';'') (trim (print_stmt g))) = stmt_toks g"
    unfolding print_trimmed [OF assms] using lex_print [OF stmt_toks_writable [OF assms]]
    by (simp add: tokenize_def print_stmt_def)
  have up: "list_all (\<lambda>w. to_upper w = w) [''GRANT'', ''REVOKE'', ''SHOW'', ''GRANTS'', ''ALTER'']" by code_simp
  show ?thesis
  proof (cases g rule: spelled.cases)
    case (1 ps sec n w)
    with assms up grant_like_print [of ps sec n w "''GRANT''" True dc ds] show ?thesis
      unfolding grant_parse_def toks Let_def by (simp add: word_tok_def)
  next
    case (2 ps sec n w)
    with assms up grant_like_print [of ps sec n w "''REVOKE''" False dc ds] show ?thesis
      unfolding grant_parse_def toks Let_def by (simp add: word_tok_def)
  next
    case (3 sec n)
    with assms up show_print [of sec n None dc ds] show ?thesis
      unfolding grant_parse_def toks Let_def by (simp add: word_tok_def)
  next
    case (4 w sec n)
    with assms up show_print [of sec n "Some w" dc ds] show ?thesis
      unfolding grant_parse_def toks Let_def by (simp add: word_tok_def)
  next
    case (5 sec n w)
    have own: "list_ex (\<lambda>t. eq_ignore_case (tk_text t) ''OWNER'') (stmt_toks g)"
      by (simp add: 5 word_tok_def eq_ignore_case_def)
    have "parse_owner (stmt_toks g) dc ds = Inr g" using owner_print [of sec n w dc ds] assms 5 by simp
    moreover have "tok_at (stmt_toks g) 0 = Some (word_tok ''ALTER'')" by (simp add: 5)
    ultimately show ?thesis
      unfolding grant_parse_def toks Let_def using up own by (simp add: word_tok_def)
  qed
qed

theorem grant_sql_roundtrip_witness:
  "grant_parse ''GRANT USE CATALOG , CREATE SCHEMA ON CATALOG `main` TO `data eng`'' ''main'' ''default'' =
     Some (Inr (GGrant [''USE_CATALOG'', ''CREATE_SCHEMA''] Catalog ''main'' ''data eng''))"
proof -
  have "spelled (GGrant [''USE_CATALOG'', ''CREATE_SCHEMA''] Catalog ''main'' ''data eng'')" by code_simp
  moreover have "print_stmt (GGrant [''USE_CATALOG'', ''CREATE_SCHEMA''] Catalog ''main'' ''data eng'') =
      ''GRANT USE CATALOG , CREATE SCHEMA ON CATALOG `main` TO `data eng`''" by code_simp
  ultimately show ?thesis
    using grant_sql_roundtrip [of "GGrant [''USE_CATALOG'', ''CREATE_SCHEMA''] Catalog ''main'' ''data eng''"] by simp
qed

section \<open>What the parser does not accept\<close>

text \<open>Six privileges of the catalog cannot be granted or revoked in SQL, because the parser does
  not know one of their words; every other one is spelled with words it knows.\<close>

theorem sql_privileges_exact:
  "filter (\<lambda>p. \<not> spelled_privilege p) ALL_PRIVILEGES =
     [''CREATE_FOREIGN_SECURABLE'', ''MANAGE_ALLOWLIST'', ''READ_PRIVATE_FILES'', ''SET_SHARE_PERMISSION'',
      ''USE_MARKETPLACE_ASSETS'', ''WRITE_PRIVATE_FILES''] \<and>
   list_all (\<lambda>p. case grant_parse (''GRANT '' @ replace_char (CHR ''_'') '' '' p @ '' ON CATALOG main TO u'') ''main'' ''default''
       of Some (Inl e) \<Rightarrow> True | _ \<Rightarrow> False)
     (filter (\<lambda>p. \<not> spelled_privilege p) ALL_PRIVILEGES)"
  by code_simp

text \<open>Every \<open>ALTER TABLE\<close> that adds a column named \<open>owner\<close> (or mentions the word anywhere) is
  taken for an ownership change and refused with a syntax error, so it never reaches the engine.\<close>

theorem alter_owner_captured:
  assumes "tokenize (trim_end_char (CHR '';'') (trim sql)) = map word_tok (''ALTER'' # ''TABLE'' # n # w # rest)"
    and "list_ex (\<lambda>t. eq_ignore_case t ''owner'') rest"
    and "\<not> eq_ignore_case w ''SET''" and "\<not> eq_ignore_case w ''OWNER''"
  shows "grant_parse sql dc ds = Some (Inl ''Expected OWNER TO'')"
proof -
  let ?toks = "map word_tok (''ALTER'' # ''TABLE'' # n # w # rest)"
  have up: "to_upper ''ALTER'' = ''ALTER''" "to_upper ''TABLE'' = ''TABLE''" by code_simp+
  have "eq_ignore_case t ''owner'' = eq_ignore_case t ''OWNER''" for t
    by (simp add: eq_ignore_case_def to_lower_def lower_char_def)
  then have own: "list_ex (\<lambda>t. eq_ignore_case (tk_text t) ''OWNER'') ?toks"
    using assms(2) by (auto simp: list_ex_iff word_tok_def)
  obtain sec full where "parse_securable ?toks 1 dc ds = Inr (sec, full, 3)"
    using up by (simp add: parse_securable_def securable_keyword_def word_at_def word_tok_def Let_def)
  then have "parse_owner ?toks dc ds = Inl ''Expected OWNER TO''"
    using assms(3,4) by (simp add: parse_owner_def Let_def is_text_def word_tok_def numeral_3_eq_3)
  then show ?thesis unfolding grant_parse_def assms(1) Let_def using own up by (simp add: word_tok_def)
qed

theorem alter_owner_captured_witness:
  "grant_parse ''ALTER TABLE t ADD COLUMN owner STRING'' ''main'' ''default'' = Some (Inl ''Expected OWNER TO'')"
proof -
  have "tokenize (trim_end_char (CHR '';'') (trim ''ALTER TABLE t ADD COLUMN owner STRING'')) =
      map word_tok (''ALTER'' # ''TABLE'' # ''t'' # ''ADD'' # [''COLUMN'', ''owner'', ''STRING''])" by code_simp
  moreover have "list_ex (\<lambda>t. eq_ignore_case t ''owner'') [''COLUMN'', ''owner'', ''STRING'']" by code_simp
  moreover have "\<not> eq_ignore_case ''ADD'' ''SET''" "\<not> eq_ignore_case ''ADD'' ''OWNER''" by code_simp+
  ultimately show ?thesis by (rule alter_owner_captured)
qed

end
