(* ===== verification/Api_Handlers.thy ===== *)
theory Api_Handlers
  imports Api_Store_Laws
begin

text \<open>
  What the handlers of the control plane share: entries of JSON objects, the display of JSON, and
  the shape of a handler, a state transformer that may return early with an error. \<open>h_then\<close> is the
  \<open>?\<close> operator between two calls, \<open>h_try\<close> drops an error (\<open>let _ = ...\<close>), \<open>h_each\<close> is a \<open>for\<close> loop of
  calls. A frame is what every call of a group leaves unchanged; the locale proves once that
  sequencing keeps it.
\<close>

section \<open>JSON objects and their display\<close>

type_synonym jmap = "(string \<times> json) list"

text \<open>\<open>entry(k).or_insert(v)\<close>.\<close>

definition or_insert :: "string \<Rightarrow> json \<Rightarrow> jmap \<Rightarrow> jmap" where
  "or_insert k v m = (if map_of m k = None then bt_insert k v m else m)"

lemma map_of_or_insert [bt_simps]:
  "map_of (or_insert k v m) k' = (if k' = k \<and> map_of m k = None then Some v else map_of m k')"
  by (auto simp: or_insert_def bt_get_insert)

text \<open>The display of a JSON value, with serde's escapes.\<close>

definition hex_digit :: "nat \<Rightarrow> char" where
  "hex_digit n = ''0123456789abcdef'' ! n"

fun escape_char :: "char \<Rightarrow> string" where
  "escape_char c =
     (if c = CHR 0x22 then [backslash, CHR 0x22] else if c = backslash then [backslash, backslash]
      else if c = CHR 0x0A then [backslash, CHR ''n''] else if c = CHR 0x0D then [backslash, CHR ''r'']
      else if c = CHR 0x09 then [backslash, CHR ''t''] else if c = CHR 0x08 then [backslash, CHR ''b'']
      else if c = CHR 0x0C then [backslash, CHR ''f'']
      else if of_char c < (32 :: nat) then [backslash] @ ''u00'' @ [hex_digit (of_char c div 16), hex_digit (of_char c mod 16)]
      else [c])"

definition show_jstr :: "string \<Rightarrow> string" where
  "show_jstr s = [CHR 0x22] @ concat (map escape_char s) @ [CHR 0x22]"

fun show_json :: "json \<Rightarrow> string" where
  "show_json JNull = ''null''"
| "show_json (JBool b) = (if b then ''true'' else ''false'')"
| "show_json (JInt n) = show_int n"
| "show_json (JFloat t) = t"
| "show_json (JStr s) = show_jstr s"
| "show_json (JArr xs) = ''['' @ join_with '','' (map show_json xs) @ '']''"
| "show_json (JObj m) = ''{'' @ join_with '','' (map (\<lambda>kv. show_jstr (fst kv) @ '':'' @ show_json (snd kv)) m) @ ''}''"

section \<open>Handlers\<close>

type_synonym ('s, 'a) handler = "'s \<Rightarrow> (api_error + 'a) \<times> 's"

definition h_ret :: "'a \<Rightarrow> ('s, 'a) handler" where
  "h_ret x s = (Inr x, s)"

definition h_fail :: "api_error \<Rightarrow> ('s, 'a) handler" where
  "h_fail e s = (Inl e, s)"

definition h_then :: "('s, 'a) handler \<Rightarrow> ('a \<Rightarrow> ('s, 'b) handler) \<Rightarrow> ('s, 'b) handler" where
  "h_then m f s = (case m s of (Inl e, s') \<Rightarrow> (Inl e, s') | (Inr x, s') \<Rightarrow> f x s')"

definition h_try :: "('s, 'a) handler \<Rightarrow> ('s, unit) handler" where
  "h_try m s = (Inr (), snd (m s))"

fun h_each :: "('a \<Rightarrow> ('s, unit) handler) \<Rightarrow> 'a list \<Rightarrow> ('s, unit) handler" where
  "h_each f [] = h_ret ()"
| "h_each f (x # xs) = h_then (f x) (\<lambda>_. h_each f xs)"

lemma h_basic: "h_ret x s = (Inr x, s)" "h_fail e s = (Inl e, s)"
  by (simp_all add: h_ret_def h_fail_def)

lemma h_then_ret [simp]: "h_then (h_ret x) f = f x"
  by (simp add: h_then_def h_ret_def fun_eq_iff)

lemma h_then_fail [simp]: "h_then (h_fail e) f = h_fail e"
  by (simp add: h_then_def h_fail_def fun_eq_iff)

lemma h_then_assoc: "h_then (h_then m f) g = h_then m (\<lambda>x. h_then (f x) g)"
  by (auto simp: h_then_def fun_eq_iff split: prod.splits sum.splits)

lemma h_then_Inr: "h_then m f s = (Inr y, s') \<longleftrightarrow> (\<exists>x s1. m s = (Inr x, s1) \<and> f x s1 = (Inr y, s'))"
  by (cases "m s"; cases "fst (m s)") (auto simp: h_then_def)

lemma h_thenE:
  assumes "h_then m f s = (Inr y, s')"
  obtains x s1 where "m s = (Inr x, s1)" "f x s1 = (Inr y, s')"
  using assms by (auto simp: h_then_Inr)

lemma h_then_step: "m s = (Inr x, s1) \<Longrightarrow> h_then m f s = f x s1"
  by (simp add: h_then_def)

lemma h_then_stop: "m s = (Inl e, s1) \<Longrightarrow> h_then m f s = (Inl e, s1)"
  by (simp add: h_then_def)

text \<open>A step that leaves the state alone.\<close>

definition reads :: "('s, 'a) handler \<Rightarrow> bool" where
  "reads m \<longleftrightarrow> (\<forall>s. snd (m s) = s)"

lemma reads_basic [simp]: "reads (h_ret x)" "reads (h_fail e)"
  by (simp_all add: reads_def h_basic)

lemma reads_then: "reads m \<Longrightarrow> (\<And>x. reads (f x)) \<Longrightarrow> reads (h_then m f)"
  unfolding reads_def h_then_def by (metis (no_types, lifting) prod.collapse prod.sel(2) prod.simps(2) sum.case_eq_if)

section \<open>Invariants\<close>

text \<open>\<open>m\<close> keeps \<open>I\<close> when it runs from \<open>s\<close>: what the steps before it established about \<open>s\<close> is at hand.\<close>

definition keeps :: "('s \<Rightarrow> bool) \<Rightarrow> ('s, 'a) handler \<Rightarrow> 's \<Rightarrow> bool" where
  "keeps I m s \<longleftrightarrow> (I s \<longrightarrow> I (snd (m s)))"

lemma keepsD: "keeps I m s \<Longrightarrow> I s \<Longrightarrow> I (snd (m s))"
  by (simp add: keeps_def)

lemma keeps_basic: "keeps I (h_ret x) s" "keeps I (h_fail e) s"
  by (simp_all add: keeps_def h_basic)

lemma keeps_then:
  assumes "keeps I m s" and "\<And>x s'. m s = (Inr x, s') \<Longrightarrow> I s \<Longrightarrow> I s' \<Longrightarrow> keeps I (f x) s'"
  shows "keeps I (h_then m f) s"
proof (cases "m s")
  case (Pair r s')
  then show ?thesis using assms by (cases r) (auto simp: keeps_def h_then_def)
qed

lemma keeps_stop: "(\<And>s. I s \<Longrightarrow> I (snd (m s))) \<Longrightarrow> keeps I m s"
  by (simp add: keeps_def)

lemma keeps_read:
  assumes "reads m" and "\<And>x. m s = (Inr x, s) \<Longrightarrow> I s \<Longrightarrow> keeps I (f x) s"
  shows "keeps I (h_then m f) s"
  by (rule keeps_then) (use assms in \<open>auto simp: keeps_def reads_def, metis snd_conv\<close>)

lemma keeps_if: "(c \<Longrightarrow> keeps I a s) \<Longrightarrow> (\<not> c \<Longrightarrow> keeps I b s) \<Longrightarrow> keeps I (if c then a else b) s"
  by simp

lemma keeps_then_if:
  "(c \<Longrightarrow> keeps I (h_then a f) s) \<Longrightarrow> (\<not> c \<Longrightarrow> keeps I (h_then b f) s) \<Longrightarrow> keeps I (h_then (if c then a else b) f) s"
  by simp

lemma keeps_then_option:
  "(v = None \<Longrightarrow> keeps I (h_then a f) s) \<Longrightarrow> (\<And>x. v = Some x \<Longrightarrow> keeps I (h_then (b x) f) s) \<Longrightarrow>
     keeps I (h_then (case v of None \<Rightarrow> a | Some x \<Rightarrow> b x) f) s"
  by (simp split: option.split)

lemma keeps_then_ret: "keeps I (f x) s \<Longrightarrow> keeps I (h_then (h_ret x) f) s"
  by simp

lemma keeps_then_fail: "keeps I (h_then (h_fail e) f) s"
  by (simp add: keeps_basic)

lemma keeps_assoc: "keeps I (h_then m (\<lambda>x. h_then (f x) g)) s \<Longrightarrow> keeps I (h_then (h_then m f) g) s"
  by (simp add: h_then_assoc)

lemma keeps_each: "(\<And>x s. x \<in> set xs \<Longrightarrow> keeps I (f x) s) \<Longrightarrow> keeps I (h_each f xs) s"
  by (induction xs arbitrary: s) (auto intro: keeps_basic keeps_then)

lemmas keeps_rules = keeps_basic keeps_if keeps_then_if keeps_then_option keeps_then_ret keeps_then_fail keeps_assoc

text \<open>Whatever a handler answers satisfies \<open>P\<close>.\<close>

definition yields :: "('a \<Rightarrow> bool) \<Rightarrow> ('s, 'a) handler \<Rightarrow> bool" where
  "yields P m \<longleftrightarrow> (\<forall>s x s'. m s = (Inr x, s') \<longrightarrow> P x)"

lemma yieldsD: "yields P m \<Longrightarrow> m s = (Inr x, s') \<Longrightarrow> P x"
  unfolding yields_def by blast

lemma yields_ret: "P x \<Longrightarrow> yields P (h_ret x)"
  by (simp add: yields_def h_basic)

lemma yields_fail: "yields P (h_fail e)"
  by (simp add: yields_def h_basic)

lemma yields_then: "(\<And>x. yields P (f x)) \<Longrightarrow> yields P (h_then m f)"
  unfolding yields_def h_then_Inr by blast

lemma yields_if: "(c \<Longrightarrow> yields P a) \<Longrightarrow> (\<not> c \<Longrightarrow> yields P b) \<Longrightarrow> yields P (if c then a else b)"
  by simp

lemma yields_option:
  "(v = None \<Longrightarrow> yields P a) \<Longrightarrow> (\<And>x. v = Some x \<Longrightarrow> yields P (b x)) \<Longrightarrow> yields P (case v of None \<Rightarrow> a | Some x \<Rightarrow> b x)"
  by (simp split: option.split)

lemmas yields_rules = yields_ret yields_fail yields_then yields_if yields_option

section \<open>Frames\<close>

definition moves_within :: "('s \<Rightarrow> 's \<Rightarrow> bool) \<Rightarrow> ('s, 'a) handler \<Rightarrow> bool" where
  "moves_within R m \<longleftrightarrow> (\<forall>s. R s (snd (m s)))"

text \<open>A handler refuses when it fails and moves within the relation only.\<close>

definition refuses :: "('s \<Rightarrow> 's \<Rightarrow> bool) \<Rightarrow> ('s, 'a) handler \<Rightarrow> 's \<Rightarrow> bool" where
  "refuses R m s \<longleftrightarrow> (\<exists>e s'. m s = (Inl e, s') \<and> R s s')"

lemma refuses_if: "(c \<Longrightarrow> refuses R a s) \<Longrightarrow> (\<not> c \<Longrightarrow> refuses R b s) \<Longrightarrow> refuses R (if c then a else b) s"
  by simp

lemma refuses_then_if:
  "(c \<Longrightarrow> refuses R (h_then a f) s) \<Longrightarrow> (\<not> c \<Longrightarrow> refuses R (h_then b f) s) \<Longrightarrow> refuses R (h_then (if c then a else b) f) s"
  by simp

lemma refuses_then_option:
  "(v = None \<Longrightarrow> refuses R (h_then a f) s) \<Longrightarrow> (\<And>x. v = Some x \<Longrightarrow> refuses R (h_then (b x) f) s) \<Longrightarrow>
     refuses R (h_then (case v of None \<Rightarrow> a | Some x \<Rightarrow> b x) f) s"
  by (simp split: option.split)

lemma refuses_then_ret: "refuses R (f x) s \<Longrightarrow> refuses R (h_then (h_ret x) f) s"
  by simp

lemma refuses_assoc: "refuses R (h_then m (\<lambda>x. h_then (f x) g)) s \<Longrightarrow> refuses R (h_then (h_then m f) g) s"
  by (simp add: h_then_assoc)

locale frame =
  fixes R :: "'s \<Rightarrow> 's \<Rightarrow> bool"
  assumes frame_refl: "R s s"
    and frame_trans: "R s1 s2 \<Longrightarrow> R s2 s3 \<Longrightarrow> R s1 s3"
begin

lemma within_basic: "moves_within R (h_ret x)" "moves_within R (h_fail e)"
  by (simp_all add: moves_within_def h_basic frame_refl)

lemma within_then: "moves_within R m \<Longrightarrow> (\<And>x. moves_within R (f x)) \<Longrightarrow> moves_within R (h_then m f)"
  unfolding moves_within_def h_then_def
  by (auto split: prod.splits sum.splits intro: frame_trans) (metis frame_trans snd_conv)+

lemma within_try: "moves_within R m \<Longrightarrow> moves_within R (h_try m)"
  by (simp add: moves_within_def h_try_def)

lemma within_each: "(\<And>x. x \<in> set xs \<Longrightarrow> moves_within R (f x)) \<Longrightarrow> moves_within R (h_each f xs)"
  by (induction xs) (auto intro: within_basic within_then)

lemma refuses_fail: "refuses R (h_fail e) s"
  by (auto simp: refuses_def h_basic frame_refl)

lemma refuses_then_fail: "refuses R (h_then (h_fail e) f) s"
  by (simp add: refuses_fail)

lemma refuses_stop: "refuses R m s \<Longrightarrow> refuses R (h_then m f) s"
  by (auto simp: refuses_def h_then_def)

lemma refuses_step: "m s = (Inr x, s') \<Longrightarrow> R s s' \<Longrightarrow> refuses R (f x) s' \<Longrightarrow> refuses R (h_then m f) s"
  by (auto simp: refuses_def h_then_step intro: frame_trans)

text \<open>Whatever a quiet step does, the rest refuses.\<close>

lemma refuses_then:
  assumes "moves_within R m" and "\<And>x s'. m s = (Inr x, s') \<Longrightarrow> R s s' \<Longrightarrow> refuses R (f x) s'"
  shows "refuses R (h_then m f) s"
proof (cases "m s")
  case (Pair r s')
  with assms(1) have R: "R s s'" unfolding moves_within_def by (metis snd_conv)
  show ?thesis
  proof (cases r)
    case (Inl e)
    with Pair R show ?thesis by (auto simp: refuses_def h_then_def)
  next
    case (Inr x)
    with Pair R assms(2) show ?thesis by (auto intro: refuses_step)
  qed
qed

lemma within_reads: "reads m \<Longrightarrow> moves_within R m"
  by (simp add: moves_within_def reads_def frame_refl)

end

end
