(* ===== verification/Uc_System.thy ===== *)
theory Uc_System
  imports Uc_Privileges Api_Handlers
begin

text \<open>
  The \<open>system\<close> catalog and the \<open>information_schema\<close> of every catalog, as the metastore shows them
  (\<open>lakeforge-api/src/uc/system_tables.rs\<close>): the registry of system tables with their columns, and
  the documents synthesised for the virtual catalog, schemas and tables. Nothing here is stored.
  What fills the tables with rows is not modelled.
\<close>

section \<open>Column types\<close>

datatype ty = TyStr | TyLong | TyInt | TyDouble | TyBool | TyTs | TyDate | TyStruct "(string \<times> ty) list"

fun type_text :: "ty \<Rightarrow> string" where
  "type_text TyStr = ''string''"
| "type_text TyLong = ''bigint''"
| "type_text TyInt = ''int''"
| "type_text TyDouble = ''double''"
| "type_text TyBool = ''boolean''"
| "type_text TyTs = ''timestamp''"
| "type_text TyDate = ''date''"
| "type_text (TyStruct fs) =
     ''struct<'' @ join_with '','' (map (\<lambda>nt. fst nt @ '':'' @ type_text (snd nt)) fs) @ ''>''"

fun type_name :: "ty \<Rightarrow> string" where
  "type_name TyStr = ''STRING''"
| "type_name TyLong = ''LONG''"
| "type_name TyInt = ''INT''"
| "type_name TyDouble = ''DOUBLE''"
| "type_name TyBool = ''BOOLEAN''"
| "type_name TyTs = ''TIMESTAMP''"
| "type_name TyDate = ''DATE''"
| "type_name (TyStruct _) = ''STRUCT''"

section \<open>The registry\<close>

record sys_table =
  sy_schema :: string
  sy_name :: string
  sy_comment :: string
  sy_columns :: "(string \<times> ty) list"

definition sys :: "string \<Rightarrow> string \<Rightarrow> string \<Rightarrow> (string \<times> ty) list \<Rightarrow> sys_table" where
  "sys sch name comment cols = \<lparr>sy_schema = sch, sy_name = name, sy_comment = comment, sy_columns = cols\<rparr>"

definition SYSTEM_CATALOG :: string where "SYSTEM_CATALOG = ''system''"

definition SYSTEM_SCHEMAS :: "string list" where
  "SYSTEM_SCHEMAS = [''information_schema'', ''access'', ''query'', ''compute'', ''lakeflow'', ''billing'', ''mlflow'',
     ''serving'', ''lakebase'']"

definition common_object_cols :: "(string \<times> ty) list" where
  "common_object_cols = [(''comment'', TyStr), (''created'', TyStr), (''created_at'', TyTs), (''created_by'', TyStr),
     (''last_altered'', TyTs), (''last_altered_by'', TyStr)]"

definition privileges_cols :: "string list \<Rightarrow> (string \<times> ty) list" where
  "privileges_cols object = [(''grantor'', TyStr), (''grantee'', TyStr)] @ map (\<lambda>n. (n, TyStr)) object @
     [(''privilege_type'', TyStr), (''is_grantable'', TyStr), (''inherited_from'', TyStr)]"

definition lineage_common :: "(string \<times> ty) list" where
  "lineage_common =
    [(''account_id'', TyStr), (''metastore_id'', TyStr), (''workspace_id'', TyStr), (''entity_type'', TyStr),
     (''entity_id'', TyStr), (''entity_run_id'', TyStr), (''statement_id'', TyStr),
     (''source_table_full_name'', TyStr), (''source_table_catalog'', TyStr), (''source_table_schema'', TyStr),
     (''source_table_name'', TyStr)]"

definition information_schema_tables :: "sys_table list" where
  "information_schema_tables =
    [sys ''information_schema'' ''information_schema_catalog_name'' ''Name of the catalog this information schema belongs to''
       ([(''catalog_name'', TyStr)]),
     sys ''information_schema'' ''metastores'' ''Metastores''
       ([(''metastore_id'', TyStr), (''metastore_name'', TyStr), (''metastore_owner'', TyStr),
         (''cloud'', TyStr), (''region'', TyStr), (''storage_root'', TyStr), (''delta_sharing_scope'', TyStr),
         (''privilege_model_version'', TyStr), (''created'', TyTs), (''created_by'', TyStr),
         (''last_altered'', TyTs), (''last_altered_by'', TyStr)]),
     sys ''information_schema'' ''catalogs'' ''Catalogs in the metastore''
       ([(''catalog_name'', TyStr), (''catalog_owner'', TyStr), (''catalog_type'', TyStr),
         (''securable_kind'', TyStr), (''connection_name'', TyStr), (''provider_name'', TyStr),
         (''share_name'', TyStr)] @
        common_object_cols),
     sys ''information_schema'' ''schemata'' ''Schemas in the metastore''
       ([(''catalog_name'', TyStr), (''schema_name'', TyStr), (''schema_owner'', TyStr),
         (''storage_root'', TyStr)] @
        common_object_cols),
     sys ''information_schema'' ''tables'' ''Tables and views''
       ([(''table_catalog'', TyStr), (''table_schema'', TyStr), (''table_name'', TyStr),
         (''table_type'', TyStr), (''is_insertable_into'', TyStr), (''commit_action'', TyStr),
         (''table_owner'', TyStr), (''data_source_format'', TyStr), (''storage_sub_directory'', TyStr),
         (''storage_path'', TyStr), (''view_definition'', TyStr), (''row_filter_function'', TyStr)] @
        common_object_cols),
     sys ''information_schema'' ''views'' ''View definitions''
       ([(''table_catalog'', TyStr), (''table_schema'', TyStr), (''table_name'', TyStr),
         (''view_definition'', TyStr), (''check_option'', TyStr), (''is_updatable'', TyStr),
         (''is_insertable_into'', TyStr), (''sql_path'', TyStr), (''is_materialized'', TyStr)]),
     sys ''information_schema'' ''columns'' ''Table columns''
       ([(''table_catalog'', TyStr), (''table_schema'', TyStr), (''table_name'', TyStr),
         (''column_name'', TyStr), (''ordinal_position'', TyLong), (''column_default'', TyStr),
         (''is_nullable'', TyStr), (''full_data_type'', TyStr), (''data_type'', TyStr), (''comment'', TyStr),
         (''is_identity'', TyStr), (''is_generated'', TyStr), (''mask_function'', TyStr),
         (''partition_index'', TyLong)]),
     sys ''information_schema'' ''volumes'' ''Volumes''
       ([(''volume_catalog'', TyStr), (''volume_schema'', TyStr), (''volume_name'', TyStr),
         (''volume_type'', TyStr), (''volume_owner'', TyStr), (''storage_location'', TyStr)] @
        common_object_cols),
     sys ''information_schema'' ''routines'' ''SQL and Python functions''
       ([(''specific_catalog'', TyStr), (''specific_schema'', TyStr), (''specific_name'', TyStr),
         (''routine_catalog'', TyStr), (''routine_schema'', TyStr), (''routine_name'', TyStr),
         (''routine_type'', TyStr), (''data_type'', TyStr), (''full_data_type'', TyStr),
         (''routine_body'', TyStr), (''routine_definition'', TyStr), (''external_language'', TyStr),
         (''is_deterministic'', TyStr), (''sql_data_access'', TyStr), (''security_type'', TyStr),
         (''routine_owner'', TyStr)] @
        common_object_cols),
     sys ''information_schema'' ''parameters'' ''Function parameters''
       ([(''specific_catalog'', TyStr), (''specific_schema'', TyStr), (''specific_name'', TyStr),
         (''ordinal_position'', TyLong), (''parameter_mode'', TyStr), (''parameter_name'', TyStr),
         (''data_type'', TyStr), (''full_data_type'', TyStr), (''parameter_default'', TyStr),
         (''comment'', TyStr)]),
     sys ''information_schema'' ''models'' ''Registered models''
       ([(''model_catalog'', TyStr), (''model_schema'', TyStr), (''model_name'', TyStr),
         (''model_owner'', TyStr), (''storage_location'', TyStr)] @
        common_object_cols),
     sys ''information_schema'' ''model_versions'' ''Model versions''
       ([(''model_catalog'', TyStr), (''model_schema'', TyStr), (''model_name'', TyStr),
         (''model_version'', TyLong), (''model_version_status'', TyStr), (''source'', TyStr),
         (''run_id'', TyStr), (''storage_location'', TyStr), (''comment'', TyStr), (''created_by'', TyStr),
         (''created_at'', TyTs), (''last_altered_by'', TyStr), (''last_altered'', TyTs)]),
     sys ''information_schema'' ''model_version_aliases'' ''Model aliases''
       ([(''model_catalog'', TyStr), (''model_schema'', TyStr), (''model_name'', TyStr),
         (''alias_name'', TyStr), (''model_version'', TyLong)]),
     sys ''information_schema'' ''catalog_privileges'' ''Grants on catalogs''
       (privileges_cols [''catalog_name'']),
     sys ''information_schema'' ''schema_privileges'' ''Grants on schemas''
       (privileges_cols [''catalog_name'', ''schema_name''])]"

definition information_schema_grants :: "sys_table list" where
  "information_schema_grants =
    [sys ''information_schema'' ''table_privileges'' ''Grants on tables''
       (privileges_cols [''table_catalog'', ''table_schema'', ''table_name'']),
     sys ''information_schema'' ''volume_privileges'' ''Grants on volumes''
       (privileges_cols [''volume_catalog'', ''volume_schema'', ''volume_name'']),
     sys ''information_schema'' ''routine_privileges'' ''Grants on functions''
       (privileges_cols [''specific_catalog'', ''specific_schema'', ''specific_name'']),
     sys ''information_schema'' ''external_location_privileges'' ''Grants on external locations''
       (privileges_cols [''external_location_name'']),
     sys ''information_schema'' ''storage_credential_privileges'' ''Grants on storage credentials''
       (privileges_cols [''storage_credential_name'']),
     sys ''information_schema'' ''connection_privileges'' ''Grants on connections''
       (privileges_cols [''connection_name'']),
     sys ''information_schema'' ''metastore_privileges'' ''Grants on the metastore''
       (privileges_cols [''metastore_id''])]"

definition information_schema_rest :: "sys_table list" where
  "information_schema_rest =
    [sys ''information_schema'' ''catalog_tags'' ''Catalog tags''
       ([(''catalog_name'', TyStr), (''tag_name'', TyStr), (''tag_value'', TyStr)]),
     sys ''information_schema'' ''schema_tags'' ''Schema tags''
       ([(''catalog_name'', TyStr), (''schema_name'', TyStr), (''tag_name'', TyStr), (''tag_value'', TyStr)]),
     sys ''information_schema'' ''table_tags'' ''Table tags''
       ([(''catalog_name'', TyStr), (''schema_name'', TyStr), (''table_name'', TyStr), (''tag_name'', TyStr),
         (''tag_value'', TyStr)]),
     sys ''information_schema'' ''column_tags'' ''Column tags''
       ([(''catalog_name'', TyStr), (''schema_name'', TyStr), (''table_name'', TyStr), (''column_name'', TyStr),
         (''tag_name'', TyStr), (''tag_value'', TyStr)]),
     sys ''information_schema'' ''volume_tags'' ''Volume tags''
       ([(''catalog_name'', TyStr), (''schema_name'', TyStr), (''volume_name'', TyStr), (''tag_name'', TyStr),
         (''tag_value'', TyStr)]),
     sys ''information_schema'' ''table_constraints'' ''Table constraints''
       ([(''constraint_catalog'', TyStr), (''constraint_schema'', TyStr), (''constraint_name'', TyStr),
         (''table_catalog'', TyStr), (''table_schema'', TyStr), (''table_name'', TyStr),
         (''constraint_type'', TyStr), (''is_deferrable'', TyStr), (''initially_deferred'', TyStr),
         (''enforced'', TyStr)]),
     sys ''information_schema'' ''key_column_usage'' ''Columns in PK/FK constraints''
       ([(''constraint_catalog'', TyStr), (''constraint_schema'', TyStr), (''constraint_name'', TyStr),
         (''table_catalog'', TyStr), (''table_schema'', TyStr), (''table_name'', TyStr),
         (''column_name'', TyStr), (''ordinal_position'', TyLong), (''position_in_unique_constraint'', TyLong)]),
     sys ''information_schema'' ''referential_constraints'' ''Foreign keys''
       ([(''constraint_catalog'', TyStr), (''constraint_schema'', TyStr), (''constraint_name'', TyStr),
         (''unique_constraint_catalog'', TyStr), (''unique_constraint_schema'', TyStr),
         (''unique_constraint_name'', TyStr), (''match_option'', TyStr), (''update_rule'', TyStr),
         (''delete_rule'', TyStr)]),
     sys ''information_schema'' ''constraint_column_usage'' ''Columns referenced by constraints''
       ([(''table_catalog'', TyStr), (''table_schema'', TyStr), (''table_name'', TyStr),
         (''column_name'', TyStr), (''constraint_catalog'', TyStr), (''constraint_schema'', TyStr),
         (''constraint_name'', TyStr)]),
     sys ''information_schema'' ''check_constraints'' ''CHECK constraints''
       ([(''constraint_catalog'', TyStr), (''constraint_schema'', TyStr), (''constraint_name'', TyStr),
         (''sql_path'', TyStr)]),
     sys ''information_schema'' ''row_filters'' ''Row filters''
       ([(''table_catalog'', TyStr), (''table_schema'', TyStr), (''table_name'', TyStr),
         (''filter_catalog'', TyStr), (''filter_schema'', TyStr), (''filter_name'', TyStr),
         (''target_columns'', TyStr)]),
     sys ''information_schema'' ''column_masks'' ''Column masks''
       ([(''table_catalog'', TyStr), (''table_schema'', TyStr), (''table_name'', TyStr),
         (''column_name'', TyStr), (''mask_catalog'', TyStr), (''mask_schema'', TyStr), (''mask_name'', TyStr),
         (''using_columns'', TyStr)]),
     sys ''information_schema'' ''external_locations'' ''External locations''
       ([(''external_location_name'', TyStr), (''url'', TyStr), (''storage_credential_name'', TyStr),
         (''external_location_owner'', TyStr), (''read_only'', TyBool)] @
        common_object_cols),
     sys ''information_schema'' ''storage_credentials'' ''Storage credentials''
       ([(''storage_credential_name'', TyStr), (''storage_credential_owner'', TyStr),
         (''credential_type'', TyStr), (''read_only'', TyBool)] @
        common_object_cols),
     sys ''information_schema'' ''connections'' ''Connections''
       ([(''connection_name'', TyStr), (''connection_type'', TyStr), (''connection_owner'', TyStr),
         (''connection_url'', TyStr), (''credential_type'', TyStr), (''read_only'', TyBool)] @
        common_object_cols),
     sys ''information_schema'' ''shares'' ''Delta Sharing shares''
       ([(''share_name'', TyStr), (''share_owner'', TyStr), (''comment'', TyStr), (''created'', TyTs),
         (''created_by'', TyStr)]),
     sys ''information_schema'' ''recipients'' ''Delta Sharing recipients''
       ([(''recipient_name'', TyStr), (''recipient_owner'', TyStr), (''authentication_type'', TyStr),
         (''comment'', TyStr), (''created'', TyTs), (''created_by'', TyStr)]),
     sys ''information_schema'' ''providers'' ''Delta Sharing providers''
       ([(''provider_name'', TyStr), (''provider_owner'', TyStr), (''authentication_type'', TyStr),
         (''comment'', TyStr), (''created'', TyTs), (''created_by'', TyStr)])]"

definition access_tables :: "sys_table list" where
  "access_tables =
    [sys ''access'' ''audit'' ''Audit log of API and SQL activity''
       ([(''version'', TyStr), (''event_time'', TyTs), (''event_date'', TyDate), (''workspace_id'', TyStr),
         (''source_ip_address'', TyStr), (''user_agent'', TyStr), (''session_id'', TyStr),
         (''user_identity'', TyStruct [(''email'', TyStr), (''subject_name'', TyStr)]),
         (''service_name'', TyStr), (''action_name'', TyStr), (''request_id'', TyStr),
         (''request_params'', TyStr),
         (''response'', TyStruct [(''status_code'', TyLong), (''error_message'', TyStr), (''result'', TyStr)]),
         (''audit_level'', TyStr), (''account_id'', TyStr), (''event_id'', TyStr)]),
     sys ''access'' ''table_lineage'' ''Table-level lineage from executed statements''
       (lineage_common @
        [(''source_path'', TyStr), (''source_type'', TyStr), (''target_table_full_name'', TyStr),
         (''target_table_catalog'', TyStr), (''target_table_schema'', TyStr), (''target_table_name'', TyStr),
         (''target_path'', TyStr), (''target_type'', TyStr), (''created_by'', TyStr), (''event_time'', TyTs),
         (''event_date'', TyDate), (''event_id'', TyStr)]),
     sys ''access'' ''column_lineage'' ''Column-level lineage from executed statements''
       (lineage_common @
        [(''source_column_name'', TyStr), (''source_type'', TyStr), (''target_table_full_name'', TyStr),
         (''target_table_catalog'', TyStr), (''target_table_schema'', TyStr), (''target_table_name'', TyStr),
         (''target_column_name'', TyStr), (''target_type'', TyStr), (''created_by'', TyStr),
         (''event_time'', TyTs), (''event_date'', TyDate), (''event_id'', TyStr)]),
     sys ''access'' ''workspaces_latest'' ''Workspaces''
       ([(''account_id'', TyStr), (''workspace_id'', TyStr), (''workspace_name'', TyStr),
         (''workspace_url'', TyStr), (''create_time'', TyTs), (''status'', TyStr)])]"

definition query_tables :: "sys_table list" where
  "query_tables =
    [sys ''query'' ''history'' ''SQL statement history''
       ([(''account_id'', TyStr), (''workspace_id'', TyStr), (''statement_id'', TyStr), (''session_id'', TyStr),
         (''execution_status'', TyStr),
         (''compute'', TyStruct [(''type'', TyStr), (''cluster_id'', TyStr), (''warehouse_id'', TyStr)]),
         (''executed_by_user_id'', TyStr), (''executed_by'', TyStr), (''statement_text'', TyStr),
         (''statement_type'', TyStr), (''error_message'', TyStr), (''client_application'', TyStr),
         (''total_duration_ms'', TyLong), (''execution_duration_ms'', TyLong),
         (''compilation_duration_ms'', TyLong), (''start_time'', TyTs), (''end_time'', TyTs),
         (''update_time'', TyTs), (''read_rows'', TyLong), (''produced_rows'', TyLong),
         (''read_bytes'', TyLong), (''written_bytes'', TyLong), (''from_result_cache'', TyBool),
         (''query_source'', TyStruct [(''job_id'', TyStr), (''notebook_id'', TyStr), (''pipeline_id'', TyStr), (''sql_query_id'', TyStr)])])]"

definition compute_tables :: "sys_table list" where
  "compute_tables =
    [sys ''compute'' ''clusters'' ''All-purpose and job clusters''
       ([(''account_id'', TyStr), (''workspace_id'', TyStr), (''cluster_id'', TyStr), (''cluster_name'', TyStr),
         (''owned_by'', TyStr), (''create_time'', TyTs), (''delete_time'', TyTs), (''driver_node_type'', TyStr),
         (''worker_node_type'', TyStr), (''worker_count'', TyLong), (''min_autoscale_workers'', TyLong),
         (''max_autoscale_workers'', TyLong), (''auto_termination_minutes'', TyLong), (''tags'', TyStr),
         (''cluster_source'', TyStr), (''dbr_version'', TyStr), (''data_security_mode'', TyStr),
         (''policy_id'', TyStr), (''state'', TyStr), (''change_time'', TyTs), (''change_date'', TyDate)]),
     sys ''compute'' ''warehouses'' ''SQL warehouses''
       ([(''warehouse_id'', TyStr), (''workspace_id'', TyStr), (''account_id'', TyStr),
         (''warehouse_name'', TyStr), (''warehouse_type'', TyStr), (''warehouse_channel'', TyStr),
         (''warehouse_size'', TyStr), (''min_clusters'', TyLong), (''max_clusters'', TyLong),
         (''auto_stop_minutes'', TyLong), (''tags'', TyStr), (''cluster_id'', TyStr), (''state'', TyStr),
         (''change_time'', TyTs), (''delete_time'', TyTs)]),
     sys ''compute'' ''node_types'' ''Available node types''
       ([(''account_id'', TyStr), (''node_type'', TyStr), (''core_count'', TyLong), (''memory_mb'', TyLong),
         (''gpu_count'', TyLong)]),
     sys ''compute'' ''warehouse_events'' ''Warehouse lifecycle events''
       ([(''account_id'', TyStr), (''workspace_id'', TyStr), (''warehouse_id'', TyStr), (''event_type'', TyStr),
         (''cluster_count'', TyLong), (''event_time'', TyTs)])]"

definition lakeflow_tables :: "sys_table list" where
  "lakeflow_tables =
    [sys ''lakeflow'' ''jobs'' ''Jobs''
       ([(''account_id'', TyStr), (''workspace_id'', TyStr), (''job_id'', TyStr), (''name'', TyStr),
         (''description'', TyStr), (''creator_id'', TyStr), (''run_as'', TyStr), (''tags'', TyStr),
         (''change_time'', TyTs), (''delete_time'', TyTs)]),
     sys ''lakeflow'' ''job_tasks'' ''Job tasks''
       ([(''account_id'', TyStr), (''workspace_id'', TyStr), (''job_id'', TyStr), (''task_key'', TyStr),
         (''depends_on_keys'', TyStr), (''task_type'', TyStr), (''change_time'', TyTs), (''delete_time'', TyTs)]),
     sys ''lakeflow'' ''job_run_timeline'' ''Job runs''
       ([(''account_id'', TyStr), (''workspace_id'', TyStr), (''job_id'', TyStr), (''run_id'', TyStr),
         (''run_name'', TyStr), (''period_start_time'', TyTs), (''period_end_time'', TyTs),
         (''trigger_type'', TyStr), (''run_type'', TyStr), (''compute_ids'', TyStr), (''result_state'', TyStr),
         (''termination_code'', TyStr), (''job_parameters'', TyStr)]),
     sys ''lakeflow'' ''job_task_run_timeline'' ''Job task runs''
       ([(''account_id'', TyStr), (''workspace_id'', TyStr), (''job_id'', TyStr), (''run_id'', TyStr),
         (''job_run_id'', TyStr), (''task_key'', TyStr), (''period_start_time'', TyTs),
         (''period_end_time'', TyTs), (''compute_ids'', TyStr), (''result_state'', TyStr),
         (''termination_code'', TyStr)]),
     sys ''lakeflow'' ''pipelines'' ''Pipelines''
       ([(''account_id'', TyStr), (''workspace_id'', TyStr), (''pipeline_id'', TyStr),
         (''pipeline_type'', TyStr), (''name'', TyStr), (''created_by'', TyStr), (''run_as'', TyStr),
         (''tags'', TyStr), (''settings'', TyStr), (''configuration'', TyStr), (''change_time'', TyTs),
         (''delete_time'', TyTs)]),
     sys ''lakeflow'' ''pipeline_update_timeline'' ''Pipeline updates''
       ([(''account_id'', TyStr), (''workspace_id'', TyStr), (''pipeline_id'', TyStr), (''update_id'', TyStr),
         (''cause'', TyStr), (''state'', TyStr), (''period_start_time'', TyTs), (''period_end_time'', TyTs)])]"

definition billing_tables :: "sys_table list" where
  "billing_tables =
    [sys ''billing'' ''usage'' ''Estimated DBU usage per compute resource (derived from cluster/warehouse/job runtime)''
       ([(''record_id'', TyStr), (''account_id'', TyStr), (''workspace_id'', TyStr), (''sku_name'', TyStr),
         (''cloud'', TyStr), (''usage_start_time'', TyTs), (''usage_end_time'', TyTs), (''usage_date'', TyDate),
         (''custom_tags'', TyStr), (''usage_unit'', TyStr), (''usage_quantity'', TyDouble),
         (''usage_metadata'', TyStruct [(''cluster_id'', TyStr), (''job_id'', TyStr), (''job_run_id'', TyStr), (''warehouse_id'', TyStr), (''node_type'', TyStr), (''endpoint_name'', TyStr), (''database_instance_id'', TyStr)]),
         (''identity_metadata'', TyStruct [(''run_as'', TyStr), (''owned_by'', TyStr)]),
         (''record_type'', TyStr), (''ingestion_date'', TyDate), (''billing_origin_product'', TyStr),
         (''usage_type'', TyStr)]),
     sys ''billing'' ''list_prices'' ''List prices per SKU''
       ([(''price_start_time'', TyTs), (''price_end_time'', TyTs), (''account_id'', TyStr),
         (''sku_name'', TyStr), (''cloud'', TyStr), (''currency_code'', TyStr), (''usage_unit'', TyStr),
         (''pricing'', TyStruct [(''default'', TyDouble)])])]"

definition mlflow_tables :: "sys_table list" where
  "mlflow_tables =
    [sys ''mlflow'' ''experiments_latest'' ''MLflow experiments''
       ([(''account_id'', TyStr), (''workspace_id'', TyStr), (''experiment_id'', TyStr), (''name'', TyStr),
         (''artifact_location'', TyStr), (''lifecycle_stage'', TyStr), (''create_time'', TyTs),
         (''last_update_time'', TyTs)]),
     sys ''mlflow'' ''runs_latest'' ''MLflow runs''
       ([(''account_id'', TyStr), (''workspace_id'', TyStr), (''experiment_id'', TyStr), (''run_id'', TyStr),
         (''run_name'', TyStr), (''status'', TyStr), (''user_id'', TyStr), (''start_time'', TyTs),
         (''end_time'', TyTs)])]"

definition serving_tables :: "sys_table list" where
  "serving_tables =
    [sys ''serving'' ''endpoint_usage'' ''Model serving requests''
       ([(''account_id'', TyStr), (''workspace_id'', TyStr), (''endpoint_name'', TyStr),
         (''served_entity_name'', TyStr), (''state'', TyStr), (''request_count'', TyLong),
         (''change_time'', TyTs)])]"

definition lakebase_tables :: "sys_table list" where
  "lakebase_tables =
    [sys ''lakebase'' ''instances'' ''Lakebase database instances''
       ([(''account_id'', TyStr), (''workspace_id'', TyStr), (''uid'', TyStr), (''name'', TyStr),
         (''state'', TyStr), (''capacity'', TyStr), (''pg_version'', TyStr), (''creator'', TyStr),
         (''backend'', TyStr), (''read_write_dns'', TyStr), (''node_count'', TyLong), (''creation_time'', TyTs),
         (''change_time'', TyTs)]),
     sys ''lakebase'' ''synced_tables'' ''Lakebase synced tables''
       ([(''account_id'', TyStr), (''workspace_id'', TyStr), (''name'', TyStr),
         (''database_instance_name'', TyStr), (''logical_database_name'', TyStr),
         (''source_table_full_name'', TyStr), (''scheduling_policy'', TyStr), (''state'', TyStr),
         (''pipeline_id'', TyStr), (''synced_rows'', TyLong), (''last_sync_time'', TyTs)])]"

definition sys_tables :: "sys_table list" where
  "sys_tables = information_schema_tables @
     information_schema_grants @
     information_schema_rest @
     access_tables @
     query_tables @
     compute_tables @
     lakeflow_tables @
     billing_tables @
     mlflow_tables @
     serving_tables @
     lakebase_tables"

section \<open>Virtual documents\<close>

definition system_catalog_doc :: "string \<Rightarrow> json" where
  "system_catalog_doc owner = jobj
     [(''name'', JStr SYSTEM_CATALOG), (''full_name'', JStr SYSTEM_CATALOG), (''catalog_type'', JStr ''SYSTEM_CATALOG''),
      (''securable_type'', JStr ''CATALOG''), (''securable_kind'', JStr ''CATALOG_SYSTEM''), (''owner'', JStr owner),
      (''comment'', JStr ''System tables: audit, lineage, query history, compute, jobs, billing and the metastore information schema.''),
      (''metastore_id'', JStr METASTORE_ID), (''isolation_mode'', JStr ''OPEN''), (''properties'', JObj []),
      (''created_at'', JInt 0), (''created_by'', JStr owner), (''updated_at'', JInt 0), (''updated_by'', JStr owner),
      (''browse_only'', JBool False)]"

definition virtual_schema_doc :: "string \<Rightarrow> string \<Rightarrow> string \<Rightarrow> json" where
  "virtual_schema_doc cat sch owner = jobj
     [(''name'', JStr sch), (''catalog_name'', JStr cat), (''full_name'', JStr (cat @ ''.'' @ sch)),
      (''securable_type'', JStr ''SCHEMA''),
      (''catalog_type'', JStr (if cat = SYSTEM_CATALOG then ''SYSTEM_CATALOG'' else ''MANAGED_CATALOG'')),
      (''owner'', JStr owner),
      (''comment'', JStr (if sch = ''information_schema'' then ''Metadata about the metastore'' else ''System tables'')),
      (''metastore_id'', JStr METASTORE_ID), (''properties'', JObj []),
      (''created_at'', JInt 0), (''created_by'', JStr owner), (''updated_at'', JInt 0), (''updated_by'', JStr owner)]"

definition sys_column_doc :: "nat \<Rightarrow> string \<times> ty \<Rightarrow> json" where
  "sys_column_doc i nt = jobj
     [(''name'', JStr (fst nt)), (''type_text'', JStr (type_text (snd nt))), (''type_name'', JStr (type_name (snd nt))),
      (''position'', JInt (int i)), (''nullable'', JBool True),
      (''type_json'', JStr (show_json (jobj [(''name'', JStr (fst nt)), (''type'', JStr (type_text (snd nt))),
        (''nullable'', JBool True)])))]"

definition sys_table_doc :: "sys_table \<Rightarrow> string \<Rightarrow> string \<Rightarrow> json" where
  "sys_table_doc t cat owner = jobj
     [(''name'', JStr (sy_name t)), (''catalog_name'', JStr cat), (''schema_name'', JStr (sy_schema t)),
      (''full_name'', JStr (cat @ ''.'' @ sy_schema t @ ''.'' @ sy_name t)), (''table_type'', JStr ''SYSTEM''),
      (''data_source_format'', JStr ''PARQUET''), (''securable_type'', JStr ''TABLE''), (''owner'', JStr owner),
      (''comment'', JStr (sy_comment t)),
      (''columns'', JArr (map (\<lambda>(i, nt). sys_column_doc i nt) (enumerate 0 (sy_columns t)))),
      (''properties'', jobj [(''lakeforge.system_table'', JStr ''true'')]), (''metastore_id'', JStr METASTORE_ID),
      (''created_at'', JInt 0), (''created_by'', JStr owner), (''updated_at'', JInt 0), (''updated_by'', JStr owner),
      (''table_id'', JStr (''system-'' @ sy_schema t @ ''-'' @ sy_name t)), (''browse_only'', JBool False)]"

definition engine_view_doc :: "string \<Rightarrow> string \<Rightarrow> string \<times> string list \<Rightarrow> json" where
  "engine_view_doc cat owner nc = jobj
     [(''name'', JStr (fst nc)), (''catalog_name'', JStr cat), (''schema_name'', JStr ''information_schema''),
      (''full_name'', JStr (cat @ ''.information_schema.'' @ fst nc)), (''table_type'', JStr ''SYSTEM''),
      (''data_source_format'', JStr ''VIEW''), (''securable_type'', JStr ''TABLE''), (''owner'', JStr owner),
      (''comment'', JStr ''DataFusion information schema view''), (''metastore_id'', JStr METASTORE_ID),
      (''properties'', jobj [(''lakeforge.engine_view'', JStr ''true'')]),
      (''columns'', JArr (map (\<lambda>(i, c). jobj [(''name'', JStr c), (''type_text'', JStr ''string''),
        (''type_name'', JStr ''STRING''), (''position'', JInt (int i)), (''nullable'', JBool True)]) (enumerate 0 (snd nc)))),
      (''created_at'', JInt 0), (''created_by'', JStr owner), (''updated_at'', JInt 0), (''updated_by'', JStr owner),
      (''table_id'', JStr (''df-'' @ cat @ ''-'' @ fst nc))]"

definition datafusion_info_schema :: "string \<Rightarrow> string \<Rightarrow> json list" where
  "datafusion_info_schema cat owner = map (engine_view_doc cat owner)
     [(''tables'', [''table_catalog'', ''table_schema'', ''table_name'', ''table_type'']),
      (''views'', [''table_catalog'', ''table_schema'', ''table_name'', ''definition'']),
      (''columns'', [''table_catalog'', ''table_schema'', ''table_name'', ''column_name'', ''ordinal_position'',
        ''column_default'', ''is_nullable'', ''data_type'']),
      (''schemata'', [''catalog_name'', ''schema_name'', ''schema_owner'']),
      (''routines'', [''specific_catalog'', ''specific_schema'', ''specific_name'', ''routine_name'', ''routine_type'', ''data_type'']),
      (''parameters'', [''specific_catalog'', ''specific_schema'', ''specific_name'', ''ordinal_position'', ''parameter_name'', ''data_type'']),
      (''df_settings'', [''name'', ''value'', ''description''])]"

definition virtual_tables_in :: "string \<Rightarrow> string \<Rightarrow> string \<Rightarrow> json list" where
  "virtual_tables_in cat sch owner =
     (if cat = SYSTEM_CATALOG
      then map (\<lambda>t. sys_table_doc t cat owner) (filter (\<lambda>t. sy_schema t = sch) sys_tables)
      else if sch = ''information_schema'' then datafusion_info_schema cat owner
      else [])"

definition virtual_table_doc :: "string \<Rightarrow> string \<Rightarrow> string \<Rightarrow> string \<Rightarrow> json option" where
  "virtual_table_doc cat sch name owner =
     find (\<lambda>t. j_get t ''name'' = JStr name) (virtual_tables_in cat sch owner)"

text \<open>Every virtual table is marked as a system table.\<close>

lemma virtual_tables_type: "t \<in> set (virtual_tables_in cat sch owner) \<Longrightarrow> j_get t ''table_type'' = JStr ''SYSTEM''"
  by (auto simp: virtual_tables_in_def datafusion_info_schema_def sys_table_doc_def engine_view_doc_def j_get_jobj
      simp del: list.map split: if_splits)

lemma virtual_table_type:
  "virtual_table_doc cat sch name owner = Some t \<Longrightarrow> j_get t ''table_type'' = JStr ''SYSTEM''"
  by (rule virtual_tables_type [of t cat sch owner]) (auto simp: virtual_table_doc_def find_Some_iff)

end
