(* ===== verification/Uc_Catalog.thy ===== *)
theory Uc_Catalog
  imports Uc_System
begin

text \<open>
  The metastore (\<open>lakeforge-api/src/api/catalog.rs\<close>), first part: the state of a handler, names,
  lookups of real and virtual securables, what is sent to the engine, and catalogs, schemas and
  tables. A securable is a JSON document keyed by kind and full name. The clock, the fresh
  identifiers and the engine's answers are read in order from streams; statements for the running
  clusters and removals from the object store are recorded, newest first. The storage root, the
  sealing of secrets, the object store's \<open>mkdirs\<close> and the SQL expression parser are parameters.
\<close>

section \<open>State\<close>

datatype cat_event =
    Sql string
  | RegisterTable string string string string string "(string \<times> string) list"
  | DeletePrefix string

record cat_state =
  cs_app :: app_state
  cs_clock :: "nat \<Rightarrow> int"
  cs_tick :: nat
  cs_uuid :: "nat \<Rightarrow> string"
  cs_uuids :: nat
  cs_answer :: "nat \<Rightarrow> json option"
  cs_events :: "cat_event list"

record cat_lib =
  cl_root_url :: string
  cl_mkdirs :: "string \<Rightarrow> api_error + unit"
  cl_seal :: "string \<Rightarrow> api_error + string"
  cl_parse_expr :: "string \<Rightarrow> string option"

type_synonym 'a cm = "(cat_state, 'a) handler"

definition c_lift :: "api_error + 'a \<Rightarrow> 'a cm" where
  "c_lift r cs = (r, cs)"

definition c_ask :: "(app_state \<Rightarrow> 'a) \<Rightarrow> 'a cm" where
  "c_ask f cs = (Inr (f (cs_app cs)), cs)"

definition c_now :: "int cm" where
  "c_now cs = (Inr (cs_clock cs (cs_tick cs)), cs\<lparr>cs_tick := Suc (cs_tick cs)\<rparr>)"

definition c_uuid :: "string cm" where
  "c_uuid cs = (Inr (cs_uuid cs (cs_uuids cs)), cs\<lparr>cs_uuids := Suc (cs_uuids cs)\<rparr>)"

definition c_event :: "cat_event \<Rightarrow> unit cm" where
  "c_event e cs = (Inr (), cs\<lparr>cs_events := e # cs_events cs\<rparr>)"

definition c_app :: "(app_state \<Rightarrow> (api_error + 'a) \<times> app_state) \<Rightarrow> 'a cm" where
  "c_app f cs = (case f (cs_app cs) of (r, st) \<Rightarrow> (r, cs\<lparr>cs_app := st\<rparr>))"

definition c_store :: "(store \<Rightarrow> (api_error + 'a) \<times> store) \<Rightarrow> 'a cm" where
  "c_store f = c_app (\<lambda>st. case f (as_store st) of (r, s) \<Rightarrow> (r, store_of s st))"

text \<open>The authorizer reads the current state; its caches are threaded as a value.\<close>

definition c_authorizer :: "principal \<Rightarrow> authorizer cm" where
  "c_authorizer p cs = (Inr (az_new (cs_app cs) p), cs)"

definition c_az :: "(authorizer \<Rightarrow> (api_error + unit) \<times> authorizer) \<Rightarrow> authorizer \<Rightarrow> authorizer cm" where
  "c_az f az cs = (case f (az\<lparr>az_st := cs_app cs\<rparr>) of (Inl e, az') \<Rightarrow> (Inl e, cs) | (Inr _, az') \<Rightarrow> (Inr az', cs))"

definition c_can :: "(authorizer \<Rightarrow> bool \<times> authorizer) \<Rightarrow> authorizer \<Rightarrow> (bool \<times> authorizer) cm" where
  "c_can f az cs = (Inr (f (az\<lparr>az_st := cs_app cs\<rparr>)), cs)"

definition c_insert :: "string \<Rightarrow> string \<Rightarrow> string option \<Rightarrow> string \<Rightarrow> json \<Rightarrow> unit cm" where
  "c_insert kind full parent name v = h_then c_now (\<lambda>now.
     h_then (c_store (store_insert now kind workspace_id (uc_doc_id kind full) parent (Some name) v)) (\<lambda>_. h_ret ()))"

definition c_upsert :: "string \<Rightarrow> string \<Rightarrow> string option \<Rightarrow> string \<Rightarrow> json \<Rightarrow> unit cm" where
  "c_upsert kind full parent name v = h_then c_now (\<lambda>now.
     c_store (store_upsert now kind workspace_id (uc_doc_id kind full) parent (Some name) v))"

definition c_delete :: "string \<Rightarrow> string \<Rightarrow> bool cm" where
  "c_delete kind i = c_store (\<lambda>s. case store_delete kind i s of (b, s') \<Rightarrow> (Inr b, s'))"

definition c_delete_children :: "string \<Rightarrow> string \<Rightarrow> unit cm" where
  "c_delete_children kind parent = c_store (\<lambda>s. (Inr (), snd (delete_children kind parent s)))"

definition c_list :: "string \<Rightarrow> store_filter \<Rightarrow> doc list cm" where
  "c_list kind f = c_ask (\<lambda>st. store_list kind workspace_id f (as_store st))"

definition c_drop_grants :: "securable \<Rightarrow> string \<Rightarrow> unit cm" where
  "c_drop_grants sec n = c_app (\<lambda>st. (Inr (), drop_grants sec n st))"

definition c_move_grants :: "securable \<Rightarrow> string \<Rightarrow> string \<Rightarrow> unit cm" where
  "c_move_grants sec from to = h_then c_now (\<lambda>now. c_app (move_grants now sec from to))"

section \<open>Names and fields\<close>

definition KIND_MODEL :: string where "KIND_MODEL = ''uc_registered_model''"

definition base_fields :: "int \<Rightarrow> string \<Rightarrow> jmap \<Rightarrow> jmap" where
  "base_fields now owner o0 =
     or_insert ''properties'' (JObj []) (or_insert ''comment'' (JStr []) (or_insert ''metastore_id'' (JStr METASTORE_ID)
     (bt_insert ''updated_by'' (JStr owner) (bt_insert ''updated_at'' (JInt now)
     (or_insert ''created_by'' (JStr owner) (or_insert ''created_at'' (JInt now) (or_insert ''owner'' (JStr owner) o0)))))))"

definition nth_opt :: "nat \<Rightarrow> 'a list \<Rightarrow> 'a option" where
  "nth_opt i xs = (if i < length xs then Some (xs ! i) else None)"

definition after_word :: "string \<Rightarrow> string list \<Rightarrow> string option" where
  "after_word w toks = Option.bind (index_of (\<lambda>t. t = w) toks) (\<lambda>i. nth_opt (Suc i) toks)"

definition ddl_format :: "string \<Rightarrow> string option" where
  "ddl_format sql =
     (let toks = map (\<lambda>t. to_upper (trim_end_char (CHR '';'') t)) (split_whitespace sql)
      in case after_word ''USING'' toks of
           Some f \<Rightarrow> Some f
         | None \<Rightarrow> Option.bind (index_of (\<lambda>t. t = ''STORED'') toks) (\<lambda>i.
             if nth_opt (i + 1) toks = Some ''AS'' then nth_opt (i + 2) toks else None))"

definition str_field :: "jmap \<Rightarrow> string \<Rightarrow> api_error + string" where
  "str_field m k = ok_or (InvalidParameter (k @ '' is required'')) (Option.bind (map_of m k) as_str)"

definition ok_name :: "string \<Rightarrow> bool" where
  "ok_name name \<longleftrightarrow> name \<noteq> [] \<and> list_all (\<lambda>c. c \<noteq> CHR ''.'' \<and> c \<noteq> CHR ''/'' \<and> \<not> is_space c) name"

definition validate_name :: "string \<Rightarrow> string \<Rightarrow> api_error + unit" where
  "validate_name name what =
     (if ok_name name then Inr ()
      else Inl (InvalidParameter (''Invalid '' @ what @ '' name '' @ quoted name @
        '': must be non-empty and contain no '' @ quoted ''.'' @ '', '' @ quoted ''/'' @ '' or whitespace'')))"

definition split_name :: "string \<Rightarrow> string \<times> string \<times> string" where
  "split_name name =
     (case split_on (CHR ''.'') name of
        [c, s, t] \<Rightarrow> (c, s, t)
      | [s, t] \<Rightarrow> (UC_DEFAULT_CATALOG, s, t)
      | [t] \<Rightarrow> (UC_DEFAULT_CATALOG, ''default'', t)
      | _ \<Rightarrow> (UC_DEFAULT_CATALOG, ''default'', name))"

definition schema_of :: "string \<Rightarrow> api_error + string \<times> string" where
  "schema_of full =
     (case split_on (CHR ''.'') full of
        [c, s] \<Rightarrow> Inr (c, s)
      | _ \<Rightarrow> Inl (InvalidParameter (''Invalid schema name '' @ quoted full @ '': expected catalog.schema'')))"

definition three_parts :: "string \<Rightarrow> string \<Rightarrow> api_error + string \<times> string \<times> string" where
  "three_parts full what =
     (let bad = Inl (InvalidParameter (''Invalid '' @ what @ '' name '' @ quoted full @ '': expected catalog.schema.name''))
      in case split_on (CHR ''.'') full of
           [c, s, t] \<Rightarrow> if c \<noteq> [] \<and> s \<noteq> [] \<and> t \<noteq> [] then Inr (c, s, t) else bad
         | _ \<Rightarrow> bad)"

definition url_for :: "cat_lib \<Rightarrow> string \<Rightarrow> string" where
  "url_for lib path =
     (let clean = trim_char (CHR ''/'') path; root = trim_end_char (CHR ''/'') (cl_root_url lib)
      in if clean = [] then root else root @ ''/'' @ clean)"

definition path_of :: "cat_lib \<Rightarrow> string \<Rightarrow> string option" where
  "path_of lib url = map_option (\<lambda>r. ''/'' @ dropWhile (\<lambda>x. x = CHR ''/'') r)
     (strip_prefix url (trim_end_char (CHR ''/'') (cl_root_url lib)))"

definition managed_table_location :: "cat_lib \<Rightarrow> string \<Rightarrow> string \<Rightarrow> string \<Rightarrow> string" where
  "managed_table_location lib cat sch name = url_for lib ''/tables'' @ ''/'' @ cat @ ''/'' @ sch @ ''/'' @ name"

section \<open>Lookups\<close>

definition uc_get :: "string \<Rightarrow> string \<Rightarrow> app_state \<Rightarrow> json option" where
  "uc_get kind full st = map_option d_data (store_get kind (uc_doc_id kind full) (as_store st))"

definition uc_virtual :: "string \<Rightarrow> string \<Rightarrow> app_state \<Rightarrow> json option" where
  "uc_virtual kind full st =
     (let admin = as_admin_user st in
      case split_on (CHR ''.'') full of
        [c] \<Rightarrow> if kind = KIND_CATALOG \<and> c = SYSTEM_CATALOG then Some (system_catalog_doc admin) else None
      | [c, s] \<Rightarrow> if kind = KIND_SCHEMA \<and> c = SYSTEM_CATALOG \<and> s \<in> set SYSTEM_SCHEMAS
                  then Some (virtual_schema_doc SYSTEM_CATALOG s admin)
                  else if kind = KIND_SCHEMA \<and> s = ''information_schema''
                  then Some (virtual_schema_doc c ''information_schema'' admin) else None
      | [c, s, t] \<Rightarrow> if kind = KIND_TABLE then virtual_table_doc c s t admin else None
      | _ \<Rightarrow> None)"

definition uc_require :: "string \<Rightarrow> string \<Rightarrow> string \<Rightarrow> json cm" where
  "uc_require kind full what = h_then (c_ask (\<lambda>st. (uc_get kind full st, uc_virtual kind full st))) (\<lambda>gv.
     case gv of
       (Some v, _) \<Rightarrow> h_ret v
     | (None, Some v) \<Rightarrow> h_ret v
     | (None, None) \<Rightarrow> h_fail (NotFound (what @ '' '' @ quoted full @ '' does not exist.'')))"

definition uc_exists :: "securable \<Rightarrow> string \<Rightarrow> app_state \<Rightarrow> bool" where
  "uc_exists sec full st =
     (case sec_kind sec of
        None \<Rightarrow> True
      | Some kind \<Rightarrow> uc_get kind full st \<noteq> None \<or> uc_virtual kind full st \<noteq> None)"

text \<open>The early return when the document already exists.\<close>

definition uc_absent :: "string \<Rightarrow> string \<Rightarrow> string \<Rightarrow> unit cm" where
  "uc_absent kind full message = h_then (c_ask (uc_get kind full)) (\<lambda>o'.
     if o' \<noteq> None then h_fail (AlreadyExists message) else h_ret ())"

section \<open>The engine\<close>

definition arrow_names :: "(string \<times> string) list" where
  "arrow_names = [(''UTF8'', ''STRING''), (''INT64'', ''LONG''), (''INT32'', ''INT''), (''INT16'', ''SHORT''), (''INT8'', ''BYTE''),
     (''FLOAT64'', ''DOUBLE''), (''FLOAT32'', ''FLOAT''), (''BOOLEAN'', ''BOOLEAN''), (''TIMESTAMP'', ''TIMESTAMP''),
     (''DATE'', ''DATE''), (''DECIMAL'', ''DECIMAL''), (''BINARY'', ''BINARY''), (''LIST'', ''ARRAY''), (''STRUCT'', ''STRUCT''),
     (''MAP'', ''MAP'')]"

definition map_arrow_type_text :: "string \<Rightarrow> string" where
  "map_arrow_type_text dt =
     (let up = to_upper (trim_char (CHR 0x22) dt)
      in case find (\<lambda>nt. has_infix up (fst nt)) arrow_names of Some nt \<Rightarrow> snd nt | None \<Rightarrow> up)"

definition columns_from_engine_schema :: "json \<Rightarrow> json list" where
  "columns_from_engine_schema schema =
     (case as_array schema of
        None \<Rightarrow> []
      | Some fs \<Rightarrow> map (\<lambda>(i, f).
          let name = or_default [] (as_str (j_get f ''name''));
              dt = (case j_field f ''data_type'' of
                      Some v \<Rightarrow> show_json v
                    | None \<Rightarrow> (case j_field f ''type'' of Some v \<Rightarrow> show_json v | None \<Rightarrow> []));
              tn = map_arrow_type_text dt
          in jobj [(''name'', JStr name), (''type_text'', JStr (to_lower tn)), (''type_name'', JStr tn),
                   (''position'', JInt (int i)), (''nullable'', JBool (or_default True (as_bool (j_get f ''nullable'')))),
                   (''type_json'', JStr dt)]) (enumerate 0 fs))"

definition kept_column_keys :: "string list" where
  "kept_column_keys = [''comment'', ''mask'', ''tags'', ''type_precision'', ''type_scale'', ''partition_index'']"

definition merge_column :: "(string \<times> json) list \<Rightarrow> json \<Rightarrow> json" where
  "merge_column prev c =
     (case c of
        JObj co \<Rightarrow> (case Option.bind (as_str (j_get c ''name'')) (map_of prev) of
            Some (JObj oo) \<Rightarrow> JObj (fold (\<lambda>k co'. case map_of oo k of Some v \<Rightarrow> or_insert k v co' | None \<Rightarrow> co')
                                    kept_column_keys co)
          | _ \<Rightarrow> c)
      | _ \<Rightarrow> c)"

definition merge_columns :: "json option \<Rightarrow> json list \<Rightarrow> json list" where
  "merge_columns existing engine =
     (let prev = rev (filter_map (\<lambda>c. map_option (\<lambda>n. (n, c)) (as_str (j_get c ''name'')))
                        (or_default [] (Option.bind existing as_array)))
      in map (merge_column prev) engine)"

definition broadcast_sql :: "string \<Rightarrow> unit cm" where
  "broadcast_sql sql = c_event (Sql sql)"

text \<open>\<open>register_table_on\<close>, for every running cluster: the commands, and whether the engine answers
  with a schema.\<close>

definition register_table_on :: "json \<Rightarrow> bool cm" where
  "register_table_on table =
     (case (as_str (j_get table ''catalog_name''), as_str (j_get table ''schema_name''), as_str (j_get table ''name'')) of
        (Some cat, Some sch, Some name) \<Rightarrow>
          (if as_str (j_get table ''table_type'') = Some ''VIEW'' then
             (case as_str (j_get table ''view_definition'') of
                Some d \<Rightarrow> h_then (broadcast_sql (''CREATE SCHEMA IF NOT EXISTS '' @ cat @ ''.'' @ sch)) (\<lambda>_.
                  h_then (broadcast_sql (''CREATE OR REPLACE VIEW '' @ cat @ ''.'' @ sch @ ''.'' @ name @ '' AS '' @ d)) (\<lambda>_.
                  h_ret False))
              | None \<Rightarrow> h_ret False)
           else (case as_str (j_get table ''storage_location'') of
                None \<Rightarrow> h_ret False
              | Some loc \<Rightarrow>
                  h_then (c_event (RegisterTable cat sch name
                    (to_lower (or_default ''DELTA'' (as_str (j_get table ''data_source_format'')))) loc
                    (filter_map (\<lambda>(k, v). map_option (Pair k) (as_str v))
                       (or_default [] (as_object (j_get table ''properties''))))))
                    (\<lambda>_. h_ret True)))
      | _ \<Rightarrow> h_ret False)"

definition engine_answer :: "json option cm" where
  "engine_answer cs = (Inr (cs_answer cs (length (cs_events cs))), cs)"

definition broadcast_table :: "json \<Rightarrow> json list cm" where
  "broadcast_table table = h_then (register_table_on table) (\<lambda>asked.
     if \<not> asked then h_ret []
     else h_then engine_answer (\<lambda>s. h_ret (case s of None \<Rightarrow> [] | Some v \<Rightarrow> columns_from_engine_schema v)))"

end
