(* ===== verification/Uc_Tables.thy ===== *)
theory Uc_Tables
  imports Uc_Catalog
begin

text \<open>
  The metastore (\<open>lakeforge-api/src/api/catalog.rs\<close>), second part: creating and deleting catalogs,
  schemas and tables, the external locations that govern paths, the mirror of executed DDL and the
  synchronisation of a cluster.
\<close>

section \<open>Schemas\<close>

definition uc_insert_schema :: "cat_lib \<Rightarrow> principal \<Rightarrow> jmap \<Rightarrow> json cm" where
  "uc_insert_schema lib p o0 =
     h_then (c_lift (str_field o0 ''name'')) (\<lambda>name.
     h_then (c_lift (str_field o0 ''catalog_name'')) (\<lambda>cat.
     h_then (c_lift (validate_name name ''schema'')) (\<lambda>_.
       let full = cat @ ''.'' @ name in
       h_then (uc_absent KIND_SCHEMA full (''Schema '' @ quoted full @ '' already exists'')) (\<lambda>_.
       h_then c_uuid (\<lambda>uuid.
       h_then c_now (\<lambda>now.
         let o1 = bt_insert ''securable_type'' (JStr ''SCHEMA'') (bt_insert ''full_name'' (JStr full) o0);
             o2 = or_insert ''schema_id'' (JStr uuid) (or_insert ''storage_root''
                    (JStr (url_for lib (''/tables/'' @ cat @ ''/'' @ name))) (or_insert ''catalog_type'' (JStr ''MANAGED_CATALOG'') o1));
             v = JObj (base_fields now (p_user_name p) o2) in
         h_then (c_insert KIND_SCHEMA full (Some cat) full v) (\<lambda>_.
         h_then (broadcast_sql (''CREATE SCHEMA IF NOT EXISTS '' @ cat @ ''.'' @ name)) (\<lambda>_.
         h_ret v))))))))"

definition uc_create_schema :: "cat_lib \<Rightarrow> principal \<Rightarrow> jmap \<Rightarrow> json cm" where
  "uc_create_schema lib p o0 =
     h_then (c_lift (str_field o0 ''catalog_name'')) (\<lambda>cat.
     h_then (uc_require KIND_CATALOG cat ''Catalog'') (\<lambda>_.
       if cat = SYSTEM_CATALOG then h_fail (PermissionDenied (''Catalog '' @ quoted ''system'' @ '' is read-only''))
       else h_then (c_authorizer p) (\<lambda>az.
            h_then (c_az (az_require Catalog cat ''USE_CATALOG'') az) (\<lambda>az.
            h_then (c_az (az_require Catalog cat ''CREATE_SCHEMA'') az) (\<lambda>az.
            uc_insert_schema lib p o0)))))"

section \<open>Tables\<close>

definition upsert_table :: "jmap \<Rightarrow> string \<Rightarrow> json cm" where
  "upsert_table o0 user =
     h_then (c_lift (str_field o0 ''full_name'')) (\<lambda>full.
     h_then (c_ask (uc_get KIND_TABLE full)) (\<lambda>existing.
     h_then c_now (\<lambda>now.
     h_then c_uuid (\<lambda>uuid.
       let prev = or_default [] (Option.bind existing as_object);
           o1 = fold (\<lambda>(k, v). or_insert k v) prev o0;
           o2 = or_insert ''table_constraints'' (JArr []) (or_insert ''columns'' (JArr []) (or_insert ''table_id'' (JStr uuid)
                  (base_fields now user o1))) in
       h_then (broadcast_table (JObj o2)) (\<lambda>cols.
         let o3 = (if cols = [] then o2
                   else bt_insert ''columns'' (JArr (merge_columns (map_of o2 ''columns'') cols)) o2);
             v = JObj o3;
             parent = or_default [] (as_str (j_get v ''catalog_name'')) @ ''.'' @ or_default [] (as_str (j_get v ''schema_name'')) in
         h_then (c_upsert KIND_TABLE full (Some parent) full v) (\<lambda>_.
         h_ret v))))))"

definition better_location :: "string \<Rightarrow> doc \<Rightarrow> (nat \<times> string) option \<Rightarrow> (nat \<times> string) option" where
  "better_location url d best =
     (case as_str (j_get (d_data d) ''url'') of
        None \<Rightarrow> best
      | Some u \<Rightarrow>
          (let prefix = trim_end_char (CHR ''/'') u;
               covers = (url = prefix \<or> starts_with url (prefix @ ''/''))
           in if covers \<and> (case best of None \<Rightarrow> True | Some (n, _) \<Rightarrow> n < length prefix)
              then Some (length prefix, or_default [] (d_name d)) else best))"

definition require_path_privilege :: "string \<Rightarrow> string \<Rightarrow> authorizer \<Rightarrow> authorizer cm" where
  "require_path_privilege url privilege az =
     (if az_is_admin az then h_ret az
      else h_then (c_list KIND_EXT_LOCATION default_filter) (\<lambda>locs.
        case fold (better_location url) locs None of
          Some (_, name) \<Rightarrow> c_az (az_require ExternalLocation name privilege) az
        | None \<Rightarrow> h_fail (PermissionDenied (''[INSUFFICIENT_PERMISSIONS] No external location covers '' @ quoted url @ ''; '' @
            replace_char (CHR ''_'') '' '' (normalize_privilege privilege) @ '' requires an external location grant.''))))"

definition normalise_column :: "nat \<Rightarrow> json \<Rightarrow> json" where
  "normalise_column i c =
     (case c of
        JObj c0 \<Rightarrow>
          (let c1 = or_insert ''nullable'' (JBool True) (or_insert ''position'' (JInt (int i)) c0);
               c2 = or_insert ''type_name''
                      (JStr (to_upper (or_default ''string'' (Option.bind (map_of c1 ''type_text'') as_str)))) c1;
               c3 = or_insert ''type_text''
                      (JStr (to_lower (or_default ''string'' (Option.bind (map_of c2 ''type_name'') as_str)))) c2
           in JObj c3)
      | _ \<Rightarrow> c)"

definition normalise_columns :: "jmap \<Rightarrow> jmap" where
  "normalise_columns = adjust ''columns'' (\<lambda>v. case v of
     JArr cols \<Rightarrow> JArr (map (\<lambda>(i, c). normalise_column i c) (enumerate 0 cols)) | _ \<Rightarrow> v)"

definition table_fields :: "cat_lib \<Rightarrow> string \<Rightarrow> string \<Rightarrow> string \<Rightarrow> string \<Rightarrow> jmap \<Rightarrow> jmap" where
  "table_fields lib cat sch name table_type o0 =
     (let full = cat @ ''.'' @ sch @ ''.'' @ name;
          o1 = bt_insert ''securable_type'' (JStr ''TABLE'') (or_insert ''data_source_format'' (JStr ''DELTA'')
                 (bt_insert ''table_type'' (JStr table_type) (bt_insert ''full_name'' (JStr full) o0)));
          o2 = (if table_type = ''MANAGED'' \<and> map_of o1 ''storage_location'' = None
                then bt_insert ''storage_location'' (JStr (managed_table_location lib cat sch name)) o1 else o1)
      in normalise_columns o2)"

definition uc_create_table :: "cat_lib \<Rightarrow> principal \<Rightarrow> jmap \<Rightarrow> json cm" where
  "uc_create_table lib p o0 =
     h_then (c_lift (str_field o0 ''name'')) (\<lambda>name.
     h_then (c_lift (str_field o0 ''catalog_name'')) (\<lambda>cat.
     h_then (c_lift (str_field o0 ''schema_name'')) (\<lambda>sch.
     h_then (c_lift (validate_name name ''table'')) (\<lambda>_.
       let schema_full = cat @ ''.'' @ sch; full = cat @ ''.'' @ sch @ ''.'' @ name in
       h_then (uc_require KIND_SCHEMA schema_full ''Schema'') (\<lambda>_.
         if cat = SYSTEM_CATALOG \<or> sch = ''information_schema''
         then h_fail (PermissionDenied (''Schema '' @ quoted schema_full @ '' is read-only''))
         else h_then (c_authorizer p) (\<lambda>az.
           h_then (c_az (az_require_use_path (schema_full @ ''.'' @ name)) az) (\<lambda>az.
             let table_type = or_default ''MANAGED'' (Option.bind (map_of o0 ''table_type'') as_str) in
             h_then (c_az (az_require Schema schema_full ''CREATE_TABLE'') az) (\<lambda>az.
             h_then (if table_type = ''EXTERNAL''
                     then (case Option.bind (map_of o0 ''storage_location'') as_str of
                             Some loc \<Rightarrow> require_path_privilege loc ''CREATE_EXTERNAL_TABLE'' az | None \<Rightarrow> h_ret az)
                     else h_ret az) (\<lambda>az.
             h_then (uc_absent KIND_TABLE full (''Table '' @ quoted full @ '' already exists'')) (\<lambda>_.
             upsert_table (table_fields lib cat sch name table_type o0) (p_user_name p)))))))))))"

definition uc_remove_table_doc :: "cat_lib \<Rightarrow> json \<Rightarrow> unit cm" where
  "uc_remove_table_doc lib table =
     (let full = or_default [] (as_str (j_get table ''full_name'')) in
      h_then (c_delete KIND_TABLE (uc_doc_id KIND_TABLE full)) (\<lambda>_.
      h_then (broadcast_sql ((if j_get table ''table_type'' = JStr ''VIEW'' then ''DROP VIEW IF EXISTS '' else ''DROP TABLE IF EXISTS '') @ full)) (\<lambda>_.
      h_then (if j_get table ''table_type'' = JStr ''MANAGED''
              then (case Option.bind (as_str (j_get table ''storage_location'')) (path_of lib) of
                      Some path \<Rightarrow> c_event (DeletePrefix path) | None \<Rightarrow> h_ret ())
              else h_ret ()) (\<lambda>_.
      c_drop_grants Table full))))"

definition uc_delete_table :: "cat_lib \<Rightarrow> principal \<Rightarrow> string \<Rightarrow> unit cm" where
  "uc_delete_table lib p full =
     h_then (c_lift (three_parts full ''table'')) (\<lambda>_.
     h_then (uc_require KIND_TABLE full ''Table'') (\<lambda>d.
       if starts_with full ''system.'' \<or> j_get d ''table_type'' = JStr ''SYSTEM''
       then h_fail (PermissionDenied (''Table '' @ quoted full @ '' is read-only''))
       else h_then (c_authorizer p) (\<lambda>az.
            h_then (c_az (az_require_owner Table full) az) (\<lambda>_.
            uc_remove_table_doc lib d))))"

section \<open>Deleting schemas and catalogs\<close>

definition children_filter :: "string \<Rightarrow> store_filter" where
  "children_filter parent = default_filter\<lparr>f_parent := Some parent\<rparr>"

definition drop_children :: "string \<Rightarrow> string \<times> securable \<Rightarrow> unit cm" where
  "drop_children full ks =
     h_then (c_list (fst ks) (children_filter full)) (\<lambda>docs.
     h_then (h_each (\<lambda>d. c_drop_grants (snd ks) (or_default [] (d_name d))) docs) (\<lambda>_.
     c_delete_children (fst ks) full))"

definition uc_delete_schema_contents :: "cat_lib \<Rightarrow> string \<Rightarrow> unit cm" where
  "uc_delete_schema_contents lib full =
     h_then (c_list KIND_TABLE (children_filter full)) (\<lambda>tables.
     h_then (h_each (\<lambda>t. uc_remove_table_doc lib (d_data t)) tables) (\<lambda>_.
     h_then (h_each (drop_children full) [(KIND_VOLUME, Volume), (KIND_FUNCTION, Function)]) (\<lambda>_.
     h_then (c_delete_children KIND_MODEL full) (\<lambda>_.
     c_drop_grants Schema full))))"

definition c_count :: "string \<Rightarrow> string \<Rightarrow> int cm" where
  "c_count kind parent = c_ask (\<lambda>st. store_count kind workspace_id (Some parent) (as_store st))"

definition uc_delete_schema :: "cat_lib \<Rightarrow> principal \<Rightarrow> string \<Rightarrow> bool \<Rightarrow> unit cm" where
  "uc_delete_schema lib p full force =
     h_then (c_lift (schema_of full)) (\<lambda>_.
     h_then (uc_require KIND_SCHEMA full ''Schema'') (\<lambda>_.
       if ends_with full ''.information_schema'' \<or> starts_with full ''system.''
       then h_fail (PermissionDenied (''Schema '' @ quoted full @ '' is read-only''))
       else h_then (c_authorizer p) (\<lambda>az.
            h_then (c_az (az_require_owner Schema full) az) (\<lambda>_.
            h_then (c_count KIND_TABLE full) (\<lambda>n1.
            h_then (c_count KIND_VOLUME full) (\<lambda>n2.
            h_then (c_count KIND_FUNCTION full) (\<lambda>n3.
              if 0 < n1 + n2 + n3 \<and> \<not> force
              then h_fail (InvalidState (''Schema '' @ quoted full @ '' is not empty; use force=true (or CASCADE)''))
              else h_then (uc_delete_schema_contents lib full) (\<lambda>_.
                   h_then (c_delete KIND_SCHEMA (uc_doc_id KIND_SCHEMA full)) (\<lambda>deleted.
                     if \<not> deleted then h_fail (NotFound (''Schema '' @ quoted full @ '' does not exist''))
                     else broadcast_sql (''DROP SCHEMA IF EXISTS '' @ full @ '' CASCADE''))))))))))"

definition uc_delete_catalog :: "cat_lib \<Rightarrow> principal \<Rightarrow> string \<Rightarrow> bool \<Rightarrow> unit cm" where
  "uc_delete_catalog lib p name force =
     h_then (c_authorizer p) (\<lambda>az.
       if name = SYSTEM_CATALOG then h_fail (PermissionDenied (''Catalog '' @ quoted ''system'' @ '' cannot be dropped''))
       else h_then (uc_require KIND_CATALOG name ''Catalog'') (\<lambda>_.
            h_then (c_az (az_require_owner Catalog name) az) (\<lambda>_.
            h_then (c_list KIND_SCHEMA (children_filter name)) (\<lambda>schemas.
              if list_ex (\<lambda>s. j_get (d_data s) ''name'' \<noteq> JStr ''default'' \<and>
                    j_get (d_data s) ''name'' \<noteq> JStr ''information_schema'') schemas \<and> \<not> force
              then h_fail (InvalidState (''Catalog '' @ quoted name @ '' is not empty; use force=true (or CASCADE)''))
              else h_then (h_each (\<lambda>s. h_then (uc_delete_schema_contents lib (or_default [] (d_name s))) (\<lambda>_.
                        h_then (c_delete KIND_SCHEMA (d_id s)) (\<lambda>_. h_ret ()))) schemas) (\<lambda>_.
                   h_then (c_delete KIND_CATALOG (uc_doc_id KIND_CATALOG name)) (\<lambda>deleted.
                     if \<not> deleted then h_fail (NotFound (''Catalog '' @ quoted name @ '' does not exist''))
                     else c_drop_grants Catalog name))))))"

section \<open>Catalogs\<close>

definition catalog_flavour :: "jmap \<Rightarrow> authorizer \<Rightarrow> (jmap \<times> string) cm" where
  "catalog_flavour o1 az =
     (case Option.bind (map_of o1 ''connection_name'') as_str of
        Some conn \<Rightarrow>
          h_then (c_az (az_require Connection conn ''CREATE_FOREIGN_CATALOG'') az) (\<lambda>_.
          h_then (uc_require KIND_CONNECTION conn ''Connection'') (\<lambda>_.
          h_ret (bt_insert ''catalog_type'' (JStr ''FOREIGN_CATALOG'') o1, ''CATALOG_FOREIGN_POSTGRESQL'')))
      | None \<Rightarrow>
          if map_of o1 ''provider_name'' \<noteq> None \<or> map_of o1 ''share_name'' \<noteq> None
          then h_ret (bt_insert ''catalog_type'' (JStr ''DELTASHARING_CATALOG'') o1, ''CATALOG_DELTASHARING'')
          else h_ret (or_insert ''catalog_type'' (JStr ''MANAGED_CATALOG'') o1, ''CATALOG_STANDARD''))"

definition uc_create_catalog :: "cat_lib \<Rightarrow> principal \<Rightarrow> jmap \<Rightarrow> json cm" where
  "uc_create_catalog lib p o0 =
     h_then (c_lift (str_field o0 ''name'')) (\<lambda>name.
     h_then (c_lift (validate_name name ''catalog'')) (\<lambda>_.
       if name = SYSTEM_CATALOG then h_fail (AlreadyExists (''Catalog '' @ quoted ''system'' @ '' is reserved''))
       else h_then (c_authorizer p) (\<lambda>az.
            h_then (c_az (az_require Metastore METASTORE_ID ''CREATE_CATALOG'') az) (\<lambda>az.
            h_then (uc_absent KIND_CATALOG name (''Catalog '' @ quoted name @ '' already exists'')) (\<lambda>_.
            h_then (catalog_flavour (bt_insert ''full_name'' (JStr name) o0) az) (\<lambda>(o2, kind).
            h_then c_now (\<lambda>now.
              let v = JObj (base_fields now (p_user_name p) (bt_insert ''securable_kind'' (JStr kind)
                        (bt_insert ''securable_type'' (JStr ''CATALOG'') (or_insert ''isolation_mode'' (JStr ''OPEN'') o2)))) in
              h_then (c_insert KIND_CATALOG name None name v) (\<lambda>_.
              h_then (if j_get v ''catalog_type'' = JStr ''MANAGED_CATALOG''
                      then h_then (uc_insert_schema lib p
                             (bt_insert ''catalog_name'' (JStr name) (bt_insert ''name'' (JStr ''default'') []))) (\<lambda>_. h_ret ())
                      else h_ret ()) (\<lambda>_.
              h_ret v)))))))))"

definition default_schema :: "string \<Rightarrow> unit cm" where
  "default_schema sch =
     (let full = UC_DEFAULT_CATALOG @ ''.'' @ sch in
      h_then (c_ask (uc_get KIND_SCHEMA full)) (\<lambda>o'.
        if o' \<noteq> None then h_ret ()
        else h_then (c_ask as_admin_user) (\<lambda>admin.
             h_then c_now (\<lambda>now.
             c_insert KIND_SCHEMA full (Some UC_DEFAULT_CATALOG) full
               (JObj (base_fields now admin (fold (\<lambda>(k, v). bt_insert k v)
                 [(''name'', JStr sch), (''catalog_name'', JStr UC_DEFAULT_CATALOG), (''full_name'', JStr full),
                  (''catalog_type'', JStr ''MANAGED_CATALOG''), (''securable_type'', JStr ''SCHEMA'')] [])))))))"

definition ensure_default_catalog :: "unit cm" where
  "ensure_default_catalog =
     h_then (c_ask (uc_get KIND_CATALOG UC_DEFAULT_CATALOG)) (\<lambda>o'.
     h_then (if o' \<noteq> None then h_ret ()
             else h_then (c_ask as_admin_user) (\<lambda>admin.
                  h_then c_now (\<lambda>now.
                  c_insert KIND_CATALOG UC_DEFAULT_CATALOG None UC_DEFAULT_CATALOG
                    (JObj (base_fields now admin (fold (\<lambda>(k, v). bt_insert k v)
                      [(''name'', JStr UC_DEFAULT_CATALOG), (''catalog_type'', JStr ''MANAGED_CATALOG''),
                       (''full_name'', JStr UC_DEFAULT_CATALOG), (''isolation_mode'', JStr ''OPEN''),
                       (''securable_type'', JStr ''CATALOG''), (''securable_kind'', JStr ''CATALOG_STANDARD'')] [])))))) (\<lambda>_.
     h_then (h_each default_schema [''default'', ''information_schema'']) (\<lambda>_.
     h_then c_now (\<lambda>now. c_app (ensure_default_grants now)))))"

section \<open>Executed DDL\<close>

datatype stmt_kind = StSelect | StInsert | StUpdate | StDelete | StMerge | StCreateTable | StCreateView | StCreateSchema
  | StDrop | StAlter | StTruncate | StDescribe | StShow | StUse | StSet | StExplain | StOther

record column_edge =
  ce_source_table :: string
  ce_source_column :: string
  ce_target_column :: string

record analysis =
  an_kind :: stmt_kind
  an_reads :: "string list"
  an_writes :: "string list"
  an_creates :: "(securable \<times> string) list"
  an_owned :: "(securable \<times> string) list"
  an_paths :: "string list"
  an_location :: "string option"
  an_target :: "string option"
  an_column_edges :: "column_edge list"
  an_replace :: bool
  an_if_not_exists :: bool
  an_parsed :: bool

definition observe_table :: "cat_lib \<Rightarrow> analysis \<Rightarrow> string \<Rightarrow> string \<Rightarrow> string \<Rightarrow> unit cm" where
  "observe_table lib an sql user full0 =
     (let (cat, sch, tbl) = split_name full0;
          view = (an_kind an = StCreateView);
          table_type = (if view then ''VIEW'' else if an_location an \<noteq> None then ''EXTERNAL'' else ''MANAGED'');
          o1 = fold (\<lambda>(k, v). bt_insert k v)
                 [(''name'', JStr tbl), (''catalog_name'', JStr cat), (''schema_name'', JStr sch),
                  (''full_name'', JStr (cat @ ''.'' @ sch @ ''.'' @ tbl)), (''table_type'', JStr table_type),
                  (''data_source_format'', JStr (or_default ''DELTA'' (ddl_format sql)))] [];
          o2 = (if view then bt_insert ''view_definition'' (JStr sql) o1
                else bt_insert ''storage_location''
                       (JStr (or_default (managed_table_location lib cat sch tbl) (an_location an))) o1)
      in h_try (upsert_table (bt_insert ''securable_type'' (JStr ''TABLE'') o2) user))"

definition observe_schema :: "string \<Rightarrow> string \<Rightarrow> unit cm" where
  "observe_schema user full0 =
     (let (cat, sch) = (case split_once (CHR ''.'') full0 of Some cs \<Rightarrow> cs | None \<Rightarrow> (UC_DEFAULT_CATALOG, full0));
          full = cat @ ''.'' @ sch
      in h_then c_now (\<lambda>now.
           h_try (c_upsert KIND_SCHEMA full (Some cat) full
             (JObj (base_fields now user (fold (\<lambda>(k, v). bt_insert k v)
               [(''name'', JStr sch), (''catalog_name'', JStr cat), (''full_name'', JStr full),
                (''securable_type'', JStr ''SCHEMA'')] []))))))"

definition observe_drop :: "securable \<times> string \<Rightarrow> unit cm" where
  "observe_drop so =
     (case so of
        (Table, full) \<Rightarrow> (case split_name full of (cat, sch, tbl) \<Rightarrow>
            h_try (c_delete KIND_TABLE (uc_doc_id KIND_TABLE (cat @ ''.'' @ sch @ ''.'' @ tbl))))
      | (Schema, full) \<Rightarrow> h_try (c_delete KIND_SCHEMA (uc_doc_id KIND_SCHEMA full))
      | (Function, full) \<Rightarrow> h_try (c_delete KIND_FUNCTION (uc_doc_id KIND_FUNCTION full))
      | _ \<Rightarrow> h_ret ())"

definition observe_ddl :: "cat_lib \<Rightarrow> analysis \<Rightarrow> string \<Rightarrow> string \<Rightarrow> unit cm" where
  "observe_ddl lib an sql user =
     (if an_kind an = StCreateTable \<or> an_kind an = StCreateView then
        h_each (\<lambda>sf. if fst sf \<noteq> Table then h_ret () else observe_table lib an sql user (snd sf)) (an_creates an)
      else if an_kind an = StCreateSchema then
        h_each (\<lambda>sf. if fst sf \<noteq> Schema then h_ret () else observe_schema user (snd sf)) (an_creates an)
      else if an_kind an = StDrop then h_each observe_drop (an_owned an)
      else h_ret ())"

text \<open>A starting cluster learns every table, views last, and reports their columns.\<close>

definition sync_table :: "doc \<Rightarrow> unit cm" where
  "sync_table d =
     h_then (register_table_on (d_data d)) (\<lambda>asked.
     h_then (if asked then engine_answer else h_ret None) (\<lambda>answer.
       case answer of
         None \<Rightarrow> h_ret ()
       | Some schema \<Rightarrow>
           (let cols = merge_columns (j_field (d_data d) ''columns'') (columns_from_engine_schema schema) in
            h_then c_now (\<lambda>now. h_then c_now (\<lambda>now'.
              h_try (c_store (store_update now now' KIND_TABLE (d_id d) ''Table'' (\<lambda>v.
                Inr (case v of JObj m \<Rightarrow> JObj (bt_insert ''columns'' (JArr cols) m) | _ \<Rightarrow> v)))))))))"

definition sync_metastore_to_cluster :: "unit cm" where
  "sync_metastore_to_cluster =
     h_then (c_list KIND_TABLE default_filter) (\<lambda>tables.
       let is_view = (\<lambda>t. j_get (d_data t) ''table_type'' = JStr ''VIEW'')
       in h_each sync_table (filter (\<lambda>t. \<not> is_view t) tables @ filter is_view tables))"

end
