(* ===== verification/Uc_Objects.thy ===== *)
theory Uc_Objects
  imports Uc_Tables
begin

text \<open>
  The metastore (\<open>lakeforge-api/src/api/catalog.rs\<close>), third part: patching and renaming a
  securable, volumes and functions, the securables at the top level, listings, grants, and the
  endpoints.
\<close>

section \<open>Patch and rename\<close>

definition merge_property :: "string \<times> json \<Rightarrow> jmap \<Rightarrow> jmap" where
  "merge_property kv cur =
     (if snd kv = JNull then AList.delete (fst kv) cur else bt_insert (fst kv) (snd kv) cur)"

definition patch_field :: "string list \<Rightarrow> string \<times> json \<Rightarrow> jmap \<Rightarrow> jmap" where
  "patch_field allowed kv obj =
     (let (k, val) = kv in
      if \<not> (List.member allowed k \<or> List.member allowed ''*'') \<or> k = ''new_name'' then obj
      else (case (k = ''properties'', map_of obj ''properties'', val) of
              (True, Some (JObj cur), JObj new) \<Rightarrow> bt_insert ''properties'' (JObj (fold merge_property new cur)) obj
            | _ \<Rightarrow> bt_insert k val obj))"

definition merge_patch :: "int \<Rightarrow> string \<Rightarrow> string list \<Rightarrow> jmap \<Rightarrow> json \<Rightarrow> json" where
  "merge_patch now user allowed o0 v =
     (case v of
        JObj obj \<Rightarrow> JObj (bt_insert ''updated_by'' (JStr user) (bt_insert ''updated_at'' (JInt now)
                      (fold (patch_field allowed) o0 obj)))
      | _ \<Rightarrow> v)"

definition rsplit_once :: "char \<Rightarrow> string \<Rightarrow> (string \<times> string) option" where
  "rsplit_once c s = map_option (\<lambda>(a, b). (rev b, rev a)) (split_once c (rev s))"

definition child_securable :: "string \<Rightarrow> securable" where
  "child_securable kind =
     (if kind = KIND_SCHEMA then Schema else if kind = KIND_TABLE then Table
      else if kind = KIND_VOLUME then Volume else Function)"

definition child_kinds :: "string list" where
  "child_kinds = [KIND_SCHEMA, KIND_TABLE, KIND_VOLUME, KIND_FUNCTION, KIND_MODEL]"

definition moved_child :: "string \<Rightarrow> string \<Rightarrow> string \<Rightarrow> json \<Rightarrow> json" where
  "moved_child kind to new_full v =
     (let v1 = j_set ''full_name'' (JStr new_full) v in
      if kind = KIND_SCHEMA then j_set ''catalog_name'' (JStr to) v1
      else case split_name new_full of (c, s, _) \<Rightarrow> j_set ''schema_name'' (JStr s) (j_set ''catalog_name'' (JStr c) v1))"

definition move_child :: "string \<Rightarrow> string \<Rightarrow> string \<Rightarrow> doc \<Rightarrow> unit cm" where
  "move_child from to kind d =
     (let old = or_default [] (d_name d);
          new_full = to @ ''.'' @ drop (length from + 1) old;
          v = moved_child kind to new_full (d_data d)
      in h_then (c_delete kind (d_id d)) (\<lambda>_.
         h_then (c_insert kind new_full (map_option fst (rsplit_once (CHR ''.'') new_full)) new_full v) (\<lambda>_.
         h_then (c_move_grants (child_securable kind) old new_full) (\<lambda>_.
           if kind = KIND_TABLE
           then h_then (broadcast_sql (''DROP TABLE IF EXISTS '' @ old)) (\<lambda>_. h_then (broadcast_table v) (\<lambda>_. h_ret ()))
           else h_ret ()))))"

definition move_children :: "string \<Rightarrow> string \<Rightarrow> string \<Rightarrow> unit cm" where
  "move_children from to kind =
     h_then (c_list kind (default_filter\<lparr>f_prefix := Some (from @ ''.'')\<rparr>)) (\<lambda>docs. h_each (move_child from to kind) docs)"

definition renamed :: "string \<Rightarrow> string \<Rightarrow> string" where
  "renamed from new_name =
     (case rsplit_once (CHR ''.'') from of Some (prefix, _) \<Rightarrow> prefix @ ''.'' @ new_name | None \<Rightarrow> new_name)"

definition uc_rename :: "securable \<Rightarrow> string \<Rightarrow> string \<Rightarrow> string \<Rightarrow> json \<Rightarrow> json cm" where
  "uc_rename sec kind from new_name data0 =
     (let to = renamed from new_name;
          data = j_set ''full_name'' (JStr to) (j_set ''name'' (JStr new_name) data0);
          parent = map_option fst (rsplit_once (CHR ''.'') from)
      in h_then (uc_absent kind to (api_type sec @ '' '' @ quoted to @ '' already exists'')) (\<lambda>_.
         h_then (c_delete kind (uc_doc_id kind from)) (\<lambda>_.
         h_then (c_insert kind to parent to data) (\<lambda>_.
         h_then (c_move_grants sec from to) (\<lambda>_.
         h_then (if sec = Table then
                   h_then (broadcast_sql (''DROP TABLE IF EXISTS '' @ from)) (\<lambda>_.
                   h_then (broadcast_sql (''DROP VIEW IF EXISTS '' @ from)) (\<lambda>_.
                   h_then (broadcast_table data) (\<lambda>_. h_ret ())))
                 else if sec = Schema \<or> sec = Catalog then h_each (move_children from to) child_kinds
                 else h_ret ()) (\<lambda>_.
         h_ret data))))))"

definition c_update :: "string \<Rightarrow> string \<Rightarrow> string \<Rightarrow> (json \<Rightarrow> json) \<Rightarrow> json cm" where
  "c_update kind full what f =
     h_then c_now (\<lambda>now. h_then c_now (\<lambda>now'.
     h_then (c_store (store_update now now' kind (uc_doc_id kind full) what (\<lambda>v. Inr (f v)))) (\<lambda>d. h_ret (d_data d))))"

definition uc_patch ::
  "principal \<Rightarrow> securable \<Rightarrow> string \<Rightarrow> string \<Rightarrow> jmap \<Rightarrow> string list \<Rightarrow> string \<Rightarrow> json cm"
where
  "uc_patch p sec kind full o0 allowed what =
     h_then (c_authorizer p) (\<lambda>az.
     h_then (uc_require kind full what) (\<lambda>_.
       if starts_with full ''system.'' \<or> sec = Catalog \<and> full = SYSTEM_CATALOG
       then h_fail (PermissionDenied (what @ '' '' @ quoted full @ '' is read-only''))
       else h_then (c_can (az_can_manage sec full) az) (\<lambda>(is_owner, az).
         if \<not> is_owner then h_fail (PermissionDenied (''User does not own '' @ what @ '' '' @ quoted full @
           '' and does not have MANAGE on it.''))
         else h_then (case Option.bind (map_of o0 ''owner'') as_str of
                 None \<Rightarrow> h_ret ()
               | Some owner \<Rightarrow> h_then (h_then (c_ask (principal_exists owner)) c_lift) (\<lambda>ok.
                   if ok then h_ret () else h_fail (InvalidParameter (''Principal '' @ quoted owner @ '' does not exist'')))) (\<lambda>_.
           let new_name = Option.bind (map_of o0 ''new_name'') as_str in
           h_then (case new_name of None \<Rightarrow> h_ret () | Some n \<Rightarrow> c_lift (validate_name n (sec_as_str sec))) (\<lambda>_.
           h_then c_now (\<lambda>now.
           h_then (c_update kind full what (merge_patch now (p_user_name p) allowed o0)) (\<lambda>data.
             case (case new_name of None \<Rightarrow> None | Some n \<Rightarrow> if n = last (split_on (CHR ''.'') full) then None else Some n) of
               Some n \<Rightarrow> uc_rename sec kind full n data
             | None \<Rightarrow>
                 h_then (if kind = KIND_TABLE then h_then (broadcast_table data) (\<lambda>_. h_ret ()) else h_ret ()) (\<lambda>_.
                 h_ret data))))))))"

section \<open>Volumes and functions\<close>

definition create_privilege :: "string \<Rightarrow> securable \<times> string" where
  "create_privilege kind =
     (if kind = KIND_VOLUME then (Volume, ''CREATE_VOLUME'')
      else if kind = KIND_FUNCTION then (Function, ''CREATE_FUNCTION'')
      else (Function, ''CREATE_MODEL''))"

definition volume_fields :: "cat_lib \<Rightarrow> string \<Rightarrow> string \<Rightarrow> string \<Rightarrow> jmap \<Rightarrow> authorizer \<Rightarrow> jmap cm" where
  "volume_fields lib cat sch name o1 az =
     (let vt = or_default ''MANAGED'' (Option.bind (map_of o1 ''volume_type'') as_str);
          path = ''/Volumes/'' @ cat @ ''/'' @ sch @ ''/'' @ name
      in h_then c_uuid (\<lambda>uuid.
         let o2 = or_insert ''volume_id'' (JStr uuid) (bt_insert ''volume_type'' (JStr vt) o1) in
         if vt = ''EXTERNAL'' then
           h_then (c_lift (str_field o2 ''storage_location'')) (\<lambda>loc.
           h_then (require_path_privilege loc ''CREATE_EXTERNAL_VOLUME'' az) (\<lambda>_. h_ret o2))
         else if map_of o2 ''storage_location'' = None then
           h_then (c_lift (cl_mkdirs lib path)) (\<lambda>_. h_ret (bt_insert ''storage_location'' (JStr (url_for lib path)) o2))
         else h_ret o2))"

definition function_fields :: "cat_lib \<Rightarrow> string \<Rightarrow> jmap \<Rightarrow> jmap cm" where
  "function_fields lib name o1 =
     h_then c_uuid (\<lambda>uuid.
       let o2 = fold (\<lambda>(k, v). or_insert k v)
                  [(''function_id'', JStr uuid), (''routine_body'', JStr ''SQL''), (''routine_definition'', JStr []),
                   (''data_type'', JStr ''STRING''), (''full_data_type'', JStr ''STRING''), (''is_deterministic'', JBool True),
                   (''sql_data_access'', JStr ''CONTAINS_SQL''), (''parameter_style'', JStr ''S''),
                   (''security_type'', JStr ''DEFINER''), (''specific_name'', JStr name), (''is_null_call'', JBool False),
                   (''input_params'', jobj [(''parameters'', JArr [])])] o1
       in if map_of o2 ''routine_body'' = Some (JStr ''SQL'') then
            (case Option.bind (map_of o2 ''routine_definition'') as_str of
               None \<Rightarrow> h_ret o2
             | Some d \<Rightarrow> if trim d = [] then h_ret o2
                 else (case cl_parse_expr lib d of
                         None \<Rightarrow> h_ret o2
                       | Some e \<Rightarrow> h_fail (InvalidParameter (''routine_definition is not a valid SQL expression: '' @ e))))
          else h_ret o2)"

definition object_fields :: "cat_lib \<Rightarrow> string \<Rightarrow> string \<Rightarrow> string \<Rightarrow> string \<Rightarrow> jmap \<Rightarrow> authorizer \<Rightarrow> jmap cm" where
  "object_fields lib kind cat sch name o1 az =
     (if kind = KIND_VOLUME then volume_fields lib cat sch name o1 az
      else if kind = KIND_FUNCTION then function_fields lib name o1 else h_ret o1)"

definition uc_create_in_schema :: "cat_lib \<Rightarrow> principal \<Rightarrow> string \<Rightarrow> string \<Rightarrow> jmap \<Rightarrow> json cm" where
  "uc_create_in_schema lib p kind label o0 =
     h_then (c_lift (str_field o0 ''name'')) (\<lambda>name.
     h_then (c_lift (str_field o0 ''catalog_name'')) (\<lambda>cat.
     h_then (c_lift (str_field o0 ''schema_name'')) (\<lambda>sch.
     h_then (c_lift (validate_name name label)) (\<lambda>_.
       let schema_full = cat @ ''.'' @ sch; full = cat @ ''.'' @ sch @ ''.'' @ name in
       h_then (uc_require KIND_SCHEMA schema_full ''Schema'') (\<lambda>_.
         if cat = SYSTEM_CATALOG then h_fail (PermissionDenied (''Catalog '' @ quoted ''system'' @ '' is read-only''))
         else h_then (c_authorizer p) (\<lambda>az.
           h_then (c_az (az_require_use_path full) az) (\<lambda>az.
           let (sec, privilege) = create_privilege kind in
           h_then (c_az (az_require Schema schema_full privilege) az) (\<lambda>az.
           h_then (uc_absent kind full (label @ '' '' @ quoted full @ '' already exists'')) (\<lambda>_.
             let o1 = bt_insert ''securable_type'' (JStr (api_type sec)) (bt_insert ''full_name'' (JStr full) o0) in
             h_then (object_fields lib kind cat sch name o1 az) (\<lambda>o2.
             h_then c_now (\<lambda>now.
               let v = JObj (base_fields now (p_user_name p) o2) in
               h_then (c_insert kind full (Some schema_full) full v) (\<lambda>_.
               h_ret v))))))))))))"

definition uc_delete_in_schema :: "principal \<Rightarrow> string \<Rightarrow> securable \<Rightarrow> string \<Rightarrow> string \<Rightarrow> unit cm" where
  "uc_delete_in_schema p kind sec full what =
     h_then (c_lift (three_parts full what)) (\<lambda>_.
     h_then (uc_require kind full what) (\<lambda>_.
     h_then (c_authorizer p) (\<lambda>az.
     h_then (c_az (az_require_owner sec full) az) (\<lambda>_.
     h_then (c_delete kind (uc_doc_id kind full)) (\<lambda>_.
     c_drop_grants sec full)))))"

section \<open>Securables at the top level\<close>

fun named_privilege :: "securable \<Rightarrow> string" where
  "named_privilege ExternalLocation = ''CREATE_EXTERNAL_LOCATION''"
| "named_privilege StorageCredential = ''CREATE_STORAGE_CREDENTIAL''"
| "named_privilege Connection = ''CREATE_CONNECTION''"
| "named_privilege Share = ''CREATE_SHARE''"
| "named_privilege Recipient = ''CREATE_RECIPIENT''"
| "named_privilege Provider = ''CREATE_PROVIDER''"
| "named_privilege _ = ''CREATE_CATALOG''"

definition secret_credential_keys :: "string list" where
  "secret_credential_keys = [''client_secret'', ''private_key'', ''secret_access_key'', ''private_key_id'']"

definition redact_credential :: "jmap \<Rightarrow> jmap" where
  "redact_credential o0 =
     fold (\<lambda>k. adjust k (\<lambda>v. case v of
         JObj c \<Rightarrow> JObj (filter (\<lambda>(k', _). \<not> List.member secret_credential_keys k') c) | _ \<Rightarrow> v))
       [''aws_iam_role'', ''azure_service_principal'', ''azure_managed_identity'', ''gcp_service_account_key'',
        ''databricks_gcp_service_account'', ''cloudflare_api_token''] o0"

definition connection_secret_key :: "string \<Rightarrow> string" where
  "connection_secret_key name = ''uc_connection_secret:'' @ name"

definition external_location_fields :: "jmap \<Rightarrow> authorizer \<Rightarrow> jmap cm" where
  "external_location_fields o1 az =
     h_then (case Option.bind (map_of o1 ''credential_name'') as_str of
         None \<Rightarrow> h_ret ()
       | Some cred \<Rightarrow>
           h_then (uc_require KIND_STORAGE_CRED cred ''Storage Credential'') (\<lambda>_.
           h_then (c_az (az_require StorageCredential cred ''CREATE_EXTERNAL_LOCATION'') az) (\<lambda>_. h_ret ()))) (\<lambda>_.
     h_ret (or_insert ''read_only'' (JBool False) o1))"

definition connection_fields :: "cat_lib \<Rightarrow> string \<Rightarrow> jmap \<Rightarrow> jmap cm" where
  "connection_fields lib name o1 =
     h_then c_uuid (\<lambda>uuid.
       let o2 = fold (\<lambda>(k, v). or_insert k v)
                  [(''connection_type'', JStr ''POSTGRESQL''), (''read_only'', JBool False),
                   (''credential_type'', JStr ''USERNAME_PASSWORD''), (''connection_id'', JStr uuid)] o1
       in case map_of o2 ''options'' of
            Some (JObj opts) \<Rightarrow>
              (case Option.bind (map_of opts ''password'') as_str of
                 None \<Rightarrow> h_ret (bt_insert ''options'' (JObj (AList.delete ''password'' opts)) o2)
               | Some pw \<Rightarrow>
                   h_then (c_lift (cl_seal lib pw)) (\<lambda>sealed.
                   h_then (c_store (\<lambda>s. (Inr (), kv_set (connection_secret_key name) sealed s))) (\<lambda>_.
                   h_ret (bt_insert ''options'' (JObj (bt_insert ''password'' (JStr ''****'') (AList.delete ''password'' opts))) o2))))
          | _ \<Rightarrow> h_ret o2)"

definition uc_create_named :: "cat_lib \<Rightarrow> principal \<Rightarrow> string \<Rightarrow> securable \<Rightarrow> string \<Rightarrow> jmap \<Rightarrow> json cm" where
  "uc_create_named lib p kind sec label o0 =
     h_then (c_lift (str_field o0 ''name'')) (\<lambda>name.
     h_then (c_lift (validate_name name label)) (\<lambda>_.
     h_then (c_authorizer p) (\<lambda>az.
     h_then (c_az (az_require Metastore METASTORE_ID (named_privilege sec)) az) (\<lambda>az.
     h_then (uc_absent kind name (label @ '' '' @ quoted name @ '' already exists'')) (\<lambda>_.
     h_then c_uuid (\<lambda>uuid.
       let o1 = bt_insert ''securable_type'' (JStr (api_type sec)) (bt_insert ''id'' (JStr uuid) o0) in
       h_then (if kind = KIND_EXT_LOCATION then external_location_fields o1 az else h_ret o1) (\<lambda>o2.
       let o3 = (if kind = KIND_STORAGE_CRED then redact_credential o2 else o2) in
       h_then (if kind = KIND_CONNECTION then connection_fields lib name o3 else h_ret o3) (\<lambda>o4.
       h_then c_now (\<lambda>now.
         let v = JObj (base_fields now (p_user_name p) o4) in
         h_then (c_insert kind name None name v) (\<lambda>_.
         h_ret v))))))))))"

definition uc_delete_named :: "principal \<Rightarrow> string \<Rightarrow> securable \<Rightarrow> string \<Rightarrow> string \<Rightarrow> bool \<Rightarrow> unit cm" where
  "uc_delete_named p kind sec name what force =
     h_then (uc_require kind name what) (\<lambda>_.
     h_then (c_authorizer p) (\<lambda>az.
     h_then (c_az (az_require_owner sec name) az) (\<lambda>_.
     h_then (if kind = KIND_STORAGE_CRED \<and> \<not> force then
               h_then (c_list KIND_EXT_LOCATION default_filter) (\<lambda>locs.
                 if list_ex (\<lambda>l. j_get (d_data l) ''credential_name'' = JStr name) locs
                 then h_fail (InvalidState (''Storage credential '' @ quoted name @ '' is used by external locations; use force=true''))
                 else h_ret ())
             else h_ret ()) (\<lambda>_.
     h_then (if kind = KIND_CONNECTION then
               h_then (c_list KIND_CATALOG default_filter) (\<lambda>cats.
                 if list_ex (\<lambda>c. j_get (d_data c) ''connection_name'' = JStr name) cats \<and> \<not> force
                 then h_fail (InvalidState (''Connection '' @ quoted name @ '' is used by foreign catalogs; use force=true''))
                 else c_store (\<lambda>s. (Inr (), kv_delete (connection_secret_key name) s)))
             else h_ret ()) (\<lambda>_.
     h_then (c_delete kind (uc_doc_id kind name)) (\<lambda>_.
     c_drop_grants sec name))))))"

end
