(* ===== verification/Uc_Requests.thy ===== *)
theory Uc_Requests
  imports Uc_Objects
begin

text \<open>
  The metastore (\<open>lakeforge-api/src/api/catalog.rs\<close>), fourth part: listings, grants and the
  endpoints. The endpoints that change the metastore are the constructors of \<open>uc_request\<close>, with
  what axum extracts from the request as their arguments.
\<close>

section \<open>Listings\<close>

definition shown_name :: "json \<Rightarrow> string" where
  "shown_name d = (case as_str (j_get d ''full_name'') of Some n \<Rightarrow> n | None \<Rightarrow> or_default [] (as_str (j_get d ''name'')))"

fun visible_loop :: "securable \<Rightarrow> json list \<Rightarrow> authorizer \<Rightarrow> json list cm" where
  "visible_loop sec [] az = h_ret []"
| "visible_loop sec (d # ds) az =
     h_then (c_can (az_can_browse sec (shown_name d)) az) (\<lambda>(ok, az).
     h_then (visible_loop sec ds az) (\<lambda>rest. h_ret (if ok then d # rest else rest)))"

definition uc_visible :: "principal \<Rightarrow> securable \<Rightarrow> json list \<Rightarrow> json list cm" where
  "uc_visible p sec docs =
     (if p_is_admin p then h_ret docs else h_then (c_authorizer p) (visible_loop sec docs))"

definition uc_list_catalogs :: "principal \<Rightarrow> json list cm" where
  "uc_list_catalogs p =
     h_then ensure_default_catalog (\<lambda>_.
     h_then (c_list KIND_CATALOG default_filter) (\<lambda>docs.
     h_then (c_ask as_admin_user) (\<lambda>admin.
     uc_visible p Catalog (map d_data docs @ [system_catalog_doc admin]))))"

text \<open>\<open>as_str().cmp()\<close>: a document without a name sorts first.\<close>

definition name_key :: "json \<Rightarrow> string list" where
  "name_key d = (case as_str (j_get d ''name'') of None \<Rightarrow> [] | Some n \<Rightarrow> [n])"

definition uc_list_schemas :: "principal \<Rightarrow> string \<Rightarrow> json list cm" where
  "uc_list_schemas p cat =
     h_then ensure_default_catalog (\<lambda>_.
     h_then (uc_require KIND_CATALOG cat ''Catalog'') (\<lambda>_.
     h_then (c_ask as_admin_user) (\<lambda>admin.
     h_then (if cat = SYSTEM_CATALOG then h_ret (map (\<lambda>s. virtual_schema_doc SYSTEM_CATALOG s admin) SYSTEM_SCHEMAS)
             else h_then (c_list KIND_SCHEMA (children_filter cat)) (\<lambda>docs.
               let v = map d_data docs in
               h_ret (if list_ex (\<lambda>s. j_get s ''name'' = JStr ''information_schema'') v then v
                      else v @ [virtual_schema_doc cat ''information_schema'' admin]))) (\<lambda>all.
     uc_visible p Schema (sort_key name_key all)))))"

definition uc_list_tables :: "principal \<Rightarrow> string \<Rightarrow> string \<Rightarrow> int option \<Rightarrow> json list cm" where
  "uc_list_tables p cat sch limit =
     (let parent = cat @ ''.'' @ sch in
      h_then (if cat = SYSTEM_CATALOG \<or> sch = ''information_schema''
              then c_ask (\<lambda>st. virtual_tables_in cat sch (as_admin_user st))
              else h_then (uc_require KIND_SCHEMA parent ''Schema'') (\<lambda>_.
                   h_then (c_list KIND_TABLE ((children_filter parent)\<lparr>f_limit := limit\<rparr>)) (\<lambda>docs. h_ret (map d_data docs)))) (\<lambda>all.
      uc_visible p Table all))"

definition uc_list_in_schema :: "principal \<Rightarrow> string \<Rightarrow> securable \<Rightarrow> string \<Rightarrow> string \<Rightarrow> json list cm" where
  "uc_list_in_schema p kind sec cat sch =
     (let parent = cat @ ''.'' @ sch in
      h_then (uc_require KIND_SCHEMA parent ''Schema'') (\<lambda>_.
      h_then (c_list kind (children_filter parent)) (\<lambda>docs. uc_visible p sec (map d_data docs))))"

definition uc_list_named :: "principal \<Rightarrow> string \<Rightarrow> securable \<Rightarrow> json list cm" where
  "uc_list_named p kind sec = h_then (c_list kind default_filter) (\<lambda>docs. uc_visible p sec (map d_data docs))"

definition uc_get_visible :: "principal \<Rightarrow> string \<Rightarrow> securable \<Rightarrow> string \<Rightarrow> string \<Rightarrow> json cm" where
  "uc_get_visible p kind sec full what =
     h_then (if kind = KIND_SCHEMA then h_then (c_lift (schema_of full)) (\<lambda>_. h_ret ()) else h_ret ()) (\<lambda>_.
     h_then (uc_require kind full what) (\<lambda>v.
     h_then (c_authorizer p) (\<lambda>az.
     h_then (c_can (az_can_browse sec full) az) (\<lambda>(ok, _).
       if ok then h_ret v
       else h_fail (PermissionDenied (''[INSUFFICIENT_PERMISSIONS] User '' @ p_user_name p @
         '' does not have permission to browse '' @ what @ '' '' @ quoted full @ ''.''))))))"

definition table_exists :: "principal \<Rightarrow> string \<Rightarrow> json cm" where
  "table_exists p full cs =
     (case uc_get_visible p KIND_TABLE Table full ''Table'' cs of
        (Inr _, cs') \<Rightarrow> (Inr (jobj [(''table_exists'', JBool True)]), cs')
      | (Inl e, cs') \<Rightarrow> (case e of
            NotFound _ \<Rightarrow> (Inr (jobj [(''table_exists'', JBool False)]), cs')
          | PermissionDenied _ \<Rightarrow> (Inr (jobj [(''table_exists'', JBool False)]), cs')
          | _ \<Rightarrow> (Inl e, cs')))"

definition list_tables :: "principal \<Rightarrow> string \<Rightarrow> string \<Rightarrow> int option \<Rightarrow> bool option \<Rightarrow> bool option \<Rightarrow> json cm" where
  "list_tables p cat sch limit omit_columns omit_properties =
     h_then (uc_list_tables p cat sch limit) (\<lambda>items.
       let strip = (\<lambda>it. (if omit_properties = Some True then j_remove ''properties'' else (\<lambda>v. v))
                          ((if omit_columns = Some True then j_remove ''columns'' else (\<lambda>v. v)) it))
       in h_ret (jobj [(''tables'', JArr (map strip items))]))"

fun find_infix :: "string \<Rightarrow> string \<Rightarrow> nat option" where
  "find_infix [] t = (if t = [] then Some 0 else None)"
| "find_infix (c # s) t = (if starts_with (c # s) t then Some 0 else map_option Suc (find_infix s t))"

text \<open>The loop over the parts between the stars: \<open>pos\<close> is how far the name is matched.\<close>

fun glob_parts :: "bool \<Rightarrow> string list \<Rightarrow> string \<Rightarrow> nat \<Rightarrow> nat option" where
  "glob_parts first [] s pos = Some pos"
| "glob_parts first (part # parts) s pos =
     (if part = [] then glob_parts False parts s pos
      else case find_infix (to_lower (drop pos s)) (to_lower part) of
             None \<Rightarrow> None
           | Some k \<Rightarrow> if first \<and> k \<noteq> 0 then None else glob_parts False parts s (pos + k + length part))"

definition glob_like :: "string \<Rightarrow> string \<Rightarrow> bool" where
  "glob_like pat s =
     (let p = replace_char (CHR ''%'') ''*'' pat in
      if CHR ''*'' \<notin> set p then eq_ignore_case p s
      else let parts = split_on (CHR ''*'') p in
           case glob_parts True parts s 0 of
             None \<Rightarrow> False
           | Some pos \<Rightarrow> last parts = [] \<or> pos = length s)"

definition table_summaries :: "principal \<Rightarrow> string \<Rightarrow> string option \<Rightarrow> string option \<Rightarrow> json cm" where
  "table_summaries p cat schema_pattern table_pattern =
     h_then (c_list KIND_TABLE (default_filter\<lparr>f_prefix := Some (cat @ ''.'')\<rparr>)) (\<lambda>docs.
     h_then (uc_visible p Table (map d_data docs)) (\<lambda>visible.
       let like = (\<lambda>pat s. case pat of None \<Rightarrow> True | Some q \<Rightarrow> glob_like q s);
           items = filter (\<lambda>d. like schema_pattern (or_default [] (as_str (j_get d ''schema_name''))) \<and>
                               like table_pattern (or_default [] (as_str (j_get d ''name'')))) visible
       in h_ret (jobj [(''tables'', JArr (map (\<lambda>d. jobj [(''full_name'', j_get d ''full_name''),
            (''table_type'', j_get d ''table_type'')]) items))])))"

definition browse :: "principal \<Rightarrow> string option \<Rightarrow> string option \<Rightarrow> json cm" where
  "browse p cat sch =
     h_then ensure_default_catalog (\<lambda>_.
       case (cat, sch) of
         (None, _) \<Rightarrow> h_then (uc_list_catalogs p) (\<lambda>xs. h_ret (jobj [(''catalogs'', JArr xs)]))
       | (Some c, None) \<Rightarrow> h_then (uc_list_schemas p c) (\<lambda>xs. h_ret (jobj [(''schemas'', JArr xs)]))
       | (Some c, Some s) \<Rightarrow>
           h_then (uc_list_tables p c s None) (\<lambda>tables.
           h_then (if c = SYSTEM_CATALOG \<or> s = ''information_schema'' then h_ret ([], [], [])
                   else h_then (uc_list_in_schema p KIND_VOLUME Volume c s) (\<lambda>volumes.
                        h_then (uc_list_in_schema p KIND_FUNCTION Function c s) (\<lambda>functions.
                        h_then (uc_list_in_schema p KIND_MODEL Function c s) (\<lambda>models.
                        h_ret (volumes, functions, models))))) (\<lambda>(volumes, functions, models).
           h_ret (jobj [(''tables'', JArr tables), (''volumes'', JArr volumes), (''functions'', JArr functions),
             (''models'', JArr models)]))))"

section \<open>Grants\<close>

definition browsable_securable :: "principal \<Rightarrow> securable \<Rightarrow> string \<Rightarrow> authorizer cm" where
  "browsable_securable p sec full =
     h_then (c_ask (uc_exists sec full)) (\<lambda>ex.
       if \<not> ex then h_fail (NotFound (api_type sec @ '' '' @ quoted full @ '' does not exist.''))
       else h_then (c_authorizer p) (\<lambda>az.
            h_then (c_can (az_can_browse sec full) az) (\<lambda>(ok, az).
              if \<not> ok \<and> sec \<noteq> Metastore
              then h_fail (PermissionDenied (''[INSUFFICIENT_PERMISSIONS] User '' @ p_user_name p @ '' cannot view grants on '' @
                api_type sec @ '' '' @ quoted full @ ''.''))
              else h_ret az)))"

definition get_grants :: "principal \<Rightarrow> string \<Rightarrow> string \<Rightarrow> string option \<Rightarrow> json cm" where
  "get_grants p securable_type full only =
     h_then (c_lift (securable_parse securable_type)) (\<lambda>sec.
     h_then (browsable_securable p sec full) (\<lambda>_.
     h_then (c_ask (grants_for sec full)) (\<lambda>as.
     h_ret (assignments_json (filter (\<lambda>x. case only of None \<Rightarrow> True | Some q \<Rightarrow> eq_ignore_case (a_principal x) q) as)))))"

definition get_effective :: "principal \<Rightarrow> string \<Rightarrow> string \<Rightarrow> string option \<Rightarrow> json cm" where
  "get_effective p securable_type full only =
     h_then (c_lift (securable_parse securable_type)) (\<lambda>sec.
     h_then (browsable_securable p sec full) (\<lambda>az cs.
       (Inr (fst (az_effective sec full only (az\<lparr>az_st := cs_app cs\<rparr>))), cs)))"

record grant_change =
  gc_principal :: string
  gc_add :: "string list"
  gc_remove :: "string list"

text \<open>Every change is checked before the first one is applied.\<close>

fun check_privileges :: "string list \<Rightarrow> unit cm" where
  "check_privileges [] = h_ret ()"
| "check_privileges (a # as) =
     (if is_known_privilege (normalize_privilege a) then check_privileges as
      else h_fail (InvalidParameter (''Privilege '' @ a @ '' is not supported'')))"

definition check_change :: "grant_change \<Rightarrow> unit cm" where
  "check_change ch =
     h_then (h_then (c_ask (principal_exists (gc_principal ch))) c_lift) (\<lambda>ok.
       if \<not> ok then h_fail (InvalidParameter (''Principal '' @ quoted (gc_principal ch) @ '' does not exist''))
       else check_privileges (gc_add ch @ gc_remove ch))"

fun apply_changes :: "securable \<Rightarrow> string \<Rightarrow> grant_change list \<Rightarrow> assignment list \<Rightarrow> assignment list cm" where
  "apply_changes sec full [] out = h_ret out"
| "apply_changes sec full (ch # chs) out =
     h_then c_now (\<lambda>now.
     h_then (c_app (change_grants now sec full (gc_principal ch) (gc_add ch) (gc_remove ch))) (apply_changes sec full chs))"

definition uc_update_grants :: "principal \<Rightarrow> securable \<Rightarrow> string \<Rightarrow> grant_change list \<Rightarrow> json cm" where
  "uc_update_grants p sec full changes =
     h_then (c_ask (uc_exists sec full)) (\<lambda>ex.
       if \<not> ex then h_fail (NotFound (api_type sec @ '' '' @ quoted full @ '' does not exist.''))
       else h_then (c_authorizer p) (\<lambda>az.
            h_then (if sec = Metastore
                    then (if p_is_admin p then h_ret () else h_fail (PermissionDenied ''Only metastore admins can grant on the metastore.''))
                    else h_then (c_az (az_require_owner sec full) az) (\<lambda>_. h_ret ())) (\<lambda>_.
            h_then (h_each check_change changes) (\<lambda>_.
            h_then (apply_changes sec full changes []) (\<lambda>out.
            h_ret (assignments_json out))))))"

section \<open>Endpoints that change the metastore\<close>

datatype uc_request =
    CreateCatalog jmap
  | UpdateCatalog string jmap
  | DeleteCatalog string bool
  | CreateSchema jmap
  | UpdateSchema string jmap
  | DeleteSchema string bool
  | CreateTable jmap
  | UpdateTable string jmap
  | DeleteTable string
  | CreateVolume jmap
  | UpdateVolume string jmap
  | DeleteVolume string
  | CreateFunction jmap
  | UpdateFunction string jmap
  | DeleteFunction string
  | CreateExtLocation jmap
  | UpdateExtLocation string jmap
  | DeleteExtLocation string bool
  | CreateStorageCred jmap
  | UpdateStorageCred string jmap
  | DeleteStorageCred string bool
  | CreateConnection jmap
  | UpdateConnection string jmap
  | DeleteConnection string bool
  | UpdateGrants string string "grant_change list"

definition function_info :: "jmap \<Rightarrow> jmap" where
  "function_info o0 = or_default o0 (Option.bind (map_of o0 ''function_info'') as_object)"

definition unit_reply :: "unit cm \<Rightarrow> json cm" where
  "unit_reply m = h_then m (\<lambda>_. h_ret (JObj []))"

fun uc_handle :: "cat_lib \<Rightarrow> principal \<Rightarrow> uc_request \<Rightarrow> json cm" where
  "uc_handle lib p (CreateCatalog o0) = uc_create_catalog lib p o0"
| "uc_handle lib p (UpdateCatalog n o0) = uc_patch p Catalog KIND_CATALOG n o0
     [''comment'', ''owner'', ''properties'', ''isolation_mode'', ''enable_predictive_optimization'', ''options'', ''new_name''] ''Catalog''"
| "uc_handle lib p (DeleteCatalog n force) = unit_reply (uc_delete_catalog lib p n force)"
| "uc_handle lib p (CreateSchema o0) = uc_create_schema lib p o0"
| "uc_handle lib p (UpdateSchema n o0) = uc_patch p Schema KIND_SCHEMA n o0
     [''comment'', ''owner'', ''properties'', ''enable_predictive_optimization'', ''new_name''] ''Schema''"
| "uc_handle lib p (DeleteSchema n force) = unit_reply (uc_delete_schema lib p n force)"
| "uc_handle lib p (CreateTable o0) = uc_create_table lib p o0"
| "uc_handle lib p (UpdateTable n o0) = uc_patch p Table KIND_TABLE n o0
     [''comment'', ''owner'', ''properties'', ''columns'', ''storage_location'', ''data_source_format'', ''new_name'', ''row_filter''] ''Table''"
| "uc_handle lib p (DeleteTable n) = unit_reply (uc_delete_table lib p n)"
| "uc_handle lib p (CreateVolume o0) = uc_create_in_schema lib p KIND_VOLUME ''Volume'' o0"
| "uc_handle lib p (UpdateVolume n o0) = uc_patch p Volume KIND_VOLUME n o0 [''comment'', ''owner'', ''new_name''] ''Volume''"
| "uc_handle lib p (DeleteVolume n) = unit_reply (uc_delete_in_schema p KIND_VOLUME Volume n ''Volume'')"
| "uc_handle lib p (CreateFunction o0) = uc_create_in_schema lib p KIND_FUNCTION ''Function'' (function_info o0)"
| "uc_handle lib p (UpdateFunction n o0) = uc_patch p Function KIND_FUNCTION n o0 [''comment'', ''owner''] ''Function''"
| "uc_handle lib p (DeleteFunction n) = unit_reply (uc_delete_in_schema p KIND_FUNCTION Function n ''Function'')"
| "uc_handle lib p (CreateExtLocation o0) = h_then (c_lift (str_field o0 ''url'')) (\<lambda>_.
     uc_create_named lib p KIND_EXT_LOCATION ExternalLocation ''External Location'' o0)"
| "uc_handle lib p (UpdateExtLocation n o0) = uc_patch p ExternalLocation KIND_EXT_LOCATION n o0 [''*''] ''External Location''"
| "uc_handle lib p (DeleteExtLocation n force) =
     unit_reply (uc_delete_named p KIND_EXT_LOCATION ExternalLocation n ''External Location'' force)"
| "uc_handle lib p (CreateStorageCred o0) = uc_create_named lib p KIND_STORAGE_CRED StorageCredential ''Storage Credential'' o0"
| "uc_handle lib p (UpdateStorageCred n o0) =
     uc_patch p StorageCredential KIND_STORAGE_CRED n (redact_credential o0) [''*''] ''Storage Credential''"
| "uc_handle lib p (DeleteStorageCred n force) =
     unit_reply (uc_delete_named p KIND_STORAGE_CRED StorageCredential n ''Storage Credential'' force)"
| "uc_handle lib p (CreateConnection o0) = uc_create_named lib p KIND_CONNECTION Connection ''Connection'' o0"
| "uc_handle lib p (UpdateConnection n o0) = uc_patch p Connection KIND_CONNECTION n o0
     [''comment'', ''owner'', ''options'', ''new_name''] ''Connection''"
| "uc_handle lib p (DeleteConnection n force) = unit_reply (uc_delete_named p KIND_CONNECTION Connection n ''Connection'' force)"
| "uc_handle lib p (UpdateGrants t n chs) = h_then (c_lift (securable_parse t)) (\<lambda>sec. uc_update_grants p sec n chs)"

end
