(* ===== verification/Uc_Guard.thy ===== *)
theory Uc_Guard
  imports Uc_Requests Uc_Grants_Tree
begin

text \<open>
  Who may change the metastore: the privileges every endpoint needs, stated on the stored owners and
  grants, and the proof that without them the request fails and neither a document, a grant, a
  secret nor the engine is touched.
\<close>

section \<open>Steps that do not touch the metastore\<close>

definition same_meta :: "cat_state \<Rightarrow> cat_state \<Rightarrow> bool" where
  "same_meta cs cs' \<longleftrightarrow> cs_app cs' = cs_app cs \<and> cs_events cs' = cs_events cs"

interpretation meta: frame same_meta
  by unfold_locales (simp_all add: same_meta_def)

named_theorems cm_simps \<open>the result of a primitive step\<close>
named_theorems quiet \<open>how a refusal passes through the steps before a guard\<close>

lemma cm_basic [cm_simps]:
  "c_lift r cs = (r, cs)" "c_ask f cs = (Inr (f (cs_app cs)), cs)"
  "c_authorizer p cs = (Inr (az_new (cs_app cs) p), cs)"
  "c_now cs = (Inr (cs_clock cs (cs_tick cs)), cs\<lparr>cs_tick := Suc (cs_tick cs)\<rparr>)"
  "c_uuid cs = (Inr (cs_uuid cs (cs_uuids cs)), cs\<lparr>cs_uuids := Suc (cs_uuids cs)\<rparr>)"
  by (simp_all add: c_lift_def c_ask_def c_authorizer_def c_now_def c_uuid_def)

lemma reads_prims [simp]:
  "reads (c_lift r)" "reads (c_ask f)" "reads (c_authorizer p)" "reads (c_az g az)" "reads (c_can h az)" "reads (c_list k fl)"
  "reads (c_count k n)"
  by (auto simp: reads_def c_az_def c_can_def c_list_def c_count_def cm_simps split: prod.split sum.split)

lemma reads_lookups [simp]: "reads (uc_require k n w)" "reads (uc_absent k n msg)"
  unfolding uc_require_def uc_absent_def by (auto intro!: reads_then split: prod.splits option.splits)

lemma refuses_read:
  assumes "reads m" and "\<And>x. m cs = (Inr x, cs) \<Longrightarrow> refuses same_meta (f x) cs"
  shows "refuses same_meta (h_then m f) cs"
  by (rule meta.refuses_then) (use assms in \<open>auto simp: meta.within_reads reads_def, metis snd_conv\<close>)

lemma refuses_lift [quiet]:
  "(\<And>x. r = Inr x \<Longrightarrow> refuses same_meta (f x) cs) \<Longrightarrow> refuses same_meta (h_then (c_lift r) f) cs"
  by (rule refuses_read) (auto simp: cm_simps)

lemma refuses_ask [quiet]:
  "refuses same_meta (f (g (cs_app cs))) cs \<Longrightarrow> refuses same_meta (h_then (c_ask g) f) cs"
  by (rule refuses_read) (auto simp: cm_simps)

lemma refuses_lookups [quiet]:
  "(\<And>x. refuses same_meta (f x) cs) \<Longrightarrow> refuses same_meta (h_then (uc_require k n w) f) cs"
  "(\<And>x. refuses same_meta (g x) cs) \<Longrightarrow> refuses same_meta (h_then (uc_absent k n msg) g) cs"
  "(\<And>x. refuses same_meta (l x) cs) \<Longrightarrow> refuses same_meta (h_then (c_list k fl) l) cs"
  by (rule refuses_read; simp)+

lemma refuses_quiet:
  assumes "moves_within same_meta m" and "\<And>x cs'. cs_app cs' = cs_app cs \<Longrightarrow> refuses same_meta (f x) cs'"
  shows "refuses same_meta (h_then m f) cs"
  by (rule meta.refuses_then [OF assms(1)], rule assms(2)) (simp add: same_meta_def)

lemma quiet_stamp: "moves_within same_meta c_now" "moves_within same_meta c_uuid"
  by (simp_all add: moves_within_def cm_simps same_meta_def)

lemmas refuses_stamp [quiet] = refuses_quiet [OF quiet_stamp(1)] refuses_quiet [OF quiet_stamp(2)]

lemmas [quiet] = refuses_if refuses_then_if refuses_then_option refuses_then_ret refuses_assoc
  meta.refuses_fail meta.refuses_then_fail

section \<open>Guards\<close>

lemma az_ok_reset: "az_ok st p az \<Longrightarrow> az\<lparr>az_st := st\<rparr> = az"
  using az_okD(1) [of st p az] by (cases az) simp

lemma refuses_authorizer [quiet]:
  "(\<And>az. az_ok (cs_app cs) p az \<Longrightarrow> refuses same_meta (f az) cs) \<Longrightarrow> refuses same_meta (h_then (c_authorizer p) f) cs"
  by (rule refuses_read) (auto simp: cm_simps az_ok_new)

lemma c_az_answer:
  assumes "az_ok (cs_app cs) p az" and "answers (cs_app cs) p g v"
  obtains az' where "c_az g az cs = ((case v of Inl e \<Rightarrow> Inl e | Inr _ \<Rightarrow> Inr az'), cs)" "az_ok (cs_app cs) p az'"
proof -
  obtain az' where "g az = (v, az')" "az_ok (cs_app cs) p az'" by (rule answersE [OF assms(2,1)])
  then show thesis
    by (intro that [of az']) (auto simp: c_az_def az_ok_reset [OF assms(1)] split: sum.split)
qed

lemma c_can_answer:
  assumes "az_ok (cs_app cs) p az" and "answers (cs_app cs) p g v"
  obtains az' where "c_can g az cs = (Inr (v, az'), cs)" "az_ok (cs_app cs) p az'"
  using answersE [OF assms(2,1)] by (metis c_can_def az_ok_reset [OF assms(1)])

lemma refuses_az:
  assumes "az_ok (cs_app cs) p az" and "answers (cs_app cs) p g v"
    and "\<And>az'. v = Inr () \<Longrightarrow> az_ok (cs_app cs) p az' \<Longrightarrow> refuses same_meta (f az') cs"
  shows "refuses same_meta (h_then (c_az g az) f) cs"
proof -
  obtain az' where run: "c_az g az cs = ((case v of Inl e \<Rightarrow> Inl e | Inr _ \<Rightarrow> Inr az'), cs)" and ok: "az_ok (cs_app cs) p az'"
    by (rule c_az_answer [OF assms(1,2)])
  show ?thesis
    by (rule refuses_read) (use run ok assms(3) in \<open>auto split: sum.splits\<close>)
qed

lemma answers_require_owner:
  "answers st p (az_require_owner sec n) (if holds st p sec n ''MANAGE'' then Inr () else
     Inl (PermissionDenied (''User does not own '' @ api_type sec @ '' '' @ quoted n @ '' and does not have MANAGE on it.'')))"
proof (rule answersI)
  fix az assume ok: "az_ok st p az"
  obtain az' where "az_can_manage sec n az = (holds st p sec n ''MANAGE'', az')" "az_ok st p az'"
    by (rule answersE [OF answers_can_manage ok])
  then show "fst (az_require_owner sec n az) = (if holds st p sec n ''MANAGE'' then Inr () else
     Inl (PermissionDenied (''User does not own '' @ api_type sec @ '' '' @ quoted n @ '' and does not have MANAGE on it.''))) \<and>
     az_ok st p (snd (az_require_owner sec n az))"
    by (simp add: az_require_owner_def)
qed

lemma refuses_require [quiet]:
  assumes "az_ok (cs_app cs) p az"
    and "\<And>az'. holds (cs_app cs) p sec n priv \<Longrightarrow> az_ok (cs_app cs) p az' \<Longrightarrow> refuses same_meta (f az') cs"
  shows "refuses same_meta (h_then (c_az (az_require sec n priv) az) f) cs"
  by (rule refuses_az [OF assms(1) answers_require]) (use assms(2) in \<open>auto simp: require_ref_def split: if_splits\<close>)

lemma refuses_owner [quiet]:
  assumes "az_ok (cs_app cs) p az"
    and "\<And>az'. holds (cs_app cs) p sec n ''MANAGE'' \<Longrightarrow> az_ok (cs_app cs) p az' \<Longrightarrow> refuses same_meta (f az') cs"
  shows "refuses same_meta (h_then (c_az (az_require_owner sec n) az) f) cs"
  by (rule refuses_az [OF assms(1) answers_require_owner]) (use assms(2) in \<open>auto split: if_splits\<close>)

lemma refuses_use_path [quiet]:
  assumes "az_ok (cs_app cs) p az"
    and "\<And>az'. use_path_ref (cs_app cs) p n = Inr () \<Longrightarrow> az_ok (cs_app cs) p az' \<Longrightarrow> refuses same_meta (f az') cs"
  shows "refuses same_meta (h_then (c_az (az_require_use_path n) az) f) cs"
  by (rule refuses_az [OF assms(1) answers_use_path]) (use assms(2) in auto)

lemma refuses_can_manage [quiet]:
  assumes ok: "az_ok (cs_app cs) p az"
    and "\<And>az'. az_ok (cs_app cs) p az' \<Longrightarrow> refuses same_meta (f (holds (cs_app cs) p sec n ''MANAGE'', az')) cs"
  shows "refuses same_meta (h_then (c_can (az_can_manage sec n) az) f) cs"
proof -
  obtain az' where run: "c_can (az_can_manage sec n) az cs = (Inr (holds (cs_app cs) p sec n ''MANAGE'', az'), cs)"
    and ok': "az_ok (cs_app cs) p az'"
    by (rule c_can_answer [OF ok answers_can_manage])
  show ?thesis by (rule refuses_read) (use run assms(2) [OF ok'] in auto)
qed

section \<open>Paths\<close>

definition covering_location :: "app_state \<Rightarrow> string \<Rightarrow> string option" where
  "covering_location st url =
     map_option snd (fold (better_location url) (store_list KIND_EXT_LOCATION workspace_id default_filter (as_store st)) None)"

definition path_allowed :: "app_state \<Rightarrow> principal \<Rightarrow> string \<Rightarrow> string \<Rightarrow> bool" where
  "path_allowed st p url privilege \<longleftrightarrow>
     p_is_admin p \<or> (case covering_location st url of None \<Rightarrow> False | Some name \<Rightarrow> holds st p ExternalLocation name privilege)"

lemma refuses_path [quiet]:
  assumes ok: "az_ok (cs_app cs) p az"
    and k: "\<And>az'. path_allowed (cs_app cs) p url priv \<Longrightarrow> az_ok (cs_app cs) p az' \<Longrightarrow> refuses same_meta (f az') cs"
  shows "refuses same_meta (h_then (require_path_privilege url priv az) f) cs"
proof (cases "p_is_admin p")
  case True
  then have "az_is_admin az" using ok by (simp add: az_is_admin_def)
  with True k [OF _ ok] show ?thesis by (simp add: require_path_privilege_def path_allowed_def)
next
  case False
  then have na: "\<not> az_is_admin az" using ok by (simp add: az_is_admin_def)
  show ?thesis
  proof (cases "fold (better_location url) (store_list KIND_EXT_LOCATION workspace_id default_filter (as_store (cs_app cs))) None")
    case None
    with na show ?thesis
      by (simp add: require_path_privilege_def h_then_assoc c_list_def)
        (rule refuses_ask, simp add: meta.refuses_fail)
  next
    case (Some nn)
    obtain n name where nn: "nn = (n, name)" by (cases nn)
    have "covering_location (cs_app cs) url = Some name" by (simp add: covering_location_def Some nn)
    then have "refuses same_meta (h_then (c_az (az_require ExternalLocation name priv) az) f) cs"
      by (intro refuses_require [OF ok] k) (simp_all add: path_allowed_def)
    with na Some nn show ?thesis
      by (simp add: require_path_privilege_def h_then_assoc c_list_def) (rule refuses_ask, simp)
  qed
qed

section \<open>What every endpoint needs\<close>

definition field :: "jmap \<Rightarrow> string \<Rightarrow> string option" where
  "field m k = Option.bind (map_of m k) as_str"

definition all_of :: "'a option \<Rightarrow> ('a \<Rightarrow> bool) \<Rightarrow> bool" where
  "all_of v P = (case v of None \<Rightarrow> True | Some x \<Rightarrow> P x)"

definition schema_path :: "jmap \<Rightarrow> string" where
  "schema_path m = or_default [] (field m ''catalog_name'') @ ''.'' @ or_default [] (field m ''schema_name'')"

definition object_path :: "jmap \<Rightarrow> string" where
  "object_path m = schema_path m @ ''.'' @ or_default [] (field m ''name'')"

definition may_create_in_schema :: "app_state \<Rightarrow> principal \<Rightarrow> string \<Rightarrow> jmap \<Rightarrow> bool" where
  "may_create_in_schema st p privilege m \<longleftrightarrow>
     use_path_ref st p (object_path m) = Inr () \<and> holds st p Schema (schema_path m) privilege"

definition may_create_named :: "app_state \<Rightarrow> principal \<Rightarrow> string \<Rightarrow> bool" where
  "may_create_named st p privilege = holds st p Metastore METASTORE_ID privilege"

definition manages :: "app_state \<Rightarrow> principal \<Rightarrow> securable \<Rightarrow> string \<Rightarrow> bool" where
  "manages st p sec n = holds st p sec n ''MANAGE''"

fun uc_allowed :: "app_state \<Rightarrow> principal \<Rightarrow> uc_request \<Rightarrow> bool" where
  "uc_allowed st p (CreateCatalog m) \<longleftrightarrow> may_create_named st p ''CREATE_CATALOG'' \<and>
     all_of (field m ''connection_name'') (\<lambda>c. holds st p Connection c ''CREATE_FOREIGN_CATALOG'')"
| "uc_allowed st p (UpdateCatalog n m) \<longleftrightarrow> manages st p Catalog n"
| "uc_allowed st p (DeleteCatalog n force) \<longleftrightarrow> manages st p Catalog n"
| "uc_allowed st p (CreateSchema m) \<longleftrightarrow> all_of (field m ''catalog_name'') (\<lambda>c.
     holds st p Catalog c ''USE_CATALOG'' \<and> holds st p Catalog c ''CREATE_SCHEMA'')"
| "uc_allowed st p (UpdateSchema n m) \<longleftrightarrow> manages st p Schema n"
| "uc_allowed st p (DeleteSchema n force) \<longleftrightarrow> manages st p Schema n"
| "uc_allowed st p (CreateTable m) \<longleftrightarrow> may_create_in_schema st p ''CREATE_TABLE'' m \<and>
     (field m ''table_type'' = Some ''EXTERNAL'' \<longrightarrow>
       all_of (field m ''storage_location'') (\<lambda>l. path_allowed st p l ''CREATE_EXTERNAL_TABLE''))"
| "uc_allowed st p (UpdateTable n m) \<longleftrightarrow> manages st p Table n"
| "uc_allowed st p (DeleteTable n) \<longleftrightarrow> manages st p Table n"
| "uc_allowed st p (CreateVolume m) \<longleftrightarrow> may_create_in_schema st p ''CREATE_VOLUME'' m \<and>
     (field m ''volume_type'' = Some ''EXTERNAL'' \<longrightarrow>
       all_of (field m ''storage_location'') (\<lambda>l. path_allowed st p l ''CREATE_EXTERNAL_VOLUME''))"
| "uc_allowed st p (UpdateVolume n m) \<longleftrightarrow> manages st p Volume n"
| "uc_allowed st p (DeleteVolume n) \<longleftrightarrow> manages st p Volume n"
| "uc_allowed st p (CreateFunction m) \<longleftrightarrow> may_create_in_schema st p ''CREATE_FUNCTION'' (function_info m)"
| "uc_allowed st p (UpdateFunction n m) \<longleftrightarrow> manages st p Function n"
| "uc_allowed st p (DeleteFunction n) \<longleftrightarrow> manages st p Function n"
| "uc_allowed st p (CreateExtLocation m) \<longleftrightarrow> may_create_named st p ''CREATE_EXTERNAL_LOCATION'' \<and>
     all_of (field m ''credential_name'') (\<lambda>c. holds st p StorageCredential c ''CREATE_EXTERNAL_LOCATION'')"
| "uc_allowed st p (UpdateExtLocation n m) \<longleftrightarrow> manages st p ExternalLocation n"
| "uc_allowed st p (DeleteExtLocation n force) \<longleftrightarrow> manages st p ExternalLocation n"
| "uc_allowed st p (CreateStorageCred m) \<longleftrightarrow> may_create_named st p ''CREATE_STORAGE_CREDENTIAL''"
| "uc_allowed st p (UpdateStorageCred n m) \<longleftrightarrow> manages st p StorageCredential n"
| "uc_allowed st p (DeleteStorageCred n force) \<longleftrightarrow> manages st p StorageCredential n"
| "uc_allowed st p (CreateConnection m) \<longleftrightarrow> may_create_named st p ''CREATE_CONNECTION''"
| "uc_allowed st p (UpdateConnection n m) \<longleftrightarrow> manages st p Connection n"
| "uc_allowed st p (DeleteConnection n force) \<longleftrightarrow> manages st p Connection n"
| "uc_allowed st p (UpdateGrants t n chs) \<longleftrightarrow> (case securable_parse t of
     Inl _ \<Rightarrow> True | Inr sec \<Rightarrow> if sec = Metastore then p_is_admin p else manages st p sec n)"

section \<open>The guards of the operations\<close>

lemma str_field_Inr [simp]: "str_field m k = Inr s \<longleftrightarrow> field m k = Some s"
  by (simp add: str_field_def field_def)

lemma field_insert [simp]: "k' \<noteq> k \<Longrightarrow> field (bt_insert k v m) k' = field m k'"
  by (simp add: field_def bt_get_insert)

lemma field_or_insert [simp]: "k' \<noteq> k \<Longrightarrow> field (or_insert k v m) k' = field m k'"
  by (simp add: field_def map_of_or_insert)

lemma create_schema_guarded:
  assumes "\<not> uc_allowed (cs_app cs) p (CreateSchema m)"
  shows "refuses same_meta (uc_create_schema lib p m) cs"
  unfolding uc_create_schema_def
  by (intro quiet) (use assms in \<open>auto simp: all_of_def\<close>)

lemma create_catalog_guarded:
  assumes "\<not> uc_allowed (cs_app cs) p (CreateCatalog m)"
  shows "refuses same_meta (uc_create_catalog lib p m) cs"
  unfolding uc_create_catalog_def catalog_flavour_def field_def [symmetric]
  by (intro quiet) (use assms in \<open>auto simp: all_of_def may_create_named_def\<close>)

lemma create_table_guarded:
  assumes "\<not> uc_allowed (cs_app cs) p (CreateTable m)"
  shows "refuses same_meta (uc_create_table lib p m) cs"
  unfolding uc_create_table_def field_def [symmetric] Let_def
  by (intro quiet) (use assms in \<open>auto simp: all_of_def may_create_in_schema_def object_path_def schema_path_def\<close>)

lemma volume_fields_guarded:
  assumes "az_ok (cs_app cs) p az"
    and "field m ''volume_type'' = Some ''EXTERNAL''" "field m ''storage_location'' = Some l"
    and "\<not> path_allowed (cs_app cs) p l ''CREATE_EXTERNAL_VOLUME''"
  shows "refuses same_meta (volume_fields lib cat sch name m az) cs"
  unfolding volume_fields_def field_def [symmetric] Let_def
  by (intro quiet) (use assms in auto)

lemma create_in_schema_guarded:
  assumes "create_privilege kind = (sec, priv)" and "\<not> may_create_in_schema (cs_app cs) p priv m"
  shows "refuses same_meta (uc_create_in_schema lib p kind label m) cs"
  unfolding uc_create_in_schema_def Let_def assms(1) prod.case
  by (intro quiet) (use assms(2) in \<open>auto simp: may_create_in_schema_def object_path_def schema_path_def\<close>)

lemma volume_privilege: "create_privilege KIND_VOLUME = (Volume, ''CREATE_VOLUME'')"
  by (simp add: create_privilege_def)

lemma create_volume_guarded:
  assumes "\<not> uc_allowed (cs_app cs) p (CreateVolume m)"
  shows "refuses same_meta (uc_create_in_schema lib p KIND_VOLUME label m) cs"
proof (cases "may_create_in_schema (cs_app cs) p ''CREATE_VOLUME'' m")
  case False
  then show ?thesis by (rule create_in_schema_guarded [OF volume_privilege])
next
  case True
  with assms obtain l where "field m ''volume_type'' = Some ''EXTERNAL''" "field m ''storage_location'' = Some l"
      "\<not> path_allowed (cs_app cs) p l ''CREATE_EXTERNAL_VOLUME''"
    by (auto simp: all_of_def split: option.splits)
  then show ?thesis
    unfolding uc_create_in_schema_def Let_def volume_privilege prod.case
    by (intro quiet) (auto simp: object_fields_def intro: volume_fields_guarded [THEN meta.refuses_stop])
qed

lemma create_function_guarded:
  assumes "\<not> may_create_in_schema (cs_app cs) p ''CREATE_FUNCTION'' m"
  shows "refuses same_meta (uc_create_in_schema lib p KIND_FUNCTION label m) cs"
  by (rule create_in_schema_guarded [OF _ assms, where sec = Function]) (simp add: create_privilege_def uc_kind_defs)

lemma create_named_guarded:
  assumes "\<not> may_create_named (cs_app cs) p (named_privilege sec)"
  shows "refuses same_meta (uc_create_named lib p kind sec label m) cs"
  unfolding uc_create_named_def
  by (intro quiet) (use assms in \<open>auto simp: may_create_named_def\<close>)

lemma create_ext_location_guarded:
  assumes "\<not> uc_allowed (cs_app cs) p (CreateExtLocation m)"
  shows "refuses same_meta (uc_create_named lib p KIND_EXT_LOCATION ExternalLocation label m) cs"
proof (cases "may_create_named (cs_app cs) p ''CREATE_EXTERNAL_LOCATION''")
  case False
  then show ?thesis by (intro create_named_guarded) simp
next
  case True
  with assms obtain c where "field m ''credential_name'' = Some c" "\<not> holds (cs_app cs) p StorageCredential c ''CREATE_EXTERNAL_LOCATION''"
    by (auto simp: all_of_def split: option.splits)
  then show ?thesis
    unfolding uc_create_named_def external_location_fields_def Let_def field_def [symmetric]
    by (intro quiet) auto
qed

lemma delete_guarded:
  assumes "\<not> manages (cs_app cs) p sec n"
  shows "sec = Catalog \<Longrightarrow> refuses same_meta (uc_delete_catalog lib p n force) cs"
    "sec = Schema \<Longrightarrow> refuses same_meta (uc_delete_schema lib p n force) cs"
    "sec = Table \<Longrightarrow> refuses same_meta (uc_delete_table lib p n) cs"
    "refuses same_meta (uc_delete_in_schema p kind sec n what) cs"
    "refuses same_meta (uc_delete_named p kind sec n what force) cs"
  unfolding uc_delete_catalog_def uc_delete_schema_def uc_delete_table_def uc_delete_in_schema_def uc_delete_named_def
  by (intro quiet; use assms in \<open>auto simp: manages_def\<close>)+

lemma patch_guarded:
  assumes "\<not> manages (cs_app cs) p sec n"
  shows "refuses same_meta (uc_patch p sec kind n m allowed what) cs"
  unfolding uc_patch_def
  by (intro quiet) (use assms in \<open>auto simp: manages_def meta.refuses_fail\<close>)

lemma update_grants_guarded:
  assumes "\<not> (if sec = Metastore then p_is_admin p else manages (cs_app cs) p sec n)"
  shows "refuses same_meta (uc_update_grants p sec n chs) cs"
  unfolding uc_update_grants_def
  by (intro quiet) (use assms in \<open>auto simp: manages_def meta.refuses_fail split: if_splits\<close>)

text \<open>C12: No privilege, no change: a request to create, update, delete or grant on a securable by a
  principal who lacks the privilege the endpoint needs fails, and leaves every document, every grant,
  every stored secret, the engine and the object store as they were.\<close>

theorem uc_requests_guarded:
  assumes "\<not> uc_allowed (cs_app cs) p req"
  shows "\<exists>e cs'. uc_handle lib p req cs = (Inl e, cs') \<and> cs_app cs' = cs_app cs \<and> cs_events cs' = cs_events cs"
proof -
  have "refuses same_meta (uc_handle lib p req) cs"
  proof (cases req)
    case (CreateExtLocation m)
    with assms show ?thesis by (simp del: uc_allowed.simps) (rule refuses_lift, rule create_ext_location_guarded)
  next
    case (UpdateGrants t n chs)
    with assms show ?thesis
      by (simp, intro refuses_lift update_grants_guarded) (auto split: if_splits)
  qed (use assms in \<open>simp_all add: unit_reply_def patch_guarded delete_guarded [THEN meta.refuses_stop] create_function_guarded
      create_catalog_guarded create_schema_guarded create_table_guarded create_volume_guarded create_named_guarded\<close>)
  then show ?thesis by (simp add: refuses_def same_meta_def)
qed

end
