(* ===== verification/Uc_Access.thy ===== *)
theory Uc_Access
  imports Uc_Guard
begin

text \<open>
  What a principal sees and which external location governs a path: listings keep exactly what the
  principal can browse, and a path is governed by the covering location with the longest URL.
\<close>

section \<open>Listings\<close>

definition browsable :: "app_state \<Rightarrow> principal \<Rightarrow> securable \<Rightarrow> string \<Rightarrow> bool" where
  "browsable st p sec n \<longleftrightarrow>
     holds_some st p (\<lambda>a. a_privileges a \<noteq> []) sec n \<or> (sec = Catalog \<or> sec = Schema) \<and> grant_below st p n"

lemma answers_browse: "answers st p (az_can_browse sec n) (browsable st p sec n)"
  unfolding browsable_def by (rule answers_can_browse)

lemma visible_loop_exact:
  "az_ok (cs_app cs) p az \<Longrightarrow>
     visible_loop sec ds az cs = (Inr (filter (\<lambda>d. browsable (cs_app cs) p sec (shown_name d)) ds), cs)"
proof (induction ds arbitrary: az)
  case Nil
  then show ?case by (simp add: h_basic)
next
  case (Cons d ds)
  obtain az' where run: "c_can (az_can_browse sec (shown_name d)) az cs = (Inr (browsable (cs_app cs) p sec (shown_name d), az'), cs)"
    and ok: "az_ok (cs_app cs) p az'"
    by (rule c_can_answer [OF Cons.prems answers_browse])
  show ?case by (simp add: h_then_step [where m = "c_can g az" for g, OF run]
      h_then_step [where m = "visible_loop sec ds az'", OF Cons.IH [OF ok]] h_basic)
qed

text \<open>C25: A listing shows exactly the documents the principal can browse: those on which, or on an
  ancestor of which, the principal is the owner or has any privilege, and the catalogs and schemas
  above something granted to or owned by the principal; administrators see everything. The caches
  the listing shares between the documents never change the answer.\<close>

theorem listing_exact:
  "uc_visible p sec ds cs =
     (Inr (if p_is_admin p then ds else filter (\<lambda>d. browsable (cs_app cs) p sec (shown_name d)) ds), cs)"
proof (cases "p_is_admin p")
  case False
  then show ?thesis
    using visible_loop_exact [where cs = cs and p = p and sec = sec and ds = ds, OF az_ok_new]
    by (simp add: uc_visible_def h_then_step [where m = "c_authorizer p", OF cm_basic(3)])
qed (simp add: uc_visible_def h_basic)

section \<open>Paths\<close>

definition location_url :: "doc \<Rightarrow> string option" where
  "location_url d = map_option (trim_end_char (CHR ''/'')) (as_str (j_get (d_data d) ''url''))"

definition covers :: "string \<Rightarrow> doc \<Rightarrow> bool" where
  "covers url d \<longleftrightarrow> (case location_url d of None \<Rightarrow> False | Some u \<Rightarrow> url = u \<or> starts_with url (u @ ''/''))"

definition url_length :: "doc \<Rightarrow> nat" where
  "url_length d = length (or_default [] (location_url d))"

lemma better_location_covers:
  "better_location url d best =
     (if covers url d \<and> (case best of None \<Rightarrow> True | Some (n, _) \<Rightarrow> n < url_length d)
      then Some (url_length d, or_default [] (d_name d)) else best)"
  by (auto simp: better_location_def covers_def location_url_def url_length_def Let_def split: option.splits)

text \<open>\<open>d\<close> is the first of the covering locations with the longest URL.\<close>

definition governs :: "string \<Rightarrow> doc list \<Rightarrow> doc \<Rightarrow> bool" where
  "governs url ds d \<longleftrightarrow> (\<exists>as bs. ds = as @ d # bs \<and> covers url d \<and>
     (\<forall>x \<in> set as. covers url x \<longrightarrow> url_length x < url_length d) \<and>
     (\<forall>x \<in> set bs. covers url x \<longrightarrow> url_length x \<le> url_length d))"

lemma best_location:
  "(case fold (better_location url) ds None of
      None \<Rightarrow> \<forall>x \<in> set ds. \<not> covers url x
    | Some (n, name) \<Rightarrow> \<exists>d. governs url ds d \<and> n = url_length d \<and> name = or_default [] (d_name d))"
proof (induction ds rule: rev_induct)
  case (snoc x ds)
  show ?case
  proof (cases "fold (better_location url) ds None")
    case None
    with snoc have "\<forall>y \<in> set ds. \<not> covers url y" by simp
    moreover have "covers url x \<Longrightarrow> governs url (ds @ [x]) x"
      using \<open>\<forall>y \<in> set ds. \<not> covers url y\<close> unfolding governs_def by (intro exI [of _ ds] exI [of _ "[]"]) simp
    ultimately show ?thesis by (auto simp: None better_location_covers [of url x])
  next
    case (Some nn)
    then obtain n name d where nn: "nn = (n, name)" and d: "governs url ds d" "n = url_length d" "name = or_default [] (d_name d)"
      using snoc by (cases nn) auto
    from d(1) obtain as bs where ds: "ds = as @ d # bs" "covers url d"
      "\<forall>y \<in> set as. covers url y \<longrightarrow> url_length y < url_length d" "\<forall>y \<in> set bs. covers url y \<longrightarrow> url_length y \<le> url_length d"
      unfolding governs_def by blast
    show ?thesis
    proof (cases "covers url x \<and> url_length d < url_length x")
      case True
      have "governs url (ds @ [x]) x"
        unfolding governs_def using True ds by (intro exI [of _ ds] exI [of _ "[]"]) auto
      with True show ?thesis using Some nn d(2) by (auto simp: better_location_covers [of url x])
    next
      case False
      have "governs url (ds @ [x]) d"
        unfolding governs_def using False ds by (intro exI [of _ as] exI [of _ "bs @ [x]"]) auto
      with False show ?thesis using Some nn d(2,3) by (auto simp: better_location_covers [of url x])
    qed
  qed
qed simp

lemma governs_unique: "governs url ds d \<Longrightarrow> governs url ds d' \<Longrightarrow> d = d'"
proof -
  assume a: "governs url ds d" and b: "governs url ds d'"
  from a obtain as bs where x: "ds = as @ d # bs" "covers url d"
    "\<forall>y \<in> set as. covers url y \<longrightarrow> url_length y < url_length d" "\<forall>y \<in> set bs. covers url y \<longrightarrow> url_length y \<le> url_length d"
    unfolding governs_def by blast
  from b obtain as' bs' where y: "ds = as' @ d' # bs'" "covers url d'"
    "\<forall>y \<in> set as'. covers url y \<longrightarrow> url_length y < url_length d'" "\<forall>y \<in> set bs'. covers url y \<longrightarrow> url_length y \<le> url_length d'"
    unfolding governs_def by blast
  have "as @ d # bs = as' @ d' # bs'" using x(1) y(1) by simp
  then consider "as = as'" "d = d'" | "d' \<in> set bs" "d \<in> set as'" | "d' \<in> set as" "d \<in> set bs'"
    by (auto simp: append_eq_append_conv2 append_eq_Cons_conv Cons_eq_append_conv)
  then show ?thesis
  proof cases
    case 2
    with x(2,4) y(2,3) have False by fastforce
    then show ?thesis ..
  next
    case 3
    with x(2,3) y(2,4) have False by fastforce
    then show ?thesis ..
  qed
qed

definition external_locations :: "app_state \<Rightarrow> doc list" where
  "external_locations st = store_list KIND_EXT_LOCATION workspace_id default_filter (as_store st)"

text \<open>C24: A path is governed by the first of the covering external locations with the longest URL: the
  check of a path privilege passes exactly for administrators and for principals who hold the
  privilege on that location, and fails when no location covers the path.\<close>

theorem path_privilege_exact:
  "(\<exists>az. require_path_privilege url privilege (az_new (cs_app cs) p) cs = (Inr az, cs)) \<longleftrightarrow>
    p_is_admin p \<or> (\<exists>d. governs url (external_locations (cs_app cs)) d \<and>
      holds (cs_app cs) p ExternalLocation (or_default [] (d_name d)) privilege)"
proof -
  let ?az = "az_new (cs_app cs) p"
  define locs where "locs = external_locations (cs_app cs)"
  let ?best = "fold (better_location url) locs None"
  have locs: "external_locations (cs_app cs) = locs" by (simp add: locs_def)
  have ok: "az_ok (cs_app cs) p ?az" by (rule az_ok_new)
  have admin: "az_is_admin ?az = p_is_admin p" by (simp add: az_is_admin_def az_new_def)
  have list: "c_list KIND_EXT_LOCATION default_filter cs = (Inr locs, cs)" by (simp add: c_list_def c_ask_def locs_def external_locations_def)
  show ?thesis
  proof (cases "p_is_admin p")
    case False
    have run: "require_path_privilege url privilege ?az cs = (case ?best of
          Some (_, name) \<Rightarrow> c_az (az_require ExternalLocation name privilege) ?az
        | None \<Rightarrow> h_fail (PermissionDenied (''[INSUFFICIENT_PERMISSIONS] No external location covers '' @ quoted url @ ''; '' @
            replace_char (CHR ''_'') '' '' (normalize_privilege privilege) @ '' requires an external location grant.''))) cs"
      using False by (simp add: require_path_privilege_def admin h_then_step [where m = "c_list _ _", OF list])
    show ?thesis
    proof (cases ?best)
      case None
      then have "\<not> (\<exists>d. governs url locs d)" using best_location [where url = url and ds = locs] by (auto simp: governs_def)
      with None False show ?thesis by (simp add: run h_basic locs)
    next
      case (Some nn)
      then obtain n d where nn: "nn = (n, or_default [] (d_name d))" and d: "governs url locs d"
        using best_location [where url = url and ds = locs] by (cases nn) auto
      obtain az' where r: "c_az (az_require ExternalLocation (or_default [] (d_name d)) privilege) ?az cs =
          ((case require_ref (cs_app cs) p ExternalLocation (or_default [] (d_name d)) privilege of
              Inl e \<Rightarrow> Inl e | Inr _ \<Rightarrow> Inr az'), cs)"
        by (rule c_az_answer [OF ok answers_require])
      have "(\<exists>d. governs url locs d \<and> holds (cs_app cs) p ExternalLocation (or_default [] (d_name d)) privilege) \<longleftrightarrow>
          holds (cs_app cs) p ExternalLocation (or_default [] (d_name d)) privilege"
        using d governs_unique [OF d] by blast
      with False show ?thesis by (simp add: run Some nn r require_ref_def locs)
    qed
  qed (simp add: require_path_privilege_def admin h_basic)
qed

end
