(* ===== verification/Uc_GrantUpdate.thy ===== *)
theory Uc_GrantUpdate
  imports Uc_Access
begin

text \<open>
  The update of grants over the API: the principals and privileges of all changes are checked before
  the first change is made, so an update is applied as a whole or not at all.
\<close>

definition valid_change :: "app_state \<Rightarrow> grant_change \<Rightarrow> bool" where
  "valid_change st ch \<longleftrightarrow> principal_exists (gc_principal ch) st = Inr True \<and>
     (\<forall>a \<in> set (gc_add ch) \<union> set (gc_remove ch). is_known_privilege (normalize_privilege a))"

lemma check_privileges_run:
  "(\<forall>a \<in> set as. is_known_privilege (normalize_privilege a)) \<and> check_privileges as cs = (Inr (), cs) \<or>
   (\<exists>e. check_privileges as cs = (Inl e, cs))"
  by (induction as) (auto simp: h_basic)

lemma check_change_run:
  "valid_change (cs_app cs) ch \<and> check_change ch cs = (Inr (), cs) \<or> (\<exists>e. check_change ch cs = (Inl e, cs))"
proof (cases "principal_exists (gc_principal ch) (cs_app cs)")
  case (Inl e)
  then show ?thesis by (simp add: check_change_def h_then_def cm_simps)
next
  case (Inr ok)
  then show ?thesis
    using check_privileges_run [of "gc_add ch @ gc_remove ch" cs]
    by (auto simp: check_change_def h_then_def cm_simps h_basic valid_change_def)
qed

lemma check_changes_run:
  "(\<forall>ch \<in> set chs. valid_change (cs_app cs) ch) \<and> h_each check_change chs cs = (Inr (), cs) \<or>
   (\<exists>e. h_each check_change chs cs = (Inl e, cs))"
proof (induction chs)
  case (Cons ch chs)
  then show ?case using check_change_run [of cs ch] by (auto simp: h_then_def)
qed (simp add: h_basic)

text \<open>What a list of changes makes of the privileges of one principal.\<close>

definition changed :: "string \<Rightarrow> grant_change \<Rightarrow> string set \<Rightarrow> string set" where
  "changed w ch P =
     (if eq_ignore_case w (gc_principal ch)
      then {q \<in> P \<union> normalize_privilege ` set (gc_add ch). \<not> removes (gc_remove ch) q} else P)"

lemma same_name: "eq_ignore_case w who \<Longrightarrow> privs_of w as = privs_of who as"
  by (simp add: privs_of_def eq_ignore_case_def)

lemma changed_by:
  assumes d: "distinct_principals (grants_for sec n st)"
    and known: "\<forall>a \<in> set (gc_add ch). is_known_privilege (normalize_privilege a)"
    and run: "change_grants now sec n (gc_principal ch) (gc_add ch) (gc_remove ch) st = (r, st')"
  shows "r = Inr (grants_for sec n st') \<and> distinct_principals (grants_for sec n st') \<and>
    (\<forall>w. privs_of w (grants_for sec n st') = changed w ch (privs_of w (grants_for sec n st))) \<and>
    (\<forall>s' n'. (s', n') \<noteq> (sec, n) \<longrightarrow> grants_for s' n' st' = grants_for s' n' st)"
proof (cases r)
  case (Inl e)
  then show ?thesis using change_grants_effect [OF d run] known by auto
next
  case (Inr as)
  have "privs_of w (grants_for sec n st') = changed w ch (privs_of w (grants_for sec n st))" for w
    using change_grants_effect [OF d run] Inr same_name [of w "gc_principal ch"] by (auto simp: changed_def)
  then show ?thesis using change_grants_effect [OF d run] Inr by auto
qed

lemma apply_changes_run:
  assumes "distinct_principals (grants_for sec n (cs_app cs))"
    and "\<forall>ch \<in> set chs. \<forall>a \<in> set (gc_add ch). is_known_privilege (normalize_privilege a)"
  shows "\<exists>out cs'. apply_changes sec n chs out0 cs = (Inr out, cs') \<and>
    out = (if chs = [] then out0 else grants_for sec n (cs_app cs')) \<and>
    (\<forall>w. privs_of w (grants_for sec n (cs_app cs')) = fold (changed w) chs (privs_of w (grants_for sec n (cs_app cs)))) \<and>
    (\<forall>s' n'. (s', n') \<noteq> (sec, n) \<longrightarrow> grants_for s' n' (cs_app cs') = grants_for s' n' (cs_app cs))"
  using assms
proof (induction chs arbitrary: cs out0)
  case Nil
  then show ?case by (simp add: h_basic)
next
  case (Cons ch chs)
  obtain r st' where run: "change_grants (cs_clock cs (cs_tick cs)) sec n (gc_principal ch) (gc_add ch) (gc_remove ch) (cs_app cs) = (r, st')"
    by (rule prod.exhaust)
  have eff: "r = Inr (grants_for sec n st')" "distinct_principals (grants_for sec n st')"
    "privs_of w (grants_for sec n st') = changed w ch (privs_of w (grants_for sec n (cs_app cs)))"
    "(s', n') \<noteq> (sec, n) \<Longrightarrow> grants_for s' n' st' = grants_for s' n' (cs_app cs)" for w s' n'
    using changed_by [OF Cons.prems(1) _ run] Cons.prems(2) by simp_all
  let ?cs1 = "cs\<lparr>cs_tick := Suc (cs_tick cs), cs_app := st'\<rparr>"
  have step: "apply_changes sec n (ch # chs) out0 cs = apply_changes sec n chs (grants_for sec n st') ?cs1"
    by (simp add: h_then_def cm_simps c_app_def run eff(1))
  obtain out cs' where ih: "apply_changes sec n chs (grants_for sec n st') ?cs1 = (Inr out, cs')"
    "out = (if chs = [] then grants_for sec n st' else grants_for sec n (cs_app cs'))"
    "\<forall>w. privs_of w (grants_for sec n (cs_app cs')) = fold (changed w) chs (privs_of w (grants_for sec n st'))"
    "\<forall>s' n'. (s', n') \<noteq> (sec, n) \<longrightarrow> grants_for s' n' (cs_app cs') = grants_for s' n' st'"
    using Cons.IH [of ?cs1 "grants_for sec n st'"] eff(2) Cons.prems(2) by auto
  have "chs = [] \<Longrightarrow> cs_app cs' = st'" using ih(1) by (auto simp: h_basic)
  with ih(2) have out: "out = grants_for sec n (cs_app cs')" by auto
  show ?case
    unfolding step by (intro exI [of _ out] exI [of _ cs']) (use ih(1,3,4) out eff(3,4) in auto)
qed

text \<open>C26: An update of grants is all or nothing: a refused update changes no document; an accepted one
  names existing principals only and leaves, for every principal and in the order of the changes,
  exactly the old and the added privileges less the removed ones, and every other securable's grants
  as they were. It answers with the stored assignments, but with none for an empty list of changes.\<close>

theorem grant_update_exact:
  assumes d: "distinct_principals (grants_for sec n (cs_app cs))"
    and run: "uc_update_grants p sec n chs cs = (r, cs')"
  shows "case r of
      Inl e \<Rightarrow> cs_app cs' = cs_app cs
    | Inr v \<Rightarrow>
        (\<forall>ch \<in> set chs. principal_exists (gc_principal ch) (cs_app cs) = Inr True) \<and>
        (\<forall>w. privs_of w (grants_for sec n (cs_app cs')) = fold (changed w) chs (privs_of w (grants_for sec n (cs_app cs)))) \<and>
        (\<forall>s' n'. (s', n') \<noteq> (sec, n) \<longrightarrow> grants_for s' n' (cs_app cs') = grants_for s' n' (cs_app cs)) \<and>
        v = assignments_json (if chs = [] then [] else grants_for sec n (cs_app cs'))"
proof -
  let ?guard = "\<lambda>az. if sec = Metastore
      then (if p_is_admin p then h_ret () else h_fail (PermissionDenied ''Only metastore admins can grant on the metastore.''))
      else h_then (c_az (az_require_owner sec n) az) (\<lambda>_. h_ret ())"
  have guard: "?guard (az_new (cs_app cs) p) cs = (Inr (), cs) \<or> (\<exists>e. ?guard (az_new (cs_app cs) p) cs = (Inl e, cs))"
    by (rule c_az_answer [where cs = cs and p = p, OF az_ok_new answers_require_owner [where sec = sec and n = n]])
      (auto simp: h_basic h_then_def)
  have unfold: "uc_update_grants p sec n chs cs =
     (if \<not> uc_exists sec n (cs_app cs) then h_fail (NotFound (api_type sec @ '' '' @ quoted n @ '' does not exist.'')) cs
      else h_then (?guard (az_new (cs_app cs) p)) (\<lambda>_. h_then (h_each check_change chs) (\<lambda>_.
             h_then (apply_changes sec n chs []) (\<lambda>out. h_ret (assignments_json out)))) cs)"
    unfolding uc_update_grants_def by (simp add: h_then_def cm_simps)
  obtain g :: "unit cm" where g: "g cs = (Inr (), cs) \<or> (\<exists>e. g cs = (Inl e, cs))"
    and eq: "uc_update_grants p sec n chs cs =
     (if \<not> uc_exists sec n (cs_app cs) then h_fail (NotFound (api_type sec @ '' '' @ quoted n @ '' does not exist.'')) cs
      else h_then g (\<lambda>_. h_then (h_each check_change chs) (\<lambda>_.
             h_then (apply_changes sec n chs []) (\<lambda>out. h_ret (assignments_json out)))) cs)"
    using guard unfold by blast
  note step = h_then_step [where m = g] h_then_step [where m = "h_each check_change chs"]
    h_then_stop [where m = g] h_then_stop [where m = "h_each check_change chs"]
  show ?thesis
  proof (cases "uc_exists sec n (cs_app cs) \<and> g cs = (Inr (), cs) \<and> h_each check_change chs cs = (Inr (), cs)")
    case False
    then have "(\<exists>e. uc_update_grants p sec n chs cs = (Inl e, cs))"
      unfolding eq using g check_changes_run [of chs cs] by (auto simp: h_basic step)
    then show ?thesis using run by auto
  next
    case True
    then have valid: "\<forall>ch \<in> set chs. valid_change (cs_app cs) ch" using check_changes_run [of chs cs] by auto
    then obtain out cs'' where a: "apply_changes sec n chs [] cs = (Inr out, cs'')"
      "out = (if chs = [] then [] else grants_for sec n (cs_app cs''))"
      "\<forall>w. privs_of w (grants_for sec n (cs_app cs'')) = fold (changed w) chs (privs_of w (grants_for sec n (cs_app cs)))"
      "\<forall>s' n'. (s', n') \<noteq> (sec, n) \<longrightarrow> grants_for s' n' (cs_app cs'') = grants_for s' n' (cs_app cs)"
      using apply_changes_run [OF d, of chs "[]"] by (auto simp: valid_change_def)
    have "r = Inr (assignments_json out)" "cs' = cs''"
      using run True a(1) by (simp_all add: eq step h_then_step [where m = "apply_changes sec n chs []", OF a(1)] h_basic)
    with a valid show ?thesis by (simp add: valid_change_def)
  qed
qed

end
