(* ===== verification/Uc_Invariant.thy ===== *)
theory Uc_Invariant
  imports Uc_GrantUpdate
begin

text \<open>
  The shape of the metastore: a catalog, schema, table, volume, function or model is stored under
  the id and name its full name gives, below the parent its full name gives, in a document that
  carries that full name. Every endpoint keeps this.
\<close>

section \<open>Full names\<close>

definition dots :: "string \<Rightarrow> nat" where
  "dots s = count_list s (CHR ''.'')"

lemma dots_append [simp]: "dots (a @ b) = dots a + dots b"
  by (simp add: dots_def)

lemma dots_Cons [simp]: "dots (c # s) = (if c = CHR ''.'' then Suc (dots s) else dots s)"
  by (simp add: dots_def)

lemma dots_Nil [simp]: "dots [] = 0"
  by (simp add: dots_def)

lemma dots_0: "dots s = 0 \<longleftrightarrow> CHR ''.'' \<notin> set s"
  by (simp add: dots_def count_list_0_iff)

lemma dots_ok_name: "ok_name n \<Longrightarrow> dots n = 0"
  by (auto simp: dots_0 ok_name_def list_all_iff)

lemma dots_to_lower: "dots (to_lower s) = dots s"
proof -
  have "lower_char c = CHR ''.'' \<longleftrightarrow> c = CHR ''.''" for c
    by (cases c) (auto simp: lower_char_def)
  then show ?thesis by (induction s) (auto simp: to_lower_def)
qed

lemma split_dots: "length (split_on (CHR ''.'') s) = Suc (dots s)"
  by (induction s) (auto split: list.split)

lemma rsplit_append: "CHR ''.'' \<notin> set b \<Longrightarrow> rsplit_once (CHR ''.'') (a @ CHR ''.'' # b) = Some (a, b)"
  using split_once_append [of "CHR ''.''" "rev b" "rev a"] by (simp add: rsplit_once_def)

lemma rsplit_Some: "rsplit_once (CHR ''.'') s = Some (a, b) \<Longrightarrow> s = a @ CHR ''.'' # b \<and> CHR ''.'' \<notin> set b"
  by (auto simp: rsplit_once_def split_once_Some) (metis append_assoc append_Cons append_Nil rev_append rev_rev_ident rev_singleton_conv)

lemma rsplit_None: "dots s = 0 \<Longrightarrow> rsplit_once (CHR ''.'') s = None"
  by (simp add: rsplit_once_def split_once_def dots_0)

definition parent_of :: "string \<Rightarrow> string option" where
  "parent_of full = map_option fst (rsplit_once (CHR ''.'') full)"

lemma parent_of_append: "dots b = 0 \<Longrightarrow> parent_of (a @ CHR ''.'' # b) = Some a"
  by (simp add: parent_of_def dots_0 rsplit_append)

lemma parent_of_plain: "dots s = 0 \<Longrightarrow> parent_of s = None"
  by (simp add: parent_of_def rsplit_None)

lemma last_dot: "0 < dots s \<Longrightarrow> \<exists>a b. s = a @ CHR ''.'' # b \<and> dots b = 0"
proof (induction s)
  case (Cons c s)
  show ?case
  proof (cases "dots s = 0")
    case True
    with Cons.prems show ?thesis by (intro exI [of _ "[]"] exI [of _ s]) (auto split: if_splits)
  next
    case False
    then obtain a b where "s = a @ CHR ''.'' # b" "dots b = 0" using Cons.IH by auto
    then show ?thesis by (intro exI [of _ "c # a"] exI [of _ b]) simp
  qed
qed simp

lemma parent_of_new:
  "parent_of (a @ CHR ''.'' # b) = Some (if dots b = 0 then a else a @ CHR ''.'' # the (parent_of b))"
proof (cases "dots b = 0")
  case False
  then obtain x y where b: "b = x @ CHR ''.'' # y" "dots y = 0" using last_dot by blast
  then have "parent_of ((a @ CHR ''.'' # x) @ CHR ''.'' # y) = Some (a @ CHR ''.'' # x)" by (intro parent_of_append)
  with b show ?thesis using parent_of_append [of y x] by simp
qed (simp add: parent_of_append)

section \<open>Documents in their place\<close>

definition level :: "string \<Rightarrow> nat option" where
  "level kind =
     (if kind = KIND_CATALOG then Some 0 else if kind = KIND_SCHEMA then Some 1
      else if kind \<in> {KIND_TABLE, KIND_VOLUME, KIND_FUNCTION, KIND_MODEL} then Some 2 else None)"

lemma level_kinds [simp]:
  "level KIND_CATALOG = Some 0" "level KIND_SCHEMA = Some 1" "level KIND_TABLE = Some 2" "level KIND_VOLUME = Some 2"
  "level KIND_FUNCTION = Some 2" "level KIND_MODEL = Some 2" "level KIND_EXT_LOCATION = None"
  "level KIND_STORAGE_CRED = None" "level KIND_CONNECTION = None" "level KIND_GRANTS = None"
  by (simp_all add: level_def uc_kind_defs KIND_MODEL_def)

definition carries :: "json \<Rightarrow> string \<Rightarrow> bool" where
  "carries v full \<longleftrightarrow> j_get v ''full_name'' = JStr full"

definition placed :: "string \<Rightarrow> string \<Rightarrow> string option \<Rightarrow> json \<Rightarrow> bool" where
  "placed kind full parent v \<longleftrightarrow>
     (case level kind of None \<Rightarrow> True | Some k \<Rightarrow> dots full = k \<and> parent = parent_of full \<and> carries v full)"

definition located :: "doc \<Rightarrow> bool" where
  "located d \<longleftrightarrow> (level (d_kind d) \<noteq> None \<longrightarrow> d_ws d = workspace_id \<and>
     (\<exists>full. d_id d = uc_doc_id (d_kind d) full \<and> d_name d = Some full \<and> placed (d_kind d) full (d_parent d) (d_data d)))"

definition metastore_ok :: "app_state \<Rightarrow> bool" where
  "metastore_ok st \<longleftrightarrow> store_inv (as_store st) \<and> (\<forall>d \<in> set (st_docs (as_store st)). located d)"

abbreviation meta_ok :: "cat_state \<Rightarrow> bool" where
  "meta_ok cs \<equiv> metastore_ok (cs_app cs)"

lemma uc_doc_id_inj [simp]: "uc_doc_id kind a = uc_doc_id kind b \<longleftrightarrow> a = b"
  by (simp add: uc_doc_id_def)

lemma located_get:
  assumes "metastore_ok st" and "store_get kind (uc_doc_id kind full) (as_store st) = Some d" and "level kind \<noteq> None"
  shows "d_ws d = workspace_id" "d_name d = Some full" "placed kind full (d_parent d) (d_data d)"
proof -
  have d: "d \<in> set (st_docs (as_store st))" "d_kind d = kind" "d_id d = uc_doc_id kind full"
    using assms(1,2) by (auto simp: metastore_ok_def store_get_iff)
  with assms(1) have "located d" by (simp add: metastore_ok_def)
  with d assms(3) show "d_ws d = workspace_id" "d_name d = Some full" "placed kind full (d_parent d) (d_data d)"
    by (auto simp: located_def)
qed

section \<open>What keeps the shape\<close>

lemma ok_subset:
  assumes "metastore_ok st" and "store_inv s"
    and "\<And>d. d \<in> set (st_docs s) \<Longrightarrow> d \<in> set (st_docs (as_store st)) \<or> located d"
  shows "metastore_ok (store_of s st)"
  using assms by (auto simp: metastore_ok_def)

lemma ok_insert:
  assumes "metastore_ok st" and "placed kind full parent v"
  shows "metastore_ok (store_of (snd (store_insert now kind workspace_id (uc_doc_id kind full) parent (Some full) v (as_store st))) st)"
proof (rule ok_subset [OF assms(1)])
  show "store_inv (snd (store_insert now kind workspace_id (uc_doc_id kind full) parent (Some full) v (as_store st)))"
    using assms(1) by (simp add: metastore_ok_def inv_insert)
qed (use assms(2) in \<open>auto simp: store_insert_def Let_def located_def split: if_splits\<close>)

lemma ok_put:
  assumes "metastore_ok st" and "placed kind full parent v"
  shows "metastore_ok (store_of (snd (store_put now kind (uc_doc_id kind full) parent (Some full) v (as_store st))) st)"
proof (rule ok_subset [OF assms(1)])
  show "store_inv (snd (store_put now kind (uc_doc_id kind full) parent (Some full) v (as_store st)))"
    using assms(1) by (simp add: metastore_ok_def inv_put)
next
  fix d assume d: "d \<in> set (st_docs (snd (store_put now kind (uc_doc_id kind full) parent (Some full) v (as_store st))))"
  then consider "d \<in> set (st_docs (as_store st))"
    | x where "x \<in> set (st_docs (as_store st))" "is_key kind (uc_doc_id kind full) x"
      "d = x\<lparr>d_data := v, d_parent := parent, d_name := Some full, d_updated_at := now\<rparr>"
    by (auto simp: store_put_def split: if_splits)
  then show "d \<in> set (st_docs (as_store st)) \<or> located d"
  proof cases
    case 2
    moreover have "located x" using 2(1) assms(1) by (simp add: metastore_ok_def)
    ultimately have "located d" using assms(2) by (auto simp: located_def is_key_def)
    then show ?thesis ..
  qed simp
qed

lemma ok_upsert:
  assumes "metastore_ok st" and "placed kind full parent v"
  shows "metastore_ok (store_of (snd (store_upsert now kind workspace_id (uc_doc_id kind full) parent (Some full) v (as_store st))) st)"
  using ok_insert [OF assms] ok_put [OF assms] by (simp add: upsert_eq)

lemma ok_filter:
  assumes "metastore_ok st" and "st_docs s = filter P (st_docs (as_store st))" and "st_kv s = st_kv (as_store st)"
  shows "metastore_ok (store_of s st)"
proof (rule ok_subset [OF assms(1)])
  have "store_inv ((as_store st)\<lparr>st_docs := filter P (st_docs (as_store st))\<rparr>)"
    using assms(1) by (simp add: metastore_ok_def inv_filter)
  then show "store_inv s" using assms(2,3) by (simp add: store_inv_def)
qed (use assms(2) in auto)

lemma ok_delete: "metastore_ok st \<Longrightarrow> metastore_ok (store_of (snd (store_delete kind i (as_store st))) st)"
  by (rule ok_filter [where P = "\<lambda>d. \<not> is_key kind i d"]) (simp_all add: store_delete_def)

lemma ok_delete_children: "metastore_ok st \<Longrightarrow> metastore_ok (store_of (snd (delete_children kind p (as_store st))) st)"
  by (rule ok_filter [where P = "\<lambda>d. \<not> (d_kind d = kind \<and> d_parent d = Some p)"]) (simp_all add: delete_children_def Let_def)

lemma ok_grants_upsert:
  "metastore_ok st \<Longrightarrow> metastore_ok (store_of (snd (store_upsert now KIND_GRANTS ws i p n v (as_store st))) st)"
proof (rule ok_subset)
  assume ok: "metastore_ok st"
  then show "store_inv (snd (store_upsert now KIND_GRANTS ws i p n v (as_store st)))"
    by (simp add: metastore_ok_def inv_upsert)
  fix d assume "d \<in> set (st_docs (snd (store_upsert now KIND_GRANTS ws i p n v (as_store st))))"
  then show "d \<in> set (st_docs (as_store st)) \<or> located d"
    by (auto simp: upsert_eq store_put_def store_insert_def Let_def located_def is_key_def split: if_splits)
qed

lemma ok_fold_delete: "metastore_ok st \<Longrightarrow> metastore_ok (store_of (fold (\<lambda>(k, i) s. snd (store_delete k i s)) ks (as_store st)) st)"
proof (induction ks arbitrary: st)
  case Nil
  then show ?case by simp
next
  case (Cons ki ks)
  obtain k i where ki: "ki = (k, i)" by (cases ki)
  show ?case using Cons.IH [OF ok_delete [OF Cons.prems, of k i]] by (simp add: ki)
qed

lemma ok_drop_grants: "metastore_ok st \<Longrightarrow> metastore_ok (drop_grants sec n st)"
proof -
  assume ok: "metastore_ok st"
  let ?st1 = "store_of (snd (store_delete KIND_GRANTS (grants_doc_id sec n) (as_store st))) st"
  have ok1: "metastore_ok ?st1" by (rule ok_delete [OF ok])
  show ?thesis
  proof (cases "sec = Catalog \<or> sec = Schema")
    case True
    then have "drop_grants sec n st =
        store_of (fold (\<lambda>(k, i) s. snd (store_delete k i s)) (concat (map (drops n) (all_grants ?st1))) (as_store ?st1)) ?st1"
      unfolding drop_grants_def Let_def drop_fold by simp
    with ok_fold_delete [OF ok1] show ?thesis by simp
  next
    case False
    with ok1 show ?thesis by (simp add: drop_grants_def Let_def)
  qed
qed

lemma ok_move_grants: "metastore_ok st \<Longrightarrow> metastore_ok (snd (move_grants now sec from to st))"
  using ok_grants_upsert [OF ok_delete, of st] by (simp add: move_grants_def Let_def upsert_case)

lemma ok_change_grants: "metastore_ok st \<Longrightarrow> metastore_ok (snd (change_grants now sec n who add remove st))"
  by (auto simp: change_grants_entry Let_def ok_delete ok_grants_upsert split: prod.split sum.split)

section \<open>Steps\<close>

named_theorems kept \<open>steps and sequences that keep the shape\<close>

lemmas [kept] = keeps_rules

lemma kept_stop:
  "keeps meta_ok c_now cs" "keeps meta_ok c_uuid cs" "keeps meta_ok (c_event e) cs" "keeps meta_ok (c_lift r) cs"
  "keeps meta_ok (c_ask f) cs" "keeps meta_ok (c_delete k i) cs" "keeps meta_ok (c_delete_children k n) cs"
  "keeps meta_ok (c_drop_grants sec n) cs" "keeps meta_ok (c_move_grants sec from to) cs"
  "keeps meta_ok (c_app (change_grants now sec n who add remove)) cs"
  "keeps meta_ok (broadcast_sql q) cs" "keeps meta_ok engine_answer cs"
  by (auto intro!: keeps_stop simp: cm_simps c_event_def c_delete_def c_delete_children_def c_drop_grants_def c_move_grants_def
      c_store_def c_app_def h_then_def broadcast_sql_def engine_answer_def ok_drop_grants
      intro: ok_delete ok_delete_children split: prod.splits dest: arg_cong [where f = snd])
    (metis ok_delete ok_delete_children ok_move_grants ok_change_grants snd_conv)+

lemma kept_kv: "keeps meta_ok (c_store (\<lambda>s. (r, kv_set k v s))) cs" "keeps meta_ok (c_store (\<lambda>s. (r, kv_delete k s))) cs"
  by (auto intro!: keeps_stop ok_subset simp: c_store_def c_app_def metastore_ok_def inv_kv_set inv_kv_delete)

text \<open>A step that leaves the application state alone hands its facts on.\<close>

lemma keeps_quiet:
  assumes "moves_within same_meta m" and "\<And>x cs'. cs_app cs' = cs_app cs \<Longrightarrow> meta_ok cs \<Longrightarrow> keeps meta_ok (f x) cs'"
  shows "keeps meta_ok (h_then m f) cs"
proof (rule keeps_then)
  have same: "cs_app (snd (m cs)) = cs_app cs" using assms(1) by (simp add: moves_within_def same_meta_def)
  then show "keeps meta_ok m cs" by (simp add: keeps_def)
  fix x s' assume "m cs = (Inr x, s')" "meta_ok cs"
  with same assms(2) show "keeps meta_ok (f x) s'" by simp
qed

lemma quiet_reads: "reads m \<Longrightarrow> moves_within same_meta m"
  by (rule meta.within_reads)

lemmas [kept] = keeps_quiet [OF quiet_stamp(1)] keeps_quiet [OF quiet_stamp(2)]

lemma kept_lift [kept]:
  "(\<And>x. r = Inr x \<Longrightarrow> meta_ok cs \<Longrightarrow> keeps meta_ok (f x) cs) \<Longrightarrow> keeps meta_ok (h_then (c_lift r) f) cs"
  by (rule keeps_read) (auto simp: cm_simps)

lemma kept_reads [kept]:
  "(\<And>x. meta_ok cs \<Longrightarrow> keeps meta_ok (f1 x) cs) \<Longrightarrow> keeps meta_ok (h_then (c_authorizer p) f1) cs"
  "(\<And>x. meta_ok cs \<Longrightarrow> keeps meta_ok (f2 x) cs) \<Longrightarrow> keeps meta_ok (h_then (c_az g az) f2) cs"
  "(\<And>x. meta_ok cs \<Longrightarrow> keeps meta_ok (f3 x) cs) \<Longrightarrow> keeps meta_ok (h_then (c_can h az) f3) cs"
  "(\<And>x. meta_ok cs \<Longrightarrow> keeps meta_ok (f4 x) cs) \<Longrightarrow> keeps meta_ok (h_then (uc_absent k n msg) f4) cs"
  "(\<And>x. meta_ok cs \<Longrightarrow> keeps meta_ok (f5 x) cs) \<Longrightarrow> keeps meta_ok (h_then (c_count k n) f5) cs"
  "(\<And>x. meta_ok cs \<Longrightarrow> keeps meta_ok (f6 x) cs) \<Longrightarrow> keeps meta_ok (h_then (c_ask q) f6) cs"
  by (rule keeps_read; simp)+

lemma kept_list [kept]:
  assumes "\<And>ds. (\<And>d. d \<in> set ds \<Longrightarrow> located d \<and> row_matches (st_dialect (as_store (cs_app cs))) kind workspace_id fl d) \<Longrightarrow>
      keeps meta_ok (f ds) cs"
  shows "keeps meta_ok (h_then (c_list kind fl) f) cs"
proof (rule keeps_read)
  fix ds assume "c_list kind fl cs = (Inr ds, cs)" and ok: "meta_ok cs"
  then have "ds = store_list kind workspace_id fl (as_store (cs_app cs))" by (simp add: c_list_def c_ask_def)
  with set_list_subset [of kind workspace_id fl "as_store (cs_app cs)"] ok show "keeps meta_ok (f ds) cs"
    by (intro assms) (auto simp: metastore_ok_def)
qed simp

lemma dots_of_parts: "split_on (CHR ''.'') s = ps \<Longrightarrow> dots s = length ps - 1"
  using split_dots [of s] by auto

lemma virtual_dots: "uc_virtual kind full st = Some v \<Longrightarrow> level kind = Some k \<Longrightarrow> dots full = k"
  by (auto simp: uc_virtual_def Let_def dest!: dots_of_parts split: list.splits if_splits)

lemma kept_require [kept]:
  assumes "\<And>v. (\<And>k. level kind = Some k \<Longrightarrow> dots full = k) \<Longrightarrow> meta_ok cs \<Longrightarrow> keeps meta_ok (f v) cs"
  shows "keeps meta_ok (h_then (uc_require kind full w) f) cs"
proof (rule keeps_read)
  fix v assume v: "uc_require kind full w cs = (Inr v, cs)" and ok: "meta_ok cs"
  have "dots full = k" if k: "level kind = Some k" for k
  proof (cases "uc_virtual kind full (cs_app cs)")
    case (Some x)
    with k show ?thesis by (simp add: virtual_dots)
  next
    case None
    with v obtain d where "store_get kind (uc_doc_id kind full) (as_store (cs_app cs)) = Some d"
      by (auto simp: uc_require_def h_then_def cm_simps uc_get_def h_basic split: option.splits)
    with located_get(3) [OF ok this] k show ?thesis by (simp add: placed_def)
  qed
  with ok show "keeps meta_ok (f v) cs" by (intro assms)
qed simp

lemma kept_insert [kept]: "placed kind full parent v \<Longrightarrow> keeps meta_ok (c_insert kind full parent full v) cs"
  using ok_insert [of "cs_app cs" kind full parent v]
  by (auto intro!: keeps_stop simp: c_insert_def c_store_def c_app_def h_then_def cm_simps h_basic split: prod.splits sum.splits)
    (metis ok_insert snd_conv)+

lemma kept_upsert [kept]: "placed kind full parent v \<Longrightarrow> keeps meta_ok (c_upsert kind full parent full v) cs"
  by (auto intro!: keeps_stop simp: c_upsert_def c_store_def c_app_def h_then_def cm_simps split: prod.splits)
    (metis ok_upsert snd_conv)

lemma kept_after:
  "keeps meta_ok m cs \<Longrightarrow> (\<And>x cs'. meta_ok cs' \<Longrightarrow> keeps meta_ok (f x) cs') \<Longrightarrow> keeps meta_ok (h_then m f) cs"
  by (rule keeps_then)

lemma kept_each: "(\<And>x cs. x \<in> set xs \<Longrightarrow> keeps meta_ok (g x) cs) \<Longrightarrow> keeps meta_ok (h_each g xs) cs"
  by (rule keeps_each)

lemma kept_try: "keeps meta_ok m cs \<Longrightarrow> keeps meta_ok (h_try m) cs"
  by (simp add: keeps_def h_try_def)

lemmas [kept] = kept_stop kept_kv kept_each kept_after [OF kept_each] kept_after [OF kept_insert] kept_after [OF kept_upsert]
  kept_after [OF kept_kv(1)] kept_after [OF kept_kv(2)]
  kept_after [OF kept_stop(3)] kept_after [OF kept_stop(6)] kept_after [OF kept_stop(7)] kept_after [OF kept_stop(8)]
  kept_after [OF kept_stop(9)] kept_after [OF kept_stop(10)] kept_after [OF kept_stop(11)] kept_after [OF kept_stop(12)]

section \<open>The documents the operations write\<close>

lemma carries_obj: "carries (JObj m) full \<longleftrightarrow> map_of m ''full_name'' = Some (JStr full)"
  by (auto simp: carries_def j_get_def split: option.splits)

lemma get_or_insert: "map_of m k = Some v \<Longrightarrow> map_of (or_insert k' x m) k = Some v"
  by (auto simp: map_of_or_insert)

lemma get_insert_other: "map_of m k = Some v \<Longrightarrow> k \<noteq> k' \<Longrightarrow> map_of (bt_insert k' x m) k = Some v"
  by (simp add: bt_get_insert)

lemma get_base_fields [simp]:
  "map_of m k = Some v \<Longrightarrow> k \<noteq> ''updated_at'' \<Longrightarrow> k \<noteq> ''updated_by'' \<Longrightarrow> map_of (base_fields now owner m) k = Some v"
  unfolding base_fields_def by (intro get_or_insert get_insert_other)

lemma get_or_inserts: "map_of m k = Some v \<Longrightarrow> map_of (fold (\<lambda>(k, v). or_insert k v) kvs m) k = Some v"
  by (induction kvs arbitrary: m) (auto simp: get_or_insert)

lemma insert_schema_kept:
  assumes "\<And>c. field m ''catalog_name'' = Some c \<Longrightarrow> dots c = 0"
  shows "keeps meta_ok (uc_insert_schema lib p m) cs"
  unfolding uc_insert_schema_def Let_def
  by (intro kept) (use assms in \<open>auto simp: placed_def parent_of_append dots_ok_name validate_name_def carries_obj
      get_or_insert bt_get_insert split: if_splits\<close>)

lemma create_schema_kept: "keeps meta_ok (uc_create_schema lib p m) cs"
  unfolding uc_create_schema_def Let_def
  by (intro kept insert_schema_kept) auto

lemma flavour_reads [simp]: "reads (catalog_flavour m az)"
  unfolding catalog_flavour_def by (auto intro!: reads_then split: option.split)

lemma flavour_full_name:
  "catalog_flavour m az cs = (Inr (m', k), cs') \<Longrightarrow> map_of m' ''full_name'' = map_of m ''full_name''"
  by (auto simp: catalog_flavour_def h_basic bt_get_insert map_of_or_insert elim!: h_thenE split: option.splits if_splits)

lemma kept_flavour [kept]:
  "(\<And>m' k. map_of m' ''full_name'' = map_of m ''full_name'' \<Longrightarrow> keeps meta_ok (f m' k) cs) \<Longrightarrow>
     keeps meta_ok (h_then (catalog_flavour m az) (\<lambda>(m', k). f m' k)) cs"
  by (rule keeps_read) (auto dest: flavour_full_name)

lemma create_catalog_kept: "keeps meta_ok (uc_create_catalog lib p m) cs"
  unfolding uc_create_catalog_def Let_def
  by (intro kept insert_schema_kept kept_after [OF insert_schema_kept])
    (auto simp: placed_def parent_of_plain dots_ok_name validate_name_def carries_obj field_def
      get_or_insert bt_get_insert split: if_splits)

section \<open>Tables and objects\<close>

lemma register_moves: "keeps meta_ok (register_table_on v) cs"
  unfolding register_table_on_def by (auto intro!: kept split: option.split)

lemma broadcast_kept: "keeps meta_ok (broadcast_table v) cs"
  unfolding broadcast_table_def by (auto intro!: kept kept_after [OF register_moves] split: option.split)

lemma path_kept [kept]:
  "(\<And>x. meta_ok cs \<Longrightarrow> keeps meta_ok (f x) cs) \<Longrightarrow> keeps meta_ok (h_then (require_path_privilege url priv az) f) cs"
proof (rule keeps_read)
  show "reads (require_path_privilege url priv az)"
    unfolding require_path_privilege_def by (auto intro!: reads_then split: option.split)
qed

lemma upsert_table_kept:
  assumes "map_of m ''full_name'' = Some (JStr full)" and "map_of m ''catalog_name'' = Some (JStr c)"
    and "map_of m ''schema_name'' = Some (JStr s)" and "full = c @ ''.'' @ s @ ''.'' @ n" and "dots full = 2" "dots n = 0"
  shows "keeps meta_ok (upsert_table m user) cs"
proof -
  have fields: "field m ''full_name'' = Some full" using assms(1) by (simp add: field_def)
  have parent: "parent_of full = Some (c @ ''.'' @ s)" using parent_of_append [OF assms(6), of "c @ ''.'' @ s"] assms(4) by simp
  show ?thesis
    unfolding upsert_table_def Let_def
    by (intro kept kept_after [OF broadcast_kept])
      (use assms fields parent in \<open>auto simp: placed_def carries_obj get_or_insert get_or_inserts bt_get_insert j_get_def\<close>)
qed

lemma get_normalise: "map_of m k = Some v \<Longrightarrow> k \<noteq> ''columns'' \<Longrightarrow> map_of (normalise_columns m) k = Some v"
  by (simp add: normalise_columns_def map_of_adjust)

lemma field_map: "field m k = Some x \<Longrightarrow> map_of m k = Some (JStr x)"
proof -
  assume "field m k = Some x"
  then obtain v where "map_of m k = Some v" "as_str v = Some x" by (auto simp: field_def bind_eq_Some_conv)
  then show ?thesis by (cases v) auto
qed

lemma table_fields_kept:
  assumes "field m ''catalog_name'' = Some c" and "field m ''schema_name'' = Some s"
    and "dots (c @ ''.'' @ s) = 1" and "dots n = 0"
  shows "keeps meta_ok (upsert_table (table_fields lib c s n tt m) user) cs"
proof (rule upsert_table_kept [OF _ _ _ refl _ assms(4)])
  show "dots (c @ ''.'' @ s @ ''.'' @ n) = 2" using assms(3,4) by simp
  show "map_of (table_fields lib c s n tt m) ''full_name'' = Some (JStr (c @ ''.'' @ s @ ''.'' @ n))"
    "map_of (table_fields lib c s n tt m) ''catalog_name'' = Some (JStr c)"
    "map_of (table_fields lib c s n tt m) ''schema_name'' = Some (JStr s)"
    using field_map [OF assms(1)] field_map [OF assms(2)]
    by (simp_all add: table_fields_def Let_def get_normalise get_or_insert bt_get_insert)
qed

lemma create_table_kept: "keeps meta_ok (uc_create_table lib p m) cs"
  unfolding uc_create_table_def Let_def
  by (intro kept table_fields_kept) (auto simp: dots_ok_name validate_name_def split: if_splits)

lemma object_fields_name:
  assumes "map_of m ''full_name'' = Some v"
  shows "yields (\<lambda>m'. map_of m' ''full_name'' = Some v) (object_fields lib kind c s n m az)"
  unfolding object_fields_def volume_fields_def function_fields_def Let_def
  by (intro yields_rules get_or_inserts get_insert_other get_or_insert assms) simp_all

lemma fields_quiet: "moves_within same_meta (object_fields lib kind c s n m az)"
proof -
  have path: "reads (require_path_privilege url priv az)" for url priv
    unfolding require_path_privilege_def by (auto intro!: reads_then split: option.split)
  have "moves_within same_meta (volume_fields lib c s n m az)"
    unfolding volume_fields_def Let_def
    by (intro meta.within_then quiet_stamp) (auto intro!: meta.within_reads reads_then path)
  moreover have "moves_within same_meta (function_fields lib n m)"
    unfolding function_fields_def Let_def
    by (intro meta.within_then quiet_stamp) (auto intro!: meta.within_reads split: option.split)
  ultimately show ?thesis by (simp add: object_fields_def meta.within_basic)
qed

lemma kept_object_fields [kept]:
  assumes m: "map_of m ''full_name'' = Some v"
    and f: "\<And>m' cs'. map_of m' ''full_name'' = Some v \<Longrightarrow> keeps meta_ok (f m') cs'"
  shows "keeps meta_ok (h_then (object_fields lib kind c s n m az) f) cs"
proof (rule keeps_then)
  have "cs_app (snd (object_fields lib kind c s n m az cs)) = cs_app cs"
    using fields_quiet by (simp add: moves_within_def same_meta_def)
  then show "keeps meta_ok (object_fields lib kind c s n m az) cs" by (simp add: keeps_def)
  fix m' cs' assume "object_fields lib kind c s n m az cs = (Inr m', cs')"
  then have "map_of m' ''full_name'' = Some v"
    using yieldsD [OF object_fields_name [OF m]] by blast
  then show "keeps meta_ok (f m') cs'" by (rule f)
qed

lemma create_in_schema_kept:
  assumes "create_privilege kind = (sec, priv)" and "level kind = Some 2"
  shows "keeps meta_ok (uc_create_in_schema lib p kind label m) cs"
proof -
  have at: "placed kind (c @ ''.'' @ s @ ''.'' @ n) (Some (c @ ''.'' @ s)) (JObj (base_fields now owner o2))"
    if "dots (c @ ''.'' @ s) = 1" "dots n = 0" "map_of o2 ''full_name'' = Some (JStr (c @ ''.'' @ s @ ''.'' @ n))"
    for c s n o2 now owner
    using that parent_of_append [OF that(2), of "c @ ''.'' @ s"] assms(2) by (simp add: placed_def carries_obj)
  show ?thesis
    unfolding uc_create_in_schema_def Let_def assms(1) prod.case
    by (intro kept at) (auto simp: bt_get_insert dots_ok_name validate_name_def split: if_splits)
qed

section \<open>Securables at the top level, deletion, grants\<close>

lemma placed_named [simp]: "level kind = None \<Longrightarrow> placed kind full parent v"
  by (simp add: placed_def)

lemma create_named_kept: "level kind = None \<Longrightarrow> keeps meta_ok (uc_create_named lib p kind sec label m) cs"
  unfolding uc_create_named_def external_location_fields_def connection_fields_def Let_def
  by (intro kept) (auto intro!: kept split: option.split json.split)

lemma remove_table_kept: "keeps meta_ok (uc_remove_table_doc lib v) cs"
  unfolding uc_remove_table_doc_def Let_def by (intro kept)

lemma delete_contents_kept: "keeps meta_ok (uc_delete_schema_contents lib full) cs"
  unfolding uc_delete_schema_contents_def drop_children_def
  by (intro kept remove_table_kept kept_after [OF kept_each [OF remove_table_kept]])

lemma delete_kept:
  "keeps meta_ok (uc_delete_catalog lib p n force) cs" "keeps meta_ok (uc_delete_schema lib p n force) cs"
  "keeps meta_ok (uc_delete_table lib p n) cs" "keeps meta_ok (uc_delete_in_schema p kind sec n what) cs"
  "keeps meta_ok (uc_delete_named p kind sec n what force) cs"
  unfolding uc_delete_catalog_def uc_delete_schema_def uc_delete_table_def uc_delete_in_schema_def uc_delete_named_def
  by (intro kept remove_table_kept kept_after [OF delete_contents_kept])+

lemma check_change_reads [simp]: "reads (check_change ch)"
  unfolding reads_def using check_change_run by (metis snd_conv)

lemma apply_changes_kept: "keeps meta_ok (apply_changes sec n chs out) cs"
  by (induction chs arbitrary: out cs) (auto intro!: kept)

lemma update_grants_kept: "keeps meta_ok (uc_update_grants p sec n chs) cs"
proof -
  have "keeps meta_ok (check_change ch) cs" for ch cs
    using check_change_reads [of ch] by (simp add: keeps_def reads_def)
  then show ?thesis
    unfolding uc_update_grants_def by (intro kept kept_after [OF kept_each] kept_after [OF apply_changes_kept])
qed

section \<open>Patch and rename\<close>

lemma ok_put_unlevelled:
  assumes "metastore_ok st" and "level kind = None"
  shows "metastore_ok (store_of (snd (store_put now kind i parent n v (as_store st))) st)"
proof (rule ok_subset [OF assms(1)])
  show "store_inv (snd (store_put now kind i parent n v (as_store st)))"
    using assms(1) by (simp add: metastore_ok_def inv_put)
qed (use assms(2) in \<open>auto simp: store_put_def located_def is_key_def split: if_splits\<close>)

lemma update_cases:
  obtains (missing) e where "c_update kind full what f cs = (Inl e, cs\<lparr>cs_tick := Suc (Suc (cs_tick cs))\<rparr>)"
      "store_get kind (uc_doc_id kind full) (as_store (cs_app cs)) = None"
  | (found) d where "store_get kind (uc_doc_id kind full) (as_store (cs_app cs)) = Some d"
      "c_update kind full what f cs = (Inr (f (d_data d)), cs\<lparr>cs_tick := Suc (Suc (cs_tick cs)),
         cs_app := store_of (snd (store_put (cs_clock cs (cs_tick cs)) kind (uc_doc_id kind full) (d_parent d) (d_name d) (f (d_data d))
           (as_store (cs_app cs)))) (cs_app cs)\<rparr>)"
proof (cases "store_get kind (uc_doc_id kind full) (as_store (cs_app cs))")
  case None
  then show thesis
    by (intro missing) (simp_all add: c_update_def h_then_def cm_simps c_store_def c_app_def store_update_def store_require_def)
next
  case (Some d)
  then have "list_ex (is_key kind (uc_doc_id kind full)) (st_docs (as_store (cs_app cs)))"
    using store_get_None by (metis option.distinct(1))
  then show thesis
    using Some by (intro found [OF Some])
      (simp add: c_update_def h_then_def cm_simps c_store_def c_app_def store_update_def store_require_def store_put_def h_basic)
qed

lemma kept_update:
  assumes "level kind \<noteq> None \<Longrightarrow> (\<And>v. carries v full \<Longrightarrow> carries (f v) full)"
    and "\<And>data cs'. (\<And>k. level kind = Some k \<Longrightarrow> dots full = k \<and> carries data full) \<Longrightarrow> keeps meta_ok (g data) cs'"
  shows "keeps meta_ok (h_then (c_update kind full what f) g) cs"
proof (cases rule: update_cases [of kind full what f cs])
  case (missing e)
  then show ?thesis by (simp add: keeps_def h_then_stop [where m = "c_update kind full what f"])
next
  case (found d)
  let ?st = "store_of (snd (store_put (cs_clock cs (cs_tick cs)) kind (uc_doc_id kind full) (d_parent d) (d_name d) (f (d_data d))
           (as_store (cs_app cs)))) (cs_app cs)"
  have step: "h_then (c_update kind full what f) g cs = g (f (d_data d)) (cs\<lparr>cs_tick := Suc (Suc (cs_tick cs)), cs_app := ?st\<rparr>)"
    using found(2) by (rule h_then_step)
  have "metastore_ok ?st \<and> (\<forall>k. level kind = Some k \<longrightarrow> dots full = k \<and> carries (f (d_data d)) full)" if ok: "meta_ok cs"
  proof (cases "level kind")
    case None
    with ok_put_unlevelled [OF ok None] show ?thesis by simp
  next
    case (Some k)
    note at = located_get [OF ok found(1)]
    have p: "placed kind full (d_parent d) (f (d_data d))" using at(3) Some assms(1) by (simp add: placed_def)
    have "d_name d = Some full" using at(2) Some by simp
    with ok_put [OF ok p] p Some show ?thesis by (simp add: placed_def)
  qed
  then show ?thesis using assms(2) unfolding keeps_def step by auto
qed

lemma patch_full_name:
  assumes "''full_name'' \<notin> set allowed" and "''*'' \<notin> set allowed"
  shows "map_of (fold (patch_field allowed) kvs m) ''full_name'' = map_of m ''full_name''"
proof (induction kvs arbitrary: m)
  case (Cons kv kvs)
  have "map_of (patch_field allowed kv m) ''full_name'' = map_of m ''full_name''"
    using assms by (auto simp: patch_field_def Let_def bt_get_insert split: prod.split option.split json.split bool.split)
  with Cons show ?case by simp
qed simp

lemma carries_cases: "carries v full \<Longrightarrow> \<exists>m. v = JObj m \<and> map_of m ''full_name'' = Some (JStr full)"
  by (cases v) (auto simp: carries_def j_get_def split: option.splits)

lemma merge_patch_carries:
  assumes "''full_name'' \<notin> set allowed" and "''*'' \<notin> set allowed" and "carries v full"
  shows "carries (merge_patch now user allowed m v) full"
  using carries_cases [OF assms(3)] by (auto simp: merge_patch_def carries_obj bt_get_insert patch_full_name [OF assms(1,2)])

lemma carries_set: "carries v a \<Longrightarrow> carries (j_set ''full_name'' (JStr b) v) b"
proof -
  assume "carries v a"
  then obtain m where "v = JObj m" by (auto dest: carries_cases)
  then show ?thesis by (simp add: carries_def)
qed

lemma carries_set_other: "carries v a \<Longrightarrow> k \<noteq> ''full_name'' \<Longrightarrow> carries (j_set k x v) a"
proof -
  assume k: "k \<noteq> ''full_name''" and v: "carries v a"
  then obtain m where "v = JObj m" by (auto dest: carries_cases)
  with k v show ?thesis by (simp add: carries_def)
qed

lemma renamed_dots:
  assumes "dots n = 0"
  shows "dots (renamed from n) = dots from" "parent_of (renamed from n) = parent_of from"
proof -
  have "dots (renamed from n) = dots from \<and> parent_of (renamed from n) = parent_of from"
  proof (cases "dots from = 0")
    case True
    with assms show ?thesis by (simp add: renamed_def rsplit_None parent_of_plain)
  next
    case False
    then obtain a b where ab: "from = a @ CHR ''.'' # b" "dots b = 0" using last_dot by blast
    then have "renamed from n = a @ CHR ''.'' # n" by (simp add: renamed_def rsplit_append dots_0)
    with ab assms show ?thesis by (simp add: parent_of_append)
  qed
  then show "dots (renamed from n) = dots from" "parent_of (renamed from n) = parent_of from" by simp_all
qed

text \<open>A name no character of which \<open>LIKE\<close> treats specially.\<close>

definition like_plain :: "string \<Rightarrow> bool" where
  "like_plain s \<longleftrightarrow> CHR ''%'' \<notin> set s \<and> CHR ''_'' \<notin> set s \<and> backslash \<notin> set s"

lemma prefix_child:
  assumes "like_plain from" and "sql_like dia (prefix_pattern (from @ ''.'')) n"
  shows "\<exists>x b. n = x @ CHR ''.'' # b \<and> length x = length from \<and> dots x = dots from"
proof -
  have low: "starts_with (to_lower n) (to_lower (from @ ''.''))"
  proof (cases dia)
    case Sqlite
    with assms show ?thesis by (simp add: sql_like_def like_plain_def sqlite_plain_prefix)
  next
    case Postgres
    with assms have "starts_with n (from @ ''.'')" by (simp add: sql_like_def like_plain_def postgres_prefix)
    then show ?thesis by (auto simp: starts_with_iff to_lower_def)
  qed
  then obtain t where "map lower_char n = map lower_char from @ lower_char CHR ''.'' # t"
    by (auto simp: starts_with_iff to_lower_def)
  then obtain x c b where n: "n = x @ c # b" "map lower_char x = map lower_char from" "lower_char c = lower_char CHR ''.''"
    by (auto simp: map_eq_append_conv map_eq_Cons_conv)
  have "c = CHR ''.''" using n(3) by (cases c) (auto simp: lower_char_def split: if_splits)
  moreover have "length x = length from" using n(2) by (metis length_map)
  moreover have "dots x = dots from" using n(2) dots_to_lower by (metis to_lower_def)
  ultimately show ?thesis using n(1) by blast
qed

lemma moved_child_carries: "carries v a \<Longrightarrow> carries (moved_child kind to b v) b"
  by (auto simp: moved_child_def Let_def split: prod.split intro!: carries_set_other carries_set)

lemma move_child_kept:
  assumes "located d" and "d_kind d = kind" and "level kind \<noteq> None" and "d_name d = Some (x @ CHR ''.'' # b)"
    and "length x = length from" and "dots x = dots to"
  shows "keeps meta_ok (move_child from to kind d) cs"
proof -
  have at: "placed kind (x @ CHR ''.'' # b) (d_parent d) (d_data d)" using assms(1-4) by (auto simp: located_def)
  have new: "drop (length from + 1) (x @ CHR ''.'' # b) = b" using assms(5) by simp
  have "placed kind (to @ ''.'' @ b) (map_option fst (rsplit_once (CHR ''.'') (to @ ''.'' @ b)))
      (moved_child kind to (to @ ''.'' @ b) (d_data d))"
    using at assms(3,6) moved_child_carries by (auto simp: placed_def parent_of_def split: option.splits)
  then show ?thesis
    unfolding move_child_def Let_def assms(4) or_default_simps new
    by (intro kept kept_after [OF broadcast_kept])
qed

lemma move_children_kept:
  assumes "like_plain from" and "dots to = dots from" and "level kind \<noteq> None"
  shows "keeps meta_ok (move_children from to kind) cs"
  unfolding move_children_def
proof (intro kept)
  fix ds d cs1
  assume all: "\<And>d. d \<in> set ds \<Longrightarrow> located d \<and> row_matches (st_dialect (as_store (cs_app cs))) kind workspace_id
      (default_filter\<lparr>f_prefix := Some (from @ ''.'')\<rparr>) d" and d: "d \<in> set ds"
  from all [OF d] obtain n where n: "located d" "d_kind d = kind" "d_name d = Some n"
    "sql_like (st_dialect (as_store (cs_app cs))) (prefix_pattern (from @ ''.'')) n"
    by (auto simp: row_matches_def split: option.splits)
  from prefix_child [OF assms(1) n(4)] obtain x b where
    "n = x @ CHR ''.'' # b" "length x = length from" "dots x = dots from" by blast
  with n assms show "keeps meta_ok (move_child from to kind d) cs1"
    by (intro move_child_kept [where x = x and b = b]) simp_all
qed

lemma rename_kept:
  assumes "\<And>k. level kind = Some k \<Longrightarrow> dots from = k \<and> carries data from" and "dots n = 0"
    and "sec = Schema \<or> sec = Catalog \<Longrightarrow> like_plain from"
  shows "keeps meta_ok (uc_rename sec kind from n data) cs"
proof -
  have at: "placed kind (renamed from n) (map_option fst (rsplit_once (CHR ''.'') from))
      (j_set ''full_name'' (JStr (renamed from n)) (j_set ''name'' (JStr n) data))"
    using assms(1,2) renamed_dots [OF assms(2), of "from"]
    by (auto simp: placed_def parent_of_def intro!: carries_set [OF carries_set_other] split: option.split)
  have "level k \<noteq> None" if "k \<in> set child_kinds" for k using that by (auto simp: child_kinds_def)
  then show ?thesis
    unfolding uc_rename_def Let_def
    by (intro kept at kept_after [OF broadcast_kept] kept_after [OF kept_each [OF move_children_kept]] assms(3))
      (auto simp: renamed_dots [OF assms(2)])
qed

lemma patch_kept:
  assumes "level kind \<noteq> None \<Longrightarrow> ''full_name'' \<notin> set allowed \<and> ''*'' \<notin> set allowed"
    and "sec = Schema \<or> sec = Catalog \<Longrightarrow> field m ''new_name'' \<noteq> None \<Longrightarrow> like_plain full"
  shows "keeps meta_ok (uc_patch p sec kind full m allowed what) cs"
proof -
  have rest: "keeps meta_ok (case (case new of None \<Rightarrow> None | Some n \<Rightarrow> if n = last (split_on (CHR ''.'') full) then None else Some n) of
               Some n \<Rightarrow> uc_rename sec kind full n data
             | None \<Rightarrow>
                 h_then (if kind = KIND_TABLE then h_then (broadcast_table data) (\<lambda>_. h_ret ()) else h_ret ()) (\<lambda>_.
                 h_ret data)) cs"
    if "new = field m ''new_name''" "\<And>n. new = Some n \<Longrightarrow> dots n = 0"
      "\<And>k. level kind = Some k \<Longrightarrow> dots full = k \<and> carries data full" for new data cs
    using that assms(2) by (auto intro!: rename_kept kept kept_after [OF broadcast_kept] split: option.split)
  have named: "(case field m ''new_name'' of None \<Rightarrow> h_ret () | Some n \<Rightarrow> c_lift (validate_name n w)) =
      c_lift (case field m ''new_name'' of None \<Rightarrow> Inr () | Some n \<Rightarrow> validate_name n w)" for w
    by (auto simp: fun_eq_iff cm_simps h_basic split: option.split)
  show ?thesis
    unfolding uc_patch_def Let_def field_def [symmetric] named case_prod_unfold
    by (intro kept kept_update rest refl)
      (use assms(1) merge_patch_carries in \<open>auto simp: dots_ok_name validate_name_def split: option.splits if_splits\<close>)
qed

section \<open>The invariant\<close>

text \<open>The one request that can break the shape: renaming a catalog or schema whose name has a
  character that \<open>LIKE\<close> treats specially.\<close>

fun plain_rename :: "uc_request \<Rightarrow> bool" where
  "plain_rename (UpdateCatalog n m) \<longleftrightarrow> field m ''new_name'' = None \<or> like_plain n"
| "plain_rename (UpdateSchema n m) \<longleftrightarrow> field m ''new_name'' = None \<or> like_plain n"
| "plain_rename _ \<longleftrightarrow> True"

lemma create_privileges: "create_privilege KIND_VOLUME = (Volume, ''CREATE_VOLUME'')"
  "create_privilege KIND_FUNCTION = (Function, ''CREATE_FUNCTION'')"
  by (simp_all add: create_privilege_def uc_kind_defs)

lemma request_kept: "plain_rename req \<Longrightarrow> keeps meta_ok (uc_handle lib p req) cs"
  by (cases req)
    (auto simp: unit_reply_def intro!: kept create_catalog_kept create_schema_kept create_table_kept
      create_in_schema_kept [OF create_privileges(1)] create_in_schema_kept [OF create_privileges(2)]
      create_named_kept kept_after [OF delete_kept(1)] kept_after [OF delete_kept(2)] kept_after [OF delete_kept(3)]
      kept_after [OF delete_kept(4)] kept_after [OF delete_kept(5)] patch_kept update_grants_kept)

fun uc_run :: "cat_lib \<Rightarrow> (principal \<times> uc_request) list \<Rightarrow> cat_state \<Rightarrow> cat_state" where
  "uc_run lib [] cs = cs"
| "uc_run lib ((p, req) # reqs) cs = uc_run lib reqs (snd (uc_handle lib p req cs))"

text \<open>C13: The metastore stays in shape: after any sequence of requests, failed ones included, every
  catalog, schema, table, volume, function and model is stored once, under the id and the name its
  full name gives and below the parent its full name gives, in a document that carries that full
  name; renames of catalogs and schemas keep it as long as the old name has no character that
  \<open>LIKE\<close> treats specially.\<close>

theorem metastore_shape_kept:
  assumes "metastore_ok (cs_app cs)" and "list_all (\<lambda>pr. plain_rename (snd pr)) reqs"
  shows "metastore_ok (cs_app (uc_run lib reqs cs))"
  using assms
proof (induction reqs arbitrary: cs)
  case (Cons pr reqs)
  obtain p req where pr: "pr = (p, req)" by (cases pr)
  have "meta_ok (snd (uc_handle lib p req cs))"
    using request_kept Cons.prems pr by (auto intro: keepsD)
  with Cons pr show ?case by simp
qed simp

end
