(* ===== verification/Uc_Delete.thy ===== *)
theory Uc_Delete
  imports Uc_Invariant
begin

text \<open>
  What deleting a schema or a catalog takes away. Every step of a deletion cuts rows out of the
  store; the cuts compose, and on a metastore in shape they amount to the securables below the
  deleted one and the grants on them.
\<close>

section \<open>Cuts\<close>

definition cut_rows :: "(doc \<Rightarrow> bool) \<Rightarrow> app_state \<Rightarrow> app_state" where
  "cut_rows P st = store_of ((as_store st)\<lparr>st_docs := filter (\<lambda>d. \<not> P d) (st_docs (as_store st))\<rparr>) st"

definition cuts :: "(doc \<Rightarrow> bool) \<Rightarrow> 'a cm \<Rightarrow> cat_state \<Rightarrow> bool" where
  "cuts P m cs \<longleftrightarrow> (\<exists>x cs'. m cs = (Inr x, cs') \<and> cs_app cs' = cut_rows P (cs_app cs))"

lemma cut_docs [simp]: "st_docs (as_store (cut_rows P st)) = filter (\<lambda>d. \<not> P d) (st_docs (as_store st))"
  "st_kv (as_store (cut_rows P st)) = st_kv (as_store st)" "st_dialect (as_store (cut_rows P st)) = st_dialect (as_store st)"
  by (simp_all add: cut_rows_def)

lemma cut_cut: "cut_rows Q (cut_rows P st) = cut_rows (\<lambda>d. P d \<or> Q d) st"
proof -
  have "filter (\<lambda>d. \<not> Q d) (filter (\<lambda>d. \<not> P d) xs) = filter (\<lambda>d. \<not> (P d \<or> Q d)) xs" for xs :: "doc list"
    by (induction xs) auto
  then show ?thesis by (simp add: cut_rows_def)
qed

lemma cut_none [simp]: "cut_rows (\<lambda>d. False) st = st"
  by (simp add: cut_rows_def)

lemma cut_cong: "(\<And>d. d \<in> set (st_docs (as_store st)) \<Longrightarrow> P d = Q d) \<Longrightarrow> cut_rows P st = cut_rows Q st"
  by (simp add: cut_rows_def cong: filter_cong)

lemma cuts_then:
  fixes m :: "'a cm" and cs :: cat_state
  assumes "cuts P m cs" and "\<And>x cs'. cs_app cs' = cut_rows P (cs_app cs) \<Longrightarrow> cuts Q (f x) cs'"
  shows "cuts (\<lambda>d. P d \<or> Q d) (h_then m f) cs"
proof -
  obtain x cs' where 1: "m cs = (Inr x, cs')" "cs_app cs' = cut_rows P (cs_app cs)" using assms(1) by (auto simp: cuts_def)
  obtain y cs'' where 2: "f x cs' = (Inr y, cs'')" "cs_app cs'' = cut_rows Q (cs_app cs')"
    using assms(2) [OF 1(2), of x] by (auto simp: cuts_def)
  show ?thesis
    unfolding cuts_def
    by (intro exI [of _ y] exI [of _ cs'']) (simp add: h_then_step [where m = m, OF 1(1)] 1(2) 2 cut_cut)
qed

lemma cuts_ret: "cuts (\<lambda>d. False) (h_ret x) cs"
  by (simp add: cuts_def h_basic)

lemma cuts_event: "cuts (\<lambda>d. False) (c_event e) cs"
  by (simp add: cuts_def c_event_def)

lemma cuts_delete: "cuts (is_key k i) (c_delete k i) cs"
  by (auto simp: cuts_def c_delete_def c_store_def c_app_def store_delete_def cut_rows_def)

lemma cuts_children: "cuts (\<lambda>d. d_kind d = k \<and> d_parent d = Some p) (c_delete_children k p) cs"
  by (auto simp: cuts_def c_delete_children_def c_store_def c_app_def delete_children_def Let_def cut_rows_def)

lemma cuts_list: "cuts P (f (store_list k workspace_id fl (as_store (cs_app cs)))) cs \<Longrightarrow> cuts P (h_then (c_list k fl) f) cs"
  by (auto simp: cuts_def c_list_def h_then_def cm_simps)

lemma cuts_each:
  fixes cs :: cat_state
  assumes "\<And>x cs' R. x \<in> set xs \<Longrightarrow> cs_app cs' = cut_rows R (cs_app cs) \<Longrightarrow> cuts (P x) (g x) cs'"
  shows "cuts (\<lambda>d. \<exists>x \<in> set xs. P x d) (h_each g xs) cs"
  using assms
proof (induction xs arbitrary: cs)
  case Nil
  then show ?case by (simp add: cuts_ret)
next
  case (Cons x xs)
  have "cuts (P x) (g x) cs" by (rule Cons.prems [where R = "\<lambda>d. False"]) simp_all
  then have "cuts (\<lambda>d. P x d \<or> (\<exists>x \<in> set xs. P x d)) (h_then (g x) (\<lambda>_. h_each g xs)) cs"
  proof (rule cuts_then)
    fix u :: unit and cs' :: cat_state assume c: "cs_app cs' = cut_rows (P x) (cs_app cs)"
    show "cuts (\<lambda>d. \<exists>x \<in> set xs. P x d) (h_each g xs) cs'"
    proof (rule Cons.IH)
      fix y and cs'' :: cat_state and R assume "y \<in> set xs" "cs_app cs'' = cut_rows R (cs_app cs')"
      then show "cuts (P y) (g y) cs''"
        using c by (intro Cons.prems [where R = "\<lambda>d. P x d \<or> R d"]) (simp_all add: cut_cut)
    qed
  qed
  then show ?case by simp
qed

section \<open>Grants\<close>

definition dropped_grant :: "securable \<Rightarrow> string \<Rightarrow> doc \<Rightarrow> bool" where
  "dropped_grant sec n d \<longleftrightarrow> (\<exists>s m. is_key KIND_GRANTS (grants_doc_id s m) d \<and>
     ((s, m) = (sec, n) \<or> (sec = Catalog \<or> sec = Schema) \<and> starts_with m (n @ ''.'')))"

lemma grants_table_cut: "grants_table_ok st \<Longrightarrow> grants_table_ok (cut_rows P st)"
proof -
  assume ok: "grants_table_ok st"
  have "length (filter (\<lambda>d. d_kind d = KIND_GRANTS) (filter (\<lambda>d. \<not> P d) xs)) \<le> length (filter (\<lambda>d. d_kind d = KIND_GRANTS) xs)"
    for xs :: "doc list"
    by (induction xs) auto
  with ok show ?thesis
    by (auto simp: grants_table_ok_def within_limit_def store_inv_def distinct_map_filter intro: le_trans)
qed

lemma fold_delete_docs:
  "st_docs (fold (\<lambda>(k, i) s. snd (store_delete k i s)) ks s) = filter (\<lambda>d. \<not> (\<exists>(k, i) \<in> set ks. is_key k i d)) (st_docs s) \<and>
   st_kv (fold (\<lambda>(k, i) s. snd (store_delete k i s)) ks s) = st_kv s \<and>
   st_dialect (fold (\<lambda>(k, i) s. snd (store_delete k i s)) ks s) = st_dialect s"
proof (induction ks arbitrary: s)
  case (Cons ki ks)
  obtain k i where ki: "ki = (k, i)" by (cases ki)
  show ?case
    unfolding fold.simps o_apply ki prod.case using Cons.IH [of "snd (store_delete k i s)"]
    by (auto simp: store_delete_def intro!: filter_cong)
qed simp

lemma delete_cut: "store_of (snd (store_delete k i (as_store st))) st = cut_rows (is_key k i) st"
  by (simp add: store_delete_def cut_rows_def)

lemma fold_delete_cut:
  "store_of (fold (\<lambda>(k, i) s. snd (store_delete k i s)) ks (as_store st)) st = cut_rows (\<lambda>d. \<exists>(k, i) \<in> set ks. is_key k i d) st"
proof -
  have "fold (\<lambda>(k, i) s. snd (store_delete k i s)) ks s =
      s\<lparr>st_docs := filter (\<lambda>d. \<not> (\<exists>(k, i) \<in> set ks. is_key k i d)) (st_docs s)\<rparr>" for s
    using fold_delete_docs [of ks s] by (intro store.equality) simp_all
  then show ?thesis by (simp add: cut_rows_def)
qed

lemma drop_grants_cut:
  assumes ok: "grants_table_ok st"
  shows "drop_grants sec n st = cut_rows (dropped_grant sec n) st"
proof (cases "sec = Catalog \<or> sec = Schema")
  case False
  then show ?thesis
    by (simp add: drop_grants_def Let_def delete_cut) (rule cut_cong, auto simp: dropped_grant_def)
next
  case True
  let ?one = "is_key KIND_GRANTS (grants_doc_id sec n)"
  have ok1: "grants_table_ok (cut_rows ?one st)" by (rule grants_table_cut [OF ok])
  let ?ks = "concat (map (drops n) (all_grants (cut_rows ?one st)))"
  have run: "drop_grants sec n st = cut_rows (\<lambda>d. ?one d \<or> (\<exists>(k, i) \<in> set ?ks. is_key k i d)) st"
  proof -
    have "drop_grants sec n st =
        store_of (fold (\<lambda>(k, i) s. snd (store_delete k i s)) ?ks (as_store (cut_rows ?one st))) (cut_rows ?one st)"
      using True unfolding drop_grants_def Let_def drop_fold by (simp add: delete_cut)
    then show ?thesis by (simp only: fold_delete_cut cut_cut)
  qed
  show ?thesis
    unfolding run
  proof (rule cut_cong)
    fix d assume d: "d \<in> set (st_docs (as_store st))"
    have "(\<exists>(k, i) \<in> set ?ks. is_key k i d) \<longleftrightarrow>
        (\<exists>s m. is_key KIND_GRANTS (grants_doc_id s m) d \<and> starts_with m (n @ ''.''))" if "\<not> ?one d"
    proof
      assume "\<exists>(k, i) \<in> set ?ks. is_key k i d"
      then obtain ka k i where ka: "ka \<in> set (all_grants (cut_rows ?one st))" "(k, i) \<in> set (drops n ka)" "is_key k i d" by auto
      from ka(1) obtain s m where "ka = (grants_key s m, grants_for s m (cut_rows ?one st))"
        unfolding set_all_grants [OF ok1] by blast
      with ka(2,3) show "\<exists>s m. is_key KIND_GRANTS (grants_doc_id s m) d \<and> starts_with m (n @ ''.'')"
        by (auto simp: drops_grants_key split: if_splits)
    next
      assume "\<exists>s m. is_key KIND_GRANTS (grants_doc_id s m) d \<and> starts_with m (n @ ''.'')"
      then obtain s m where sm: "is_key KIND_GRANTS (grants_doc_id s m) d" "starts_with m (n @ ''.'')" by blast
      have "d \<in> set (st_docs (as_store (cut_rows ?one st)))" using d that by simp
      then have "store_get KIND_GRANTS (grants_doc_id s m) (as_store (cut_rows ?one st)) \<noteq> None"
        using sm(1) by (auto simp: store_get_None list_ex_iff)
      then have "(grants_key s m, grants_for s m (cut_rows ?one st)) \<in> set (all_grants (cut_rows ?one st))"
        unfolding set_all_grants [OF ok1] by blast
      moreover have "(KIND_GRANTS, grants_doc_id s m) \<in> set (drops n (grants_key s m, grants_for s m (cut_rows ?one st)))"
        using sm(2) by (simp add: drops_grants_key)
      ultimately show "\<exists>(k, i) \<in> set ?ks. is_key k i d" using sm(1) by auto
    qed
    then show "(?one d \<or> (\<exists>(k, i) \<in> set ?ks. is_key k i d)) = dropped_grant sec n d"
      using True by (auto simp: dropped_grant_def)
  qed
qed

lemma cuts_drop: "grants_table_ok (cs_app cs) \<Longrightarrow> cuts (dropped_grant sec n) (c_drop_grants sec n) cs"
  by (simp add: cuts_def c_drop_grants_def c_app_def drop_grants_cut)

section \<open>The contents of a schema\<close>

definition child_of :: "string \<Rightarrow> string \<Rightarrow> doc \<Rightarrow> bool" where
  "child_of kind parent d \<longleftrightarrow> d_kind d = kind \<and> d_parent d = Some parent"

definition listings_whole :: "app_state \<Rightarrow> bool" where
  "listings_whole st \<longleftrightarrow> (\<forall>kind \<in> {KIND_SCHEMA, KIND_TABLE, KIND_VOLUME, KIND_FUNCTION}. within_limit kind (as_store st))"

definition deletable :: "app_state \<Rightarrow> bool" where
  "deletable st \<longleftrightarrow> metastore_ok st \<and> grants_table_ok st \<and> listings_whole st"

lemma deletable_cut: "deletable st \<Longrightarrow> deletable (cut_rows P st)"
proof -
  assume ok: "deletable st"
  have "length (filter (\<lambda>d. d_kind d = k) (filter (\<lambda>d. \<not> P d) xs)) \<le> length (filter (\<lambda>d. d_kind d = k) xs)"
    for xs :: "doc list" and k
    by (induction xs) auto
  then have "within_limit k (as_store st) \<Longrightarrow> within_limit k (as_store (cut_rows P st))" for k
    unfolding within_limit_def cut_docs by (rule le_trans)
  moreover have "metastore_ok (cut_rows P st)"
    using ok by (auto simp: cut_rows_def deletable_def intro: ok_filter)
  ultimately show ?thesis using ok grants_table_cut by (auto simp: deletable_def listings_whole_def)
qed

lemma set_children:
  assumes "deletable st" and "kind \<in> {KIND_SCHEMA, KIND_TABLE, KIND_VOLUME, KIND_FUNCTION}"
  shows "set (store_list kind workspace_id (children_filter n) (as_store st)) =
    {d \<in> set (st_docs (as_store st)). child_of kind n d}"
proof -
  have "within_limit kind (as_store st)" using assms by (auto simp: deletable_def listings_whole_def)
  moreover have "d_ws d = workspace_id" if "d \<in> set (st_docs (as_store st))" "d_kind d = kind" for d
    using that assms by (auto simp: deletable_def metastore_ok_def located_def)
  ultimately show ?thesis
    using set_list_all [of kind "as_store st" "children_filter n" workspace_id]
    by (auto simp: children_filter_def default_filter_def row_matches_def child_of_def)
qed

lemma cuts_cong:
  "cuts P m cs \<Longrightarrow> (\<And>d. d \<in> set (st_docs (as_store (cs_app cs))) \<Longrightarrow> P d = Q d) \<Longrightarrow> cuts Q m cs"
  by (auto simp: cuts_def dest!: cut_cong)

lemma cuts_skip:
  "m cs = (Inr x, cs') \<Longrightarrow> cs_app cs' = cs_app cs \<Longrightarrow> cuts Q (f x) cs' \<Longrightarrow> cuts Q (h_then m f) cs"
  by (simp add: cuts_def h_then_def)

lemma cuts_event_then:
  "(\<And>cs'. cs_app cs' = cs_app cs \<Longrightarrow> cuts Q (f ()) cs') \<Longrightarrow> cuts Q (h_then (c_event e) f) cs"
  by (rule cuts_skip [where m = "c_event e" and cs' = "snd (c_event e cs)"]) (simp_all add: c_event_def)

lemma remove_table_cuts:
  assumes "deletable (cs_app cs)" and "carries v n"
  shows "cuts (\<lambda>d. is_key KIND_TABLE (uc_doc_id KIND_TABLE n) d \<or> dropped_grant Table n d) (uc_remove_table_doc lib v) cs"
proof -
  have n: "or_default [] (as_str (j_get v ''full_name'')) = n" using assms(2) by (simp add: carries_def)
  show ?thesis
    unfolding uc_remove_table_doc_def Let_def n broadcast_sql_def
  proof (rule cuts_then [OF cuts_delete], rule cuts_event_then)
    fix cs' cs'' :: cat_state
    assume "cs_app cs' = cut_rows (is_key KIND_TABLE (uc_doc_id KIND_TABLE n)) (cs_app cs)" "cs_app cs'' = cs_app cs'"
    then have ok: "grants_table_ok (cs_app cs'')" using assms(1) by (simp add: deletable_def grants_table_cut)
    let ?drop = "if j_get v ''table_type'' = JStr ''MANAGED''
      then (case Option.bind (as_str (j_get v ''storage_location'')) (path_of lib) of
              Some path \<Rightarrow> c_event (DeletePrefix path) | None \<Rightarrow> h_ret ()) else h_ret ()"
    show "cuts (dropped_grant Table n) (h_then ?drop (\<lambda>_. c_drop_grants Table n)) cs''"
      by (rule cuts_skip [where m = ?drop and cs' = "snd (?drop cs'')"])
        (auto simp: c_event_def h_basic ok intro!: cuts_drop split: option.split)
  qed
qed

lemma dropped_below:
  "dropped_grant sec n d \<Longrightarrow> parent_of n = Some full \<Longrightarrow> sec \<notin> {Catalog, Schema} \<Longrightarrow> dropped_grant Schema full d"
proof -
  assume d: "dropped_grant sec n d" and sec: "sec \<notin> {Catalog, Schema}" and p: "parent_of n = Some full"
  from p obtain b where "n = full @ CHR ''.'' # b" by (auto simp: parent_of_def dest: rsplit_Some)
  with d sec show ?thesis by (auto simp: dropped_grant_def starts_with_iff)
qed

abbreviation name_of :: "doc \<Rightarrow> string" where
  "name_of d \<equiv> or_default [] (d_name d)"

lemma child_name:
  assumes "deletable st" and "d \<in> set (st_docs (as_store st))" and "child_of kind full d" and "level kind \<noteq> None"
  shows "d_id d = uc_doc_id kind (name_of d)" "parent_of (name_of d) = Some full" "carries (d_data d) (name_of d)"
proof -
  have "located d" "d_kind d = kind" using assms by (auto simp: deletable_def metastore_ok_def child_of_def)
  with assms(3,4) show "d_id d = uc_doc_id kind (name_of d)" "parent_of (name_of d) = Some full" "carries (d_data d) (name_of d)"
    by (auto simp: located_def placed_def child_of_def)
qed

text \<open>A step that takes the rows \<open>L\<close> and perhaps some grants on the schema or below.\<close>

definition trims :: "string \<Rightarrow> (doc \<Rightarrow> bool) \<Rightarrow> 'a cm \<Rightarrow> cat_state \<Rightarrow> bool" where
  "trims full L m cs \<longleftrightarrow> (\<exists>G. (\<forall>d. G d \<longrightarrow> dropped_grant Schema full d) \<and> cuts (\<lambda>d. L d \<or> G d) m cs)"

lemma trims_then:
  fixes m :: "'a cm" and cs :: cat_state
  assumes "trims full L m cs" and ok: "deletable (cs_app cs)"
    and k: "\<And>x cs'. deletable (cs_app cs') \<Longrightarrow> cuts Q (f x) cs'" and all: "\<And>d. dropped_grant Schema full d \<Longrightarrow> Q d"
  shows "cuts (\<lambda>d. L d \<or> Q d) (h_then m f) cs"
proof -
  obtain G where G: "\<And>d. G d \<Longrightarrow> dropped_grant Schema full d" "cuts (\<lambda>d. L d \<or> G d) m cs"
    using assms(1) by (auto simp: trims_def)
  have "cuts (\<lambda>d. (L d \<or> G d) \<or> Q d) (h_then m f) cs"
    by (rule cuts_then [OF G(2)], rule k) (simp add: deletable_cut [OF ok])
  then show ?thesis by (rule cuts_cong) (use G(1) all in auto)
qed

lemma same_key_parent:
  assumes "located d" and "located t" and "d_kind d = d_kind t" and "d_id d = d_id t" and "level (d_kind t) \<noteq> None"
  shows "d_parent d = d_parent t"
proof -
  obtain k where k: "level (d_kind t) = Some k" using assms(5) by auto
  from assms(1,3) k obtain n where n: "d_id d = uc_doc_id (d_kind t) n" "d_parent d = parent_of n"
    by (auto simp: located_def placed_def)
  from assms(2) k obtain n' where n': "d_id t = uc_doc_id (d_kind t) n'" "d_parent t = parent_of n'"
    by (auto simp: located_def placed_def)
  from n(1) n'(1) assms(4) have "n = n'" by simp
  with n n' show ?thesis by simp
qed

lemma remove_tables_trims:
  assumes ok: "deletable (cs_app cs)"
  shows "trims full (child_of KIND_TABLE full)
    (h_each (\<lambda>t. uc_remove_table_doc lib (d_data t)) (store_list KIND_TABLE workspace_id (children_filter full) (as_store (cs_app cs)))) cs"
proof -
  let ?ts = "store_list KIND_TABLE workspace_id (children_filter full) (as_store (cs_app cs))"
  have ts: "set ?ts = {d \<in> set (st_docs (as_store (cs_app cs))). child_of KIND_TABLE full d}"
    by (rule set_children [OF ok]) simp
  define nm where "nm = name_of"
  have nm: "d_id t = uc_doc_id KIND_TABLE (nm t)" "parent_of (nm t) = Some full" "carries (d_data t) (nm t)" if "t \<in> set ?ts" for t
    using that ts child_name [OF ok, of t KIND_TABLE full] by (auto simp: nm_def)
  define G where "G = (\<lambda>d. \<exists>t \<in> set ?ts. dropped_grant Table (nm t) d)"
  have "cuts (\<lambda>d. \<exists>t \<in> set ?ts. is_key KIND_TABLE (uc_doc_id KIND_TABLE (nm t)) d \<or> dropped_grant Table (nm t) d)
      (h_each (\<lambda>t. uc_remove_table_doc lib (d_data t)) ?ts) cs"
    using nm(3) by (intro cuts_each remove_table_cuts) (auto simp: deletable_cut [OF ok])
  then have "cuts (\<lambda>d. child_of KIND_TABLE full d \<or> G d) (h_each (\<lambda>t. uc_remove_table_doc lib (d_data t)) ?ts) cs"
  proof (rule cuts_cong)
    fix d assume d: "d \<in> set (st_docs (as_store (cs_app cs)))"
    have "(\<exists>t \<in> set ?ts. is_key KIND_TABLE (uc_doc_id KIND_TABLE (nm t)) d) \<longleftrightarrow> child_of KIND_TABLE full d"
    proof
      assume "\<exists>t \<in> set ?ts. is_key KIND_TABLE (uc_doc_id KIND_TABLE (nm t)) d"
      then obtain t where t: "t \<in> set ?ts" "is_key KIND_TABLE (d_id t) d" using nm(1) by auto
      have "located d" "located t" using ok d t(1) ts by (auto simp: deletable_def metastore_ok_def)
      then show "child_of KIND_TABLE full d"
        using t ts same_key_parent [of d t] by (simp add: child_of_def is_key_def)
    next
      assume "child_of KIND_TABLE full d"
      with d ts have "d \<in> set ?ts" by simp
      with nm(1) show "\<exists>t \<in> set ?ts. is_key KIND_TABLE (uc_doc_id KIND_TABLE (nm t)) d"
        using ts by (intro bexI [of _ d]) (auto simp: is_key_def child_of_def)
    qed
    then show "(\<exists>t \<in> set ?ts. is_key KIND_TABLE (uc_doc_id KIND_TABLE (nm t)) d \<or> dropped_grant Table (nm t) d) \<longleftrightarrow>
        child_of KIND_TABLE full d \<or> G d"
      by (auto simp: G_def)
  qed
  moreover have "G d \<Longrightarrow> dropped_grant Schema full d" for d
    using nm(2) dropped_below by (force simp: G_def)
  ultimately show ?thesis by (auto simp: trims_def)
qed

lemma drop_children_trims:
  assumes ok: "deletable (cs_app cs)" and kind: "kind \<in> {KIND_VOLUME, KIND_FUNCTION}" and sec: "sec \<notin> {Catalog, Schema}"
  shows "trims full (child_of kind full) (drop_children full (kind, sec)) cs"
proof -
  let ?ts = "store_list kind workspace_id (children_filter full) (as_store (cs_app cs))"
  have ts: "set ?ts = {d \<in> set (st_docs (as_store (cs_app cs))). child_of kind full d}"
    using kind by (intro set_children [OF ok]) auto
  have nm: "parent_of (name_of t) = Some full" if "t \<in> set ?ts" for t
    using that ts child_name [OF ok, of t kind full] kind by auto
  define G where "G = (\<lambda>d. \<exists>t \<in> set ?ts. dropped_grant sec (name_of t) d)"
  have "cuts G (h_each (\<lambda>t. c_drop_grants sec (name_of t)) ?ts) cs"
    unfolding G_def using ok by (intro cuts_each cuts_drop) (auto simp: deletable_def grants_table_cut)
  then have "cuts (\<lambda>d. G d \<or> child_of kind full d) (drop_children full (kind, sec)) cs"
    unfolding drop_children_def fst_conv snd_conv child_of_def
    by (intro cuts_list cuts_then [where P = G] cuts_children)
  then have "cuts (\<lambda>d. child_of kind full d \<or> G d) (drop_children full (kind, sec)) cs"
    by (rule cuts_cong) auto
  moreover have "G d \<Longrightarrow> dropped_grant Schema full d" for d
    using nm dropped_below [OF _ _ sec] by (auto simp: G_def)
  ultimately show ?thesis by (auto simp: trims_def)
qed

definition schema_content :: "string \<Rightarrow> doc \<Rightarrow> bool" where
  "schema_content full d \<longleftrightarrow>
     d_kind d \<in> {KIND_TABLE, KIND_VOLUME, KIND_FUNCTION, KIND_MODEL} \<and> d_parent d = Some full \<or> dropped_grant Schema full d"

lemma contents_cut:
  assumes "deletable (cs_app cs)"
  shows "cuts (schema_content full) (uc_delete_schema_contents lib full) cs"
proof -
  have models: "cuts (\<lambda>d. child_of KIND_MODEL full d \<or> dropped_grant Schema full d)
      (h_then (c_delete_children KIND_MODEL full) (\<lambda>_. c_drop_grants Schema full)) cs'" if "deletable (cs_app cs')" for cs' :: cat_state
    using that unfolding child_of_def
    by (intro cuts_then [OF cuts_children] cuts_drop) (simp add: deletable_def grants_table_cut)
  have "cuts (\<lambda>d. child_of KIND_TABLE full d \<or> child_of KIND_VOLUME full d \<or> child_of KIND_FUNCTION full d \<or>
      child_of KIND_MODEL full d \<or> dropped_grant Schema full d) (uc_delete_schema_contents lib full) cs"
    unfolding uc_delete_schema_contents_def h_each.simps h_then_assoc
    by (intro cuts_list trims_then [OF remove_tables_trims] trims_then [OF drop_children_trims] models assms) 
      (auto simp: h_basic intro: models)
  then show ?thesis by (rule cuts_cong) (auto simp: schema_content_def child_of_def)
qed

section \<open>Deletion\<close>

lemma passed_read:
  assumes "h_then m f cs = (Inr y, cs')" and "reads m"
  obtains x where "m cs = (Inr x, cs)" "f x cs = (Inr y, cs')"
proof -
  obtain x cs1 where "m cs = (Inr x, cs1)" "f x cs1 = (Inr y, cs')" using assms(1) by (rule h_thenE)
  with assms(2) that show thesis by (metis reads_def snd_conv)
qed

lemma cut_result: "cuts P m cs \<Longrightarrow> m cs = (r, cs') \<Longrightarrow> cs_app cs' = cut_rows P (cs_app cs)"
  by (auto simp: cuts_def)

lemma passed_owner:
  assumes "c_az (az_require_owner sec n) (az_new (cs_app cs) p) cs = (Inr az, cs)"
  shows "manages (cs_app cs) p sec n"
proof -
  let ?v = "if holds (cs_app cs) p sec n ''MANAGE'' then Inr () else
     Inl (PermissionDenied (''User does not own '' @ api_type sec @ '' '' @ quoted n @ '' and does not have MANAGE on it.''))"
  obtain az' where "c_az (az_require_owner sec n) (az_new (cs_app cs) p) cs = ((case ?v of Inl e \<Rightarrow> Inl e | Inr _ \<Rightarrow> Inr az'), cs)"
    by (rule c_az_answer [OF az_ok_new answers_require_owner])
  with assms show ?thesis by (auto simp: manages_def split: if_splits)
qed

lemma delete_schema_effect:
  assumes ok: "deletable (cs_app cs)" and run: "uc_delete_schema lib p full force cs = (Inr (), cs')"
  shows "manages (cs_app cs) p Schema full"
    "force \<or> (\<forall>kind \<in> {KIND_TABLE, KIND_VOLUME, KIND_FUNCTION}. store_count kind workspace_id (Some full) (as_store (cs_app cs)) = 0)"
    "cs_app cs' = cut_rows (\<lambda>d. schema_content full d \<or> is_key KIND_SCHEMA (uc_doc_id KIND_SCHEMA full) d) (cs_app cs)"
proof -
  let ?n = "\<lambda>kind. store_count kind workspace_id (Some full) (as_store (cs_app cs))"
  let ?rest = "h_then (uc_delete_schema_contents lib full) (\<lambda>_.
     h_then (c_delete KIND_SCHEMA (uc_doc_id KIND_SCHEMA full)) (\<lambda>deleted.
       if \<not> deleted then h_fail (NotFound (''Schema '' @ quoted full @ '' does not exist''))
       else broadcast_sql (''DROP SCHEMA IF EXISTS '' @ full @ '' CASCADE'')))"
  have count: "c_count k full cs = (Inr (?n k), cs)" for k by (simp add: c_count_def cm_simps)
  obtain az where az: "c_az (az_require_owner Schema full) (az_new (cs_app cs) p) cs = (Inr az, cs)"
    and free: "\<not> (0 < ?n KIND_TABLE + ?n KIND_VOLUME + ?n KIND_FUNCTION \<and> \<not> force)" and rest: "?rest cs = (Inr (), cs')"
    using run unfolding uc_delete_schema_def
    by (auto elim!: passed_read simp: cm_simps count h_basic split: if_splits)
  show "manages (cs_app cs) p Schema full" using az by (rule passed_owner)
  have "0 \<le> ?n k" for k by (simp add: store_count_def)
  with free show "force \<or> (\<forall>kind \<in> {KIND_TABLE, KIND_VOLUME, KIND_FUNCTION}. ?n kind = 0)"
    by (smt (verit) insertE singletonD)
  from rest obtain u cs1 deleted cs2 where c1: "uc_delete_schema_contents lib full cs = (Inr u, cs1)"
    and c2: "c_delete KIND_SCHEMA (uc_doc_id KIND_SCHEMA full) cs1 = (Inr deleted, cs2)" and c3: "cs_app cs' = cs_app cs2"
    by (auto elim!: h_thenE simp: broadcast_sql_def c_event_def h_basic split: if_splits)
  show "cs_app cs' = cut_rows (\<lambda>d. schema_content full d \<or> is_key KIND_SCHEMA (uc_doc_id KIND_SCHEMA full) d) (cs_app cs)"
    unfolding c3 cut_result [OF cuts_delete c2] cut_result [OF contents_cut [OF ok] c1] cut_cut ..
qed

text \<open>C14: Deleting a schema takes away exactly what belongs to it: on a metastore in shape whose
  listings are not truncated, a deletion that succeeds was asked for by a principal who may manage
  the schema, with \<open>force\<close> unless the schema has no table, volume or function, and it leaves every
  document in place except the schema, the tables, volumes, functions and models in it, and the
  grants on the schema and on every name below it.\<close>

theorem schema_delete_exact:
  assumes "deletable (cs_app cs)" and "uc_delete_schema lib p full force cs = (Inr (), cs')"
  shows "manages (cs_app cs) p Schema full \<and>
    (force \<or> (\<forall>kind \<in> {KIND_TABLE, KIND_VOLUME, KIND_FUNCTION}.
       store_count kind workspace_id (Some full) (as_store (cs_app cs)) = 0)) \<and>
    st_kv (as_store (cs_app cs')) = st_kv (as_store (cs_app cs)) \<and>
    st_docs (as_store (cs_app cs')) = filter (\<lambda>d. \<not> schema_content full d \<and>
      \<not> is_key KIND_SCHEMA (uc_doc_id KIND_SCHEMA full) d) (st_docs (as_store (cs_app cs)))"
  using delete_schema_effect [OF assms] by (simp add: cong: filter_cong)

section \<open>Catalogs\<close>

definition plain_schemas :: "string \<Rightarrow> app_state \<Rightarrow> bool" where
  "plain_schemas name st \<longleftrightarrow> (\<forall>s \<in> set (st_docs (as_store st)). child_of KIND_SCHEMA name s \<longrightarrow>
     j_get (d_data s) ''name'' = JStr ''default'' \<or> j_get (d_data s) ''name'' = JStr ''information_schema'')"

definition catalog_content :: "app_state \<Rightarrow> string \<Rightarrow> doc \<Rightarrow> bool" where
  "catalog_content st name d \<longleftrightarrow> child_of KIND_SCHEMA name d \<or> dropped_grant Catalog name d \<or>
     (\<exists>s \<in> set (st_docs (as_store st)). child_of KIND_SCHEMA name s \<and> schema_content (name_of s) d)"

lemma delete_catalog_effect:
  assumes ok: "deletable (cs_app cs)" and run: "uc_delete_catalog lib p name force cs = (Inr (), cs')"
  shows "manages (cs_app cs) p Catalog name" "force \<or> plain_schemas name (cs_app cs)"
    "cs_app cs' = cut_rows (\<lambda>d. catalog_content (cs_app cs) name d \<or> is_key KIND_CATALOG (uc_doc_id KIND_CATALOG name) d) (cs_app cs)"
proof -
  let ?ss = "store_list KIND_SCHEMA workspace_id (children_filter name) (as_store (cs_app cs))"
  let ?drop = "\<lambda>s. h_then (uc_delete_schema_contents lib (name_of s)) (\<lambda>_. h_then (c_delete KIND_SCHEMA (d_id s)) (\<lambda>_. h_ret ()))"
  let ?rest = "h_then (h_each ?drop ?ss) (\<lambda>_. h_then (c_delete KIND_CATALOG (uc_doc_id KIND_CATALOG name)) (\<lambda>deleted.
     if \<not> deleted then h_fail (NotFound (''Catalog '' @ quoted name @ '' does not exist''))
     else c_drop_grants Catalog name))"
  have list: "c_list KIND_SCHEMA (children_filter name) cs = (Inr ?ss, cs)" by (simp add: c_list_def cm_simps)
  have ss: "set ?ss = {d \<in> set (st_docs (as_store (cs_app cs))). child_of KIND_SCHEMA name d}"
    by (rule set_children [OF ok]) simp
  obtain az where az: "c_az (az_require_owner Catalog name) (az_new (cs_app cs) p) cs = (Inr az, cs)"
    and free: "\<not> (list_ex (\<lambda>s. j_get (d_data s) ''name'' \<noteq> JStr ''default'' \<and>
                    j_get (d_data s) ''name'' \<noteq> JStr ''information_schema'') ?ss \<and> \<not> force)" and rest: "?rest cs = (Inr (), cs')"
    using run unfolding uc_delete_catalog_def
    by (auto elim!: passed_read simp: cm_simps list h_basic split: if_splits)
  show "manages (cs_app cs) p Catalog name" using az by (rule passed_owner)
  show "force \<or> plain_schemas name (cs_app cs)"
    using free ss by (auto simp: plain_schemas_def list_ex_iff)
  have "cuts (\<lambda>d. \<exists>s \<in> set ?ss. schema_content (name_of s) d \<or> is_key KIND_SCHEMA (d_id s) d \<or> False) (h_each ?drop ?ss) cs"
    by (intro cuts_each cuts_then [OF contents_cut] cuts_then [OF cuts_delete] cuts_ret) (simp add: deletable_cut [OF ok])
  note each = cut_result [OF this]
  from rest obtain u cs1 deleted cs2 where c1: "h_each ?drop ?ss cs = (Inr u, cs1)"
    and c2: "c_delete KIND_CATALOG (uc_doc_id KIND_CATALOG name) cs1 = (Inr deleted, cs2)"
    and c3: "c_drop_grants Catalog name cs2 = (Inr (), cs')"
    by (auto elim!: h_thenE simp: h_basic split: if_splits)
  have a2: "cs_app cs2 = cut_rows (is_key KIND_CATALOG (uc_doc_id KIND_CATALOG name)) (cs_app cs1)"
    by (rule cut_result [OF cuts_delete c2])
  have "deletable (cs_app cs2)" unfolding a2 each [OF c1] cut_cut by (rule deletable_cut [OF ok])
  then have "cs_app cs' = cut_rows (dropped_grant Catalog name) (cs_app cs2)"
    by (intro cut_result [OF cuts_drop c3]) (simp add: deletable_def)
  then have all: "cs_app cs' = cut_rows (\<lambda>d. ((\<exists>s \<in> set ?ss. schema_content (name_of s) d \<or> is_key KIND_SCHEMA (d_id s) d \<or> False) \<or>
      is_key KIND_CATALOG (uc_doc_id KIND_CATALOG name) d) \<or> dropped_grant Catalog name d) (cs_app cs)"
    unfolding a2 each [OF c1] cut_cut .
  show "cs_app cs' = cut_rows (\<lambda>d. catalog_content (cs_app cs) name d \<or> is_key KIND_CATALOG (uc_doc_id KIND_CATALOG name) d) (cs_app cs)"
    unfolding all
  proof (rule cut_cong)
    fix d assume d: "d \<in> set (st_docs (as_store (cs_app cs)))"
    have "(\<exists>s \<in> set ?ss. is_key KIND_SCHEMA (d_id s) d) \<longleftrightarrow> child_of KIND_SCHEMA name d"
    proof
      assume "\<exists>s \<in> set ?ss. is_key KIND_SCHEMA (d_id s) d"
      then obtain s where s: "s \<in> set ?ss" "is_key KIND_SCHEMA (d_id s) d" by auto
      have "located d" "located s" using ok d s(1) ss by (auto simp: deletable_def metastore_ok_def)
      then show "child_of KIND_SCHEMA name d"
        using s ss same_key_parent [of d s] by (simp add: child_of_def is_key_def)
    qed (use d ss in \<open>auto simp: is_key_def child_of_def\<close>)
    then show "(((\<exists>s \<in> set ?ss. schema_content (name_of s) d \<or> is_key KIND_SCHEMA (d_id s) d \<or> False) \<or>
        is_key KIND_CATALOG (uc_doc_id KIND_CATALOG name) d) \<or> dropped_grant Catalog name d) \<longleftrightarrow>
      (catalog_content (cs_app cs) name d \<or> is_key KIND_CATALOG (uc_doc_id KIND_CATALOG name) d)"
      unfolding catalog_content_def ss by blast
  qed
qed

text \<open>C15: Deleting a catalog: on a metastore in shape whose listings are not truncated, a deletion
  that succeeds was asked for by a principal who may manage the catalog, with \<open>force\<close> unless every
  schema in it is named \<open>default\<close> or \<open>information_schema\<close>, and it leaves every document in place
  except the catalog, its schemas, their contents and the grants on the catalog and on every name
  below it. The contents of a default schema go without \<open>force\<close>.\<close>

theorem catalog_delete_exact:
  assumes "deletable (cs_app cs)" and "uc_delete_catalog lib p name force cs = (Inr (), cs')"
  shows "manages (cs_app cs) p Catalog name \<and> (force \<or> plain_schemas name (cs_app cs)) \<and>
    st_kv (as_store (cs_app cs')) = st_kv (as_store (cs_app cs)) \<and>
    st_docs (as_store (cs_app cs')) = filter (\<lambda>d. \<not> catalog_content (cs_app cs) name d \<and>
      \<not> is_key KIND_CATALOG (uc_doc_id KIND_CATALOG name) d) (st_docs (as_store (cs_app cs)))"
  using delete_catalog_effect [OF assms] by (simp add: cong: filter_cong)

end
