(* ===== verification/Uc_Witnesses.thy ===== *)
theory Uc_Witnesses
  imports Uc_Delete
begin

text \<open>The metastore's properties at concrete stores and requests.\<close>

definition lib0 :: cat_lib where
  "lib0 = \<lparr>cl_root_url = ''file:///w'', cl_mkdirs = (\<lambda>_. Inr ()), cl_seal = Inr, cl_parse_expr = (\<lambda>_. None)\<rparr>"

definition meta0 :: "app_state \<Rightarrow> cat_state" where
  "meta0 st = \<lparr>cs_app = st, cs_clock = int, cs_tick = 0, cs_uuid = (\<lambda>_. ''u''), cs_uuids = 0, cs_answer = (\<lambda>_. None),
     cs_events = []\<rparr>"

lemma meta0_app [simp]: "cs_app (meta0 st) = st"
  by (simp add: meta0_def)

definition root :: principal where
  "root = \<lparr>p_user_id = ''u1'', p_user_name = ''root'', p_is_admin = True, p_groups = []\<rparr>"

theorem uc_requests_guarded_witness:
  "\<exists>e cs'. uc_handle lib0 bob (DeleteTable ''m.s.t'') (meta0 grant_state) = (Inl e, cs') \<and>
     cs_app cs' = grant_state \<and> cs_events cs' = []"
proof -
  have "\<not> holds grant_state bob Table ''m.s.t'' ''MANAGE''" by code_simp
  then have "\<not> uc_allowed (cs_app (meta0 grant_state)) bob (DeleteTable ''m.s.t'')" by (simp add: manages_def)
  from uc_requests_guarded [OF this, of lib0] show ?thesis by (simp add: meta0_def)
qed

definition empty_state :: app_state where
  "empty_state = \<lparr>as_store = \<lparr>st_dialect = Sqlite, st_docs = [], st_kv = []\<rparr>, as_admin_user = ''root''\<rparr>"

definition some_requests :: "(principal \<times> uc_request) list" where
  "some_requests = [(root, CreateCatalog [(''name'', JStr ''m'')]),
     (root, CreateSchema [(''catalog_name'', JStr ''m''), (''name'', JStr ''s'')])]"

theorem metastore_shape_kept_witness: "metastore_ok (cs_app (uc_run lib0 some_requests (meta0 empty_state)))"
  by (rule metastore_shape_kept) (simp_all add: metastore_ok_def empty_state_def store_inv_def some_requests_def)

lemma some_requests_stored: "length (st_docs (as_store (cs_app (uc_run lib0 some_requests (meta0 empty_state))))) = 3"
  by code_simp

section \<open>Grants\<close>

definition public_use :: grant_change where
  "public_use = \<lparr>gc_principal = ''account users'', gc_add = [''USE_CATALOG''], gc_remove = []\<rparr>"

definition granted :: "(api_error + json) \<times> cat_state" where
  "granted = uc_update_grants root Metastore METASTORE_ID [public_use] (meta0 empty_state)"

lemma granted_ok: "\<not> isl (fst granted)"
  by code_simp

theorem grant_update_exact_witness:
  "privs_of ''account users'' (grants_for Metastore METASTORE_ID (cs_app (snd granted))) = {''USE_CATALOG''} \<and>
   grants_for Schema ''m.s'' (cs_app (snd granted)) = []"
proof -
  have d: "distinct_principals (grants_for Metastore METASTORE_ID (cs_app (meta0 empty_state)))" by code_simp
  obtain v where v: "granted = (Inr v, snd granted)" using granted_ok by (metis isl_def sum.collapse(2) prod.collapse)
  have none: "grants_for s n empty_state = []" for s n
    by (simp add: grants_for_def empty_state_def store_get_def)
  have new: "fold (changed ''account users'') [public_use] (privs_of ''account users'' []) = {''USE_CATALOG''}" proof -
    have "normalize_privilege ''USE_CATALOG'' = ''USE_CATALOG''" "eq_ignore_case ''account users'' ''account users''" by code_simp+
    moreover have "\<not> removes [] q" for q by (simp add: removes_def)
    ultimately show ?thesis by (auto simp: changed_def public_use_def privs_of_def)
  qed
  show ?thesis
    using grant_update_exact [OF d v [unfolded granted_def]] 
    by (simp add: none new [simplified] granted_def [symmetric])
qed

section \<open>Deletion\<close>

definition uc_doc :: "string \<Rightarrow> string \<Rightarrow> string option \<Rightarrow> string \<Rightarrow> doc" where
  "uc_doc kind full parent name = \<lparr>d_id = uc_doc_id kind full, d_kind = kind, d_ws = workspace_id, d_parent = parent,
     d_name = Some full, d_data = JObj [(''full_name'', JStr full), (''name'', JStr name)], d_created_at = 1, d_updated_at = 1\<rparr>"

definition small_state :: app_state where
  "small_state = \<lparr>as_store = \<lparr>st_dialect = Sqlite,
     st_docs = [uc_doc KIND_CATALOG ''m'' None ''m'', uc_doc KIND_SCHEMA ''m.default'' (Some ''m'') ''default'',
       uc_doc KIND_TABLE ''m.default.t'' (Some ''m.default'') ''t'', grants_doc Table ''m.default.t'' bob_select,
       uc_doc KIND_CATALOG ''x'' None ''x''],
     st_kv = []\<rparr>, as_admin_user = ''root''\<rparr>"

lemma small_deletable: "deletable small_state"
proof -
  have "located (uc_doc KIND_CATALOG n None n)" if "dots n = 0" for n
    using that by (auto simp: located_def uc_doc_def placed_def carries_obj parent_of_plain)
  moreover have "located (uc_doc KIND_SCHEMA ''m.default'' (Some ''m'') ''default'')"
    "located (uc_doc KIND_TABLE ''m.default.t'' (Some ''m.default'') ''t'')"
    using parent_of_append [of "''default''" "''m''"] parent_of_append [of "''t''" "''m.default''"]
    by (auto simp: located_def uc_doc_def placed_def carries_obj)
  moreover have "located (grants_doc s n as)" for s n as by (simp add: located_def grants_doc_def)
  moreover have "store_inv (as_store small_state)" by code_simp
  ultimately show ?thesis
    using grants_doc_row
    by (auto simp: deletable_def metastore_ok_def grants_table_ok_def listings_whole_def within_limit_def small_state_def uc_doc_def
        uc_kind_defs)
qed

definition schema_deleted :: "(api_error + unit) \<times> cat_state" where
  "schema_deleted = uc_delete_schema lib0 root ''m.default'' True (meta0 small_state)"

definition catalog_deleted :: "(api_error + unit) \<times> cat_state" where
  "catalog_deleted = uc_delete_catalog lib0 root ''m'' False (meta0 small_state)"

lemma deleted_ok: "\<not> isl (fst schema_deleted)" "\<not> isl (fst catalog_deleted)"
  by code_simp+


lemma dropped_doc:
  "dropped_grant sec n (grants_doc s m as) \<longleftrightarrow> (s, m) = (sec, n) \<or> (sec = Catalog \<or> sec = Schema) \<and> starts_with m (n @ ''.'')"
  "k \<noteq> KIND_GRANTS \<Longrightarrow> \<not> dropped_grant sec n (uc_doc k m p l)"
  by (auto simp: dropped_grant_def grants_doc_def is_key_def uc_doc_def grants_doc_id_inj)

lemma doc_kinds:
  "d_kind (uc_doc k n p l) = k" "d_parent (uc_doc k n p l) = p" "d_name (uc_doc k n p l) = Some n"
  "d_id (uc_doc k n p l) = uc_doc_id k n" "d_kind (grants_doc s m as) = KIND_GRANTS" "d_parent (grants_doc s m as) = None"
  by (simp_all add: uc_doc_def grants_doc_def)

theorem schema_delete_exact_witness:
  "st_docs (as_store (cs_app (snd schema_deleted))) =
     [uc_doc KIND_CATALOG ''m'' None ''m'', uc_doc KIND_CATALOG ''x'' None ''x'']"
proof -
  have run: "schema_deleted = (Inr (), snd schema_deleted)"
    using deleted_ok(1) by (metis isl_def sum.collapse(2) prod.collapse unit.exhaust)
  have ok: "deletable (cs_app (meta0 small_state))" by (simp add: small_deletable)
  have docs: "st_docs (as_store (cs_app (snd schema_deleted))) = filter (\<lambda>d. \<not> schema_content ''m.default'' d \<and>
      \<not> is_key KIND_SCHEMA (uc_doc_id KIND_SCHEMA ''m.default'') d) (st_docs (as_store small_state))"
    using schema_delete_exact [OF ok run [unfolded schema_deleted_def], folded schema_deleted_def] by simp
  show ?thesis
    unfolding docs
    by (simp add: schema_content_def dropped_doc doc_kinds is_key_def small_state_def uc_kind_defs
        KIND_MODEL_def)
qed

theorem catalog_delete_exact_witness:
  "st_docs (as_store (cs_app (snd catalog_deleted))) = [uc_doc KIND_CATALOG ''x'' None ''x'']"
proof -
  have run: "catalog_deleted = (Inr (), snd catalog_deleted)"
    using deleted_ok(2) by (metis isl_def sum.collapse(2) prod.collapse unit.exhaust)
  have ok: "deletable (cs_app (meta0 small_state))" by (simp add: small_deletable)
  have docs: "st_docs (as_store (cs_app (snd catalog_deleted))) = filter (\<lambda>d. \<not> catalog_content small_state ''m'' d \<and>
      \<not> is_key KIND_CATALOG (uc_doc_id KIND_CATALOG ''m'') d) (st_docs (as_store small_state))"
    using catalog_delete_exact [OF ok run [unfolded catalog_deleted_def], folded catalog_deleted_def] by simp
  show ?thesis
    unfolding docs
    by (simp add: catalog_content_def child_of_def schema_content_def dropped_doc doc_kinds is_key_def small_state_def uc_kind_defs
        KIND_MODEL_def)
qed

end
