(* ===== verification/Uc_Extras.thy ===== *)
theory Uc_Extras
  imports Uc_Requests
begin

text \<open>
  Unity Catalog beyond the objects themselves (\<open>lakeforge-api/src/api/catalog_ext.rs\<close>): tags, comments,
  row filters and column masks, constraints, workspace bindings, system schemas, temporary table
  credentials and artifact allowlists. All edits of a securable's document go through \<open>uc_mutate\<close>,
  which asks for ownership first. The parser of stored JSON texts is a parameter.
\<close>

section \<open>Kinds and columns\<close>

definition KV_SYSTEM_SCHEMAS :: string where "KV_SYSTEM_SCHEMAS = ''uc_system_schemas''"

definition TEMP_CREDENTIAL_TTL_SECS :: int where "TEMP_CREDENTIAL_TTL_SECS = 3600"

definition DEFAULT_ENABLED_SYSTEM_SCHEMAS :: "string list" where
  "DEFAULT_ENABLED_SYSTEM_SCHEMAS = [''information_schema'', ''access'', ''query'', ''compute'', ''lakeflow'', ''billing'']"

definition kind_of :: "securable \<Rightarrow> api_error + string" where
  "kind_of sec = (case sec_kind sec of Some k \<Rightarrow> Inr k
     | None \<Rightarrow> Inl (InvalidParameter (api_type sec @ '' does not support this operation'')))"

fun what_of :: "securable \<Rightarrow> string" where
  "what_of Catalog = ''Catalog''"
| "what_of Schema = ''Schema''"
| "what_of Table = ''Table''"
| "what_of Volume = ''Volume''"
| "what_of Function = ''Function''"
| "what_of ExternalLocation = ''External Location''"
| "what_of StorageCredential = ''Storage Credential''"
| "what_of Connection = ''Connection''"
| "what_of Share = ''Share''"
| "what_of Recipient = ''Recipient''"
| "what_of Provider = ''Provider''"
| "what_of Metastore = ''Metastore''"

definition is_column :: "string \<Rightarrow> json \<Rightarrow> bool" where
  "is_column col c =
     (case as_object c of None \<Rightarrow> False | Some m \<Rightarrow>
        (case Option.bind (map_of m ''name'') as_str of None \<Rightarrow> False | Some n \<Rightarrow> eq_ignore_case n col))"

fun edit_first :: "string \<Rightarrow> (jmap \<Rightarrow> api_error + jmap) \<Rightarrow> json list \<Rightarrow> (api_error + json list) option" where
  "edit_first col f [] = None"
| "edit_first col f (c # cs) =
     (if is_column col c then Some (try_then (f (or_default [] (as_object c))) (\<lambda>m. Inr (JObj m # cs)))
      else map_option (\<lambda>r. try_then r (\<lambda>cs'. Inr (c # cs'))) (edit_first col f cs))"

text \<open>\<open>column_mut\<close>, with the edit made through the reference it returns.\<close>

definition column_mut :: "string \<Rightarrow> (jmap \<Rightarrow> api_error + jmap) \<Rightarrow> json \<Rightarrow> api_error + json" where
  "column_mut col f v =
     (let missing = Inl (NotFound (''Column '' @ quoted col @ '' not found'')) in
      case v of
        JObj m \<Rightarrow> (case Option.bind (map_of m ''columns'') as_array of
            None \<Rightarrow> missing
          | Some cols \<Rightarrow> (case edit_first col f cols of
              None \<Rightarrow> missing
            | Some r \<Rightarrow> try_then r (\<lambda>cols'. Inr (JObj (bt_insert ''columns'' (JArr cols') m)))))
      | _ \<Rightarrow> missing)"

definition column_names :: "json \<Rightarrow> string list" where
  "column_names v = List.map_filter (\<lambda>c. as_str (j_get c ''name'')) (or_default [] (as_array (j_get v ''columns'')))"

definition has_column :: "string list \<Rightarrow> string \<Rightarrow> bool" where
  "has_column names c = list_ex (\<lambda>n. eq_ignore_case n c) names"

text \<open>The first of the given columns that is not there is an error.\<close>

definition require_columns :: "string list \<Rightarrow> string list \<Rightarrow> string \<Rightarrow> api_error + unit" where
  "require_columns names cols wh =
     (case find (\<lambda>c. \<not> has_column names c) cols of
        None \<Rightarrow> Inr () | Some c \<Rightarrow> Inl (InvalidParameter (''Column '' @ quoted c @ '' not found in '' @ wh)))"

text \<open>The document itself or one of its columns.\<close>

definition edit_target :: "string option \<Rightarrow> (jmap \<Rightarrow> api_error + jmap) \<Rightarrow> json \<Rightarrow> api_error + json" where
  "edit_target col f v =
     (case col of
        Some c \<Rightarrow> column_mut c f v
      | None \<Rightarrow> (case v of JObj m \<Rightarrow> try_then (f m) (\<lambda>m'. Inr (JObj m')) | _ \<Rightarrow> Inl (InternalError ''bad document'')))"

section \<open>Editing a document\<close>

definition read_only :: "securable \<Rightarrow> string \<Rightarrow> bool" where
  "read_only sec full \<longleftrightarrow>
     starts_with full ''system.'' \<or> sec = Catalog \<and> full = SYSTEM_CATALOG \<or> has_infix full ''.information_schema''"

definition stamped :: "int \<Rightarrow> string \<Rightarrow> json \<Rightarrow> json" where
  "stamped now user v = j_set ''updated_by'' (JStr user) (j_set ''updated_at'' (JInt now) v)"

definition uc_mutate :: "principal \<Rightarrow> securable \<Rightarrow> string \<Rightarrow> (json \<Rightarrow> api_error + json) \<Rightarrow> json cm" where
  "uc_mutate p sec full f =
     h_then (c_lift (kind_of sec)) (\<lambda>kind.
     h_then (uc_require kind full (what_of sec)) (\<lambda>_.
       if read_only sec full
       then h_fail (PermissionDenied (what_of sec @ '' '' @ quoted full @ '' is read-only''))
       else h_then (c_authorizer p) (\<lambda>az.
            h_then (c_can (az_can_manage sec full) az) (\<lambda>(ok, _).
              if \<not> ok then h_fail (PermissionDenied (''[INSUFFICIENT_PERMISSIONS] User '' @ p_user_name p @ '' does not own '' @
                what_of sec @ '' '' @ quoted full @ '' and does not have MANAGE on it.''))
              else h_then c_now (\<lambda>now. h_then c_now (\<lambda>now'. h_then c_now (\<lambda>now''.
                   h_then (c_store (store_update now' now'' kind (uc_doc_id kind full) (what_of sec)
                     (\<lambda>v. try_then (f v) (\<lambda>v'. Inr (stamped now (p_user_name p) v'))))) (\<lambda>d.
                   h_then (if kind = KIND_TABLE then h_then (broadcast_table (d_data d)) (\<lambda>_. h_ret ()) else h_ret ()) (\<lambda>_.
                   h_ret (d_data d))))))))))"

section \<open>Tags and comments\<close>

fun insert_tags :: "(string \<times> string) list \<Rightarrow> jmap \<Rightarrow> api_error + jmap" where
  "insert_tags [] o0 = Inr o0"
| "insert_tags ((k, v) # kvs) o0 =
     (if trim k = [] then Inl (InvalidParameter ''tag key must not be empty'')
      else insert_tags kvs (bt_insert k (JStr v) o0))"

definition tags_of :: "jmap \<Rightarrow> jmap" where
  "tags_of m = or_default [] (Option.bind (map_of m ''tags'') as_object)"

definition set_tags :: "(string \<times> string) list \<Rightarrow> jmap \<Rightarrow> api_error + jmap" where
  "set_tags kvs m = try_then (insert_tags kvs (tags_of m)) (\<lambda>o'. Inr (bt_insert ''tags'' (JObj o') m))"

definition unset_tags :: "string list \<Rightarrow> jmap \<Rightarrow> api_error + jmap" where
  "unset_tags keys m =
     Inr (adjust ''tags'' (\<lambda>t. case t of JObj o' \<Rightarrow> JObj (filter (\<lambda>(k, _). k \<notin> set keys) o') | _ \<Rightarrow> t) m)"

definition uc_set_tags :: "principal \<Rightarrow> securable \<Rightarrow> string \<Rightarrow> string option \<Rightarrow> (string \<times> string) list \<Rightarrow> json cm" where
  "uc_set_tags p sec full col kvs = uc_mutate p sec full (edit_target col (set_tags kvs))"

definition uc_unset_tags :: "principal \<Rightarrow> securable \<Rightarrow> string \<Rightarrow> string option \<Rightarrow> string list \<Rightarrow> json cm" where
  "uc_unset_tags p sec full col keys = uc_mutate p sec full (edit_target col (unset_tags keys))"

definition tag_row :: "string \<Rightarrow> string \<Rightarrow> string \<times> json \<Rightarrow> json" where
  "tag_row et en kv = jobj [(''entity_type'', JStr et), (''entity_name'', JStr en), (''tag_key'', JStr (fst kv)), (''tag_value'', snd kv)]"

definition column_tag_rows :: "string \<Rightarrow> json \<Rightarrow> json list" where
  "column_tag_rows full c =
     (case (as_str (j_get c ''name''), as_object (j_get c ''tags'')) of
        (Some n, Some t) \<Rightarrow> map (tag_row ''columns'' (full @ ''.'' @ n)) t | _ \<Rightarrow> [])"

definition tag_rows :: "securable \<Rightarrow> string \<Rightarrow> json \<Rightarrow> json list" where
  "tag_rows sec full d =
     map (tag_row (to_lower (api_type sec) @ ''s'') full) (or_default [] (as_object (j_get d ''tags''))) @
     (if sec = Table then concat (map (column_tag_rows full) (or_default [] (as_array (j_get d ''columns'')))) else [])"

definition uc_tag_assignments :: "principal \<Rightarrow> securable \<Rightarrow> string \<Rightarrow> json list cm" where
  "uc_tag_assignments p sec full =
     h_then (c_lift (kind_of sec)) (\<lambda>kind.
     h_then (uc_get_visible p kind sec full (what_of sec)) (\<lambda>d. h_ret (tag_rows sec full d)))"

definition set_comment :: "string option \<Rightarrow> jmap \<Rightarrow> api_error + jmap" where
  "set_comment comment m = Inr (case comment of
     Some c \<Rightarrow> bt_insert ''comment'' (JStr c) m | None \<Rightarrow> filter (\<lambda>(k, _). k \<noteq> ''comment'') m)"

definition uc_set_comment :: "principal \<Rightarrow> securable \<Rightarrow> string \<Rightarrow> string option \<Rightarrow> string option \<Rightarrow> json cm" where
  "uc_set_comment p sec full col comment = uc_mutate p sec full (edit_target col (set_comment comment))"

section \<open>Row filters and column masks\<close>

definition require_policy_function :: "principal \<Rightarrow> string \<Rightarrow> json cm" where
  "require_policy_function p func =
     h_then (uc_require KIND_FUNCTION func ''Function'') (\<lambda>f.
     h_then (c_authorizer p) (\<lambda>az.
     h_then (c_az (az_require Function func ''EXECUTE'') az) (\<lambda>_.
       if j_get f ''routine_body'' \<noteq> JStr ''SQL''
       then h_fail (InvalidParameter (''Function '' @ quoted func @ '' must be a SQL function to be used as a policy''))
       else h_ret f)))"

definition param_count :: "json \<Rightarrow> nat" where
  "param_count f = length (or_default [] (as_array (j_get (j_get f ''input_params'') ''parameters'')))"

definition strs :: "string list \<Rightarrow> json" where
  "strs xs = JArr (map JStr xs)"

definition with_row_filter :: "string \<Rightarrow> string \<Rightarrow> string list \<Rightarrow> json \<Rightarrow> api_error + json" where
  "with_row_filter table func cols v =
     try_then (require_columns (column_names v) cols (''table '' @ quoted table)) (\<lambda>_.
       Inr (j_set ''row_filter'' (jobj [(''function_name'', JStr func), (''input_column_names'', strs cols)]) v))"

definition uc_set_row_filter :: "principal \<Rightarrow> string \<Rightarrow> string \<Rightarrow> string list \<Rightarrow> json cm" where
  "uc_set_row_filter p table func cols =
     h_then (require_policy_function p func) (\<lambda>f.
       if param_count f \<noteq> length cols
       then h_fail (InvalidParameter (''Row filter '' @ quoted func @ '' takes '' @ show_int (int (param_count f)) @ '' argument(s) but '' @
         show_int (int (length cols)) @ '' column(s) were given''))
       else uc_mutate p Table table (with_row_filter table func cols))"

definition uc_drop_row_filter :: "principal \<Rightarrow> string \<Rightarrow> json cm" where
  "uc_drop_row_filter p table = uc_mutate p Table table (\<lambda>v. Inr (j_remove ''row_filter'' v))"

definition with_mask :: "string \<Rightarrow> string \<Rightarrow> string \<Rightarrow> string list \<Rightarrow> json \<Rightarrow> api_error + json" where
  "with_mask table col func using_cols v =
     try_then (require_columns (column_names v) using_cols (''table '' @ quoted table)) (\<lambda>_.
       column_mut col (\<lambda>m. Inr (bt_insert ''mask''
         (jobj [(''function_name'', JStr func), (''using_column_names'', strs using_cols)]) m)) v)"

definition uc_set_column_mask :: "principal \<Rightarrow> string \<Rightarrow> string \<Rightarrow> string \<Rightarrow> string list \<Rightarrow> json cm" where
  "uc_set_column_mask p table col func using_cols =
     h_then (require_policy_function p func) (\<lambda>f.
       if param_count f \<noteq> length using_cols + 1
       then h_fail (InvalidParameter (''Mask '' @ quoted func @ '' takes '' @ show_int (int (param_count f)) @
         '' argument(s); the masked column plus '' @ show_int (int (length using_cols)) @ '' USING column(s) were given''))
       else uc_mutate p Table table (with_mask table col func using_cols))"

definition uc_drop_column_mask :: "principal \<Rightarrow> string \<Rightarrow> string \<Rightarrow> json cm" where
  "uc_drop_column_mask p table col =
     uc_mutate p Table table (column_mut col (\<lambda>m. Inr (filter (\<lambda>(k, _). k \<noteq> ''mask'') m)))"

section \<open>Constraints\<close>

definition constraint_kinds :: "string list" where
  "constraint_kinds = [''primary_key_constraint'', ''foreign_key_constraint'', ''named_table_constraint'', ''check_constraint'']"

fun first_name :: "string list \<Rightarrow> json \<Rightarrow> string option" where
  "first_name [] c = None"
| "first_name (k # ks) c =
     (case Option.bind (j_field c k) (\<lambda>x. as_str (j_get x ''name'')) of Some n \<Rightarrow> Some n | None \<Rightarrow> first_name ks c)"

definition constraint_name :: "json \<Rightarrow> api_error + string" where
  "constraint_name c = (case first_name constraint_kinds c of Some n \<Rightarrow> Inr n
     | None \<Rightarrow> Inl (InvalidParameter (''constraint must be one of primary_key_constraint, foreign_key_constraint, '' @
         ''named_table_constraint, check_constraint with a name'')))"

definition constraints_of :: "json \<Rightarrow> json list" where
  "constraints_of v = or_default [] (as_array (j_get v ''table_constraints''))"

definition strings_of :: "json \<Rightarrow> string list" where
  "strings_of v = List.map_filter as_str (or_default [] (as_array v))"

definition own_columns :: "json \<Rightarrow> string list" where
  "own_columns c =
     (case j_field c ''primary_key_constraint'' of
        Some k \<Rightarrow> strings_of (j_get k ''child_columns'')
      | None \<Rightarrow> (case j_field c ''foreign_key_constraint'' of
          Some k \<Rightarrow> strings_of (j_get k ''child_columns'') | None \<Rightarrow> []))"

definition is_primary :: "json \<Rightarrow> bool" where
  "is_primary c \<longleftrightarrow> j_field c ''primary_key_constraint'' \<noteq> None"

definition delta_key :: "string \<Rightarrow> string" where
  "delta_key name = ''delta.constraints.'' @ name"

definition set_check :: "string \<Rightarrow> json \<Rightarrow> json \<Rightarrow> json" where
  "set_check name chk v =
     (case v of
        JObj m \<Rightarrow> JObj (adjust ''properties'' (\<lambda>ps. case ps of
            JObj o' \<Rightarrow> JObj (bt_insert (delta_key name) (JStr (or_default [] (as_str (j_get chk ''expression'')))) o')
          | _ \<Rightarrow> ps) (or_insert ''properties'' (JObj []) m))
      | _ \<Rightarrow> v)"

definition add_constraint :: "string \<Rightarrow> string \<Rightarrow> json \<Rightarrow> json \<Rightarrow> api_error + json" where
  "add_constraint table name c v =
     try_then (require_columns (column_names v) (own_columns c) (''table '' @ quoted table)) (\<lambda>_.
       if list_ex (\<lambda>x. constraint_name x = Inr name) (constraints_of v)
       then Inl (AlreadyExists (''Constraint '' @ quoted name @ '' already exists on '' @ quoted table))
       else if is_primary c \<and> list_ex is_primary (constraints_of v)
       then Inl (AlreadyExists (''Table '' @ quoted table @ '' already has a primary key''))
       else let v1 = j_set ''table_constraints'' (JArr (constraints_of v @ [c])) v in
            Inr (case j_field c ''check_constraint'' of Some chk \<Rightarrow> set_check name chk v1 | None \<Rightarrow> v1))"

definition check_parent :: "principal \<Rightarrow> json \<Rightarrow> unit cm" where
  "check_parent p fk =
     (case as_str (j_get fk ''parent_table'') of
        None \<Rightarrow> h_fail (InvalidParameter ''foreign_key_constraint.parent_table is required'')
      | Some parent \<Rightarrow>
          h_then (uc_require KIND_TABLE parent ''Table'') (\<lambda>pd.
          h_then (c_authorizer p) (\<lambda>az.
          h_then (c_az (az_require Table parent ''SELECT'') az) (\<lambda>_.
          c_lift (require_columns (column_names pd) (strings_of (j_get fk ''parent_columns'')) (''parent table '' @ quoted parent))))))"

definition uc_add_constraint :: "principal \<Rightarrow> string \<Rightarrow> json \<Rightarrow> json cm" where
  "uc_add_constraint p table c =
     h_then (c_lift (constraint_name c)) (\<lambda>name.
     h_then (case j_field c ''foreign_key_constraint'' of None \<Rightarrow> h_ret () | Some fk \<Rightarrow> check_parent p fk) (\<lambda>_.
     uc_mutate p Table table (add_constraint table name c)))"

text \<open>\<open>v[k].as_array_mut()\<close> and \<open>v[k].as_object_mut()\<close>: the mutable index puts \<open>Null\<close> where the key is
  missing.\<close>

definition edit_field :: "string \<Rightarrow> (json \<Rightarrow> json) \<Rightarrow> json \<Rightarrow> json" where
  "edit_field k f v = (case v of JObj m \<Rightarrow> JObj (adjust k f (or_insert k JNull m)) | JNull \<Rightarrow> JObj [(k, JNull)] | _ \<Rightarrow> v)"

definition retain :: "(json \<Rightarrow> bool) \<Rightarrow> json \<Rightarrow> json" where
  "retain P v = (case v of JArr xs \<Rightarrow> JArr (filter P xs) | _ \<Rightarrow> v)"

definition drop_foreign_key :: "string \<Rightarrow> json \<Rightarrow> api_error + json" where
  "drop_foreign_key fk v =
     Inr (edit_field ''table_constraints'' (retain (\<lambda>x. j_get (j_get x ''foreign_key_constraint'') ''name'' \<noteq> JStr fk)) v)"

definition drop_constraint :: "string \<Rightarrow> string \<Rightarrow> json \<Rightarrow> api_error + json" where
  "drop_constraint table name v =
     (let v1 = edit_field ''table_constraints'' (retain (\<lambda>x. constraint_name x \<noteq> Inr name)) v
      in if length (constraints_of v1) = length (constraints_of v)
         then Inl (NotFound (''Constraint '' @ quoted name @ '' not found on '' @ quoted table))
         else Inr (edit_field ''properties'' (\<lambda>ps. case ps of
                JObj o' \<Rightarrow> JObj (filter (\<lambda>(k, _). k \<noteq> delta_key name) o') | _ \<Rightarrow> ps) v1))"

definition references :: "string \<Rightarrow> doc \<Rightarrow> (string \<times> string) list" where
  "references table d =
     List.map_filter (\<lambda>c. case j_field c ''foreign_key_constraint'' of
         None \<Rightarrow> None
       | Some fk \<Rightarrow> if j_get fk ''parent_table'' = JStr table
                   then Some (or_default [] (d_name d), or_default [] (as_str (j_get fk ''name''))) else None)
       (constraints_of (d_data d))"

definition primary_named :: "string \<Rightarrow> json \<Rightarrow> bool" where
  "primary_named name v \<longleftrightarrow> list_ex (\<lambda>c. j_get (j_get c ''primary_key_constraint'') ''name'' = JStr name) (constraints_of v)"

definition uc_drop_constraint :: "principal \<Rightarrow> string \<Rightarrow> string \<Rightarrow> bool \<Rightarrow> json cm" where
  "uc_drop_constraint p table name cascade =
     h_then (c_list KIND_TABLE default_filter) (\<lambda>docs.
       let refs = concat (map (references table) docs) in
       h_then (uc_require KIND_TABLE table ''Table'') (\<lambda>v.
       h_then (if primary_named name v \<and> refs \<noteq> []
               then if \<not> cascade
                    then h_fail (InvalidState (''Primary key '' @ quoted name @ '' is referenced by foreign keys ('' @
                      join_with '', '' (map (\<lambda>(t, c). t @ ''.'' @ c) refs) @ ''); use cascade=true''))
                    else h_each (\<lambda>(t, c). h_then (uc_mutate p Table t (drop_foreign_key c)) (\<lambda>_. h_ret ())) refs
               else h_ret ()) (\<lambda>_.
       uc_mutate p Table table (drop_constraint table name))))"

section \<open>Workspace bindings\<close>

definition bound_here :: "json \<Rightarrow> bool" where
  "bound_here b \<longleftrightarrow> as_str (j_get b ''workspace_id'') = Some workspace_id \<or>
     map_option show_int (as_int (j_get b ''workspace_id'')) = Some workspace_id"

definition bindings_of :: "json \<Rightarrow> json list" where
  "bindings_of v = or_default [] (as_array (j_get v ''workspace_bindings''))"

definition catalog_bound_here :: "json \<Rightarrow> bool" where
  "catalog_bound_here cat \<longleftrightarrow> j_get cat ''isolation_mode'' \<noteq> JStr ''ISOLATED'' \<or> list_ex bound_here (bindings_of cat)"

definition uc_bindings :: "principal \<Rightarrow> securable \<Rightarrow> string \<Rightarrow> json list cm" where
  "uc_bindings p sec name =
     h_then (c_lift (kind_of sec)) (\<lambda>kind.
     h_then (uc_get_visible p kind sec name (what_of sec)) (\<lambda>d. h_ret (bindings_of d)))"

definition unbind :: "json \<Rightarrow> json list \<Rightarrow> json list" where
  "unbind i bs = filter (\<lambda>b. j_get b ''workspace_id'' \<noteq> i) bs"

fun bind_all :: "json list \<Rightarrow> json list \<Rightarrow> api_error + json list" where
  "bind_all [] bs = Inr bs"
| "bind_all (a # as) bs =
     (let i = j_get a ''workspace_id'';
          bt = or_default ''BINDING_TYPE_READ_WRITE'' (as_str (j_get a ''binding_type''))
      in if i = JNull then Inl (InvalidParameter ''workspace_id is required'')
         else if bt \<notin> {''BINDING_TYPE_READ_WRITE'', ''BINDING_TYPE_READ_ONLY''}
         then Inl (InvalidParameter (''unknown binding_type '' @ quoted bt))
         else bind_all as (unbind i bs @ [jobj [(''workspace_id'', i), (''binding_type'', JStr bt)]]))"

definition rebind :: "json list \<Rightarrow> json list \<Rightarrow> json \<Rightarrow> api_error + json" where
  "rebind add remove v =
     try_then (bind_all add (fold (\<lambda>r. unbind (j_get r ''workspace_id'')) remove (bindings_of v))) (\<lambda>bs.
       Inr (j_set ''workspace_bindings'' (JArr bs) v))"

definition uc_update_bindings :: "principal \<Rightarrow> securable \<Rightarrow> string \<Rightarrow> json list \<Rightarrow> json list \<Rightarrow> json list cm" where
  "uc_update_bindings p sec name add remove =
     h_then (uc_mutate p sec name (rebind add remove)) (\<lambda>d. h_ret (bindings_of d))"

section \<open>System schemas\<close>

text \<open>The parser of JSON texts: its error, or the value.\<close>

type_synonym json_parser = "string \<Rightarrow> string + json"

definition enabled_system_schemas :: "json_parser \<Rightarrow> app_state \<Rightarrow> string list" where
  "enabled_system_schemas parse st =
     (case kv_get KV_SYSTEM_SCHEMAS (as_store st) of
        None \<Rightarrow> DEFAULT_ENABLED_SYSTEM_SCHEMAS
      | Some b \<Rightarrow> (case Option.bind (case parse b of Inl _ \<Rightarrow> None | Inr v \<Rightarrow> Some v) as_array of
          None \<Rightarrow> [] | Some xs \<Rightarrow> if list_all (\<lambda>x. as_str x \<noteq> None) xs then List.map_filter as_str xs else []))"

definition c_kv_set :: "string \<Rightarrow> string \<Rightarrow> unit cm" where
  "c_kv_set k v = c_store (\<lambda>s. (Inr (), kv_set k v s))"

definition set_system_schema :: "json_parser \<Rightarrow> principal \<Rightarrow> string \<Rightarrow> bool \<Rightarrow> unit cm" where
  "set_system_schema parse p schema enabled =
     (if \<not> p_is_admin p then h_fail (PermissionDenied ''Only metastore admins can enable system schemas'')
      else if schema \<notin> set SYSTEM_SCHEMAS then h_fail (NotFound (''System schema '' @ quoted schema @ '' does not exist''))
      else if schema = ''information_schema'' \<and> \<not> enabled
      then h_fail (InvalidParameter ''information_schema cannot be disabled'')
      else h_then (c_ask (enabled_system_schemas parse)) (\<lambda>cur.
           let kept = filter (\<lambda>s. s \<noteq> schema) cur
           in c_kv_set KV_SYSTEM_SCHEMAS (show_json (strs (if enabled then kept @ [schema] else kept)))))"

definition list_system_schemas :: "json_parser \<Rightarrow> json cm" where
  "list_system_schemas parse =
     h_then (c_ask (enabled_system_schemas parse)) (\<lambda>cur.
     h_ret (jobj [(''schemas'', JArr (map (\<lambda>s. jobj [(''schema'', JStr s),
       (''state'', JStr (if s \<in> set cur then ''ENABLE_COMPLETED'' else ''AVAILABLE''))]) SYSTEM_SCHEMAS))]))"

section \<open>Temporary table credentials\<close>

definition credential_privilege :: "string \<Rightarrow> api_error + string" where
  "credential_privilege op =
     (if op = ''READ'' then Inr ''SELECT'' else if op = ''READ_WRITE'' then Inr ''MODIFY''
      else Inl (InvalidParameter (''unknown operation '' @ quoted op @ ''; expected READ or READ_WRITE'')))"

text \<open>The token's value comes from the random generator; \<open>cloud\<close> and \<open>public_url\<close> are settings.\<close>

definition temporary_table_credential ::
  "auth_lib \<Rightarrow> string \<Rightarrow> string \<Rightarrow> string \<Rightarrow> principal \<Rightarrow> string \<Rightarrow> string \<Rightarrow> json cm"
where
  "temporary_table_credential alib tokval cloud public_url p table_id op =
     h_then (c_list KIND_TABLE default_filter) (\<lambda>docs.
       case find (\<lambda>t. j_get t ''table_id'' = JStr table_id) (map d_data docs) of
         None \<Rightarrow> h_fail (NotFound (''Table with id '' @ quoted table_id @ '' not found''))
       | Some t \<Rightarrow>
           (let full = or_default [] (as_str (j_get t ''full_name'')) in
            h_then (c_authorizer p) (\<lambda>az.
            h_then (c_lift (credential_privilege op)) (\<lambda>privilege.
            h_then (c_az (az_require_use_path full) az) (\<lambda>az.
            h_then (c_az (az_require Table full privilege) az) (\<lambda>az.
            h_then (if privilege = ''MODIFY'' then c_az (az_require Table full ''SELECT'') az else h_ret az) (\<lambda>_.
            h_then c_now (\<lambda>now. h_then c_uuid (\<lambda>uuid. h_then c_now (\<lambda>now'. h_then c_now (\<lambda>now''.
            h_then (c_store (create_token alib tokval uuid now' now'' p (''temporary table credential for '' @ full)
                      (Some TEMP_CREDENTIAL_TTL_SECS))) (\<lambda>(val, _).
              let files = (''files_api'', JStr (public_url @ ''/api/2.0/fs/files''));
                  bearer = (''bearer_token'', JStr val);
                  note = (''note'', JStr (''cloud credential vending is not implemented; use the Files API with this token''))
              in h_ret (jobj [(''url'', JStr (or_default [] (as_str (j_get t ''storage_location'')))),
                   (''expiration_time'', JInt (now + TEMP_CREDENTIAL_TTL_SECS * 1000)),
                   (''lakeforge_credentials'', jobj (if cloud \<in> {''aws'', ''gcp'', ''azure''}
                     then [bearer, files, note] else [bearer, files]))])))))))))))))"

section \<open>Artifact allowlists\<close>

definition validate_artifact_type :: "string \<Rightarrow> api_error + unit" where
  "validate_artifact_type t =
     (if t \<in> {''INIT_SCRIPT'', ''LIBRARY_JAR'', ''LIBRARY_MAVEN''} then Inr ()
      else Inl (InvalidParameter (''unknown artifact_type '' @ quoted t @ ''; expected INIT_SCRIPT, LIBRARY_JAR or LIBRARY_MAVEN'')))"

definition allowlist_key :: "string \<Rightarrow> string" where
  "allowlist_key t = ''uc_artifact_allowlist:'' @ t"

definition artifact_allowlist :: "json_parser \<Rightarrow> string \<Rightarrow> json cm" where
  "artifact_allowlist parse t =
     h_then (c_lift (validate_artifact_type t)) (\<lambda>_.
     h_then (c_ask (\<lambda>st. kv_get (allowlist_key t) (as_store st))) (\<lambda>b.
       case b of
         None \<Rightarrow> h_ret (jobj [(''artifact_matchers'', JArr []), (''metastore_id'', JStr METASTORE_ID)])
       | Some s \<Rightarrow> (case parse s of Inr v \<Rightarrow> h_ret v | Inl e \<Rightarrow> h_fail (InvalidParameter (''malformed JSON: '' @ e)))))"

definition check_matcher :: "json \<Rightarrow> api_error + unit" where
  "check_matcher m =
     (case as_str (j_get m ''artifact'') of
        None \<Rightarrow> Inl (InvalidParameter ''artifact_matchers[].artifact is required'')
      | Some a \<Rightarrow>
          if trim a = [] then Inl (InvalidParameter ''artifact must not be empty'')
          else let mt = or_default ''PREFIX_MATCH'' (as_str (j_get m ''match_type'')) in
               if mt \<noteq> ''PREFIX_MATCH'' then Inl (InvalidParameter (''unknown match_type '' @ quoted mt)) else Inr ())"

definition matcher_json :: "json \<Rightarrow> json" where
  "matcher_json m = jobj [(''artifact'', j_get m ''artifact''),
     (''match_type'', JStr (or_default ''PREFIX_MATCH'' (as_str (j_get m ''match_type''))))]"

definition set_artifact_allowlist :: "principal \<Rightarrow> string \<Rightarrow> json list \<Rightarrow> json cm" where
  "set_artifact_allowlist p t matchers =
     h_then (c_lift (validate_artifact_type t)) (\<lambda>_.
       if \<not> p_is_admin p then h_fail (PermissionDenied ''Only metastore admins can edit artifact allowlists'')
       else h_then (h_each (\<lambda>m. c_lift (check_matcher m)) matchers) (\<lambda>_.
            h_then c_now (\<lambda>now.
              let v = jobj [(''artifact_matchers'', JArr (map matcher_json matchers)), (''metastore_id'', JStr METASTORE_ID),
                        (''created_at'', JInt now), (''created_by'', JStr (p_user_name p))] in
              h_then (c_kv_set (allowlist_key t) (show_json v)) (\<lambda>_. h_ret v))))"

definition artifact_allowed :: "json_parser \<Rightarrow> string \<Rightarrow> string \<Rightarrow> bool cm" where
  "artifact_allowed parse t artifact =
     h_then (artifact_allowlist parse t) (\<lambda>l.
     h_ret (list_ex (\<lambda>m. case as_str (j_get m ''artifact'') of Some a \<Rightarrow> starts_with artifact a | None \<Rightarrow> False)
       (or_default [] (as_array (j_get l ''artifact_matchers'')))))"

section \<open>Endpoints\<close>

definition entity :: "string \<Rightarrow> string \<Rightarrow> api_error + securable \<times> string \<times> string option" where
  "entity et en =
     (if et = ''catalogs'' then Inr (Catalog, en, None)
      else if et = ''schemas'' then Inr (Schema, en, None)
      else if et = ''tables'' then Inr (Table, en, None)
      else if et = ''volumes'' then Inr (Volume, en, None)
      else if et = ''functions'' then Inr (Function, en, None)
      else if et = ''columns'' then (case rsplit_once (CHR ''.'') en of
             Some (t, c) \<Rightarrow> Inr (Table, t, Some c)
           | None \<Rightarrow> Inl (InvalidParameter ''column entity_name must be catalog.schema.table.column''))
      else Inl (InvalidParameter (''unknown entity_type '' @ quoted et)))"

definition binding_securable :: "string \<Rightarrow> api_error + securable" where
  "binding_securable t =
     (if t = ''catalog'' then Inr Catalog
      else if t \<in> {''external_location'', ''external-location''} then Inr ExternalLocation
      else if t \<in> {''storage_credential'', ''storage-credential'', ''credential''} then Inr StorageCredential
      else Inl (InvalidParameter (''unknown securable_type '' @ quoted t)))"

definition list_tags :: "principal \<Rightarrow> string \<Rightarrow> string \<Rightarrow> json cm" where
  "list_tags p et en =
     h_then (c_lift (entity et en)) (\<lambda>(sec, full, _).
     h_then (uc_tag_assignments p sec full) (\<lambda>rows.
     h_ret (jobj [(''tag_assignments'', JArr (filter (\<lambda>t. j_get t ''entity_type'' = JStr et \<and> j_get t ''entity_name'' = JStr en) rows))])))"

definition create_tag :: "principal \<Rightarrow> string \<Rightarrow> string \<Rightarrow> string \<Rightarrow> string \<Rightarrow> json cm" where
  "create_tag p et en k v =
     h_then (c_lift (entity et en)) (\<lambda>(sec, full, col).
     h_then (uc_set_tags p sec full col [(k, v)]) (\<lambda>_. h_ret (tag_row et en (k, JStr v))))"

definition delete_tag :: "principal \<Rightarrow> string \<Rightarrow> string \<Rightarrow> string \<Rightarrow> json cm" where
  "delete_tag p et en k =
     h_then (c_lift (entity et en)) (\<lambda>(sec, full, col).
     h_then (uc_unset_tags p sec full col [k]) (\<lambda>_. h_ret (JObj [])))"

definition workspace_number :: "json \<Rightarrow> int option" where
  "workspace_number b = (case as_int (j_get b ''workspace_id'') of
     Some n \<Rightarrow> Some n | None \<Rightarrow> Option.bind (as_str (j_get b ''workspace_id'')) parse_i64)"

definition get_catalog_bindings :: "principal \<Rightarrow> string \<Rightarrow> json cm" where
  "get_catalog_bindings p name =
     h_then (uc_bindings p Catalog name) (\<lambda>bs.
     h_ret (jobj [(''workspaces'', JArr (map JInt (List.map_filter workspace_number bs)))]))"

definition get_bindings :: "principal \<Rightarrow> string \<Rightarrow> string \<Rightarrow> json cm" where
  "get_bindings p t name =
     h_then (c_lift (binding_securable t)) (\<lambda>sec.
     h_then (uc_bindings p sec name) (\<lambda>bs. h_ret (jobj [(''bindings'', JArr bs)])))"

definition catalog_assignment :: "json \<Rightarrow> json" where
  "catalog_assignment w = jobj [(''workspace_id'', w), (''binding_type'', JStr ''BINDING_TYPE_READ_WRITE'')]"

definition update_catalog_bindings :: "principal \<Rightarrow> string \<Rightarrow> json list \<Rightarrow> json list \<Rightarrow> json cm" where
  "update_catalog_bindings p name add remove =
     h_then (uc_update_bindings p Catalog name (map catalog_assignment add) (map (\<lambda>w. jobj [(''workspace_id'', w)]) remove)) (\<lambda>bs.
     h_ret (jobj [(''workspaces'', JArr (map (\<lambda>b. j_get b ''workspace_id'') bs))]))"

definition update_bindings :: "principal \<Rightarrow> string \<Rightarrow> string \<Rightarrow> json list \<Rightarrow> json list \<Rightarrow> json cm" where
  "update_bindings p t name add remove =
     h_then (c_lift (binding_securable t)) (\<lambda>sec.
     h_then (uc_update_bindings p sec name add remove) (\<lambda>bs. h_ret (jobj [(''bindings'', JArr bs)])))"

text \<open>The system tables by schema, in the order of a \<open>BTreeMap\<close>.\<close>

definition system_table_row :: "string list \<Rightarrow> sys_table \<Rightarrow> json" where
  "system_table_row enabled t = jobj [(''name'', JStr (sy_name t)), (''full_name'', JStr (''system.'' @ sy_schema t @ ''.'' @ sy_name t)),
     (''comment'', JStr (sy_comment t)),
     (''columns'', JArr (map (\<lambda>(n, ty). jobj [(''name'', JStr n), (''type_text'', JStr (type_text ty)), (''type_name'', JStr (type_name ty))])
        (sy_columns t))),
     (''enabled'', JBool (sy_schema t \<in> set enabled))]"

definition by_schema :: "string list \<Rightarrow> jmap" where
  "by_schema enabled =
     fold (\<lambda>t m. bt_insert (sy_schema t)
       (JArr (or_default [] (Option.bind (map_of m (sy_schema t)) as_array) @ [system_table_row enabled t])) m) sys_tables []"

definition list_system_tables :: "json_parser \<Rightarrow> json cm" where
  "list_system_tables parse =
     h_then (c_ask (enabled_system_schemas parse)) (\<lambda>enabled.
     h_ret (jobj [(''schemas'', JArr (map (\<lambda>(s, ts). jobj [(''schema'', JStr s), (''enabled'', JBool (s \<in> set enabled)), (''tables'', ts)])
       (by_schema enabled)))]))"

datatype ext_request =
    SetTag string string string string
  | DeleteTag string string string
  | AddConstraint string json
  | DropConstraint string string bool
  | UpdateCatalogBindings string "json list" "json list"
  | UpdateBindings string string "json list" "json list"
  | SetSystemSchema string bool
  | SetRowFilter string string "string list"
  | DropRowFilter string
  | SetColumnMask string string string "string list"
  | DropColumnMask string string
  | PutAllowlist string "json list"

fun ext_handle :: "json_parser \<Rightarrow> principal \<Rightarrow> ext_request \<Rightarrow> json cm" where
  "ext_handle parse p (SetTag et en k v) = create_tag p et en k v"
| "ext_handle parse p (DeleteTag et en k) = delete_tag p et en k"
| "ext_handle parse p (AddConstraint table c) = uc_add_constraint p table c"
| "ext_handle parse p (DropConstraint table name cascade) =
     h_then (uc_drop_constraint p table name cascade) (\<lambda>_. h_ret (JObj []))"
| "ext_handle parse p (UpdateCatalogBindings name add remove) = update_catalog_bindings p name add remove"
| "ext_handle parse p (UpdateBindings t name add remove) = update_bindings p t name add remove"
| "ext_handle parse p (SetSystemSchema schema enabled) = h_then (set_system_schema parse p schema enabled) (\<lambda>_. h_ret (JObj []))"
| "ext_handle parse p (SetRowFilter table func cols) = uc_set_row_filter p table func cols"
| "ext_handle parse p (DropRowFilter table) = uc_drop_row_filter p table"
| "ext_handle parse p (SetColumnMask table col func cols) = uc_set_column_mask p table col func cols"
| "ext_handle parse p (DropColumnMask table col) = uc_drop_column_mask p table col"
| "ext_handle parse p (PutAllowlist t matchers) = set_artifact_allowlist p t matchers"

end
