(* ===== verification/Uc_SqlAuth.thy ===== *)
theory Uc_SqlAuth
  imports Uc_Extras Uc_GrantSql
begin

text \<open>
  Unity Catalog on the SQL path (\<open>lakeforge-api/src/uc/sqlauth.rs\<close>): a statement is analysed, authorised
  against the privilege model and rewritten before the engine sees it; privilege statements and SQL
  functions are served by the metastore. The analysis and the rewriting walk the syntax tree of a
  third-party parser: they are parameters, as is the view of a syntax tree the code matches on.
\<close>

section \<open>Statements\<close>

record sql_function =
  sf_full_name :: string
  sf_params :: "string list"
  sf_body :: string

record table_policy =
  tp_full_name :: string
  tp_columns :: "string list"
  tp_row_filter :: "(string \<times> string list) option"
  tp_masks :: "string \<rightharpoonup> string \<times> string list"

record session_facts =
  fa_user :: string
  fa_groups :: "string list"

text \<open>What \<open>metastore_op\<close> sees of a parsed statement: a SQL function with its return type, parameters
  and \<open>OR REPLACE\<close>, or the names in a \<open>DROP FUNCTION\<close> with \<open>IF EXISTS\<close>.\<close>

datatype stmt_view =
    VCreateFunction "(sql_function \<times> string \<times> (string \<times> string) list \<times> bool) option"
  | VDropFunction "string list list" bool
  | VOther

record 's sql_lib =
  sl_analyze :: "string \<Rightarrow> string \<Rightarrow> string \<Rightarrow> 's list option \<times> analysis"
  sl_view :: "'s \<Rightarrow> string \<Rightarrow> string \<Rightarrow> stmt_view"
  sl_rewrite :: "'s list \<Rightarrow> (string \<rightharpoonup> table_policy) \<Rightarrow> (string \<rightharpoonup> sql_function) \<Rightarrow> session_facts \<Rightarrow> string \<Rightarrow> string
     \<Rightarrow> string option"
  sl_json :: json_parser

datatype metastore_op =
    OpCreateFunction jmap bool
  | OpDropFunction "string list" bool
  | OpGrant grant_stmt

record prepared_sql =
  ps_sql :: string
  ps_analysis :: analysis
  ps_catalog :: string
  ps_schema :: string
  ps_types :: "string \<rightharpoonup> string"
  ps_op :: "metastore_op option"

definition empty_analysis :: "stmt_kind \<Rightarrow> analysis" where
  "empty_analysis k = \<lparr>an_kind = k, an_reads = [], an_writes = [], an_creates = [], an_owned = [], an_paths = [],
     an_location = None, an_target = None, an_column_edges = [], an_replace = False, an_if_not_exists = False, an_parsed = True\<rparr>"

definition is_write :: "stmt_kind \<Rightarrow> bool" where
  "is_write k \<longleftrightarrow> k \<in> {StInsert, StUpdate, StDelete, StMerge, StTruncate}"

definition is_rewritable :: "stmt_kind \<Rightarrow> bool" where
  "is_rewritable k \<longleftrightarrow> k \<in> {StSelect, StInsert, StUpdate, StDelete, StMerge, StCreateTable, StCreateView, StExplain}"

text \<open>\<open>sqlguard::resolve\<close>.\<close>

definition resolve_parts :: "string list \<Rightarrow> string \<Rightarrow> string \<Rightarrow> string" where
  "resolve_parts parts cat sch =
     (case parts of
        [] \<Rightarrow> []
      | [a] \<Rightarrow> cat @ ''.'' @ sch @ ''.'' @ a
      | [a, b] \<Rightarrow> cat @ ''.'' @ a @ ''.'' @ b
      | _ \<Rightarrow> join_with ''.'' parts)"

definition sql_defaults :: "(string \<Rightarrow> string option) \<Rightarrow> string \<times> string" where
  "sql_defaults conf =
     (let pick = (\<lambda>k d. case conf k of Some s \<Rightarrow> if s = [] then d else s | None \<Rightarrow> d)
      in (pick ''forge.sql.defaultCatalog'' UC_DEFAULT_CATALOG, pick ''forge.sql.defaultSchema'' ''default''))"

definition param_json :: "nat \<times> string \<times> string \<Rightarrow> json" where
  "param_json x = (case x of (i, n, t) \<Rightarrow> jobj [(''name'', JStr n), (''type_text'', JStr t), (''type_name'', JStr (to_upper t)),
     (''position'', JInt (int i))])"

definition function_doc :: "sql_function \<Rightarrow> string \<Rightarrow> (string \<times> string) list \<Rightarrow> jmap option" where
  "function_doc f return_type params =
     (case split_on (CHR ''.'') (sf_full_name f) of
        c # s # name # _ \<Rightarrow> Some (fold (\<lambda>(k, v). bt_insert k v)
          [(''name'', JStr name), (''catalog_name'', JStr c), (''schema_name'', JStr s), (''routine_body'', JStr ''SQL''),
           (''routine_definition'', JStr (sf_body f)), (''data_type'', JStr (to_upper return_type)),
           (''full_data_type'', JStr (to_upper return_type)),
           (''input_params'', jobj [(''parameters'', JArr (map param_json (enumerate 0 params)))])] [])
      | _ \<Rightarrow> None)"

definition metastore_op_of :: "'s sql_lib \<Rightarrow> 's list \<Rightarrow> string \<Rightarrow> string \<Rightarrow> metastore_op option" where
  "metastore_op_of lib stmts cat sch =
     (case stmts of
        [s] \<Rightarrow> (case sl_view lib s cat sch of
            VCreateFunction (Some (f, return_type, params, replace)) \<Rightarrow>
              map_option (\<lambda>d. OpCreateFunction d replace) (function_doc f return_type params)
          | VDropFunction names if_exists \<Rightarrow> Some (OpDropFunction (map (\<lambda>n. resolve_parts n cat sch) names) if_exists)
          | _ \<Rightarrow> None)
      | _ \<Rightarrow> None)"

fun grant_kind :: "grant_stmt \<Rightarrow> stmt_kind" where
  "grant_kind (GShowGrants _ _ _) = StShow"
| "grant_kind (GSetOwner _ _ _) = StAlter"
| "grant_kind _ = StOther"

definition parent_schema :: "string \<Rightarrow> string option" where
  "parent_schema full = (case split_on (CHR ''.'') full of [c, s, _] \<Rightarrow> Some (c @ ''.'' @ s) | _ \<Rightarrow> None)"

definition parent_catalog :: "string \<Rightarrow> string option" where
  "parent_catalog full = (case split_on (CHR ''.'') full of c # _ \<Rightarrow> Some c | [] \<Rightarrow> None)"

section \<open>Authorisation\<close>

definition is_system_table :: "string \<Rightarrow> bool" where
  "is_system_table full =
     (case split_on (CHR ''.'') full of
        [c, s, n] \<Rightarrow> c = SYSTEM_CATALOG \<and> list_ex (\<lambda>t. sy_schema t = s \<and> sy_name t = n) sys_tables | _ \<Rightarrow> False)"

definition governed_table :: "string \<Rightarrow> app_state \<Rightarrow> json option" where
  "governed_table full st =
     (case uc_get KIND_TABLE full st of
        Some t \<Rightarrow> Some t
      | None \<Rightarrow> if is_system_table full then (case split_on (CHR ''.'') full of
            c # s # n # _ \<Rightarrow> virtual_table_doc c s n (as_admin_user st) | _ \<Rightarrow> None) else None)"

abbreviation in_system :: "string \<Rightarrow> bool" where
  "in_system full \<equiv> starts_with full (SYSTEM_CATALOG @ ''.'')"

definition require_system_read :: "json_parser \<Rightarrow> string \<Rightarrow> authorizer \<Rightarrow> authorizer cm" where
  "require_system_read parse full az =
     (let schema = or_default [] (nth_opt 1 (split_on (CHR ''.'') full)) in
      if schema = ''information_schema'' then h_ret az
      else h_then (c_ask (enabled_system_schemas parse)) (\<lambda>enabled.
           if schema \<notin> set enabled
           then h_fail (PermissionDenied (''System schema '' @ quoted schema @ '' is not enabled; enable it via PUT '' @
             ''/api/2.1/unity-catalog/metastores/{id}/systemschemas/'' @ schema))
           else if az_is_admin az then h_ret az
           else c_az (az_require Schema (SYSTEM_CATALOG @ ''.'' @ schema) ''SELECT'') az))"

definition require_visible_parents :: "string \<Rightarrow> authorizer \<Rightarrow> authorizer cm" where
  "require_visible_parents full az =
     (case split_on (CHR ''.'') full of
        [] \<Rightarrow> h_ret az
      | c # rest \<Rightarrow>
          h_then (c_ask (uc_exists Catalog c)) (\<lambda>ex.
          h_then (if ex then c_az (az_require Catalog c ''USE_CATALOG'') az else h_ret az) (\<lambda>az.
            case rest of
              s # _ # _ \<Rightarrow> h_then (c_ask (uc_get KIND_SCHEMA (c @ ''.'' @ s))) (\<lambda>o'.
                if o' \<noteq> None then c_az (az_require Schema (c @ ''.'' @ s) ''USE_SCHEMA'') az else h_ret az)
            | _ \<Rightarrow> h_ret az)))"

type_synonym sql_state = "(string \<rightharpoonup> string) \<times> authorizer"

definition table_type_of :: "json \<Rightarrow> string" where
  "table_type_of t = or_default ''MANAGED'' (as_str (j_get t ''table_type''))"

definition authorize_read :: "json_parser \<Rightarrow> string \<Rightarrow> sql_state \<Rightarrow> sql_state cm" where
  "authorize_read parse full x =
     (case x of (types, az) \<Rightarrow>
        h_then (c_ask (governed_table full)) (\<lambda>g.
        case g of
          Some t \<Rightarrow> h_then (if in_system full then require_system_read parse full az
                           else c_az (az_require_on_object Table full ''SELECT'') az) (\<lambda>az.
                   h_ret (types(full \<mapsto> table_type_of t), az))
        | None \<Rightarrow> h_then (require_visible_parents full az) (\<lambda>az. h_ret (types, az))))"

definition authorize_write :: "string \<Rightarrow> sql_state \<Rightarrow> sql_state cm" where
  "authorize_write full x =
     (case x of (types, az) \<Rightarrow>
        if is_system_table full then h_fail (PermissionDenied (''Table '' @ quoted full @ '' is read-only''))
        else h_then (c_ask (governed_table full)) (\<lambda>g.
          case g of
            Some t \<Rightarrow> h_then (c_az (az_require_on_object Table full ''MODIFY'') az) (\<lambda>az.
                     h_ret (types(full \<mapsto> table_type_of t), az))
          | None \<Rightarrow> h_then (require_visible_parents full az) (\<lambda>az. h_ret (types, az))))"

definition require_create :: "securable \<Rightarrow> string \<Rightarrow> authorizer \<Rightarrow> authorizer cm" where
  "require_create sec full az =
     (let in_schema = (\<lambda>privilege. case parent_schema full of None \<Rightarrow> h_ret az
            | Some s \<Rightarrow> h_then (c_az (az_require_use_path full) az) (\<lambda>az. c_az (az_require Schema s privilege) az))
      in case sec of
           Table \<Rightarrow> in_schema ''CREATE_TABLE''
         | Function \<Rightarrow> in_schema ''CREATE_FUNCTION''
         | Schema \<Rightarrow> (case parent_catalog full of None \<Rightarrow> h_ret az
             | Some c \<Rightarrow> h_then (c_az (az_require Catalog c ''USE_CATALOG'') az) (\<lambda>az. c_az (az_require Catalog c ''CREATE_SCHEMA'') az))
         | _ \<Rightarrow> c_az (az_require_owner sec full) az)"

definition system_read_only :: "string" where
  "system_read_only = ''Catalog '' @ quoted ''system'' @ '' is read-only''"

definition authorize_create :: "analysis \<Rightarrow> securable \<times> string \<Rightarrow> authorizer \<Rightarrow> authorizer cm" where
  "authorize_create an so az =
     (case so of (sec, full) \<Rightarrow>
        if in_system full then h_fail (PermissionDenied system_read_only)
        else h_then (if an_replace an then c_ask (uc_exists sec full) else h_ret False) (\<lambda>replaces.
          if replaces then c_az (az_require_owner sec full) az
          else h_then (require_create sec full az) (\<lambda>az.
               case an_location an of
                 Some loc \<Rightarrow> require_path_privilege loc ''CREATE_EXTERNAL_TABLE'' az
               | None \<Rightarrow> h_ret az)))"

definition authorize_owned :: "securable \<times> string \<Rightarrow> authorizer \<Rightarrow> authorizer cm" where
  "authorize_owned so az =
     (case so of (sec, full) \<Rightarrow>
        if in_system full then h_fail (PermissionDenied system_read_only)
        else h_then (c_ask (uc_exists sec full)) (\<lambda>ex.
          if ex then c_az (az_require_owner sec full) az else require_visible_parents full az))"

definition path_privilege :: "analysis \<Rightarrow> string" where
  "path_privilege an =
     (if is_write (an_kind an) \<and> an_writes an = [] \<and> an_creates an = [] then ''WRITE_FILES'' else ''READ_FILES'')"

fun each_with :: "('x \<Rightarrow> 'y \<Rightarrow> 'y cm) \<Rightarrow> 'x list \<Rightarrow> 'y \<Rightarrow> 'y cm" where
  "each_with f [] y = h_ret y"
| "each_with f (x # xs) y = h_then (f x y) (each_with f xs)"

definition authorize_sql :: "json_parser \<Rightarrow> principal \<Rightarrow> analysis \<Rightarrow> (string \<rightharpoonup> string) cm" where
  "authorize_sql parse p an =
     h_then (c_authorizer p) (\<lambda>az.
     h_then (each_with (authorize_read parse) (an_reads an) (Map.empty, az)) (\<lambda>x.
     h_then (each_with authorize_write (an_writes an) x) (\<lambda>(types, az).
     h_then (each_with (authorize_create an) (an_creates an) az) (\<lambda>az.
     h_then (each_with authorize_owned (an_owned an) az) (\<lambda>az.
     h_then (each_with (\<lambda>path. require_path_privilege path (path_privilege an)) (an_paths an) az) (\<lambda>_.
     h_ret types))))))"

section \<open>Policies and functions\<close>

definition names_in :: "json \<Rightarrow> string list" where
  "names_in v = List.map_filter (\<lambda>c. as_str (j_get c ''name'')) (or_default [] (as_array v))"

definition mask_of :: "json \<Rightarrow> (string \<times> (string \<times> string list)) option" where
  "mask_of c =
     (case (as_str (j_get c ''name''), as_str (j_get (j_get c ''mask'') ''function_name'')) of
        (Some n, Some f) \<Rightarrow> Some (n, (f, strings_of (j_get (j_get c ''mask'') ''using_column_names''))) | _ \<Rightarrow> None)"

definition table_policy_of :: "string \<Rightarrow> json \<Rightarrow> table_policy option" where
  "table_policy_of full t =
     (let masks = List.map_filter mask_of (or_default [] (as_array (j_get t ''columns'')));
          row_filter = map_option (\<lambda>f. (f, strings_of (j_get (j_get t ''row_filter'') ''input_column_names'')))
            (as_str (j_get (j_get t ''row_filter'') ''function_name''))
      in if row_filter \<noteq> None \<or> masks \<noteq> []
         then Some \<lparr>tp_full_name = full, tp_columns = names_in (j_get t ''columns''), tp_row_filter = row_filter,
                tp_masks = fold (\<lambda>(n, f) m. m(n \<mapsto> f)) masks Map.empty\<rparr>
         else None)"

definition table_policies :: "string list \<Rightarrow> app_state \<Rightarrow> (string \<times> table_policy) list" where
  "table_policies tables st =
     List.map_filter (\<lambda>full. Option.bind (uc_get KIND_TABLE full st) (\<lambda>t. map_option (Pair full) (table_policy_of full t))) tables"

definition sql_function_of :: "json \<Rightarrow> sql_function option" where
  "sql_function_of f =
     (if j_get f ''routine_body'' \<noteq> JStr ''SQL'' then None
      else case (as_str (j_get f ''routine_definition''), as_str (j_get f ''full_name'')) of
        (Some body, Some full) \<Rightarrow> if trim body = [] then None
           else Some \<lparr>sf_full_name = full, sf_params = names_in (j_get (j_get f ''input_params'') ''parameters''), sf_body = body\<rparr>
      | _ \<Rightarrow> None)"

text \<open>The last function of a name is the one that counts.\<close>

definition sql_functions :: "app_state \<Rightarrow> (string \<times> sql_function) list" where
  "sql_functions st =
     rev (List.map_filter (\<lambda>d. map_option (\<lambda>f. (sf_full_name f, f)) (sql_function_of (d_data d)))
       (store_list KIND_FUNCTION workspace_id default_filter (as_store st)))"

section \<open>Preparing a statement\<close>

text \<open>The early return of \<open>rewrite_sql\<close> is never taken: its caller asks for a rewritable kind first.\<close>

definition rewrite_sql :: "'s sql_lib \<Rightarrow> principal \<Rightarrow> 's list \<Rightarrow> analysis \<Rightarrow> string \<Rightarrow> string \<Rightarrow> string option cm" where
  "rewrite_sql lib p stmts an cat sch =
     h_then (c_ask (table_policies (an_reads an))) (\<lambda>policies.
     h_then (c_ask sql_functions) (\<lambda>functions.
       h_ret (if policies = [] \<and> functions = [] \<and> \<not> is_rewritable (an_kind an) then None
              else sl_rewrite lib stmts (map_of policies) (map_of functions) \<lparr>fa_user = p_user_name p, fa_groups = p_groups p\<rparr> cat sch)))"

definition prepare_sql :: "'s sql_lib \<Rightarrow> principal \<Rightarrow> string \<Rightarrow> (string \<Rightarrow> string option) \<Rightarrow> prepared_sql cm" where
  "prepare_sql lib p sql conf =
     (let (cat, sch) = sql_defaults conf in
      case grant_parse sql cat sch of
        Some (Inl e) \<Rightarrow> h_fail (InvalidParameter (''[PARSE_SYNTAX_ERROR] '' @ e))
      | Some (Inr stmt) \<Rightarrow>
          h_ret \<lparr>ps_sql = sql, ps_analysis = empty_analysis (grant_kind stmt), ps_catalog = cat, ps_schema = sch,
            ps_types = Map.empty, ps_op = Some (OpGrant stmt)\<rparr>
      | None \<Rightarrow>
          (let (stmts, an) = sl_analyze lib sql cat sch;
               op = Option.bind stmts (\<lambda>s. metastore_op_of lib s cat sch)
           in h_then (authorize_sql (sl_json lib) p an) (\<lambda>types.
              h_then (case stmts of
                        Some s \<Rightarrow> if op = None \<and> is_rewritable (an_kind an) then rewrite_sql lib p s an cat sch else h_ret None
                      | None \<Rightarrow> h_ret None) (\<lambda>rewritten.
              h_ret \<lparr>ps_sql = or_default sql rewritten, ps_analysis = an, ps_catalog = cat, ps_schema = sch, ps_types = types,
                ps_op = op\<rparr>))))"

section \<open>Statements the metastore serves\<close>

type_synonym metastore_output = "string list \<times> string option list list"

definition show_columns :: "string list" where
  "show_columns = [''Principal'', ''ActionType'', ''ObjectType'', ''ObjectKey'']"

definition show_row :: "securable \<Rightarrow> string \<Rightarrow> string \<Rightarrow> json \<Rightarrow> string option list" where
  "show_row sec name who pv =
     (let (t, k) = (case (as_str (j_get pv ''inherited_from_type''), as_str (j_get pv ''inherited_from_name'')) of
            (Some t, Some n) \<Rightarrow> (t, n) | _ \<Rightarrow> (api_type sec, name))
      in [Some who, as_str (j_get pv ''privilege''), Some t, Some k])"

definition show_rows :: "securable \<Rightarrow> string \<Rightarrow> json \<Rightarrow> string option list list" where
  "show_rows sec name eff =
     concat (map (\<lambda>a. map (show_row sec name (or_default [] (as_str (j_get a ''principal''))))
       (or_default [] (as_array (j_get a ''privileges'')))) (or_default [] (as_array (j_get eff ''privilege_assignments''))))"

definition show_grants :: "principal \<Rightarrow> string option \<Rightarrow> securable \<Rightarrow> string \<Rightarrow> metastore_output cm" where
  "show_grants p only sec name =
     h_then (c_ask (uc_exists sec name)) (\<lambda>ex.
       if \<not> ex then h_fail (NotFound (api_type sec @ '' '' @ quoted name @ '' does not exist.''))
       else h_then (c_authorizer p) (\<lambda>az.
            h_then (if sec = Metastore then h_ret (True, az) else c_can (az_can_browse sec name) az) (\<lambda>(ok, az).
              if \<not> ok then h_fail (PermissionDenied (''[INSUFFICIENT_PERMISSIONS] User '' @ p_user_name p @
                '' cannot view grants on '' @ api_type sec @ '' '' @ quoted name @ ''.''))
              else (\<lambda>cs. (Inr (show_columns, show_rows sec name (fst (az_effective sec name only (az\<lparr>az_st := cs_app cs\<rparr>)))), cs)))))"

definition str_part :: "jmap \<Rightarrow> string \<Rightarrow> string" where
  "str_part d k = or_default [] (Option.bind (map_of d k) as_str)"

definition drop_function :: "principal \<Rightarrow> bool \<Rightarrow> string \<Rightarrow> unit cm" where
  "drop_function p if_exists full =
     h_then (c_ask (uc_get KIND_FUNCTION full)) (\<lambda>o'.
       if if_exists \<and> o' = None then h_ret ()
       else uc_delete_in_schema p KIND_FUNCTION Function full ''Function'')"

definition no_output :: metastore_output where
  "no_output = ([], [])"

fun apply_metastore_op :: "cat_lib \<Rightarrow> principal \<Rightarrow> metastore_op \<Rightarrow> metastore_output cm" where
  "apply_metastore_op lib p (OpGrant (GGrant privileges sec name who)) =
     h_then (uc_update_grants p sec name [\<lparr>gc_principal = who, gc_add = privileges, gc_remove = []\<rparr>]) (\<lambda>_. h_ret no_output)"
| "apply_metastore_op lib p (OpGrant (GRevoke privileges sec name who)) =
     h_then (uc_update_grants p sec name [\<lparr>gc_principal = who, gc_add = [], gc_remove = privileges\<rparr>]) (\<lambda>_. h_ret no_output)"
| "apply_metastore_op lib p (OpGrant (GSetOwner sec name who)) =
     (case sec_kind sec of
        None \<Rightarrow> h_fail (InvalidParameter ''Cannot change the owner of the metastore'')
      | Some kind \<Rightarrow> h_then (uc_patch p sec kind name [(''owner'', JStr who)] [''owner''] (api_type sec)) (\<lambda>_. h_ret no_output))"
| "apply_metastore_op lib p (OpGrant (GShowGrants only sec name)) = show_grants p only sec name"
| "apply_metastore_op lib p (OpCreateFunction d replace) =
     (let full = str_part d ''catalog_name'' @ ''.'' @ str_part d ''schema_name'' @ ''.'' @ str_part d ''name'' in
      h_then (c_ask (uc_get KIND_FUNCTION full)) (\<lambda>o'.
      h_then (if replace \<and> o' \<noteq> None then uc_delete_in_schema p KIND_FUNCTION Function full ''Function'' else h_ret ()) (\<lambda>_.
      h_then (uc_create_in_schema lib p KIND_FUNCTION ''Function'' d) (\<lambda>_. h_ret no_output))))"
| "apply_metastore_op lib p (OpDropFunction names if_exists) =
     h_then (h_each (drop_function p if_exists) names) (\<lambda>_. h_ret no_output)"

end
