(* ===== verification/Uc_SqlAuth_Theorems.thy ===== *)
theory Uc_SqlAuth_Theorems
  imports Uc_SqlAuth Uc_Access
begin

text \<open>
  What the SQL path guarantees: the authorisation of a statement is exactly a predicate on the stored
  owners and grants, whatever the authorizer has cached; a statement reaches the engine only when it
  holds; and the statements the metastore serves are refused without the privilege they need.
\<close>

section \<open>Steps that decide\<close>

text \<open>A step over some value and the authorizer passes exactly when \<open>P\<close>, changing the value by \<open>h\<close>.\<close>

definition decides :: "principal \<Rightarrow> cat_state \<Rightarrow> bool \<Rightarrow> ('t \<Rightarrow> 't) \<Rightarrow> ('t \<times> authorizer \<Rightarrow> ('t \<times> authorizer) cm) \<Rightarrow> bool" where
  "decides p cs P h f \<longleftrightarrow> (\<forall>t az. az_ok (cs_app cs) p az \<longrightarrow>
     (if P then \<exists>az'. f (t, az) cs = (Inr (h t, az'), cs) \<and> az_ok (cs_app cs) p az' else \<exists>e. f (t, az) cs = (Inl e, cs)))"

text \<open>The same without a value.\<close>

definition settles :: "principal \<Rightarrow> cat_state \<Rightarrow> bool \<Rightarrow> (authorizer \<Rightarrow> authorizer cm) \<Rightarrow> bool" where
  "settles p cs P f \<longleftrightarrow> (\<forall>az. az_ok (cs_app cs) p az \<longrightarrow>
     (if P then \<exists>az'. f az cs = (Inr az', cs) \<and> az_ok (cs_app cs) p az' else \<exists>e. f az cs = (Inl e, cs)))"

named_theorems settling \<open>how steps over the authorizer settle\<close>

lemma settles_basic [settling]: "settles p cs True h_ret" "settles p cs False (\<lambda>_. h_fail e)"
  by (simp_all add: settles_def h_basic)

lemma settles_then [settling]:
  assumes "settles p cs P f" and "settles p cs Q g"
  shows "settles p cs (P \<and> Q) (\<lambda>az. h_then (f az) g)"
  unfolding settles_def
proof (intro allI impI)
  fix az assume ok: "az_ok (cs_app cs) p az"
  show "if P \<and> Q then \<exists>az'. h_then (f az) g cs = (Inr az', cs) \<and> az_ok (cs_app cs) p az' else \<exists>e. h_then (f az) g cs = (Inl e, cs)"
  proof (cases P)
    case True
    with assms(1) ok obtain az' where 1: "f az cs = (Inr az', cs)" "az_ok (cs_app cs) p az'" by (auto simp: settles_def)
    with assms(2) True show ?thesis by (auto simp: settles_def h_then_step [where m = "f az", OF 1(1)])
  next
    case False
    with assms(1) ok obtain e where "f az cs = (Inl e, cs)" by (auto simp: settles_def)
    with False show ?thesis by (simp add: h_then_stop)
  qed
qed

lemma settles_ask [settling]:
  "settles p cs P (f (q (cs_app cs))) \<Longrightarrow> settles p cs P (\<lambda>az. h_then (c_ask q) (\<lambda>x. f x az))"
  by (simp add: settles_def h_then_def cm_simps)

lemma settles_if [settling]:
  "(b \<Longrightarrow> settles p cs P f) \<Longrightarrow> (\<not> b \<Longrightarrow> settles p cs Q g) \<Longrightarrow> settles p cs (if b then P else Q) (\<lambda>az. if b then f az else g az)"
  by (cases b) simp_all

lemma settles_az:
  assumes "answers (cs_app cs) p g v"
  shows "settles p cs (v = Inr ()) (c_az g)"
  unfolding settles_def
proof (intro allI impI)
  fix az assume ok: "az_ok (cs_app cs) p az"
  obtain az' where "c_az g az cs = ((case v of Inl e \<Rightarrow> Inl e | Inr _ \<Rightarrow> Inr az'), cs)" "az_ok (cs_app cs) p az'"
    by (rule c_az_answer [OF ok assms])
  then show "if v = Inr () then \<exists>az'. c_az g az cs = (Inr az', cs) \<and> az_ok (cs_app cs) p az' else \<exists>e. c_az g az cs = (Inl e, cs)"
    by (cases v) auto
qed

lemma settles_require [settling]: "settles p cs (holds (cs_app cs) p sec n priv) (c_az (az_require sec n priv))"
  using settles_az [OF answers_require, of p cs sec n priv] by (simp add: require_ref_def split: if_splits)

lemma settles_owner [settling]: "settles p cs (manages (cs_app cs) p sec n) (c_az (az_require_owner sec n))"
  using settles_az [OF answers_require_owner, of p cs sec n] by (simp add: manages_def split: if_splits)

lemma settles_use_path [settling]: "settles p cs (use_path_ref (cs_app cs) p n = Inr ()) (c_az (az_require_use_path n))"
  by (rule settles_az [OF answers_use_path])

definition object_ok :: "app_state \<Rightarrow> principal \<Rightarrow> string \<Rightarrow> string \<Rightarrow> bool" where
  "object_ok st p full priv \<longleftrightarrow> use_path_ref st p full = Inr () \<and> holds st p Table full priv"

lemma settles_on_object [settling]: "settles p cs (object_ok (cs_app cs) p full priv) (c_az (az_require_on_object Table full priv))"
  using settles_az [OF answers_on_object, of p cs full Table priv]
  by (simp add: object_ok_def require_ref_def try_then_def split: sum.splits if_splits)

lemma settles_path [settling]: "settles p cs (path_allowed (cs_app cs) p url priv) (require_path_privilege url priv)"
proof -
  have list: "c_list KIND_EXT_LOCATION default_filter cs = (Inr (external_locations (cs_app cs)), cs)"
    by (simp add: c_list_def cm_simps external_locations_def)
  show ?thesis
    unfolding settles_def
  proof (intro allI impI)
    fix az assume ok: "az_ok (cs_app cs) p az"
    then have admin: "az_is_admin az = p_is_admin p" by (simp add: az_is_admin_def)
    let ?best = "fold (better_location url) (external_locations (cs_app cs)) None"
    have run: "\<not> p_is_admin p \<Longrightarrow> require_path_privilege url priv az cs = (case ?best of
          Some (_, name) \<Rightarrow> c_az (az_require ExternalLocation name priv) az
        | None \<Rightarrow> h_fail (PermissionDenied (''[INSUFFICIENT_PERMISSIONS] No external location covers '' @ quoted url @ ''; '' @
            replace_char (CHR ''_'') '' '' (normalize_privilege priv) @ '' requires an external location grant.''))) cs"
      by (simp add: require_path_privilege_def admin h_then_step [where m = "c_list _ _", OF list])
    show "if path_allowed (cs_app cs) p url priv
      then \<exists>az'. require_path_privilege url priv az cs = (Inr az', cs) \<and> az_ok (cs_app cs) p az'
      else \<exists>e. require_path_privilege url priv az cs = (Inl e, cs)"
    proof (cases "p_is_admin p")
      case True
      with ok admin show ?thesis by (simp add: path_allowed_def require_path_privilege_def h_basic)
    next
      case False
      show ?thesis
      proof (cases ?best)
        case None
        with False show ?thesis
          by (simp add: run path_allowed_def covering_location_def external_locations_def [symmetric] h_basic)
      next
        case (Some nn)
        obtain n name where nn: "nn = (n, name)" by (cases nn)
        have "settles p cs (holds (cs_app cs) p ExternalLocation name priv) (c_az (az_require ExternalLocation name priv))"
          by (rule settles_require)
        with ok False Some nn show ?thesis
          by (simp add: run path_allowed_def covering_location_def external_locations_def [symmetric] settles_def)
      qed
    qed
  qed
qed

lemma settles_each [settling]:
  assumes "\<And>x. settles p cs (P x) (f x)"
  shows "settles p cs (\<forall>x \<in> set xs. P x) (each_with f xs)"
proof (induction xs)
  case Nil
  then show ?case by (simp add: settles_def h_basic)
next
  case (Cons x xs)
  have "settles p cs (P x \<and> (\<forall>x \<in> set xs. P x)) (\<lambda>az. h_then (f x az) (each_with f xs))"
    by (rule settles_then [OF assms Cons.IH])
  moreover have "each_with f (x # xs) = (\<lambda>az. h_then (f x az) (each_with f xs))" by (rule ext) simp
  ultimately show ?case by simp
qed

section \<open>What a statement needs\<close>

definition system_read_ok :: "json_parser \<Rightarrow> app_state \<Rightarrow> principal \<Rightarrow> string \<Rightarrow> bool" where
  "system_read_ok parse st p full \<longleftrightarrow>
     (let schema = or_default [] (nth_opt 1 (split_on (CHR ''.'') full)) in
      schema = ''information_schema'' \<or>
      schema \<in> set (enabled_system_schemas parse st) \<and>
        (p_is_admin p \<or> holds st p Schema (SYSTEM_CATALOG @ ''.'' @ schema) ''SELECT''))"

definition parents_ok :: "app_state \<Rightarrow> principal \<Rightarrow> string \<Rightarrow> bool" where
  "parents_ok st p full \<longleftrightarrow>
     (case split_on (CHR ''.'') full of
        [] \<Rightarrow> True
      | c # rest \<Rightarrow> (uc_exists Catalog c st \<longrightarrow> holds st p Catalog c ''USE_CATALOG'') \<and>
          (case rest of
             s # _ # _ \<Rightarrow> uc_get KIND_SCHEMA (c @ ''.'' @ s) st \<noteq> None \<longrightarrow> holds st p Schema (c @ ''.'' @ s) ''USE_SCHEMA''
           | _ \<Rightarrow> True))"

definition read_ok :: "json_parser \<Rightarrow> app_state \<Rightarrow> principal \<Rightarrow> string \<Rightarrow> bool" where
  "read_ok parse st p full \<longleftrightarrow>
     (if governed_table full st = None then parents_ok st p full
      else if in_system full then system_read_ok parse st p full else object_ok st p full ''SELECT'')"

definition write_ok :: "app_state \<Rightarrow> principal \<Rightarrow> string \<Rightarrow> bool" where
  "write_ok st p full \<longleftrightarrow> \<not> is_system_table full \<and>
     (if governed_table full st = None then parents_ok st p full else object_ok st p full ''MODIFY'')"

definition new_object_ok :: "app_state \<Rightarrow> principal \<Rightarrow> securable \<Rightarrow> string \<Rightarrow> bool" where
  "new_object_ok st p sec full \<longleftrightarrow>
     (case sec of
        Table \<Rightarrow> all_of (parent_schema full) (\<lambda>s. use_path_ref st p full = Inr () \<and> holds st p Schema s ''CREATE_TABLE'')
      | Function \<Rightarrow> all_of (parent_schema full) (\<lambda>s. use_path_ref st p full = Inr () \<and> holds st p Schema s ''CREATE_FUNCTION'')
      | Schema \<Rightarrow> all_of (parent_catalog full) (\<lambda>c. holds st p Catalog c ''USE_CATALOG'' \<and> holds st p Catalog c ''CREATE_SCHEMA'')
      | _ \<Rightarrow> manages st p sec full)"

definition create_ok :: "app_state \<Rightarrow> principal \<Rightarrow> analysis \<Rightarrow> securable \<times> string \<Rightarrow> bool" where
  "create_ok st p an so \<longleftrightarrow>
     (case so of (sec, full) \<Rightarrow> \<not> in_system full \<and>
        (if an_replace an \<and> uc_exists sec full st then manages st p sec full
         else new_object_ok st p sec full \<and> all_of (an_location an) (\<lambda>loc. path_allowed st p loc ''CREATE_EXTERNAL_TABLE'')))"

definition owned_ok :: "app_state \<Rightarrow> principal \<Rightarrow> securable \<times> string \<Rightarrow> bool" where
  "owned_ok st p so \<longleftrightarrow>
     (case so of (sec, full) \<Rightarrow> \<not> in_system full \<and>
        (if uc_exists sec full st then manages st p sec full else parents_ok st p full))"

definition sql_allowed :: "json_parser \<Rightarrow> app_state \<Rightarrow> principal \<Rightarrow> analysis \<Rightarrow> bool" where
  "sql_allowed parse st p an \<longleftrightarrow>
     (\<forall>full \<in> set (an_reads an). read_ok parse st p full) \<and> (\<forall>full \<in> set (an_writes an). write_ok st p full) \<and>
     (\<forall>so \<in> set (an_creates an). create_ok st p an so) \<and> (\<forall>so \<in> set (an_owned an). owned_ok st p so) \<and>
     (\<forall>path \<in> set (an_paths an). path_allowed st p path (path_privilege an))"

section \<open>The checks\<close>

lemma settles_cong: "settles p cs P f \<Longrightarrow> P = Q \<Longrightarrow> settles p cs Q f"
  by simp

lemma settles_system_read: "settles p cs (system_read_ok parse (cs_app cs) p full) (require_system_read parse full)"
proof -
  let ?schema = "or_default [] (nth_opt 1 (split_on (CHR ''.'') full))"
  have "az_ok (cs_app cs) p az \<Longrightarrow> az_is_admin az = p_is_admin p" for az by (simp add: az_is_admin_def)
  moreover have "settles p cs (holds (cs_app cs) p Schema (SYSTEM_CATALOG @ ''.'' @ ?schema) ''SELECT'')
      (c_az (az_require Schema (SYSTEM_CATALOG @ ''.'' @ ?schema) ''SELECT''))" by (rule settles_require)
  ultimately show ?thesis
    unfolding settles_def system_read_ok_def require_system_read_def Let_def
    by (auto simp: h_then_def cm_simps h_basic)
qed

lemma settles_parents: "settles p cs (parents_ok (cs_app cs) p full) (require_visible_parents full)"
proof (cases "split_on (CHR ''.'') full")
  case Nil
  then show ?thesis
    using settles_basic(1) by (simp add: parents_ok_def require_visible_parents_def [abs_def])
next
  case (Cons c rest)
  have cat: "settles p cs (if uc_exists Catalog c (cs_app cs) then holds (cs_app cs) p Catalog c ''USE_CATALOG'' else True)
      (\<lambda>az. if uc_exists Catalog c (cs_app cs) then c_az (az_require Catalog c ''USE_CATALOG'') az else h_ret az)"
    by (intro settling) 
  have sch: "settles p cs (case rest of
             s # _ # _ \<Rightarrow> uc_get KIND_SCHEMA (c @ ''.'' @ s) (cs_app cs) \<noteq> None \<longrightarrow> holds (cs_app cs) p Schema (c @ ''.'' @ s) ''USE_SCHEMA''
           | _ \<Rightarrow> True)
      (\<lambda>az. case rest of
              s # _ # _ \<Rightarrow> h_then (c_ask (uc_get KIND_SCHEMA (c @ ''.'' @ s))) (\<lambda>o'.
                if o' \<noteq> None then c_az (az_require Schema (c @ ''.'' @ s) ''USE_SCHEMA'') az else h_ret az)
            | _ \<Rightarrow> h_ret az)"
  proof -
    have one: "settles p cs (if uc_get KIND_SCHEMA n (cs_app cs) \<noteq> None then holds (cs_app cs) p Schema n ''USE_SCHEMA'' else True)
        (\<lambda>az. h_then (c_ask (uc_get KIND_SCHEMA n)) (\<lambda>o'.
           if o' \<noteq> None then c_az (az_require Schema n ''USE_SCHEMA'') az else h_ret az))" for n
      by (intro settling)
    show ?thesis
    proof (cases rest)
      case Nil
      show ?thesis unfolding Nil list.case by (rule settles_basic)
    next
      case rest: (Cons s r)
      show ?thesis
      proof (cases r)
        case Nil
        show ?thesis unfolding rest Nil list.case by (rule settles_basic)
      next
        case r: (Cons x xs)
        show ?thesis unfolding rest r list.case by (rule settles_cong [OF one]) auto
      qed
    qed
  qed
  have "settles p cs (parents_ok (cs_app cs) p full) (\<lambda>az.
      h_then (c_ask (uc_exists Catalog c)) (\<lambda>ex.
      h_then (if ex then c_az (az_require Catalog c ''USE_CATALOG'') az else h_ret az) (\<lambda>az.
            case rest of
              s # _ # _ \<Rightarrow> h_then (c_ask (uc_get KIND_SCHEMA (c @ ''.'' @ s))) (\<lambda>o'.
                if o' \<noteq> None then c_az (az_require Schema (c @ ''.'' @ s) ''USE_SCHEMA'') az else h_ret az)
            | _ \<Rightarrow> h_ret az)))"
    by (rule settles_cong, rule settles_ask, rule settles_then [OF cat sch]) (simp add: parents_ok_def Cons)
  then show ?thesis by (simp add: require_visible_parents_def [abs_def] Cons)
qed

lemma settles_new_object: "settles p cs (new_object_ok (cs_app cs) p sec full) (require_create sec full)"
proof -
  have in_schema: "settles p cs (all_of (parent_schema full) (\<lambda>s. use_path_ref (cs_app cs) p full = Inr () \<and> holds (cs_app cs) p Schema s priv))
      (\<lambda>az. case parent_schema full of None \<Rightarrow> h_ret az
            | Some s \<Rightarrow> h_then (c_az (az_require_use_path full) az) (\<lambda>az. c_az (az_require Schema s priv) az))" for priv
    by (cases "parent_schema full") (auto simp: all_of_def intro: settling)
  have in_catalog: "settles p cs (all_of (parent_catalog full) (\<lambda>c. holds (cs_app cs) p Catalog c ''USE_CATALOG'' \<and> holds (cs_app cs) p Catalog c ''CREATE_SCHEMA''))
      (\<lambda>az. case parent_catalog full of None \<Rightarrow> h_ret az
            | Some c \<Rightarrow> h_then (c_az (az_require Catalog c ''USE_CATALOG'') az) (\<lambda>az. c_az (az_require Catalog c ''CREATE_SCHEMA'') az))"
    by (cases "parent_catalog full") (auto simp: all_of_def intro: settling)
  show ?thesis
    by (cases sec) (simp_all add: new_object_ok_def require_create_def [abs_def] Let_def in_schema in_catalog settles_owner)
qed

lemma settles_create: "settles p cs (create_ok (cs_app cs) p an so) (authorize_create an so)"
proof -
  obtain sec full where so: "so = (sec, full)" by (cases so)
  have location: "settles p cs (all_of (an_location an) (\<lambda>loc. path_allowed (cs_app cs) p loc ''CREATE_EXTERNAL_TABLE''))
      (\<lambda>az. case an_location an of Some loc \<Rightarrow> require_path_privilege loc ''CREATE_EXTERNAL_TABLE'' az | None \<Rightarrow> h_ret az)"
    by (cases "an_location an") (auto simp: all_of_def intro: settling)
  have body: "settles p cs (if r then manages (cs_app cs) p sec full
         else new_object_ok (cs_app cs) p sec full \<and> all_of (an_location an) (\<lambda>loc. path_allowed (cs_app cs) p loc ''CREATE_EXTERNAL_TABLE''))
      (\<lambda>az. if r then c_az (az_require_owner sec full) az
          else h_then (require_create sec full az) (\<lambda>az.
               case an_location an of Some loc \<Rightarrow> require_path_privilege loc ''CREATE_EXTERNAL_TABLE'' az | None \<Rightarrow> h_ret az))" for r
    by (intro settles_if settles_owner settles_then settles_new_object location)
  show ?thesis
    using body [of "an_replace an \<and> uc_exists sec full (cs_app cs)"]
    by (cases "in_system full"; cases "an_replace an")
      (auto simp: so create_ok_def authorize_create_def settles_def h_basic h_then_def cm_simps)
qed

lemma settles_owned: "settles p cs (owned_ok (cs_app cs) p so) (authorize_owned so)"
proof -
  obtain sec full where so: "so = (sec, full)" by (cases so)
  have "settles p cs (if uc_exists sec full (cs_app cs) then manages (cs_app cs) p sec full else parents_ok (cs_app cs) p full)
      (\<lambda>az. h_then (c_ask (uc_exists sec full)) (\<lambda>ex.
         if ex then c_az (az_require_owner sec full) az else require_visible_parents full az))"
    by (intro settling settles_parents)
  then show ?thesis
    by (cases "in_system full") (auto simp: so owned_ok_def authorize_owned_def settles_def h_basic)
qed

section \<open>The authorisation of a statement\<close>

definition note_type :: "app_state \<Rightarrow> string \<Rightarrow> (string \<rightharpoonup> string) \<Rightarrow> string \<rightharpoonup> string" where
  "note_type st full types =
     (case governed_table full st of None \<Rightarrow> types | Some t \<Rightarrow> types(full \<mapsto> table_type_of t))"

definition types_of :: "app_state \<Rightarrow> analysis \<Rightarrow> string \<rightharpoonup> string" where
  "types_of st an full =
     (if full \<in> set (an_reads an) \<union> set (an_writes an) then map_option table_type_of (governed_table full st) else None)"

lemma fold_note_type:
  "fold (note_type st) xs m full =
     (if full \<in> set xs \<and> governed_table full st \<noteq> None then map_option table_type_of (governed_table full st) else m full)"
  by (induction xs arbitrary: m) (auto simp: note_type_def split: option.splits)

lemma types_of_fold: "fold (note_type st) (an_writes an) (fold (note_type st) (an_reads an) Map.empty) = types_of st an"
  by (rule ext) (auto simp: fold_note_type types_of_def)

lemma decides_settles:
  assumes "settles p cs P f"
  shows "decides p cs P h (\<lambda>(t, az). h_then (f az) (\<lambda>az. h_ret (h t, az)))"
  unfolding decides_def
proof (intro allI impI)
  fix t az assume "az_ok (cs_app cs) p az"
  with assms have "if P then \<exists>az'. f az cs = (Inr az', cs) \<and> az_ok (cs_app cs) p az' else \<exists>e. f az cs = (Inl e, cs)"
    by (simp add: settles_def)
  then show "if P then \<exists>az'. (case (t, az) of (t, az) \<Rightarrow> h_then (f az) (\<lambda>az. h_ret (h t, az))) cs = (Inr (h t, az'), cs) \<and> az_ok (cs_app cs) p az'
      else \<exists>e. (case (t, az) of (t, az) \<Rightarrow> h_then (f az) (\<lambda>az. h_ret (h t, az))) cs = (Inl e, cs)"
    by (auto simp: h_then_def h_basic split: if_splits)
qed

lemma decidesE:
  assumes "decides p cs P h f" and "az_ok (cs_app cs) p az"
  obtains (pass) az' where P "f (t, az) cs = (Inr (h t, az'), cs)" "az_ok (cs_app cs) p az'"
  | (stop) e where "\<not> P" "f (t, az) cs = (Inl e, cs)"
  using assms by (cases P) (fastforce simp: decides_def)+

lemma decides_each:
  assumes "\<And>x. decides p cs (P x) (h x) (f x)"
  shows "decides p cs (\<forall>x \<in> set xs. P x) (fold h xs) (each_with f xs)"
  unfolding decides_def
proof (intro allI impI)
  fix t az assume "az_ok (cs_app cs) p az"
  then show "if \<forall>x \<in> set xs. P x then \<exists>az'. each_with f xs (t, az) cs = (Inr (fold h xs t, az'), cs) \<and> az_ok (cs_app cs) p az'
      else \<exists>e. each_with f xs (t, az) cs = (Inl e, cs)"
  proof (induction xs arbitrary: t az)
    case (Cons x xs)
    from assms [of x] Cons.prems show ?case
    proof (cases rule: decidesE [where t = t])
      case (pass az')
      with Cons.IH [OF pass(3), of "h x t"] show ?thesis
        by (simp add: h_then_step [where m = "f x (t, az)", OF pass(2)])
    next
      case (stop e)
      then show ?thesis by (auto simp: h_then_stop [where m = "f x (t, az)"])
    qed
  qed (simp add: h_basic)
qed

lemma decides_same:
  "decides p cs P h g \<Longrightarrow> P = Q \<Longrightarrow> h = k \<Longrightarrow> (\<And>t az. f (t, az) cs = g (t, az) cs) \<Longrightarrow> decides p cs Q k f"
  by (simp add: decides_def)

lemma ask_step: "h_then (c_ask q) f cs = f (q (cs_app cs)) cs"
  by (simp add: h_then_def cm_simps)

lemma decides_read:
  "decides p cs (read_ok parse (cs_app cs) p full) (note_type (cs_app cs) full) (authorize_read parse full)"
proof (cases "governed_table full (cs_app cs)")
  case None
  show ?thesis
    by (rule decides_same [OF decides_settles [OF settles_parents, where h = "\<lambda>t. t"]])
      (auto simp: None read_ok_def note_type_def authorize_read_def ask_step)
next
  case (Some t)
  have "settles p cs (if in_system full then system_read_ok parse (cs_app cs) p full else object_ok (cs_app cs) p full ''SELECT'')
      (\<lambda>az. if in_system full then require_system_read parse full az else c_az (az_require_on_object Table full ''SELECT'') az)"
    by (intro settles_if settles_system_read settles_on_object)
  then show ?thesis
    by (rule decides_same [OF decides_settles [where h = "\<lambda>m. m(full \<mapsto> table_type_of t)"]])
      (auto simp: Some read_ok_def note_type_def authorize_read_def ask_step)
qed

lemma decides_write: "decides p cs (write_ok (cs_app cs) p full) (note_type (cs_app cs) full) (authorize_write full)"
proof (cases "is_system_table full")
  case True
  then show ?thesis by (auto simp: decides_def write_ok_def authorize_write_def h_basic)
next
  case no: False
  show ?thesis
  proof (cases "governed_table full (cs_app cs)")
    case None
    show ?thesis
      by (rule decides_same [OF decides_settles [OF settles_parents, where h = "\<lambda>t. t"]])
        (auto simp: no None write_ok_def note_type_def authorize_write_def ask_step)
  next
    case (Some t)
    show ?thesis
      by (rule decides_same [OF decides_settles [OF settles_on_object, where h = "\<lambda>m. m(full \<mapsto> table_type_of t)"]])
        (auto simp: no Some write_ok_def note_type_def authorize_write_def ask_step)
  qed
qed

lemma settlesE:
  assumes "settles p cs P f" and "az_ok (cs_app cs) p az"
  obtains (pass) az' where P "f az cs = (Inr az', cs)" "az_ok (cs_app cs) p az'"
  | (stop) e where "\<not> P" "f az cs = (Inl e, cs)"
  using assms by (cases P) (auto simp: settles_def)

lemma authorize_sql_decided:
  "if sql_allowed parse (cs_app cs) p an then authorize_sql parse p an cs = (Inr (types_of (cs_app cs) an), cs)
   else \<exists>e. authorize_sql parse p an cs = (Inl e, cs)"
proof -
  let ?st = "cs_app cs"
  let ?writes = "\<lambda>(types, az).
     h_then (each_with (authorize_create an) (an_creates an) az) (\<lambda>az.
     h_then (each_with authorize_owned (an_owned an) az) (\<lambda>az.
     h_then (each_with (\<lambda>path. require_path_privilege path (path_privilege an)) (an_paths an) az) (\<lambda>_. h_ret types)))"
  let ?P = "(\<forall>so \<in> set (an_creates an). create_ok ?st p an so) \<and> (\<forall>so \<in> set (an_owned an). owned_ok ?st p so) \<and>
     (\<forall>path \<in> set (an_paths an). path_allowed ?st p path (path_privilege an))"
  have rest: "if ?P then ?writes (types, az) cs = (Inr types, cs) else \<exists>e. ?writes (types, az) cs = (Inl e, cs)"
    if az: "az_ok ?st p az" for types az
  proof -
    have "settles p cs ?P (\<lambda>az. h_then (each_with (authorize_create an) (an_creates an) az) (\<lambda>az.
       h_then (each_with authorize_owned (an_owned an) az)
         (each_with (\<lambda>path. require_path_privilege path (path_privilege an)) (an_paths an))))"
      by (intro settles_then settles_each settles_create settles_owned settles_path)
    then show ?thesis
      using az by (elim settlesE [where az = az]) (auto simp: h_then_def h_basic split: prod.splits sum.splits)
  qed
  have az0: "az_ok ?st p (az_new ?st p)" by (rule az_ok_new)
  have run: "authorize_sql parse p an cs =
      h_then (each_with (authorize_read parse) (an_reads an) (Map.empty, az_new ?st p)) (\<lambda>x.
      h_then (each_with authorize_write (an_writes an) x) ?writes) cs"
    by (simp add: authorize_sql_def h_then_step [where m = "c_authorizer p", OF cm_basic(3)])
  have rd: "decides p cs (\<forall>x \<in> set (an_reads an). read_ok parse ?st p x) (fold (note_type ?st) (an_reads an))
      (each_with (authorize_read parse) (an_reads an))"
    by (rule decides_each [OF decides_read])
  have wr: "decides p cs (\<forall>x \<in> set (an_writes an). write_ok ?st p x) (fold (note_type ?st) (an_writes an))
      (each_with authorize_write (an_writes an))"
    by (rule decides_each [OF decides_write])
  from rd az0 show ?thesis
  proof (cases rule: decidesE [where t = Map.empty])
    case (stop e)
    then show ?thesis by (auto simp: run sql_allowed_def h_then_stop [where m = "each_with (authorize_read parse) _ _"])
  next
    case (pass az1)
    note step1 = h_then_step [where m = "each_with (authorize_read parse) _ _", OF pass(2)] and r = pass(1)
    from wr pass(3) show ?thesis
    proof (cases rule: decidesE [where t = "fold (note_type ?st) (an_reads an) Map.empty"])
      case (stop e)
      then show ?thesis by (auto simp: run step1 sql_allowed_def h_then_stop [where m = "each_with authorize_write _ _"])
    next
      case (pass az2)
      show ?thesis
        unfolding run step1 h_then_step [where m = "each_with authorize_write _ _", OF pass(2)] types_of_fold
        using rest [OF pass(3), of "types_of ?st an"] r pass(1) by (simp add: sql_allowed_def)
    qed
  qed
qed


section \<open>What reaches the engine\<close>

definition facts_of :: "principal \<Rightarrow> session_facts" where
  "facts_of p = \<lparr>fa_user = p_user_name p, fa_groups = p_groups p\<rparr>"

text \<open>The policy in force on a table a statement reads: the row filter and masks its document holds.\<close>

definition policy_at :: "app_state \<Rightarrow> analysis \<Rightarrow> string \<rightharpoonup> table_policy" where
  "policy_at st an full = (if full \<in> set (an_reads an) then Option.bind (uc_get KIND_TABLE full st) (table_policy_of full) else None)"

text \<open>The SQL functions of the metastore, noted one listed document after the other.\<close>

definition note_function :: "doc \<Rightarrow> (string \<rightharpoonup> sql_function) \<Rightarrow> string \<rightharpoonup> sql_function" where
  "note_function d m = (case sql_function_of (d_data d) of None \<Rightarrow> m | Some f \<Rightarrow> m(sf_full_name f \<mapsto> f))"

definition functions_at :: "app_state \<Rightarrow> string \<rightharpoonup> sql_function" where
  "functions_at st = fold note_function (store_list KIND_FUNCTION workspace_id default_filter (as_store st)) Map.empty"

lemma policies_in_force: "map_of (table_policies (an_reads an) st) = policy_at st an"
proof -
  have "map_of (table_policies xs st) full =
      (if full \<in> set xs then Option.bind (uc_get KIND_TABLE full st) (table_policy_of full) else None)" for xs full
    by (induction xs) (auto simp: table_policies_def List.map_filter_simps split: option.splits bind_splits)
  then show ?thesis by (auto simp: policy_at_def fun_eq_iff)
qed

lemma functions_noted: "map_of (sql_functions st) = functions_at st"
proof -
  have "fold note_function ds m = m ++ map_of (rev (List.map_filter (\<lambda>d. map_option (\<lambda>f. (sf_full_name f, f)) (sql_function_of (d_data d))) ds))"
    for ds m
    by (induction ds arbitrary: m) (auto simp: note_function_def List.map_filter_simps split: option.splits)
  then show ?thesis by (simp add: sql_functions_def functions_at_def)
qed

text \<open>The text the engine gets for a statement: itself, unless it was parsed, is of a kind with tables to
  rewrite and is not served by the metastore, and the rewriting gives a text.\<close>

definition engine_text :: "'s sql_lib \<Rightarrow> app_state \<Rightarrow> principal \<Rightarrow> string \<Rightarrow> 's list option \<Rightarrow> analysis \<Rightarrow> string \<Rightarrow> string \<Rightarrow> string" where
  "engine_text lib st p sql stmts an cat sch =
     (case stmts of
        None \<Rightarrow> sql
      | Some ss \<Rightarrow> if metastore_op_of lib ss cat sch = None \<and> is_rewritable (an_kind an)
          then or_default sql (sl_rewrite lib ss (policy_at st an) (functions_at st) (facts_of p) cat sch) else sql)"

lemma prepare_decided:
  assumes "sql_defaults conf = (cat, sch)" and "sl_analyze lib sql cat sch = (stmts, an)" and "grant_parse sql cat sch = None"
  shows "if sql_allowed (sl_json lib) (cs_app cs) p an
    then prepare_sql lib p sql conf cs = (Inr \<lparr>ps_sql = engine_text lib (cs_app cs) p sql stmts an cat sch, ps_analysis = an,
        ps_catalog = cat, ps_schema = sch, ps_types = types_of (cs_app cs) an,
        ps_op = Option.bind stmts (\<lambda>ss. metastore_op_of lib ss cat sch)\<rparr>, cs)
    else \<exists>e. prepare_sql lib p sql conf cs = (Inl e, cs)"
proof (cases "sql_allowed (sl_json lib) (cs_app cs) p an")
  case True
  with authorize_sql_decided [of "sl_json lib" cs p an]
  have auth: "authorize_sql (sl_json lib) p an cs = (Inr (types_of (cs_app cs) an), cs)" by simp
  show ?thesis
    by (cases stmts) (simp_all add: True prepare_sql_def assms auth Let_def engine_text_def rewrite_sql_def policies_in_force functions_noted
        facts_of_def h_basic h_then_def cm_simps)
next
  case False
  with authorize_sql_decided [of "sl_json lib" cs p an] obtain e where "authorize_sql (sl_json lib) p an cs = (Inl e, cs)" by auto
  with False show ?thesis by (simp add: prepare_sql_def assms Let_def h_then_def)
qed

text \<open>C17: What the engine is asked to run is authorised, and the policies are in it. Preparing changes
  nothing. A text the privilege parser takes becomes that statement for the metastore, authorised only when
  it is applied, or fails with the parser's error. Any other text is prepared exactly when its analysis
  is permitted by the stored owners and grants; it then carries the types of the governed tables, and as its
  text the rewriting of what was parsed by the row filters and masks stored for exactly the tables it
  reads and by the metastore's SQL functions. What cannot be parsed or rewritten, is of another kind,
  or is served by the metastore keeps its text.\<close>

theorem prepared_sql_authorised:
  assumes "sql_defaults conf = (cat, sch)" and "sl_analyze lib sql cat sch = (stmts, an)"
  shows "case grant_parse sql cat sch of
      Some (Inl e) \<Rightarrow> \<exists>e'. prepare_sql lib p sql conf cs = (Inl e', cs)
    | Some (Inr g) \<Rightarrow> \<exists>ps. prepare_sql lib p sql conf cs = (Inr ps, cs) \<and> ps_op ps = Some (OpGrant g)
    | None \<Rightarrow>
        if sql_allowed (sl_json lib) (cs_app cs) p an
        then \<exists>ps. prepare_sql lib p sql conf cs = (Inr ps, cs) \<and> ps_analysis ps = an \<and> ps_types ps = types_of (cs_app cs) an \<and>
          ps_op ps = Option.bind stmts (\<lambda>ss. metastore_op_of lib ss cat sch) \<and>
          ps_sql ps = engine_text lib (cs_app cs) p sql stmts an cat sch
        else \<exists>e. prepare_sql lib p sql conf cs = (Inl e, cs)"
proof (cases "grant_parse sql cat sch")
  case None
  from prepare_decided [OF assms None, of cs p] None show ?thesis by (auto split: if_splits)
next
  case (Some r)
  with assms show ?thesis by (cases r) (auto simp: prepare_sql_def h_basic)
qed

section \<open>Statements the metastore serves\<close>

fun op_allowed :: "app_state \<Rightarrow> principal \<Rightarrow> metastore_op \<Rightarrow> bool" where
  "op_allowed st p (OpGrant (GGrant ps sec n w)) \<longleftrightarrow> (if sec = Metastore then p_is_admin p else manages st p sec n)"
| "op_allowed st p (OpGrant (GRevoke ps sec n w)) \<longleftrightarrow> (if sec = Metastore then p_is_admin p else manages st p sec n)"
| "op_allowed st p (OpGrant (GSetOwner sec n w)) \<longleftrightarrow> manages st p sec n"
| "op_allowed st p (OpGrant (GShowGrants only sec n)) \<longleftrightarrow> sec = Metastore \<or> browsable st p sec n"
| "op_allowed st p (OpCreateFunction d replace) \<longleftrightarrow>
     (let full = str_part d ''catalog_name'' @ ''.'' @ str_part d ''schema_name'' @ ''.'' @ str_part d ''name'' in
      (replace \<and> uc_get KIND_FUNCTION full st \<noteq> None \<longrightarrow> manages st p Function full) \<and>
      may_create_in_schema st p ''CREATE_FUNCTION'' d)"
| "op_allowed st p (OpDropFunction names if_exists) \<longleftrightarrow>
     (\<forall>n \<in> set names. if_exists \<and> uc_get KIND_FUNCTION n st = None \<or> manages st p Function n)"

text \<open>
  A statement that drops several functions, or replaces one, may drop some before it is refused: what is gone
  then are functions it names which the principal manages, with their grants.
\<close>

definition dropped_functions :: "string set \<Rightarrow> app_state \<Rightarrow> app_state \<Rightarrow> bool" where
  "dropped_functions N st st' \<longleftrightarrow> as_admin_user st' = as_admin_user st \<and> st_kv (as_store st') = st_kv (as_store st) \<and>
     (\<forall>k i. store_get k i (as_store st') = store_get k i (as_store st) \<or>
        store_get k i (as_store st') = None \<and>
        (\<exists>n \<in> N. k = KIND_FUNCTION \<and> i = uc_doc_id KIND_FUNCTION n \<or> k = KIND_GRANTS \<and> i = grants_doc_id Function n))"

lemma dropped_refl: "dropped_functions N st st"
  by (simp add: dropped_functions_def)

lemma dropped_trans:
  assumes "dropped_functions N st1 st2" and "dropped_functions N st2 st3"
  shows "dropped_functions N st1 st3"
  unfolding dropped_functions_def
proof (intro conjI allI)
  fix k i
  let ?hit = "\<exists>n \<in> N. k = KIND_FUNCTION \<and> i = uc_doc_id KIND_FUNCTION n \<or> k = KIND_GRANTS \<and> i = grants_doc_id Function n"
  have "store_get k i (as_store st2) = store_get k i (as_store st1) \<or> store_get k i (as_store st2) = None \<and> ?hit"
    "store_get k i (as_store st3) = store_get k i (as_store st2) \<or> store_get k i (as_store st3) = None \<and> ?hit"
    using assms unfolding dropped_functions_def by blast+
  then show "store_get k i (as_store st3) = store_get k i (as_store st1) \<or> store_get k i (as_store st3) = None \<and> ?hit"
    by (elim disjE) auto
qed (use assms in \<open>auto simp: dropped_functions_def\<close>)

lemma dropped_mono: "dropped_functions N st st' \<Longrightarrow> N \<subseteq> N' \<Longrightarrow> dropped_functions N' st st'"
  unfolding dropped_functions_def by blast

definition drops :: "string set \<Rightarrow> cat_state \<Rightarrow> cat_state \<Rightarrow> bool" where
  "drops N cs cs' \<longleftrightarrow> dropped_functions N (cs_app cs) (cs_app cs') \<and> cs_events cs' = cs_events cs \<and>
     (N = {} \<longrightarrow> cs_app cs' = cs_app cs)"

interpretation dropped: frame "drops N" for N
  by unfold_locales (auto simp: drops_def intro: dropped_refl dropped_trans)

lemma drops_meta: "same_meta cs cs' \<Longrightarrow> drops N cs cs'"
  by (simp add: same_meta_def drops_def dropped_refl)

lemma drops_mono: "drops N cs cs' \<Longrightarrow> N \<subseteq> N' \<Longrightarrow> drops N' cs cs'"
  by (auto simp: drops_def intro: dropped_mono)

lemma drops_trans: "drops N cs1 cs2 \<Longrightarrow> drops N' cs2 cs3 \<Longrightarrow> N' \<subseteq> N \<Longrightarrow> drops N cs1 cs3"
  by (auto simp: drops_def intro: dropped_trans dropped_mono)

text \<open>Nobody holds more than before.\<close>

lemma dropped_holds:
  assumes d: "dropped_functions N st st'" and h: "holds st' p sec n privilege"
  shows "holds st p sec n privilege"
proof -
  have get: "store_get k i (as_store st') = store_get k i (as_store st) \<or> store_get k i (as_store st') = None" for k i
    using d [unfolded dropped_functions_def, THEN conjunct2, THEN conjunct2, rule_format, of k i] by (elim disjE) simp_all
  have admin: "as_admin_user st' = as_admin_user st" using d by (simp add: dropped_functions_def)
  have "owned_by st p sn" if "owned_by st' p sn" for sn
    using that admin get [of "or_default KIND_TABLE (sec_kind (fst sn))" "uc_doc_id (or_default KIND_TABLE (sec_kind (fst sn))) (snd sn)"]
    by (elim disjE) (auto simp: owned_by_def owner_lookup_def Let_def split: if_splits)
  moreover have "granted st p ok sn" if "granted st' p ok sn" for ok sn
    using that get [of KIND_GRANTS "grants_doc_id (fst sn) (snd sn)"]
    by (elim disjE) (auto simp: granted_def grants_for_def)
  ultimately show ?thesis using h unfolding holds_def holds_some_def list_ex_iff by blast
qed

lemma dropped_manages: "dropped_functions N st st' \<Longrightarrow> manages st' p sec n \<Longrightarrow> manages st p sec n"
  by (auto simp: manages_def intro: dropped_holds)

lemma dropped_may_create:
  assumes "dropped_functions N st st'" and "may_create_in_schema st' p privilege d"
  shows "may_create_in_schema st p privilege d"
proof -
  have req: "require_ref st' p sec n pv = Inr () \<Longrightarrow> require_ref st p sec n pv = Inr ()" for sec n pv
    using dropped_holds [OF assms(1)] by (auto simp: require_ref_def split: if_splits)
  have "use_path_ref st' p n = Inr () \<Longrightarrow> use_path_ref st p n = Inr ()" for n
    by (auto simp: use_path_ref_def try_then_Inr split: list.splits intro: req)
  with assms show ?thesis by (auto simp: may_create_in_schema_def intro: dropped_holds)
qed

text \<open>Dropping one function, and a list of them.\<close>

lemma kv_after_delete: "st_kv (snd (store_delete k i s)) = st_kv s"
  by (simp add: store_delete_def)

lemma gone:
  "cs_events (snd (c_delete kind i cs)) = cs_events cs" "as_admin_user (cs_app (snd (c_delete kind i cs))) = as_admin_user (cs_app cs)"
  "st_kv (as_store (cs_app (snd (c_delete kind i cs)))) = st_kv (as_store (cs_app cs))"
  "store_get k' i' (as_store (cs_app (snd (c_delete kind i cs)))) =
     (if k' = kind \<and> i' = i then None else store_get k' i' (as_store (cs_app cs)))"
  "cs_events (snd (c_drop_grants Function m cs)) = cs_events cs"
  "as_admin_user (cs_app (snd (c_drop_grants Function m cs))) = as_admin_user (cs_app cs)"
  "st_kv (as_store (cs_app (snd (c_drop_grants Function m cs)))) = st_kv (as_store (cs_app cs))"
  "store_get k' i' (as_store (cs_app (snd (c_drop_grants Function m cs)))) =
     (if k' = KIND_GRANTS \<and> i' = grants_doc_id Function m then None else store_get k' i' (as_store (cs_app cs)))"
  by (simp_all add: c_delete_def c_store_def c_app_def store_of_def case_prod_beta get_after_delete kv_after_delete c_drop_grants_def drop_grants_def Let_def)

lemma delete_function_within:
  "drops {n. n = m \<and> manages (cs_app cs) p Function n} cs (snd (uc_delete_in_schema p KIND_FUNCTION Function m what cs))"
proof (cases "manages (cs_app cs) p Function m")
  case True
  have "drops {m} cs (snd (c_delete KIND_FUNCTION (uc_doc_id KIND_FUNCTION m) cs))"
    "drops {m} cs (snd (c_drop_grants Function m cs))" for cs
    by (auto simp: drops_def dropped_functions_def gone)
  then have "moves_within (drops {m}) (c_delete KIND_FUNCTION (uc_doc_id KIND_FUNCTION m))"
    "moves_within (drops {m}) (c_drop_grants Function m)" by (simp_all add: moves_within_def)
  moreover have "reads (c_lift r)" "reads (uc_require k m w)" "reads (c_authorizer p)" "reads (c_az g az)" for r :: "api_error + unit" and k w g az
    by simp_all
  ultimately have "moves_within (drops {m}) (uc_delete_in_schema p KIND_FUNCTION Function m what)"
    unfolding uc_delete_in_schema_def
    by (intro dropped.within_then) (simp_all add: dropped.within_reads)
  with True show ?thesis by (auto simp: moves_within_def intro: drops_mono)
next
  case False
  from delete_guarded(4) [OF this, of KIND_FUNCTION what] show ?thesis by (auto simp: refuses_def intro: drops_meta)
qed

lemma drop_function_within:
  "drops {n. n = m \<and> manages (cs_app cs) p Function n} cs (snd (drop_function p if_exists m cs))"
  using delete_function_within [of m cs p "''Function''"] dropped.frame_refl
  by (simp add: drop_function_def ask_step h_basic)

lemma drop_function_refused:
  assumes "\<not> (if_exists \<and> uc_get KIND_FUNCTION n (cs_app cs) = None)" and "\<not> manages (cs_app cs) p Function n"
  shows "\<exists>e cs'. drop_function p if_exists n cs = (Inl e, cs')"
  using assms(1) delete_guarded(4) [OF assms(2), of KIND_FUNCTION "''Function''"]
  by (auto simp: drop_function_def ask_step refuses_def)

text \<open>A function the principal does not manage is as it was.\<close>

lemma drops_unmanaged:
  assumes "drops {x. x = m \<and> manages (cs_app cs) p Function x} cs cs'" and "\<not> manages (cs_app cs) p Function n"
  shows "uc_get KIND_FUNCTION n (cs_app cs') = uc_get KIND_FUNCTION n (cs_app cs)"
proof -
  have "store_get KIND_FUNCTION (uc_doc_id KIND_FUNCTION n) (as_store (cs_app cs')) =
      store_get KIND_FUNCTION (uc_doc_id KIND_FUNCTION n) (as_store (cs_app cs))"
    using assms by (auto simp: drops_def dropped_functions_def uc_doc_id_def uc_kind_defs)
  then show ?thesis by (simp add: uc_get_def)
qed

definition managed_of :: "principal \<Rightarrow> cat_state \<Rightarrow> string list \<Rightarrow> string set" where
  "managed_of p cs names = {n \<in> set names. manages (cs_app cs) p Function n}"

lemma drops_within: "drops (managed_of p cs names) cs (snd (h_each (drop_function p if_exists) names cs))"
proof (induction names arbitrary: cs)
  case (Cons m names)
  obtain r cs1 where 1: "drop_function p if_exists m cs = (r, cs1)" by (cases "drop_function p if_exists m cs")
  with drop_function_within [of m cs p if_exists] have d: "drops {n. n = m \<and> manages (cs_app cs) p Function n} cs cs1" by simp
  then have d': "drops (managed_of p cs (m # names)) cs cs1" by (rule drops_mono) (auto simp: managed_of_def)
  have "managed_of p cs1 names \<subseteq> managed_of p cs (m # names)"
    using d by (auto simp: managed_of_def drops_def intro: dropped_manages)
  with Cons.IH [of cs1] d' 1 show ?case by (cases r) (auto simp: h_then_def intro: drops_trans)
qed (simp add: h_basic dropped.frame_refl)

lemma drops_refused:
  assumes "n \<in> set names" and "\<not> (if_exists \<and> uc_get KIND_FUNCTION n (cs_app cs) = None)" and "\<not> manages (cs_app cs) p Function n"
  shows "refuses (drops (managed_of p cs names)) (h_each (drop_function p if_exists) names) cs"
proof -
  have "\<exists>e cs'. h_each (drop_function p if_exists) names cs = (Inl e, cs')"
    using assms
  proof (induction names arbitrary: cs)
    case (Cons m names)
    obtain r cs1 where 1: "drop_function p if_exists m cs = (r, cs1)" by (cases "drop_function p if_exists m cs")
    with drop_function_within [of m cs p if_exists] have d: "drops {n. n = m \<and> manages (cs_app cs) p Function n} cs cs1" by simp
    then have "uc_get KIND_FUNCTION n (cs_app cs1) = uc_get KIND_FUNCTION n (cs_app cs)" "\<not> manages (cs_app cs1) p Function n"
      using drops_unmanaged [OF d Cons.prems(3)] Cons.prems(3) by (auto simp: drops_def intro: dropped_manages)
    with Cons 1 drop_function_refused [OF Cons.prems(2,3)] show ?case by (cases r; cases "n = m") (auto simp: h_then_def)
  qed simp
  with drops_within [of p cs names if_exists] show ?thesis by (auto simp: refuses_def)
qed

lemma show_guarded:
  assumes "sec \<noteq> Metastore" and "\<not> browsable (cs_app cs) p sec n"
  shows "refuses same_meta (show_grants p only sec n) cs"
proof -
  obtain az where "c_can (az_can_browse sec n) (az_new (cs_app cs) p) cs = (Inr (browsable (cs_app cs) p sec n, az), cs)"
    unfolding browsable_def by (rule c_can_answer [OF az_ok_new answers_can_browse])
  with assms(2) have "c_can (az_can_browse sec n) (az_new (cs_app cs) p) cs = (Inr (False, az), cs)" by simp
  then show ?thesis
    using assms(1) unfolding show_grants_def
    by (auto simp: refuses_def ask_step h_then_def cm_simps h_basic same_meta_def)
qed

fun dropped_names :: "metastore_op \<Rightarrow> string list" where
  "dropped_names (OpCreateFunction d replace) =
     (if replace then [str_part d ''catalog_name'' @ ''.'' @ str_part d ''schema_name'' @ ''.'' @ str_part d ''name''] else [])"
| "dropped_names (OpDropFunction names if_exists) = names"
| "dropped_names (OpGrant g) = []"

lemma replace_refused:
  assumes "full = str_part d ''catalog_name'' @ ''.'' @ str_part d ''schema_name'' @ ''.'' @ str_part d ''name''"
    and "\<not> op_allowed (cs_app cs) p (OpCreateFunction d replace)"
  shows "refuses (drops (managed_of p cs (dropped_names (OpCreateFunction d replace)))) (apply_metastore_op lib p (OpCreateFunction d replace)) cs"
proof -
  let ?N = "managed_of p cs (dropped_names (OpCreateFunction d replace))"
  let ?replaces = "replace \<and> uc_get KIND_FUNCTION full (cs_app cs) \<noteq> None"
  let ?delete = "if ?replaces then uc_delete_in_schema p KIND_FUNCTION Function full ''Function'' else h_ret ()"
  let ?create = "uc_create_in_schema lib p KIND_FUNCTION ''Function'' d"
  have body: "apply_metastore_op lib p (OpCreateFunction d replace) cs = h_then ?delete (\<lambda>_. h_then ?create (\<lambda>_. h_ret no_output)) cs"
    unfolding assms(1) apply_metastore_op.simps Let_def ask_step ..
  have "refuses (drops ?N) (h_then ?delete (\<lambda>_. h_then ?create (\<lambda>_. h_ret no_output))) cs"
  proof (cases "?replaces \<and> \<not> manages (cs_app cs) p Function full")
    case True
    then have "refuses same_meta ?delete cs" using delete_guarded(4) by simp
    then have "refuses (drops ?N) ?delete cs" by (auto simp: refuses_def intro: drops_meta)
    then show ?thesis by (rule dropped.refuses_stop)
  next
    case False
    with assms have no: "\<not> may_create_in_schema (cs_app cs) p ''CREATE_FUNCTION'' d" by (auto simp: Let_def)
    obtain r cs1 where 1: "?delete cs = (r, cs1)" by (cases "?delete cs")
    have d: "drops ?N cs cs1"
    proof (cases ?replaces)
      case True
      with delete_function_within [of full cs p "''Function''"] 1
      have "drops {n. n = full \<and> manages (cs_app cs) p Function n} cs cs1" by simp
      then show ?thesis by (rule drops_mono) (use True assms(1) in \<open>auto simp: managed_of_def\<close>)
    next
      case False
      with 1 show ?thesis by (auto simp: h_basic dropped.frame_refl)
    qed
    show ?thesis
    proof (cases r)
      case (Inl e)
      with 1 d show ?thesis by (auto simp: refuses_def h_then_def)
    next
      case (Inr u)
      from d no have "\<not> may_create_in_schema (cs_app cs1) p ''CREATE_FUNCTION'' d" by (auto simp: drops_def intro: dropped_may_create)
      then have "refuses same_meta ?create cs1" by (rule create_function_guarded)
      then have "refuses (drops ?N) ?create cs1" by (auto simp: refuses_def intro: drops_meta)
      then have "refuses (drops ?N) (h_then ?create (\<lambda>_. h_ret no_output)) cs1" by (rule dropped.refuses_stop)
      with d show ?thesis by (rule dropped.refuses_step [where m = "?delete", OF 1 [unfolded Inr]])
    qed
  qed
  then show ?thesis unfolding refuses_def body .
qed

text \<open>C18: The statements the metastore serves are guarded: GRANT, REVOKE, a change of owner, SHOW GRANTS,
  CREATE FUNCTION and DROP FUNCTION by a principal without a privilege they need fail. They change
  nothing, except that a refused DROP FUNCTION of several names or CREATE OR REPLACE FUNCTION may
  already have dropped functions it names, with their grants: only ones the principal manages.\<close>

theorem metastore_statements_guarded:
  assumes "\<not> op_allowed (cs_app cs) p op"
  shows "\<exists>e cs'. apply_metastore_op lib p op cs = (Inl e, cs') \<and> cs_events cs' = cs_events cs \<and>
     dropped_functions (managed_of p cs (dropped_names op)) (cs_app cs) (cs_app cs') \<and>
     (managed_of p cs (dropped_names op) = {} \<longrightarrow> cs_app cs' = cs_app cs)"
proof -
  have "refuses (drops (managed_of p cs (dropped_names op))) (apply_metastore_op lib p op) cs"
  proof (cases op)
    case (OpCreateFunction d replace)
    with assms replace_refused show ?thesis by blast
  next
    case (OpDropFunction names if_exists)
    with assms obtain n where "n \<in> set names" "\<not> (if_exists \<and> uc_get KIND_FUNCTION n (cs_app cs) = None)"
      "\<not> manages (cs_app cs) p Function n" by auto
    from drops_refused [OF this] OpDropFunction show ?thesis by (simp add: dropped.refuses_stop)
  next
    case (OpGrant g)
    with assms have "refuses same_meta (apply_metastore_op lib p op) cs"
      by (cases g) (auto intro!: meta.refuses_stop update_grants_guarded patch_guarded show_guarded meta.refuses_fail
        split: option.split if_splits)
    then show ?thesis by (auto simp: refuses_def intro: drops_meta)
  qed
  then show ?thesis by (auto simp: refuses_def drops_def)
qed

end
