(* ===== verification/Uc_Extras_Theorems.thy ===== *)
theory Uc_Extras_Theorems
  imports Uc_Extras Uc_Access Uc_Invariant
begin

text \<open>
  What the edits of a securable guarantee: only those who manage it make them, and they keep the
  shape of the metastore and the constraints of every table named apart, with one primary key at most.
\<close>

section \<open>Who may edit\<close>

definition edits :: "app_state \<Rightarrow> principal \<Rightarrow> securable \<Rightarrow> string \<Rightarrow> bool" where
  "edits st p sec n \<longleftrightarrow> manages st p sec n \<and> \<not> read_only sec n"

fun ext_allowed :: "app_state \<Rightarrow> principal \<Rightarrow> ext_request \<Rightarrow> bool" where
  "ext_allowed st p (SetTag et en k v) \<longleftrightarrow> (case entity et en of Inl _ \<Rightarrow> True | Inr (sec, n, _) \<Rightarrow> edits st p sec n)"
| "ext_allowed st p (DeleteTag et en k) \<longleftrightarrow> (case entity et en of Inl _ \<Rightarrow> True | Inr (sec, n, _) \<Rightarrow> edits st p sec n)"
| "ext_allowed st p (AddConstraint t c) \<longleftrightarrow> edits st p Table t \<and> all_of (j_field c ''foreign_key_constraint'') (\<lambda>fk.
     all_of (as_str (j_get fk ''parent_table'')) (\<lambda>parent. holds st p Table parent ''SELECT''))"
| "ext_allowed st p (DropConstraint t n cascade) \<longleftrightarrow> edits st p Table t"
| "ext_allowed st p (UpdateCatalogBindings n add remove) \<longleftrightarrow> edits st p Catalog n"
| "ext_allowed st p (UpdateBindings t n add remove) \<longleftrightarrow>
     (case binding_securable t of Inl _ \<Rightarrow> True | Inr sec \<Rightarrow> edits st p sec n)"
| "ext_allowed st p (SetSystemSchema schema enabled) \<longleftrightarrow> p_is_admin p"
| "ext_allowed st p (SetRowFilter t func cols) \<longleftrightarrow> edits st p Table t \<and> holds st p Function func ''EXECUTE''"
| "ext_allowed st p (DropRowFilter t) \<longleftrightarrow> edits st p Table t"
| "ext_allowed st p (SetColumnMask t col func cols) \<longleftrightarrow> edits st p Table t \<and> holds st p Function func ''EXECUTE''"
| "ext_allowed st p (DropColumnMask t col) \<longleftrightarrow> edits st p Table t"
| "ext_allowed st p (PutAllowlist t matchers) \<longleftrightarrow> p_is_admin p"

lemma mutate_guarded:
  assumes "\<not> edits (cs_app cs) p sec n"
  shows "refuses same_meta (uc_mutate p sec n f) cs"
  unfolding uc_mutate_def
  by (intro quiet) (use assms in \<open>auto simp: edits_def manages_def meta.refuses_fail\<close>)

lemma policy_function_guarded:
  assumes "\<not> (edits (cs_app cs) p sec n \<and> holds (cs_app cs) p Function func ''EXECUTE'')"
    and "\<And>f cs'. cs_app cs' = cs_app cs \<Longrightarrow> \<not> edits (cs_app cs) p sec n \<Longrightarrow> refuses same_meta (g f) cs'"
  shows "refuses same_meta (h_then (require_policy_function p func) g) cs"
  unfolding require_policy_function_def
  by (intro quiet) (use assms in \<open>auto simp: meta.refuses_fail\<close>)

lemma add_constraint_guarded:
  assumes "\<not> ext_allowed (cs_app cs) p (AddConstraint t c)"
  shows "refuses same_meta (uc_add_constraint p t c) cs"
  unfolding uc_add_constraint_def check_parent_def
  by (intro quiet mutate_guarded) (use assms in \<open>auto simp: all_of_def intro: mutate_guarded quiet\<close>)

lemma drop_constraint_guarded:
  assumes "\<not> edits (cs_app cs) p Table t"
  shows "refuses same_meta (uc_drop_constraint p t n False) cs"
  unfolding uc_drop_constraint_def Let_def
  by (intro quiet mutate_guarded) (use assms in \<open>auto simp: meta.refuses_fail intro: mutate_guarded\<close>)

lemma set_system_schema_guarded: "\<not> p_is_admin p \<Longrightarrow> refuses same_meta (set_system_schema parse p schema enabled) cs"
  by (simp add: set_system_schema_def meta.refuses_fail)

lemma set_allowlist_guarded: "\<not> p_is_admin p \<Longrightarrow> refuses same_meta (set_artifact_allowlist p t matchers) cs"
  unfolding set_artifact_allowlist_def by (intro quiet) auto

lemma policy_guarded:
  assumes "\<not> (edits (cs_app cs) p Table t \<and> holds (cs_app cs) p Function func ''EXECUTE'')"
  shows "refuses same_meta (uc_set_row_filter p t func cols) cs" "refuses same_meta (uc_set_column_mask p t col func cols) cs"
  unfolding uc_set_row_filter_def uc_set_column_mask_def
  by (rule policy_function_guarded [OF assms], auto simp: meta.refuses_fail intro: mutate_guarded)+

section \<open>Which fields an edit leaves alone\<close>

definition spares :: "string \<Rightarrow> (json \<Rightarrow> api_error + json) \<Rightarrow> bool" where
  "spares k f \<longleftrightarrow> (\<forall>v v'. f v = Inr v' \<longrightarrow> j_get v' k = j_get v k)"

named_theorems sparing \<open>edits that leave a field alone\<close>

lemma map_of_without: "k \<noteq> k' \<Longrightarrow> map_of (filter (\<lambda>(x, _). x \<noteq> k') m) k = map_of m k"
  by (induction m) auto

lemma j_get_others: "k' \<noteq> k \<Longrightarrow> j_get (j_set k' x v) k = j_get v k" "k' \<noteq> k \<Longrightarrow> j_get (j_remove k' v) k = j_get v k"
  "k' \<noteq> k \<Longrightarrow> j_get (edit_field k' g v) k = j_get v k"
  by (cases v; simp add: j_set_def j_get_def j_remove_def edit_field_def bt_get_insert map_of_adjust map_of_or_insert map_of_without
      split: option.split)+

lemma spares_column [sparing]: "k \<noteq> ''columns'' \<Longrightarrow> spares k (column_mut col f)"
  by (auto simp: spares_def column_mut_def j_get_def bt_get_insert try_then_Inr Let_def split: json.splits option.splits)

lemma spares_target [sparing]:
  assumes "k \<noteq> ''columns''" and "\<And>m m'. f m = Inr m' \<Longrightarrow> map_of m' k = map_of m k"
  shows "spares k (edit_target col f)"
proof (cases col)
  case None
  with assms(2) show ?thesis
    by (auto simp: spares_def edit_target_def j_get_def try_then_Inr split: json.splits)
next
  case (Some c)
  then show ?thesis using spares_column [OF assms(1), of c f] by (simp add: spares_def edit_target_def)
qed

lemma spares_edits [sparing]:
  "k \<notin> {''columns'', ''tags''} \<Longrightarrow> spares k (edit_target col (set_tags kvs))"
  "k \<notin> {''columns'', ''tags''} \<Longrightarrow> spares k (edit_target col (unset_tags keys))"
  "k \<noteq> ''row_filter'' \<Longrightarrow> spares k (with_row_filter t func cols)"
  "k \<noteq> ''row_filter'' \<Longrightarrow> spares k (\<lambda>v. Inr (j_remove ''row_filter'' v))"
  "k \<noteq> ''columns'' \<Longrightarrow> spares k (with_mask t col' func cols)"
  "k \<noteq> ''workspace_bindings'' \<Longrightarrow> spares k (rebind add remove)"
  "k \<noteq> ''table_constraints'' \<Longrightarrow> spares k (drop_foreign_key fk)"
  "k \<notin> {''table_constraints'', ''properties''} \<Longrightarrow> spares k (drop_constraint t n)"
proof -
  show "k \<notin> {''columns'', ''tags''} \<Longrightarrow> spares k (edit_target col (set_tags kvs))"
    by (rule spares_target) (auto simp: set_tags_def try_then_Inr bt_get_insert)
  show "k \<notin> {''columns'', ''tags''} \<Longrightarrow> spares k (edit_target col (unset_tags keys))"
    by (rule spares_target) (auto simp: unset_tags_def map_of_adjust)
  show "k \<noteq> ''columns'' \<Longrightarrow> spares k (with_mask t col' func cols)"
    using spares_column [of k col'] by (auto simp: spares_def with_mask_def try_then_Inr)
qed (auto simp: spares_def with_row_filter_def rebind_def drop_foreign_key_def drop_constraint_def try_then_Inr j_get_others Let_def
    split: if_splits)

section \<open>Constraints\<close>

definition named_constraint :: "json \<Rightarrow> string option" where
  "named_constraint c = (case constraint_name c of Inr n \<Rightarrow> Some n | Inl _ \<Rightarrow> None)"

text \<open>No two constraints of one name, and one primary key at most.\<close>

definition constraints_fit :: "json \<Rightarrow> bool" where
  "constraints_fit v \<longleftrightarrow>
     distinct (List.map_filter named_constraint (constraints_of v)) \<and> length (filter is_primary (constraints_of v)) \<le> 1"

lemma fit_same: "j_get v' ''table_constraints'' = j_get v ''table_constraints'' \<Longrightarrow> constraints_fit v' = constraints_fit v"
  by (simp add: constraints_fit_def constraints_of_def)

lemma fit_filter: "constraints_fit v \<Longrightarrow> constraints_of v' = filter P (constraints_of v) \<Longrightarrow> constraints_fit v'"
proof -
  assume fit: "constraints_fit v" and v': "constraints_of v' = filter P (constraints_of v)"
  have "distinct (List.map_filter named_constraint (filter P xs))" if "distinct (List.map_filter named_constraint xs)" for xs
    using that
  proof (induction xs)
    case (Cons x xs)
    have "set (List.map_filter named_constraint (filter P xs)) \<subseteq> set (List.map_filter named_constraint xs)"
      by (auto simp: List.map_filter_def)
    with Cons show ?case by (auto simp: List.map_filter_simps split: option.splits)
  qed (simp add: List.map_filter_simps)
  moreover have "length (filter is_primary (filter P xs)) \<le> length (filter is_primary xs)" for xs
    by (induction xs) auto
  ultimately show ?thesis using fit v' by (auto simp: constraints_fit_def intro: order_trans)
qed

lemma constraints_retained: "\<exists>Q. constraints_of (edit_field ''table_constraints'' (retain P) v) = filter Q (constraints_of v)"
proof (cases "as_array (j_get v ''table_constraints'')")
  case None
  then have "constraints_of (edit_field ''table_constraints'' (retain P) v) = []"
    by (cases v) (auto simp: constraints_of_def edit_field_def j_get_def map_of_adjust map_of_or_insert retain_def
        split: option.splits json.splits)
  then show ?thesis by (intro exI [of _ "\<lambda>_. False"]) simp
next
  case (Some xs)
  then have "constraints_of (edit_field ''table_constraints'' (retain P) v) = filter P (constraints_of v)"
    by (cases v) (auto simp: constraints_of_def edit_field_def j_get_def map_of_adjust map_of_or_insert retain_def
        split: option.splits json.splits)
  then show ?thesis by (rule exI [of _ P])
qed

lemma fit_retained: "constraints_fit v \<Longrightarrow> constraints_fit (edit_field ''table_constraints'' (retain P) v)"
  using constraints_retained fit_filter by metis

lemma fit_properties: "constraints_fit (edit_field ''properties'' g v) = constraints_fit v"
  by (rule fit_same) (simp add: j_get_others)

lemma fit_set_check: "constraints_fit (set_check n chk v) = constraints_fit v"
  by (rule fit_same) (cases v; simp add: set_check_def j_get_def map_of_adjust map_of_or_insert)

lemma fit_append:
  assumes "constraints_fit v" and "constraint_name c = Inr n"
    and "\<not> list_ex (\<lambda>x. constraint_name x = Inr n) (constraints_of v)" and "is_primary c \<Longrightarrow> \<not> list_ex is_primary (constraints_of v)"
  shows "constraints_fit (j_set ''table_constraints'' (JArr (constraints_of v @ [c])) v)"
proof -
  have "n \<notin> set (List.map_filter named_constraint (constraints_of v))"
    using assms(3) by (auto simp: List.map_filter_def named_constraint_def list_ex_iff split: sum.splits)
  moreover have "is_primary c \<Longrightarrow> filter is_primary (constraints_of v) = []"
    using assms(4) by (simp add: filter_empty_conv list_ex_iff)
  ultimately have new: "constraints_fit w" if "constraints_of w = constraints_of v @ [c]" for w
    using assms(1,2) that
    by (auto simp: constraints_fit_def List.map_filter_def named_constraint_def)
  show ?thesis
  proof (cases "(\<exists>m. v = JObj m) \<or> v = JNull")
    case True
    then show ?thesis by (intro new) (auto simp: constraints_of_def j_set_def j_get_def bt_get_insert)
  next
    case False
    then show ?thesis using assms(1) by (cases v) (auto simp: j_set_def)
  qed
qed

lemma fit_constraint_edits:
  "constraint_name c = Inr n \<Longrightarrow> constraints_fit v \<Longrightarrow> add_constraint t n c v = Inr v' \<Longrightarrow> constraints_fit v'"
  "constraints_fit v \<Longrightarrow> drop_constraint t n v = Inr v' \<Longrightarrow> constraints_fit v'"
  "constraints_fit v \<Longrightarrow> drop_foreign_key n v = Inr v' \<Longrightarrow> constraints_fit v'"
  by (auto simp: add_constraint_def drop_constraint_def drop_foreign_key_def try_then_Inr Let_def fit_set_check fit_properties fit_retained
      intro!: fit_append split: if_splits option.splits)

lemma spares_add: "k \<notin> {''table_constraints'', ''properties''} \<Longrightarrow> spares k (add_constraint t n c)"
proof -
  assume k: "k \<notin> {''table_constraints'', ''properties''}"
  then have "j_get (set_check n chk w) k = j_get w k" for chk w
    by (cases w) (auto simp: set_check_def j_get_def map_of_adjust map_of_or_insert)
  with k show ?thesis
    by (auto simp: spares_def add_constraint_def try_then_Inr Let_def j_get_others split: if_splits option.splits)
qed

section \<open>Editing keeps the tables in shape\<close>

definition ext_ok :: "cat_state \<Rightarrow> bool" where
  "ext_ok cs \<longleftrightarrow> meta_ok cs \<and>
     (\<forall>d \<in> set (st_docs (as_store (cs_app cs))). d_kind d = KIND_TABLE \<longrightarrow> constraints_fit (d_data d))"

lemma ext_ok_app: "cs_app cs' = cs_app cs \<Longrightarrow> ext_ok cs' = ext_ok cs"
  by (simp add: ext_ok_def)

text \<open>An edit of a document that keeps the full name in it and the constraints fit.\<close>

definition sound_edit :: "(json \<Rightarrow> api_error + json) \<Rightarrow> bool" where
  "sound_edit f \<longleftrightarrow> spares ''full_name'' f \<and> (\<forall>v v'. f v = Inr v' \<longrightarrow> constraints_fit v \<longrightarrow> constraints_fit v')"

lemma sound_spares: "spares ''full_name'' f \<Longrightarrow> spares ''table_constraints'' f \<Longrightarrow> sound_edit f"
  unfolding sound_edit_def spares_def by (metis fit_same)

lemma put_docs:
  "d \<in> set (st_docs (snd (store_put now k i parent n v s))) \<Longrightarrow> d \<in> set (st_docs s) \<or> d_kind d = k \<and> d_data d = v"
  by (auto simp: store_put_def is_key_def split: if_splits)

lemma update_fit:
  assumes "sound_edit f"
  shows "keeps ext_ok (c_store (store_update now now' kind (uc_doc_id kind n) what f)) cs"
proof (rule keeps_stop)
  fix cs assume ok: "ext_ok cs"
  let ?s = "as_store (cs_app cs)"
  show "ext_ok (snd (c_store (store_update now now' kind (uc_doc_id kind n) what f) cs))"
  proof (cases "store_get kind (uc_doc_id kind n) ?s")
    case None
    with ok show ?thesis by (simp add: c_store_def c_app_def store_update_def store_require_def ext_ok_def)
  next
    case (Some d)
    then have d: "d \<in> set (st_docs ?s)" "d_kind d = kind"
      using ok by (auto simp: ext_ok_def metastore_ok_def store_get_iff)
    have ex: "list_ex (is_key kind (uc_doc_id kind n)) (st_docs ?s)"
      using Some store_get_None by (metis option.distinct(1))
    show ?thesis
    proof (cases "f (d_data d)")
      case (Inl e)
      with ok Some show ?thesis by (simp add: c_store_def c_app_def store_update_def store_require_def ext_ok_def)
    next
      case (Inr v)
      let ?put = "snd (store_put now kind (uc_doc_id kind n) (d_parent d) (d_name d) v ?s)"
      have "metastore_ok (store_of ?put (cs_app cs))"
      proof (cases "level kind")
        case None
        with ok show ?thesis by (intro ok_put_unlevelled) (simp_all add: ext_ok_def)
      next
        case (Some k)
        have ms: "metastore_ok (cs_app cs)" using ok by (simp add: ext_ok_def)
        note at = located_get [OF ms \<open>store_get _ _ _ = _\<close>]
        have "placed kind n (d_parent d) v"
          using at(3) Some assms Inr by (simp add: placed_def carries_def sound_edit_def spares_def)
        with ok_put [OF ms this] at(2) Some show ?thesis by simp
      qed
      moreover have "constraints_fit v" if "kind = KIND_TABLE"
        using that d ok assms Inr by (auto simp: ext_ok_def sound_edit_def)
      ultimately have "ext_ok (cs\<lparr>cs_app := store_of ?put (cs_app cs)\<rparr>)"
        using ok by (auto simp: ext_ok_def dest!: put_docs)
      moreover have "cs_app (snd (c_store (store_update now now' kind (uc_doc_id kind n) what f) cs)) = store_of ?put (cs_app cs)"
        using Some Inr ex by (simp add: c_store_def c_app_def store_update_def store_require_def store_put_def h_basic)
      ultimately show ?thesis by (simp add: ext_ok_def)
    qed
  qed
qed

abbreviation same_app :: "cat_state \<Rightarrow> cat_state \<Rightarrow> bool" where
  "same_app cs cs' \<equiv> cs_app cs' = cs_app cs"

interpretation app: frame same_app
  by unfold_locales simp_all

lemma same_app_prims:
  "moves_within same_app c_now" "moves_within same_app c_uuid" "moves_within same_app (c_event e)" "moves_within same_app engine_answer"
  "moves_within same_app (broadcast_sql q)"
  by (simp_all add: moves_within_def cm_simps c_event_def engine_answer_def broadcast_sql_def)

lemma same_app_broadcast: "moves_within same_app (broadcast_table v)"
  unfolding broadcast_table_def register_table_on_def
  by (auto intro!: app.within_then app.within_basic same_app_prims split: option.split)

lemma fit_quiet: "moves_within same_app m \<Longrightarrow> keeps ext_ok m cs"
  by (auto simp: moves_within_def keeps_def ext_ok_def)

lemma fit_then: "keeps ext_ok m cs \<Longrightarrow> (\<And>x cs. keeps ext_ok (f x) cs) \<Longrightarrow> keeps ext_ok (h_then m f) cs"
  by (rule keeps_then)

named_theorems fitting \<open>steps that keep the tables in shape\<close>

lemmas [fitting] = keeps_rules

lemma fit_lift [fitting]: "(\<And>x. r = Inr x \<Longrightarrow> keeps ext_ok (f x) cs) \<Longrightarrow> keeps ext_ok (h_then (c_lift r) f) cs"
  by (rule keeps_read) (auto simp: cm_simps)

lemma fit_reads [fitting]:
  "(\<And>x cs. keeps ext_ok (f1 x) cs) \<Longrightarrow> keeps ext_ok (h_then (uc_require k n w) f1) cs"
  "(\<And>x cs. keeps ext_ok (f2 x) cs) \<Longrightarrow> keeps ext_ok (h_then (c_authorizer p) f2) cs"
  "(\<And>x cs. keeps ext_ok (f3 x) cs) \<Longrightarrow> keeps ext_ok (h_then (c_az g az) f3) cs"
  "(\<And>x cs. keeps ext_ok (f4 x) cs) \<Longrightarrow> keeps ext_ok (h_then (c_can h az) f4) cs"
  "(\<And>x cs. keeps ext_ok (f5 x) cs) \<Longrightarrow> keeps ext_ok (h_then (c_ask q) f5) cs"
  "(\<And>x cs. keeps ext_ok (f6 x) cs) \<Longrightarrow> keeps ext_ok (h_then (c_list k fl) f6) cs"
  by (rule keeps_read; simp)+

lemmas fit_stamps [fitting] = fit_then [OF fit_quiet [OF same_app_prims(1)]] fit_then [OF fit_quiet [OF same_app_broadcast]]

lemma fit_split [fitting]: "keeps ext_ok (f (fst x) (snd x)) cs \<Longrightarrow> keeps ext_ok (case x of (a, b) \<Rightarrow> f a b) cs"
  by (simp add: case_prod_beta)

lemma stamped_sound: "sound_edit f \<Longrightarrow> sound_edit (\<lambda>v. try_then (f v) (\<lambda>v'. Inr (stamped now user v')))"
proof -
  have other: "j_get (stamped now user v) k = j_get v k" if "''updated_by'' \<noteq> k" "''updated_at'' \<noteq> k" for v k
    using that by (simp add: stamped_def j_get_others)
  have "constraints_fit (stamped now user v) = constraints_fit v" for v by (rule fit_same) (simp add: other)
  with other show "sound_edit f \<Longrightarrow> ?thesis" by (auto simp: sound_edit_def spares_def try_then_Inr)
qed

lemma mutate_fit [fitting]: "sound_edit f \<Longrightarrow> keeps ext_ok (uc_mutate p sec n f) cs"
  unfolding uc_mutate_def
  by (intro fitting fit_then [OF update_fit] stamped_sound)

lemma kv_fit [fitting]: "keeps ext_ok (c_kv_set k v) cs"
proof (rule keeps_stop)
  fix cs assume ok: "ext_ok cs"
  have "store_inv (kv_set k v s)" if "store_inv s" for s using inv_kv_set that by blast
  then show "ext_ok (snd (c_kv_set k v cs))"
    using ok by (auto simp: c_kv_set_def c_store_def c_app_def ext_ok_def metastore_ok_def)
qed

section \<open>Refusals\<close>

text \<open>
  A drop of a primary key with \<open>cascade\<close> drops the foreign keys on other tables before it asks for the table
  itself. What may then have changed: constraints and stamps of tables the principal manages, nothing else.
\<close>

definition retouched :: "string \<Rightarrow> doc option \<Rightarrow> doc option \<Rightarrow> bool" where
  "retouched k d d' \<longleftrightarrow> k = KIND_TABLE \<and> (case (d, d') of
     (Some a, Some b) \<Rightarrow> d_parent b = d_parent a \<and> d_name b = d_name a \<and>
       (\<forall>key. key \<notin> {''table_constraints'', ''updated_at'', ''updated_by''} \<longrightarrow> j_get (d_data b) key = j_get (d_data a) key)
   | _ \<Rightarrow> False)"

definition touched :: "string set \<Rightarrow> app_state \<Rightarrow> app_state \<Rightarrow> bool" where
  "touched T st st' \<longleftrightarrow> as_admin_user st' = as_admin_user st \<and> st_kv (as_store st') = st_kv (as_store st) \<and>
     (\<forall>k i. store_get k i (as_store st') = store_get k i (as_store st) \<or>
        (\<exists>t \<in> T. i = uc_doc_id KIND_TABLE t) \<and> retouched k (store_get k i (as_store st)) (store_get k i (as_store st')))"

lemma retouched_trans: "retouched k a b \<Longrightarrow> retouched k b c \<Longrightarrow> retouched k a c"
  by (auto simp: retouched_def split: option.splits)

lemma touched_refl: "touched T st st"
  by (simp add: touched_def)

lemma touched_trans: "touched T st1 st2 \<Longrightarrow> touched T st2 st3 \<Longrightarrow> touched T st1 st3"
proof -
  assume t: "touched T st1 st2" "touched T st2 st3"
  have "store_get k i (as_store st3) = store_get k i (as_store st1) \<or>
      (\<exists>t \<in> T. i = uc_doc_id KIND_TABLE t) \<and> retouched k (store_get k i (as_store st1)) (store_get k i (as_store st3))" for k i
  proof -
    have 1: "store_get k i (as_store st2) = store_get k i (as_store st1) \<or>
        (\<exists>t \<in> T. i = uc_doc_id KIND_TABLE t) \<and> retouched k (store_get k i (as_store st1)) (store_get k i (as_store st2))"
      using t(1) unfolding touched_def by blast
    have 2: "store_get k i (as_store st3) = store_get k i (as_store st2) \<or>
        (\<exists>t \<in> T. i = uc_doc_id KIND_TABLE t) \<and> retouched k (store_get k i (as_store st2)) (store_get k i (as_store st3))"
      using t(2) unfolding touched_def by blast
    from 1 show ?thesis
    proof
      assume "store_get k i (as_store st2) = store_get k i (as_store st1)"
      with 2 show ?thesis by simp
    next
      assume r: "(\<exists>t \<in> T. i = uc_doc_id KIND_TABLE t) \<and> retouched k (store_get k i (as_store st1)) (store_get k i (as_store st2))"
      from 2 show ?thesis
      proof
        assume "store_get k i (as_store st3) = store_get k i (as_store st2)"
        with r show ?thesis by simp
      next
        assume "(\<exists>t \<in> T. i = uc_doc_id KIND_TABLE t) \<and> retouched k (store_get k i (as_store st2)) (store_get k i (as_store st3))"
        with r show ?thesis by (blast intro: retouched_trans)
      qed
    qed
  qed
  with t show ?thesis by (simp add: touched_def)
qed

lemma touched_mono: "touched T st st' \<Longrightarrow> T \<subseteq> T' \<Longrightarrow> touched T' st st'"
  unfolding touched_def by blast

interpretation touch: frame "\<lambda>cs cs'. touched T (cs_app cs) (cs_app cs')" for T
  by unfold_locales (auto intro: touched_refl touched_trans)

text \<open>Owners and grants, so what anyone holds, are what they were.\<close>

lemma touched_holds:
  assumes "touched T st st'"
  shows "holds st' p sec n privilege = holds st p sec n privilege"
proof -
  have get: "store_get k i (as_store st') = store_get k i (as_store st) \<or>
      retouched k (store_get k i (as_store st)) (store_get k i (as_store st'))" for k i
    using assms unfolding touched_def by blast
  have "owner_lookup s m st' = owner_lookup s m st" for s m
    using get [of "or_default KIND_TABLE (sec_kind s)" "uc_doc_id (or_default KIND_TABLE (sec_kind s)) m"] assms
    by (auto simp: owner_lookup_def Let_def touched_def retouched_def split: option.splits)
  moreover have "grants_for s m st' = grants_for s m st" for s m
    using get [of KIND_GRANTS "grants_doc_id s m"] by (auto simp: grants_for_def retouched_def KIND_GRANTS_def KIND_TABLE_def)
  ultimately have "owned_by st' p = owned_by st p" "granted st' p ok = granted st p ok" for ok
    by (simp_all add: fun_eq_iff owned_by_def granted_def)
  then show ?thesis by (simp add: holds_def holds_some_def)
qed

lemma touched_edits: "touched T st st' \<Longrightarrow> edits st' p sec n = edits st p sec n"
  by (simp add: edits_def manages_def touched_holds)

lemma same_app_touched: "moves_within same_app m \<Longrightarrow> moves_within (\<lambda>cs cs'. touched T (cs_app cs) (cs_app cs')) m"
  by (auto simp: moves_within_def touched_refl)

lemma update_touched:
  assumes "\<And>k. k \<notin> {''table_constraints'', ''updated_at'', ''updated_by''} \<Longrightarrow> spares k f"
  shows "moves_within (\<lambda>cs cs'. touched {t} (cs_app cs) (cs_app cs'))
     (c_store (store_update now now' KIND_TABLE (uc_doc_id KIND_TABLE t) what f))"
proof -
  have "touched {t} (cs_app cs) (cs_app (snd (c_store (store_update now now' KIND_TABLE (uc_doc_id KIND_TABLE t) what f) cs)))" for cs
  proof (cases "store_get KIND_TABLE (uc_doc_id KIND_TABLE t) (as_store (cs_app cs))")
    case None
    then show ?thesis by (simp add: c_store_def c_app_def store_update_def store_require_def store_of_def touched_refl)
  next
    case (Some d)
    show ?thesis
    proof (cases "f (d_data d)")
      case (Inl e)
      with Some show ?thesis by (simp add: c_store_def c_app_def store_update_def store_require_def store_of_def touched_refl)
    next
      case (Inr v)
      let ?s' = "snd (store_put now KIND_TABLE (uc_doc_id KIND_TABLE t) (d_parent d) (d_name d) v (as_store (cs_app cs)))"
      have "cs_app (snd (c_store (store_update now now' KIND_TABLE (uc_doc_id KIND_TABLE t) what f) cs)) = store_of ?s' (cs_app cs)"
        using Some Inr by (simp add: c_store_def c_app_def store_update_def store_require_def split: prod.split sum.split)
      moreover have "\<forall>key. key \<notin> {''table_constraints'', ''updated_at'', ''updated_by''} \<longrightarrow> j_get v key = j_get (d_data d) key"
        using assms Inr by (auto simp: spares_def)
      ultimately show ?thesis using Some by (auto simp: touched_def store_of_def store_simps retouched_def)
    qed
  qed
  then show ?thesis by (simp add: moves_within_def)
qed

lemma mutate_touched:
  assumes "\<And>k. k \<noteq> ''table_constraints'' \<Longrightarrow> spares k f"
  shows "moves_within (\<lambda>cs cs'. touched {t} (cs_app cs) (cs_app cs')) (uc_mutate p Table t f)"
proof -
  have "spares k (\<lambda>v. try_then (f v) (\<lambda>v'. Inr (stamped now user v')))"
    if "k \<notin> {''table_constraints'', ''updated_at'', ''updated_by''}" for k now user
    using assms [of k] that by (auto simp: spares_def try_then_Inr stamped_def j_get_others)
  note store = update_touched [OF this]
  have kind: "kind_of Table = Inr KIND_TABLE" by (simp add: kind_of_def)
  have lift: "h_then (c_lift (Inr x)) g = g x" for x and g :: "'b \<Rightarrow> 'c cm" by (simp add: h_then_def cm_simps fun_eq_iff)
  have "reads (uc_require KIND_TABLE t w)" "reads (c_authorizer p)" "reads (c_can g az)" for w g az by simp_all
  note reads = this [THEN touch.within_reads]
  show ?thesis unfolding uc_mutate_def kind lift
    by (auto intro!: touch.within_then touch.within_basic reads same_app_touched [OF same_app_prims(1)] store
        same_app_touched [OF same_app_broadcast])
qed

definition keys_dropped :: "principal \<Rightarrow> app_state \<Rightarrow> app_state \<Rightarrow> bool" where
  "keys_dropped p st st' \<longleftrightarrow> touched {t. edits st p Table t} st st'"

interpretation keyed: frame "\<lambda>(cs :: cat_state) cs'. keys_dropped p (cs_app cs) (cs_app cs')" for p
proof unfold_locales
  fix s1 s2 s3 :: cat_state
  assume s: "keys_dropped p (cs_app s1) (cs_app s2)" "keys_dropped p (cs_app s2) (cs_app s3)"
  then have "{t. edits (cs_app s2) p Table t} = {t. edits (cs_app s1) p Table t}"
    using touched_edits unfolding keys_dropped_def by blast
  with s show "keys_dropped p (cs_app s1) (cs_app s3)" by (auto simp: keys_dropped_def intro: touched_trans)
qed (simp add: keys_dropped_def touched_refl)

lemma drop_keys_within: "moves_within (\<lambda>cs cs'. keys_dropped p (cs_app cs) (cs_app cs')) (uc_mutate p Table t (drop_foreign_key c))"
proof -
  have "keys_dropped p (cs_app cs) (cs_app (snd (uc_mutate p Table t (drop_foreign_key c) cs)))" for cs
  proof (cases "edits (cs_app cs) p Table t")
    case True
    have "touched {t} (cs_app cs) (cs_app (snd (uc_mutate p Table t (drop_foreign_key c) cs)))"
      using mutate_touched [of "drop_foreign_key c" t p] sparing(9) unfolding moves_within_def by (simp add: spares_edits)
    with True show ?thesis by (auto simp: keys_dropped_def intro: touched_mono)
  next
    case False
    from mutate_guarded [OF this, of "drop_foreign_key c"]
    show ?thesis by (auto simp: refuses_def same_meta_def keys_dropped_def touched_refl)
  qed
  then show ?thesis by (simp add: moves_within_def)
qed

lemma cascade_guarded:
  assumes "\<not> edits (cs_app cs) p Table t"
  shows "refuses (\<lambda>cs cs'. keys_dropped p (cs_app cs) (cs_app cs')) (uc_drop_constraint p t n True) cs"
proof -
  have last: "refuses (\<lambda>cs cs'. keys_dropped p (cs_app cs) (cs_app cs')) (uc_mutate p Table t f) cs'"
    if "keys_dropped p (cs_app cs) (cs_app cs')" for cs' f
  proof -
    from that assms have "\<not> edits (cs_app cs') p Table t" using touched_edits unfolding keys_dropped_def by blast
    from mutate_guarded [OF this, of f] show ?thesis
      by (auto simp: refuses_def same_meta_def keys_dropped_def touched_refl)
  qed
  have reads: "reads (c_list k fl)" "reads (uc_require k n' w)" for k fl n' w by simp_all
  note quiet = this [THEN keyed.within_reads, of p]
  show ?thesis unfolding uc_drop_constraint_def Let_def
  proof (rule keyed.refuses_then [OF quiet(1)], rule keyed.refuses_then [OF quiet(2)], rule keyed.refuses_then)
    fix docs v and cs1 cs2 cs3 :: cat_state
    assume "keys_dropped p (cs_app cs) (cs_app cs1)" "keys_dropped p (cs_app cs1) (cs_app cs2)" "keys_dropped p (cs_app cs2) (cs_app cs3)"
    then show "refuses (\<lambda>cs cs'. keys_dropped p (cs_app cs) (cs_app cs')) (uc_mutate p Table t (drop_constraint t n)) cs3"
      by (blast intro: last keyed.frame_trans)
  qed (auto intro!: keyed.within_basic keyed.within_each keyed.within_then drop_keys_within)
qed

fun cascades :: "ext_request \<Rightarrow> bool" where
  "cascades (DropConstraint t n cascade) = cascade"
| "cascades _ = False"

text \<open>C19: Only those who manage a securable edit it: setting or removing a tag, constraint, row filter,
  column mask or workspace binding, and an administrator's setting, by anyone else or on a read-only
  securable fails; a policy function needs \<open>EXECUTE\<close> and the parent of a foreign key \<open>SELECT\<close> besides.
  A refused edit changes no document, grant or key, except that dropping a primary key with \<open>cascade\<close>
  has then dropped foreign keys on other tables, which the principal manages, and changed nothing else.\<close>

theorem extras_guarded:
  assumes "\<not> ext_allowed (cs_app cs) p req"
  shows "\<exists>e cs'. ext_handle parse p req cs = (Inl e, cs') \<and>
    (if cascades req then keys_dropped p (cs_app cs) (cs_app cs')
     else cs_app cs' = cs_app cs \<and> cs_events cs' = cs_events cs)"
proof -
  have tag: "refuses same_meta (h_then (c_lift (entity et en)) (\<lambda>(sec, full, col). h_then (uc_mutate p sec full (g col)) h)) cs"
    if "\<not> (case entity et en of Inl _ \<Rightarrow> True | Inr (sec, n, _) \<Rightarrow> edits (cs_app cs) p sec n)"
    for et en g and h :: "json \<Rightarrow> json cm"
    by (rule refuses_lift) (use that in \<open>auto intro: mutate_guarded meta.refuses_stop\<close>)
  have bind: "refuses same_meta (h_then (uc_update_bindings p sec n add remove) h) cs"
    if "\<not> edits (cs_app cs) p sec n" for sec n add remove and h :: "json list \<Rightarrow> json cm"
    unfolding uc_update_bindings_def by (intro meta.refuses_stop mutate_guarded that)
  have quiet: "refuses same_meta (ext_handle parse p req) cs" if "\<not> cascades req"
  proof (cases req)
    case (AddConstraint t c)
    with add_constraint_guarded [OF assms [unfolded AddConstraint]] show ?thesis by simp
  next
    case (UpdateBindings t n add remove)
    with assms show ?thesis
      unfolding UpdateBindings ext_handle.simps update_bindings_def by (intro refuses_lift bind) (auto split: sum.splits)
  qed (use assms that in \<open>simp_all add: create_tag_def delete_tag_def update_catalog_bindings_def uc_set_tags_def uc_unset_tags_def tag bind drop_constraint_guarded [THEN meta.refuses_stop]
      set_system_schema_guarded [THEN meta.refuses_stop] set_allowlist_guarded policy_guarded uc_drop_row_filter_def uc_drop_column_mask_def mutate_guarded\<close>)
  show ?thesis
  proof (cases "cascades req")
    case True
    then obtain t n where req: "req = DropConstraint t n True" by (cases req) auto
    with assms have "\<not> edits (cs_app cs) p Table t" by simp
    from keyed.refuses_stop [OF cascade_guarded [OF this, of n]] True req show ?thesis by (auto simp: refuses_def)
  next
    case False
    with quiet [OF False] show ?thesis by (simp add: refuses_def same_meta_def)
  qed
qed


section \<open>The invariant\<close>

lemma sound_edits [fitting]:
  "sound_edit (edit_target col (set_tags kvs))" "sound_edit (edit_target col (unset_tags keys))"
  "sound_edit (with_row_filter t func cols)" "sound_edit (\<lambda>v. Inr (j_remove ''row_filter'' v))"
  "sound_edit (with_mask t col' func cols)" "sound_edit (column_mut col' g)" "sound_edit (rebind add remove)"
  by (intro sound_spares sparing; simp)+

lemma sound_editI:
  "spares ''full_name'' f \<Longrightarrow> (\<And>v v'. constraints_fit v \<Longrightarrow> f v = Inr v' \<Longrightarrow> constraints_fit v') \<Longrightarrow> sound_edit f"
  by (simp add: sound_edit_def)

lemma sound_constraint_edits [fitting]:
  "constraint_name c = Inr n \<Longrightarrow> sound_edit (add_constraint t n c)"
  "sound_edit (drop_constraint t n)" "sound_edit (drop_foreign_key n)"
  by (rule sound_editI, rule spares_add, simp, erule (2) fit_constraint_edits)
    (rule sound_editI, rule spares_edits, simp, erule (1) fit_constraint_edits)+

lemma policy_fit [fitting]:
  "(\<And>x cs. keeps ext_ok (f x) cs) \<Longrightarrow> keeps ext_ok (h_then (require_policy_function p func) f) cs"
  unfolding require_policy_function_def by (intro fitting)

lemma parent_fit: "keeps ext_ok (check_parent p fk) cs"
proof -
  have "keeps ext_ok (c_lift r) cs" for r :: "api_error + unit" and cs by (simp add: keeps_def cm_simps)
  then show ?thesis unfolding check_parent_def by (auto intro!: fitting split: option.split)
qed

lemma operations_fit:
  "keeps ext_ok (uc_set_tags p sec n col kvs) cs" "keeps ext_ok (uc_unset_tags p sec n col keys) cs"
  "keeps ext_ok (uc_set_row_filter p t func cols) cs" "keeps ext_ok (uc_drop_row_filter p t) cs"
  "keeps ext_ok (uc_set_column_mask p t c func cols) cs" "keeps ext_ok (uc_drop_column_mask p t c) cs"
  "keeps ext_ok (set_system_schema parse p schema enabled) cs"
  unfolding uc_set_tags_def uc_unset_tags_def uc_set_row_filter_def uc_drop_row_filter_def uc_set_column_mask_def
    uc_drop_column_mask_def set_system_schema_def Let_def
  by (intro fitting)+

lemma add_constraint_fit: "keeps ext_ok (uc_add_constraint p t c) cs"
  unfolding uc_add_constraint_def by (intro fitting fit_then [OF parent_fit])

lemma drop_constraint_fit: "keeps ext_ok (uc_drop_constraint p t n cascade) cs"
  unfolding uc_drop_constraint_def Let_def
  by (intro fitting fit_then [OF keeps_each] fit_then [OF mutate_fit])

lemma bindings_fit: "keeps ext_ok (uc_update_bindings p sec n add remove) cs"
  unfolding uc_update_bindings_def by (intro fitting fit_then [OF mutate_fit])

lemma allowlist_fit: "keeps ext_ok (set_artifact_allowlist p t matchers) cs"
proof -
  have "keeps ext_ok (c_lift r) cs" for r :: "api_error + unit" and cs by (simp add: keeps_def cm_simps)
  then show ?thesis
    unfolding set_artifact_allowlist_def Let_def by (intro fitting fit_then [OF keeps_each] fit_then [OF kv_fit])
qed

lemma ext_request_fit: "keeps ext_ok (ext_handle parse p req) cs"
  by (cases req)
    (simp_all add: create_tag_def delete_tag_def update_catalog_bindings_def update_bindings_def, (intro fitting fit_then [OF operations_fit(1)] fit_then [OF operations_fit(2)] fit_then [OF operations_fit(7)]
      fit_then [OF bindings_fit] fit_then [OF drop_constraint_fit] operations_fit add_constraint_fit allowlist_fit)+)

fun ext_run :: "json_parser \<Rightarrow> (principal \<times> ext_request) list \<Rightarrow> cat_state \<Rightarrow> cat_state" where
  "ext_run parse [] cs = cs"
| "ext_run parse ((p, req) # reqs) cs = ext_run parse reqs (snd (ext_handle parse p req cs))"

text \<open>C20: Edits keep the tables in shape: after any sequence of edits of tags, constraints, row filters,
  column masks, bindings and settings, failed ones included, the metastore has its shape and every
  table's constraints have different names and one primary key at most, if they had so before.\<close>

theorem constraints_kept:
  assumes "ext_ok cs"
  shows "ext_ok (ext_run parse reqs cs)"
  using assms
proof (induction reqs arbitrary: cs)
  case (Cons pr reqs)
  obtain p req where pr: "pr = (p, req)" by (cases pr)
  have "ext_ok (snd (ext_handle parse p req cs))" by (rule keepsD [OF ext_request_fit Cons.prems])
  with Cons.IH pr show ?case by simp
qed simp

end
