(* ===== verification/Uc_Sql_Witnesses.thy ===== *)
theory Uc_Sql_Witnesses
  imports Uc_Witnesses Uc_SqlAuth_Theorems Uc_Extras_Theorems
begin

text \<open>The properties of SQL authorisation and of the metastore's edits at concrete stores and requests.\<close>

section \<open>Edits\<close>

definition no_json :: json_parser where
  "no_json = (\<lambda>_. Inl ''no value'')"

theorem extras_guarded_witness:
  "\<exists>e cs'. ext_handle no_json bob (SetTag ''tables'' ''m.s.t'' ''pii'' ''yes'') (meta0 grant_state) = (Inl e, cs') \<and>
     cs_app cs' = grant_state \<and> cs_events cs' = []"
proof -
  have "\<not> holds grant_state bob Table ''m.s.t'' ''MANAGE''" by code_simp
  moreover have "entity ''tables'' ''m.s.t'' = Inr (Table, ''m.s.t'', None)" by (simp add: entity_def)
  ultimately have "\<not> ext_allowed (cs_app (meta0 grant_state)) bob (SetTag ''tables'' ''m.s.t'' ''pii'' ''yes'')"
    by (simp add: edits_def manages_def)
  from extras_guarded [OF this, of no_json] show ?thesis by (simp add: meta0_def)
qed

definition key_on_t :: "(principal \<times> ext_request) list" where
  "key_on_t = [(root, AddConstraint ''m.default.t'' (jobj [(''primary_key_constraint'', jobj [(''name'', JStr ''pk'')])])),
     (root, AddConstraint ''m.default.t'' (jobj [(''primary_key_constraint'', jobj [(''name'', JStr ''pk2'')])])),
     (root, SetTag ''tables'' ''m.default.t'' ''pii'' ''yes'')]"

definition keyed :: cat_state where
  "keyed = ext_run no_json key_on_t (meta0 small_state)"

theorem constraints_kept_witness: "ext_ok (ext_run no_json key_on_t (meta0 small_state))"
proof (rule constraints_kept)
  have "metastore_ok small_state" using small_deletable by (simp add: deletable_def)
  moreover have "constraints_fit (d_data (uc_doc k n p l))" for k n p l
    by (simp add: constraints_fit_def constraints_of_def uc_doc_def j_get_def List.map_filter_simps)
  ultimately show "ext_ok (meta0 small_state)"
    by (auto simp: ext_ok_def small_state_def grants_doc_def uc_kind_defs)
qed

lemma keyed_once:
  "map (\<lambda>d. length (constraints_of (d_data d))) (filter (\<lambda>d. d_kind d = KIND_TABLE) (st_docs (as_store (cs_app keyed)))) = [1]"
  by code_simp

section \<open>SQL\<close>

text \<open>A table with a row filter that the user \<open>bob\<close> may select from, and one he may not.\<close>

definition filtered_doc :: doc where
  "filtered_doc = (uc_doc KIND_TABLE ''m.default.t'' (Some ''m.default'') ''t'')\<lparr>d_data :=
     jobj [(''full_name'', JStr ''m.default.t''), (''name'', JStr ''t''),
       (''row_filter'', jobj [(''function_name'', JStr ''m.default.f''), (''input_column_names'', JArr [JStr ''a''])])]\<rparr>"

definition filtered_state :: app_state where
  "filtered_state = \<lparr>as_store = \<lparr>st_dialect = Sqlite, st_docs = [filtered_doc], st_kv = []\<rparr>, as_admin_user = ''root''\<rparr>"

definition select_t :: string where
  "select_t = ''SELECT * FROM m.default.t''"

definition reads_t :: analysis where
  "reads_t = (empty_analysis StSelect)\<lparr>an_reads := [''m.default.t'']\<rparr>"

text \<open>A rewriting that writes the row filter's function after the text.\<close>

definition filter_lib :: "unit sql_lib" where
  "filter_lib = \<lparr>sl_analyze = (\<lambda>_ _ _. (Some [()], reads_t)), sl_view = (\<lambda>_ _ _. VOther),
     sl_rewrite = (\<lambda>_ pol _ _ _ _. map_option fst (Option.bind (pol ''m.default.t'') tp_row_filter)), sl_json = no_json\<rparr>"

lemma select_t_facts: "grant_parse select_t cat sch = None"
  by (simp add: select_t_def) code_simp

lemma filter_lib_facts:
  "sl_analyze filter_lib sql cat sch = (Some [()], reads_t)" "sl_json filter_lib = no_json"
  "sl_rewrite filter_lib ss pol fns facts cat sch = map_option fst (Option.bind (pol ''m.default.t'') tp_row_filter)"
  "metastore_op_of filter_lib [()] cat sch = None"
  by (simp_all add: filter_lib_def metastore_op_of_def)

theorem prepared_sql_authorised_witness:
  "(\<exists>ps. prepare_sql filter_lib root select_t (\<lambda>_. None) (meta0 filtered_state) = (Inr ps, meta0 filtered_state) \<and> ps_sql ps = ''m.default.f'') \<and>
   (\<exists>e. prepare_sql filter_lib bob select_t (\<lambda>_. None) (meta0 filtered_state) = (Inl e, meta0 filtered_state))"
proof -
  obtain cat sch where d: "sql_defaults (\<lambda>_. None) = (cat, sch)" by (cases "sql_defaults (\<lambda>_. None)")
  have allowed: "sql_allowed no_json filtered_state root reads_t" and refused: "\<not> sql_allowed no_json filtered_state bob reads_t"
    by code_simp+
  have app: "cs_app (meta0 filtered_state) = filtered_state" by (simp add: meta0_def)
  have "is_rewritable (an_kind reads_t)" by code_simp
  moreover have "map_option fst (Option.bind (policy_at filtered_state reads_t ''m.default.t'') tp_row_filter) = Some ''m.default.f''"
    by code_simp
  ultimately have rewritten: "engine_text filter_lib filtered_state root select_t (Some [()]) reads_t cat sch = ''m.default.f''"
    by (auto simp: engine_text_def filter_lib_facts)
  note prepared = prepared_sql_authorised [OF d filter_lib_facts(1), where sql = select_t and cs = "meta0 filtered_state",
      unfolded select_t_facts option.case filter_lib_facts(2) app]
  show ?thesis
  proof (rule conjI)
    show "\<exists>ps. prepare_sql filter_lib root select_t (\<lambda>_. None) (meta0 filtered_state) = (Inr ps, meta0 filtered_state) \<and> ps_sql ps = ''m.default.f''"
      using prepared [of root, unfolded if_P [OF allowed] rewritten] by blast
    show "\<exists>e. prepare_sql filter_lib bob select_t (\<lambda>_. None) (meta0 filtered_state) = (Inl e, meta0 filtered_state)"
      using prepared [of bob, unfolded if_not_P [OF refused]] .
  qed
qed

text \<open>Dropping one function that \<open>bob\<close> owns and one he does not: the first is gone when the statement fails.\<close>

definition routine_doc :: "string \<Rightarrow> string \<Rightarrow> doc" where
  "routine_doc full who = (uc_doc KIND_FUNCTION full (Some ''m.s'') ''f'')\<lparr>d_data := jobj [(''owner'', JStr who)]\<rparr>"

definition function_state :: app_state where
  "function_state = \<lparr>as_store = \<lparr>st_dialect = Sqlite, st_docs = [routine_doc ''m.s.f'' ''bob'', routine_doc ''m.s.g'' ''root''],
     st_kv = []\<rparr>, as_admin_user = ''root''\<rparr>"

definition two_drops :: metastore_op where
  "two_drops = OpDropFunction [''m.s.f'', ''m.s.g''] False"

theorem metastore_statements_guarded_witness:
  "\<exists>e cs'. apply_metastore_op lib0 bob two_drops (meta0 function_state) = (Inl e, cs') \<and>
     uc_get KIND_FUNCTION ''m.s.g'' (cs_app cs') = uc_get KIND_FUNCTION ''m.s.g'' function_state"
proof -
  have "\<not> op_allowed function_state bob two_drops" by code_simp
  then have no: "\<not> op_allowed (cs_app (meta0 function_state)) bob two_drops" by (simp add: meta0_def)
  have "managed_of bob (meta0 function_state) (dropped_names two_drops) = {''m.s.f''}" by code_simp
  with metastore_statements_guarded [OF no, of lib0] obtain e cs' where
    "apply_metastore_op lib0 bob two_drops (meta0 function_state) = (Inl e, cs')"
    "dropped_functions {''m.s.f''} function_state (cs_app cs')" by (auto simp: meta0_def)
  moreover from this(2) have "store_get KIND_FUNCTION (uc_doc_id KIND_FUNCTION ''m.s.g'') (as_store (cs_app cs')) =
      store_get KIND_FUNCTION (uc_doc_id KIND_FUNCTION ''m.s.g'') (as_store function_state)"
    unfolding dropped_functions_def by (elim conjE allE [of _ KIND_FUNCTION] allE [of _ "uc_doc_id KIND_FUNCTION ''m.s.g''"])
      (simp add: uc_doc_id_def uc_kind_defs)
  ultimately show ?thesis by (auto simp: uc_get_def)
qed

lemma first_drop_stays:
  "uc_get KIND_FUNCTION ''m.s.f'' (cs_app (snd (apply_metastore_op lib0 bob two_drops (meta0 function_state)))) = None"
  by code_simp

end
