(* ===== verification/Api_Permissions.thy ===== *)
theory Api_Permissions
  imports Uc_Privileges "HOL-Library.Product_Lexorder"
begin

text \<open>
  Object permissions (\<open>lakeforge-api/src/api/permissions.rs\<close>): one access control list per object,
  levels ordered from weakest to strongest, the check other handlers call, and the REST operations.
  The owner of an object (looked up in the cluster and job documents) is an argument.
\<close>

definition KIND_PERMS :: string where "KIND_PERMS = ''permissions''"

definition levels :: "string \<Rightarrow> string list" where
  "levels t =
     (if t = ''clusters'' then [''CAN_ATTACH_TO'', ''CAN_RESTART'', ''CAN_MANAGE'']
      else if t = ''cluster-policies'' then [''CAN_USE'']
      else if t = ''instance-pools'' then [''CAN_ATTACH_TO'', ''CAN_MANAGE'']
      else if t = ''jobs'' then [''CAN_VIEW'', ''CAN_MANAGE_RUN'', ''IS_OWNER'', ''CAN_MANAGE'']
      else if t = ''pipelines'' then [''CAN_VIEW'', ''CAN_RUN'', ''IS_OWNER'', ''CAN_MANAGE'']
      else if t = ''notebooks'' \<or> t = ''directories'' \<or> t = ''files'' then [''CAN_READ'', ''CAN_RUN'', ''CAN_EDIT'', ''CAN_MANAGE'']
      else if t = ''repos'' then [''CAN_READ'', ''CAN_RUN'', ''CAN_EDIT'', ''CAN_MANAGE'']
      else if t = ''experiments'' \<or> t = ''registered-models''
      then [''CAN_READ'', ''CAN_EDIT'', ''CAN_MANAGE_STAGING_VERSIONS'', ''CAN_MANAGE_PRODUCTION_VERSIONS'', ''CAN_MANAGE'']
      else if t = ''sql/warehouses'' \<or> t = ''warehouses'' then [''CAN_USE'', ''CAN_MONITOR'', ''CAN_MANAGE'']
      else if t = ''sql/queries'' \<or> t = ''sql/alerts'' \<or> t = ''sql/dashboards'' \<or> t = ''dashboards''
      then [''CAN_VIEW'', ''CAN_RUN'', ''CAN_EDIT'', ''CAN_MANAGE'']
      else if t = ''serving-endpoints'' then [''CAN_VIEW'', ''CAN_QUERY'', ''CAN_MANAGE'']
      else if t = ''tokens'' \<or> t = ''authorization'' then [''CAN_USE'']
      else if t = ''passwords'' then [''CAN_USE'']
      else [''CAN_VIEW'', ''CAN_MANAGE''])"

definition level_rank :: "string \<Rightarrow> string \<Rightarrow> nat option" where
  "level_rank t level = index_of (\<lambda>l. l = level) (levels t)"

definition perms_doc_id :: "string \<Rightarrow> string \<Rightarrow> string" where
  "perms_doc_id t i = t @ ''/'' @ i"

definition get_permissions :: "string \<Rightarrow> string \<Rightarrow> store \<Rightarrow> json list" where
  "get_permissions t i s =
     or_default [] (Option.bind (store_get KIND_PERMS (perms_doc_id t i) s)
       (\<lambda>d. as_array (j_get (d_data d) ''access_control_list'')))"

definition principal_keys :: "string list" where
  "principal_keys = [''user_name'', ''group_name'', ''service_principal_name'']"

text \<open>The first of the three keys that holds a string, with the string.\<close>

definition acl_principal :: "json \<Rightarrow> (string \<times> string) option" where
  "acl_principal e = first_some (\<lambda>k. map_option (Pair k) (as_str (j_get e k))) principal_keys"

definition debug_strs :: "string list \<Rightarrow> string" where
  "debug_strs ss = ''['' @ join_with '', '' (map (\<lambda>s. [CHR 0x22] @ s @ [CHR 0x22]) ss) @ '']''"

definition acl_entry :: "string \<Rightarrow> json \<Rightarrow> api_error + json" where
  "acl_entry t e =
     try_then (ok_or (InvalidParameter ''permission_level is required'') (as_str (j_get e ''permission_level''))) (\<lambda>level.
       if level_rank t level = None
       then Inl (InvalidParameter (''Invalid permission_level '' @ level @ '' for '' @ t @ ''; allowed: '' @ debug_strs (levels t)))
       else try_then (ok_or (InvalidParameter ''user_name, group_name or service_principal_name is required'') (acl_principal e))
         (\<lambda>(k, v). Inr (j_set k (JStr v) (jobj [(''permission_level'', JStr level)]))))"

definition set_permissions ::
  "int \<Rightarrow> int \<Rightarrow> string \<Rightarrow> string \<Rightarrow> json \<Rightarrow> string \<Rightarrow> store \<Rightarrow> (api_error + json) \<times> store"
where
  "set_permissions now now' t i acl by_user s =
     (case try_then (ok_or (InvalidParameter ''access_control_list must be an array'') (as_array acl)) (try_map (acl_entry t)) of
        Inl e \<Rightarrow> (Inl e, s)
      | Inr out \<Rightarrow>
          (let v = jobj [(''object_type'', JStr t), (''object_id'', JStr i), (''access_control_list'', JArr out),
                (''updated_by'', JStr by_user), (''updated_at'', JInt now)]
           in case store_upsert now' KIND_PERMS workspace_id (perms_doc_id t i) (Some t) (Some i) v s of
                (Inl e, s') \<Rightarrow> (Inl e, s') | (Inr _, s') \<Rightarrow> (Inr v, s')))"

definition merge_entry :: "json \<Rightarrow> json list \<Rightarrow> json list" where
  "merge_entry e cur =
     (case acl_principal e of
        None \<Rightarrow> cur | Some (k, v) \<Rightarrow> filter (\<lambda>c. j_get c k \<noteq> JStr v) cur @ [e])"

definition update_permissions ::
  "int \<Rightarrow> int \<Rightarrow> string \<Rightarrow> string \<Rightarrow> json \<Rightarrow> string \<Rightarrow> store \<Rightarrow> (api_error + json) \<times> store"
where
  "update_permissions now now' t i acl by_user s =
     set_permissions now now' t i
       (JArr (fold merge_entry (or_default [] (as_array acl)) (get_permissions t i s))) by_user s"

definition entry_matches :: "principal \<Rightarrow> json \<Rightarrow> bool" where
  "entry_matches p e \<longleftrightarrow>
     as_str (j_get e ''user_name'') = Some (p_user_name p) \<or>
     as_str (j_get e ''service_principal_name'') = Some (p_user_name p) \<or>
     (case as_str (j_get e ''group_name'') of
        None \<Rightarrow> False | Some g \<Rightarrow> List.member (p_groups p) g \<or> g = ''users'')"

definition top_level :: "string \<Rightarrow> string" where
  "top_level t = (if levels t = [] then ''CAN_MANAGE'' else last (levels t))"

definition better :: "string \<Rightarrow> json \<Rightarrow> (nat \<times> string) option \<Rightarrow> (nat \<times> string) option" where
  "better t e best =
     (case as_str (j_get e ''permission_level'') of
        None \<Rightarrow> best
      | Some l \<Rightarrow> (case level_rank t l of
          None \<Rightarrow> best
        | Some r \<Rightarrow> if (case best of None \<Rightarrow> True | Some (br, _) \<Rightarrow> br < r) then Some (r, l) else best))"

definition effective_level :: "principal \<Rightarrow> string \<Rightarrow> string \<Rightarrow> store \<Rightarrow> string option" where
  "effective_level p t i s =
     (if p_is_admin p then Some (top_level t)
      else map_option snd
        (fold (\<lambda>e best. if \<not> entry_matches p e then best else better t e best) (get_permissions t i s) None))"

definition check_permission ::
  "principal \<Rightarrow> string \<Rightarrow> string \<Rightarrow> string \<Rightarrow> string option \<Rightarrow> store \<Rightarrow> api_error + unit"
where
  "check_permission p t i need owner s =
     (if p_is_admin p \<or> owner = Some (p_user_name p) then Inr ()
      else if get_permissions t i s = [] then Inr ()
      else if (case (effective_level p t i s, level_rank t need) of
                 (Some h, Some n) \<Rightarrow> (case level_rank t h of None \<Rightarrow> False | Some r \<Rightarrow> n \<le> r)
               | _ \<Rightarrow> False) then Inr ()
      else Inl (PermissionDenied (''User '' @ p_user_name p @ '' does not have '' @ need @ '' on '' @ t @ ''/'' @ i)))"

section \<open>The REST operations\<close>

definition push_perm :: "string \<times> string \<Rightarrow> json \<Rightarrow> ((string \<times> string), json list) btree \<Rightarrow> ((string \<times> string), json list) btree" where
  "push_perm k v m = bt_insert k (or_default [] (map_of m k) @ [v]) m"

definition object_type_singular :: "string \<Rightarrow> string" where
  "object_type_singular t =
     (if t = ''clusters'' then ''cluster'' else if t = ''jobs'' then ''job'' else if t = ''pipelines'' then ''pipeline''
      else if t = ''notebooks'' then ''notebook'' else if t = ''directories'' then ''directory''
      else if t = ''repos'' then ''repo'' else if t = ''experiments'' then ''mlflowExperiment''
      else if t = ''registered-models'' then ''registered-model''
      else if t = ''sql/warehouses'' \<or> t = ''warehouses'' then ''warehouses''
      else if t = ''serving-endpoints'' then ''serving-endpoint''
      else if t = ''instance-pools'' then ''instance-pool''
      else if t = ''cluster-policies'' then ''cluster-policy'' else t)"

definition expand_perms :: "string \<Rightarrow> string \<Rightarrow> json list \<Rightarrow> string option \<Rightarrow> json" where
  "expand_perms t i acl owner =
     (let top = top_level t;
          g0 = push_perm (''group_name'', ADMINS_GROUP) (jobj [(''permission_level'', JStr top), (''inherited'', JBool True),
                 (''inherited_from_object'', jstrs [''/authorization/admins''])]) [];
          g1 = (case owner of None \<Rightarrow> g0
                | Some w \<Rightarrow> push_perm (''user_name'', w) (jobj [(''permission_level'',
                    JStr (if t = ''jobs'' \<or> t = ''pipelines'' then ''IS_OWNER'' else top)), (''inherited'', JBool False)]) g0);
          g2 = fold (\<lambda>e g. case acl_principal e of None \<Rightarrow> g
                | Some k \<Rightarrow> push_perm k (jobj [(''permission_level'', j_get e ''permission_level''), (''inherited'', JBool False)]) g) acl g1
      in jobj [(''object_id'', JStr (''/'' @ t @ ''/'' @ i)), (''object_type'', JStr (object_type_singular t)),
           (''access_control_list'', JArr (map (\<lambda>((k, v), perms).
              j_set k (JStr v) (jobj [(''all_permissions'', JArr perms), (''display_name'', JStr v)])) g2))])"

definition trim_slashes :: "string \<Rightarrow> string" where
  "trim_slashes t = dropWhile (\<lambda>c. c = CHR ''/'') t"

definition get_perms :: "string \<Rightarrow> string \<Rightarrow> (string \<Rightarrow> string option) \<Rightarrow> store \<Rightarrow> json" where
  "get_perms t0 i owner_of s =
     (let t = trim_slashes t0 in expand_perms t i (get_permissions t i s) (owner_of t))"

definition put_perms ::
  "int \<Rightarrow> int \<Rightarrow> principal \<Rightarrow> string \<Rightarrow> string \<Rightarrow> json \<Rightarrow> string option \<Rightarrow> store \<Rightarrow> (api_error + json) \<times> store"
where
  "put_perms now now' p t i body owner s =
     (case check_permission p t i (top_level t) owner s of
        Inl e \<Rightarrow> (Inl e, s)
      | Inr _ \<Rightarrow> (case set_permissions now now' t i (j_get body ''access_control_list'') (p_user_name p) s of
          (Inl e, s') \<Rightarrow> (Inl e, s')
        | (Inr _, s') \<Rightarrow> (Inr (expand_perms t i (get_permissions t i s') owner), s')))"

definition patch_perms ::
  "int \<Rightarrow> int \<Rightarrow> principal \<Rightarrow> string \<Rightarrow> string \<Rightarrow> json \<Rightarrow> string option \<Rightarrow> store \<Rightarrow> (api_error + json) \<times> store"
where
  "patch_perms now now' p t i body owner s =
     (case check_permission p t i (top_level t) owner s of
        Inl e \<Rightarrow> (Inl e, s)
      | Inr _ \<Rightarrow> (case update_permissions now now' t i (j_get body ''access_control_list'') (p_user_name p) s of
          (Inl e, s') \<Rightarrow> (Inl e, s')
        | (Inr _, s') \<Rightarrow> (Inr (expand_perms t i (get_permissions t i s') owner), s')))"

definition describe_level :: "string \<Rightarrow> string" where
  "describe_level l =
     (if l = ''CAN_ATTACH_TO'' then ''Can attach to the cluster'' else if l = ''CAN_RESTART'' then ''Can restart the cluster''
      else if l = ''CAN_MANAGE'' then ''Can manage the object'' else if l = ''CAN_VIEW'' then ''Can view the object''
      else if l = ''CAN_MANAGE_RUN'' then ''Can manage runs'' else if l = ''IS_OWNER'' then ''Is owner''
      else if l = ''CAN_READ'' then ''Can read'' else if l = ''CAN_RUN'' then ''Can run''
      else if l = ''CAN_EDIT'' then ''Can edit'' else if l = ''CAN_USE'' then ''Can use''
      else if l = ''CAN_MONITOR'' then ''Can monitor'' else if l = ''CAN_QUERY'' then ''Can query'' else [])"

definition perm_levels :: "string \<Rightarrow> json" where
  "perm_levels t = jobj [(''permission_levels'', JArr (map (\<lambda>l.
     jobj [(''permission_level'', JStr l), (''description'', JStr (describe_level l))]) (levels t)))]"

section \<open>What a check decides\<close>

definition grants_level :: "string \<Rightarrow> principal \<Rightarrow> nat \<Rightarrow> json \<Rightarrow> bool" where
  "grants_level t p n e \<longleftrightarrow> entry_matches p e \<and>
     (\<exists>l r. as_str (j_get e ''permission_level'') = Some l \<and> level_rank t l = Some r \<and> n \<le> r)"

definition best_level :: "string \<Rightarrow> principal \<Rightarrow> json list \<Rightarrow> (nat \<times> string) option \<Rightarrow> (nat \<times> string) option" where
  "best_level t p acl best = fold (\<lambda>e best. if \<not> entry_matches p e then best else better t e best) acl best"

lemma best_level_simps [simp]:
  "best_level t p [] best = best"
  "best_level t p (e # acl) best = best_level t p acl (if \<not> entry_matches p e then best else better t e best)"
  by (simp_all add: best_level_def)

definition ranked :: "string \<Rightarrow> (nat \<times> string) option \<Rightarrow> bool" where
  "ranked t best \<longleftrightarrow> (case best of None \<Rightarrow> True | Some (r, l) \<Rightarrow> level_rank t l = Some r)"

lemma better_ranked: "ranked t best \<Longrightarrow> ranked t (better t e best)"
  by (auto simp: ranked_def better_def split: option.splits)

definition reaches :: "nat \<Rightarrow> (nat \<times> string) option \<Rightarrow> bool" where
  "reaches n best \<longleftrightarrow> (case best of None \<Rightarrow> False | Some (r, _) \<Rightarrow> n \<le> r)"

lemma reaches_better:
  "reaches n (better t e best) \<longleftrightarrow> reaches n best \<or>
     (\<exists>l r. as_str (j_get e ''permission_level'') = Some l \<and> level_rank t l = Some r \<and> n \<le> r)"
  by (auto simp: reaches_def better_def split: option.splits)

lemma best_level_ranked: "ranked t best \<Longrightarrow> ranked t (best_level t p acl best)"
  by (induction acl arbitrary: best) (auto simp: better_ranked)

lemma best_level_reaches:
  "reaches n (best_level t p acl best) \<longleftrightarrow> reaches n best \<or> list_ex (grants_level t p n) acl"
  by (induction acl arbitrary: best) (auto simp: reaches_better grants_level_def)

lemma level_check:
  "ranked t best \<Longrightarrow>
     (case (map_option snd best, Some n) of
        (Some h, Some n) \<Rightarrow> (case level_rank t h of None \<Rightarrow> False | Some r \<Rightarrow> n \<le> r) | _ \<Rightarrow> False) = reaches n best"
  by (cases best) (auto simp: ranked_def reaches_def split: prod.splits)

text \<open>C33: A permission check lets a principal through exactly when it is an administrator or the owner,
  the object has no access control list, or some entry for the user or one of its groups (every
  user is in \<open>users\<close>) grants at least the needed level; levels the object type does not have are
  refused.\<close>

theorem check_permission_exact:
  "check_permission p t i need owner s = Inr () \<longleftrightarrow>
     p_is_admin p \<or> owner = Some (p_user_name p) \<or> get_permissions t i s = [] \<or>
     (case level_rank t need of None \<Rightarrow> False | Some n \<Rightarrow> list_ex (grants_level t p n) (get_permissions t i s))"
proof (cases "p_is_admin p \<or> owner = Some (p_user_name p) \<or> get_permissions t i s = []")
  case False
  let ?best = "best_level t p (get_permissions t i s) None"
  have eff: "effective_level p t i s = map_option snd ?best"
    using False by (simp add: effective_level_def best_level_def)
  have rk: "ranked t ?best" by (rule best_level_ranked) (simp add: ranked_def)
  show ?thesis
  proof (cases "level_rank t need")
    case None
    with False show ?thesis by (auto simp: check_permission_def split: option.split)
  next
    case (Some n)
    have "check_permission p t i need owner s = Inr () \<longleftrightarrow> reaches n ?best"
      unfolding check_permission_def eff Some level_check [OF rk] using False by simp
    with False Some show ?thesis by (simp add: best_level_reaches reaches_def [of n None])
  qed
qed (auto simp: check_permission_def)

text \<open>A replaced list is what the object has; an invalid one changes nothing.\<close>

lemma set_permissions_store:
  assumes "set_permissions now now' t i acl u s = (r, s')"
  shows "case r of Inl e \<Rightarrow> s' = s
    | Inr v \<Rightarrow> (\<exists>es out. acl = JArr es \<and> list_all2 (\<lambda>e o'. acl_entry t e = Inr o') es out \<and>
        (\<forall>t' i'. get_permissions t' i' s' =
           (if perms_doc_id t' i' = perms_doc_id t i then out else get_permissions t' i' s)))"
proof -
  have upsert: "(case store_upsert now' KIND_PERMS workspace_id (perms_doc_id t i) (Some t) (Some i) v s of
      (Inl e, s') \<Rightarrow> (Inl e, s') | (Inr _, s') \<Rightarrow> (Inr v, s')) =
      (Inr v, snd (store_upsert now' KIND_PERMS workspace_id (perms_doc_id t i) (Some t) (Some i) v s))"
    for v :: json
    using upsert_ok [of now' KIND_PERMS workspace_id "perms_doc_id t i" "Some t" "Some i" v s]
    by (cases "store_upsert now' KIND_PERMS workspace_id (perms_doc_id t i) (Some t) (Some i) v s") simp
  show ?thesis
  proof (cases acl)
    case (JArr es)
    show ?thesis
    proof (cases "try_map (acl_entry t) es")
      case (Inl e)
      with assms JArr show ?thesis by (auto simp: set_permissions_def)
    next
      case (Inr out)
      with assms JArr have r: "\<exists>v. r = Inr v" and s': "s' = snd (store_upsert now' KIND_PERMS workspace_id (perms_doc_id t i)
          (Some t) (Some i) (jobj [(''object_type'', JStr t), (''object_id'', JStr i), (''access_control_list'', JArr out),
                (''updated_by'', JStr u), (''updated_at'', JInt now)]) s)"
        by (auto simp: set_permissions_def upsert Let_def)
      have "get_permissions t' i' s' = (if perms_doc_id t' i' = perms_doc_id t i then out else get_permissions t' i' s)" for t' i'
        unfolding s' by (simp add: get_permissions_def store_simps j_get_jobj)
      with r Inr JArr show ?thesis by (auto simp: try_map_Inr_iff)
    qed
  qed (use assms in \<open>auto simp: set_permissions_def\<close>)
qed

end
