(* ===== verification/Api_Secrets.thy ===== *)
theory Api_Secrets
  imports Api_Permissions
begin

text \<open>
  Secrets and personal access tokens (\<open>lakeforge-api/src/api/secrets.rs\<close>, \<open>api/tokens.rs\<close>): scopes
  with their access control lists, values sealed into the key/value table, and the token handlers.
  Sealing, base64, hashing and session signatures are library code and are arguments.
\<close>

section \<open>Secret scopes\<close>

definition KIND_SCOPE :: string where "KIND_SCOPE = ''secret_scope''"
definition KIND_SECRET :: string where "KIND_SECRET = ''secret''"
definition KIND_ACL :: string where "KIND_ACL = ''secret_acl''"

lemmas secret_kind_defs = KIND_SCOPE_def KIND_SECRET_def KIND_ACL_def

record scope =
  sc_name :: string
  sc_backend_type :: string
  sc_keyvault_metadata :: "json option"
  sc_created_by :: string

fun opt_json :: "json \<Rightarrow> json option" where
  "opt_json JNull = None"
| "opt_json v = Some v"

definition scope_to_json :: "scope \<Rightarrow> json" where
  "scope_to_json sc = jobj [(''name'', JStr (sc_name sc)), (''backend_type'', JStr (sc_backend_type sc)),
     (''keyvault_metadata'', or_default JNull (sc_keyvault_metadata sc)), (''created_by'', JStr (sc_created_by sc))]"

definition scope_of_json :: "json \<Rightarrow> scope option" where
  "scope_of_json v =
     Option.bind (field_with as_str None v ''name'') (\<lambda>n.
     Option.bind (field_with as_str None v ''backend_type'') (\<lambda>b.
     Option.bind (field_with (\<lambda>x. Some (opt_json x)) (Some None) v ''keyvault_metadata'') (\<lambda>k.
     Option.bind (field_with as_str (Some []) v ''created_by'') (\<lambda>c.
       Some \<lparr>sc_name = n, sc_backend_type = b, sc_keyvault_metadata = k, sc_created_by = c\<rparr>))))"

definition secret_meta_json :: "string \<Rightarrow> int \<Rightarrow> json" where
  "secret_meta_json key now = jobj [(''key'', JStr key), (''last_updated_timestamp'', JInt now)]"

definition secret_meta_key :: "json \<Rightarrow> string option" where
  "secret_meta_key v =
     Option.bind (field_with as_str None v ''key'') (\<lambda>k.
     Option.bind (field_with as_int None v ''last_updated_timestamp'') (\<lambda>_. Some k))"

definition secret_id :: "string \<Rightarrow> string \<Rightarrow> string" where
  "secret_id sc key = sc @ ''/'' @ key"

definition secret_kv :: "string \<Rightarrow> string \<Rightarrow> string" where
  "secret_kv sc key = ''secret:'' @ secret_id sc key"

record secret_lib =
  sl_seal :: "string \<Rightarrow> api_error + string"
  sl_open :: "string \<Rightarrow> api_error + string"
  sl_decode64 :: "string \<Rightarrow> string + string"
  sl_encode64 :: "string \<Rightarrow> string"

definition secret_get :: "secret_lib \<Rightarrow> string \<Rightarrow> string \<Rightarrow> store \<Rightarrow> api_error + string option" where
  "secret_get lib sc key s =
     (case kv_get (secret_kv sc key) s of
        None \<Rightarrow> Inr None
      | Some sealed \<Rightarrow> try_then (sl_open lib sealed) (\<lambda>v. Inr (Some v)))"

definition secret_put :: "secret_lib \<Rightarrow> int \<Rightarrow> int \<Rightarrow> string \<Rightarrow> string \<Rightarrow> string \<Rightarrow> store \<Rightarrow> (api_error + unit) \<times> store" where
  "secret_put lib now now' sc key val s =
     (case try_then (require_as scope_of_json KIND_SCOPE sc ''Secret scope'' s) (\<lambda>_. sl_seal lib val) of
        Inl e \<Rightarrow> (Inl e, s)
      | Inr sealed \<Rightarrow> store_upsert now' KIND_SECRET workspace_id (secret_id sc key) (Some sc) (Some key)
          (secret_meta_json key now) (kv_set (secret_kv sc key) sealed s))"

definition in_parent :: "string \<Rightarrow> store_filter" where
  "in_parent p = default_filter\<lparr>f_parent := Some p\<rparr>"

definition my_permissions :: "principal \<Rightarrow> string \<Rightarrow> store \<Rightarrow> string list" where
  "my_permissions p sc s =
     filter_map (\<lambda>d. as_str (j_get (d_data d) ''permission''))
       (filter (\<lambda>d. case as_str (j_get (d_data d) ''principal'') of
           None \<Rightarrow> False | Some pr \<Rightarrow> pr = p_user_name p \<or> List.member (p_groups p) pr)
         (store_list KIND_ACL workspace_id (in_parent sc) s))"

definition permits :: "string \<Rightarrow> string list \<Rightarrow> bool" where
  "permits need mine =
     (if need = ''READ'' then list_ex (\<lambda>m. m = ''READ'' \<or> m = ''WRITE'' \<or> m = ''MANAGE'') mine
      else if need = ''WRITE'' then list_ex (\<lambda>m. m = ''WRITE'' \<or> m = ''MANAGE'') mine
      else List.member mine ''MANAGE'')"

definition check_scope_access :: "principal \<Rightarrow> string \<Rightarrow> string \<Rightarrow> store \<Rightarrow> api_error + unit" where
  "check_scope_access p sc need s =
     (if p_is_admin p then Inr ()
      else if permits need (my_permissions p sc s) then Inr ()
      else Inl (PermissionDenied (''User '' @ p_user_name p @ '' does not have '' @ need @ '' permission on scope '' @ sc)))"

definition name_char :: "char \<Rightarrow> bool" where
  "name_char c \<longleftrightarrow> letter_bits c \<or> is_digit c \<or> c = CHR ''-'' \<or> c = CHR ''_'' \<or> c = CHR ''.''"

definition valid_name :: "string \<Rightarrow> bool" where
  "valid_name n \<longleftrightarrow> n \<noteq> [] \<and> length n \<le> 128 \<and> list_all name_char n"

definition empty_body :: json where
  "empty_body = jobj []"

definition acl_json :: "string \<Rightarrow> string \<Rightarrow> json" where
  "acl_json pr perm = jobj [(''principal'', JStr pr), (''permission'', JStr perm)]"

definition create_scope ::
  "int \<Rightarrow> principal \<Rightarrow> string \<Rightarrow> string option \<Rightarrow> string option \<Rightarrow> json option \<Rightarrow> store \<Rightarrow> (api_error + json) \<times> store"
where
  "create_scope now p sc manage backend keyvault s =
     (if \<not> valid_name sc then (Inl (InvalidParameter ''Scope name must consist of alphanumeric characters, dashes, underscores, and periods, and may not exceed 128 characters.''), s)
      else case decode_opt scope_of_json (store_get KIND_SCOPE sc s) of
        Inl e \<Rightarrow> (Inl e, s)
      | Inr (Some _) \<Rightarrow> (Inl (AlreadyExists (''Scope '' @ sc @ '' already exists!'')), s)
      | Inr None \<Rightarrow>
          (case store_insert now KIND_SCOPE workspace_id sc None (Some sc)
                  (scope_to_json \<lparr>sc_name = sc, sc_backend_type = or_default ''DATABRICKS'' backend,
                     sc_keyvault_metadata = keyvault, sc_created_by = p_user_name p\<rparr>) s of
             (Inl e, s1) \<Rightarrow> (Inl e, s1)
           | (Inr _, s1) \<Rightarrow>
               (let manager = or_default (p_user_name p) manage
                in case store_insert now KIND_ACL workspace_id (sc @ ''/'' @ manager) (Some sc) (Some manager)
                          (acl_json manager ''MANAGE'') s1 of
                     (Inl e, s2) \<Rightarrow> (Inl e, s2)
                   | (Inr _, s2) \<Rightarrow> (Inr empty_body, s2))))"

definition delete_scope :: "principal \<Rightarrow> string \<Rightarrow> store \<Rightarrow> (api_error + json) \<times> store" where
  "delete_scope p sc s =
     (case try_then (require_as scope_of_json KIND_SCOPE sc ''Secret scope'' s) (\<lambda>_.
           try_then (check_scope_access p sc ''MANAGE'' s) (\<lambda>_.
             list_as secret_meta_key KIND_SECRET (in_parent sc) s)) of
        Inl e \<Rightarrow> (Inl e, s)
      | Inr secrets \<Rightarrow>
          (let s1 = fold (\<lambda>dk. kv_delete (secret_kv sc (snd dk))) secrets s;
               s2 = snd (delete_children KIND_SECRET sc s1);
               s3 = snd (delete_children KIND_ACL sc s2)
           in (Inr empty_body, snd (store_delete KIND_SCOPE sc s3))))"

definition list_scopes :: "principal \<Rightarrow> store \<Rightarrow> api_error + json" where
  "list_scopes p s =
     try_then (list_as scope_of_json KIND_SCOPE default_filter s) (\<lambda>scopes.
       Inr (jobj [(''scopes'', JArr (map (\<lambda>ds. jobj [(''name'', JStr (sc_name (snd ds))),
              (''backend_type'', JStr (sc_backend_type (snd ds))),
              (''keyvault_metadata'', or_default JNull (sc_keyvault_metadata (snd ds)))])
            (filter (\<lambda>ds. check_scope_access p (sc_name (snd ds)) ''READ'' s = Inr ()) scopes)))]))"

definition put_secret ::
  "secret_lib \<Rightarrow> int \<Rightarrow> int \<Rightarrow> principal \<Rightarrow> string \<Rightarrow> string \<Rightarrow> string option \<Rightarrow> string option \<Rightarrow> store
     \<Rightarrow> (api_error + json) \<times> store"
where
  "put_secret lib now now' p sc key str bytes s =
     (case try_then (check_scope_access p sc ''WRITE'' s) (\<lambda>_.
             if \<not> valid_name key then Inl (InvalidParameter ''Secret key must consist of alphanumeric characters, dashes, underscores, and periods, and may not exceed 128 characters.'')
             else case (str, bytes) of
               (Some v, None) \<Rightarrow> Inr v
             | (None, Some b) \<Rightarrow> (case sl_decode64 lib b of
                 Inl e \<Rightarrow> Inl (InvalidParameter (''bytes_value must be base64: '' @ e)) | Inr v \<Rightarrow> Inr v)
             | _ \<Rightarrow> Inl (InvalidParameter ''Exactly one of string_value or bytes_value must be specified.'')) of
        Inl e \<Rightarrow> (Inl e, s)
      | Inr v \<Rightarrow> (case secret_put lib now now' sc key v s of
          (Inl e, s') \<Rightarrow> (Inl e, s') | (Inr _, s') \<Rightarrow> (Inr empty_body, s')))"

definition no_secret :: "string \<Rightarrow> string \<Rightarrow> api_error" where
  "no_secret sc key = NotFound (''Secret '' @ key @ '' does not exist in scope '' @ sc)"

definition delete_secret :: "principal \<Rightarrow> string \<Rightarrow> string \<Rightarrow> store \<Rightarrow> (api_error + json) \<times> store" where
  "delete_secret p sc key s =
     (case check_scope_access p sc ''WRITE'' s of
        Inl e \<Rightarrow> (Inl e, s)
      | Inr _ \<Rightarrow> (case store_delete KIND_SECRET (secret_id sc key) s of
          (False, s') \<Rightarrow> (Inl (no_secret sc key), s')
        | (True, s') \<Rightarrow> (Inr empty_body, kv_delete (secret_kv sc key) s')))"

definition get_secret :: "secret_lib \<Rightarrow> principal \<Rightarrow> string \<Rightarrow> string \<Rightarrow> store \<Rightarrow> api_error + json" where
  "get_secret lib p sc key s =
     try_then (check_scope_access p sc ''READ'' s) (\<lambda>_.
     try_then (secret_get lib sc key s) (\<lambda>o'.
     try_then (ok_or (no_secret sc key) o') (\<lambda>v.
       Inr (jobj [(''key'', JStr key), (''value'', JStr (sl_encode64 lib v))]))))"

definition list_secrets :: "principal \<Rightarrow> string \<Rightarrow> store \<Rightarrow> api_error + json" where
  "list_secrets p sc s =
     try_then (require_as scope_of_json KIND_SCOPE sc ''Secret scope'' s) (\<lambda>_.
     try_then (check_scope_access p sc ''READ'' s) (\<lambda>_.
     try_then (list_as secret_meta_key KIND_SECRET (in_parent sc) s) (\<lambda>secrets.
       Inr (jobj [(''secrets'', JArr (map (\<lambda>dk. d_data (fst dk)) secrets))]))))"

definition put_acl :: "int \<Rightarrow> principal \<Rightarrow> string \<Rightarrow> string \<Rightarrow> string \<Rightarrow> store \<Rightarrow> (api_error + json) \<times> store" where
  "put_acl now p sc who perm s =
     (case check_scope_access p sc ''MANAGE'' s of
        Inl e \<Rightarrow> (Inl e, s)
      | Inr _ \<Rightarrow>
          (if \<not> (perm = ''READ'' \<or> perm = ''WRITE'' \<or> perm = ''MANAGE'')
           then (Inl (InvalidParameter ''permission must be READ, WRITE or MANAGE''), s)
           else case store_upsert now KIND_ACL workspace_id (sc @ ''/'' @ who) (Some sc) (Some who) (acl_json who perm) s of
                  (Inl e, s') \<Rightarrow> (Inl e, s') | (Inr _, s') \<Rightarrow> (Inr empty_body, s')))"

definition delete_acl :: "principal \<Rightarrow> string \<Rightarrow> string \<Rightarrow> store \<Rightarrow> (api_error + json) \<times> store" where
  "delete_acl p sc who s =
     (case check_scope_access p sc ''MANAGE'' s of
        Inl e \<Rightarrow> (Inl e, s) | Inr _ \<Rightarrow> (Inr empty_body, snd (store_delete KIND_ACL (sc @ ''/'' @ who) s)))"

definition get_acl :: "principal \<Rightarrow> string \<Rightarrow> string \<Rightarrow> store \<Rightarrow> api_error + json" where
  "get_acl p sc who s =
     try_then (check_scope_access p sc ''MANAGE'' s) (\<lambda>_.
     try_then (store_require KIND_ACL (sc @ ''/'' @ who) ''ACL'' s) (\<lambda>d. Inr (d_data d)))"

definition list_acls :: "principal \<Rightarrow> string \<Rightarrow> store \<Rightarrow> api_error + json" where
  "list_acls p sc s =
     try_then (check_scope_access p sc ''MANAGE'' s) (\<lambda>_.
       Inr (jobj [(''items'', JArr (map d_data (store_list KIND_ACL workspace_id (in_parent sc) s)))]))"

section \<open>Access tokens\<close>

definition token_info :: "token \<Rightarrow> json" where
  "token_info t = jobj
     [(''token_id'', JStr (t_token_id t)), (''comment'', JStr (t_comment t)), (''creation_time'', JInt (t_creation_time t)),
      (''expiry_time'', JInt (t_expiry_time t)), (''created_by_id'', JStr (t_created_by_id t)),
      (''created_by_username'', JStr (t_created_by_username t)), (''owner_id'', JStr (t_owner_id t))]"

definition token_created :: "string \<times> token \<Rightarrow> json" where
  "token_created vt = jobj [(''token_value'', JStr (fst vt)), (''token_info'', token_info (snd vt))]"

definition tokens_create ::
  "auth_lib \<Rightarrow> string \<Rightarrow> string \<Rightarrow> int \<Rightarrow> int \<Rightarrow> principal \<Rightarrow> string option \<Rightarrow> int option \<Rightarrow> store \<Rightarrow> (api_error + json) \<times> store"
where
  "tokens_create lib val uuid now now' p comment lifetime s =
     (case create_token lib val uuid now now' p (or_default [] comment) lifetime s of
        (Inl e, s') \<Rightarrow> (Inl e, s') | (Inr vt, s') \<Rightarrow> (Inr (token_created vt), s'))"

definition tokens_listed :: "(token \<Rightarrow> bool) \<Rightarrow> store \<Rightarrow> api_error + json" where
  "tokens_listed keep s =
     try_then (list_as token_of_json KIND_TOKEN default_filter s) (\<lambda>toks.
       Inr (jobj [(''token_infos'', JArr (map token_info (filter keep (map snd toks))))]))"

definition tokens_list :: "principal \<Rightarrow> store \<Rightarrow> api_error + json" where
  "tokens_list p s = tokens_listed (\<lambda>t. t_owner_id t = p_user_id p) s"

definition tokens_delete :: "principal \<Rightarrow> string \<Rightarrow> store \<Rightarrow> (api_error + json) \<times> store" where
  "tokens_delete p i s =
     (case require_as token_of_json KIND_TOKEN i ''Token'' s of
        Inl e \<Rightarrow> (Inl e, s)
      | Inr dt \<Rightarrow>
          (if t_owner_id (snd dt) \<noteq> p_user_id p \<and> \<not> p_is_admin p
           then (Inl (PermissionDenied ''Cannot revoke a token you do not own.''), s)
           else (Inr empty_body, snd (store_delete KIND_TOKEN i s))))"

definition tokens_mgmt_list :: "principal \<Rightarrow> string option \<Rightarrow> string option \<Rightarrow> store \<Rightarrow> api_error + json" where
  "tokens_mgmt_list p by_id by_name s =
     try_then (require_admin p) (\<lambda>_. tokens_listed (\<lambda>t.
       (case by_id of None \<Rightarrow> True | Some c \<Rightarrow> c = t_created_by_id t) \<and>
       (case by_name of None \<Rightarrow> True | Some c \<Rightarrow> c = t_created_by_username t)) s)"

definition tokens_mgmt_get :: "principal \<Rightarrow> string \<Rightarrow> store \<Rightarrow> api_error + json" where
  "tokens_mgmt_get p i s =
     try_then (require_admin p) (\<lambda>_.
     try_then (require_as token_of_json KIND_TOKEN i ''Token'' s) (\<lambda>dt.
       Inr (jobj [(''token_info'', token_info (snd dt))])))"

definition tokens_mgmt_delete :: "principal \<Rightarrow> string \<Rightarrow> store \<Rightarrow> (api_error + json) \<times> store" where
  "tokens_mgmt_delete p i s =
     (case require_admin p of
        Inl e \<Rightarrow> (Inl e, s) | Inr _ \<Rightarrow> (Inr empty_body, snd (store_delete KIND_TOKEN i s)))"

definition login :: "auth_lib \<Rightarrow> (string \<Rightarrow> string \<Rightarrow> int \<Rightarrow> api_error + string) \<Rightarrow> string \<Rightarrow> string \<Rightarrow> store \<Rightarrow> api_error + json" where
  "login lib issue_jwt user_name password s =
     try_then (authenticate_password lib user_name password s) (\<lambda>p.
     try_then (issue_jwt (p_user_id p) (p_user_name p) (12 * 3600)) (\<lambda>jwt.
       Inr (jobj [(''access_token'', JStr jwt), (''token_type'', JStr ''Bearer''), (''expires_in'', JInt (12 * 3600)),
         (''user'', jobj [(''user_id'', JStr (p_user_id p)), (''user_name'', JStr (p_user_name p)),
            (''is_admin'', JBool (p_is_admin p)), (''groups'', jstrs (p_groups p))])])))"

definition change_password ::
  "auth_lib \<Rightarrow> (string \<Rightarrow> api_error + string) \<Rightarrow> int \<Rightarrow> principal \<Rightarrow> string option \<Rightarrow> string option \<Rightarrow> string \<Rightarrow> store
     \<Rightarrow> (api_error + json) \<times> store"
where
  "change_password lib hash_password now p user_name old_password new_password s =
     (let target = or_default (p_user_name p) user_name;
          allowed = (if target \<noteq> p_user_name p then require_admin p
            else if \<not> p_is_admin p then
              try_then (ok_or (InvalidParameter ''old_password is required'') old_password) (\<lambda>old.
              try_then (authenticate_password lib (p_user_name p) old s) (\<lambda>_. Inr ()))
            else Inr ())
      in case try_then allowed (\<lambda>_.
           if length new_password < 8 then Inl (InvalidParameter ''Password must be at least 8 characters'')
           else try_then (user_by_name target s) (\<lambda>o'.
             try_then (ok_or (NotFound (''User '' @ target @ '' not found'')) o') (\<lambda>du.
             try_then (hash_password new_password) (\<lambda>h. Inr (du, h))))) of
         Inl e \<Rightarrow> (Inl e, s)
       | Inr (du, h) \<Rightarrow>
           (let u = (snd du)\<lparr>u_password_hash := Some h\<rparr>
            in case store_put now KIND_USER (d_id (fst du)) None (Some (u_user_name u)) (user_to_json u) s of
                 (Inl e, s') \<Rightarrow> (Inl e, s') | (Inr _, s') \<Rightarrow> (Inr empty_body, s')))"

end
