(* ===== verification/Api_Secrets_Theorems.thy ===== *)
theory Api_Secrets_Theorems
  imports Api_Secrets Api_Auth_Theorems
begin

text \<open>
  What the secret handlers guarantee: a principal without an entry in a scope's access control list
  neither reads nor changes anything of the scope; a stored value is read back until it is
  overwritten or deleted, and scopes do not interfere.
\<close>

section \<open>Access\<close>

text \<open>Some access control entry of the scope gives the principal one of the permissions.\<close>

definition acl_allows :: "string list \<Rightarrow> principal \<Rightarrow> string \<Rightarrow> store \<Rightarrow> bool" where
  "acl_allows perms p sc s \<longleftrightarrow>
     (\<exists>d \<in> set (st_docs s). d_kind d = KIND_ACL \<and> d_parent d = Some sc \<and>
        (\<exists>pr. as_str (j_get (d_data d) ''principal'') = Some pr \<and> (pr = p_user_name p \<or> pr \<in> set (p_groups p))) \<and>
        (\<exists>m \<in> set perms. as_str (j_get (d_data d) ''permission'') = Some m))"

lemma set_my_permissions:
  "m \<in> set (my_permissions p sc s) \<Longrightarrow>
     \<exists>d \<in> set (st_docs s). d_kind d = KIND_ACL \<and> d_parent d = Some sc \<and>
        (\<exists>pr. as_str (j_get (d_data d) ''principal'') = Some pr \<and> (pr = p_user_name p \<or> pr \<in> set (p_groups p))) \<and>
        as_str (j_get (d_data d) ''permission'') = Some m"
proof -
  assume "m \<in> set (my_permissions p sc s)"
  then obtain d where d: "d \<in> set (store_list KIND_ACL workspace_id (in_parent sc) s)"
    "as_str (j_get (d_data d) ''permission'') = Some m"
    "case as_str (j_get (d_data d) ''principal'') of None \<Rightarrow> False
       | Some pr \<Rightarrow> pr = p_user_name p \<or> List.member (p_groups p) pr"
    by (auto simp: my_permissions_def filter_map_def List.map_filter_def)
  from set_list_subset [of KIND_ACL workspace_id "in_parent sc" s] d(1)
  have "d \<in> set (st_docs s)" "d_kind d = KIND_ACL" "d_parent d = Some sc"
    by (auto simp: row_matches_def in_parent_def)
  with d(2,3) show ?thesis by (intro bexI [of _ d]) (auto split: option.splits)
qed

lemma access_needs_entry:
  assumes "check_scope_access p sc need s = Inr ()"
  shows "p_is_admin p \<or> acl_allows (if need = ''READ'' then [''READ'', ''WRITE'', ''MANAGE'']
      else if need = ''WRITE'' then [''WRITE'', ''MANAGE''] else [''MANAGE'']) p sc s"
proof (cases "p_is_admin p")
  case False
  with assms have "permits need (my_permissions p sc s)" by (simp add: check_scope_access_def split: if_splits)
  then obtain m where "m \<in> set (my_permissions p sc s)" "m \<in> set (if need = ''READ'' then [''READ'', ''WRITE'', ''MANAGE'']
      else if need = ''WRITE'' then [''WRITE'', ''MANAGE''] else [''MANAGE''])"
    by (auto simp: permits_def list_ex_iff split: if_splits)
  with set_my_permissions show ?thesis unfolding acl_allows_def by blast
qed simp

lemma access_error:
  "\<not> p_is_admin p \<Longrightarrow> \<not> acl_allows [''READ'', ''WRITE'', ''MANAGE''] p sc s \<Longrightarrow>
     \<exists>e. check_scope_access p sc need s = Inl (PermissionDenied e)"
proof -
  assume a: "\<not> p_is_admin p" "\<not> acl_allows [''READ'', ''WRITE'', ''MANAGE''] p sc s"
  have "check_scope_access p sc need s \<noteq> Inr ()"
  proof
    assume "check_scope_access p sc need s = Inr ()"
    from access_needs_entry [OF this] a show False by (auto simp: acl_allows_def split: if_splits)
  qed
  then show ?thesis by (auto simp: check_scope_access_def split: if_splits)
qed

text \<open>C32: A principal who is no administrator and has no entry in a scope's access control list is
  refused by every operation on the scope, which returns nothing of it and leaves the store as it is.\<close>

theorem secrets_guarded:
  assumes "\<not> p_is_admin p" and "\<not> acl_allows [''READ'', ''WRITE'', ''MANAGE''] p sc s"
  shows "(\<exists>e. get_secret lib p sc key s = Inl e) \<and> (\<exists>e. list_secrets p sc s = Inl e) \<and>
    (\<exists>e. put_secret lib now now' p sc key str bytes s = (Inl e, s)) \<and> (\<exists>e. delete_secret p sc key s = (Inl e, s)) \<and>
    (\<exists>e. delete_scope p sc s = (Inl e, s)) \<and> (\<exists>e. put_acl now p sc who perm s = (Inl e, s)) \<and>
    (\<exists>e. delete_acl p sc who s = (Inl e, s)) \<and> (\<exists>e. list_acls p sc s = Inl e) \<and>
    (\<exists>e. get_acl p sc who s = Inl e)"
proof -
  obtain r w m where acc: "check_scope_access p sc ''READ'' s = Inl (PermissionDenied r)"
    "check_scope_access p sc ''WRITE'' s = Inl (PermissionDenied w)"
    "check_scope_access p sc ''MANAGE'' s = Inl (PermissionDenied m)"
    using access_error [OF assms] by metis
  have "\<exists>e. list_secrets p sc s = Inl e" "\<exists>e. delete_scope p sc s = (Inl e, s)"
    by (cases "require_as scope_of_json KIND_SCOPE sc ''Secret scope'' s"; simp add: list_secrets_def delete_scope_def acc)+
  then show ?thesis
    by (simp add: get_secret_def put_secret_def delete_secret_def put_acl_def delete_acl_def list_acls_def get_acl_def acc)
qed

section \<open>Values\<close>

lemma append_sep_inj: "c \<notin> set a \<Longrightarrow> c \<notin> set a' \<Longrightarrow> a @ c # b = a' @ c # b' \<longleftrightarrow> a = a' \<and> b = b'"
proof (induction a arbitrary: a')
  case Nil
  then show ?case by (cases a') auto
next
  case (Cons x a)
  then show ?case by (cases a') auto
qed

lemma secret_kv_inj:
  assumes "CHR ''/'' \<notin> set sc" and "CHR ''/'' \<notin> set sc'"
  shows "secret_kv sc key = secret_kv sc' key' \<longleftrightarrow> sc = sc' \<and> key = key'"
  using append_sep_inj [OF assms, of key key'] by (simp add: secret_kv_def secret_id_def)

lemma secret_put_kv:
  assumes "secret_put lib now now' sc key v s = (Inr u, s')"
  shows "\<exists>sealed. sl_seal lib v = Inr sealed \<and>
    (\<forall>k. kv_get k s' = (if k = secret_kv sc key then Some sealed else kv_get k s))"
proof -
  from assms obtain sealed where sealed: "sl_seal lib v = Inr sealed"
    and s': "s' = snd (store_upsert now' KIND_SECRET workspace_id (secret_id sc key) (Some sc) (Some key)
          (secret_meta_json key now) (kv_set (secret_kv sc key) sealed s))"
    by (auto simp: secret_put_def try_then_Inr split: sum.splits)
  have "kv_get k s' = (if k = secret_kv sc key then Some sealed else kv_get k s)" for k
    unfolding s' by (simp add: store_simps)
  with sealed show ?thesis by blast
qed

lemma put_secret_value:
  assumes "put_secret lib now now' p sc key str bytes s = (Inr r, s')"
  shows "\<exists>v. (str = Some v \<and> bytes = None \<or> (\<exists>b. str = None \<and> bytes = Some b \<and> sl_decode64 lib b = Inr v)) \<and>
    (\<exists>u. secret_put lib now now' sc key v s = (Inr u, s'))"
  using assms by (auto simp: put_secret_def try_then_Inr split: sum.splits option.splits if_splits prod.splits)

definition value_of :: "secret_lib \<Rightarrow> string option \<Rightarrow> string option \<Rightarrow> string \<Rightarrow> bool" where
  "value_of lib str bytes v \<longleftrightarrow>
     str = Some v \<and> bytes = None \<or> (\<exists>b. str = None \<and> bytes = Some b \<and> sl_decode64 lib b = Inr v)"

text \<open>A stored secret is read back: after a successful put, whoever may read the scope gets the
  value of the request (text, or decoded bytes), and the secrets of every other key and scope are
  what they were; sealing is assumed to be undone by opening.\<close>

theorem secret_roundtrip:
  assumes seal: "\<And>x y. sl_seal lib x = Inr y \<Longrightarrow> sl_open lib y = Inr x"
    and put: "put_secret lib now now' p sc key str bytes s = (Inr r, s')"
    and plain: "CHR ''/'' \<notin> set sc" "CHR ''/'' \<notin> set sc'"
    and reader: "check_scope_access q sc' ''READ'' s' = Inr ()"
  shows "if sc' = sc \<and> key' = key
    then \<exists>v. value_of lib str bytes v \<and>
      get_secret lib q sc' key' s' = Inr (jobj [(''key'', JStr key), (''value'', JStr (sl_encode64 lib v))])
    else secret_get lib sc' key' s' = secret_get lib sc' key' s"
proof -
  from put_secret_value [OF put] obtain v u where v: "value_of lib str bytes v"
    and sp: "secret_put lib now now' sc key v s = (Inr u, s')" unfolding value_of_def by blast
  from secret_put_kv [OF sp] obtain sealed where sealed: "sl_seal lib v = Inr sealed"
    and kv: "\<And>k. kv_get k s' = (if k = secret_kv sc key then Some sealed else kv_get k s)" by blast
  show ?thesis
  proof (cases "sc' = sc \<and> key' = key")
    case True
    then have "secret_get lib sc' key' s' = Inr (Some v)"
      using kv [of "secret_kv sc key"] seal [OF sealed] by (simp add: secret_get_def)
    with True v reader show ?thesis by (auto simp: get_secret_def)
  next
    case False
    then have "secret_kv sc' key' \<noteq> secret_kv sc key" using secret_kv_inj [OF plain] by metis
    then have "secret_get lib sc' key' s' = secret_get lib sc' key' s" by (simp add: secret_get_def kv)
    with False show ?thesis by (simp only: if_False)
  qed
qed

section \<open>Witnesses\<close>

definition scope_store :: store where
  "scope_store = \<lparr>st_dialect = Sqlite, st_docs =
     [\<lparr>d_id = ''app'', d_kind = KIND_SCOPE, d_ws = workspace_id, d_parent = None, d_name = Some ''app'',
       d_data = scope_to_json \<lparr>sc_name = ''app'', sc_backend_type = ''DATABRICKS'', sc_keyvault_metadata = None, sc_created_by = ''ann''\<rparr>,
       d_created_at = 1, d_updated_at = 1\<rparr>,
      \<lparr>d_id = ''app/ann'', d_kind = KIND_ACL, d_ws = workspace_id, d_parent = Some ''app'', d_name = Some ''ann'',
       d_data = acl_json ''ann'' ''MANAGE'', d_created_at = 1, d_updated_at = 1\<rparr>], st_kv = []\<rparr>"

definition plain_lib :: secret_lib where
  "plain_lib = \<lparr>sl_seal = (\<lambda>x. Inr (''v1:'' @ x)), sl_open = (\<lambda>y. Inr (drop 3 y)), sl_decode64 = Inr, sl_encode64 = id\<rparr>"

definition ann :: principal where
  "ann = \<lparr>p_user_id = ''u1'', p_user_name = ''ann'', p_is_admin = False, p_groups = []\<rparr>"

definition eve :: principal where
  "eve = \<lparr>p_user_id = ''u9'', p_user_name = ''eve'', p_is_admin = False, p_groups = [''users'']\<rparr>"

theorem secrets_guarded_witness:
  "\<exists>e. get_secret plain_lib eve ''app'' ''k'' scope_store = Inl e"
proof -
  have "\<not> p_is_admin eve" by (simp add: eve_def)
  moreover have "\<not> acl_allows [''READ'', ''WRITE'', ''MANAGE''] eve ''app'' scope_store"
    by (simp add: acl_allows_def scope_store_def eve_def secret_kind_defs acl_json_def j_get_jobj)
  ultimately show ?thesis using secrets_guarded [of eve "''app''" scope_store plain_lib] by blast
qed

lemma put_sample:
  "fst (put_secret plain_lib 5 5 ann ''app'' ''k'' (Some ''pw'') None scope_store) = Inr empty_body"
  "check_scope_access ann ''app'' ''READ'' (snd (put_secret plain_lib 5 5 ann ''app'' ''k'' (Some ''pw'') None scope_store)) = Inr ()"
  by code_simp+

theorem secret_roundtrip_witness:
  "get_secret plain_lib ann ''app'' ''k'' (snd (put_secret plain_lib 5 5 ann ''app'' ''k'' (Some ''pw'') None scope_store)) =
     Inr (jobj [(''key'', JStr ''k''), (''value'', JStr ''pw'')])"
proof -
  let ?s' = "snd (put_secret plain_lib 5 5 ann ''app'' ''k'' (Some ''pw'') None scope_store)"
  have put: "put_secret plain_lib 5 5 ann ''app'' ''k'' (Some ''pw'') None scope_store = (Inr empty_body, ?s')"
    using put_sample(1) by (metis prod.collapse)
  have "if ''app'' = ''app'' \<and> ''k'' = ''k''
    then \<exists>v. value_of plain_lib (Some ''pw'') None v \<and>
      get_secret plain_lib ann ''app'' ''k'' ?s' = Inr (jobj [(''key'', JStr ''k''), (''value'', JStr (sl_encode64 plain_lib v))])
    else secret_get plain_lib ''app'' ''k'' ?s' = secret_get plain_lib ''app'' ''k'' scope_store"
    by (rule secret_roundtrip [OF _ put _ _ put_sample(2)]) (auto simp: plain_lib_def)
  then show ?thesis by (auto simp: value_of_def plain_lib_def)
qed

end
