(* ===== verification/Jobs_Model.thy ===== *)
theory Jobs_Model
  imports Api_Permissions Api_Handlers
begin

text \<open>
  The Jobs API (\<open>lakeforge-api/src/api/jobs.rs\<close>): jobs, runs and task runs, run states, job
  parameters, the \<open>{{...}}\<close> substitution, and the validation and merging of job settings. Settings
  and task definitions are JSON objects as in the source; cron expressions are the library's.
\<close>

section \<open>Jobs and runs\<close>

type_synonym settings = jmap

record job =
  jb_job_id :: int
  jb_creator :: string
  jb_run_as :: string
  jb_created_time :: int
  jb_settings :: settings
  jb_next_run_ms :: "int option"
  jb_trigger_state :: settings

record run_state =
  life_cycle_state :: string
  result_state :: "string option"
  state_message :: string
  cancelled_or_timedout :: bool

definition rs_pending :: run_state where
  "rs_pending = \<lparr>life_cycle_state = ''PENDING'', result_state = None, state_message = [], cancelled_or_timedout = False\<rparr>"

definition rs_running :: run_state where
  "rs_running = \<lparr>life_cycle_state = ''RUNNING'', result_state = None, state_message = [], cancelled_or_timedout = False\<rparr>"

definition rs_terminated :: "string \<Rightarrow> string \<Rightarrow> run_state" where
  "rs_terminated result msg = \<lparr>life_cycle_state = ''TERMINATED'', result_state = Some result, state_message = msg,
     cancelled_or_timedout = (result = ''CANCELED'' \<or> result = ''TIMEDOUT'')\<rparr>"

definition is_terminal :: "run_state \<Rightarrow> bool" where
  "is_terminal s \<longleftrightarrow> life_cycle_state s = ''TERMINATED'' \<or> life_cycle_state s = ''SKIPPED'' \<or>
     life_cycle_state s = ''INTERNAL_ERROR''"

record task_run =
  tr_run_id :: int
  tr_task_key :: string
  tr_depends_on :: "json list"
  tr_run_if :: "string option"
  tr_state :: run_state
  tr_start_time :: int
  tr_end_time :: int
  tr_setup_duration :: int
  tr_execution_duration :: int
  tr_cleanup_duration :: int
  tr_attempt_number :: u32
  tr_cluster_instance :: "json option"
  tr_task_def :: settings
  tr_output :: "json option"

record run =
  rn_run_id :: int
  rn_job_id :: "int option"
  rn_run_name :: string
  rn_number_in_job :: int
  rn_creator :: string
  rn_state :: run_state
  rn_start_time :: int
  rn_end_time :: int
  rn_setup_duration :: int
  rn_execution_duration :: int
  rn_cleanup_duration :: int
  rn_trigger :: string
  rn_run_type :: string
  rn_tasks :: "task_run list"
  rn_job_clusters :: "json list"
  rn_job_parameters :: "json list"
  rn_overriding_parameters :: json
  rn_repair_history :: "json list"
  rn_created_clusters :: "string list"
  rn_parent_run_id :: "int option"
  rn_format :: string
  rn_git_source :: "json option"

definition page_url :: "string \<Rightarrow> run \<Rightarrow> string" where
  "page_url public_url r =
     (case rn_job_id r of
        Some j \<Rightarrow> public_url @ ''/#job/'' @ show_int j @ ''/run/'' @ show_int (rn_run_id r)
      | None \<Rightarrow> public_url @ ''/#job/runs/'' @ show_int (rn_run_id r))"

section \<open>Parameters\<close>

definition params_from_settings :: "settings \<Rightarrow> settings \<Rightarrow> json list" where
  "params_from_settings settings overrides =
     (let declared = map (\<lambda>p.
            let name = or_default [] (as_str (j_get p ''name'')); dflt = j_get p ''default''
            in jobj [(''name'', JStr name), (''default'', dflt), (''value'', or_default dflt (map_of overrides name))])
          (or_default [] (Option.bind (map_of settings ''parameters'') as_array))
      in fold (\<lambda>(k, v) out. if list_ex (\<lambda>p. j_get p ''name'' = JStr k) out then out
           else out @ [jobj [(''name'', JStr k), (''default'', JNull), (''value'', v)]]) overrides declared)"

fun value_str :: "json \<Rightarrow> string" where
  "value_str (JStr s) = s"
| "value_str JNull = []"
| "value_str v = show_json v"

section \<open>Substitution\<close>

fun break_on :: "string \<Rightarrow> string \<Rightarrow> (string \<times> string) option" where
  "break_on pat [] = (if pat = [] then Some ([], []) else None)"
| "break_on pat (c # s) =
     (case strip_prefix (c # s) pat of
        Some rest \<Rightarrow> Some ([], rest)
      | None \<Rightarrow> map_option (\<lambda>(a, b). (c # a, b)) (break_on pat s))"

definition task_value_ref :: "(string \<Rightarrow> string \<Rightarrow> string option) \<Rightarrow> string \<Rightarrow> string option" where
  "task_value_ref tv key =
     (case split_on (CHR ''.'') key of
        [a, b, c, d] \<Rightarrow> if a = ''tasks'' \<and> c = ''values'' then tv b d else None
      | _ \<Rightarrow> None)"

definition lookup_ref :: "(string \<Rightarrow> string option) \<Rightarrow> (string \<Rightarrow> string \<Rightarrow> string option) \<Rightarrow> string \<Rightarrow> string option" where
  "lookup_ref refs tv key = or_else (refs key) (task_value_ref tv key)"

lemma break_on_length: "break_on pat s = Some (a, b) \<Longrightarrow> length b + length pat \<le> length s"
proof (induction s arbitrary: a b)
  case (Cons c s)
  show ?case
  proof (cases "strip_prefix (c # s) pat")
    case None
    with Cons show ?thesis by (force simp: map_option_case split: option.splits)
  next
    case (Some rest)
    with Cons.prems have "c # s = pat @ b" by (simp add: strip_prefix_Some)
    then have "length (c # s) = length pat + length b" by simp
    then show ?thesis by simp
  qed
qed (simp split: if_splits)

lemma break_on_shorter:
  assumes "break_on ''{{'' s = Some (a, after)" and "break_on ''}}'' after = Some (k, rest)"
  shows "length rest < length s"
  using break_on_length [OF assms(1)] break_on_length [OF assms(2)] by simp

text \<open>
  The loop of the source: \<open>rest\<close> still holds the text before the opening braces when they are not
  closed, and is pushed whole.
\<close>

function substitute :: "(string \<Rightarrow> string option) \<Rightarrow> (string \<Rightarrow> string \<Rightarrow> string option) \<Rightarrow> string \<Rightarrow> string" where
  "substitute refs tv s =
     (case break_on ''{{'' s of
        None \<Rightarrow> s
      | Some (pre, after) \<Rightarrow>
          (case break_on ''}}'' after of
             None \<Rightarrow> pre @ s
           | Some (k, rest) \<Rightarrow>
               pre @ (case lookup_ref refs tv (trim k) of Some v \<Rightarrow> v | None \<Rightarrow> ''{{'' @ k @ ''}}'')
                 @ substitute refs tv rest))"
  by pat_completeness auto
termination
  by (relation "measure (\<lambda>(_, _, s). length s)") (auto intro: break_on_shorter)

declare substitute.simps [simp del]

fun substitute_value :: "(string \<Rightarrow> string option) \<Rightarrow> (string \<Rightarrow> string \<Rightarrow> string option) \<Rightarrow> json \<Rightarrow> json" where
  "substitute_value refs tv (JStr s) = JStr (substitute refs tv s)"
| "substitute_value refs tv (JArr xs) = JArr (map (substitute_value refs tv) xs)"
| "substitute_value refs tv (JObj m) = JObj (map (\<lambda>kv. (fst kv, substitute_value refs tv (snd kv))) m)"
| "substitute_value refs tv v = v"

section \<open>Settings\<close>

definition paused_by :: "settings \<Rightarrow> string \<Rightarrow> bool" where
  "paused_by settings k =
     (Option.bind (map_of settings k) (\<lambda>s. as_str (j_get s ''pause_status'')) = Some ''PAUSED'')"

definition is_paused :: "settings \<Rightarrow> bool" where
  "is_paused settings \<longleftrightarrow> paused_by settings ''schedule'' \<or> paused_by settings ''continuous'' \<or> paused_by settings ''trigger''"

fun distinct_keys :: "json list \<Rightarrow> string list \<Rightarrow> api_error + string list" where
  "distinct_keys [] keys = Inr keys"
| "distinct_keys (t # ts) keys =
     (case as_str (j_get t ''task_key'') of
        None \<Rightarrow> Inl (InvalidParameter ''task_key is required'')
      | Some k \<Rightarrow> if List.member keys k then Inl (InvalidParameter (''Duplicate task_key '' @ k))
                 else distinct_keys ts (k # keys))"

definition dep_keys :: "json list \<Rightarrow> string list" where
  "dep_keys ds = filter_map (\<lambda>d. as_str (j_get d ''task_key'')) ds"

definition unknown_dep :: "string list \<Rightarrow> json list \<Rightarrow> string option" where
  "unknown_dep keys ts =
     find (\<lambda>k. \<not> List.member keys k)
       (concat (map (\<lambda>t. dep_keys (or_default [] (as_array (j_get t ''depends_on'')))) ts))"

text \<open>\<open>cron\<close> is the cron library's check of an expression.\<close>

definition validate_settings :: "(string \<Rightarrow> string + unit) \<Rightarrow> settings \<Rightarrow> api_error + settings" where
  "validate_settings cron s0 =
     (let s = filter (\<lambda>kv. snd kv \<noteq> JNull) s0
      in try_then (ok_or (InvalidParameter ''tasks is required'') (Option.bind (map_of s ''tasks'') as_array)) (\<lambda>tasks.
         try_then (distinct_keys tasks []) (\<lambda>keys.
         try_then (case unknown_dep keys tasks of
             None \<Rightarrow> Inr () | Some k \<Rightarrow> Inl (InvalidParameter (''depends_on references unknown task_key '' @ k))) (\<lambda>_.
         try_then (case map_of s ''schedule'' of
             None \<Rightarrow> Inr ()
           | Some sch \<Rightarrow>
               try_then (ok_or (InvalidParameter ''schedule.quartz_cron_expression is required'')
                   (as_str (j_get sch ''quartz_cron_expression''))) (\<lambda>expr.
                 case cron (trim expr) of
                   Inl e \<Rightarrow> Inl (InvalidParameter (''Invalid quartz_cron_expression: '' @ e)) | Inr _ \<Rightarrow> Inr ())) (\<lambda>_.
           Inr s)))))"

fun merge_task :: "json \<Rightarrow> json list \<Rightarrow> json list" where
  "merge_task nt [] = [nt]"
| "merge_task nt (t # ts) =
     (if j_get t ''task_key'' = j_get nt ''task_key'' then nt # ts else t # merge_task nt ts)"

definition merge_setting :: "string \<times> json \<Rightarrow> settings \<Rightarrow> settings" where
  "merge_setting kv s =
     (if fst kv = ''tasks'' then
        bt_insert ''tasks'' (JArr (fold merge_task (or_default [] (as_array (snd kv)))
          (or_default [] (Option.bind (map_of s ''tasks'') as_array)))) s
      else bt_insert (fst kv) (snd kv) s)"

text \<open>\<open>get_mut(k).and_then(as_array_mut)\<close> with \<open>retain\<close>.\<close>

definition retain_in :: "string \<Rightarrow> (json \<Rightarrow> bool) \<Rightarrow> settings \<Rightarrow> settings" where
  "retain_in k keep s = adjust k (\<lambda>v. case v of JArr xs \<Rightarrow> JArr (filter keep xs) | _ \<Rightarrow> v) s"

definition remove_field :: "string \<Rightarrow> settings \<Rightarrow> settings" where
  "remove_field f s =
     (case strip_prefix f ''tasks/'' of
        Some tk \<Rightarrow> retain_in ''tasks'' (\<lambda>t. j_get t ''task_key'' \<noteq> JStr tk) s
      | None \<Rightarrow> (case strip_prefix f ''job_clusters/'' of
          Some jc \<Rightarrow> retain_in ''job_clusters'' (\<lambda>c. j_get c ''job_cluster_key'' \<noteq> JStr jc) s
        | None \<Rightarrow> filter (\<lambda>kv. fst kv \<noteq> f) s))"

definition update_settings ::
  "(string \<Rightarrow> string + unit) \<Rightarrow> settings \<Rightarrow> string list \<Rightarrow> settings \<Rightarrow> api_error + settings"
where
  "update_settings cron new_settings removed s =
     validate_settings cron (fold remove_field removed (fold merge_setting new_settings s))"

end
