(* ===== verification/Jobs_Runner.thy ===== *)
theory Jobs_Runner
  imports Jobs_Model "HOL-Library.More_List"
begin

text \<open>
  The DAG runner (\<open>execute_run_inner\<close> in \<open>lakeforge-api/src/api/jobs.rs\<close>): rounds that pick the
  tasks whose dependencies are done, apply \<open>run_if\<close>, resolve clusters, execute the batch and record
  the results. What the runner calls is the environment \<open>env\<close>: the clock and the deadline (read at
  each tick), cluster creation, and the results of a batch in the order the tasks finish (\<open>None\<close> for
  a task that panicked; \<open>task_joined\<close> is what a task answers with its retries). \<open>rs_saves\<close> lists the run documents saved, newest first.
\<close>

record joined =
  jd_index :: nat
  jd_attempts :: u32
  jd_state :: run_state
  jd_out :: json

record env =
  e_clock :: "nat \<Rightarrow> int"
  e_expired :: "nat \<Rightarrow> bool"
  e_create_cluster :: "nat \<Rightarrow> settings \<Rightarrow> api_error + string"
  e_default_cluster :: "nat \<Rightarrow> run \<Rightarrow> api_error + string"
  e_batch :: "run \<Rightarrow> nat list \<Rightarrow> joined option list"

record runner =
  rs_run :: run
  rs_done :: "(string \<times> run_state) list"
  rs_clusters :: "(string \<times> string) list"
  rs_timed_out :: bool
  rs_tick :: nat
  rs_saves :: "run list"

definition map_run :: "(run \<Rightarrow> run) \<Rightarrow> runner \<Rightarrow> runner" where
  "map_run f rs = rs\<lparr>rs_run := f (rs_run rs)\<rparr>"

definition set_task :: "nat \<Rightarrow> (task_run \<Rightarrow> task_run) \<Rightarrow> runner \<Rightarrow> runner" where
  "set_task i f rs = map_run (\<lambda>r. r\<lparr>rn_tasks := (if i < length (rn_tasks r)
      then (rn_tasks r)[i := f (rn_tasks r ! i)] else rn_tasks r)\<rparr>) rs"

definition now_of :: "env \<Rightarrow> runner \<Rightarrow> int" where
  "now_of env rs = e_clock env (rs_tick rs)"

definition tick :: "runner \<Rightarrow> runner" where
  "tick rs = rs\<lparr>rs_tick := Suc (rs_tick rs)\<rparr>"

definition save_run :: "runner \<Rightarrow> runner" where
  "save_run rs = rs\<lparr>rs_saves := rs_run rs # rs_saves rs\<rparr>"

definition mark_done :: "string \<Rightarrow> run_state \<Rightarrow> runner \<Rightarrow> runner" where
  "mark_done k s rs = rs\<lparr>rs_done := AList.update k s (rs_done rs)\<rparr>"

section \<open>Which tasks are ready\<close>

definition remaining :: "runner \<Rightarrow> nat list" where
  "remaining rs = filter (\<lambda>i. \<not> is_terminal (tr_state (rn_tasks (rs_run rs) ! i))) [0..<length (rn_tasks (rs_run rs))]"

definition is_done :: "(string \<times> run_state) list \<Rightarrow> string \<Rightarrow> bool" where
  "is_done dn k \<longleftrightarrow> map_of dn k \<noteq> None"

definition deps_done :: "(string \<times> run_state) list \<Rightarrow> task_run \<Rightarrow> bool" where
  "deps_done dn t \<longleftrightarrow> list_all (\<lambda>d. case as_str (j_get d ''task_key'') of None \<Rightarrow> True | Some k \<Rightarrow> is_done dn k) (tr_depends_on t)"

definition ready :: "runner \<Rightarrow> nat list" where
  "ready rs = filter (\<lambda>i. deps_done (rs_done rs) (rn_tasks (rs_run rs) ! i)) (remaining rs)"

section \<open>The run_if gate\<close>

definition dep_states :: "(string \<times> run_state) list \<Rightarrow> task_run \<Rightarrow> (string \<times> run_state) list" where
  "dep_states dn t = filter_map (\<lambda>k. map_option (Pair k) (map_of dn k)) (dep_keys (tr_depends_on t))"

definition outcome_ok :: "(string \<times> run_state) list \<Rightarrow> task_run \<Rightarrow> string \<Rightarrow> bool" where
  "outcome_ok dn t k =
     (case Option.bind (find (\<lambda>d. j_get d ''task_key'' = JStr k) (tr_depends_on t)) (\<lambda>d. as_str (j_get d ''outcome'')) of
        None \<Rightarrow> True
      | Some w \<Rightarrow> Option.bind (map_of dn k) result_state = Some w \<or>
          Option.bind (map_of dn k) (\<lambda>s. strip_prefix (state_message s) ''outcome='') = Some w)"

definition succeeded :: "run_state \<Rightarrow> bool" where
  "succeeded s \<longleftrightarrow> result_state s = Some ''SUCCESS''"

definition gate :: "(string \<times> run_state) list \<Rightarrow> task_run \<Rightarrow> bool" where
  "gate dn t =
     (let ds = dep_states dn t;
          all_success = list_all (\<lambda>(k, s). succeeded s \<and> outcome_ok dn t k) ds;
          all_done = list_all (\<lambda>(_, s). is_terminal s) ds;
          any_failed = list_ex (\<lambda>(k, s). \<not> succeeded s \<or> \<not> outcome_ok dn t k) ds;
          all_failed = (ds \<noteq> [] \<and> list_all (\<lambda>(_, s). result_state s = Some ''FAILED'') ds);
          run_if = or_default ''ALL_SUCCESS'' (tr_run_if t)
      in if run_if = ''ALL_DONE'' then all_done
         else if run_if = ''NONE_FAILED'' then \<not> any_failed
         else if run_if = ''AT_LEAST_ONE_SUCCESS'' then list_ex (\<lambda>(_, s). succeeded s) ds
         else if run_if = ''ALL_FAILED'' then all_failed
         else if run_if = ''AT_LEAST_ONE_FAILED'' then any_failed
         else all_success)"

definition skipped_state :: run_state where
  "skipped_state = \<lparr>life_cycle_state = ''SKIPPED'', result_state = Some ''EXCLUDED'',
     state_message = ''Skipped by run_if / upstream outcome'', cancelled_or_timedout = False\<rparr>"

fun gate_loop :: "env \<Rightarrow> nat list \<Rightarrow> nat list \<Rightarrow> runner \<Rightarrow> nat list \<times> runner" where
  "gate_loop env [] to_run rs = (to_run, rs)"
| "gate_loop env (i # is) to_run rs =
     (let t = rn_tasks (rs_run rs) ! i
      in if gate (rs_done rs) t then gate_loop env is (to_run @ [i]) rs
         else gate_loop env is to_run
           (mark_done (tr_task_key t) skipped_state
             (tick (set_task i (\<lambda>t. t\<lparr>tr_state := skipped_state, tr_end_time := now_of env rs\<rparr>) rs))))"

section \<open>Clusters\<close>

definition needs_cluster :: "settings \<Rightarrow> bool" where
  "needs_cluster def \<longleftrightarrow> map_of def ''notebook_task'' \<noteq> None \<or> map_of def ''spark_python_task'' \<noteq> None \<or>
     map_of def ''for_each_task'' \<noteq> None"

definition cluster_prefix :: "run \<Rightarrow> string" where
  "cluster_prefix r = ''job-'' @ show_int (or_default 0 (rn_job_id r)) @ ''-run-'' @ show_int (rn_run_id r)"

definition job_cluster_spec :: "string \<Rightarrow> settings \<Rightarrow> settings" where
  "job_cluster_spec name spec =
     bt_insert ''cluster_source'' (JStr ''JOB'') (bt_insert ''cluster_name'' (JStr name) spec)"

definition add_created :: "string \<Rightarrow> runner \<Rightarrow> runner" where
  "add_created c rs = map_run (\<lambda>r. r\<lparr>rn_created_clusters := rn_created_clusters r @ [c]\<rparr>) rs"

definition create_named :: "env \<Rightarrow> string \<Rightarrow> settings \<Rightarrow> runner \<Rightarrow> (api_error + string) \<times> runner" where
  "create_named env name spec rs =
     (case e_create_cluster env (rs_tick rs) (job_cluster_spec name spec) of
        Inl e \<Rightarrow> (Inl e, tick rs) | Inr c \<Rightarrow> (Inr c, add_created c (tick rs)))"

definition pick_cluster :: "env \<Rightarrow> nat \<Rightarrow> runner \<Rightarrow> (api_error + string option) \<times> runner" where
  "pick_cluster env i rs =
     (let t = rn_tasks (rs_run rs) ! i; def = tr_task_def t; r = rs_run rs
      in case Option.bind (map_of def ''existing_cluster_id'') as_str of
           Some c \<Rightarrow> (Inr (Some c), rs)
         | None \<Rightarrow> (case Option.bind (map_of def ''job_cluster_key'') as_str of
             Some key \<Rightarrow>
               (case map_of (rs_clusters rs) key of
                  Some c \<Rightarrow> (Inr (Some c), rs)
                | None \<Rightarrow>
                    (case Option.bind (find (\<lambda>jc. j_get jc ''job_cluster_key'' = JStr key) (rn_job_clusters r))
                        (\<lambda>jc. as_object (j_get jc ''new_cluster'')) of
                       None \<Rightarrow> (Inr None, rs)
                     | Some spec \<Rightarrow>
                         (case create_named env (cluster_prefix r @ ''-'' @ key) spec rs of
                            (Inl e, rs') \<Rightarrow> (Inl e, rs')
                          | (Inr c, rs') \<Rightarrow> (Inr (Some c), rs'\<lparr>rs_clusters := AList.update key c (rs_clusters rs')\<rparr>))))
           | None \<Rightarrow> (case Option.bind (map_of def ''new_cluster'') as_object of
               None \<Rightarrow> (Inr None, rs)
             | Some spec \<Rightarrow>
                 (case create_named env (cluster_prefix r @ ''-'' @ tr_task_key t) spec rs of
                    (Inl e, rs') \<Rightarrow> (Inl e, rs') | (Inr c, rs') \<Rightarrow> (Inr (Some c), rs')))))"

definition ensure_cluster :: "env \<Rightarrow> nat \<Rightarrow> runner \<Rightarrow> (api_error + string option) \<times> runner" where
  "ensure_cluster env i rs =
     (case pick_cluster env i rs of
        (Inl e, rs') \<Rightarrow> (Inl e, rs')
      | (Inr (Some c), rs') \<Rightarrow> (Inr (Some c), rs')
      | (Inr None, rs') \<Rightarrow>
          (if needs_cluster (tr_task_def (rn_tasks (rs_run rs') ! i)) then
             (case e_default_cluster env (rs_tick rs') (rs_run rs') of
                Inl e \<Rightarrow> (Inl e, tick rs') | Inr c \<Rightarrow> (Inr (Some c), tick rs'))
           else (Inr None, rs')))"

definition note_created :: "nat \<Rightarrow> string option \<Rightarrow> runner \<Rightarrow> runner" where
  "note_created i c rs =
     (case c of
        None \<Rightarrow> rs
      | Some c \<Rightarrow>
          (if \<not> List.member (rn_created_clusters (rs_run rs)) c \<and>
              map_of (tr_task_def (rn_tasks (rs_run rs) ! i)) ''existing_cluster_id'' = None
           then add_created c rs else rs))"

fun start_loop :: "env \<Rightarrow> nat list \<Rightarrow> runner \<Rightarrow> (api_error + unit) \<times> runner" where
  "start_loop env [] rs = (Inr (), rs)"
| "start_loop env (i # is) rs =
     (case ensure_cluster env i rs of
        (Inl e, rs') \<Rightarrow> (Inl e, rs')
      | (Inr c, rs') \<Rightarrow>
          (let rs'' = note_created i c rs'
           in start_loop env is (tick (set_task i (\<lambda>t. t\<lparr>
                tr_cluster_instance := map_option (\<lambda>c. jobj [(''cluster_id'', JStr c)]) c, tr_state := rs_running,
                tr_start_time := now_of env rs'', tr_attempt_number := tr_attempt_number t + 1\<rparr>) rs''))))"

section \<open>Executing a batch\<close>

text \<open>
  One task with its retries. \<open>attempt\<close> gives the result of each attempt; a negative \<open>max_retries\<close>
  retries for ever, so that not returning is \<open>None\<close>.
\<close>

definition wants_retry :: "int \<Rightarrow> bool \<Rightarrow> nat \<Rightarrow> run_state \<Rightarrow> bool" where
  "wants_retry max_retries on_timeout n s =
     (if result_state s = Some ''FAILED'' then max_retries < 0 \<or> int n < max_retries
      else if result_state s = Some ''TIMEDOUT'' then on_timeout \<and> (max_retries < 0 \<or> int n < max_retries)
      else False)"

partial_function (option) attempts_from ::
  "(nat \<Rightarrow> run_state \<times> json) \<Rightarrow> int \<Rightarrow> bool \<Rightarrow> nat \<Rightarrow> (nat \<times> run_state \<times> json) option"
where
  "attempts_from attempt max_retries on_timeout n =
     (if wants_retry max_retries on_timeout n (fst (attempt n))
      then attempts_from attempt max_retries on_timeout (Suc n)
      else Some (Suc n, attempt n))"

definition run_attempts :: "(nat \<Rightarrow> run_state \<times> json) \<Rightarrow> settings \<Rightarrow> (nat \<times> run_state \<times> json) option" where
  "run_attempts attempt def =
     attempts_from attempt (or_default 0 (Option.bind (map_of def ''max_retries'') as_int))
       (or_default False (Option.bind (map_of def ''retry_on_timeout'') as_bool)) 0"

text \<open>
  \<open>execute_task\<close>: what a kind of task does (a notebook, a command, SQL statements, a pipeline update,
  another job, a condition, iterations) is the parameter \<open>body\<close>; whatever it is, it answers with the
  words of \<open>RunState::terminated\<close> and an output, or with an error, which fails the task.
\<close>

definition task_outcome :: "api_error + (string \<times> string) \<times> json \<Rightarrow> run_state \<times> json" where
  "task_outcome answer =
     (case answer of
        Inr ((result, msg), out) \<Rightarrow> (rs_terminated result msg, out)
      | Inl e \<Rightarrow> (rs_terminated ''FAILED'' (error_message e), jobj [(''error'', JStr (error_message e))]))"

text \<open>What the batch joins for task \<open>i\<close>; \<open>None\<close> when its attempts never end.\<close>

type_synonym task_body = "run \<Rightarrow> nat \<Rightarrow> nat \<Rightarrow> api_error + (string \<times> string) \<times> json"

definition task_joined :: "task_body \<Rightarrow> run \<Rightarrow> nat \<Rightarrow> joined option" where
  "task_joined body r i =
     map_option (\<lambda>(n, s, out). \<lparr>jd_index = i, jd_attempts = of_nat n, jd_state = s, jd_out = out\<rparr>)
       (run_attempts (\<lambda>n. task_outcome (body r i n)) (tr_task_def (rn_tasks r ! i)))"

definition record_result :: "env \<Rightarrow> joined option \<Rightarrow> runner \<Rightarrow> runner" where
  "record_result env j rs =
     save_run (case j of
        None \<Rightarrow> rs
      | Some j \<Rightarrow>
          (let i = jd_index j; now = now_of env rs
           in mark_done (tr_task_key (rn_tasks (rs_run rs) ! i)) (jd_state j)
                (tick (set_task i (\<lambda>t. t\<lparr>tr_state := jd_state j, tr_output := Some (jd_out j), tr_end_time := now,
                   tr_execution_duration := wrap_i64 (now - tr_start_time t), tr_attempt_number := jd_attempts j\<rparr>) rs))))"

section \<open>Rounds\<close>

datatype round_result = Going runner | Stop runner | Failed api_error runner

definition fail_all :: "nat list \<Rightarrow> runner \<Rightarrow> runner" where
  "fail_all is rs = fold (\<lambda>i. set_task i (\<lambda>t. t\<lparr>tr_state :=
     rs_terminated ''FAILED'' ''Dependency cycle or missing task_key in depends_on''\<rparr>)) is rs"

definition time_out_all :: "env \<Rightarrow> nat list \<Rightarrow> runner \<Rightarrow> runner" where
  "time_out_all env is rs = fold (\<lambda>i rs. tick (set_task i (\<lambda>t. t\<lparr>tr_state :=
     rs_terminated ''TIMEDOUT'' ''Run exceeded timeout_seconds'', tr_end_time := now_of env rs\<rparr>) rs)) is rs"

definition run_batch :: "env \<Rightarrow> nat list \<Rightarrow> runner \<Rightarrow> round_result" where
  "run_batch env to_run rs =
     (case start_loop env to_run rs of
        (Inl e, rs') \<Rightarrow> Failed e rs'
      | (Inr _, rs') \<Rightarrow>
          (let rs'' = save_run rs'
           in Going (fold (record_result env) (e_batch env (rs_run rs'') to_run) rs'')))"

definition round :: "env \<Rightarrow> runner \<Rightarrow> round_result" where
  "round env rs =
     (let rem = remaining rs
      in if rem = [] then Stop rs
         else if e_expired env (rs_tick rs) then Stop (time_out_all env rem ((tick rs)\<lparr>rs_timed_out := True\<rparr>))
         else let rs1 = tick rs; rdy = ready rs1
              in if rdy = [] then Stop (fail_all rem rs1)
                 else case gate_loop env rdy [] rs1 of
                   (to_run, rs2) \<Rightarrow>
                     (if to_run = [] then Going (save_run rs2) else run_batch env to_run rs2))"

fun rounds :: "env \<Rightarrow> nat \<Rightarrow> runner \<Rightarrow> ((api_error \<times> runner) + runner) option" where
  "rounds env 0 rs = None"
| "rounds env (Suc n) rs =
     (case round env rs of
        Going rs' \<Rightarrow> rounds env n rs' | Stop rs' \<Rightarrow> Some (Inr rs') | Failed e rs' \<Rightarrow> Some (Inl (e, rs')))"

definition has_result :: "string \<Rightarrow> task_run \<Rightarrow> bool" where
  "has_result w t \<longleftrightarrow> result_state (tr_state t) = Some w"

definition final_state :: "bool \<Rightarrow> run \<Rightarrow> run_state" where
  "final_state timed_out r =
     (let failed = list_ex (\<lambda>t. has_result ''FAILED'' t \<or> has_result ''TIMEDOUT'' t \<or> has_result ''CANCELED'' t) (rn_tasks r);
          canceled = list_ex (has_result ''CANCELED'') (rn_tasks r)
      in if timed_out then rs_terminated ''TIMEDOUT'' ''Run timed out''
         else if canceled then rs_terminated ''CANCELED'' ''Run cancelled''
         else if failed then rs_terminated ''FAILED'' (join_with ''; ''
           (map (\<lambda>t. tr_task_key t @ '': '' @ state_message (tr_state t))
             (filter (\<lambda>t. \<not> has_result ''SUCCESS'' t \<and> life_cycle_state (tr_state t) \<noteq> ''SKIPPED'') (rn_tasks r))))
         else rs_terminated ''SUCCESS'' [])"

definition finalise :: "env \<Rightarrow> runner \<Rightarrow> runner" where
  "finalise env rs =
     save_run (tick (map_run (\<lambda>r. r\<lparr>rn_state := final_state (rs_timed_out rs) r, rn_end_time := now_of env rs,
       rn_execution_duration := wrap_i64 (now_of env rs - rn_start_time r)\<rparr>) rs))"

definition start_runner :: "env \<Rightarrow> run \<Rightarrow> runner" where
  "start_runner env r =
     save_run \<lparr>rs_run = r\<lparr>rn_state := rs_running, rn_start_time := e_clock env 0\<rparr>, rs_done = [], rs_clusters = [],
       rs_timed_out = False, rs_tick = 1, rs_saves = []\<rparr>"

definition execute_run :: "env \<Rightarrow> nat \<Rightarrow> run \<Rightarrow> ((api_error \<times> runner) + runner) option" where
  "execute_run env fuel r =
     (case rounds env fuel (start_runner env r) of
        None \<Rightarrow> None
      | Some (Inl er) \<Rightarrow> Some (Inl er)
      | Some (Inr rs) \<Rightarrow> Some (Inr (finalise env rs)))"

text \<open>\<open>spawn_run\<close>: an internal error is written into the run document.\<close>

definition spawn_result :: "env \<Rightarrow> (api_error \<times> runner) + runner \<Rightarrow> run" where
  "spawn_result env res =
     (case res of
        Inr rs \<Rightarrow> rs_run rs
      | Inl (e, rs) \<Rightarrow> (hd (rs_saves rs))\<lparr>rn_state := \<lparr>life_cycle_state = ''INTERNAL_ERROR'', result_state = Some ''FAILED'',
          state_message = error_message e, cancelled_or_timedout = False\<rparr>, rn_end_time := now_of env rs\<rparr>)"

end
