(* ===== verification/Jobs_Docs.thy ===== *)
theory Jobs_Docs
  imports Jobs_Runner
begin

text \<open>
  Jobs and runs as stored documents (the \<open>Serialize\<close>/\<open>Deserialize\<close> derives of \<open>Job\<close>, \<open>RunState\<close>,
  \<open>TaskRun\<close> and \<open>Run\<close> in \<open>lakeforge-api/src/api/jobs.rs\<close>). A task run is flattened: the entries of
  its definition stand beside its own fields, so that the text of a document has a key twice when
  the definition uses the name of a field, and then does not read back. An object written as text
  keeps its entries in order, doubles included; \<open>view\<close> goes through a map, where the later entry wins.
\<close>

section \<open>Run states\<close>

definition state_to_json :: "run_state \<Rightarrow> json" where
  "state_to_json s = jobj ([(''life_cycle_state'', JStr (life_cycle_state s))] @
     (case result_state s of None \<Rightarrow> [] | Some r \<Rightarrow> [(''result_state'', JStr r)]) @
     [(''state_message'', JStr (state_message s)), (''user_cancelled_or_timedout'', JBool (cancelled_or_timedout s))])"

definition state_of_json :: "json \<Rightarrow> run_state option" where
  "state_of_json v =
     Option.bind (field_with as_str None v ''life_cycle_state'') (\<lambda>l.
     Option.bind (field_with opt_str (Some None) v ''result_state'') (\<lambda>r.
     Option.bind (field_with as_str (Some []) v ''state_message'') (\<lambda>m.
     Option.bind (field_with as_bool (Some False) v ''user_cancelled_or_timedout'') (\<lambda>c.
       Some \<lparr>life_cycle_state = l, result_state = r, state_message = m, cancelled_or_timedout = c\<rparr>))))"

lemma state_roundtrip [simp]: "state_of_json (state_to_json s) = Some s"
  by (cases "result_state s") (simp_all add: state_of_json_def state_to_json_def field_with_def j_field_jobj)

section \<open>Task runs\<close>

definition opt_any :: "json \<Rightarrow> json option option" where
  "opt_any v = Some (case v of JNull \<Rightarrow> None | _ \<Rightarrow> Some v)"

definition as_u32 :: "json \<Rightarrow> u32 option" where
  "as_u32 v = Option.bind (as_int v) (\<lambda>n. if 0 \<le> n \<and> n < 2 ^ 32 then Some (word_of_int n) else None)"

definition task_head :: "task_run \<Rightarrow> settings" where
  "task_head t =
     [(''run_id'', JInt (tr_run_id t)), (''task_key'', JStr (tr_task_key t)), (''depends_on'', JArr (tr_depends_on t)),
      (''run_if'', jstr_opt (tr_run_if t)), (''state'', state_to_json (tr_state t)), (''start_time'', JInt (tr_start_time t)),
      (''end_time'', JInt (tr_end_time t)), (''setup_duration'', JInt (tr_setup_duration t)),
      (''execution_duration'', JInt (tr_execution_duration t)), (''cleanup_duration'', JInt (tr_cleanup_duration t)),
      (''attempt_number'', JInt (uint (tr_attempt_number t))),
      (''cluster_instance'', or_default JNull (tr_cluster_instance t))]"

definition task_fields :: "task_run \<Rightarrow> settings" where
  "task_fields t = task_head t @ tr_task_def t @ [(''output'', or_default JNull (tr_output t))]"

definition task_field_names :: "string list" where
  "task_field_names = [''run_id'', ''task_key'', ''depends_on'', ''run_if'', ''state'', ''start_time'', ''end_time'',
     ''setup_duration'', ''execution_duration'', ''cleanup_duration'', ''attempt_number'', ''cluster_instance'', ''output'']"

definition no_doubles :: "settings \<Rightarrow> bool" where
  "no_doubles m \<longleftrightarrow> distinct (filter (List.member task_field_names) (map fst m))"

definition task_of_json :: "json \<Rightarrow> task_run option" where
  "task_of_json v =
     Option.bind (as_object v) (\<lambda>m. if \<not> no_doubles m then None else
     Option.bind (field_with as_int None v ''run_id'') (\<lambda>rid.
     Option.bind (field_with as_str None v ''task_key'') (\<lambda>key.
     Option.bind (field_with as_array (Some []) v ''depends_on'') (\<lambda>deps.
     Option.bind (field_with opt_str (Some None) v ''run_if'') (\<lambda>cond.
     Option.bind (field_with state_of_json None v ''state'') (\<lambda>st.
     Option.bind (field_with as_int (Some 0) v ''start_time'') (\<lambda>t0.
     Option.bind (field_with as_int (Some 0) v ''end_time'') (\<lambda>t1.
     Option.bind (field_with as_int (Some 0) v ''setup_duration'') (\<lambda>sd.
     Option.bind (field_with as_int (Some 0) v ''execution_duration'') (\<lambda>ed.
     Option.bind (field_with as_int (Some 0) v ''cleanup_duration'') (\<lambda>cd.
     Option.bind (field_with as_u32 (Some 0) v ''attempt_number'') (\<lambda>an.
     Option.bind (field_with opt_any (Some None) v ''cluster_instance'') (\<lambda>ci.
     Option.bind (field_with opt_any (Some None) v ''output'') (\<lambda>out.
       Some \<lparr>tr_run_id = rid, tr_task_key = key, tr_depends_on = deps, tr_run_if = cond, tr_state = st,
         tr_start_time = t0, tr_end_time = t1, tr_setup_duration = sd, tr_execution_duration = ed,
         tr_cleanup_duration = cd, tr_attempt_number = an, tr_cluster_instance = ci,
         tr_task_def = filter (\<lambda>kv. \<not> List.member task_field_names (fst kv)) m, tr_output = out\<rparr>))))))))))))))"

text \<open>A value behind an \<open>Option\<close> that is not \<open>null\<close>; definitions that use no field name.\<close>

definition not_null :: "json option \<Rightarrow> bool" where
  "not_null v \<longleftrightarrow> v \<noteq> Some JNull"

definition plain_def :: "settings \<Rightarrow> bool" where
  "plain_def def \<longleftrightarrow> list_all (\<lambda>kv. \<not> List.member task_field_names (fst kv)) def"

lemma opt_any_back [simp]: "not_null v \<Longrightarrow> opt_any (or_default JNull v) = Some v"
  by (cases v) (auto simp: opt_any_def not_null_def split: json.splits)

lemma opt_str_back [simp]: "opt_str (jstr_opt v) = Some v"
  by (cases v) (simp_all add: jstr_opt_def)

lemma as_u32_back [simp]: "as_u32 (JInt (uint (w :: u32))) = Some w"
  using uint_bounded [of w] by (simp add: as_u32_def)

lemma plain_def_filter: "plain_def def \<Longrightarrow> filter (\<lambda>kv. \<not> List.member task_field_names (fst kv)) def = def"
  by (simp add: plain_def_def list_all_iff)

lemma plain_def_get: "plain_def def \<Longrightarrow> List.member task_field_names k \<Longrightarrow> map_of def k = None"
  by (force simp: plain_def_def list_all_iff map_of_eq_None_iff)

lemma plain_def_keys: "plain_def def \<Longrightarrow> filter (List.member task_field_names) (map fst def) = []"
  by (auto simp: plain_def_def list_all_iff filter_empty_conv)

lemma head_names: "map fst (task_head t) = butlast task_field_names"
  by (simp add: task_head_def task_field_names_def)

lemma no_doubles_plain: "plain_def (tr_task_def t) \<Longrightarrow> no_doubles (task_fields t)"
proof -
  assume p: "plain_def (tr_task_def t)"
  have "filter (List.member task_field_names) (map fst (task_fields t)) = task_field_names"
    using plain_def_keys [OF p] by (simp add: task_fields_def head_names) (simp add: task_field_names_def)
  then show ?thesis by (simp add: no_doubles_def) (simp add: task_field_names_def)
qed

definition task_ok :: "task_run \<Rightarrow> bool" where
  "task_ok t \<longleftrightarrow> plain_def (tr_task_def t) \<and> not_null (tr_output t) \<and> not_null (tr_cluster_instance t)"

lemma task_roundtrip: "task_ok t \<Longrightarrow> task_of_json (JObj (task_fields t)) = Some t"
proof -
  assume ok: "task_ok t"
  have p: "plain_def (tr_task_def t)" using ok by (simp add: task_ok_def)
  have head: "field_with f d (JObj (task_fields t)) k = f v" if "map_of (task_head t) k = Some v" for f d k v
    using that by (simp add: field_with_def j_field_def task_fields_def map_add_def)
  have out: "field_with f d (JObj (task_fields t)) ''output'' = f (or_default JNull (tr_output t))" for f d
    using plain_def_get [OF p, of "''output''"]
    by (simp add: field_with_def j_field_def task_fields_def map_add_def task_field_names_def task_head_def)
  have rest: "filter (\<lambda>kv. \<not> List.member task_field_names (fst kv)) (task_fields t) = tr_task_def t"
    using plain_def_filter [OF p]
    by (simp add: task_fields_def) (simp add: task_head_def task_field_names_def)
  show ?thesis
    using ok no_doubles_plain [OF p] rest unfolding task_of_json_def
    by (simp add: head out task_head_def task_ok_def)
qed

lemma task_double:
  "\<not> plain_def (tr_task_def t) \<Longrightarrow> task_of_json (JObj (task_fields t)) = None"
proof -
  assume "\<not> plain_def (tr_task_def t)"
  then obtain k where k: "k \<in> set (map fst (tr_task_def t))" "List.member task_field_names k"
    by (auto simp: plain_def_def list_all_iff)
  have "k \<in> set (map fst (task_head t)) \<or> k = ''output''" using k(2) by (auto simp: head_names task_field_names_def)
  with k have "\<not> no_doubles (task_fields t)" unfolding no_doubles_def task_fields_def by (force simp: image_iff)
  then show ?thesis by (simp add: task_of_json_def)
qed

section \<open>Runs\<close>

definition run_entries :: "(task_run \<Rightarrow> json) \<Rightarrow> run \<Rightarrow> settings" where
  "run_entries task r =
     [(''run_id'', JInt (rn_run_id r))] @ (case rn_job_id r of None \<Rightarrow> [] | Some j \<Rightarrow> [(''job_id'', JInt j)]) @
     [(''run_name'', JStr (rn_run_name r)), (''number_in_job'', JInt (rn_number_in_job r)),
      (''creator_user_name'', JStr (rn_creator r)), (''state'', state_to_json (rn_state r)),
      (''start_time'', JInt (rn_start_time r)), (''end_time'', JInt (rn_end_time r)),
      (''setup_duration'', JInt (rn_setup_duration r)), (''execution_duration'', JInt (rn_execution_duration r)),
      (''cleanup_duration'', JInt (rn_cleanup_duration r)), (''trigger'', JStr (rn_trigger r)),
      (''run_type'', JStr (rn_run_type r)), (''tasks'', JArr (map task (rn_tasks r))),
      (''job_clusters'', JArr (rn_job_clusters r)), (''job_parameters'', JArr (rn_job_parameters r)),
      (''overriding_parameters'', rn_overriding_parameters r), (''repair_history'', JArr (rn_repair_history r)),
      (''created_clusters'', jstrs (rn_created_clusters r)),
      (''parent_run_id'', case rn_parent_run_id r of None \<Rightarrow> JNull | Some n \<Rightarrow> JInt n),
      (''format'', JStr (rn_format r)), (''git_source'', or_default JNull (rn_git_source r))]"

definition run_to_json :: "run \<Rightarrow> json" where
  "run_to_json r = jobj (run_entries (\<lambda>t. JObj (task_fields t)) r)"

fun opt_int :: "json \<Rightarrow> int option option" where
  "opt_int JNull = Some None"
| "opt_int (JInt n) = Some (Some n)"
| "opt_int _ = None"

definition tasks_of_json :: "json \<Rightarrow> task_run list option" where
  "tasks_of_json v = Option.bind (as_array v) (\<lambda>xs. all_some (map task_of_json xs))"

definition run_of_json :: "json \<Rightarrow> run option" where
  "run_of_json v =
     Option.bind (field_with as_int None v ''run_id'') (\<lambda>rid.
     Option.bind (field_with opt_int (Some None) v ''job_id'') (\<lambda>jid.
     Option.bind (field_with as_str None v ''run_name'') (\<lambda>name.
     Option.bind (field_with as_int None v ''number_in_job'') (\<lambda>num.
     Option.bind (field_with as_str None v ''creator_user_name'') (\<lambda>creator.
     Option.bind (field_with state_of_json None v ''state'') (\<lambda>st.
     Option.bind (field_with as_int None v ''start_time'') (\<lambda>t0.
     Option.bind (field_with as_int (Some 0) v ''end_time'') (\<lambda>t1.
     Option.bind (field_with as_int (Some 0) v ''setup_duration'') (\<lambda>sd.
     Option.bind (field_with as_int (Some 0) v ''execution_duration'') (\<lambda>ed.
     Option.bind (field_with as_int (Some 0) v ''cleanup_duration'') (\<lambda>cd.
     Option.bind (field_with as_str None v ''trigger'') (\<lambda>tr.
     Option.bind (field_with as_str None v ''run_type'') (\<lambda>ty.
     Option.bind (field_with tasks_of_json None v ''tasks'') (\<lambda>ts.
     Option.bind (field_with as_array (Some []) v ''job_clusters'') (\<lambda>jcs.
     Option.bind (field_with as_array (Some []) v ''job_parameters'') (\<lambda>jps.
     Option.bind (field_with Some (Some JNull) v ''overriding_parameters'') (\<lambda>ov.
     Option.bind (field_with as_array (Some []) v ''repair_history'') (\<lambda>rh.
     Option.bind (field_with strs_of (Some []) v ''created_clusters'') (\<lambda>cc.
     Option.bind (field_with opt_int (Some None) v ''parent_run_id'') (\<lambda>pr.
     Option.bind (field_with as_str (Some []) v ''format'') (\<lambda>fm.
     Option.bind (field_with opt_any (Some None) v ''git_source'') (\<lambda>gs.
       Some \<lparr>rn_run_id = rid, rn_job_id = jid, rn_run_name = name, rn_number_in_job = num, rn_creator = creator,
         rn_state = st, rn_start_time = t0, rn_end_time = t1, rn_setup_duration = sd, rn_execution_duration = ed,
         rn_cleanup_duration = cd, rn_trigger = tr, rn_run_type = ty, rn_tasks = ts, rn_job_clusters = jcs,
         rn_job_parameters = jps, rn_overriding_parameters = ov, rn_repair_history = rh, rn_created_clusters = cc,
         rn_parent_run_id = pr, rn_format = fm, rn_git_source = gs\<rparr>))))))))))))))))))))))"

definition run_ok :: "run \<Rightarrow> bool" where
  "run_ok r \<longleftrightarrow> list_all task_ok (rn_tasks r) \<and> not_null (rn_git_source r)"

lemma strs_of_back [simp]: "strs_of (jstrs xs) = Some xs"
  by (induction xs) (simp_all add: strs_of_def jstrs_def)

lemma tasks_back: "list_all task_ok ts \<Longrightarrow> tasks_of_json (JArr (map (\<lambda>t. JObj (task_fields t)) ts)) = Some ts"
  by (induction ts) (simp_all add: tasks_of_json_def task_roundtrip)

lemma tasks_corrupt: "\<not> list_all (\<lambda>t. plain_def (tr_task_def t)) ts \<Longrightarrow> tasks_of_json (JArr (map (\<lambda>t. JObj (task_fields t)) ts)) = None"
proof (induction ts)
  case (Cons t ts)
  then show ?case by (cases "task_of_json (JObj (task_fields t))") (auto simp: tasks_of_json_def task_double)
qed simp

lemma run_entries_get:
  "field_with f d (run_to_json r) k = (case map_of (run_entries (\<lambda>t. JObj (task_fields t)) r) k of None \<Rightarrow> d | Some v \<Rightarrow> f v)"
proof -
  have "distinct (map fst (run_entries (\<lambda>t. JObj (task_fields t)) r))"
    by (cases "rn_job_id r") (simp_all add: run_entries_def)
  then show ?thesis unfolding field_with_def run_to_json_def j_field_jobj by (simp add: map_of_rev_distinct)
qed

lemma run_roundtrip: "run_ok r \<Longrightarrow> run_of_json (run_to_json r) = Some r"
  by (cases "rn_job_id r"; cases "rn_parent_run_id r")
     (simp_all add: run_of_json_def run_entries_get run_entries_def run_ok_def tasks_back)

lemma run_corrupt:
  "\<not> list_all (\<lambda>t. plain_def (tr_task_def t)) (rn_tasks r) \<Longrightarrow> run_of_json (run_to_json r) = None"
  by (cases "rn_job_id r"; cases "rn_parent_run_id r")
     (simp_all add: run_of_json_def run_entries_get run_entries_def tasks_corrupt)

text \<open>\<open>Run::view\<close>: a value, where the entries of a definition override those of the task.\<close>

definition run_view :: "string \<Rightarrow> run \<Rightarrow> json" where
  "run_view public_url r =
     j_remove ''created_clusters'' (j_set ''run_page_url'' (JStr (page_url public_url r))
       (jobj (run_entries (\<lambda>t. jobj (task_fields t)) r)))"

section \<open>Jobs\<close>

definition job_to_json :: "job \<Rightarrow> json" where
  "job_to_json j = jobj
     [(''job_id'', JInt (jb_job_id j)), (''creator_user_name'', JStr (jb_creator j)),
      (''run_as_user_name'', JStr (jb_run_as j)), (''created_time'', JInt (jb_created_time j)),
      (''settings'', JObj (jb_settings j)),
      (''next_run_ms'', case jb_next_run_ms j of None \<Rightarrow> JNull | Some n \<Rightarrow> JInt n),
      (''trigger_state'', JObj (jb_trigger_state j))]"

definition job_of_json :: "json \<Rightarrow> job option" where
  "job_of_json v =
     Option.bind (field_with as_int None v ''job_id'') (\<lambda>i.
     Option.bind (field_with as_str None v ''creator_user_name'') (\<lambda>c.
     Option.bind (field_with as_str (Some []) v ''run_as_user_name'') (\<lambda>ra.
     Option.bind (field_with as_int None v ''created_time'') (\<lambda>ct.
     Option.bind (field_with as_object None v ''settings'') (\<lambda>s.
     Option.bind (field_with opt_int (Some None) v ''next_run_ms'') (\<lambda>nr.
     Option.bind (field_with as_object (Some []) v ''trigger_state'') (\<lambda>ts.
       Some \<lparr>jb_job_id = i, jb_creator = c, jb_run_as = ra, jb_created_time = ct, jb_settings = s,
         jb_next_run_ms = nr, jb_trigger_state = ts\<rparr>)))))))"

lemma job_roundtrip [simp]: "job_of_json (job_to_json j) = Some j"
  by (cases "jb_next_run_ms j") (simp_all add: job_of_json_def job_to_json_def field_with_def j_field_jobj)

end
