(* ===== verification/Jobs_Ops.thy ===== *)
theory Jobs_Ops
  imports Jobs_Docs Api_Store_Laws
begin

text \<open>
  The handlers and background operations of the Jobs API (\<open>lakeforge-api/src/api/jobs.rs\<close>) over the
  document store: creating, cancelling and repairing runs, the job and run endpoints and the
  scheduler tick. The state adds to the store the clock (read in order), the table of spawned runs,
  and the list of what is handed to other components, newest first.
\<close>

section \<open>State\<close>

definition KIND_JOB :: string where "KIND_JOB = ''job''"
definition KIND_RUN :: string where "KIND_RUN = ''job_run''"

datatype jevent = Spawned principal run nat | Aborted int | Cleaned run

record jobs_state =
  js_store :: store
  js_clock :: "nat \<Rightarrow> int"
  js_tick :: nat
  js_handles :: "int list"
  js_events :: "jevent list"

type_synonym 'a jm = "(jobs_state, 'a) handler"

definition jm_ask :: "(store \<Rightarrow> api_error + 'a) \<Rightarrow> 'a jm" where
  "jm_ask f js = (f (js_store js), js)"

definition jm_do :: "(store \<Rightarrow> (api_error + 'a) \<times> store) \<Rightarrow> 'a jm" where
  "jm_do f js = (case f (js_store js) of (r, s) \<Rightarrow> (r, js\<lparr>js_store := s\<rparr>))"

definition jm_now :: "int jm" where
  "jm_now js = (Inr (js_clock js (js_tick js)), js\<lparr>js_tick := Suc (js_tick js)\<rparr>)"

definition jm_event :: "jevent \<Rightarrow> unit jm" where
  "jm_event e js = (Inr (), js\<lparr>js_events := e # js_events js\<rparr>)"

definition jm_seq :: "string \<Rightarrow> int jm" where
  "jm_seq name = jm_do (\<lambda>s. case next_seq name s of (n, s') \<Rightarrow> (Inr n, s'))"

definition jm_kv_set :: "string \<Rightarrow> string \<Rightarrow> unit jm" where
  "jm_kv_set k v = jm_do (\<lambda>s. (Inr (), kv_set k v s))"

section \<open>Documents\<close>

definition get_job :: "int \<Rightarrow> job jm" where
  "get_job i = jm_ask (\<lambda>s. try_then (require_as job_of_json KIND_JOB (show_int i) ''Job'' s) (\<lambda>dj. Inr (snd dj)))"

definition save_job :: "job \<Rightarrow> unit jm" where
  "save_job j = h_then jm_now (\<lambda>now. jm_do (store_upsert now KIND_JOB workspace_id (show_int (jb_job_id j)) None
     (Option.bind (map_of (jb_settings j) ''name'') as_str) (job_to_json j)))"

definition get_run :: "int \<Rightarrow> run jm" where
  "get_run i = jm_ask (\<lambda>s. try_then (require_as run_of_json KIND_RUN (show_int i) ''Run'' s) (\<lambda>dr. Inr (snd dr)))"

definition store_run :: "run \<Rightarrow> unit jm" where
  "store_run r = h_then jm_now (\<lambda>now. jm_do (store_upsert now KIND_RUN workspace_id (show_int (rn_run_id r))
     (map_option show_int (rn_job_id r)) (Some (rn_run_name r)) (run_to_json r)))"

definition task_run_key :: "int \<Rightarrow> string" where
  "task_run_key i = ''task_run:'' @ show_int i"

fun position :: "('a \<Rightarrow> bool) \<Rightarrow> 'a list \<Rightarrow> nat option" where
  "position P [] = None"
| "position P (x # xs) = (if P x then Some 0 else map_option Suc (position P xs))"

definition only_task :: "int \<Rightarrow> (run \<times> nat) jm" where
  "only_task i = h_then (get_run i) (\<lambda>r.
     if length (rn_tasks r) = 1 then h_ret (r, 0)
     else h_fail (NotFound (''Run '' @ show_int i @ '' does not exist.'')))"

definition run_for_task :: "int \<Rightarrow> (run \<times> nat) jm" where
  "run_for_task i = h_then (jm_ask (\<lambda>s. Inr (kv_get (task_run_key i) s))) (\<lambda>v.
     case v of
       None \<Rightarrow> only_task i
     | Some rid \<Rightarrow>
         h_then (jm_ask (\<lambda>_. ok_or (InternalError ''bad task_run index'') (parse_i64 rid))) (\<lambda>n.
         h_then (get_run n) (\<lambda>r.
           case position (\<lambda>t. tr_run_id t = i) (rn_tasks r) of
             Some k \<Rightarrow> h_ret (r, k) | None \<Rightarrow> only_task i)))"

definition job_runs_filter :: "int \<Rightarrow> store_filter" where
  "job_runs_filter j = default_filter\<lparr>f_parent := Some (show_int j)\<rparr>"

definition runs_of :: "int \<Rightarrow> run list jm" where
  "runs_of j = jm_ask (\<lambda>s. try_then (list_as run_of_json KIND_RUN (job_runs_filter j) s) (\<lambda>ds. Inr (map snd ds)))"

definition active_runs :: "int \<Rightarrow> int jm" where
  "active_runs j = h_then (runs_of j) (\<lambda>rs. h_ret (int (length (filter (\<lambda>r. \<not> is_terminal (rn_state r)) rs))))"

section \<open>Creating runs\<close>

definition put_all :: "settings \<Rightarrow> settings \<Rightarrow> settings" where
  "put_all ps m = fold (\<lambda>(k, v). bt_insert k v) ps m"

text \<open>\<open>get_mut(k).and_then(as_object_mut)\<close>.\<close>

definition adjust_object :: "string \<Rightarrow> (settings \<Rightarrow> settings) \<Rightarrow> settings \<Rightarrow> settings" where
  "adjust_object k f m = adjust k (\<lambda>v. case v of JObj o' \<Rightarrow> JObj (f o') | _ \<Rightarrow> v) m"

definition add_notebook_params :: "settings \<Rightarrow> settings \<Rightarrow> settings" where
  "add_notebook_params ps def =
     (if ps = [] then def
      else adjust_object ''notebook_task'' (\<lambda>nb. adjust_object ''base_parameters'' (put_all ps)
             (or_insert ''base_parameters'' (JObj []) nb)) def)"

definition without :: "string list \<Rightarrow> settings \<Rightarrow> settings" where
  "without ks m = filter (\<lambda>kv. \<not> List.member ks (fst kv)) m"

definition new_task :: "settings \<Rightarrow> settings \<Rightarrow> string \<Rightarrow> int \<Rightarrow> task_run" where
  "new_task notebook_params def key trid = \<lparr>tr_run_id = trid, tr_task_key = key,
     tr_depends_on = or_default [] (Option.bind (map_of def ''depends_on'') as_array),
     tr_run_if = Option.bind (map_of def ''run_if'') as_str, tr_state = rs_pending, tr_start_time = 0, tr_end_time = 0,
     tr_setup_duration = 0, tr_execution_duration = 0, tr_cleanup_duration = 0, tr_attempt_number = 0,
     tr_cluster_instance = None,
     tr_task_def = add_notebook_params notebook_params (without [''task_key'', ''depends_on'', ''run_if''] def), tr_output = None\<rparr>"

fun create_tasks :: "int \<Rightarrow> settings \<Rightarrow> json list \<Rightarrow> task_run list jm" where
  "create_tasks run_id nps [] = h_ret []"
| "create_tasks run_id nps (t # ts) =
     (let def = or_default [] (as_object t) in
      case Option.bind (map_of def ''task_key'') as_str of
        None \<Rightarrow> h_fail (InvalidParameter ''task_key is required for every task'')
      | Some key \<Rightarrow>
          h_then (jm_seq ''run_id'') (\<lambda>trid.
          h_then (jm_kv_set (task_run_key trid) (show_int run_id)) (\<lambda>_.
          h_then (create_tasks run_id nps ts) (\<lambda>rest. h_ret (new_task nps def key trid # rest)))))"

definition new_run ::
  "principal \<Rightarrow> job option \<Rightarrow> settings \<Rightarrow> string \<Rightarrow> string \<Rightarrow> settings \<Rightarrow> settings \<Rightarrow> int option \<Rightarrow>
   int \<Rightarrow> int \<Rightarrow> int \<Rightarrow> task_run list \<Rightarrow> run"
where
  "new_run p job settings trigger run_type overrides nps parent run_id num now tasks =
     \<lparr>rn_run_id = run_id, rn_job_id = map_option jb_job_id job,
      rn_run_name = or_default ''Untitled''
        (Option.bind (or_else (map_of settings ''run_name'') (map_of settings ''name'')) as_str),
      rn_number_in_job = num, rn_creator = p_user_name p, rn_state = rs_pending, rn_start_time = now, rn_end_time = 0,
      rn_setup_duration = 0, rn_execution_duration = 0, rn_cleanup_duration = 0, rn_trigger = trigger, rn_run_type = run_type,
      rn_tasks = tasks, rn_job_clusters = or_default [] (Option.bind (map_of settings ''job_clusters'') as_array),
      rn_job_parameters = params_from_settings settings overrides,
      rn_overriding_parameters = jobj [(''job_parameters'', JObj overrides), (''notebook_params'', JObj nps)],
      rn_repair_history = [], rn_created_clusters = [], rn_parent_run_id = parent,
      rn_format = or_default ''MULTI_TASK'' (Option.bind (map_of settings ''format'') as_str),
      rn_git_source = map_of settings ''git_source''\<rparr>"

definition job_number :: "job option \<Rightarrow> int jm" where
  "job_number job = (case job of Some j \<Rightarrow> jm_seq (''job_runs:'' @ show_int (jb_job_id j)) | None \<Rightarrow> h_ret 1)"

definition create_run ::
  "principal \<Rightarrow> job option \<Rightarrow> settings \<Rightarrow> string \<Rightarrow> string \<Rightarrow> settings \<Rightarrow> settings \<Rightarrow> int option \<Rightarrow> run jm"
where
  "create_run p job settings trigger run_type overrides nps parent =
     h_then (jm_seq ''run_id'') (\<lambda>run_id.
       let defs = or_default [] (Option.bind (map_of settings ''tasks'') as_array) in
       if defs = [] then h_fail (InvalidParameter ''At least one task is required.'')
       else h_then (create_tasks run_id nps defs) (\<lambda>tasks.
            h_then (job_number job) (\<lambda>num.
            h_then jm_now (\<lambda>now.
              let r = new_run p job settings trigger run_type overrides nps parent run_id num now tasks
              in h_then (store_run r) (\<lambda>_. h_ret r)))))"

definition spawn_run :: "principal \<Rightarrow> run \<Rightarrow> nat \<Rightarrow> unit jm" where
  "spawn_run p r timeout js =
     (Inr (), js\<lparr>js_events := Spawned p r timeout # js_events js, js_handles := List.insert (rn_run_id r) (js_handles js)\<rparr>)"

definition as_u64 :: "json \<Rightarrow> nat option" where
  "as_u64 v = Option.bind (as_int v) (\<lambda>n. if n < 0 then None else Some (nat n))"

definition timeout_of :: "settings \<Rightarrow> nat" where
  "timeout_of s = or_default 0 (Option.bind (map_of s ''timeout_seconds'') as_u64)"

definition max_concurrent :: "settings \<Rightarrow> int" where
  "max_concurrent s = max 1 (or_default 1 (Option.bind (map_of s ''max_concurrent_runs'') as_int))"

end
