(* ===== verification/Jobs_Handlers.thy ===== *)
theory Jobs_Handlers
  imports Jobs_Ops
begin

text \<open>
  The job endpoints, the run endpoints, cancelling, repairing and the scheduler tick
  (\<open>lakeforge-api/src/api/jobs.rs\<close>). Cron expressions, the listing of a watched path, the label of an
  unnamed run and the principal of a scheduled job are arguments.
\<close>

section \<open>Cancelling\<close>

definition cancelled :: run_state where
  "cancelled = rs_terminated ''CANCELED'' ''Cancelled by user''"

fun cancel_tasks :: "task_run list \<Rightarrow> task_run list jm" where
  "cancel_tasks [] = h_ret []"
| "cancel_tasks (t # ts) =
     (if is_terminal (tr_state t) then h_then (cancel_tasks ts) (\<lambda>us. h_ret (t # us))
      else h_then jm_now (\<lambda>now. h_then (cancel_tasks ts) (\<lambda>us.
             h_ret (t\<lparr>tr_state := cancelled, tr_end_time := now\<rparr> # us))))"

definition abort_run :: "int \<Rightarrow> unit jm" where
  "abort_run i js =
     (if List.member (js_handles js) i
      then (Inr (), js\<lparr>js_handles := removeAll i (js_handles js), js_events := Aborted i # js_events js\<rparr>)
      else (Inr (), js))"

definition cancel_run :: "int \<Rightarrow> unit jm" where
  "cancel_run i = h_then (get_run i) (\<lambda>r.
     if is_terminal (rn_state r) then h_ret ()
     else h_then (abort_run i) (\<lambda>_.
          h_then (cancel_tasks (rn_tasks r)) (\<lambda>ts.
          h_then jm_now (\<lambda>now.
            let r' = r\<lparr>rn_tasks := ts, rn_state := cancelled, rn_end_time := now\<rparr>
            in h_then (store_run r') (\<lambda>_. jm_event (Cleaned r'))))))"

definition on_not_found :: "'a jm \<Rightarrow> 'a jm \<Rightarrow> 'a jm" where
  "on_not_found m h js = (case m js of (Inl (NotFound _), js') \<Rightarrow> h js' | r \<Rightarrow> r)"

definition empty_json :: json where
  "empty_json = jobj []"

definition cancel_h :: "int \<Rightarrow> json jm" where
  "cancel_h i = on_not_found (h_then (cancel_run i) (\<lambda>_. h_ret empty_json))
     (h_then (run_for_task i) (\<lambda>(r, _). h_then (cancel_run (rn_run_id r)) (\<lambda>_. h_ret empty_json)))"

definition cancel_all :: "int \<Rightarrow> json jm" where
  "cancel_all j = h_then (runs_of j) (\<lambda>rs.
     h_then (h_each (\<lambda>r. if is_terminal (rn_state r) then h_ret () else cancel_run (rn_run_id r)) rs)
       (\<lambda>_. h_ret empty_json))"

definition delete_run :: "int \<Rightarrow> json jm" where
  "delete_run i = h_then (get_run i) (\<lambda>r.
     if \<not> is_terminal (rn_state r) then h_fail (InvalidState ''Cannot delete an active run; cancel it first.'')
     else h_then (jm_do (\<lambda>s. (Inr (), fold (\<lambda>t. kv_delete (task_run_key (tr_run_id t))) (rn_tasks r) s))) (\<lambda>_.
          h_then (jm_do (\<lambda>s. (Inr (), snd (store_delete KIND_RUN (show_int i) s)))) (\<lambda>_. h_ret empty_json)))"

section \<open>Jobs\<close>

definition create_job :: "(string \<Rightarrow> string + unit) \<Rightarrow> principal \<Rightarrow> settings \<Rightarrow> json jm" where
  "create_job cron p settings =
     h_then (jm_ask (\<lambda>_. validate_settings cron (without [''access_control_list''] settings))) (\<lambda>s0.
       let s = or_insert ''max_concurrent_runs'' (JInt 1) (or_insert ''format'' (JStr ''MULTI_TASK'')
                 (or_insert ''name'' (JStr ''Untitled'') s0)) in
       h_then (jm_seq ''job_id'') (\<lambda>i.
       h_then jm_now (\<lambda>now.
         let j = \<lparr>jb_job_id = i, jb_creator = p_user_name p,
                  jb_run_as = or_default (p_user_name p) (Option.bind (map_of s ''run_as'') (\<lambda>r. as_str (j_get r ''user_name''))),
                  jb_created_time = now, jb_settings = s, jb_next_run_ms = None, jb_trigger_state = []\<rparr> in
         h_then jm_now (\<lambda>now'.
         h_then (jm_do (store_insert now' KIND_JOB workspace_id (show_int i) None
           (Option.bind (map_of s ''name'') as_str) (job_to_json j))) (\<lambda>_.
         h_then (case map_of settings ''access_control_list'' of
             None \<Rightarrow> h_ret ()
           | Some acl \<Rightarrow> h_then jm_now (\<lambda>n1. h_then jm_now (\<lambda>n2.
               h_try (jm_do (set_permissions n1 n2 ''jobs'' (show_int i) acl (p_user_name p)))))) (\<lambda>_.
           h_ret (jobj [(''job_id'', JInt i)])))))))"

definition job_view :: "job \<Rightarrow> bool \<Rightarrow> json" where
  "job_view j expand =
     (let s = (if expand then jb_settings j else without [''tasks'', ''job_clusters''] (jb_settings j));
          v = jobj [(''job_id'', JInt (jb_job_id j)), (''creator_user_name'', JStr (jb_creator j)),
                (''run_as_user_name'', JStr (jb_run_as j)), (''created_time'', JInt (jb_created_time j)), (''settings'', JObj s)]
      in case jb_next_run_ms j of None \<Rightarrow> v | Some n \<Rightarrow> j_set ''next_run_ms'' (JInt n) v)"

definition clamp :: "int \<Rightarrow> int \<Rightarrow> int \<Rightarrow> int" where
  "clamp lo hi n = (if n < lo then lo else if hi < n then hi else n)"

definition page_limit :: "int option \<Rightarrow> int" where
  "page_limit l = clamp 1 100 (or_default 20 l)"

definition page_offset :: "string option \<Rightarrow> int option \<Rightarrow> int" where
  "page_offset tok off = or_default 0 (or_else (Option.bind tok parse_i64) off)"

text \<open>\<open>offset as usize\<close> of a negative number is beyond every list.\<close>

definition page_of :: "int \<Rightarrow> int \<Rightarrow> 'a list \<Rightarrow> 'a list" where
  "page_of off lim xs = (if off < 0 then [] else take (nat lim) (drop (nat off) xs))"

definition list_jobs :: "int option \<Rightarrow> int option \<Rightarrow> string option \<Rightarrow> bool option \<Rightarrow> string option \<Rightarrow> json jm" where
  "list_jobs limit offset name expand tok =
     (let lim = page_limit limit; off = page_offset tok offset in
      h_then (jm_ask (\<lambda>s. list_as job_of_json KIND_JOB (default_filter\<lparr>f_name := name\<rparr>) s)) (\<lambda>ds.
        let jobs = sort_key jb_job_id (map snd ds); total = int (length jobs); more = off + lim < total;
            v = jobj [(''jobs'', JArr (map (\<lambda>j. job_view j (or_default False expand)) (page_of off lim jobs))), (''has_more'', JBool more)];
            v1 = (if more then j_set ''next_page_token'' (JStr (show_int (off + lim))) v else v)
        in h_ret (if 0 < off then j_set ''prev_page_token'' (JStr (show_int (max 0 (off - lim)))) v1 else v1)))"

definition get_job_h :: "int \<Rightarrow> json jm" where
  "get_job_h i = h_then (get_job i) (\<lambda>j. h_ret (job_view j True))"

definition reset_job :: "(string \<Rightarrow> string + unit) \<Rightarrow> int \<Rightarrow> settings \<Rightarrow> json jm" where
  "reset_job cron i new_settings =
     h_then (jm_ask (\<lambda>_. validate_settings cron new_settings)) (\<lambda>s.
     h_then (get_job i) (\<lambda>j.
     h_then (save_job (j\<lparr>jb_settings := s, jb_next_run_ms := None\<rparr>)) (\<lambda>_. h_ret empty_json)))"

definition update_job :: "(string \<Rightarrow> string + unit) \<Rightarrow> int \<Rightarrow> settings \<Rightarrow> string list \<Rightarrow> json jm" where
  "update_job cron i new_settings removed =
     h_then (get_job i) (\<lambda>j.
     h_then (jm_ask (\<lambda>_. update_settings cron new_settings removed (jb_settings j))) (\<lambda>s.
     h_then (save_job (j\<lparr>jb_settings := s, jb_next_run_ms := None\<rparr>)) (\<lambda>_. h_ret empty_json)))"

definition delete_job :: "int \<Rightarrow> json jm" where
  "delete_job i = h_then (get_job i) (\<lambda>_. h_then (runs_of i) (\<lambda>rs.
     h_then (h_each (\<lambda>r. h_try (cancel_run (rn_run_id r))) rs) (\<lambda>_.
     h_then (jm_do (\<lambda>s. (Inr (), snd (store_delete KIND_JOB (show_int i) s)))) (\<lambda>_. h_ret empty_json))))"

section \<open>Starting runs\<close>

definition set_python_params :: "json list \<Rightarrow> settings \<Rightarrow> settings" where
  "set_python_params ps s =
     (if ps = [] then s
      else adjust ''tasks'' (\<lambda>v. case v of
          JArr ts \<Rightarrow> JArr (map (\<lambda>t. case t of
            JObj def \<Rightarrow> JObj (adjust ''spark_python_task'' (j_set ''parameters'' (JArr ps)) def) | _ \<Rightarrow> t) ts)
        | _ \<Rightarrow> v) s)"

definition run_reply :: "run \<Rightarrow> json" where
  "run_reply r = jobj [(''run_id'', JInt (rn_run_id r)), (''number_in_job'', JInt (rn_number_in_job r))]"

definition idem_key :: "int \<Rightarrow> string \<Rightarrow> string" where
  "idem_key j tok = ''idem:'' @ show_int j @ '':'' @ tok"

definition remember :: "(string \<Rightarrow> string) \<Rightarrow> string option \<Rightarrow> int \<Rightarrow> unit jm" where
  "remember key tok i = (case tok of None \<Rightarrow> h_ret () | Some t \<Rightarrow> jm_kv_set (key t) (show_int i))"

definition seen_token :: "(string \<Rightarrow> string) \<Rightarrow> string option \<Rightarrow> string option jm" where
  "seen_token key tok = jm_ask (\<lambda>s. Inr (Option.bind tok (\<lambda>t. kv_get (key t) s)))"

definition fresh_run_now :: "principal \<Rightarrow> int \<Rightarrow> settings \<Rightarrow> settings \<Rightarrow> json list \<Rightarrow> string option \<Rightarrow> json jm" where
  "fresh_run_now p i job_params nps python_params tok =
     h_then (get_job i) (\<lambda>j.
     h_then (active_runs (jb_job_id j)) (\<lambda>active.
       if max_concurrent (jb_settings j) \<le> active
       then h_fail (InvalidState (''Job '' @ show_int (jb_job_id j) @ '' already has '' @ show_int active @
              '' active run(s); max_concurrent_runs='' @ show_int (max_concurrent (jb_settings j))))
       else h_then (create_run p (Some j) (set_python_params python_params (jb_settings j)) ''ONE_TIME'' ''JOB_RUN''
              job_params nps None) (\<lambda>r.
            h_then (remember (idem_key i) tok (rn_run_id r)) (\<lambda>_.
            h_then (spawn_run p r (timeout_of (jb_settings j))) (\<lambda>_. h_ret (run_reply r))))))"

definition run_now :: "principal \<Rightarrow> int \<Rightarrow> settings \<Rightarrow> settings \<Rightarrow> json list \<Rightarrow> string option \<Rightarrow> json jm" where
  "run_now p i job_params nps python_params tok =
     h_then (seen_token (idem_key i) tok) (\<lambda>seen.
       case seen of
         Some e \<Rightarrow> h_then (get_run (or_default 0 (parse_i64 e))) (\<lambda>r. h_ret (run_reply r))
       | None \<Rightarrow> fresh_run_now p i job_params nps python_params tok)"

definition single_task_keys :: "string list" where
  "single_task_keys = [''notebook_task'', ''spark_python_task'', ''sql_task'', ''pipeline_task'', ''spark_jar_task'',
     ''python_wheel_task'', ''existing_cluster_id'', ''new_cluster'', ''timeout_seconds'', ''libraries'']"

definition single_task :: "settings \<Rightarrow> settings" where
  "single_task b =
     (if map_of b ''tasks'' \<noteq> None then b
      else bt_insert ''tasks'' (JArr [jobj ((''task_key'', JStr ''main'') #
             filter_map (\<lambda>k. map_option (Pair k) (map_of b k)) single_task_keys)]) (without single_task_keys b))"

definition submit_key :: "string \<Rightarrow> string" where
  "submit_key tok = ''idem:submit:'' @ tok"

definition submit :: "(string \<Rightarrow> string + unit) \<Rightarrow> string \<Rightarrow> principal \<Rightarrow> settings \<Rightarrow> json jm" where
  "submit cron label p b =
     (let tok = Option.bind (map_of b ''idempotency_token'') as_str in
      h_then (seen_token submit_key tok) (\<lambda>seen.
        case seen of
          Some e \<Rightarrow> h_ret (jobj [(''run_id'', JInt (or_default 0 (parse_i64 e)))])
        | None \<Rightarrow>
            h_then (jm_ask (\<lambda>_. validate_settings cron (single_task b))) (\<lambda>s0.
              let s = or_insert ''run_name'' (JStr label) s0 in
              h_then (create_run p None s ''ONE_TIME'' ''SUBMIT_RUN'' [] [] None) (\<lambda>r.
              h_then (remember submit_key (Option.bind (map_of s ''idempotency_token'') as_str) (rn_run_id r)) (\<lambda>_.
              h_then (spawn_run p r (timeout_of s)) (\<lambda>_. h_ret (jobj [(''run_id'', JInt (rn_run_id r))])))))))"

end
