(* ===== verification/Jobs_Repair.thy ===== *)
theory Jobs_Repair
  imports Jobs_Handlers
begin

text \<open>
  The rest of the Jobs API (\<open>lakeforge-api/src/api/jobs.rs\<close>): repairing a run with the closure of the
  tasks to rerun, reading runs, and the scheduler tick.
\<close>

section \<open>Repair\<close>

definition depends_on_any :: "string list \<Rightarrow> task_run \<Rightarrow> bool" where
  "depends_on_any rerun t \<longleftrightarrow> list_ex (List.member rerun) (dep_keys (tr_depends_on t))"

text \<open>One pass of the loop over the tasks; the flag is \<open>changed\<close>.\<close>

fun rerun_pass :: "task_run list \<Rightarrow> string list \<Rightarrow> bool \<Rightarrow> string list \<times> bool" where
  "rerun_pass [] rerun changed = (rerun, changed)"
| "rerun_pass (t # ts) rerun changed =
     (if \<not> List.member rerun (tr_task_key t) \<and> depends_on_any rerun t
      then rerun_pass ts (tr_task_key t # rerun) True
      else rerun_pass ts rerun changed)"

lemma pass_mono: "rerun_pass ts R c = (R', c') \<Longrightarrow> set R \<subseteq> set R' \<and> set R' \<subseteq> set R \<union> tr_task_key ` set ts \<and> (c \<longrightarrow> c')"
  by (induction ts arbitrary: R c) (fastforce split: if_splits)+

lemma pass_grows: "rerun_pass ts R False = (R', True) \<Longrightarrow> set R \<subset> set R'"
proof (induction ts arbitrary: R)
  case (Cons t ts)
  show ?case
  proof (cases "\<not> List.member R (tr_task_key t) \<and> depends_on_any R t")
    case True
    with Cons.prems have "rerun_pass ts (tr_task_key t # R) True = (R', True)" by simp
    from pass_mono [OF this] True show ?thesis by auto
  next
    case False
    with Cons.prems have "rerun_pass ts R False = (R', True)" by (auto split: if_splits)
    then show ?thesis by (rule Cons.IH)
  qed
qed simp

lemma pass_fixed: "rerun_pass ts R False = (R', False) \<Longrightarrow> R' = R \<and> (\<forall>t \<in> set ts. depends_on_any R t \<longrightarrow> tr_task_key t \<in> set R)"
proof (induction ts)
  case (Cons t ts)
  have "\<not> (\<not> List.member R (tr_task_key t) \<and> depends_on_any R t)"
    using Cons.prems pass_mono [of ts "tr_task_key t # R" True R' False] by auto
  with Cons show ?case by auto
qed simp

definition missing_keys :: "task_run list \<Rightarrow> string list \<Rightarrow> nat" where
  "missing_keys ts R = card (tr_task_key ` set ts - set R)"

lemma missing_less:
  assumes "rerun_pass ts R False = (R', True)"
  shows "missing_keys ts R' < missing_keys ts R"
proof -
  have "tr_task_key ` set ts - set R' \<subset> tr_task_key ` set ts - set R"
    using pass_grows [OF assms] pass_mono [OF assms] by auto
  then show ?thesis unfolding missing_keys_def by (intro psubset_card_mono) auto
qed

function rerun_closure :: "task_run list \<Rightarrow> string list \<Rightarrow> string list" where
  "rerun_closure ts R = (case rerun_pass ts R False of (R', changed) \<Rightarrow> if changed then rerun_closure ts R' else R')"
  by pat_completeness auto
termination
  by (relation "measure (\<lambda>(ts, R). missing_keys ts R)") (auto intro: missing_less)

declare rerun_closure.simps [simp del]

definition rerun_set :: "run \<Rightarrow> string list \<Rightarrow> bool \<Rightarrow> bool \<Rightarrow> string list" where
  "rerun_set r rerun_tasks all_failed dependents =
     (let R0 = remdups rerun_tasks;
          R1 = (if all_failed then remdups (R0 @ map tr_task_key (filter (\<lambda>t. \<not> succeeded (tr_state t)) (rn_tasks r))) else R0)
      in if dependents then rerun_closure (rn_tasks r) R1 else R1)"

definition reset_task :: "settings \<Rightarrow> task_run \<Rightarrow> task_run" where
  "reset_task nps t = t\<lparr>tr_state := rs_pending, tr_output := None, tr_end_time := 0,
     tr_task_def := add_notebook_params nps (tr_task_def t)\<rparr>"

definition override_parameter :: "settings \<Rightarrow> json \<Rightarrow> json" where
  "override_parameter job_params p =
     (case Option.bind (as_str (j_get p ''name'')) (map_of job_params) of None \<Rightarrow> p | Some v \<Rightarrow> j_set ''value'' v p)"

definition repaired_run :: "string list \<Rightarrow> settings \<Rightarrow> settings \<Rightarrow> int \<Rightarrow> int \<Rightarrow> run \<Rightarrow> run" where
  "repaired_run rerun job_params nps repair_id now r =
     r\<lparr>rn_tasks := map (\<lambda>t. if List.member rerun (tr_task_key t) then reset_task nps t else t) (rn_tasks r),
       rn_job_parameters := map (override_parameter job_params) (rn_job_parameters r),
       rn_repair_history := rn_repair_history r @ [jobj [(''id'', JInt repair_id), (''type'', JStr ''REPAIR''), (''start_time'', JInt now),
         (''state'', jobj [(''life_cycle_state'', JStr ''RUNNING'')]),
         (''task_run_ids'', JArr (map (\<lambda>t. JInt (tr_run_id t)) (filter (\<lambda>t. List.member rerun (tr_task_key t)) (rn_tasks r))))]],
       rn_state := rs_pending, rn_end_time := 0\<rparr>"

definition job_timeout :: "int option \<Rightarrow> nat jm" where
  "job_timeout job js =
     (case job of
        None \<Rightarrow> (Inr 0, js)
      | Some i \<Rightarrow> (case get_job i js of (Inl _, js') \<Rightarrow> (Inr 0, js') | (Inr j, js') \<Rightarrow> (Inr (timeout_of (jb_settings j)), js')))"

definition repair :: "principal \<Rightarrow> int \<Rightarrow> string list \<Rightarrow> bool \<Rightarrow> bool \<Rightarrow> settings \<Rightarrow> settings \<Rightarrow> json jm" where
  "repair p i rerun_tasks all_failed dependents job_params nps =
     h_then (get_run i) (\<lambda>r.
       if \<not> is_terminal (rn_state r) then h_fail (InvalidState ''Run is still active'')
       else let rerun = rerun_set r rerun_tasks all_failed dependents in
         if rerun = [] then h_fail (InvalidParameter ''Nothing to repair: specify rerun_tasks or rerun_all_failed_tasks'')
         else h_then (jm_seq ''repair_id'') (\<lambda>repair_id.
              h_then jm_now (\<lambda>now.
                let r' = repaired_run rerun job_params nps repair_id now r in
                h_then (store_run r') (\<lambda>_.
                h_then (job_timeout (rn_job_id r')) (\<lambda>timeout.
                h_then (spawn_run p r' timeout) (\<lambda>_. h_ret (jobj [(''repair_id'', JInt repair_id)])))))))"

section \<open>Reading runs\<close>

record runs_query =
  rq_job_id :: "int option"
  rq_active_only :: "bool option"
  rq_completed_only :: "bool option"
  rq_limit :: "int option"
  rq_offset :: "int option"
  rq_page_token :: "string option"
  rq_run_type :: "string option"
  rq_expand_tasks :: "bool option"
  rq_from :: "int option"
  rq_to :: "int option"

definition run_matches :: "runs_query \<Rightarrow> run \<Rightarrow> bool" where
  "run_matches q r \<longleftrightarrow>
     (\<not> or_default False (rq_active_only q) \<or> \<not> is_terminal (rn_state r)) \<and>
     (\<not> or_default False (rq_completed_only q) \<or> is_terminal (rn_state r)) \<and>
     (case rq_run_type q of None \<Rightarrow> True | Some t \<Rightarrow> t = rn_run_type r) \<and>
     (case rq_from q of None \<Rightarrow> True | Some t \<Rightarrow> t \<le> rn_start_time r) \<and>
     (case rq_to q of None \<Rightarrow> True | Some t \<Rightarrow> rn_start_time r \<le> t)"

definition list_runs :: "string \<Rightarrow> runs_query \<Rightarrow> json jm" where
  "list_runs public_url q =
     (let lim = page_limit (rq_limit q); off = page_offset (rq_page_token q) (rq_offset q);
          f = (case rq_job_id q of None \<Rightarrow> default_filter | Some j \<Rightarrow> job_runs_filter j) in
      h_then (jm_ask (list_as run_of_json KIND_RUN f)) (\<lambda>ds.
        let rs = sort_key (\<lambda>r. - rn_start_time r) (filter (run_matches q) (map snd ds));
            total = int (length rs); more = off + lim < total;
            view = (\<lambda>r. if or_default False (rq_expand_tasks q) then run_view public_url r
                        else j_remove ''job_clusters'' (j_remove ''tasks'' (run_view public_url r)));
            v = jobj [(''runs'', JArr (map view (page_of off lim rs))), (''has_more'', JBool more)]
        in h_ret (if more then j_set ''next_page_token'' (JStr (show_int (off + lim))) v else v)))"

definition get_run_h :: "string \<Rightarrow> int \<Rightarrow> json jm" where
  "get_run_h public_url i = on_not_found (h_then (get_run i) (\<lambda>r. h_ret (run_view public_url r)))
     (h_then (run_for_task i) (\<lambda>(r, k). h_ret
        (j_set ''run_page_url'' (JStr (page_url public_url r)) (j_set ''parent_run_id'' (JInt (rn_run_id r))
          (j_set ''job_id'' (case rn_job_id r of None \<Rightarrow> JNull | Some j \<Rightarrow> JInt j)
            (jobj (task_fields (rn_tasks r ! k))))))))"

definition get_output :: "string \<Rightarrow> int \<Rightarrow> json jm" where
  "get_output public_url i = h_then (run_for_task i) (\<lambda>(r, k).
     let t = rn_tasks r ! k;
         meta = j_set ''task'' (jobj [(''task_key'', JStr (tr_task_key t)), (''state'', state_to_json (tr_state t)),
             (''run_id'', JInt (tr_run_id t)), (''attempt_number'', JInt (uint (tr_attempt_number t))),
             (''cluster_instance'', or_default JNull (tr_cluster_instance t))]) (j_remove ''tasks'' (run_view public_url r));
         v = or_default empty_json (tr_output t);
         v1 = (if j_field v ''error'' = None \<and> \<not> succeeded (tr_state t)
               then j_set ''error'' (JStr (state_message (tr_state t))) v else v)
     in if \<not> is_terminal (tr_state t)
        then h_fail (InvalidState (''Run '' @ show_int i @ '' is still '' @ life_cycle_state (tr_state t)))
        else h_ret (j_set ''metadata'' meta v1))"

section \<open>The scheduler tick\<close>

record tick_env =
  te_next_fire :: "string \<Rightarrow> string \<Rightarrow> int option"
  te_newest :: "string \<Rightarrow> int option"
  te_system :: "string \<Rightarrow> store \<Rightarrow> principal"

definition start_scheduled :: "tick_env \<Rightarrow> job \<Rightarrow> string \<Rightarrow> nat \<Rightarrow> unit jm" where
  "start_scheduled te j trigger timeout =
     h_then (jm_ask (\<lambda>s. Inr (te_system te (jb_run_as j) s))) (\<lambda>admin.
     h_then (create_run admin (Some j) (jb_settings j) trigger ''JOB_RUN'' [] [] None) (\<lambda>r. spawn_run admin r timeout))"

definition tick_schedule :: "tick_env \<Rightarrow> int \<Rightarrow> int \<Rightarrow> job \<Rightarrow> job jm" where
  "tick_schedule te now active j =
     (case map_of (jb_settings j) ''schedule'' of
        None \<Rightarrow> h_ret j
      | Some sch \<Rightarrow>
          (let nxt = te_next_fire te (or_default [] (as_str (j_get sch ''quartz_cron_expression'')))
                       (or_default ''UTC'' (as_str (j_get sch ''timezone_id'')));
               j' = j\<lparr>jb_next_run_ms := nxt\<rparr>
           in case jb_next_run_ms j of
                None \<Rightarrow> h_then (save_job j') (\<lambda>_. h_ret j')
              | Some t \<Rightarrow>
                  (if t \<le> now then h_then (save_job j') (\<lambda>_.
                     if active < max_concurrent (jb_settings j)
                     then h_then (start_scheduled te j' ''PERIODIC'' (timeout_of (jb_settings j))) (\<lambda>_. h_ret j')
                     else h_ret j')
                   else h_ret j)))"

definition tick_continuous :: "tick_env \<Rightarrow> int \<Rightarrow> job \<Rightarrow> unit jm" where
  "tick_continuous te active j =
     (if map_of (jb_settings j) ''continuous'' \<noteq> None \<and> active = 0 then start_scheduled te j ''CONTINUOUS'' 0 else h_ret ())"

definition tick_file_arrival :: "tick_env \<Rightarrow> int \<Rightarrow> int \<Rightarrow> job \<Rightarrow> unit jm" where
  "tick_file_arrival te now active j =
     (case Option.bind (map_of (jb_settings j) ''trigger'') (\<lambda>t. j_field t ''file_arrival'') of
        None \<Rightarrow> h_ret ()
      | Some fa \<Rightarrow>
          (let min_gap = or_default 0 (as_int (j_get fa ''min_time_between_triggers_seconds'')) * 1000;
               last_fired = or_default 0 (Option.bind (map_of (jb_trigger_state j) ''last_fired_ms'') as_int);
               seen = Option.bind (map_of (jb_trigger_state j) ''last_seen_ms'') as_int
           in case te_newest te (or_default [] (as_str (j_get fa ''url''))) of
                None \<Rightarrow> h_ret ()
              | Some newest \<Rightarrow>
                  (let mark = bt_insert ''last_seen_ms'' (JInt newest) (jb_trigger_state j) in
                   case seen of
                     None \<Rightarrow> save_job (j\<lparr>jb_trigger_state := mark\<rparr>)
                   | Some s \<Rightarrow>
                       (if s < newest \<and> min_gap \<le> now - last_fired
                        then (let j' = j\<lparr>jb_trigger_state := bt_insert ''last_fired_ms'' (JInt now) mark\<rparr>
                              in h_then (save_job j') (\<lambda>_.
                                   if active < max_concurrent (jb_settings j) then start_scheduled te j' ''FILE_ARRIVAL'' 0
                                   else h_ret ()))
                        else h_ret ()))))"

definition tick_job :: "tick_env \<Rightarrow> int \<Rightarrow> job \<Rightarrow> unit jm" where
  "tick_job te now j =
     (if is_paused (jb_settings j) then h_ret ()
      else h_then (active_runs (jb_job_id j)) (\<lambda>active.
           h_then (tick_schedule te now active j) (\<lambda>j'.
           h_then (tick_continuous te active j') (\<lambda>_. tick_file_arrival te now active j'))))"

definition tick_jobs :: "tick_env \<Rightarrow> unit jm" where
  "tick_jobs te =
     h_then (jm_ask (list_as job_of_json KIND_JOB default_filter)) (\<lambda>ds.
     h_then jm_now (\<lambda>now. h_each (tick_job te now) (map snd ds)))"

end
