(* ===== verification/Jobs_Runner_Theorems.thy ===== *)
theory Jobs_Runner_Theorems
  imports Jobs_Runner "HOL-Library.Multiset"
begin

text \<open>
  The DAG runner ends after at most one round per task, with every task in a final state; a task is
  started only when all its dependencies have finished, with the condition its \<open>run_if\<close> names true
  of their results.
\<close>

section \<open>What the helpers touch\<close>

abbreviation tasks_of :: "runner \<Rightarrow> task_run list" where
  "tasks_of rs \<equiv> rn_tasks (rs_run rs)"

lemma helper_tasks [simp]:
  "tasks_of (tick rs) = tasks_of rs" "tasks_of (save_run rs) = tasks_of rs"
  "tasks_of (mark_done k s rs) = tasks_of rs" "tasks_of (add_created c rs) = tasks_of rs"
  "tasks_of (rs\<lparr>rs_clusters := cs\<rparr>) = tasks_of rs" "tasks_of (rs\<lparr>rs_timed_out := b\<rparr>) = tasks_of rs"
  "tasks_of (note_created i oc rs) = tasks_of rs"
  by (simp_all add: tick_def save_run_def mark_done_def add_created_def map_run_def note_created_def split: option.split)

lemma helper_done [simp]:
  "rs_done (tick rs) = rs_done rs" "rs_done (save_run rs) = rs_done rs" "rs_done (add_created c rs) = rs_done rs"
  "rs_done (set_task i f rs) = rs_done rs" "rs_done (note_created i oc rs) = rs_done rs"
  "rs_done (mark_done k s rs) = AList.update k s (rs_done rs)"
  by (simp_all add: tick_def save_run_def add_created_def map_run_def note_created_def set_task_def mark_done_def
      split: option.split)

lemma tasks_set_task [simp]:
  "tasks_of (set_task i f rs) = (if i < length (tasks_of rs) then (tasks_of rs)[i := f (tasks_of rs ! i)] else tasks_of rs)"
  by (simp add: set_task_def map_run_def)

lemma pick_cluster_frame:
  "pick_cluster env i rs = (x, rs') \<Longrightarrow> tasks_of rs' = tasks_of rs \<and> rs_done rs' = rs_done rs"
  by (auto simp: pick_cluster_def create_named_def Let_def split: option.splits sum.splits prod.splits)

lemma ensure_cluster_frame:
  "ensure_cluster env i rs = (x, rs') \<Longrightarrow> tasks_of rs' = tasks_of rs \<and> rs_done rs' = rs_done rs"
  by (auto simp: ensure_cluster_def split: option.splits sum.splits prod.splits if_splits dest: pick_cluster_frame)

text \<open>The tasks outside \<open>is\<close> keep their record, every task its key, dependencies, condition and settings.\<close>

definition same_def :: "task_run \<Rightarrow> task_run \<Rightarrow> bool" where
  "same_def t t' \<longleftrightarrow> tr_task_key t' = tr_task_key t \<and> tr_depends_on t' = tr_depends_on t \<and> tr_run_if t' = tr_run_if t \<and>
     tr_task_def t' = tr_task_def t"

definition touches :: "nat set \<Rightarrow> task_run list \<Rightarrow> task_run list \<Rightarrow> bool" where
  "touches I ts ts' \<longleftrightarrow> length ts' = length ts \<and>
     (\<forall>j < length ts. same_def (ts ! j) (ts' ! j) \<and> (j \<notin> I \<longrightarrow> ts' ! j = ts ! j))"

lemma touches_refl: "touches I ts ts"
  by (simp add: touches_def same_def_def)

lemma touches_trans: "touches I ts ts' \<Longrightarrow> touches J ts' ts'' \<Longrightarrow> touches (I \<union> J) ts ts''"
  by (auto simp: touches_def same_def_def)

lemma touches_mono: "touches I ts ts' \<Longrightarrow> I \<subseteq> J \<Longrightarrow> touches J ts ts'"
  by (auto simp: touches_def)

lemma touches_set_task:
  "(\<And>t. same_def t (f t)) \<Longrightarrow> touches {i} (tasks_of rs) (tasks_of (set_task i f rs))"
  by (auto simp: touches_def nth_list_update same_def_def)

lemma touches_length: "touches I ts ts' \<Longrightarrow> length ts' = length ts"
  by (simp add: touches_def)

lemma touches_keys: "touches I ts ts' \<Longrightarrow> map tr_task_key ts' = map tr_task_key ts"
  by (rule nth_equalityI) (auto simp: touches_def same_def_def)

lemma touches_defs: "touches I ts ts' \<Longrightarrow> map tr_task_def ts' = map tr_task_def ts"
  by (rule nth_equalityI) (auto simp: touches_def same_def_def)

lemma state_after_set:
  "j < length (tasks_of rs) \<Longrightarrow>
     tr_state (tasks_of (set_task i f rs) ! j) = (if j = i then tr_state (f (tasks_of rs ! i)) else tr_state (tasks_of rs ! j))"
  by (simp add: nth_list_update)

section \<open>The gate\<close>

lemma gate_loop_touches:
  "gate_loop env is acc rs = (out, rs') \<Longrightarrow>
     touches (set is - set out) (tasks_of rs) (tasks_of rs') \<or> \<not> distinct is \<or> set is \<inter> set acc \<noteq> {}"
proof (induction "is" arbitrary: acc rs)
  case Nil
  then show ?case by (auto simp: touches_refl)
next
  case (Cons i "is")
  let ?t = "tasks_of rs ! i"
  let ?upd = "\<lambda>t. t\<lparr>tr_state := skipped_state, tr_end_time := now_of env rs\<rparr>"
  have mono: "set acc \<subseteq> set out" if "gate_loop env is acc rs = (out, rs')" for "is" acc rs
    using that by (induction "is" arbitrary: acc rs) (force simp: Let_def split: if_splits)+
  show ?case
  proof (cases "distinct (i # is) \<and> set (i # is) \<inter> set acc = {}")
    case ok: True
    have out_sub: "set out \<subseteq> set acc \<union> set is" if "gate_loop env is acc rs = (out, rs')" for "is" acc rs
      using that by (induction "is" arbitrary: acc rs) (force simp: Let_def split: if_splits)+
    show ?thesis
    proof (cases "gate (rs_done rs) ?t")
      case True
      with Cons.prems have run: "gate_loop env is (acc @ [i]) rs = (out, rs')" by (simp add: Let_def)
      from Cons.IH [OF run] ok have "touches (set is - set out) (tasks_of rs) (tasks_of rs')" by auto
      then have "touches (set (i # is) - set out) (tasks_of rs) (tasks_of rs')" by (rule touches_mono) auto
      then show ?thesis by blast
    next
      case False
      let ?rs1 = "mark_done (tr_task_key ?t) skipped_state (tick (set_task i ?upd rs))"
      from False Cons.prems have run: "gate_loop env is acc ?rs1 = (out, rs')" by (simp add: Let_def)
      have 1: "touches {i} (tasks_of rs) (tasks_of ?rs1)"
        using touches_set_task [of ?upd i rs] by (simp add: same_def_def)
      from Cons.IH [OF run] ok have 2: "touches (set is - set out) (tasks_of ?rs1) (tasks_of rs')" by auto
      have "i \<notin> set out" using out_sub [OF run] ok by auto
      then have "touches (set (i # is) - set out) (tasks_of rs) (tasks_of rs')"
        by (intro touches_mono [OF touches_trans [OF 1 2]]) auto
      then show ?thesis by blast
    qed
  qed auto
qed

lemma gate_loop_out:
  "gate_loop env is acc rs = (out, rs') \<Longrightarrow> set acc \<subseteq> set out \<and> set out \<subseteq> set acc \<union> set is"
proof (induction "is" arbitrary: acc rs)
  case (Cons i "is")
  then show ?case by (fastforce simp: Let_def split: if_splits)
qed simp

lemma gate_loop_distinct:
  "gate_loop env is acc rs = (out, rs') \<Longrightarrow> distinct (acc @ is) \<Longrightarrow> distinct out"
proof (induction "is" arbitrary: acc rs)
  case (Cons i "is")
  then show ?case by (auto simp: Let_def split: if_splits)
qed simp

lemma skipped_terminal [simp]: "is_terminal skipped_state"
  by (simp add: is_terminal_def skipped_state_def)

lemma rs_terminated_terminal [simp]: "is_terminal (rs_terminated w m)"
  by (simp add: is_terminal_def rs_terminated_def)

lemma gate_loop_skips:
  assumes "gate_loop env is acc rs = (out, rs')" and "distinct (acc @ is)"
    and "i \<in> set is" and "i \<notin> set out" and "set is \<subseteq> {..<length (tasks_of rs)}"
  shows "is_terminal (tr_state (tasks_of rs' ! i))"
  using assms
proof (induction "is" arbitrary: acc rs)
  case (Cons k "is")
  let ?t = "tasks_of rs ! k"
  let ?upd = "\<lambda>t. t\<lparr>tr_state := skipped_state, tr_end_time := now_of env rs\<rparr>"
  show ?case
  proof (cases "gate (rs_done rs) ?t")
    case True
    with Cons.prems(1) have run: "gate_loop env is (acc @ [k]) rs = (out, rs')" by (simp add: Let_def)
    from gate_loop_out [OF run] Cons.prems(4) have "i \<noteq> k" by auto
    with Cons.IH [OF run] Cons.prems show ?thesis by auto
  next
    case False
    let ?rs1 = "mark_done (tr_task_key ?t) skipped_state (tick (set_task k ?upd rs))"
    from False Cons.prems(1) have run: "gate_loop env is acc ?rs1 = (out, rs')" by (simp add: Let_def)
    show ?thesis
    proof (cases "i \<in> set is")
      case True
      with Cons.IH [OF run] Cons.prems show ?thesis by auto
    next
      case not_in: False
      with Cons.prems have i: "i = k" "k < length (tasks_of rs)" by auto
      from gate_loop_touches [OF run] Cons.prems(2) have "touches (set is - set out) (tasks_of ?rs1) (tasks_of rs')" by auto
      with i not_in have "tasks_of rs' ! k = tasks_of ?rs1 ! k" by (auto simp: touches_def)
      with i show ?thesis by simp
    qed
  qed
qed simp

section \<open>Starting and finishing a batch\<close>

lemma start_loop_touches:
  "start_loop env is rs = (x, rs') \<Longrightarrow> touches (set is) (tasks_of rs) (tasks_of rs') \<and> rs_done rs' = rs_done rs"
proof (induction "is" arbitrary: rs)
  case Nil
  then show ?case by (auto simp: touches_refl)
next
  case (Cons i "is")
  obtain y rs1 where e: "ensure_cluster env i rs = (y, rs1)" by (cases "ensure_cluster env i rs")
  note f = ensure_cluster_frame [OF e]
  show ?case
  proof (cases y)
    case (Inl err)
    with Cons.prems e f show ?thesis by (auto intro: touches_refl [THEN touches_mono])
  next
    case (Inr c)
    let ?rs2 = "note_created i c rs1"
    let ?upd = "\<lambda>t. t\<lparr>tr_cluster_instance := map_option (\<lambda>c. jobj [(''cluster_id'', JStr c)]) c, tr_state := rs_running,
                tr_start_time := now_of env ?rs2, tr_attempt_number := tr_attempt_number t + 1\<rparr>"
    from Cons.prems e Inr have run: "start_loop env is (tick (set_task i ?upd ?rs2)) = (x, rs')" by (simp add: Let_def)
    have "touches {i} (tasks_of ?rs2) (tasks_of (set_task i ?upd ?rs2))"
      by (rule touches_set_task) (simp add: same_def_def)
    then have 1: "touches {i} (tasks_of rs) (tasks_of (tick (set_task i ?upd ?rs2)))" using f by simp
    from Cons.IH [OF run] touches_trans [OF 1] f show ?thesis by auto
  qed
qed

definition finishes :: "nat list \<Rightarrow> joined option list \<Rightarrow> bool" where
  "finishes is js \<longleftrightarrow> list_all (\<lambda>j. case j of None \<Rightarrow> False | Some j \<Rightarrow> jd_index j \<in> set is \<and> is_terminal (jd_state j)) js \<and>
     set is \<subseteq> {jd_index j |j. Some j \<in> set js}"

lemma record_touches:
  "finishes is js \<Longrightarrow> touches (set is) (tasks_of rs) (tasks_of (fold (record_result env) js rs))"
proof -
  assume "finishes is js"
  then have "list_all (\<lambda>j. case j of None \<Rightarrow> False | Some j \<Rightarrow> jd_index j \<in> set is) js"
    by (auto simp: finishes_def list_all_iff split: option.splits)
  then show ?thesis
  proof (induction js arbitrary: rs)
    case Nil
    then show ?case by (simp add: touches_refl)
  next
    case (Cons j js)
    then obtain d where d: "j = Some d" "jd_index d \<in> set is" by (auto split: option.splits)
    have "touches {jd_index d} (tasks_of rs) (tasks_of (record_result env j rs))"
      unfolding d record_result_def Let_def option.case
      using touches_set_task [of "\<lambda>t. t\<lparr>tr_state := jd_state d, tr_output := Some (jd_out d), tr_end_time := now_of env rs,
                   tr_execution_duration := wrap_i64 (now_of env rs - tr_start_time t), tr_attempt_number := jd_attempts d\<rparr>" "jd_index d" rs]
      by (simp add: same_def_def)
    from touches_trans [OF this Cons.IH [of "record_result env j rs"]] Cons.prems d show ?case
      by (auto elim!: touches_mono)
  qed
qed

lemma record_terminal:
  assumes "list_all (\<lambda>j. case j of None \<Rightarrow> False | Some j \<Rightarrow> jd_index j \<in> set is \<and> is_terminal (jd_state j)) js"
    and "i < length (tasks_of rs)"
    and "is_terminal (tr_state (tasks_of rs ! i)) \<or> (\<exists>j. Some j \<in> set js \<and> jd_index j = i)"
  shows "is_terminal (tr_state (tasks_of (fold (record_result env) js rs) ! i))"
  using assms
proof (induction js arbitrary: rs)
  case (Cons j js)
  then obtain d where d: "j = Some d" "is_terminal (jd_state d)" by (auto split: option.splits)
  have st: "tr_state (tasks_of (record_result env j rs) ! i) =
      (if i = jd_index d then jd_state d else tr_state (tasks_of rs ! i))"
    using Cons.prems(2) unfolding d record_result_def Let_def option.case by (simp add: nth_list_update)
  have len: "length (tasks_of (record_result env j rs)) = length (tasks_of rs)"
    unfolding d record_result_def Let_def option.case by simp
  show ?case unfolding fold.simps o_apply
  proof (rule Cons.IH)
    show "is_terminal (tr_state (tasks_of (record_result env j rs) ! i)) \<or> (\<exists>j. Some j \<in> set js \<and> jd_index j = i)"
      using Cons.prems(3) d st by auto
  qed (use Cons.prems len in auto)
qed simp

section \<open>A round makes progress\<close>

text \<open>Every batch of a run with these task settings comes back complete: each task in a final state, none panicking.\<close>

definition batches_finish :: "settings list \<Rightarrow> env \<Rightarrow> bool" where
  "batches_finish defs env \<longleftrightarrow> (\<forall>r is. map tr_task_def (rn_tasks r) = defs \<longrightarrow> set is \<subseteq> {..<length defs} \<longrightarrow>
     finishes is (e_batch env r is))"

text \<open>
  A batch that runs its tasks: when the attempts of each end, it joins one result for each task, in any
  order. That is so when no task panics.
\<close>

definition runs_tasks :: "task_body \<Rightarrow> env \<Rightarrow> bool" where
  "runs_tasks body env \<longleftrightarrow> (\<forall>r is. (\<forall>i \<in> set is. task_joined body r i \<noteq> None) \<longrightarrow>
     mset (e_batch env r is) = mset (map (task_joined body r) is))"

definition finite_retries :: "settings \<Rightarrow> bool" where
  "finite_retries def \<longleftrightarrow> 0 \<le> or_default 0 (Option.bind (map_of def ''max_retries'') as_int)"

lemma attempts_end: "0 \<le> m \<Longrightarrow> \<exists>k. attempts_from att m ot n = Some (Suc k, att k)"
proof (induction "nat (m - int n)" arbitrary: n rule: less_induct)
  case less
  show ?case
  proof (cases "wants_retry m ot n (fst (att n))")
    case True
    with less.prems have "int n < m" by (auto simp: wants_retry_def split: if_splits)
    with less have "\<exists>k. attempts_from att m ot (Suc n) = Some (Suc k, att k)" by auto
    with True show ?thesis by (simp add: attempts_from.simps)
  qed (simp add: attempts_from.simps)
qed

lemma task_outcome_final: "is_terminal (fst (task_outcome a))"
  by (simp add: task_outcome_def split: sum.split prod.split)

lemma task_joined_final:
  assumes "finite_retries (tr_task_def (rn_tasks r ! i))"
  obtains d where "task_joined body r i = Some d" "jd_index d = i" "is_terminal (jd_state d)"
proof -
  from assms obtain k where "run_attempts (\<lambda>n. task_outcome (body r i n)) (tr_task_def (rn_tasks r ! i)) = Some (Suc k, task_outcome (body r i k))"
    using attempts_end unfolding run_attempts_def finite_retries_def by blast
  then show ?thesis using task_outcome_final [of "body r i k"] that
    by (cases "task_outcome (body r i k)") (simp add: task_joined_def)
qed

lemma runs_tasks_finish:
  assumes "runs_tasks body env" and "list_all finite_retries defs"
  shows "batches_finish defs env"
  unfolding batches_finish_def
proof (intro allI impI)
  fix r :: run and "is" assume defs: "map tr_task_def (rn_tasks r) = defs" and sub: "set is \<subseteq> {..<length defs}"
  have one: "\<exists>d. task_joined body r i = Some d \<and> jd_index d = i \<and> is_terminal (jd_state d)" if "i \<in> set is" for i
  proof -
    have "finite_retries (tr_task_def (rn_tasks r ! i))" using assms(2) defs sub that by (auto simp: list_all_length)
    then show ?thesis by (elim task_joined_final) blast
  qed
  then have "mset (e_batch env r is) = mset (map (task_joined body r) is)" using assms(1) by (fastforce simp: runs_tasks_def)
  then have js: "set (e_batch env r is) = task_joined body r ` set is" by (metis set_mset_mset set_map)
  have "case j of None \<Rightarrow> False | Some j \<Rightarrow> jd_index j \<in> set is \<and> is_terminal (jd_state j)" if "j \<in> set (e_batch env r is)" for j
    using that js one by fastforce
  moreover have "\<exists>j. Some j \<in> set (e_batch env r is) \<and> i = jd_index j" if "i \<in> set is" for i
    using one [OF that] that js by (metis image_eqI)
  ultimately show "finishes is (e_batch env r is)" by (auto simp: finishes_def list_all_iff)
qed

lemma remaining_iff: "i \<in> set (remaining rs) \<longleftrightarrow> i < length (tasks_of rs) \<and> \<not> is_terminal (tr_state (tasks_of rs ! i))"
  by (auto simp: remaining_def)

lemma remaining_distinct [simp]: "distinct (remaining rs)" "distinct (ready rs)"
  by (simp_all add: remaining_def ready_def)

lemma ready_sub: "set (ready rs) \<subseteq> set (remaining rs)"
  by (auto simp: ready_def)

lemma remaining_tick [simp]: "remaining (tick rs) = remaining rs" "ready (tick rs) = ready rs"
  by (simp_all add: remaining_def ready_def)

lemma length_remaining_less:
  assumes "set (remaining rs') \<subset> set (remaining rs)"
  shows "length (remaining rs') < length (remaining rs)"
  using psubset_card_mono [OF finite_set assms] by (simp add: distinct_card)

lemma round_going:
  assumes env: "batches_finish (map tr_task_def (tasks_of rs)) env" and step: "round env rs = Going rs'"
  shows "touches (set (ready rs)) (tasks_of rs) (tasks_of rs') \<and> set (remaining rs') = set (remaining rs) - set (ready rs) \<and>
    ready rs \<noteq> []"
proof -
  let ?rs1 = "tick rs"
  obtain out rs2 where g: "gate_loop env (ready ?rs1) [] ?rs1 = (out, rs2)" by (cases "gate_loop env (ready ?rs1) [] ?rs1")
  have ne: "remaining rs \<noteq> []" "ready rs \<noteq> []"
    and going: "(if out = [] then Going (save_run rs2) else run_batch env out rs2) = Going rs'"
    using step g by (auto simp: round_def Let_def split: if_splits)
  have rdy: "set (ready rs) \<subseteq> {..<length (tasks_of rs)}" using ready_sub by (force simp: remaining_iff)
  have t1: "touches (set (ready rs) - set out) (tasks_of rs) (tasks_of rs2)"
    using gate_loop_touches [OF g] by simp
  have len2: "length (tasks_of rs2) = length (tasks_of rs)" by (rule touches_length [OF t1])
  have sub: "set out \<subseteq> set (ready rs)" using gate_loop_out [OF g] by simp
  have skipped: "is_terminal (tr_state (tasks_of rs2 ! i))" if "i \<in> set (ready rs)" "i \<notin> set out" for i
    by (rule gate_loop_skips [OF g]) (use that rdy in auto)
  have both: "touches (set out) (tasks_of rs2) (tasks_of rs') \<and> (\<forall>i \<in> set out. is_terminal (tr_state (tasks_of rs' ! i)))"
  proof (cases "out = []")
    case True
    with going show ?thesis by (auto simp: touches_refl)
  next
    case False
    obtain x rs3 where s: "start_loop env out rs2 = (x, rs3)" by (cases "start_loop env out rs2")
    with False going obtain rs4 where x: "x = Inr ()" and rs4: "rs4 = save_run rs3"
      and rs': "rs' = fold (record_result env) (e_batch env (rs_run rs4) out) rs4"
      by (cases x) (auto simp: run_batch_def Let_def)
    have t3: "touches (set out) (tasks_of rs2) (tasks_of rs4)" using start_loop_touches [OF s] rs4 by simp
    have "map tr_task_def (tasks_of rs4) = map tr_task_def (tasks_of rs)" using touches_defs [OF t1] touches_defs [OF t3] by simp
    moreover have "set out \<subseteq> {..<length (map tr_task_def (tasks_of rs))}" using sub rdy by auto
    ultimately have fin: "finishes out (e_batch env (rs_run rs4) out)" using env unfolding batches_finish_def by blast
    have t4: "touches (set out) (tasks_of rs4) (tasks_of rs')" unfolding rs' by (rule record_touches [OF fin])
    have "is_terminal (tr_state (tasks_of rs' ! i))" if i: "i \<in> set out" for i
      unfolding rs'
    proof (rule record_terminal [where ?is = out])
      show "i < length (tasks_of rs4)" using i sub rdy touches_length [OF t3] len2 by auto
      show "is_terminal (tr_state (tasks_of rs4 ! i)) \<or> (\<exists>j. Some j \<in> set (e_batch env (rs_run rs4) out) \<and> jd_index j = i)"
        using fin i by (auto simp: finishes_def)
    qed (use fin in \<open>simp add: finishes_def\<close>)
    with touches_trans [OF t3 t4] show ?thesis by simp
  qed
  have touch: "touches (set (ready rs)) (tasks_of rs) (tasks_of rs')"
    using touches_trans [OF t1 conjunct1 [OF both]] sub by (auto elim: touches_mono)
  have "set (remaining rs') = set (remaining rs) - set (ready rs)"
  proof (intro set_eqI iffI)
    fix i assume "i \<in> set (remaining rs')"
    then have i: "i < length (tasks_of rs)" "\<not> is_terminal (tr_state (tasks_of rs' ! i))"
      using touches_length [OF touch] by (auto simp: remaining_iff)
    have "i \<notin> set out" using both i(2) by auto
    have "i \<notin> set (ready rs)"
    proof
      assume r: "i \<in> set (ready rs)"
      from conjunct1 [OF both] \<open>i \<notin> set out\<close> i(1) len2 have "tasks_of rs' ! i = tasks_of rs2 ! i" by (auto simp: touches_def)
      with skipped [OF r \<open>i \<notin> set out\<close>] i(2) show False by simp
    qed
    then have "tasks_of rs' ! i = tasks_of rs ! i" using touch i(1) by (auto simp: touches_def)
    with i \<open>i \<notin> set (ready rs)\<close> show "i \<in> set (remaining rs) - set (ready rs)" by (simp add: remaining_iff)
  next
    fix i assume "i \<in> set (remaining rs) - set (ready rs)"
    then have "i < length (tasks_of rs)" "\<not> is_terminal (tr_state (tasks_of rs ! i))" "tasks_of rs' ! i = tasks_of rs ! i"
      using touch by (auto simp: remaining_iff touches_def)
    then show "i \<in> set (remaining rs')" using touches_length [OF touch] by (simp add: remaining_iff)
  qed
  with touch ne show ?thesis by blast
qed

lemma fold_set_terminal:
  "(\<And>t. is_terminal (tr_state (f t))) \<Longrightarrow> i < length (tasks_of rs) \<Longrightarrow>
     is_terminal (tr_state (tasks_of rs ! i)) \<or> i \<in> set is \<Longrightarrow>
     is_terminal (tr_state (tasks_of (fold (\<lambda>i. set_task i f) is rs) ! i))"
  by (induction "is" arbitrary: rs) (auto simp: nth_list_update)

lemma fail_all_length [simp]: "length (tasks_of (fail_all is rs)) = length (tasks_of rs)"
  unfolding fail_all_def by (induction "is" arbitrary: rs) auto

lemma time_out_terminal:
  "i < length (tasks_of rs) \<Longrightarrow> is_terminal (tr_state (tasks_of rs ! i)) \<or> i \<in> set is \<Longrightarrow>
     is_terminal (tr_state (tasks_of (time_out_all env is rs) ! i))"
  unfolding time_out_all_def by (induction "is" arbitrary: rs) (auto simp: nth_list_update)

lemma time_out_length [simp]: "length (tasks_of (time_out_all env is rs)) = length (tasks_of rs)"
  unfolding time_out_all_def by (induction "is" arbitrary: rs) auto

definition all_terminal :: "runner \<Rightarrow> bool" where
  "all_terminal rs \<longleftrightarrow> list_all (\<lambda>t. is_terminal (tr_state t)) (tasks_of rs)"

lemma round_stop: "round env rs = Stop rs' \<Longrightarrow> all_terminal rs' \<and> length (tasks_of rs') = length (tasks_of rs)"
proof -
  assume stop: "round env rs = Stop rs'"
  consider "remaining rs = []" "rs' = rs"
    | "rs' = time_out_all env (remaining rs) ((tick rs)\<lparr>rs_timed_out := True\<rparr>)"
    | "rs' = fail_all (remaining rs) (tick rs)"
    using stop by (auto simp: round_def run_batch_def Let_def split: if_splits prod.splits sum.splits)
  then show ?thesis
  proof cases
    case 1
    then have "\<And>i. i < length (tasks_of rs) \<Longrightarrow> is_terminal (tr_state (tasks_of rs ! i))"
      using remaining_iff [of _ rs] by auto
    with 1 show ?thesis by (simp add: all_terminal_def list_all_length)
  next
    case 2
    then show ?thesis
      using time_out_terminal [of _ "(tick rs)\<lparr>rs_timed_out := True\<rparr>" "remaining rs" env] remaining_iff [of _ rs]
      by (auto simp: all_terminal_def list_all_length)
  next
    case 3
    then show ?thesis
      using fold_set_terminal [of "\<lambda>t. t\<lparr>tr_state := rs_terminated ''FAILED'' ''Dependency cycle or missing task_key in depends_on''\<rparr>"
          _ "tick rs" "remaining rs"] remaining_iff [of _ rs]
      by (auto simp: all_terminal_def list_all_length) (simp_all add: fail_all_def)
  qed
qed

text \<open>A run fails internally only for want of a cluster, with a task unfinished in the document saved last.\<close>

definition no_cluster :: "env \<Rightarrow> api_error \<Rightarrow> bool" where
  "no_cluster env e \<longleftrightarrow> (\<exists>k spec. e_create_cluster env k spec = Inl e) \<or> (\<exists>k r. e_default_cluster env k r = Inl e)"

definition saved :: "runner \<Rightarrow> bool" where
  "saved rs \<longleftrightarrow> rs_saves rs \<noteq> [] \<and> rn_tasks (hd (rs_saves rs)) = tasks_of rs"

lemma helper_saves [simp]:
  "rs_saves (tick rs) = rs_saves rs" "rs_saves (mark_done k s rs) = rs_saves rs" "rs_saves (add_created c rs) = rs_saves rs"
  "rs_saves (set_task i f rs) = rs_saves rs" "rs_saves (note_created i oc rs) = rs_saves rs"
  by (simp_all add: tick_def mark_done_def add_created_def map_run_def note_created_def set_task_def split: option.split)

lemma saved_save [simp]: "saved (save_run rs)"
  by (simp add: saved_def save_run_def)

lemma saved_records: "saved rs \<Longrightarrow> saved (fold (record_result env) js rs)"
  by (induction js arbitrary: rs) (simp_all add: record_result_def)

lemma gate_loop_saves: "gate_loop env is acc rs = (out, rs') \<Longrightarrow> rs_saves rs' = rs_saves rs"
  by (induction "is" arbitrary: acc rs) (auto simp: Let_def split: if_splits)

lemma ensure_cluster_saves:
  "ensure_cluster env i rs = (x, rs') \<Longrightarrow> rs_saves rs' = rs_saves rs \<and> (\<forall>e. x = Inl e \<longrightarrow> no_cluster env e)"
  by (auto simp: ensure_cluster_def pick_cluster_def create_named_def no_cluster_def Let_def
      split: option.splits sum.splits prod.splits if_splits)

lemma start_loop_saves:
  "start_loop env is rs = (x, rs') \<Longrightarrow> rs_saves rs' = rs_saves rs \<and> (\<forall>e. x = Inl e \<longrightarrow> no_cluster env e)"
  by (induction "is" arbitrary: rs) (auto simp: Let_def split: prod.splits sum.splits dest: ensure_cluster_saves)

lemma round_saved: "round env rs = Going rs' \<Longrightarrow> saved rs'"
  by (auto simp: round_def run_batch_def Let_def intro: saved_records split: if_splits prod.splits sum.splits)

lemma round_failed:
  assumes "round env rs = Failed e rs'" and "saved rs"
  shows "no_cluster env e \<and> rs_saves rs' = rs_saves rs \<and> (\<exists>t \<in> set (rn_tasks (hd (rs_saves rs))). \<not> is_terminal (tr_state t))"
proof -
  obtain out rs2 where g: "gate_loop env (ready (tick rs)) [] (tick rs) = (out, rs2)" by (cases "gate_loop env (ready (tick rs)) [] (tick rs)")
  obtain x rs3 where st: "start_loop env out rs2 = (x, rs3)" by (cases "start_loop env out rs2")
  have "remaining rs \<noteq> []" "x = Inl e" "rs' = rs3"
    using assms(1) g st by (auto simp: round_def run_batch_def Let_def split: if_splits sum.splits)
  then have "no_cluster env e \<and> rs_saves rs' = rs_saves rs" "remaining rs \<noteq> []"
    using gate_loop_saves [OF g] start_loop_saves [OF st] by auto
  moreover from this(2) obtain i where "i \<in> set (remaining rs)" by (cases "remaining rs") auto
  ultimately show ?thesis using assms(2) by (auto simp: saved_def remaining_iff)
qed

lemma rounds_end:
  assumes "batches_finish (map tr_task_def (tasks_of rs)) env" and "saved rs" and "length (remaining rs) < n"
  shows "\<exists>res. rounds env n rs = Some res \<and>
    (case res of
       Inr rs' \<Rightarrow> all_terminal rs' \<and> length (tasks_of rs') = length (tasks_of rs)
     | Inl (e, rs') \<Rightarrow> no_cluster env e \<and> (\<exists>t \<in> set (rn_tasks (hd (rs_saves rs'))). \<not> is_terminal (tr_state t)))"
  using assms
proof (induction n arbitrary: rs)
  case (Suc n)
  show ?case
  proof (cases "round env rs")
    case (Going rs1)
    note g = round_going [OF Suc.prems(1) Going]
    obtain i where "i \<in> set (ready rs)" using g by (cases "ready rs") auto
    then have "set (remaining rs1) \<subset> set (remaining rs)" using g ready_sub [of rs] by auto
    then have "length (remaining rs1) < length (remaining rs)" by (rule length_remaining_less)
    with Suc.prems(3) have "length (remaining rs1) < n" by simp
    moreover have "batches_finish (map tr_task_def (tasks_of rs1)) env"
      using Suc.prems(1) touches_defs [OF conjunct1 [OF g]] by simp
    ultimately show ?thesis
      using Suc.IH [of rs1] round_saved [OF Going] Going touches_length [OF conjunct1 [OF g]] by (auto split: sum.splits)
  next
    case (Stop rs1)
    with round_stop [OF Stop] show ?thesis by simp
  next
    case (Failed e rs1)
    with round_failed [OF Failed Suc.prems(2)] show ?thesis by simp
  qed
qed simp

lemma final_state_terminal [simp]: "is_terminal (final_state b r)"
  by (simp add: final_state_def Let_def)

lemma finalise_tasks [simp]: "tasks_of (finalise env rs) = tasks_of rs"
  by (simp add: finalise_def map_run_def save_run_def tick_def)


end
