(* ===== verification/Jobs_Runner_Safety.thy ===== *)
theory Jobs_Runner_Safety
  imports Jobs_Runner_Theorems
begin

text \<open>
  The order of a run: a task is executed only after all its dependencies have finished, with the
  condition its \<open>run_if\<close> names true of their results, and it is skipped only when that condition is
  false. The invariant of the rounds says that \<open>done\<close> holds exactly the results of the finished tasks.
\<close>

section \<open>The invariant\<close>

definition startable :: "runner \<Rightarrow> nat \<Rightarrow> bool" where
  "startable rs i \<longleftrightarrow> i < length (tasks_of rs) \<and> \<not> is_terminal (tr_state (tasks_of rs ! i)) \<and>
     deps_done (rs_done rs) (tasks_of rs ! i)"

definition passed :: "runner \<Rightarrow> nat \<Rightarrow> bool" where
  "passed rs i \<longleftrightarrow> startable rs i \<and> gate (rs_done rs) (tasks_of rs ! i)"

definition explained :: "(string \<times> run_state) list \<Rightarrow> task_run \<Rightarrow> bool" where
  "explained dn t \<longleftrightarrow>
     (if is_terminal (tr_state t) then map_of dn (tr_task_key t) = Some (tr_state t) \<and> deps_done dn t \<and>
        (tr_output t \<noteq> None \<longleftrightarrow> gate dn t)
      else tr_output t = None \<and> map_of dn (tr_task_key t) = None)"

definition sound_runner :: "runner \<Rightarrow> bool" where
  "sound_runner rs \<longleftrightarrow> distinct (map tr_task_key (tasks_of rs)) \<and>
     dom (map_of (rs_done rs)) \<subseteq> set (map tr_task_key (tasks_of rs)) \<and>
     (\<forall>i < length (tasks_of rs). explained (rs_done rs) (tasks_of rs ! i))"

text \<open>What a gate reads: the results of the dependencies.\<close>

lemma filter_map_set: "x \<in> set (filter_map f xs) \<longleftrightarrow> (\<exists>y \<in> set xs. f y = Some x)"
  by (induction xs) (auto simp: filter_map_def List.map_filter_simps split: option.splits)

lemma filter_map_cong: "(\<And>y. y \<in> set xs \<Longrightarrow> f y = g y) \<Longrightarrow> filter_map f xs = filter_map g xs"
  by (induction xs) (simp_all add: filter_map_def List.map_filter_simps split: option.splits)

lemma gate_cong:
  assumes same: "\<And>k. k \<in> set (dep_keys (tr_depends_on t)) \<Longrightarrow> map_of dn' k = map_of dn k"
    and "tr_depends_on t' = tr_depends_on t" "tr_run_if t' = tr_run_if t"
  shows "gate dn' t' = gate dn t"
proof -
  have ds: "dep_states dn' t' = dep_states dn t"
    unfolding dep_states_def assms(2) by (rule filter_map_cong) (simp add: same)
  have keys: "k \<in> set (dep_keys (tr_depends_on t))" if "(k, s) \<in> set (dep_states dn t)" for k s
    using that unfolding dep_states_def by (auto simp: filter_map_set split: option.splits)
  have ok: "outcome_ok dn' t' k = outcome_ok dn t k" if "(k, s) \<in> set (dep_states dn t)" for k s
    unfolding outcome_ok_def assms(2) same [OF keys [OF that]] by (rule refl)
  have all: "list_all (\<lambda>(k, s). succeeded s \<and> outcome_ok dn' t' k) (dep_states dn t)
      = list_all (\<lambda>(k, s). succeeded s \<and> outcome_ok dn t k) (dep_states dn t)"
    using ok by (fastforce simp: list_all_iff)
  have ex: "list_ex (\<lambda>(k, s). \<not> succeeded s \<or> \<not> outcome_ok dn' t' k) (dep_states dn t)
      = list_ex (\<lambda>(k, s). \<not> succeeded s \<or> \<not> outcome_ok dn t k) (dep_states dn t)"
    using ok by (fastforce simp: list_ex_iff)
  show ?thesis unfolding gate_def Let_def ds all ex assms(3) by (rule refl)
qed

lemma deps_done_iff: "deps_done dn t \<longleftrightarrow> (\<forall>k \<in> set (dep_keys (tr_depends_on t)). map_of dn k \<noteq> None)"
  by (auto simp: deps_done_def list_all_iff is_done_def dep_keys_def filter_map_set split: option.splits)

lemma deps_done_cong:
  "tr_depends_on t' = tr_depends_on t \<Longrightarrow> deps_done dn t' = deps_done dn t"
  by (simp add: deps_done_def)

text \<open>A new result changes nothing for a task whose dependencies had all finished.\<close>

lemma update_same:
  assumes "deps_done dn t" and "map_of dn k = None" and "same_def t t'"
  shows "deps_done (AList.update k s dn) t' \<and> gate (AList.update k s dn) t' = gate dn t"
proof -
  have "map_of (AList.update k s dn) k' = map_of dn k'" if "k' \<in> set (dep_keys (tr_depends_on t))" for k'
    using assms(1,2) that by (auto simp: deps_done_iff update_conv')
  with assms show ?thesis using gate_cong [of t "AList.update k s dn" dn t'] by (simp add: deps_done_iff same_def_def)
qed

section \<open>Finishing a task\<close>

definition finish :: "nat \<Rightarrow> (task_run \<Rightarrow> task_run) \<Rightarrow> runner \<Rightarrow> runner" where
  "finish i f rs = mark_done (tr_task_key (tasks_of rs ! i)) (tr_state (f (tasks_of rs ! i))) (set_task i f rs)"

lemma key_distinct:
  "sound_runner rs \<Longrightarrow> i < length (tasks_of rs) \<Longrightarrow> j < length (tasks_of rs) \<Longrightarrow> i \<noteq> j \<Longrightarrow>
     tr_task_key (tasks_of rs ! i) \<noteq> tr_task_key (tasks_of rs ! j)"
  by (metis sound_runner_def length_map nth_eq_iff_index_eq nth_map)

lemma startable_not_done:
  "sound_runner rs \<Longrightarrow> startable rs i \<Longrightarrow> map_of (rs_done rs) (tr_task_key (tasks_of rs ! i)) = None"
  by (simp add: sound_runner_def startable_def explained_def)

lemma finish_fields:
  assumes "i < length (tasks_of rs)"
  shows "tasks_of (finish i f rs) = (tasks_of rs)[i := f (tasks_of rs ! i)]"
    and "rs_done (finish i f rs) = AList.update (tr_task_key (tasks_of rs ! i)) (tr_state (f (tasks_of rs ! i))) (rs_done rs)"
  using assms by (simp_all add: finish_def)

lemma finish_sound:
  assumes sound: "sound_runner rs" and start: "startable rs i"
    and f: "\<And>t. same_def t (f t)" "is_terminal (tr_state (f (tasks_of rs ! i)))"
      "tr_output (f (tasks_of rs ! i)) \<noteq> None \<longleftrightarrow> gate (rs_done rs) (tasks_of rs ! i)"
  shows "sound_runner (finish i f rs)"
proof -
  let ?t = "tasks_of rs ! i" and ?dn = "rs_done rs"
  have i: "i < length (tasks_of rs)" and deps: "deps_done ?dn ?t" using start by (auto simp: startable_def)
  have none: "map_of ?dn (tr_task_key ?t) = None" by (rule startable_not_done [OF sound start])
  have keys: "map tr_task_key ((tasks_of rs)[i := f ?t]) = map tr_task_key (tasks_of rs)"
    using f(1) [of ?t] i by (simp add: map_update same_def_def) (metis length_map list_update_id nth_map)
  have "explained (rs_done (finish i f rs)) (tasks_of (finish i f rs) ! j)" if j: "j < length (tasks_of rs)" for j
  proof (cases "j = i")
    case True
    with f i j update_same [OF deps none f(1)] show ?thesis
      unfolding finish_fields [OF i] by (auto simp: explained_def same_def_def update_conv')
  next
    case False
    let ?u = "tasks_of rs ! j"
    have k: "tr_task_key ?u \<noteq> tr_task_key ?t" using key_distinct [OF sound j i False] .
    have e: "explained ?dn ?u" using sound j by (simp add: sound_runner_def)
    show ?thesis
    proof (cases "is_terminal (tr_state ?u)")
      case True
      with e update_same [of ?dn ?u "tr_task_key ?t" ?u "tr_state (f ?t)"] none k j i False show ?thesis
        unfolding finish_fields [OF i] by (simp add: explained_def update_conv' same_def_def)
    next
      case nt: False
      with e k j i False show ?thesis unfolding finish_fields [OF i] by (simp add: explained_def update_conv')
    qed
  qed
  moreover have "dom (map_of (rs_done (finish i f rs))) \<subseteq> set (map tr_task_key (tasks_of rs))"
    using sound i by (auto simp: sound_runner_def finish_fields update_conv')
  ultimately show ?thesis using sound keys i by (simp add: sound_runner_def finish_fields del: set_map)
qed

lemma finish_startable:
  assumes sound: "sound_runner rs" and start: "startable rs i" and j: "startable rs j" "j \<noteq> i"
  shows "startable (finish i f rs) j" and "gate (rs_done (finish i f rs)) (tasks_of (finish i f rs) ! j) = gate (rs_done rs) (tasks_of rs ! j)"
proof -
  have i: "i < length (tasks_of rs)" using start by (simp add: startable_def)
  have d: "deps_done (rs_done rs) (tasks_of rs ! j)" using j by (simp add: startable_def)
  note u = update_same [OF d startable_not_done [OF sound start], of "tasks_of rs ! j" "tr_state (f (tasks_of rs ! i))"]
  show "startable (finish i f rs) j"
    using j u i by (simp add: startable_def finish_fields same_def_def)
  show "gate (rs_done (finish i f rs)) (tasks_of (finish i f rs) ! j) = gate (rs_done rs) (tasks_of rs ! j)"
    using j u i by (simp add: finish_fields same_def_def)
qed

lemma finish_passed:
  "sound_runner rs \<Longrightarrow> startable rs i \<Longrightarrow> passed rs j \<Longrightarrow> j \<noteq> i \<Longrightarrow> passed (finish i f rs) j"
  using finish_startable [of rs i j f] by (simp add: passed_def)

section \<open>The invariant through a round\<close>

lemma sound_tick [simp]: "sound_runner (tick rs) = sound_runner rs" "startable (tick rs) = startable rs" "passed (tick rs) = passed rs"
  by (simp_all add: sound_runner_def startable_def passed_def fun_eq_iff)

lemma sound_save [simp]: "sound_runner (save_run rs) = sound_runner rs" "startable (save_run rs) = startable rs" "passed (save_run rs) = passed rs"
  by (simp_all add: sound_runner_def startable_def passed_def save_run_def fun_eq_iff)

lemma finish_tick: "mark_done k s (tick rs) = tick (mark_done k s rs)"
  by (simp add: mark_done_def tick_def)

definition skip_task :: "env \<Rightarrow> runner \<Rightarrow> task_run \<Rightarrow> task_run" where
  "skip_task env rs t = t\<lparr>tr_state := skipped_state, tr_end_time := now_of env rs\<rparr>"

lemma gate_loop_step:
  "gate_loop env (i # is) acc rs =
     (if gate (rs_done rs) (tasks_of rs ! i) then gate_loop env is (acc @ [i]) rs
      else gate_loop env is acc (tick (finish i (skip_task env rs) rs)))"
  by (simp add: Let_def finish_def skip_task_def [abs_def] finish_tick)

lemma gate_loop_sound:
  assumes "gate_loop env is acc rs = (out, rs')" and "sound_runner rs" and "distinct (acc @ is)"
    and "\<forall>i \<in> set is. startable rs i" and "\<forall>i \<in> set acc. passed rs i"
  shows "sound_runner rs' \<and> (\<forall>i \<in> set out. passed rs' i)"
  using assms
proof (induction "is" arbitrary: acc rs)
  case (Cons i "is")
  have i: "startable rs i" using Cons.prems(4) by simp
  show ?case
  proof (cases "gate (rs_done rs) (tasks_of rs ! i)")
    case True
    with Cons.prems(1) have run: "gate_loop env is (acc @ [i]) rs = (out, rs')" by (simp add: gate_loop_step del: gate_loop.simps)
    show ?thesis by (rule Cons.IH [OF run]) (use Cons.prems True i in \<open>auto simp: passed_def\<close>)
  next
    case False
    let ?rs1 = "tick (finish i (skip_task env rs) rs)"
    from False Cons.prems(1) have run: "gate_loop env is acc ?rs1 = (out, rs')" by (simp add: gate_loop_step del: gate_loop.simps)
    have out: "tr_output (tasks_of rs ! i) = None"
      using Cons.prems(2) i by (simp add: sound_runner_def startable_def explained_def)
    have 1: "sound_runner (finish i (skip_task env rs) rs)"
      by (rule finish_sound [OF Cons.prems(2) i]) (use False out in \<open>simp_all add: skip_task_def same_def_def\<close>)
    show ?thesis
    proof (rule Cons.IH [OF run])
      show "\<forall>j \<in> set is. startable ?rs1 j"
        using finish_startable(1) [OF Cons.prems(2) i] Cons.prems(3,4) by (auto simp del: o_apply)
      show "\<forall>j \<in> set acc. passed ?rs1 j"
        using finish_passed [OF Cons.prems(2) i] Cons.prems(3,5) by auto
    qed (use 1 Cons.prems(3) in auto)
  qed
qed simp

lemma sound_frame:
  "tasks_of rs' = tasks_of rs \<Longrightarrow> rs_done rs' = rs_done rs \<Longrightarrow>
     sound_runner rs' = sound_runner rs \<and> passed rs' = passed rs \<and> startable rs' = startable rs"
  by (simp add: sound_runner_def startable_def passed_def fun_eq_iff)

text \<open>A task that passed its gate is marked running.\<close>

lemma running_sound:
  assumes sound: "sound_runner rs" and i: "passed rs i"
    and f: "\<And>t. same_def t (f t)" "\<And>t. \<not> is_terminal (tr_state (f t))" "\<And>t. tr_output (f t) = tr_output t"
  shows "sound_runner (set_task i f rs) \<and> (passed rs j \<longrightarrow> passed (set_task i f rs) j)"
proof -
  let ?t = "tasks_of rs ! i"
  have len: "i < length (tasks_of rs)" and nt: "\<not> is_terminal (tr_state ?t)" using i by (auto simp: passed_def startable_def)
  have keys: "map tr_task_key ((tasks_of rs)[i := f ?t]) = map tr_task_key (tasks_of rs)"
    using f(1) [of ?t] len by (simp add: map_update same_def_def) (metis length_map list_update_id nth_map)
  have g: "gate dn (f ?t) = gate dn ?t" "deps_done dn (f ?t) = deps_done dn ?t" for dn
    using f(1) [of ?t] gate_cong [of ?t dn dn "f ?t"] deps_done_cong [of "f ?t" ?t dn] by (simp_all add: same_def_def)
  have "explained (rs_done rs) ((tasks_of rs)[i := f ?t] ! j)" if "j < length (tasks_of rs)" for j
    using sound that f(2) [of ?t] f(3) [of ?t] f(1) [of ?t] nt
    by (cases "j = i") (auto simp: sound_runner_def explained_def same_def_def)
  moreover have "passed rs j \<longrightarrow> passed (set_task i f rs) j"
    using len f(2) [of ?t] g by (cases "j = i") (auto simp: passed_def startable_def)
  ultimately show ?thesis using sound keys len by (simp add: sound_runner_def del: set_map)
qed

lemma start_loop_sound:
  assumes "start_loop env is rs = (x, rs')" and "sound_runner rs" and "\<forall>i \<in> set is. passed rs i"
  shows "sound_runner rs' \<and> (\<forall>i. passed rs i \<longrightarrow> passed rs' i)"
  using assms
proof (induction "is" arbitrary: rs)
  case (Cons i "is")
  obtain y rs1 where e: "ensure_cluster env i rs = (y, rs1)" by (cases "ensure_cluster env i rs")
  note frame1 = sound_frame [OF conjunct1 [OF ensure_cluster_frame [OF e]] conjunct2 [OF ensure_cluster_frame [OF e]]]
  show ?case
  proof (cases y)
    case (Inl err)
    with Cons.prems e frame1 show ?thesis by auto
  next
    case (Inr c)
    let ?rs2 = "note_created i c rs1"
    let ?upd = "\<lambda>t. t\<lparr>tr_cluster_instance := map_option (\<lambda>c. jobj [(''cluster_id'', JStr c)]) c, tr_state := rs_running,
                tr_start_time := now_of env ?rs2, tr_attempt_number := tr_attempt_number t + 1\<rparr>"
    define rs3 where "rs3 = tick (set_task i ?upd ?rs2)"
    from Cons.prems e Inr have run: "start_loop env is rs3 = (x, rs')" by (simp add: Let_def rs3_def)
    have frame: "sound_runner ?rs2 = sound_runner rs" "passed ?rs2 = passed rs"
      using frame1 sound_frame [of ?rs2 rs1] by simp_all
    have upd: "same_def t (?upd t)" "\<not> is_terminal (tr_state (?upd t))" "tr_output (?upd t) = tr_output t" for t
      by (simp_all add: same_def_def rs_running_def is_terminal_def)
    have step: "sound_runner (set_task i ?upd ?rs2) \<and> (passed ?rs2 j \<longrightarrow> passed (set_task i ?upd ?rs2) j)" for j
      by (rule running_sound) (use frame upd Cons.prems(2,3) in auto)
    have p3: "passed rs j \<Longrightarrow> passed rs3 j" for j using step [of j] frame by (simp add: rs3_def)
    have "sound_runner rs3" using step by (simp add: rs3_def)
    from Cons.IH [OF run this] p3 Cons.prems(3) show ?thesis by simp
  qed
qed auto

section \<open>Results\<close>

definition joined_task :: "env \<Rightarrow> joined \<Rightarrow> runner \<Rightarrow> task_run \<Rightarrow> task_run" where
  "joined_task env d rs t = t\<lparr>tr_state := jd_state d, tr_output := Some (jd_out d), tr_end_time := now_of env rs,
     tr_execution_duration := wrap_i64 (now_of env rs - tr_start_time t), tr_attempt_number := jd_attempts d\<rparr>"

lemma record_finish:
  "jd_index d < length (tasks_of rs) \<Longrightarrow>
     record_result env (Some d) rs = save_run (tick (finish (jd_index d) (joined_task env d rs) rs))"
  by (simp add: record_result_def Let_def finish_def joined_task_def [abs_def] finish_tick)

text \<open>The results of a batch: of its own tasks, each once at most, final.\<close>

definition results :: "joined option list \<Rightarrow> joined list" where
  "results js = filter_map (\<lambda>j. j) js"

definition own_results :: "nat list \<Rightarrow> joined option list \<Rightarrow> bool" where
  "own_results is js \<longleftrightarrow> distinct (map jd_index (results js)) \<and>
     list_all (\<lambda>d. jd_index d \<in> set is \<and> is_terminal (jd_state d)) (results js)"

definition batches_own :: "env \<Rightarrow> bool" where
  "batches_own env \<longleftrightarrow> (\<forall>r is. own_results is (e_batch env r is))"

lemma results_simps [simp]:
  "results [] = []" "results (None # js) = results js" "results (Some d # js) = d # results js"
  by (simp_all add: results_def filter_map_def List.map_filter_simps)

lemma record_none [simp]: "record_result env None rs = save_run rs"
  by (simp add: record_result_def)

lemma records_sound:
  assumes "sound_runner rs" and "own_results is js" and "\<forall>d \<in> set (results js). passed rs (jd_index d)"
  shows "sound_runner (fold (record_result env) js rs)"
  using assms
proof (induction js arbitrary: rs)
  case (Cons j js)
  show ?case
  proof (cases j)
    case None
    with Cons show ?thesis by (simp add: own_results_def)
  next
    case (Some d)
    have p: "startable rs (jd_index d)" "gate (rs_done rs) (tasks_of rs ! jd_index d)"
      using Cons.prems(3) Some by (auto simp: passed_def)
    then have len: "jd_index d < length (tasks_of rs)" by (simp add: startable_def)
    have own: "is_terminal (jd_state d)" "own_results is js" "jd_index d \<notin> jd_index ` set (results js)"
      using Cons.prems(2) Some by (auto simp: own_results_def)
    let ?rs1 = "finish (jd_index d) (joined_task env d rs) rs"
    have 1: "sound_runner ?rs1"
      by (rule finish_sound [OF Cons.prems(1) p(1)]) (use p own in \<open>simp_all add: joined_task_def same_def_def\<close>)
    have 2: "\<forall>e \<in> set (results js). passed ?rs1 (jd_index e)"
      using finish_passed [OF Cons.prems(1) p(1)] Cons.prems(3) Some own(3) by (auto simp: image_iff)
    have "sound_runner (fold (record_result env) js (record_result env (Some d) rs))"
      by (rule Cons.IH) (use 1 2 own record_finish [OF len] in auto)
    with Some show ?thesis by simp
  qed
qed simp

lemma ready_startable: "i \<in> set (ready rs) \<Longrightarrow> startable rs i"
  by (auto simp: ready_def startable_def remaining_iff)

lemma round_sound:
  assumes env: "batches_own env" and sound: "sound_runner rs" and step: "round env rs = Going rs'"
  shows "sound_runner rs'"
proof -
  let ?rs1 = "tick rs"
  obtain out rs2 where g: "gate_loop env (ready ?rs1) [] ?rs1 = (out, rs2)" by (cases "gate_loop env (ready ?rs1) [] ?rs1")
  have going: "(if out = [] then Going (save_run rs2) else run_batch env out rs2) = Going rs'"
    using step g by (auto simp: round_def Let_def split: if_splits)
  have gs: "sound_runner rs2 \<and> (\<forall>i \<in> set out. passed rs2 i)"
    by (rule gate_loop_sound [OF g]) (use sound ready_startable in auto)
  show ?thesis
  proof (cases "out = []")
    case True
    with going gs show ?thesis by auto
  next
    case False
    obtain x rs3 where s: "start_loop env out rs2 = (x, rs3)" by (cases "start_loop env out rs2")
    with False going obtain rs4 where rs4: "rs4 = save_run rs3"
      and rs': "rs' = fold (record_result env) (e_batch env (rs_run rs4) out) rs4"
      by (cases x) (auto simp: run_batch_def Let_def)
    have st: "sound_runner rs4 \<and> (\<forall>i \<in> set out. passed rs4 i)"
      using start_loop_sound [OF s] gs rs4 by auto
    have own: "own_results out (e_batch env (rs_run rs4) out)" using env by (simp add: batches_own_def)
    show ?thesis unfolding rs'
      by (rule records_sound [OF _ own]) (use st own in \<open>auto simp: own_results_def list_all_iff\<close>)
  qed
qed

section \<open>The end of a run\<close>

definition outcomes :: "run \<Rightarrow> (string \<times> run_state) list" where
  "outcomes r = map (\<lambda>t. (tr_task_key t, tr_state t)) (rn_tasks r)"

definition kept :: "task_run list \<Rightarrow> task_run list \<Rightarrow> bool" where
  "kept ts ts' \<longleftrightarrow> length ts' = length ts \<and>
     (\<forall>j < length ts. same_def (ts ! j) (ts' ! j) \<and> tr_output (ts' ! j) = tr_output (ts ! j) \<and>
        (if is_terminal (tr_state (ts ! j)) then ts' ! j = ts ! j else tr_state (ts' ! j) \<noteq> skipped_state))"

lemma fold_kept:
  assumes h: "\<And>i rs. length (tasks_of (h i rs)) = length (tasks_of rs)"
      "\<And>i j rs. j < length (tasks_of rs) \<Longrightarrow> same_def (tasks_of rs ! j) (tasks_of (h i rs) ! j) \<and>
         tr_output (tasks_of (h i rs) ! j) = tr_output (tasks_of rs ! j) \<and>
         (if j = i then tr_state (tasks_of (h i rs) ! j) \<noteq> skipped_state else tasks_of (h i rs) ! j = tasks_of rs ! j)"
  shows "length (tasks_of (fold h is rs)) = length (tasks_of rs) \<and> (\<forall>j < length (tasks_of rs).
     same_def (tasks_of rs ! j) (tasks_of (fold h is rs) ! j) \<and>
     tr_output (tasks_of (fold h is rs) ! j) = tr_output (tasks_of rs ! j) \<and>
     (j \<notin> set is \<longrightarrow> tasks_of (fold h is rs) ! j = tasks_of rs ! j) \<and>
     (j \<in> set is \<or> tr_state (tasks_of rs ! j) \<noteq> skipped_state \<longrightarrow> tr_state (tasks_of (fold h is rs) ! j) \<noteq> skipped_state))"
proof (induction "is" arbitrary: rs)
  case Nil
  then show ?case by (simp add: same_def_def)
next
  case (Cons i "is")
  note IH = Cons.IH [of "h i rs", unfolded h(1)]
  show ?case
  proof (intro conjI allI impI)
    fix j assume j: "j < length (tasks_of rs)"
    note hj = h(2) [OF j, of i] and fj = IH [THEN conjunct2, rule_format, OF j]
    show "same_def (tasks_of rs ! j) (tasks_of (fold h (i # is) rs) ! j)" using hj fj by (auto simp: same_def_def)
    show "tr_output (tasks_of (fold h (i # is) rs) ! j) = tr_output (tasks_of rs ! j)" using hj fj by auto
    show "tasks_of (fold h (i # is) rs) ! j = tasks_of rs ! j" if "j \<notin> set (i # is)" using that hj fj by auto
    show "tr_state (tasks_of (fold h (i # is) rs) ! j) \<noteq> skipped_state"
      if "j \<in> set (i # is) \<or> tr_state (tasks_of rs ! j) \<noteq> skipped_state" using that hj fj by (auto split: if_splits)
  qed (use IH in simp)
qed

lemma not_skipped [simp]: "rs_terminated w m \<noteq> skipped_state"
  by (simp add: rs_terminated_def skipped_state_def)

lemma round_stop_kept: "round env rs = Stop rs' \<Longrightarrow> kept (tasks_of rs) (tasks_of rs')"
proof -
  assume stop: "round env rs = Stop rs'"
  consider "rs' = rs" "remaining rs = []"
    | "rs' = time_out_all env (remaining rs) ((tick rs)\<lparr>rs_timed_out := True\<rparr>)"
    | "rs' = fail_all (remaining rs) (tick rs)"
    using stop by (auto simp: round_def run_batch_def Let_def split: if_splits prod.splits sum.splits)
  then show ?thesis
  proof cases
    case 1
    then show ?thesis using remaining_iff [of _ rs] by (auto simp: kept_def same_def_def)
  next
    case 2
    let ?h = "\<lambda>i rs. tick (set_task i (\<lambda>t. t\<lparr>tr_state := rs_terminated ''TIMEDOUT'' ''Run exceeded timeout_seconds'',
        tr_end_time := now_of env rs\<rparr>) rs)"
    note fold_kept [of ?h "remaining rs" "(tick rs)\<lparr>rs_timed_out := True\<rparr>"]
    then show ?thesis unfolding 2 time_out_all_def
      by (simp add: same_def_def nth_list_update kept_def remaining_iff)
  next
    case 3
    let ?h = "\<lambda>i rs. set_task i (\<lambda>t. t\<lparr>tr_state :=
        rs_terminated ''FAILED'' ''Dependency cycle or missing task_key in depends_on''\<rparr>) rs"
    note fold_kept [of ?h "remaining rs" "tick rs"]
    then show ?thesis unfolding 3 fail_all_def
      by (simp add: same_def_def nth_list_update kept_def remaining_iff)
  qed
qed

lemma outcomes_get:
  assumes "distinct (map tr_task_key (rn_tasks r))" and "j < length (rn_tasks r)"
  shows "map_of (outcomes r) (tr_task_key (rn_tasks r ! j)) = Some (tr_state (rn_tasks r ! j))"
proof -
  have "distinct (map fst (outcomes r))" using assms(1) by (simp add: outcomes_def comp_def)
  moreover have "(tr_task_key (rn_tasks r ! j), tr_state (rn_tasks r ! j)) \<in> set (outcomes r)"
    using assms(2) by (auto simp: outcomes_def)
  ultimately show ?thesis by simp
qed

lemma done_outcomes:
  assumes sound: "sound_runner rs" and kept: "kept (tasks_of rs) (tasks_of rs')"
    and k: "map_of (rs_done rs) k = Some s"
  shows "map_of (outcomes (rs_run rs')) k = Some s"
proof -
  have "k \<in> set (map tr_task_key (tasks_of rs))"
    using k sound unfolding sound_runner_def by blast
  then obtain j where j: "j < length (tasks_of rs)" "k = tr_task_key (tasks_of rs ! j)"
    by (auto simp: in_set_conv_nth)
  have e: "explained (rs_done rs) (tasks_of rs ! j)" using sound j by (simp add: sound_runner_def)
  with k j have t: "is_terminal (tr_state (tasks_of rs ! j))" "s = tr_state (tasks_of rs ! j)"
    by (auto simp: explained_def split: if_splits)
  have keys: "map tr_task_key (tasks_of rs') = map tr_task_key (tasks_of rs)"
    by (rule nth_equalityI) (use kept in \<open>auto simp: kept_def same_def_def\<close>)
  have "tasks_of rs' ! j = tasks_of rs ! j" "j < length (tasks_of rs')" using kept j t by (auto simp: kept_def)
  with outcomes_get [of "rs_run rs'" j] keys sound t j show ?thesis by (simp add: sound_runner_def)
qed

lemma stop_explained:
  assumes sound: "sound_runner rs" and kept: "kept (tasks_of rs) (tasks_of rs')" and t: "t \<in> set (tasks_of rs')"
  shows "(tr_output t \<noteq> None \<longrightarrow> deps_done (outcomes (rs_run rs')) t \<and> gate (outcomes (rs_run rs')) t) \<and>
    (tr_state t = skipped_state \<and> tr_output t = None \<longrightarrow> deps_done (outcomes (rs_run rs')) t \<and> \<not> gate (outcomes (rs_run rs')) t)"
proof -
  from t kept obtain j where j: "j < length (tasks_of rs)" "t = tasks_of rs' ! j"
    by (auto simp: kept_def in_set_conv_nth)
  let ?u = "tasks_of rs ! j"
  have e: "explained (rs_done rs) ?u" using sound j by (simp add: sound_runner_def)
  have kj: "tr_output t = tr_output ?u" "if is_terminal (tr_state ?u) then t = ?u else tr_state t \<noteq> skipped_state"
    using kept j by (auto simp: kept_def)
  show ?thesis
  proof (cases "is_terminal (tr_state ?u)")
    case True
    with kj have t: "t = ?u" by simp
    from e True have dd: "deps_done (rs_done rs) ?u" "tr_output ?u \<noteq> None \<longleftrightarrow> gate (rs_done rs) ?u" by (auto simp: explained_def)
    have same: "map_of (outcomes (rs_run rs')) k = map_of (rs_done rs) k" if k: "k \<in> set (dep_keys (tr_depends_on ?u))" for k
      using dd(1) k done_outcomes [OF sound kept, of k] by (auto simp: deps_done_iff)
    have "gate (outcomes (rs_run rs')) ?u = gate (rs_done rs) ?u" by (rule gate_cong [OF same]) simp_all
    moreover have "deps_done (outcomes (rs_run rs')) ?u" using dd(1) same by (simp add: deps_done_iff)
    ultimately show ?thesis unfolding t by (simp flip: dd(2))
  next
    case False
    with e kj show ?thesis by (auto simp: explained_def)
  qed
qed

lemma rounds_explained:
  "batches_own env \<Longrightarrow> sound_runner rs \<Longrightarrow> rounds env n rs = Some (Inr rs') \<Longrightarrow>
     \<exists>rs0. sound_runner rs0 \<and> kept (tasks_of rs0) (tasks_of rs')"
proof (induction n arbitrary: rs)
  case (Suc n)
  show ?case
  proof (cases "round env rs")
    case (Going rs1)
    from Suc.IH [OF Suc.prems(1) round_sound [OF Suc.prems(1,2) Going]] Suc.prems(3) Going show ?thesis by simp
  next
    case (Stop rs1)
    with Suc.prems round_stop_kept [OF Stop] show ?thesis by auto
  qed (use Suc.prems in simp)
qed simp

definition fresh_task :: "task_run \<Rightarrow> bool" where
  "fresh_task t \<longleftrightarrow> \<not> is_terminal (tr_state t) \<and> tr_output t = None"


section \<open>A run at work\<close>

text \<open>A three-task run: \<open>load\<close> fails, so \<open>train\<close> is skipped and \<open>report\<close>, which runs when all is done, runs.\<close>

definition wit_task :: "string \<Rightarrow> string list \<Rightarrow> string option \<Rightarrow> task_run" where
  "wit_task k deps cond = \<lparr>tr_run_id = 1, tr_task_key = k,
     tr_depends_on = map (\<lambda>d. jobj [(''task_key'', JStr d)]) deps, tr_run_if = cond, tr_state = rs_pending, tr_start_time = 0,
     tr_end_time = 0, tr_setup_duration = 0, tr_execution_duration = 0, tr_cleanup_duration = 0, tr_attempt_number = 0,
     tr_cluster_instance = None, tr_task_def = [], tr_output = None\<rparr>"

definition wit_run :: run where
  "wit_run = \<lparr>rn_run_id = 1, rn_job_id = None, rn_run_name = [], rn_number_in_job = 1, rn_creator = [], rn_state = rs_pending,
     rn_start_time = 0, rn_end_time = 0, rn_setup_duration = 0, rn_execution_duration = 0, rn_cleanup_duration = 0,
     rn_trigger = [], rn_run_type = [], rn_tasks = [wit_task ''train'' [''load''] None,
       wit_task ''report'' [''train''] (Some ''ALL_DONE''), wit_task ''load'' [] None], rn_job_clusters = [],
     rn_job_parameters = [], rn_overriding_parameters = JNull, rn_repair_history = [], rn_created_clusters = [],
     rn_parent_run_id = None, rn_format = [], rn_git_source = None\<rparr>"

definition wit_env :: env where
  "wit_env = \<lparr>e_clock = (\<lambda>_. 5), e_expired = (\<lambda>_. False), e_create_cluster = (\<lambda>_ _. Inr ''c''), e_default_cluster = (\<lambda>_ _. Inr ''c''),
     e_batch = (\<lambda>r is. map (\<lambda>i. Some \<lparr>jd_index = i, jd_attempts = 1,
       jd_state = rs_terminated (if tr_task_key (rn_tasks r ! i) = ''load'' then ''FAILED'' else ''SUCCESS'') [],
       jd_out = JNull\<rparr>) (remdups is))\<rparr>"

lemma wit_results: "results (map (\<lambda>i. Some (f i)) xs) = map f xs"
  by (induction xs) simp_all

lemma wit_own: "batches_own wit_env"
  by (simp add: batches_own_def own_results_def wit_env_def wit_results comp_def list_all_iff)

definition wit_body :: task_body where
  "wit_body r i n = Inr ((if tr_task_key (rn_tasks r ! i) = ''load'' then ''FAILED'' else ''SUCCESS'', []), JNull)"

text \<open>No task of the run may be retried, so each is joined after its first attempt.\<close>

definition once_env :: env where
  "once_env = wit_env\<lparr>e_batch := (\<lambda>r is. map (task_joined wit_body r) is)\<rparr>"


definition wit_end :: runner where
  "wit_end = (case execute_run wit_env 4 wit_run of Some (Inr rs) \<Rightarrow> rs | _ \<Rightarrow> start_runner wit_env wit_run)"

lemma wit_runs: "map (\<lambda>t. result_state (tr_state t)) (rn_tasks (rs_run wit_end)) = [Some ''EXCLUDED'', Some ''SUCCESS'', Some ''FAILED'']"
  by code_simp

lemma wit_end: "execute_run wit_env 4 wit_run = Some (Inr wit_end)"
proof -
  have "case execute_run wit_env 4 wit_run of Some (Inr rs) \<Rightarrow> True | _ \<Rightarrow> False" by code_simp
  then show ?thesis by (auto simp: wit_end_def split: option.splits sum.splits)
qed

lemma wit_outputs: "map (\<lambda>t. tr_output t = None) (rn_tasks (rs_run wit_end)) = [True, False, False]"
  by code_simp


text \<open>\<open>NONE_FAILED\<close> does what \<open>ALL_SUCCESS\<close> does, and \<open>AT_LEAST_ONE_FAILED\<close> is its negation, so that a
  dependency that was skipped counts as a failed one: with \<open>NONE_FAILED\<close> a task whose dependency was
  skipped is skipped too.\<close>

theorem none_failed_is_all_success:
  "gate dn (t\<lparr>tr_run_if := Some ''NONE_FAILED''\<rparr>) = gate dn (t\<lparr>tr_run_if := Some ''ALL_SUCCESS''\<rparr>) \<and>
   gate dn (t\<lparr>tr_run_if := Some ''AT_LEAST_ONE_FAILED''\<rparr>) = (\<not> gate dn (t\<lparr>tr_run_if := None\<rparr>)) \<and>
   (list_ex (\<lambda>k. map_of dn k = Some skipped_state) (dep_keys (tr_depends_on t)) \<longrightarrow>
      \<not> gate dn (t\<lparr>tr_run_if := Some ''NONE_FAILED''\<rparr>))"
proof -
  let ?t = "\<lambda>c. t\<lparr>tr_run_if := c\<rparr>"
  have ds: "dep_states dn (?t c) = dep_states dn t" "outcome_ok dn (?t c) = outcome_ok dn t" for c
    by (simp_all add: dep_states_def outcome_ok_def fun_eq_iff)
  have neg: "list_ex (\<lambda>(k, s). \<not> succeeded s \<or> \<not> outcome_ok dn t k) (dep_states dn t) =
      (\<not> list_all (\<lambda>(k, s). succeeded s \<and> outcome_ok dn t k) (dep_states dn t))"
    by (auto simp: list_ex_iff list_all_iff)
  have skip: "\<not> list_all (\<lambda>(k, s). succeeded s \<and> outcome_ok dn t k) (dep_states dn t)"
    if "list_ex (\<lambda>k. map_of dn k = Some skipped_state) (dep_keys (tr_depends_on t))"
  proof -
    from that obtain k where "k \<in> set (dep_keys (tr_depends_on t))" "map_of dn k = Some skipped_state" by (auto simp: list_ex_iff)
    then have "(k, skipped_state) \<in> set (dep_states dn t)" by (auto simp: dep_states_def filter_map_set)
    moreover have "\<not> succeeded skipped_state" by (simp add: succeeded_def skipped_state_def)
    ultimately show ?thesis by (fastforce simp: list_all_iff)
  qed
  show ?thesis using skip unfolding gate_def Let_def ds neg by simp
qed

lemma none_failed_is_all_success_witness:
  "\<not> gate [(''a'', skipped_state)] ((wit_task ''b'' [''a''] None)\<lparr>tr_run_if := Some ''NONE_FAILED''\<rparr>)"
proof -
  have "list_ex (\<lambda>k. map_of [(''a'', skipped_state)] k = Some skipped_state) (dep_keys (tr_depends_on (wit_task ''b'' [''a''] None)))"
    by code_simp
  then show ?thesis by (rule none_failed_is_all_success [THEN conjunct2, THEN conjunct2, THEN mp])
qed

end
