(* ===== verification/Jobs_Repair_Theorems.thy ===== *)
theory Jobs_Repair_Theorems
  imports Jobs_Repair Jobs_Runner_Safety
begin

text \<open>
  Repairing: the tasks to rerun are exactly those reached along dependencies, and what becomes of a
  repaired run whose tasks depend on tasks that are not rerun.
\<close>

section \<open>The closure\<close>

inductive must_rerun :: "task_run list \<Rightarrow> string set \<Rightarrow> string \<Rightarrow> bool" for ts R where
  asked: "k \<in> R \<Longrightarrow> must_rerun ts R k"
| dependent: "t \<in> set ts \<Longrightarrow> k \<in> set (dep_keys (tr_depends_on t)) \<Longrightarrow> must_rerun ts R k \<Longrightarrow> must_rerun ts R (tr_task_key t)"

lemma pass_sound:
  "rerun_pass us R c = (R', c') \<Longrightarrow> set us \<subseteq> set ts \<Longrightarrow> \<forall>k \<in> set R. must_rerun ts R0 k \<Longrightarrow> \<forall>k \<in> set R'. must_rerun ts R0 k"
proof (induction us arbitrary: R c)
  case (Cons t us)
  show ?case
  proof (cases "\<not> List.member R (tr_task_key t) \<and> depends_on_any R t")
    case True
    then obtain k where "k \<in> set (dep_keys (tr_depends_on t))" "k \<in> set R" by (auto simp: depends_on_any_def list_ex_iff)
    with Cons.prems have "must_rerun ts R0 (tr_task_key t)" by (auto intro: must_rerun.dependent)
    with Cons.IH [of "tr_task_key t # R" True] Cons.prems True show ?thesis by simp
  next
    case False
    with Cons.prems(1) have "rerun_pass us R c = (R', c')" by (auto split: if_splits)
    from Cons.IH [OF this] Cons.prems show ?thesis by simp
  qed
qed simp

lemma closure_sound: "\<forall>k \<in> set R. must_rerun ts R0 k \<Longrightarrow> k \<in> set (rerun_closure ts R) \<Longrightarrow> must_rerun ts R0 k"
proof (induction ts R rule: rerun_closure.induct)
  case (1 ts R)
  obtain R' c where p: "rerun_pass ts R False = (R', c)" by (cases "rerun_pass ts R False")
  note s = pass_sound [OF p subset_refl 1(2)]
  show ?case
  proof (cases c)
    case True
    with 1(3) p have "k \<in> set (rerun_closure ts R')" by (simp add: rerun_closure.simps [of ts R])
    from 1(1) [OF p [symmetric] True s this] show ?thesis .
  next
    case False
    with 1(3) p s show ?thesis by (simp add: rerun_closure.simps [of ts R])
  qed
qed

lemma closure_closed:
  "set R \<subseteq> set (rerun_closure ts R) \<and>
   (\<forall>t \<in> set ts. depends_on_any (rerun_closure ts R) t \<longrightarrow> tr_task_key t \<in> set (rerun_closure ts R))"
proof (induction ts R rule: rerun_closure.induct)
  case (1 ts R)
  obtain R' c where p: "rerun_pass ts R False = (R', c)" by (cases "rerun_pass ts R False")
  show ?case
  proof (cases c)
    case True
    from 1 [OF p [symmetric] True] pass_mono [OF p] p True show ?thesis by (auto simp: rerun_closure.simps [of ts R])
  next
    case False
    with pass_fixed [of ts R R'] p show ?thesis by (auto simp: rerun_closure.simps [of ts R])
  qed
qed

text \<open>C7: The loop that collects the tasks to rerun ends, and with rerun_dependent_tasks it yields exactly the
  tasks asked for and those that depend on one of them through any chain of dependencies.\<close>

theorem rerun_closure_exact: "k \<in> set (rerun_closure ts R) \<longleftrightarrow> must_rerun ts (set R) k"
proof
  assume "k \<in> set (rerun_closure ts R)"
  then show "must_rerun ts (set R) k" by (rule closure_sound [rotated]) (auto intro: must_rerun.asked)
next
  assume "must_rerun ts (set R) k"
  then show "k \<in> set (rerun_closure ts R)"
    by induction (use closure_closed [of R ts] in \<open>auto simp: depends_on_any_def list_ex_iff\<close>)
qed

section \<open>Running a repaired run\<close>

definition blocked_task :: "task_run \<Rightarrow> bool" where
  "blocked_task t \<longleftrightarrow> is_terminal (tr_state t) \<or> dep_keys (tr_depends_on t) \<noteq> []"

definition cycle_state :: run_state where
  "cycle_state = rs_terminated ''FAILED'' ''Dependency cycle or missing task_key in depends_on''"

definition give_up :: "task_run \<Rightarrow> task_run" where
  "give_up t = (if is_terminal (tr_state t) then t else t\<lparr>tr_state := cycle_state\<rparr>)"

lemma fail_all_nth:
  "j < length (tasks_of rs) \<Longrightarrow> tasks_of (fail_all is rs) ! j =
     (if j \<in> set is then (tasks_of rs ! j)\<lparr>tr_state := cycle_state\<rparr> else tasks_of rs ! j)"
  unfolding fail_all_def cycle_state_def by (induction "is" arbitrary: rs) (auto simp: nth_list_update)

lemma fail_all_tasks: "tasks_of (fail_all (remaining rs) rs) = map give_up (tasks_of rs)"
  by (rule nth_equalityI) (auto simp: fail_all_nth remaining_iff give_up_def)

lemma blocked_not_ready:
  assumes "rs_done rs = []" and "list_all blocked_task (tasks_of rs)"
  shows "ready rs = []"
proof -
  have "\<not> deps_done [] (tasks_of rs ! i)" if "i \<in> set (remaining rs)" for i
  proof -
    have "i < length (tasks_of rs)" "\<not> is_terminal (tr_state (tasks_of rs ! i))" using that by (simp_all add: remaining_iff)
    with assms(2) have "dep_keys (tr_depends_on (tasks_of rs ! i)) \<noteq> []" by (auto simp: list_all_length blocked_task_def)
    then obtain k where "k \<in> set (dep_keys (tr_depends_on (tasks_of rs ! i)))" by (cases "dep_keys (tr_depends_on (tasks_of rs ! i))") auto
    then show ?thesis by (auto simp: deps_done_iff)
  qed
  with assms(1) show ?thesis by (auto simp: ready_def filter_empty_conv)
qed

lemma blocked_execution:
  assumes blocked: "list_all blocked_task (rn_tasks r)" and some: "\<not> list_all (\<lambda>t. is_terminal (tr_state t)) (rn_tasks r)"
    and time: "\<not> e_expired env 1"
  shows "\<exists>rs. execute_run env (Suc n) r = Some (Inr rs) \<and> rn_tasks (rs_run rs) = map give_up (rn_tasks r) \<and>
    result_state (rn_state (rs_run rs)) \<noteq> Some ''SUCCESS''"
proof -
  let ?rs = "start_runner env r"
  have tasks: "tasks_of ?rs = rn_tasks r" "rs_done ?rs = []" "rs_tick ?rs = 1" "rs_timed_out ?rs = False"
    by (simp_all add: start_runner_def save_run_def)
  obtain t where t: "t \<in> set (rn_tasks r)" "\<not> is_terminal (tr_state t)" using some by (auto simp: list_all_iff)
  then have rem: "remaining ?rs \<noteq> []" using remaining_iff [of _ ?rs] unfolding tasks by (metis empty_iff empty_set in_set_conv_nth)
  have rdy: "ready ?rs = []" by (rule blocked_not_ready) (simp_all add: tasks blocked)
  have "round env ?rs = Stop (fail_all (remaining ?rs) (tick ?rs))"
    using rem rdy time by (simp add: round_def Let_def tasks)
  then have run: "execute_run env (Suc n) r = Some (Inr (finalise env (fail_all (remaining ?rs) (tick ?rs))))"
    by (simp add: execute_run_def)
  have gu: "tasks_of (fail_all (remaining ?rs) (tick ?rs)) = map give_up (rn_tasks r)"
    using fail_all_tasks [of "tick ?rs"] by (simp add: tasks)
  have "give_up t \<in> set (map give_up (rn_tasks r))" "has_result ''FAILED'' (give_up t)"
    using t by (auto simp: give_up_def has_result_def cycle_state_def rs_terminated_def)
  then have "list_ex (\<lambda>t. has_result ''FAILED'' t \<or> has_result ''TIMEDOUT'' t \<or> has_result ''CANCELED'' t) (map give_up (rn_tasks r))"
    by (auto simp: list_ex_iff simp del: set_map)
  then have "result_state (final_state b r') \<noteq> Some ''SUCCESS''" if "rn_tasks r' = map give_up (rn_tasks r)" for b r'
    unfolding final_state_def Let_def that by (simp add: rs_terminated_def)
  then have "result_state (rn_state (rs_run (finalise env (fail_all (remaining ?rs) (tick ?rs))))) \<noteq> Some ''SUCCESS''"
    using gu by (simp add: finalise_def save_run_def tick_def map_run_def)
  then show ?thesis using run gu by auto
qed

text \<open>C8: Repairing a run so that only tasks with dependencies are rerun never executes them: the runner
  starts with an empty set of finished tasks, finds none of them ready and fails them all as a
  dependency cycle, although the tasks they depend on have finished.\<close>

theorem repair_dead_end:
  assumes "list_all (\<lambda>t. is_terminal (tr_state t)) (rn_tasks r)"
    and "list_all (\<lambda>t. List.member rerun (tr_task_key t) \<longrightarrow> dep_keys (tr_depends_on t) \<noteq> []) (rn_tasks r)"
    and "list_ex (\<lambda>t. List.member rerun (tr_task_key t)) (rn_tasks r)"
    and "\<not> e_expired env 1"
  shows "\<exists>rs. execute_run env (Suc n) (repaired_run rerun jps nps rid now r) = Some (Inr rs) \<and>
    map tr_state (rn_tasks (rs_run rs)) =
      map (\<lambda>t. if List.member rerun (tr_task_key t) then cycle_state else tr_state t) (rn_tasks r) \<and>
    result_state (rn_state (rs_run rs)) \<noteq> Some ''SUCCESS''"
proof -
  let ?r = "repaired_run rerun jps nps rid now r"
  have pending: "\<not> is_terminal rs_pending" by (simp add: is_terminal_def rs_pending_def)
  have tasks: "rn_tasks ?r = map (\<lambda>t. if List.member rerun (tr_task_key t) then reset_task nps t else t) (rn_tasks r)"
    by (simp add: repaired_run_def)
  have blocked: "list_all blocked_task (rn_tasks ?r)"
    using assms(1,2) unfolding tasks by (auto simp: list_all_iff blocked_task_def reset_task_def)
  from assms(3) obtain t where "t \<in> set (rn_tasks r)" "List.member rerun (tr_task_key t)" by (auto simp: list_ex_iff)
  then have "reset_task nps t \<in> set (rn_tasks ?r)" unfolding tasks by force
  moreover have "\<not> is_terminal (tr_state (reset_task nps t))" using pending by (simp add: reset_task_def)
  ultimately have some: "\<not> list_all (\<lambda>t. is_terminal (tr_state t)) (rn_tasks ?r)" by (auto simp: list_all_iff)
  have states: "map tr_state (map give_up (rn_tasks ?r)) =
      map (\<lambda>t. if List.member rerun (tr_task_key t) then cycle_state else tr_state t) (rn_tasks r)"
    using assms(1) pending unfolding tasks by (auto simp: list_all_iff give_up_def reset_task_def)
  from blocked_execution [OF blocked some assms(4), of n] obtain rs where
    "execute_run env (Suc n) ?r = Some (Inr rs)" "rn_tasks (rs_run rs) = map give_up (rn_tasks ?r)"
    "result_state (rn_state (rs_run rs)) \<noteq> Some ''SUCCESS''" by blast
  with states show ?thesis by auto
qed

text \<open>The run of the last section, repaired: \<open>train\<close> alone is rerun and is not executed.\<close>

lemma repair_dead_end_witness:
  "\<exists>rs. execute_run wit_env 4 (repaired_run [''train''] [] [] 1001 9 (rs_run wit_end)) = Some (Inr rs) \<and>
    map tr_state (rn_tasks (rs_run rs)) =
      map (\<lambda>t. if List.member [''train''] (tr_task_key t) then cycle_state else tr_state t) (rn_tasks (rs_run wit_end)) \<and>
    result_state (rn_state (rs_run rs)) \<noteq> Some ''SUCCESS''"
proof -
  have "list_all (\<lambda>t. is_terminal (tr_state t)) (rn_tasks (rs_run wit_end))" by code_simp
  moreover have "list_all (\<lambda>t. List.member [''train''] (tr_task_key t) \<longrightarrow> dep_keys (tr_depends_on t) \<noteq> []) (rn_tasks (rs_run wit_end))"
    by code_simp
  moreover have "list_ex (\<lambda>t. List.member [''train''] (tr_task_key t)) (rn_tasks (rs_run wit_end))" by code_simp
  ultimately have "\<exists>rs. execute_run wit_env (Suc 3) (repaired_run [''train''] [] [] 1001 9 (rs_run wit_end)) = Some (Inr rs) \<and>
    map tr_state (rn_tasks (rs_run rs)) =
      map (\<lambda>t. if List.member [''train''] (tr_task_key t) then cycle_state else tr_state t) (rn_tasks (rs_run wit_end)) \<and>
    result_state (rn_state (rs_run rs)) \<noteq> Some ''SUCCESS''"
    by (rule repair_dead_end) (simp add: wit_env_def)
  then show ?thesis by (simp add: numeral_eq_Suc)
qed

end
