(* ===== verification/Jobs_Theorems.thy ===== *)
theory Jobs_Theorems
  imports Jobs_Repair Jobs_Runner_Safety Api_Store_Theorems
begin

text \<open>
  Properties of the job handlers: the settings accepted, the runs created from them, cancelling,
  the limit on concurrent runs and idempotency tokens.
\<close>

section \<open>Rules for handlers\<close>

named_theorems jm_simps

lemma jm_basic [jm_simps]:
  "h_ret x js = (Inr x, js)" "h_fail e js = (Inl e, js)" "jm_ask f js = (f (js_store js), js)"
  "jm_now js = (Inr (js_clock js (js_tick js)), js\<lparr>js_tick := Suc (js_tick js)\<rparr>)"
  by (simp_all add: h_basic jm_ask_def jm_now_def)

text \<open>Steps that do not touch the documents.\<close>

definition keeps_docs :: "'a jm \<Rightarrow> bool" where
  "keeps_docs m \<longleftrightarrow> (\<forall>js. st_docs (js_store (snd (m js))) = st_docs (js_store js) \<and>
     st_dialect (js_store (snd (m js))) = st_dialect (js_store js))"

interpretation same_docs: frame "\<lambda>js js'. st_docs (js_store js') = st_docs (js_store js) \<and>
     st_dialect (js_store js') = st_dialect (js_store js)"
  by unfold_locales simp_all

lemma keeps_docs_frame: "keeps_docs = moves_within (\<lambda>js js'. st_docs (js_store js') = st_docs (js_store js) \<and>
     st_dialect (js_store js') = st_dialect (js_store js))"
  by (simp add: fun_eq_iff keeps_docs_def moves_within_def)

lemma keeps_docs_then: "keeps_docs m \<Longrightarrow> (\<And>x. keeps_docs (f x)) \<Longrightarrow> keeps_docs (h_then m f)"
  unfolding keeps_docs_frame by (rule same_docs.within_then)

lemma keeps_docs_basic [simp]:
  "keeps_docs (h_ret x)" "keeps_docs (h_fail e)" "keeps_docs (jm_ask f)" "keeps_docs jm_now" "keeps_docs (jm_event ev)"
  "keeps_docs (jm_kv_set k v)" "keeps_docs (jm_seq n)" "keeps_docs (spawn_run p r t)" "keeps_docs (abort_run i)"
  by (simp_all add: keeps_docs_def jm_basic jm_event_def jm_kv_set_def jm_do_def jm_seq_def next_seq_def spawn_run_def abort_run_def Let_def)

lemma keeps_docs_create_tasks [simp]: "keeps_docs (create_tasks i nps ts)"
  by (induction ts) (auto simp: Let_def intro!: keeps_docs_then split: option.split)

lemma keeps_docs_job_number [simp]: "keeps_docs (job_number job)"
  by (simp add: job_number_def split: option.split)

lemma keeps_docs_cancel_tasks [simp]: "keeps_docs (cancel_tasks ts)"
  by (induction ts) (auto intro!: keeps_docs_then)

lemma keeps_docs_remember [simp]: "keeps_docs (remember key tok i)"
  by (simp add: remember_def split: option.split)

lemma keeps_docsD: "keeps_docs m \<Longrightarrow> m js = (r, js') \<Longrightarrow> st_docs (js_store js') = st_docs (js_store js) \<and>
    st_dialect (js_store js') = st_dialect (js_store js)"
  by (metis keeps_docs_def snd_conv)

section \<open>Reading what was written\<close>

lemma opt_any_not_null: "opt_any v = Some w \<Longrightarrow> not_null w"
  by (auto simp: opt_any_def not_null_def split: json.splits)

lemma field_any_not_null: "field_with opt_any (Some None) v k = Some w \<Longrightarrow> not_null w"
  by (auto simp: field_with_def not_null_def split: option.splits dest: opt_any_not_null [unfolded not_null_def])

lemma bind_Some: "Option.bind m f = Some y \<longleftrightarrow> (\<exists>x. m = Some x \<and> f x = Some y)"
  by (rule bind_eq_Some_conv)

lemma task_decoded_ok: "task_of_json v = Some t \<Longrightarrow> task_ok t"
  unfolding task_of_json_def
  by (clarsimp simp: bind_Some task_ok_def plain_def_def list_all_iff field_any_not_null split: if_splits)

lemma all_some_Some: "all_some xs = Some ys \<longleftrightarrow> xs = map Some ys"
proof (induction xs arbitrary: ys)
  case (Cons x xs)
  then show ?case by (cases x; cases ys) auto
qed auto

lemma run_decoded_ok: "run_of_json v = Some r \<Longrightarrow> run_ok r"
proof -
  assume r: "run_of_json v = Some r"
  then obtain ts where ts: "field_with tasks_of_json None v ''tasks'' = Some ts" "rn_tasks r = ts"
    unfolding run_of_json_def by (clarsimp simp: bind_Some)
  from r obtain gs where gs: "field_with opt_any (Some None) v ''git_source'' = Some gs" "rn_git_source r = gs"
    unfolding run_of_json_def by (clarsimp simp: bind_Some)
  from ts(1) obtain xs where "all_some (map task_of_json xs) = Some ts"
    by (auto simp: field_with_def tasks_of_json_def bind_Some split: option.splits)
  then have "\<forall>t \<in> set ts. \<exists>x. task_of_json x = Some t"
    by (auto simp: all_some_Some) (metis (no_types, lifting) image_eqI list.set_map imageE)
  then have "list_all task_ok ts" by (auto simp: list_all_iff intro: task_decoded_ok)
  with ts gs show ?thesis by (simp add: run_ok_def field_any_not_null)
qed

lemma show_int_inj [simp]: "show_int m = show_int n \<longleftrightarrow> m = n"
proof -
  have minus: "CHR ''-'' # s \<noteq> show_nat k" for s k
  proof
    assume eq: "CHR ''-'' # s = show_nat k"
    have "list_all is_digit (CHR ''-'' # s)" unfolding eq by (rule is_digit_show)
    then show False by simp
  qed
  show ?thesis using minus [of _ "nat m"] minus [of _ "nat n"]
    by (auto simp: show_int_def show_nat_inj dest: sym)
qed

lemma kinds_differ [simp]: "KIND_JOB \<noteq> KIND_RUN" "KIND_RUN \<noteq> KIND_JOB"
  by (simp_all add: KIND_JOB_def KIND_RUN_def)

lemma get_run_state: "get_run i js = (r, js') \<Longrightarrow> js' = js"
  by (simp add: get_run_def jm_basic)

lemma get_run_fst: "fst (get_run i js) = try_then (require_as run_of_json KIND_RUN (show_int i) ''Run'' (js_store js)) (\<lambda>dr. Inr (snd dr))"
  by (simp add: get_run_def jm_basic)

lemma get_run_ok: "get_run i js = (Inr r, js') \<Longrightarrow> run_ok r"
  by (auto simp: get_run_def jm_basic try_then_Inr require_as_def decode_opt_def decode_doc_def ok_or_def
      split: option.splits sum.splits dest: run_decoded_ok)

lemma run_ok_states: "run_ok r \<Longrightarrow> list_all task_ok ts \<Longrightarrow> run_ok (r\<lparr>rn_tasks := ts, rn_state := s, rn_end_time := t\<rparr>)"
  by (simp add: run_ok_def)

text \<open>Storing a run always succeeds and shows it, and no other run changes.\<close>

definition stored_run :: "run \<Rightarrow> jobs_state \<Rightarrow> jobs_state" where
  "stored_run r js = js\<lparr>js_tick := Suc (js_tick js), js_store := snd (store_upsert (js_clock js (js_tick js)) KIND_RUN workspace_id
     (show_int (rn_run_id r)) (map_option show_int (rn_job_id r)) (Some (rn_run_name r)) (run_to_json r) (js_store js))\<rparr>"

lemma store_run_eq: "store_run r js = (Inr (), stored_run r js)"
proof -
  obtain a s where u: "store_upsert (js_clock js (js_tick js)) KIND_RUN workspace_id (show_int (rn_run_id r))
     (map_option show_int (rn_job_id r)) (Some (rn_run_name r)) (run_to_json r) (js_store js) = (a, s)" by (rule prod.exhaust)
  then have "a = Inr ()" by (metis fst_conv upsert_ok)
  with u show ?thesis by (simp add: store_run_def h_then_def jm_basic jm_do_def stored_run_def)
qed

lemma get_stored_run:
  "run_ok r \<Longrightarrow> fst (get_run i (stored_run r js)) = (if i = rn_run_id r then Inr r else fst (get_run i js))"
  by (simp add: get_run_fst stored_run_def require_as_def decode_opt_def decode_doc_def get_after_upsert run_roundtrip)

section \<open>Cancelling\<close>

definition cancels :: "task_run \<Rightarrow> task_run \<Rightarrow> bool" where
  "cancels t t' \<longleftrightarrow> (if is_terminal (tr_state t) then t' = t
     else t' = t\<lparr>tr_state := cancelled, tr_end_time := tr_end_time t'\<rparr>)"

lemma cancelled_terminal [simp]: "is_terminal cancelled"
  by (simp add: cancelled_def rs_terminated_def is_terminal_def)

lemma cancel_tasks_spec:
  "\<exists>ts' n. cancel_tasks ts js = (Inr ts', js\<lparr>js_tick := n\<rparr>) \<and> list_all2 cancels ts ts'"
proof (induction ts arbitrary: js)
  case Nil
  show ?case by (rule exI [of _ "[]"], rule exI [of _ "js_tick js"]) (simp add: jm_basic)
next
  case (Cons t ts)
  show ?case
  proof (cases "is_terminal (tr_state t)")
    case True
    from Cons.IH [of js] obtain us n where u: "cancel_tasks ts js = (Inr us, js\<lparr>js_tick := n\<rparr>)" "list_all2 cancels ts us" by blast
    then have "cancel_tasks (t # ts) js = (Inr (t # us), js\<lparr>js_tick := n\<rparr>)" using True by (simp add: h_then_def jm_basic)
    moreover have "cancels t t" using True by (simp add: cancels_def)
    ultimately show ?thesis using u(2) by blast
  next
    case False
    let ?js0 = "js\<lparr>js_tick := Suc (js_tick js)\<rparr>" and ?t = "t\<lparr>tr_state := cancelled, tr_end_time := js_clock js (js_tick js)\<rparr>"
    from Cons.IH [of ?js0] obtain us n where u: "cancel_tasks ts ?js0 = (Inr us, js\<lparr>js_tick := n\<rparr>)" "list_all2 cancels ts us"
      by auto
    then have "cancel_tasks (t # ts) js = (Inr (?t # us), js\<lparr>js_tick := n\<rparr>)" using False by (simp add: h_then_def jm_basic)
    moreover have "cancels t ?t" using False by (simp add: cancels_def)
    ultimately show ?thesis using u(2) by blast
  qed
qed

lemma cancel_terminal: "get_run i js = (Inr r, js) \<Longrightarrow> is_terminal (rn_state r) \<Longrightarrow> cancel_run i js = (Inr (), js)"
  unfolding cancel_run_def by (simp add: h_then_step jm_basic)

lemma cancels_task_ok: "cancels t t' \<Longrightarrow> task_ok t \<Longrightarrow> task_ok t'"
proof (cases "is_terminal (tr_state t)")
  case False
  assume c: "cancels t t'" and ok: "task_ok t"
  have "task_ok (t\<lparr>tr_state := cancelled, tr_end_time := n\<rparr>)" for n using ok by (simp add: task_ok_def)
  with c False show ?thesis unfolding cancels_def by metis
qed (simp add: cancels_def)

lemma cancels_ok: "list_all2 cancels ts ts' \<Longrightarrow> list_all task_ok ts \<Longrightarrow> list_all task_ok ts'"
  by (induction rule: list_all2_induct) (auto dest: cancels_task_ok)


section \<open>Accepted settings\<close>

definition def_of :: "json \<Rightarrow> settings" where
  "def_of v = or_default [] (as_object v)"

lemma def_of_get: "j_get v k = or_default JNull (map_of (def_of v) k)"
  by (cases v) (simp_all add: j_get_def def_of_def or_default_def split: option.split)

lemma str_field: "as_str (j_get v k) = Option.bind (map_of (def_of v) k) as_str"
  by (cases "map_of (def_of v) k") (simp_all add: def_of_get)

lemma array_field: "as_array (j_get v k) = Option.bind (map_of (def_of v) k) as_array"
  by (cases "map_of (def_of v) k") (simp_all add: def_of_get)

lemma distinct_keys_spec:
  "distinct_keys ts acc = Inr keys \<Longrightarrow> distinct acc \<Longrightarrow>
     distinct keys \<and> (\<exists>ks. keys = rev ks @ acc \<and> map (\<lambda>t. as_str (j_get t ''task_key'')) ts = map Some ks)"
proof (induction ts arbitrary: acc)
  case (Cons t ts)
  then obtain k where k: "as_str (j_get t ''task_key'') = Some k" "k \<notin> set acc" "distinct_keys ts (k # acc) = Inr keys"
    by (auto split: option.splits if_splits)
  from Cons.IH [OF k(3)] k(2) Cons.prems(2) obtain ks where
    "distinct keys" "keys = rev ks @ k # acc" "map (\<lambda>t. as_str (j_get t ''task_key'')) ts = map Some ks" by auto
  with k(1) show ?case by (intro conjI exI [of _ "k # ks"]) simp_all
qed simp

definition settings_tasks :: "settings \<Rightarrow> json list" where
  "settings_tasks s = or_default [] (Option.bind (map_of s ''tasks'') as_array)"

definition settings_keys :: "settings \<Rightarrow> string list \<Rightarrow> bool" where
  "settings_keys s ks \<longleftrightarrow> map (\<lambda>t. as_str (j_get t ''task_key'')) (settings_tasks s) = map Some ks"

lemma find_None_all: "find P xs = None \<longleftrightarrow> list_all (\<lambda>x. \<not> P x) xs"
  by (auto simp: find_None_iff list_all_iff)

lemma validated_settings:
  assumes "validate_settings cron s0 = Inr s"
  obtains ks where "settings_keys s ks" "distinct ks"
    "list_all (\<lambda>t. set (dep_keys (or_default [] (as_array (j_get t ''depends_on'')))) \<subseteq> set ks) (settings_tasks s)"
    "\<And>k. map_of s k \<noteq> Some JNull"
proof -
  let ?s = "filter (\<lambda>kv. snd kv \<noteq> JNull) s0"
  from assms obtain tasks keys where v: "s = ?s" "Option.bind (map_of ?s ''tasks'') as_array = Some tasks"
      "distinct_keys tasks [] = Inr keys" "unknown_dep keys tasks = None"
    by (auto simp: validate_settings_def Let_def try_then_Inr split: option.splits)
  from distinct_keys_spec [OF v(3)] obtain ks where ks: "distinct keys" "keys = rev ks"
      "map (\<lambda>t. as_str (j_get t ''task_key'')) tasks = map Some ks" by auto
  have tasks: "settings_tasks s = tasks" using v(1,2) by (simp add: settings_tasks_def)
  show ?thesis
  proof (rule that)
    show "settings_keys s ks" using ks(3) tasks by (simp add: settings_keys_def)
    show "distinct ks" using ks(1,2) by simp
    show "list_all (\<lambda>t. set (dep_keys (or_default [] (as_array (j_get t ''depends_on'')))) \<subseteq> set ks) (settings_tasks s)"
      using v(4) unfolding unknown_dep_def find_None_all tasks by (auto simp: list_all_iff ks(2))
    show "map_of s k \<noteq> Some JNull" for k using v(1) by (auto dest: map_of_SomeD)
  qed
qed

section \<open>Created runs\<close>

lemma create_tasks_spec:
  "create_tasks i nps defs js = (Inr ts, js') \<Longrightarrow>
     list_all2 (\<lambda>d t. \<exists>key trid. as_str (j_get d ''task_key'') = Some key \<and> t = new_task nps (def_of d) key trid) defs ts"
proof (induction defs arbitrary: ts js js')
  case Nil
  then show ?case by (simp add: jm_basic)
next
  case (Cons d defs)
  then obtain key where key: "Option.bind (map_of (def_of d) ''task_key'') as_str = Some key"
    by (auto simp: Let_def def_of_def jm_basic split: option.splits)
  with Cons.prems obtain trid rest js1 js2 where
    "create_tasks i nps defs js1 = (Inr rest, js2)" "ts = new_task nps (def_of d) key trid # rest"
    by (auto simp: Let_def def_of_def jm_basic elim!: h_thenE)
  with Cons.IH key show ?case by (auto simp: str_field)
qed

lemma new_task_simps [simp]:
  "tr_task_key (new_task nps def key i) = key" "tr_state (new_task nps def key i) = rs_pending"
  "tr_output (new_task nps def key i) = None" "tr_cluster_instance (new_task nps def key i) = None"
  "tr_depends_on (new_task nps def key i) = or_default [] (Option.bind (map_of def ''depends_on'') as_array)"
  by (simp_all add: new_task_def)

lemma created_keys:
  "list_all2 (\<lambda>d t. \<exists>key trid. as_str (j_get d ''task_key'') = Some key \<and> t = new_task nps (def_of d) key trid) defs ts \<Longrightarrow>
     map (\<lambda>t. as_str (j_get t ''task_key'')) defs = map (\<lambda>t. Some (tr_task_key t)) ts"
  by (induction rule: list_all2_induct) auto

lemma create_run_parts:
  assumes "create_run p job s trigger ty ov nps par js = (Inr r, js')"
  obtains i ts num now js1 js2 js3 where
    "create_tasks i nps (settings_tasks s) js1 = (Inr ts, js2)" "settings_tasks s \<noteq> []"
    "js' = stored_run r js3" "r = new_run p job s trigger ty ov nps par i num now ts"
    "st_docs (js_store js3) = st_docs (js_store js)" "st_dialect (js_store js3) = st_dialect (js_store js)"
proof -
  from assms obtain i js1 where a: "jm_seq ''run_id'' js = (Inr i, js1)" and ne: "settings_tasks s \<noteq> []" and
    b: "h_then (create_tasks i nps (settings_tasks s)) (\<lambda>tasks. h_then (job_number job) (\<lambda>num. h_then jm_now (\<lambda>now.
          h_then (store_run (new_run p job s trigger ty ov nps par i num now tasks)) (\<lambda>_.
            h_ret (new_run p job s trigger ty ov nps par i num now tasks))))) js1 = (Inr r, js')"
    unfolding create_run_def
    by (auto simp: Let_def settings_tasks_def jm_basic elim!: h_thenE split: if_splits)
  from b obtain ts js2 where c: "create_tasks i nps (settings_tasks s) js1 = (Inr ts, js2)" and
    d: "h_then (job_number job) (\<lambda>num. h_then jm_now (\<lambda>now.
          h_then (store_run (new_run p job s trigger ty ov nps par i num now ts)) (\<lambda>_.
            h_ret (new_run p job s trigger ty ov nps par i num now ts)))) js2 = (Inr r, js')"
    by (rule h_thenE)
  from d obtain num js3 where e: "job_number job js2 = (Inr num, js3)" and
    f: "h_then jm_now (\<lambda>now. h_then (store_run (new_run p job s trigger ty ov nps par i num now ts)) (\<lambda>_.
            h_ret (new_run p job s trigger ty ov nps par i num now ts))) js3 = (Inr r, js')"
    by (rule h_thenE)
  let ?js4 = "js3\<lparr>js_tick := Suc (js_tick js3)\<rparr>"
  from f have g: "r = new_run p job s trigger ty ov nps par i num (js_clock js3 (js_tick js3)) ts" "js' = stored_run r ?js4"
    by (auto simp: h_then_def jm_basic store_run_eq)
  have "st_docs (js_store ?js4) = st_docs (js_store js) \<and> st_dialect (js_store ?js4) = st_dialect (js_store js)"
    using keeps_docsD [OF keeps_docs_basic(7) a] keeps_docsD [OF keeps_docs_create_tasks c] keeps_docsD [OF keeps_docs_job_number e] by simp
  then show ?thesis by (intro that [OF c ne g(2) g(1)]) simp_all
qed

lemma dep_keys_new: "dep_keys (tr_depends_on (new_task nps (def_of d) key i)) = dep_keys (or_default [] (as_array (j_get d ''depends_on'')))"
  by (simp add: array_field)

lemma run_readable:
  "map_of s ''git_source'' \<noteq> Some JNull \<Longrightarrow> list_all (\<lambda>t. not_null (tr_output t) \<and> not_null (tr_cluster_instance t)) ts \<Longrightarrow>
     run_ok (new_run p job s trig ty ov nps par i num now ts) \<longleftrightarrow> list_all (\<lambda>t. plain_def (tr_task_def t)) ts"
  by (auto simp: run_ok_def new_run_def task_ok_def list_all_iff not_null_def)

lemma get_after_create:
  "fst (get_run (rn_run_id r) (stored_run r js)) = (case run_of_json (run_to_json r) of Some r' \<Rightarrow> Inr r'
     | None \<Rightarrow> Inl (InternalError ''corrupt document: ''))"
  by (simp add: get_run_fst stored_run_def require_as_def decode_opt_def decode_doc_def get_after_upsert split: option.split)


end
