(* ===== verification/Jobs_Limits.thy ===== *)
theory Jobs_Limits
  imports Jobs_Theorems "HOL-Library.Multiset"
begin

text \<open>
  \<open>run_now\<close> of the Jobs API: it does not raise the number of active runs above the limit of the
  job, and a request repeated with its idempotency token starts nothing.
\<close>

section \<open>Counting active runs\<close>

definition active_doc :: "dialect \<Rightarrow> int \<Rightarrow> doc \<Rightarrow> bool" where
  "active_doc dia j d \<longleftrightarrow> row_matches dia KIND_RUN workspace_id (job_runs_filter j) d \<and>
     (case run_of_json (d_data d) of None \<Rightarrow> False | Some r \<Rightarrow> \<not> is_terminal (rn_state r))"

definition active_docs :: "int \<Rightarrow> store \<Rightarrow> nat" where
  "active_docs j s = length (filter (active_doc (st_dialect s) j) (st_docs s))"

definition job_rows :: "int \<Rightarrow> store \<Rightarrow> doc list" where
  "job_rows j s = filter (row_matches (st_dialect s) KIND_RUN workspace_id (job_runs_filter j)) (st_docs s)"

lemma created_order_count: "length (filter P (created_order xs)) = length (filter P xs)"
proof -
  have "mset (created_order xs) = mset xs" unfolding created_order_def by (metis mset_sort)
  then show ?thesis by (metis mset_filter size_mset)
qed

lemma filter_take_le: "length (filter P (take n xs)) \<le> length (filter P xs)"
proof -
  have "length (filter P xs) = length (filter P (take n xs)) + length (filter P (drop n xs))"
    by (metis append_take_drop_id filter_append length_append)
  then show ?thesis by simp
qed

lemma listed_runs: "store_list KIND_RUN workspace_id (job_runs_filter j) s = take 10000 (created_order (job_rows j s))"
  by (simp add: store_list_def job_rows_def job_runs_filter_def default_filter_def limit_rows_def Let_def)

lemma decoded_count:
  "list_all2 (\<lambda>d x. decode_doc run_of_json d = Inr x) ds xs \<Longrightarrow>
     length (filter (\<lambda>r. \<not> is_terminal (rn_state r)) (map snd xs)) =
     length (filter (\<lambda>d. case run_of_json (d_data d) of None \<Rightarrow> False | Some r \<Rightarrow> \<not> is_terminal (rn_state r)) ds)"
proof (induction rule: list_all2_induct)
  case (Cons d ds x xs)
  then have "run_of_json (d_data d) = Some (snd x)" by (auto simp: decode_doc_def)
  with Cons.IH show ?case by simp
qed simp

lemma active_runs_count:
  assumes "active_runs j js = (Inr n, js')"
  shows "n \<le> int (active_docs j (js_store js)) \<and>
    (length (job_rows j (js_store js)) \<le> 10000 \<longrightarrow> n = int (active_docs j (js_store js)))"
proof -
  let ?s = "js_store js" and ?P = "\<lambda>d. case run_of_json (d_data d) of None \<Rightarrow> False | Some r \<Rightarrow> \<not> is_terminal (rn_state r)"
  from assms obtain xs where xs: "try_map (decode_doc run_of_json) (take 10000 (created_order (job_rows j ?s))) = Inr xs"
      "n = int (length (filter (\<lambda>r. \<not> is_terminal (rn_state r)) (map snd xs)))"
    by (auto simp: active_runs_def runs_of_def jm_basic try_then_Inr list_as_def listed_runs elim!: h_thenE)
  have n: "n = int (length (filter ?P (take 10000 (created_order (job_rows j ?s)))))"
    using xs decoded_count by (simp add: try_map_Inr_iff)
  have all: "length (filter ?P (created_order (job_rows j ?s))) = active_docs j ?s"
    unfolding created_order_count active_docs_def job_rows_def filter_filter active_doc_def
    by (rule arg_cong [of _ _ length], rule filter_cong) (auto split: option.splits)
  have "n \<le> int (active_docs j ?s)" using filter_take_le [of ?P 10000 "created_order (job_rows j ?s)"] n all by simp
  moreover have "n = int (active_docs j ?s)" if "length (job_rows j ?s) \<le> 10000"
  proof -
    have "length (created_order (job_rows j ?s)) \<le> 10000" using that by (simp add: created_order_def)
    then show ?thesis using n all by simp
  qed
  ultimately show ?thesis by blast
qed

section \<open>What a request stores\<close>

definition one_run :: "store \<Rightarrow> store \<Rightarrow> bool" where
  "one_run s s' \<longleftrightarrow> st_dialect s' = st_dialect s \<and>
     (st_docs s' = st_docs s \<or>
      (\<exists>now i pa n v. st_docs s' = st_docs (snd (store_upsert now KIND_RUN workspace_id i pa n v s))))"

definition stores_one :: "'a jm \<Rightarrow> bool" where
  "stores_one m \<longleftrightarrow> (\<forall>js. one_run (js_store js) (js_store (snd (m js))))"

lemma upsert_docs_cong:
  "st_docs s = st_docs t \<Longrightarrow> st_docs (snd (store_upsert now k ws i pa n v s)) = st_docs (snd (store_upsert now k ws i pa n v t))"
  by (simp add: upsert_eq store_get_def store_insert_def store_put_def Let_def)

lemma one_run_after: "st_docs t = st_docs s \<Longrightarrow> st_dialect t = st_dialect s \<Longrightarrow> one_run t u \<Longrightarrow> one_run s u"
  unfolding one_run_def using upsert_docs_cong by metis

lemma one_run_before: "one_run s t \<Longrightarrow> st_docs u = st_docs t \<Longrightarrow> st_dialect u = st_dialect t \<Longrightarrow> one_run s u"
  by (simp add: one_run_def)

lemma one_run_refl: "one_run s s"
  by (simp add: one_run_def)

lemma keeps_then_stores: "keeps_docs m \<Longrightarrow> (\<And>x. stores_one (f x)) \<Longrightarrow> stores_one (h_then m f)"
  unfolding stores_one_def
proof
  fix js assume m: "keeps_docs m" and f: "\<And>x. \<forall>js. one_run (js_store js) (js_store (snd (f x js)))"
  obtain r js1 where e: "m js = (r, js1)" by (cases "m js")
  note k = keeps_docsD [OF m e]
  show "one_run (js_store js) (js_store (snd (h_then m f js)))"
  proof (cases r)
    case (Inl err)
    with e k show ?thesis by (simp add: h_then_def one_run_def)
  next
    case (Inr x)
    with e k f [of x] show ?thesis using one_run_after [of "js_store js1"] by (simp add: h_then_def)
  qed
qed

lemma stores_then_keeps: "stores_one m \<Longrightarrow> (\<And>x. keeps_docs (f x)) \<Longrightarrow> stores_one (h_then m f)"
  unfolding stores_one_def
proof
  fix js assume m: "\<forall>js. one_run (js_store js) (js_store (snd (m js)))" and f: "\<And>x. keeps_docs (f x)"
  obtain r js1 where e: "m js = (r, js1)" by (cases "m js")
  have 1: "one_run (js_store js) (js_store js1)" using m e by (metis snd_conv)
  show "one_run (js_store js) (js_store (snd (h_then m f js)))"
  proof (cases r)
    case (Inr x)
    have "st_docs (js_store (snd (f x js1))) = st_docs (js_store js1) \<and> st_dialect (js_store (snd (f x js1))) = st_dialect (js_store js1)"
      using f [of x] by (simp add: keeps_docs_def)
    with 1 e Inr show ?thesis using one_run_before [OF 1] by (simp add: h_then_def)
  qed (use e 1 in \<open>simp add: h_then_def\<close>)
qed

lemma keeps_stores: "keeps_docs m \<Longrightarrow> stores_one m"
  by (simp add: keeps_docs_def stores_one_def one_run_def)

lemma stores_store_run: "stores_one (store_run r)"
proof -
  have "one_run (js_store js) (js_store (stored_run r js))" for js
    unfolding one_run_def stored_run_def by simp blast
  then show ?thesis by (simp add: stores_one_def store_run_eq)
qed

lemma stores_if: "stores_one m \<Longrightarrow> stores_one n \<Longrightarrow> stores_one (if b then m else n)"
  by simp

lemma stores_create_run: "stores_one (create_run p job s trig ty ov nps par)"
proof -
  have 1: "stores_one (h_then (store_run r) (\<lambda>_. h_ret r))" for r :: run
    by (rule stores_then_keeps [OF stores_store_run]) simp
  show ?thesis unfolding create_run_def Let_def
    by (rule keeps_then_stores, simp, rule stores_if, rule keeps_stores, simp,
        rule keeps_then_stores, simp, rule keeps_then_stores, simp, rule keeps_then_stores, simp, rule 1)
qed

lemma docs_after_upsert:
  assumes "store_inv s"
  shows "length (filter P (st_docs (snd (store_upsert now k ws i pa n v s)))) \<le> Suc (length (filter P (st_docs s)))"
proof -
  have one: "length (filter P (map (\<lambda>d. if is_key k i d then g d else d) ds)) \<le> Suc (length (filter P ds))"
    if "distinct (map (\<lambda>d. (d_kind d, d_id d)) ds)" for ds and g :: "doc \<Rightarrow> doc"
    using that
  proof (induction ds)
    case (Cons d ds)
    show ?case
    proof (cases "is_key k i d")
      case True
      have "map (\<lambda>d. if is_key k i d then g d else d) ds = ds"
        by (rule map_idI) (use Cons.prems True in \<open>auto simp: is_key_def image_iff\<close>)
      then show ?thesis by simp
    next
      case False
      with Cons show ?thesis by auto
    qed
  qed simp
  have "distinct (map (\<lambda>d. (d_kind d, d_id d)) (st_docs s))" using assms by (simp add: store_inv_def)
  from one [OF this] show ?thesis
    by (simp add: upsert_eq store_insert_def store_put_def Let_def)
qed

lemma one_run_active: "store_inv s \<Longrightarrow> one_run s s' \<Longrightarrow> active_docs j s' \<le> Suc (active_docs j s)"
  unfolding one_run_def active_docs_def using docs_after_upsert by auto

section \<open>The limit\<close>

lemma stores_fresh_run_now: "stores_one (fresh_run_now p i jp nps pp tok)"
proof -
  have 1: "keeps_docs (active_runs j)" for j
    by (simp add: active_runs_def runs_of_def keeps_docs_then)
  have 2: "stores_one (h_then (create_run p job s ''ONE_TIME'' ''JOB_RUN'' jp nps None)
      (\<lambda>r. h_then (remember key tok (rn_run_id r)) (\<lambda>_. h_then (spawn_run p r t) (\<lambda>_. h_ret (run_reply r)))))" for job s key t
    by (rule stores_then_keeps [OF stores_create_run]) (simp add: keeps_docs_then)
  show ?thesis unfolding fresh_run_now_def get_job_def
    by (rule keeps_then_stores, simp, rule keeps_then_stores, rule 1, rule stores_if, rule keeps_stores, simp, rule 2)
qed

lemma get_job_state: "get_job i js = (r, js') \<Longrightarrow> js' = js"
  by (simp add: get_job_def jm_basic)

lemma active_runs_state: "active_runs i js = (r, js') \<Longrightarrow> js' = js"
  by (auto simp: active_runs_def runs_of_def h_then_def jm_basic split: sum.splits)

lemma refused_over_limit:
  assumes "get_job i js = (Inr j, js)" and "active_runs (jb_job_id j) js = (Inr n, js)" and "max_concurrent (jb_settings j) \<le> n"
  shows "snd (fresh_run_now p i jp nps pp tok js) = js"
  unfolding fresh_run_now_def using assms(3) by (simp add: h_then_step [where m = "get_job i", OF assms(1)]
      h_then_step [where m = "active_runs (jb_job_id j)", OF assms(2)] jm_basic)

text \<open>The stored runs of a job that are in no final state.\<close>

definition unfinished :: "int \<Rightarrow> doc \<Rightarrow> bool" where
  "unfinished j d \<longleftrightarrow> d_kind d = KIND_RUN \<and> d_ws d = workspace_id \<and> d_parent d = Some (show_int j) \<and>
     (case run_of_json (d_data d) of None \<Rightarrow> False | Some r \<Rightarrow> \<not> is_terminal (rn_state r))"

definition unfinished_runs :: "int \<Rightarrow> jobs_state \<Rightarrow> nat" where
  "unfinished_runs j js = length (filter (unfinished j) (st_docs (js_store js)))"

lemma unfinished_active: "unfinished_runs j js = active_docs j (js_store js)"
  unfolding unfinished_runs_def active_docs_def
  by (rule arg_cong [of _ _ length], rule filter_cong)
    (auto simp: unfinished_def active_doc_def row_matches_def job_runs_filter_def default_filter_def)

text \<open>C10: A request to run a job now never raises the number of stored unfinished runs of the job above its
  max_concurrent_runs, whether it succeeds or fails, as long as the job has no more than the 10,000 runs
  that are counted. Only this request checks the limit: the scheduler's tick, a repair and a task
  that runs a job start runs without it.\<close>

theorem run_now_within_limit:
  assumes inv: "store_inv (js_store js)" and few: "length (job_rows (jb_job_id j) (js_store js)) \<le> 10000"
    and job: "get_job i js = (Inr j, js)" and start: "run_now p i jp nps pp tok js = (res, js')"
  shows "int (unfinished_runs (jb_job_id j) js') \<le> max (int (unfinished_runs (jb_job_id j) js)) (max_concurrent (jb_settings j))"
  unfolding unfinished_active
proof -
  let ?j = "jb_job_id j"
  obtain sn where seen: "seen_token (idem_key i) tok js = (Inr sn, js)" by (simp add: seen_token_def jm_basic)
  show "int (active_docs ?j (js_store js')) \<le> max (int (active_docs ?j (js_store js))) (max_concurrent (jb_settings j))"
  proof (cases sn)
    case (Some e)
    then have "js' = js"
      using start seen get_run_state [of "or_default 0 (parse_i64 e)" js]
      by (auto simp: run_now_def h_then_def jm_basic split: prod.splits sum.splits)
    then show ?thesis by simp
  next
    case None
    with start seen have fresh: "fresh_run_now p i jp nps pp tok js = (res, js')" by (simp add: run_now_def h_then_step)
    obtain c js1 where count: "active_runs ?j js = (c, js1)" by (cases "active_runs ?j js")
    have js1: "js1 = js" by (rule active_runs_state [OF count])
    show ?thesis
    proof (cases c)
      case (Inl e)
      with count js1 have "active_runs ?j js = (Inl e, js)" by simp
      then have "js' = js" using fresh
        by (simp add: fresh_run_now_def h_then_def job)
      then show ?thesis by simp
    next
      case (Inr n)
      with count js1 have before: "active_runs ?j js = (Inr n, js)" by simp
      have n: "n = int (active_docs ?j (js_store js))" using active_runs_count [OF before] few by blast
      show ?thesis
      proof (cases "max_concurrent (jb_settings j) \<le> n")
        case True
        then have "js' = js" using refused_over_limit [OF job before, of p jp nps pp tok] fresh by simp
        then show ?thesis by simp
      next
        case False
        have "one_run (js_store js) (js_store js')" using stores_fresh_run_now fresh by (metis snd_conv stores_one_def)
        from one_run_active [OF inv this, of ?j] n False show ?thesis by linarith
      qed
    qed
  qed
qed

section \<open>Repeated requests\<close>

lemma run_back_ids:
  "run_of_json (run_to_json r) = Some r' \<Longrightarrow> rn_run_id r' = rn_run_id r \<and> rn_number_in_job r' = rn_number_in_job r"
  unfolding run_of_json_def
  by (cases "rn_job_id r") (clarsimp simp: bind_eq_Some_conv run_entries_get run_entries_def)+

lemma created_id_range:
  assumes "create_run p job s trig ty ov nps par js = (Inr r, js')"
  shows "- (2 ^ 63) \<le> rn_run_id r \<and> rn_run_id r < 2 ^ 63"
proof -
  from assms obtain i js1 where a: "jm_seq ''run_id'' js = (Inr i, js1)" and b: "h_then (create_tasks i nps (settings_tasks s))
      (\<lambda>tasks. h_then (job_number job) (\<lambda>num. h_then jm_now (\<lambda>now.
          h_then (store_run (new_run p job s trig ty ov nps par i num now tasks)) (\<lambda>_.
            h_ret (new_run p job s trig ty ov nps par i num now tasks))))) js1 = (Inr r, js')"
    unfolding create_run_def by (auto simp: Let_def settings_tasks_def jm_basic elim!: h_thenE split: if_splits)
  have "rn_run_id r = i" using b by (auto simp: jm_basic store_run_eq new_run_def elim!: h_thenE)
  moreover have "i = fst (next_seq ''run_id'' (js_store js))" using a by (auto simp: jm_seq_def jm_do_def split: prod.splits)
  ultimately show ?thesis using wrap_i64_range by (simp add: next_seq_fst)
qed

lemma get_run_docs: "st_docs (js_store js) = st_docs (js_store js') \<Longrightarrow> fst (get_run i js) = fst (get_run i js')"
  by (simp add: get_run_fst require_as_def store_get_def)

lemma fresh_remembers:
  assumes "fresh_run_now p i jp nps pp (Some tok) js = (Inr v, js')"
  obtains r js3 where "v = run_reply r" "kv_get (idem_key i tok) (js_store js') = Some (show_int (rn_run_id r))"
    "- (2 ^ 63) \<le> rn_run_id r" "rn_run_id r < 2 ^ 63" "st_docs (js_store js') = st_docs (js_store (stored_run r js3))"
proof -
  from assms obtain j js1 js2 r where c: "create_run p (Some j) (set_python_params pp (jb_settings j)) ''ONE_TIME'' ''JOB_RUN'' jp nps None js1 = (Inr r, js2)"
    and d: "h_then (remember (idem_key i) (Some tok) (rn_run_id r)) (\<lambda>_. h_then (spawn_run p r (timeout_of (jb_settings j)))
      (\<lambda>_. h_ret (run_reply r))) js2 = (Inr v, js')"
  proof -
    from assms obtain j js1 where 1: "h_then (active_runs (jb_job_id j)) (\<lambda>active.
       if max_concurrent (jb_settings j) \<le> active
       then h_fail (InvalidState (''Job '' @ show_int (jb_job_id j) @ '' already has '' @ show_int active @
              '' active run(s); max_concurrent_runs='' @ show_int (max_concurrent (jb_settings j))))
       else h_then (create_run p (Some j) (set_python_params pp (jb_settings j)) ''ONE_TIME'' ''JOB_RUN''
              jp nps None) (\<lambda>r.
            h_then (remember (idem_key i) (Some tok) (rn_run_id r)) (\<lambda>_.
            h_then (spawn_run p r (timeout_of (jb_settings j))) (\<lambda>_. h_ret (run_reply r))))) js1 = (Inr v, js')"
      unfolding fresh_run_now_def by (rule h_thenE)
    from 1 obtain js0 where "h_then (create_run p (Some j) (set_python_params pp (jb_settings j)) ''ONE_TIME'' ''JOB_RUN''
              jp nps None) (\<lambda>r. h_then (remember (idem_key i) (Some tok) (rn_run_id r)) (\<lambda>_.
            h_then (spawn_run p r (timeout_of (jb_settings j))) (\<lambda>_. h_ret (run_reply r)))) js0 = (Inr v, js')"
      by (rule h_thenE) (simp add: jm_basic split: if_splits)
    then obtain r js2 where "create_run p (Some j) (set_python_params pp (jb_settings j)) ''ONE_TIME'' ''JOB_RUN'' jp nps None js0 = (Inr r, js2)"
      "h_then (remember (idem_key i) (Some tok) (rn_run_id r)) (\<lambda>_. h_then (spawn_run p r (timeout_of (jb_settings j)))
      (\<lambda>_. h_ret (run_reply r))) js2 = (Inr v, js')" by (rule h_thenE)
    then show ?thesis by (rule that)
  qed
  have e: "v = run_reply r" "kv_get (idem_key i tok) (js_store js') = Some (show_int (rn_run_id r))"
      "st_docs (js_store js') = st_docs (js_store js2)"
    using d by (auto simp: remember_def jm_kv_set_def jm_do_def h_then_def spawn_run_def jm_basic kv_get_set)
  from create_run_parts [OF c] obtain js3 where "js2 = stored_run r js3" by blast
  with that [OF e(1,2)] created_id_range [OF c] e(3) show ?thesis by simp
qed

text \<open>A request to start a run that is repeated with its idempotency token changes nothing: it gives the
  answer of the first request, or, when the stored run does not read back, the error that says so.\<close>

theorem repeated_run_now:
  assumes "run_now p i jp nps pp (Some tok) js = (Inr v, js')"
  shows "run_now p' i jp' nps' pp' (Some tok) js' = (Inr v, js') \<or>
    run_now p' i jp' nps' pp' (Some tok) js' = (Inl (InternalError ''corrupt document: ''), js')"
proof -
  have seen: "seen_token (idem_key i) (Some tok) js0 = (Inr (kv_get (idem_key i tok) (js_store js0)), js0)" for js0
    by (simp add: seen_token_def jm_basic)
  show ?thesis
  proof (cases "kv_get (idem_key i tok) (js_store js)")
    case (Some e)
    obtain r js1 where g: "get_run (or_default 0 (parse_i64 e)) js = (Inr r, js1)" "v = run_reply r" "js' = js1"
      using assms seen [of js] Some by (auto simp: run_now_def h_then_step jm_basic elim!: h_thenE)
    with get_run_state [OF g(1)] Some seen [of js] show ?thesis
      by (simp add: run_now_def h_then_step jm_basic)
  next
    case None
    then have "fresh_run_now p i jp nps pp (Some tok) js = (Inr v, js')"
      using assms seen [of js] by (simp add: run_now_def h_then_step)
    then obtain r js3 where f: "v = run_reply r" "kv_get (idem_key i tok) (js_store js') = Some (show_int (rn_run_id r))"
      "- (2 ^ 63) \<le> rn_run_id r" "rn_run_id r < 2 ^ 63" "st_docs (js_store js') = st_docs (js_store (stored_run r js3))"
      by (rule fresh_remembers)
    have id: "or_default 0 (parse_i64 (show_int (rn_run_id r))) = rn_run_id r" using parse_show_i64 [OF f(3,4)] by simp
    have g: "get_run (rn_run_id r) js' = (case run_of_json (run_to_json r) of Some r' \<Rightarrow> Inr r'
        | None \<Rightarrow> Inl (InternalError ''corrupt document: ''), js')"
      using get_run_docs [OF f(5)] get_after_create [of r js3] get_run_state [of "rn_run_id r" js'] by (simp add: prod_eq_iff)
    have "run_now p' i jp' nps' pp' (Some tok) js' = h_then (get_run (rn_run_id r)) (\<lambda>r. h_ret (run_reply r)) js'"
      using seen [of js'] f(2) id by (simp add: run_now_def h_then_step)
    also have "\<dots> = (case run_of_json (run_to_json r) of Some r' \<Rightarrow> (Inr (run_reply r'), js')
        | None \<Rightarrow> (Inl (InternalError ''corrupt document: ''), js'))"
      by (simp add: h_then_def g jm_basic split: option.split)
    finally have eq: "run_now p' i jp' nps' pp' (Some tok) js' = (case run_of_json (run_to_json r) of
        Some r' \<Rightarrow> (Inr (run_reply r'), js') | None \<Rightarrow> (Inl (InternalError ''corrupt document: ''), js'))" .
    show ?thesis
    proof (cases "run_of_json (run_to_json r)")
      case (Some r')
      from run_back_ids [OF Some] have "run_reply r' = run_reply r" by (simp add: run_reply_def)
      with eq Some f(1) show ?thesis by simp
    qed (simp add: eq)
  qed
qed

section \<open>A sample job\<close>

definition sample_settings :: settings where
  "sample_settings = [(''max_concurrent_runs'', JInt 1), (''name'', JStr ''etl''),
     (''tasks'', JArr [jobj [(''task_key'', JStr ''a'')], jobj [(''task_key'', JStr ''b''), (''depends_on'', JArr [jobj [(''task_key'', JStr ''a'')]])]])]"

definition sample_job :: job where
  "sample_job = \<lparr>jb_job_id = 7, jb_creator = ''ann'', jb_run_as = ''ann'', jb_created_time = 1, jb_settings = sample_settings,
     jb_next_run_ms = None, jb_trigger_state = []\<rparr>"

definition sample_js :: jobs_state where
  "sample_js = \<lparr>js_store = \<lparr>st_dialect = Postgres, st_docs = [\<lparr>d_id = ''7'', d_kind = KIND_JOB, d_ws = workspace_id, d_parent = None,
       d_name = Some ''etl'', d_data = job_to_json sample_job, d_created_at = 1, d_updated_at = 1\<rparr>],
       st_kv = [(''seq:run_id'', ''1''), (''seq:job_runs:7'', ''0'')]\<rparr>,
     js_clock = (\<lambda>_. 5), js_tick = 0, js_handles = [], js_events = []\<rparr>"

definition ann :: principal where
  "ann = \<lparr>p_user_id = ''1'', p_user_name = ''ann'', p_is_admin = False, p_groups = []\<rparr>"

text \<open>Starting a run, step by step.\<close>

definition js1 :: jobs_state where "js1 = snd (jm_seq ''run_id'' sample_js)"

definition created_tasks :: "(api_error + task_run list) \<times> jobs_state" where
  "created_tasks = create_tasks 2 [] (settings_tasks sample_settings) js1"

definition sample_tasks :: "task_run list" where
  "sample_tasks = (case fst created_tasks of Inr ts \<Rightarrow> ts | Inl _ \<Rightarrow> [])"

definition js2 :: jobs_state where "js2 = snd created_tasks"

definition js3 :: jobs_state where "js3 = snd (job_number (Some sample_job) js2)"

definition sample_run :: run where
  "sample_run = new_run ann (Some sample_job) sample_settings ''ONE_TIME'' ''JOB_RUN'' [] [] None 2 1 5 sample_tasks"

definition js4 :: jobs_state where "js4 = stored_run sample_run (js3\<lparr>js_tick := Suc (js_tick js3)\<rparr>)"

definition sample_started :: jobs_state where
  "sample_started = snd (spawn_run ann sample_run 0 (snd (remember (idem_key 7) (Some ''t'') 2 js4)))"

lemma step1: "jm_seq ''run_id'' sample_js = (Inr 2, js1)"
proof -
  have "fst (jm_seq ''run_id'' sample_js) = Inr 2" by code_simp
  then show ?thesis by (simp add: js1_def prod_eq_iff)
qed

lemma step2: "create_tasks 2 [] (settings_tasks sample_settings) js1 = (Inr sample_tasks, js2)"
proof -
  have "case fst created_tasks of Inr ts \<Rightarrow> True | Inl _ \<Rightarrow> False" by code_simp
  then have "created_tasks = (Inr sample_tasks, js2)"
    by (auto simp: js2_def sample_tasks_def prod_eq_iff split: sum.splits)
  then show ?thesis by (simp add: created_tasks_def)
qed

lemma step3: "job_number (Some sample_job) js2 = (Inr 1, js3)"
proof -
  have "fst (job_number (Some sample_job) js2) = Inr 1" by code_simp
  then show ?thesis by (simp add: js3_def prod_eq_iff)
qed

lemma step4: "jm_now js3 = (Inr 5, js3\<lparr>js_tick := Suc (js_tick js3)\<rparr>)"
proof -
  have "fst (jm_now js3) = Inr 5" by code_simp
  then show ?thesis by (simp add: jm_basic)
qed

lemma sample_create:
  "create_run ann (Some sample_job) sample_settings ''ONE_TIME'' ''JOB_RUN'' [] [] None sample_js = (Inr sample_run, js4)"
proof -
  have ne: "settings_tasks sample_settings \<noteq> []" by code_simp
  have "create_run ann (Some sample_job) sample_settings ''ONE_TIME'' ''JOB_RUN'' [] [] None sample_js =
    h_then (create_tasks 2 [] (settings_tasks sample_settings)) (\<lambda>tasks. h_then (job_number (Some sample_job)) (\<lambda>num.
      h_then jm_now (\<lambda>now. let r = new_run ann (Some sample_job) sample_settings ''ONE_TIME'' ''JOB_RUN'' [] [] None 2 num now tasks
        in h_then (store_run r) (\<lambda>_. h_ret r)))) js1"
    unfolding create_run_def settings_tasks_def [symmetric]
    by (simp only: h_then_step [where m = "jm_seq ''run_id''", OF step1] ne Let_def if_False)
  then show ?thesis
    by (simp only: h_then_step [where m = "create_tasks 2 [] (settings_tasks sample_settings)", OF step2]
        h_then_step [where m = "job_number (Some sample_job)", OF step3] h_then_step [where m = jm_now, OF step4] Let_def
        h_then_step [where m = "store_run r" for r, OF store_run_eq] jm_basic sample_run_def js4_def)
qed

lemma sample_get_job: "get_job 7 sample_js = (Inr sample_job, sample_js)"
proof -
  have "fst (get_job 7 sample_js) = Inr sample_job" by code_simp
  with get_job_state [of 7 sample_js] show ?thesis by (simp add: prod_eq_iff)
qed

lemma sample_counts: "active_runs 7 sample_js = (Inr 0, sample_js)" "active_runs 7 sample_started = (Inr 1, sample_started)"
proof -
  have "fst (active_runs 7 sample_js) = Inr 0" "fst (active_runs 7 sample_started) = Inr 1" by code_simp+
  with active_runs_state [of 7 sample_js] active_runs_state [of 7 sample_started]
  show "active_runs 7 sample_js = (Inr 0, sample_js)" "active_runs 7 sample_started = (Inr 1, sample_started)"
    by (simp_all add: prod_eq_iff)
qed

lemma sample_start: "run_now ann 7 [] [] [] (Some ''t'') sample_js = (Inr (run_reply sample_run), sample_started)"
proof -
  have seen: "seen_token (idem_key 7) (Some ''t'') sample_js = (Inr None, sample_js)"
    by (simp add: seen_token_def jm_basic kv_get_def sample_js_def idem_key_def)
  have facts: "jb_job_id sample_job = 7" "jb_settings sample_job = sample_settings" "set_python_params [] sample_settings = sample_settings"
    "max_concurrent sample_settings = 1" "timeout_of sample_settings = 0" "rn_run_id sample_run = 2"
    by (simp_all add: sample_job_def set_python_params_def) code_simp+
  have rest: "h_then (remember (idem_key 7) (Some ''t'') 2) (\<lambda>_. h_then (spawn_run ann sample_run 0) (\<lambda>_. h_ret (run_reply sample_run))) js4
      = (Inr (run_reply sample_run), sample_started)"
    by (simp add: h_then_def remember_def jm_kv_set_def jm_do_def spawn_run_def jm_basic sample_started_def)
  show ?thesis
    unfolding run_now_def h_then_step [where m = "seen_token (idem_key 7) (Some ''t'')", OF seen] option.case fresh_run_now_def
      h_then_step [where m = "get_job 7", OF sample_get_job] facts h_then_step [where m = "active_runs 7", OF sample_counts(1)]
    using rest by (simp add: facts h_then_step [where m = "create_run ann (Some sample_job) sample_settings ''ONE_TIME'' ''JOB_RUN'' [] [] None", OF sample_create])
qed

theorem run_now_within_limit_witness: "int (unfinished_runs 7 sample_started) \<le> max 0 (max_concurrent sample_settings)"
proof -
  have inv: "store_inv (js_store sample_js)" by (simp add: store_inv_def sample_js_def)
  have "length (job_rows 7 (js_store sample_js)) \<le> length (st_docs (js_store sample_js))" by (simp add: job_rows_def)
  then have few: "length (job_rows (jb_job_id sample_job) (js_store sample_js)) \<le> 10000"
    by (simp add: sample_js_def sample_job_def)
  have "unfinished_runs 7 sample_js = 0" by code_simp
  with run_now_within_limit [OF inv few sample_get_job sample_start] show ?thesis by (simp add: sample_job_def)
qed

lemma sample_one: "unfinished_runs 7 sample_started = 1"
  by code_simp

text \<open>The run just started, cancelled.\<close>

lemma sample_run_got: "get_run 2 sample_started = (Inr sample_run, sample_started)"
proof -
  have "fst (get_run 2 sample_started) = Inr sample_run" by code_simp
  with get_run_state [of 2 sample_started] show ?thesis by (simp add: prod_eq_iff)
qed

theorem repeated_run_now_witness:
  "run_now ann 7 [] [] [] (Some ''t'') sample_started = (Inr (run_reply sample_run), sample_started)"
proof -
  have seen: "seen_token (idem_key 7) (Some ''t'') sample_started = (Inr (Some ''2''), sample_started)"
  proof -
    have "kv_get (idem_key 7 ''t'') (js_store sample_started) = Some ''2''" by code_simp
    then show ?thesis by (simp add: seen_token_def jm_basic)
  qed
  have "or_default 0 (parse_i64 ''2'') = 2" by code_simp
  then have "fst (run_now ann 7 [] [] [] (Some ''t'') sample_started) \<noteq> Inl (InternalError ''corrupt document: '')"
    unfolding run_now_def h_then_step [where m = "seen_token (idem_key 7) (Some ''t'')", OF seen] option.case
    by (simp add: h_then_step [where m = "get_run 2", OF sample_run_got] jm_basic)
  with repeated_run_now [OF sample_start, of ann "[]" "[]" "[]"] show ?thesis by auto
qed


lemma sample_valid: "validate_settings (\<lambda>_. Inr ()) sample_settings = Inr sample_settings"
  by code_simp


end
