(* ===== verification/Jobs_Text.thy ===== *)
theory Jobs_Text
  imports Jobs_Model
begin

text \<open>
  The substitution of \<open>{{...}}\<close> references in task definitions: on a text that is a sequence of
  literal parts and closed references it replaces exactly the references; on a reference that is
  not closed it repeats the text before it.
\<close>

datatype part = Lit string | Ref string

fun render :: "part \<Rightarrow> string" where
  "render (Lit s) = s"
| "render (Ref k) = ''{{'' @ k @ ''}}''"

fun filled :: "(string \<Rightarrow> string option) \<Rightarrow> (string \<Rightarrow> string \<Rightarrow> string option) \<Rightarrow> part \<Rightarrow> string" where
  "filled refs tv (Lit s) = s"
| "filled refs tv (Ref k) = (case lookup_ref refs tv (trim k) of Some v \<Rightarrow> v | None \<Rightarrow> ''{{'' @ k @ ''}}'')"

fun plain_part :: "part \<Rightarrow> bool" where
  "plain_part (Lit s) = (CHR ''{'' \<notin> set s)"
| "plain_part (Ref k) = (CHR ''}'' \<notin> set k)"

lemma strip_two: "strip_prefix (c # c # r) [c, c] = Some r"
  by (simp add: strip_prefix_Some)

lemma strip_none: "x \<noteq> c \<Longrightarrow> strip_prefix (x # r) (c # p) = None"
  by (cases "strip_prefix (x # r) (c # p)") (auto simp: strip_prefix_Some)

lemma break_on_first: "c \<notin> set s \<Longrightarrow> break_on [c, c] (s @ c # c # r) = Some (s, r)"
  by (induction s) (auto simp: strip_two strip_none)

lemma break_on_absent: "c \<notin> set s \<Longrightarrow> break_on [c, c] s = None"
  by (induction s) (auto simp: strip_none)

lemma substitute_literal: "CHR ''{'' \<notin> set s \<Longrightarrow> substitute refs tv s = s"
  by (subst substitute.simps) (simp add: break_on_absent)

lemma substitute_closed:
  assumes "CHR ''{'' \<notin> set l" and "CHR ''}'' \<notin> set k"
  shows "substitute refs tv (l @ ''{{'' @ k @ ''}}'' @ r) = l @ filled refs tv (Ref k) @ substitute refs tv r"
proof (subst substitute.simps)
  show "(case break_on ''{{'' (l @ ''{{'' @ k @ ''}}'' @ r) of None \<Rightarrow> l @ ''{{'' @ k @ ''}}'' @ r
      | Some (pre, after) \<Rightarrow> (case break_on ''}}'' after of None \<Rightarrow> pre @ l @ ''{{'' @ k @ ''}}'' @ r
         | Some (k, rest) \<Rightarrow> pre @ (case lookup_ref refs tv (trim k) of Some v \<Rightarrow> v | None \<Rightarrow> ''{{'' @ k @ ''}}'')
                @ substitute refs tv rest)) = l @ filled refs tv (Ref k) @ substitute refs tv r"
    using break_on_first [OF assms(1), of "k @ ''}}'' @ r"] break_on_first [OF assms(2), of r]
    by (simp split: option.split)
qed

lemma substitute_open:
  assumes "CHR ''{'' \<notin> set l" and "break_on ''}}'' r = None"
  shows "substitute refs tv (l @ ''{{'' @ r) = l @ l @ ''{{'' @ r"
  using break_on_first [OF assms(1), of r] assms(2) by (subst substitute.simps) simp

lemma substitute_parts:
  assumes "list_all plain_part ps" and "CHR ''{'' \<notin> set l"
    and tail: "\<And>l. CHR ''{'' \<notin> set l \<Longrightarrow> substitute refs tv (l @ t) = l @ u l"
  shows "\<exists>l'. CHR ''{'' \<notin> set l' \<and> substitute refs tv (l @ concat (map render ps) @ t) =
    l @ concat (map (filled refs tv) ps) @ u l' \<and> (ps = [] \<longrightarrow> l' = l)"
  using assms(1,2)
proof (induction ps arbitrary: l)
  case Nil
  then show ?case using tail by (intro exI [of _ l]) simp
next
  case (Cons p ps)
  show ?case
  proof (cases p)
    case (Lit s)
    with Cons.prems Cons.IH [of "l @ s"] show ?thesis by auto
  next
    case (Ref k)
    from Cons.IH [of "[]"] Cons.prems obtain l' where "CHR ''{'' \<notin> set l'"
      "substitute refs tv (concat (map render ps) @ t) = concat (map (filled refs tv) ps) @ u l'" by auto
    moreover have "substitute refs tv (l @ ''{{'' @ k @ ''}}'' @ (concat (map render ps) @ t)) =
        l @ filled refs tv (Ref k) @ substitute refs tv (concat (map render ps) @ t)"
      by (rule substitute_closed) (use Cons.prems Ref in auto)
    ultimately show ?thesis using Ref by auto
  qed
qed

text \<open>C36: In a text of literal parts and closed references the substitution replaces every reference that
  has a value and leaves the rest as it is; a last reference that is not closed makes it repeat the
  literal text before that reference.\<close>

theorem substitution_exact:
  assumes "list_all plain_part ps" and "CHR ''}'' \<notin> set k" and "CHR ''{'' \<notin> set l" and "break_on ''}}'' r = None"
  shows "substitute refs tv (concat (map render ps)) = concat (map (filled refs tv) ps) \<and>
    substitute refs tv (concat (map render (ps @ [Ref k])) @ l @ ''{{'' @ r) =
      concat (map (filled refs tv) (ps @ [Ref k])) @ l @ l @ ''{{'' @ r"
proof
  show "substitute refs tv (concat (map render ps)) = concat (map (filled refs tv) ps)"
    using substitute_parts [OF assms(1), of "[]" refs tv "[]" "\<lambda>_. []"] by (auto simp: substitute_literal)
  have "substitute refs tv (m @ ''{{'' @ k @ ''}}'' @ l @ ''{{'' @ r) = m @ filled refs tv (Ref k) @ l @ l @ ''{{'' @ r"
    if "CHR ''{'' \<notin> set m" for m
    using substitute_closed [OF that assms(2), of refs tv "l @ ''{{'' @ r"] substitute_open [OF assms(3,4)] by simp
  then show "substitute refs tv (concat (map render (ps @ [Ref k])) @ l @ ''{{'' @ r) =
      concat (map (filled refs tv) (ps @ [Ref k])) @ l @ l @ ''{{'' @ r"
    using substitute_parts [OF assms(1), of "[]" refs tv "''{{'' @ k @ ''}}'' @ l @ ''{{'' @ r" "\<lambda>_. filled refs tv (Ref k) @ l @ l @ ''{{'' @ r"]
    by auto
qed

theorem substitution_exact_witness:
  "substitute [''run_id'' \<mapsto> ''9''] (\<lambda>_ _. None) ''run {{run_id}} of {{x}}'' = ''run 9 of {{x}}'' \<and>
   substitute [''run_id'' \<mapsto> ''9''] (\<lambda>_ _. None) ''{{ run_id }}: a {{b'' = ''9: a : a {{b''"
proof -
  let ?refs = "[''run_id'' \<mapsto> ''9''] :: string \<Rightarrow> string option" and ?tv = "\<lambda>_ _. None"
  have parts: "concat (map render [Lit ''run '', Ref ''run_id'', Lit '' of '', Ref ''x'']) = ''run {{run_id}} of {{x}}''"
    "concat (map (filled ?refs ?tv) [Lit ''run '', Ref ''run_id'', Lit '' of '', Ref ''x'']) = ''run 9 of {{x}}''"
    "concat (map render ([] @ [Ref '' run_id ''])) @ '': a '' @ ''{{'' @ ''b'' = ''{{ run_id }}: a {{b''"
    "concat (map (filled ?refs ?tv) ([] @ [Ref '' run_id ''])) @ '': a '' @ '': a '' @ ''{{'' @ ''b'' = ''9: a : a {{b''"
    by code_simp+
  have open_ref: "break_on ''}}'' ''b'' = None" by code_simp
  have "substitute ?refs ?tv (concat (map render [Lit ''run '', Ref ''run_id'', Lit '' of '', Ref ''x''])) =
      concat (map (filled ?refs ?tv) [Lit ''run '', Ref ''run_id'', Lit '' of '', Ref ''x''])"
    by (rule substitution_exact [THEN conjunct1, of _ "[]" "[]" "[]"]) (simp_all add: open_ref)
  moreover have "substitute ?refs ?tv (concat (map render ([] @ [Ref '' run_id ''])) @ '': a '' @ ''{{'' @ ''b'') =
      concat (map (filled ?refs ?tv) ([] @ [Ref '' run_id ''])) @ '': a '' @ '': a '' @ ''{{'' @ ''b''"
    by (rule substitution_exact [THEN conjunct2]) (simp_all add: open_ref)
  ultimately show ?thesis unfolding parts by blast
qed

end
