(* ===== verification/Ws_Notebook.thy ===== *)
theory Ws_Notebook
  imports Api_Auth
begin

text \<open>
  Notebooks (\<open>lakeforge-api/src/api/workspace.rs\<close>): languages, cells, and the four formats a notebook
  is read from and written to, which are the Databricks source format, Jupyter, and, written only, HTML.
  The ids of new cells are a stream.
\<close>

section \<open>Languages and cells\<close>

datatype language = Python | Sql | Scala | R

fun cell_name :: "language \<Rightarrow> string" where
  "cell_name Python = ''python''"
| "cell_name Sql = ''sql''"
| "cell_name Scala = ''scala''"
| "cell_name R = ''r''"

fun comment_prefix :: "language \<Rightarrow> string" where
  "comment_prefix Sql = ''-- ''"
| "comment_prefix R = ''# ''"
| "comment_prefix Scala = ''// ''"
| "comment_prefix Python = ''# ''"

definition from_cell :: "string \<Rightarrow> language option" where
  "from_cell n =
     (let m = to_lower n in
      if m = ''python'' \<or> m = ''py'' then Some Python else if m = ''sql'' then Some Sql
      else if m = ''scala'' then Some Scala else if m = ''r'' then Some R else None)"

fun extension :: "language \<Rightarrow> string" where
  "extension Python = ''py''"
| "extension Sql = ''sql''"
| "extension Scala = ''scala''"
| "extension R = ''r''"

record cell =
  ce_id :: string
  ce_language :: string
  ce_source :: string
  ce_outputs :: "json list"
  ce_collapsed :: bool
  ce_title :: "string option"

record notebook =
  nb_default_language :: string
  nb_cells :: "cell list"
  nb_widgets :: json

definition new_cell :: "string \<Rightarrow> string \<times> string \<Rightarrow> cell" where
  "new_cell i ls = \<lparr>ce_id = i, ce_language = fst ls, ce_source = snd ls, ce_outputs = [], ce_collapsed = False, ce_title = None\<rparr>"

definition notebook_of :: "(nat \<Rightarrow> string) \<Rightarrow> language \<Rightarrow> (string \<times> string) list \<Rightarrow> notebook" where
  "notebook_of ids l cells =
     \<lparr>nb_default_language = cell_name l, nb_cells = map (\<lambda>(i, ls). new_cell (ids i) ls) (enumerate 0 cells), nb_widgets = JObj []\<rparr>"

section \<open>Lines\<close>

definition nl :: char where "nl = CHR 0x0A"
definition cr :: char where "cr = CHR 0x0D"

definition drop_cr :: "string \<Rightarrow> string" where
  "drop_cr l = (if l \<noteq> [] \<and> last l = cr then butlast l else l)"

text \<open>\<open>str::lines\<close>: a last empty line does not count, a carriage return at the end of a line neither.\<close>

definition str_lines :: "string \<Rightarrow> string list" where
  "str_lines s = (let ls = split_on nl s in map drop_cr (if last ls = [] then butlast ls else ls))"

definition trim_end :: "string \<Rightarrow> string" where
  "trim_end s = rev (dropWhile is_space (rev s))"

text \<open>\<open>split(sep)\<close> on a separator that is not empty.\<close>

function split_str :: "string \<Rightarrow> string \<Rightarrow> string list" where
  "split_str sep [] = [[]]"
| "split_str sep (c # s) =
     (if starts_with (c # s) sep then [] # split_str sep (drop (length sep - 1) s)
      else case split_str sep s of [] \<Rightarrow> [[c]] | p # ps \<Rightarrow> (c # p) # ps)"
  by pat_completeness auto
termination by (relation "measure (length \<circ> snd)") auto

section \<open>The source format\<close>

definition source_header :: "language \<Rightarrow> string" where
  "source_header l = comment_prefix l @ ''Databricks notebook source''"

definition source_sep :: "language \<Rightarrow> string" where
  "source_sep l = comment_prefix l @ ''COMMAND ----------''"

definition source_magic :: "language \<Rightarrow> string" where
  "source_magic l = comment_prefix l @ ''MAGIC ''"

definition blank_magic :: "language \<Rightarrow> string" where
  "blank_magic l = trim_end (comment_prefix l) @ ''MAGIC''"

definition magic_word :: "string \<Rightarrow> string" where
  "magic_word first =
     (case strip_prefix first ''%'' of
        Some m \<Rightarrow> (case split_whitespace m of w # _ \<Rightarrow> w | [] \<Rightarrow> []) | None \<Rightarrow> [])"

definition split_magic :: "string \<Rightarrow> language \<Rightarrow> string \<times> string" where
  "split_magic src dflt =
     (let first = trim (case str_lines src of l # _ \<Rightarrow> l | [] \<Rightarrow> []);
          rest = (case split_once nl src of Some x \<Rightarrow> snd x | None \<Rightarrow> []);
          magic = magic_word first
      in if magic = ''sql'' then (''sql'', rest)
         else if magic \<in> {''md'', ''md-sandbox'', ''markdown''} then (''markdown'', rest)
         else if magic = ''sh'' then (''shell'', rest)
         else if magic = ''python'' \<or> magic = ''py'' then (''python'', rest)
         else if magic = ''scala'' then (''scala'', rest)
         else if magic = ''r'' then (''r'', rest)
         else (cell_name dflt, src))"

text \<open>A line of a chunk, and whether it is a magic line.\<close>

definition chunk_line :: "language \<Rightarrow> string \<Rightarrow> string \<times> bool" where
  "chunk_line l line =
     (case strip_prefix line (source_magic l) of
        Some rest \<Rightarrow> (rest, True)
      | None \<Rightarrow> if trim line = blank_magic l then ([], True) else (line, False))"

definition parse_chunk :: "language \<Rightarrow> string \<Rightarrow> string \<times> string" where
  "parse_chunk l chunk =
     (let ls = map (chunk_line l) (str_lines chunk);
          src = join_with [nl] (map fst ls)
      in if list_all snd ls \<and> src \<noteq> [] then split_magic src l else (cell_name l, src))"

fun source_cells :: "language \<Rightarrow> (string \<times> string) list \<Rightarrow> string list \<Rightarrow> (string \<times> string) list" where
  "source_cells l cells [] = cells"
| "source_cells l cells (raw # raws) =
     (let chunk = trim_char nl raw in
      if trim chunk = [] \<and> cells \<noteq> [] then source_cells l cells raws
      else source_cells l (cells @ [parse_chunk l chunk]) raws)"

definition parse_source :: "(nat \<Rightarrow> string) \<Rightarrow> string \<Rightarrow> language \<Rightarrow> notebook" where
  "parse_source ids text l =
     (let body = or_default text (strip_prefix text (source_header l));
          cells = source_cells l [] (split_str (source_sep l) body)
      in notebook_of ids l (if cells = [] then [(cell_name l, [])] else cells))"

definition magic_of :: "string \<Rightarrow> string" where
  "magic_of lang =
     (if lang = ''markdown'' then ''%md'' else if lang = ''shell'' then ''%sh'' else if lang = ''sql'' then ''%sql''
      else if lang = ''python'' then ''%python'' else if lang = ''scala'' then ''%scala'' else if lang = ''r'' then ''%r'' else lang)"

definition magic_line :: "language \<Rightarrow> string \<Rightarrow> string" where
  "magic_line l line = (if line = [] then blank_magic l else source_magic l @ line) @ [nl]"

definition cell_text :: "language \<Rightarrow> cell \<Rightarrow> string" where
  "cell_text l c =
     (if ce_language c = cell_name l then ce_source c @ [nl]
      else source_magic l @ magic_of (ce_language c) @ [nl] @ concat (map (magic_line l) (str_lines (ce_source c))))"

definition to_source :: "notebook \<Rightarrow> language \<Rightarrow> string" where
  "to_source nb l =
     source_header l @ [nl] @
     concat (map (\<lambda>(i, c). (if 0 < i then [nl] @ source_sep l @ [nl, nl] else []) @ cell_text l c) (enumerate 0 (nb_cells nb)))"

section \<open>Jupyter\<close>

definition output_json :: "json \<Rightarrow> json option" where
  "output_json o1 =
     (let t = Option.bind (j_field o1 ''type'') as_str;
          stream = (\<lambda>n. jobj [(''output_type'', JStr ''stream''), (''name'', JStr n), (''text'', j_get o1 ''text'')])
      in if t = Some ''stdout'' then Some (stream ''stdout'')
         else if t = Some ''stderr'' then Some (stream ''stderr'')
         else if t = Some ''result'' then Some (jobj [(''output_type'', JStr ''execute_result''), (''execution_count'', JNull),
           (''metadata'', JObj []), (''data'', jobj [(''text/plain'', j_get o1 ''text'')])])
         else if t = Some ''display'' then Some (jobj [(''output_type'', JStr ''display_data''), (''metadata'', JObj []),
           (''data'', jobj [(or_default ''text/plain'' (as_str (j_get o1 ''mime'')), j_get o1 ''data'')])])
         else if t = Some ''error'' then Some (jobj [(''output_type'', JStr ''error''), (''ename'', j_get o1 ''ename''),
           (''evalue'', j_get o1 ''evalue''), (''traceback'', j_get o1 ''traceback'')])
         else None)"

definition cell_json :: "string \<Rightarrow> cell \<Rightarrow> json" where
  "cell_json dflt c =
     (if ce_language c = ''markdown''
      then jobj [(''cell_type'', JStr ''markdown''), (''metadata'', JObj []), (''source'', JStr (ce_source c))]
      else let src = (if ce_language c = dflt then ce_source c
                 else ''%'' @ (if ce_language c = ''shell'' then ''sh'' else ce_language c) @ [nl] @ ce_source c)
           in jobj [(''cell_type'', JStr ''code''), (''execution_count'', JNull), (''metadata'', JObj []),
                (''outputs'', JArr (List.map_filter output_json (ce_outputs c))), (''source'', JStr src)])"

definition to_ipynb :: "notebook \<Rightarrow> json" where
  "to_ipynb nb = jobj
     [(''cells'', JArr (map (cell_json (nb_default_language nb)) (nb_cells nb))),
      (''metadata'', jobj
         [(''application/vnd.databricks.v1+notebook'', jobj [(''language'', JStr (nb_default_language nb)), (''notebookMetadata'', JObj [])]),
          (''kernelspec'', jobj [(''display_name'', JStr ''Python 3''), (''language'', JStr ''python''), (''name'', JStr ''python3'')]),
          (''language_info'', jobj [(''name'', JStr (nb_default_language nb))])]),
      (''nbformat'', JInt 4), (''nbformat_minor'', JInt 5)]"

fun source_text :: "json \<Rightarrow> string" where
  "source_text (JArr xs) = concat (List.map_filter as_str xs)"
| "source_text (JStr s) = s"
| "source_text _ = []"

definition jupyter_cell :: "language \<Rightarrow> json \<Rightarrow> string \<times> string" where
  "jupyter_cell l c =
     (let source = source_text (j_get c ''source'')
      in if j_get c ''cell_type'' = JStr ''markdown'' then (''markdown'', source) else split_magic source l)"

definition from_ipynb :: "(nat \<Rightarrow> string) \<Rightarrow> json \<Rightarrow> language \<Rightarrow> notebook" where
  "from_ipynb ids v l = notebook_of ids l (map (jupyter_cell l) (or_default [] (as_array (j_get v ''cells''))))"

section \<open>HTML\<close>

definition html_escape :: "string \<Rightarrow> string" where
  "html_escape s = replace_char (CHR ''>'') ''&gt;'' (replace_char (CHR ''<'') ''&lt;'' (replace_char (CHR ''&'') ''&amp;'' s))"

definition output_html :: "json \<Rightarrow> string" where
  "output_html o1 = (case Option.bind (j_field o1 ''text'') as_str of
     Some t \<Rightarrow> ''<pre class='' @ [CHR 0x22] @ ''out'' @ [CHR 0x22] @ ''>'' @ html_escape t @ ''</pre>'' | None \<Rightarrow> [])"

definition cell_html :: "cell \<Rightarrow> string" where
  "cell_html c =
     (let q = [CHR 0x22]; esc = html_escape (ce_source c) in
      if ce_language c = ''markdown''
      then ''<section class='' @ q @ ''cell md'' @ q @ ''><pre>'' @ esc @ ''</pre></section>'' @ [nl]
      else ''<section class='' @ q @ ''cell code'' @ q @ ''><div class='' @ q @ ''lang'' @ q @ ''>'' @ ce_language c @
           ''</div><pre><code>'' @ esc @ ''</code></pre>'' @ concat (map output_html (ce_outputs c)) @ ''</section>'' @ [nl])"

definition html_style :: string where
  "html_style = ''body{font-family:system-ui;margin:2rem auto;max-width:900px}.cell{border:1px solid #ddd;border-radius:6px;'' @
     ''margin:1rem 0;padding:.5rem 1rem}.lang{color:#888;font-size:.75rem}.out{background:#f6f8fa;padding:.5rem}''"

text \<open>\<open>basename\<close>: what follows the last slash.\<close>

definition basename :: "string \<Rightarrow> string" where
  "basename path = last (split_on (CHR ''/'') path)"

definition to_html :: "notebook \<Rightarrow> string \<Rightarrow> string" where
  "to_html nb path =
     ''<!doctype html><html><head><meta charset='' @ [CHR 0x22] @ ''utf-8'' @ [CHR 0x22] @ ''><title>'' @ html_escape path @
     ''</title><style>'' @ html_style @ ''</style></head><body><h1>'' @ html_escape (basename path) @ ''</h1>'' @
     concat (map cell_html (nb_cells nb)) @ ''</body></html>''"

end
