(* ===== verification/Ws_Tree.thy ===== *)
theory Ws_Tree
  imports Ws_Notebook Api_Handlers
begin

text \<open>
  The workspace (\<open>lakeforge-api/src/api/workspace.rs\<close>): a tree of directories, notebooks, files and
  repositories, as documents keyed by path, and the bytes of the files in the object store. The
  object store is a map whose operations may fail (a stream of faults); the clock and the ids of
  cells are streams. Deleting and moving recurse down the tree as it is at each step, so they take
  fuel: \<open>None\<close> is a recursion that has not ended. Reading and writing of base64, UTF-8 and JSON texts
  are parameters.
\<close>

section \<open>Objects\<close>

definition KIND_WS :: string where "KIND_WS = ''ws_object''"

datatype object_type = Notebook | Directory | File | Repo | Library | Dashboard

record ws_object =
  wo_type :: object_type
  wo_path :: string
  wo_language :: "language option"
  wo_id :: int
  wo_created_at :: int
  wo_modified_at :: int
  wo_size :: int
  wo_notebook :: "notebook option"
  wo_created_by :: string
  wo_repo_id :: "string option"

definition object_types :: "(object_type \<times> string) list" where
  "object_types = [(Notebook, ''NOTEBOOK''), (Directory, ''DIRECTORY''), (File, ''FILE''), (Repo, ''REPO''), (Library, ''LIBRARY''),
     (Dashboard, ''DASHBOARD'')]"

definition languages :: "(language \<times> string) list" where
  "languages = [(Python, ''PYTHON''), (Sql, ''SQL''), (Scala, ''SCALA''), (R, ''R'')]"

definition enum_json :: "('a \<times> string) list \<Rightarrow> 'a \<Rightarrow> json" where
  "enum_json table x = JStr (or_default [] (map_of table x))"

definition enum_of :: "('a \<times> string) list \<Rightarrow> json \<Rightarrow> 'a option" where
  "enum_of table v = Option.bind (as_str v) (\<lambda>s. map_option fst (find (\<lambda>e. snd e = s) table))"

definition opt_of :: "(json \<Rightarrow> 'a option) \<Rightarrow> json \<Rightarrow> 'a option option" where
  "opt_of f v = (if v = JNull then Some None else map_option Some (f v))"

definition opt_to :: "('a \<Rightarrow> json) \<Rightarrow> 'a option \<Rightarrow> json" where
  "opt_to f x = (case x of None \<Rightarrow> JNull | Some y \<Rightarrow> f y)"

definition cell_to_json :: "cell \<Rightarrow> json" where
  "cell_to_json c = jobj
     [(''id'', JStr (ce_id c)), (''language'', JStr (ce_language c)), (''source'', JStr (ce_source c)), (''outputs'', JArr (ce_outputs c)),
      (''collapsed'', JBool (ce_collapsed c)), (''title'', jstr_opt (ce_title c))]"

definition cell_of_json :: "json \<Rightarrow> cell option" where
  "cell_of_json v =
     Option.bind (field_with as_str None v ''id'') (\<lambda>i.
     Option.bind (field_with as_str None v ''language'') (\<lambda>l.
     Option.bind (field_with as_str None v ''source'') (\<lambda>s.
     Option.bind (field_with as_array (Some []) v ''outputs'') (\<lambda>os.
     Option.bind (field_with as_bool (Some False) v ''collapsed'') (\<lambda>c.
     Option.bind (field_with opt_str (Some None) v ''title'') (\<lambda>t.
       Some \<lparr>ce_id = i, ce_language = l, ce_source = s, ce_outputs = os, ce_collapsed = c, ce_title = t\<rparr>))))))"

definition notebook_to_json :: "notebook \<Rightarrow> json" where
  "notebook_to_json nb = jobj
     [(''default_language'', JStr (nb_default_language nb)), (''cells'', JArr (map cell_to_json (nb_cells nb))),
      (''widgets'', nb_widgets nb)]"

definition notebook_of_json :: "json \<Rightarrow> notebook option" where
  "notebook_of_json v =
     Option.bind (field_with as_str None v ''default_language'') (\<lambda>l.
     Option.bind (field_with (\<lambda>x. Option.bind (as_array x) (\<lambda>xs. all_some (map cell_of_json xs))) None v ''cells'') (\<lambda>cs.
     Option.bind (field_with Some (Some JNull) v ''widgets'') (\<lambda>w.
       Some \<lparr>nb_default_language = l, nb_cells = cs, nb_widgets = w\<rparr>)))"

definition ws_to_json :: "ws_object \<Rightarrow> json" where
  "ws_to_json w = jobj
     [(''object_type'', enum_json object_types (wo_type w)), (''path'', JStr (wo_path w)),
      (''language'', opt_to (enum_json languages) (wo_language w)), (''object_id'', JInt (wo_id w)),
      (''created_at'', JInt (wo_created_at w)), (''modified_at'', JInt (wo_modified_at w)), (''size'', JInt (wo_size w)),
      (''notebook'', opt_to notebook_to_json (wo_notebook w)), (''created_by'', JStr (wo_created_by w)),
      (''repo_id'', jstr_opt (wo_repo_id w))]"

definition ws_of_json :: "json \<Rightarrow> ws_object option" where
  "ws_of_json v =
     Option.bind (field_with (enum_of object_types) None v ''object_type'') (\<lambda>t.
     Option.bind (field_with as_str None v ''path'') (\<lambda>p.
     Option.bind (field_with (opt_of (enum_of languages)) (Some None) v ''language'') (\<lambda>l.
     Option.bind (field_with as_int None v ''object_id'') (\<lambda>i.
     Option.bind (field_with as_int None v ''created_at'') (\<lambda>ca.
     Option.bind (field_with as_int None v ''modified_at'') (\<lambda>ma.
     Option.bind (field_with as_int (Some 0) v ''size'') (\<lambda>sz.
     Option.bind (field_with (opt_of notebook_of_json) (Some None) v ''notebook'') (\<lambda>nb.
     Option.bind (field_with as_str (Some []) v ''created_by'') (\<lambda>cb.
     Option.bind (field_with opt_str (Some None) v ''repo_id'') (\<lambda>r.
       Some \<lparr>wo_type = t, wo_path = p, wo_language = l, wo_id = i, wo_created_at = ca, wo_modified_at = ma, wo_size = sz,
         wo_notebook = nb, wo_created_by = cb, wo_repo_id = r\<rparr>))))))))))"

definition ws_status :: "ws_object \<Rightarrow> json" where
  "ws_status w =
     (let v0 = jobj [(''object_type'', enum_json object_types (wo_type w)), (''path'', JStr (wo_path w)), (''object_id'', JInt (wo_id w)),
            (''created_at'', JInt (wo_created_at w)), (''modified_at'', JInt (wo_modified_at w)),
            (''resource_id'', JStr (show_int (wo_id w)))];
          v1 = (case wo_language w of Some l \<Rightarrow> j_set ''language'' (enum_json languages l) v0 | None \<Rightarrow> v0)
      in if wo_type w = File then j_set ''size'' (JInt (wo_size w)) v1 else v1)"

section \<open>Paths\<close>

fun normal_parts :: "string list \<Rightarrow> string list \<Rightarrow> string list" where
  "normal_parts parts [] = parts"
| "normal_parts parts (seg # segs) =
     (if seg = [] \<or> seg = ''.'' then normal_parts parts segs
      else if seg = ''..'' then normal_parts (butlast parts) segs
      else normal_parts (parts @ [seg]) segs)"

definition normalize :: "string \<Rightarrow> api_error + string" where
  "normalize path =
     (let p = trim path in
      if p = [] \<or> \<not> starts_with p ''/'' then Inl (InvalidParameter (''Path ('' @ path @ '') must be absolute.''))
      else Inr (''/'' @ join_with ''/'' (normal_parts [] (split_on (CHR ''/'') p))))"

definition ws_parent :: "string \<Rightarrow> string option" where
  "ws_parent path =
     (if path = ''/'' then None
      else if CHR ''/'' \<notin> set path then None
      else let parent = rev (tl (dropWhile (\<lambda>c. c \<noteq> CHR ''/'') (rev path))) in
           Some (if parent = [] then ''/'' else parent))"

definition IMPLICIT_ROOTS :: "string list" where
  "IMPLICIT_ROOTS = [''/Users'', ''/Shared'', ''/Repos'']"

section \<open>State\<close>

record ws_state =
  ws_store :: store
  ws_clock :: "nat \<Rightarrow> int"
  ws_tick :: nat
  ws_uuid :: "nat \<Rightarrow> string"
  ws_uuids :: nat
  ws_files :: "(string \<times> string) list"
  ws_fault :: "nat \<Rightarrow> api_error option"
  ws_ops :: nat

type_synonym 'a wm = "(ws_state, 'a) handler"

definition w_lift :: "api_error + 'a \<Rightarrow> 'a wm" where
  "w_lift r ws = (r, ws)"

definition w_ask :: "(store \<Rightarrow> api_error + 'a) \<Rightarrow> 'a wm" where
  "w_ask f ws = (f (ws_store ws), ws)"

definition w_now :: "int wm" where
  "w_now ws = (Inr (ws_clock ws (ws_tick ws)), ws\<lparr>ws_tick := Suc (ws_tick ws)\<rparr>)"

definition w_store :: "(store \<Rightarrow> (api_error + 'a) \<times> store) \<Rightarrow> 'a wm" where
  "w_store f ws = (case f (ws_store ws) of (r, s) \<Rightarrow> (r, ws\<lparr>ws_store := s\<rparr>))"

definition w_seq :: "string \<Rightarrow> int wm" where
  "w_seq name = w_store (\<lambda>s. case next_seq name s of (n, s') \<Rightarrow> (Inr n, s'))"

text \<open>The ids for the cells of a new notebook; as many as it has cells are used up.\<close>

definition w_notebook :: "((nat \<Rightarrow> string) \<Rightarrow> notebook) \<Rightarrow> notebook wm" where
  "w_notebook f ws =
     (let nb = f (\<lambda>i. ws_uuid ws (ws_uuids ws + i)) in (Inr nb, ws\<lparr>ws_uuids := ws_uuids ws + length (nb_cells nb)\<rparr>))"

text \<open>An operation of the object store, which may fail.\<close>

definition w_file_op :: "((string \<times> string) list \<Rightarrow> (api_error + 'a) \<times> (string \<times> string) list) \<Rightarrow> 'a wm" where
  "w_file_op f ws =
     (let ws' = ws\<lparr>ws_ops := Suc (ws_ops ws)\<rparr> in
      case ws_fault ws (ws_ops ws) of
        Some e \<Rightarrow> (Inl e, ws')
      | None \<Rightarrow> (case f (ws_files ws) of (r, fs) \<Rightarrow> (r, ws'\<lparr>ws_files := fs\<rparr>)))"

definition w_put_bytes :: "string \<Rightarrow> string \<Rightarrow> unit wm" where
  "w_put_bytes path bytes = w_file_op (\<lambda>fs. (Inr (), AList.update path bytes fs))"

definition w_get_bytes :: "string \<Rightarrow> string wm" where
  "w_get_bytes path = w_file_op (\<lambda>fs. (ok_or (InternalError ''object not found'') (map_of fs path), fs))"

definition w_delete_bytes :: "string \<Rightarrow> unit wm" where
  "w_delete_bytes path = w_file_op (\<lambda>fs. (Inr (), AList.delete path fs))"

definition file_key :: "int \<Rightarrow> string" where
  "file_key i = ''/.workspace/files/'' @ show_int i"

definition ws_insert :: "ws_object \<Rightarrow> unit wm" where
  "ws_insert w = h_then w_now (\<lambda>now. h_then (w_store (store_insert now KIND_WS workspace_id (wo_path w) (ws_parent (wo_path w))
     (Some (wo_path w)) (ws_to_json w))) (\<lambda>_. h_ret ()))"

definition ws_upsert :: "string \<Rightarrow> ws_object \<Rightarrow> unit wm" where
  "ws_upsert parent w = h_then w_now (\<lambda>now. w_store (store_upsert now KIND_WS workspace_id (wo_path w) (Some parent)
     (Some (wo_path w)) (ws_to_json w)))"

definition ws_remove :: "string \<Rightarrow> unit wm" where
  "ws_remove path = w_store (\<lambda>s. (Inr (), snd (store_delete KIND_WS path s)))"

section \<open>Lookups\<close>

definition dir_object :: "string \<Rightarrow> ws_object" where
  "dir_object path = \<lparr>wo_type = Directory, wo_path = path, wo_language = None, wo_id = 0, wo_created_at = 0, wo_modified_at = 0,
     wo_size = 0, wo_notebook = None, wo_created_by = [], wo_repo_id = None\<rparr>"

definition ws_is_implicit_dir :: "string \<Rightarrow> store \<Rightarrow> api_error + bool" where
  "ws_is_implicit_dir path s =
     (if path \<in> set IMPLICIT_ROOTS then Inr True
      else case strip_prefix path ''/Users/'' of
        Some name \<Rightarrow> if name \<noteq> [] \<and> CHR ''/'' \<notin> set name
          then try_then (user_by_name name s) (\<lambda>u. Inr (u \<noteq> None)) else Inr False
      | None \<Rightarrow> Inr False)"

definition ws_stored :: "string \<Rightarrow> store \<Rightarrow> api_error + ws_object option" where
  "ws_stored path s = try_then (decode_opt ws_of_json (store_get KIND_WS path s)) (\<lambda>x. Inr (map_option snd x))"

definition ws_get :: "string \<Rightarrow> store \<Rightarrow> api_error + ws_object option" where
  "ws_get path s =
     try_then (normalize path) (\<lambda>path.
     try_then (ws_stored path s) (\<lambda>x.
       case x of
         Some w \<Rightarrow> Inr (Some w)
       | None \<Rightarrow> if path = ''/'' then Inr (Some (dir_object path))
           else try_then (ws_is_implicit_dir path s) (\<lambda>implicit. Inr (if implicit then Some (dir_object path) else None))))"

definition ws_require :: "string \<Rightarrow> store \<Rightarrow> api_error + ws_object" where
  "ws_require path s =
     try_then (ws_get path s) (\<lambda>x. ok_or (NotFound (''Path ('' @ path @ '') doesn't exist.'')) x)"

definition is_dir :: "ws_object \<Rightarrow> bool" where
  "is_dir w \<longleftrightarrow> wo_type w = Directory \<or> wo_type w = Repo"

definition tree_order :: "ws_object list \<Rightarrow> ws_object list" where
  "tree_order ws = sort_key (\<lambda>w. wo_type w \<noteq> Directory) (sort_key (\<lambda>w. to_lower (wo_path w)) ws)"

definition add_roots :: "ws_object list \<Rightarrow> ws_object list" where
  "add_roots items = fold (\<lambda>root items. if \<exists>w \<in> set items. wo_path w = root then items else items @ [dir_object root])
     IMPLICIT_ROOTS items"

definition ws_list :: "string \<Rightarrow> store \<Rightarrow> api_error + ws_object list" where
  "ws_list path s =
     try_then (normalize path) (\<lambda>path.
     try_then (list_as ws_of_json KIND_WS (default_filter\<lparr>f_parent := Some path\<rparr>) s) (\<lambda>docs.
       let items = map snd docs in Inr (tree_order (if path = ''/'' then add_roots items else items))))"

section \<open>Creating\<close>

definition new_dir :: "string \<Rightarrow> string \<Rightarrow> unit wm" where
  "new_dir user path =
     h_then (w_seq ''ws_object_id'') (\<lambda>i. h_then w_now (\<lambda>ca. h_then w_now (\<lambda>ma.
       ws_insert ((dir_object path)\<lparr>wo_id := i, wo_created_at := ca, wo_modified_at := ma, wo_created_by := user\<rparr>))))"

fun mkdirs_loop :: "string \<Rightarrow> string \<Rightarrow> string list \<Rightarrow> unit wm" where
  "mkdirs_loop user cur [] = h_ret ()"
| "mkdirs_loop user cur (seg # segs) =
     (let cur' = cur @ ''/'' @ seg in
      h_then (w_ask (ws_stored cur')) (\<lambda>x.
      h_then (case x of
          Some w \<Rightarrow> if is_dir w then h_ret ()
             else h_fail (AlreadyExists (''Path ('' @ cur' @ '') already exists and is not a directory.''))
        | None \<Rightarrow> new_dir user cur') (\<lambda>_.
      mkdirs_loop user cur' segs)))"

definition ws_mkdirs :: "string \<Rightarrow> string \<Rightarrow> unit wm" where
  "ws_mkdirs path user =
     h_then (w_lift (normalize path)) (\<lambda>path.
       if path = ''/'' then h_ret () else mkdirs_loop user [] (split_on (CHR ''/'') (trim_char (CHR ''/'') path)))"

definition put_notebook_refusal :: "string \<Rightarrow> bool \<Rightarrow> ws_object \<Rightarrow> api_error option" where
  "put_notebook_refusal path overwrite w =
     (if wo_type w \<noteq> Notebook then Some (AlreadyExists (''Path ('' @ path @ '') exists and is not a notebook.''))
      else if \<not> overwrite then Some (AlreadyExists (''Path ('' @ path @ '') already exists.'')) else None)"

definition put_file_refusal :: "string \<Rightarrow> bool \<Rightarrow> ws_object \<Rightarrow> api_error option" where
  "put_file_refusal path overwrite w =
     (if wo_type w = Directory then Some (AlreadyExists (''Path ('' @ path @ '') is a directory.''))
      else if \<not> overwrite then Some (AlreadyExists (''Path ('' @ path @ '') already exists.'')) else None)"

text \<open>Both writers start alike: the parent directories, the object that is there, its refusal.\<close>

definition ws_slot :: "(string \<Rightarrow> bool \<Rightarrow> ws_object \<Rightarrow> api_error option) \<Rightarrow> string \<Rightarrow> string \<Rightarrow> bool \<Rightarrow>
  (string \<times> string \<times> ws_object option) wm"
where
  "ws_slot refusal path user overwrite =
     h_then (w_lift (normalize path)) (\<lambda>path.
     h_then (w_lift (ok_or (InvalidParameter ''cannot write to root'') (ws_parent path))) (\<lambda>parent.
     h_then (ws_mkdirs parent user) (\<lambda>_.
     h_then (w_ask (ws_stored path)) (\<lambda>existing.
       case Option.bind existing (refusal path overwrite) of
         Some e \<Rightarrow> h_fail e | None \<Rightarrow> h_ret (path, parent, existing)))))"

definition ws_put_notebook :: "string \<Rightarrow> language \<Rightarrow> notebook \<Rightarrow> string \<Rightarrow> bool \<Rightarrow> ws_object wm" where
  "ws_put_notebook path l nb user overwrite =
     h_then (ws_slot put_notebook_refusal path user overwrite) (\<lambda>(path, parent, existing).
     h_then (case existing of Some e \<Rightarrow> h_ret (wo_id e) | None \<Rightarrow> w_seq ''ws_object_id'') (\<lambda>i.
     h_then (case existing of Some e \<Rightarrow> h_ret (wo_created_at e) | None \<Rightarrow> w_now) (\<lambda>ca.
     h_then w_now (\<lambda>ma.
       let w = \<lparr>wo_type = Notebook, wo_path = path, wo_language = Some l, wo_id = i, wo_created_at = ca, wo_modified_at = ma,
                 wo_size = int (sum_list (map (\<lambda>c. length (ce_source c)) (nb_cells nb))), wo_notebook = Some nb,
                 wo_created_by = (case existing of Some e \<Rightarrow> wo_created_by e | None \<Rightarrow> user),
                 wo_repo_id = Option.bind existing wo_repo_id\<rparr>
       in h_then (ws_upsert parent w) (\<lambda>_. h_ret w)))))"

definition ws_put_file :: "string \<Rightarrow> string \<Rightarrow> string \<Rightarrow> bool \<Rightarrow> ws_object wm" where
  "ws_put_file path bytes user overwrite =
     h_then (ws_slot put_file_refusal path user overwrite) (\<lambda>(path, parent, existing).
     h_then (case existing of Some e \<Rightarrow> h_ret (wo_id e) | None \<Rightarrow> w_seq ''ws_object_id'') (\<lambda>i.
     h_then (w_put_bytes (file_key i) bytes) (\<lambda>_.
     h_then (case existing of Some e \<Rightarrow> h_ret (wo_created_at e) | None \<Rightarrow> w_now) (\<lambda>ca.
     h_then w_now (\<lambda>ma.
       let w = \<lparr>wo_type = File, wo_path = path, wo_language = None, wo_id = i, wo_created_at = ca, wo_modified_at = ma,
                 wo_size = int (length bytes), wo_notebook = None, wo_created_by = user, wo_repo_id = Option.bind existing wo_repo_id\<rparr>
       in h_then (ws_upsert parent w) (\<lambda>_. h_ret w))))))"

definition ws_read_file :: "ws_object \<Rightarrow> string wm" where
  "ws_read_file w = w_get_bytes (file_key (wo_id w))"

section \<open>Recursions\<close>

text \<open>Steps that may not end.\<close>

type_synonym 'a wo = "ws_state \<Rightarrow> ((api_error + 'a) \<times> ws_state) option"

definition o_lift :: "'a wm \<Rightarrow> 'a wo" where
  "o_lift m ws = Some (m ws)"

definition o_then :: "'a wo \<Rightarrow> ('a \<Rightarrow> 'b wo) \<Rightarrow> 'b wo" where
  "o_then m f ws = (case m ws of None \<Rightarrow> None | Some (Inl e, ws') \<Rightarrow> Some (Inl e, ws') | Some (Inr x, ws') \<Rightarrow> f x ws')"

fun o_each :: "('a \<Rightarrow> unit wo) \<Rightarrow> 'a list \<Rightarrow> unit wo" where
  "o_each f [] = o_lift (h_ret ())"
| "o_each f (x # xs) = o_then (f x) (\<lambda>_. o_each f xs)"

fun ws_delete :: "nat \<Rightarrow> string \<Rightarrow> bool \<Rightarrow> unit wo" where
  "ws_delete 0 path recursive = (\<lambda>_. None)"
| "ws_delete (Suc n) path recursive =
     o_then (o_lift (w_lift (normalize path))) (\<lambda>path.
     o_then (o_lift (w_ask (ws_require path))) (\<lambda>w.
     o_then (if is_dir w then
               o_then (o_lift (w_ask (ws_list path))) (\<lambda>children.
                 if children \<noteq> [] \<and> \<not> recursive
                 then o_lift (h_fail (InvalidState (''Folder ('' @ path @ '') is not empty; set recursive=true.'')))
                 else o_each (\<lambda>c. ws_delete n (wo_path c) True) children)
             else o_lift (if wo_type w = File then h_try (w_delete_bytes (file_key (wo_id w))) else h_ret ())) (\<lambda>_.
     o_lift (ws_remove path))))"

fun ws_move :: "nat \<Rightarrow> string \<Rightarrow> string \<Rightarrow> string \<Rightarrow> unit wo" where
  "ws_move 0 from to user = (\<lambda>_. None)"
| "ws_move (Suc n) from to user =
     o_then (o_lift (w_lift (normalize from))) (\<lambda>from.
     o_then (o_lift (w_lift (normalize to))) (\<lambda>to.
     o_then (o_lift (w_ask (ws_stored to))) (\<lambda>there.
       if there \<noteq> None then o_lift (h_fail (AlreadyExists (''Path ('' @ to @ '') already exists.'')))
       else
     o_then (o_lift (w_ask (ws_require from))) (\<lambda>w.
     o_then (o_lift (w_lift (ok_or (InvalidParameter ''cannot move to root'') (ws_parent to)))) (\<lambda>parent.
     o_then (o_lift (ws_mkdirs parent user)) (\<lambda>_.
     o_then (o_lift w_now) (\<lambda>now.
     o_then (o_lift (ws_upsert parent (w\<lparr>wo_path := to, wo_modified_at := now\<rparr>))) (\<lambda>_.
     o_then (if is_dir w then
               o_then (o_lift (w_ask (ws_list from)))
                 (o_each (\<lambda>c. ws_move n (wo_path c) (to @ ''/'' @ basename (wo_path c)) user))
             else o_lift (h_ret ())) (\<lambda>_.
     o_lift (ws_remove from))))))))))"

text \<open>The stack of directories still to list is last in, first out.\<close>

fun walk_push :: "ws_object list \<Rightarrow> string list \<Rightarrow> string list" where
  "walk_push [] stack = stack"
| "walk_push (c # cs) stack = walk_push cs (if is_dir c then wo_path c # stack else stack)"

fun walk_loop :: "nat \<Rightarrow> ws_object list \<Rightarrow> string list \<Rightarrow> ws_object list wo" where
  "walk_loop n out [] = o_lift (h_ret out)"
| "walk_loop 0 out (p # stack) = (\<lambda>_. None)"
| "walk_loop (Suc n) out (p # stack) =
     o_then (o_lift (w_ask (ws_list p))) (\<lambda>cs. walk_loop n (out @ cs) (walk_push cs stack))"

definition ws_walk :: "nat \<Rightarrow> string \<Rightarrow> ws_object list wo" where
  "ws_walk n path = o_then (o_lift (w_lift (normalize path))) (\<lambda>p. walk_loop n [] [p])"

end
