(* ===== verification/Ws_Handlers.thy ===== *)
theory Ws_Handlers
  imports Ws_Tree
begin

text \<open>
  The endpoints of the workspace (\<open>lakeforge-api/src/api/workspace.rs\<close>) and of the notebooks
  (\<open>lakeforge-api/src/api/notebooks.rs\<close>): listing, import and export, moving, search, reading and saving
  notebooks, and the loop that runs a notebook's cells. The codecs are parameters, and so are the
  command that runs a cell and the clock the loop looks at.
\<close>

section \<open>Codecs\<close>

record codecs =
  co_decode :: "string \<Rightarrow> string + string"
  co_encode :: "string \<Rightarrow> string"
  co_utf8 :: "string \<Rightarrow> string"
  co_json :: "string \<Rightarrow> string + json"
  co_pretty :: "json \<Rightarrow> string"

section \<open>Import\<close>

record import_body =
  im_path :: string
  im_format :: "string option"
  im_language :: "language option"
  im_content :: "string option"
  im_overwrite :: bool

definition guess_language :: "string \<Rightarrow> language option" where
  "guess_language path =
     (let e = last (split_on (CHR ''.'') path) in
      if e = ''py'' \<or> e = ''ipynb'' then Some Python else if e = ''sql'' then Some Sql else if e = ''scala'' then Some Scala
      else if e = ''r'' \<or> e = ''R'' then Some R else None)"

definition notebook_exts :: "string list" where
  "notebook_exts = [''.py'', ''.sql'', ''.scala'', ''.r'', ''.ipynb'', ''.html'']"

definition strip_notebook_ext :: "string \<Rightarrow> string" where
  "strip_notebook_ext path =
     (case find (\<lambda>e. ends_with path e) notebook_exts of Some e \<Rightarrow> take (length path - length e) path | None \<Rightarrow> path)"

definition import_source :: "string \<Rightarrow> string \<Rightarrow> language \<Rightarrow> string \<Rightarrow> bool \<Rightarrow> ws_object wm" where
  "import_source path text l user overwrite =
     h_then (w_notebook (\<lambda>ids. parse_source ids text l)) (\<lambda>nb. ws_put_notebook (strip_notebook_ext path) l nb user overwrite)"

definition import_jupyter :: "codecs \<Rightarrow> string \<Rightarrow> string \<Rightarrow> language option \<Rightarrow> string \<Rightarrow> bool \<Rightarrow> ws_object wm" where
  "import_jupyter co path bytes lang user overwrite =
     (case co_json co bytes of
        Inl e \<Rightarrow> h_fail (InvalidParameter (''invalid ipynb: '' @ e))
      | Inr v \<Rightarrow> (let l = or_default Python lang in
          h_then (w_notebook (\<lambda>ids. from_ipynb ids v l)) (\<lambda>nb. ws_put_notebook (strip_notebook_ext path) l nb user overwrite)))"

definition import_object :: "codecs \<Rightarrow> string \<Rightarrow> import_body \<Rightarrow> ws_object wm" where
  "import_object co user b =
     h_then (case im_content b of
         None \<Rightarrow> h_ret []
       | Some c \<Rightarrow> (case co_decode co c of
            Inl e \<Rightarrow> h_fail (InvalidParameter (''content is not valid base64: '' @ e)) | Inr bytes \<Rightarrow> h_ret bytes)) (\<lambda>bytes.
       let format = to_upper (or_default ''AUTO'' (im_format b));
           text = co_utf8 co bytes;
           lang = or_else (im_language b) (guess_language (im_path b));
           path = im_path b; overwrite = im_overwrite b
       in if format = ''SOURCE''
          then (case lang of
              None \<Rightarrow> h_fail (InvalidParameter ''language is required for SOURCE imports'')
            | Some l \<Rightarrow> import_source path text l user overwrite)
          else if format = ''JUPYTER'' then import_jupyter co path bytes lang user overwrite
          else if format \<in> {''HTML'', ''DBC'', ''R_MARKDOWN''}
          then h_fail (InvalidParameter (''Import format '' @ format @ '' is not supported; use SOURCE, JUPYTER, RAW or AUTO.''))
          else if format = ''RAW'' then ws_put_file path bytes user overwrite
          else if ends_with path ''.ipynb'' then import_jupyter co path bytes lang user overwrite
          else (case lang of
              Some l \<Rightarrow> if has_infix text ''Databricks notebook source'' then import_source path text l user overwrite
                 else ws_put_file path bytes user overwrite
            | None \<Rightarrow> ws_put_file path bytes user overwrite))"

section \<open>Export\<close>

fun type_debug :: "object_type \<Rightarrow> string" where
  "type_debug Notebook = ''Notebook''"
| "type_debug Directory = ''Directory''"
| "type_debug File = ''File''"
| "type_debug Repo = ''Repo''"
| "type_debug Library = ''Library''"
| "type_debug Dashboard = ''Dashboard''"

definition empty_notebook :: notebook where
  "empty_notebook = \<lparr>nb_default_language = [], nb_cells = [], nb_widgets = JNull\<rparr>"

definition notebook_bytes :: "codecs \<Rightarrow> string \<Rightarrow> ws_object \<Rightarrow> string \<times> string" where
  "notebook_bytes co format w =
     (let nb = or_default empty_notebook (wo_notebook w); l = or_default Python (wo_language w)
      in if format = ''JUPYTER'' then (co_pretty co (to_ipynb nb), ''ipynb'')
         else if format = ''HTML'' then (to_html nb (wo_path w), ''html'')
         else (to_source nb l, extension l))"

definition export_bytes :: "codecs \<Rightarrow> string \<Rightarrow> string \<Rightarrow> (string \<times> string) wm" where
  "export_bytes co path format =
     h_then (w_ask (ws_require path)) (\<lambda>w.
       case wo_type w of
         Notebook \<Rightarrow> h_ret (notebook_bytes co format w)
       | File \<Rightarrow> h_then (ws_read_file w) (\<lambda>bytes. h_ret (bytes, last (split_on (CHR ''.'') (wo_path w))))
       | t \<Rightarrow> h_fail (InvalidParameter (''Cannot export '' @ type_debug t @ '' ('' @ path @ '').'')))"

text \<open>A response: JSON, or an attachment of some bytes.\<close>

datatype export_reply = Encoded json | Attachment string string

definition ws_export :: "codecs \<Rightarrow> string \<Rightarrow> string option \<Rightarrow> bool option \<Rightarrow> export_reply wm" where
  "ws_export co path format direct =
     h_then (export_bytes co path (to_upper (or_default ''SOURCE'' format))) (\<lambda>(bytes, file_type).
       h_ret (if direct = Some True then Attachment (basename path @ ''.'' @ file_type) bytes
              else Encoded (jobj [(''content'', JStr (co_encode co bytes)), (''file_type'', JStr file_type)])))"

section \<open>The tree\<close>

definition ws_list_objects :: "string \<Rightarrow> json wm" where
  "ws_list_objects path =
     h_then (w_ask (ws_require path)) (\<lambda>w.
       if \<not> is_dir w then h_ret (jobj [(''objects'', JArr [ws_status w])])
       else h_then (w_ask (ws_list path)) (\<lambda>items. h_ret (jobj [(''objects'', JArr (map ws_status items))])))"

definition ws_get_status :: "string \<Rightarrow> json wm" where
  "ws_get_status path = h_then (w_ask (ws_require path)) (\<lambda>w. h_ret (ws_status w))"

definition ws_search :: "nat \<Rightarrow> string option \<Rightarrow> string option \<Rightarrow> json wo" where
  "ws_search n path q =
     (let needle = to_lower (or_default [] q) in
      o_then (ws_walk n (or_default ''/'' path)) (\<lambda>items. o_lift (h_ret (jobj [(''objects'', JArr (map ws_status
        (filter (\<lambda>w. needle = [] \<or> has_infix (to_lower (wo_path w)) needle) items)))]))))"

definition read_ws_file :: "string \<Rightarrow> string wm" where
  "read_ws_file path =
     h_then (w_ask (ws_require (''/'' @ path))) (\<lambda>w.
       if wo_type w \<noteq> File then h_fail (InvalidParameter ''not a file'') else ws_read_file w)"

definition write_ws_file :: "string \<Rightarrow> string \<Rightarrow> string \<Rightarrow> json wm" where
  "write_ws_file user path bytes = h_then (ws_put_file (''/'' @ path) bytes user True) (\<lambda>_. h_ret (JObj []))"

section \<open>Notebooks\<close>

definition get_notebook :: "string \<Rightarrow> json wm" where
  "get_notebook path =
     h_then (w_ask (ws_require path)) (\<lambda>w.
       if wo_type w \<noteq> Notebook then h_fail (InvalidParameter (path @ '' is not a notebook''))
       else h_ret (j_set ''notebook'' (notebook_to_json (or_default empty_notebook (wo_notebook w))) (ws_status w)))"

record save_body =
  sa_path :: string
  sa_language :: "language option"
  sa_default_language :: "string option"
  sa_cells :: "cell list"
  sa_widgets :: json
  sa_create_only :: bool

text \<open>Cells without an id get the next fresh one; a notebook has a cell.\<close>

fun name_cells :: "cell list \<Rightarrow> cell list wm" where
  "name_cells [] = h_ret []"
| "name_cells (c # cs) =
     h_then (if ce_id c = [] then (\<lambda>ws. (Inr (c\<lparr>ce_id := ws_uuid ws (ws_uuids ws)\<rparr>), ws\<lparr>ws_uuids := Suc (ws_uuids ws)\<rparr>)) else h_ret c) (\<lambda>c'.
     h_then (name_cells cs) (\<lambda>cs'. h_ret (c' # cs')))"

definition save_notebook :: "string \<Rightarrow> save_body \<Rightarrow> json wm" where
  "save_notebook user b =
     (let l = or_default Python (or_else (sa_language b) (Option.bind (sa_default_language b) from_cell)) in
      h_then (name_cells (sa_cells b)) (\<lambda>cells.
      h_then (if cells = [] then name_cells [new_cell [] (cell_name l, [])] else h_ret cells) (\<lambda>cells.
      let nb = \<lparr>nb_default_language = cell_name l, nb_cells = cells, nb_widgets = (if sa_widgets b = JNull then JObj [] else sa_widgets b)\<rparr>
      in h_then (ws_put_notebook (sa_path b) l nb user (\<not> sa_create_only b)) (\<lambda>w. h_ret (ws_status w)))))"

fun set_outputs :: "string \<Rightarrow> json list \<Rightarrow> cell list \<Rightarrow> cell list" where
  "set_outputs i os [] = []"
| "set_outputs i os (c # cs) = (if ce_id c = i then c\<lparr>ce_outputs := os\<rparr> # cs else c # set_outputs i os cs)"

definition save_outputs :: "string \<Rightarrow> string \<Rightarrow> string \<Rightarrow> json list \<Rightarrow> json wm" where
  "save_outputs user path cell_id outputs =
     h_then (w_ask (ws_require path)) (\<lambda>w.
       let nb = or_default empty_notebook (wo_notebook w) in
       h_then (ws_put_notebook (wo_path w) (or_default Python (wo_language w))
         (nb\<lparr>nb_cells := set_outputs cell_id outputs (nb_cells nb)\<rparr>) user True) (\<lambda>_. h_ret (JObj [])))"

section \<open>Running a notebook\<close>

datatype command_status = Queued | Running | Finished | Cancelling | Cancelled | Error

datatype kernel_event =
    EvStdout string
  | EvStderr string
  | EvDisplay string json
  | EvTable "string list" "json list list" bool
  | EvResult string
  | EvError string string "string list"
  | EvExit "string option"
  | EvDone string

record cell_run =
  cr_cell_id :: string
  cr_language :: string
  cr_status :: command_status
  cr_outputs :: "kernel_event list"

record notebook_run =
  rn_status :: string
  rn_result :: "string option"
  rn_error :: "string option"
  rn_cells :: "cell_run list"

text \<open>What the outputs of a cell do: an exit ends the run at once, an error is noted.\<close>

fun scan_outputs :: "kernel_event list \<Rightarrow> string option \<Rightarrow> string option option \<times> string option" where
  "scan_outputs [] err = (None, err)"
| "scan_outputs (EvExit v # es) err = (Some v, err)"
| "scan_outputs (EvError n v t # es) err = scan_outputs es (Some (n @ '': '' @ v))"
| "scan_outputs (_ # es) err = scan_outputs es err"

fun status_debug :: "command_status \<Rightarrow> string" where
  "status_debug Queued = ''Queued''"
| "status_debug Running = ''Running''"
| "status_debug Finished = ''Finished''"
| "status_debug Cancelling = ''Cancelling''"
| "status_debug Cancelled = ''Cancelled''"
| "status_debug Error = ''Error''"

definition skipped_cell :: "cell \<Rightarrow> bool" where
  "skipped_cell c \<longleftrightarrow> ce_language c = ''markdown'' \<or> trim (ce_source c) = []"

text \<open>\<open>run_command\<close> is a parameter: from the number of cells run so far, its error or the record of the
  command. \<open>expired\<close> says whether the deadline has passed when that many cells have run.\<close>

fun run_cells :: "(nat \<Rightarrow> cell \<Rightarrow> api_error + command_status \<times> kernel_event list) \<Rightarrow> (nat \<Rightarrow> bool) \<Rightarrow> cell list \<Rightarrow> notebook_run
  \<Rightarrow> api_error + notebook_run"
where
  "run_cells run expired [] r = Inr r"
| "run_cells run expired (c # cs) r =
     (if skipped_cell c then run_cells run expired cs r
      else if expired (length (rn_cells r)) then Inr (r\<lparr>rn_status := ''TIMEDOUT'', rn_error := Some ''notebook run timed out''\<rparr>)
      else case run (length (rn_cells r)) c of
        Inl e \<Rightarrow> Inl e
      | Inr (status, outputs) \<Rightarrow>
          (let done1 = r\<lparr>rn_cells := rn_cells r @ [\<lparr>cr_cell_id = ce_id c, cr_language = ce_language c, cr_status = status,
                 cr_outputs = outputs\<rparr>]\<rparr>
           in case scan_outputs outputs (rn_error r) of
                (Some v, err) \<Rightarrow> Inr (done1\<lparr>rn_result := v, rn_error := err\<rparr>)
              | (None, err) \<Rightarrow>
                  if status = Finished then run_cells run expired cs (done1\<lparr>rn_error := err\<rparr>)
                  else Inr (done1\<lparr>rn_status := (if status = Cancelled then ''CANCELED'' else ''FAILED''),
                         rn_error := (case err of Some x \<Rightarrow> Some x
                           | None \<Rightarrow> Some (''cell '' @ ce_id c @ '' '' @ status_debug status))\<rparr>)))"

definition run_notebook_cells ::
  "(nat \<Rightarrow> cell \<Rightarrow> api_error + command_status \<times> kernel_event list) \<Rightarrow> (nat \<Rightarrow> bool) \<Rightarrow> notebook \<Rightarrow> api_error + notebook_run"
where
  "run_notebook_cells run expired nb =
     try_then (run_cells run expired (nb_cells nb) \<lparr>rn_status = ''SUCCESS'', rn_result = None, rn_error = None, rn_cells = []\<rparr>) (\<lambda>r.
       Inr (if rn_status r = ''SUCCESS'' then r\<lparr>rn_error := None\<rparr> else r))"

end
