(* ===== verification/Ws_Tree_Theorems.thy ===== *)
theory Ws_Tree_Theorems
  imports Ws_Tree Api_Store_Laws Api_Auth_Theorems
begin

text \<open>
  The tree of the workspace: paths as lists of segments, what is read back of a stored object, the
  placement of every document under its parent, and the move of a directory below itself, which
  never ends.
\<close>

section \<open>Stored objects\<close>

lemma enum_codec [simp]:
  "enum_of object_types (enum_json object_types t) = Some t"
  "enum_of languages (enum_json languages l) = Some l"
  by (cases t; simp add: enum_of_def enum_json_def object_types_def) (cases l; simp add: enum_of_def enum_json_def languages_def)

lemma enum_json_not_null [simp]: "enum_json table x \<noteq> JNull"
  by (simp add: enum_json_def)

lemma jobj_not_null [simp]: "jobj kvs \<noteq> JNull"
  by (simp add: jobj_def)

lemma opt_codec:
  assumes "\<And>x. x' = Some x \<Longrightarrow> f (g x) = Some x \<and> g x \<noteq> JNull"
  shows "opt_of f (opt_to g x') = Some x'"
  using assms by (cases x') (simp_all add: opt_of_def opt_to_def)

lemma cell_codec [simp]: "cell_of_json (cell_to_json c) = Some c"
  by (simp add: cell_of_json_def cell_to_json_def field_with_def j_field_jobj)

lemma notebook_codec [simp]: "notebook_of_json (notebook_to_json nb) = Some nb"
  by (simp add: notebook_of_json_def notebook_to_json_def field_with_def j_field_jobj o_def)

lemma notebook_not_null [simp]: "notebook_to_json nb \<noteq> JNull"
  by (simp add: notebook_to_json_def)

lemma ws_codec [simp]: "ws_of_json (ws_to_json w) = Some w"
  by (simp add: ws_of_json_def ws_to_json_def field_with_def j_field_jobj opt_codec)

section \<open>Paths\<close>

definition seg_path :: "string list \<Rightarrow> string" where
  "seg_path segs = concat (map (\<lambda>s. CHR ''/'' # s) segs)"

definition plain_seg :: "string \<Rightarrow> bool" where
  "plain_seg s \<longleftrightarrow> s \<noteq> [] \<and> CHR ''/'' \<notin> set s \<and> s \<noteq> ''.'' \<and> s \<noteq> ''..'' \<and> \<not> is_space (last s)"

lemma seg_path_simps [simp]: "seg_path [] = []" "seg_path (s # segs) = CHR ''/'' # s @ seg_path segs"
    "seg_path (as @ bs) = seg_path as @ seg_path bs"
  by (simp_all add: seg_path_def)

lemma path_join: "seg_path (s # segs) = CHR ''/'' # join_with ''/'' (s # segs)"
  by (induction segs arbitrary: s) simp_all

lemma split_path: "list_all plain_seg segs \<Longrightarrow> split_on (CHR ''/'') (seg_path segs) = [] # segs"
proof (induction segs)
  case (Cons s segs)
  then have "split_on (CHR ''/'') (s @ seg_path segs) = s # segs"
    by (cases segs) (simp_all add: split_on_plain split_on_append plain_seg_def)
  then show ?case by simp
qed simp

lemma last_path: "segs \<noteq> [] \<Longrightarrow> list_all plain_seg segs \<Longrightarrow> seg_path segs \<noteq> [] \<and> last (seg_path segs) = last (last segs)"
  by (induction segs) (auto simp: plain_seg_def)

lemma trim_path: "segs \<noteq> [] \<Longrightarrow> list_all plain_seg segs \<Longrightarrow> trim (seg_path segs) = seg_path segs"
proof -
  assume segs: "segs \<noteq> []" "list_all plain_seg segs"
  then have "plain_seg (last segs)" by (simp add: list_all_iff)
  with last_path [OF segs] have l: "\<not> is_space (last (seg_path segs))" "seg_path segs \<noteq> []" by (simp_all add: plain_seg_def)
  have h: "\<not> is_space (hd (seg_path segs))" using segs by (cases segs) (simp_all add: is_space_def)
  have "dropWhile is_space xs = xs" if "xs \<noteq> [] \<Longrightarrow> \<not> is_space (hd xs)" for xs using that by (cases xs) auto
  then show ?thesis using l h by (simp add: trim_def hd_rev)
qed

lemma normal_parts_plain: "list_all plain_seg segs \<Longrightarrow> normal_parts parts segs = parts @ segs"
  by (induction segs arbitrary: parts) (simp_all add: plain_seg_def)

lemma normalize_path: "segs \<noteq> [] \<Longrightarrow> list_all plain_seg segs \<Longrightarrow> normalize (seg_path segs) = Inr (seg_path segs)"
proof -
  assume segs: "segs \<noteq> []" "list_all plain_seg segs"
  have "starts_with (seg_path segs) ''/''" "seg_path segs \<noteq> []" using segs(1) by (cases segs; simp)+
  moreover have "''/'' @ join_with ''/'' segs = seg_path segs" using segs(1) path_join by (cases segs) auto
  ultimately show ?thesis
    using trim_path [OF segs] split_path [OF segs(2)] normal_parts_plain [OF segs(2)]
    by (simp add: normalize_def)
qed

lemma ws_parent_path:
  assumes "plain_seg t"
  shows "ws_parent (seg_path (segs @ [t])) = Some (if segs = [] then ''/'' else seg_path segs)"
proof -
  have "dropWhile (\<lambda>c. c \<noteq> CHR ''/'') (rev t @ CHR ''/'' # rev (seg_path segs)) = CHR ''/'' # rev (seg_path segs)"
    using assms by (subst dropWhile_append2) (auto simp: plain_seg_def)
  moreover have "segs = [] \<longleftrightarrow> seg_path segs = []" by (cases segs) auto
  moreover have "seg_path (segs @ [t]) \<noteq> ''/''" using assms by (cases segs) (auto simp: plain_seg_def Cons_eq_append_conv)
  ultimately show ?thesis by (simp add: ws_parent_def Let_def del: seg_path_simps(3)) simp
qed

lemma basename_path: "list_all plain_seg (segs @ [t]) \<Longrightarrow> basename (seg_path (segs @ [t])) = t"
  using split_path [of "segs @ [t]"] by (simp add: basename_def)

section \<open>Moving a directory below itself\<close>

text \<open>Nothing is kept below a path: no document has an id or a parent there.\<close>

definition nothing_below :: "string \<Rightarrow> store \<Rightarrow> bool" where
  "nothing_below p s \<longleftrightarrow> list_all (\<lambda>d. d_kind d = KIND_WS \<longrightarrow>
     \<not> starts_with (d_id d) (p @ ''/'') \<and>
     (case d_parent d of None \<Rightarrow> True | Some q \<Rightarrow> q \<noteq> p \<and> \<not> starts_with q (p @ ''/''))) (st_docs s)"

definition dir_stored :: "string \<Rightarrow> store \<Rightarrow> bool" where
  "dir_stored p s \<longleftrightarrow> (case ws_stored p s of Inr (Some w) \<Rightarrow> is_dir w | _ \<Rightarrow> False)"

definition dirs_stored :: "string list \<Rightarrow> store \<Rightarrow> bool" where
  "dirs_stored segs s \<longleftrightarrow> list_all (\<lambda>k. dir_stored (seg_path (take (Suc k) segs)) s) [0..<length segs]"

lemma mkdirs_there:
  assumes "\<And>k. k < length segs \<Longrightarrow> dir_stored (cur @ seg_path (take (Suc k) segs)) (ws_store ws)"
  shows "mkdirs_loop user cur segs ws = (Inr (), ws)"
  using assms
proof (induction segs arbitrary: cur)
  case (Cons s segs)
  from Cons.prems [of 0] have "dir_stored (cur @ ''/'' @ s) (ws_store ws)" by simp
  moreover have "mkdirs_loop user (cur @ ''/'' @ s) segs ws = (Inr (), ws)"
    using Cons.prems [of "Suc k" for k] by (intro Cons.IH) simp
  ultimately show ?case
    by (auto simp: dir_stored_def h_then_def h_ret_def w_ask_def Let_def split: sum.splits option.splits)
qed (simp add: h_ret_def)

lemma trim_slash: "segs \<noteq> [] \<Longrightarrow> list_all plain_seg segs \<Longrightarrow> trim_char (CHR ''/'') (seg_path segs) = join_with ''/'' segs"
proof -
  assume segs: "segs \<noteq> []" "list_all plain_seg segs"
  obtain s rest where s: "segs = s # rest" using segs(1) by (cases segs) auto
  let ?j = "s @ seg_path rest"
  have p: "seg_path segs = CHR ''/'' # ?j" by (simp add: s)
  have "?j \<noteq> []" "hd ?j \<noteq> CHR ''/''" using segs(2) by (cases s; auto simp: s plain_seg_def)+
  then have d: "dropWhile (\<lambda>x. x = CHR ''/'') (seg_path segs) = ?j" by (cases ?j) (auto simp: p)
  have "plain_seg (last segs)" using segs by (simp add: list_all_iff)
  then have "last (seg_path segs) \<noteq> CHR ''/''"
    using last_path [OF segs] unfolding plain_seg_def by (metis last_in_set)
  then have "last ?j \<noteq> CHR ''/''" using \<open>?j \<noteq> []\<close> by (auto simp: p)
  then have "rev (dropWhile (\<lambda>x. x = CHR ''/'') (rev ?j)) = ?j"
    using \<open>?j \<noteq> []\<close> by (cases ?j rule: rev_cases) auto
  moreover have "?j = join_with ''/'' segs" using path_join [of s rest] by (simp add: s)
  ultimately show ?thesis by (simp add: trim_char_def trim_end_char_def d)
qed

lemma split_join_path: "segs \<noteq> [] \<Longrightarrow> list_all plain_seg segs \<Longrightarrow> split_on (CHR ''/'') (join_with ''/'' segs) = segs"
  by (rule split_join) (auto simp: list_all_iff plain_seg_def)

lemma ws_mkdirs_there:
  assumes "segs \<noteq> []" and "list_all plain_seg segs" and "dirs_stored segs (ws_store ws)"
  shows "ws_mkdirs (seg_path segs) user ws = (Inr (), ws)"
proof -
  have "mkdirs_loop user [] segs ws = (Inr (), ws)"
    using assms(3) by (intro mkdirs_there) (simp add: dirs_stored_def list_all_iff)
  moreover have "seg_path segs \<noteq> ''/''" using assms(1,2) by (cases segs) (auto simp: plain_seg_def)
  ultimately show ?thesis
    using assms(1,2) by (simp add: ws_mkdirs_def h_then_def w_lift_def normalize_path trim_slash split_join_path)
qed

definition below_itself :: "string list \<Rightarrow> string \<Rightarrow> store \<Rightarrow> bool" where
  "below_itself segs t s \<longleftrightarrow> segs \<noteq> [] \<and> list_all plain_seg (segs @ [t]) \<and> dirs_stored segs s \<and> nothing_below (seg_path segs) s"

lemma new_doc_added:
  assumes "store_get KIND_WS i s = None"
  shows "snd (store_upsert now KIND_WS workspace_id i p n v s) =
     s\<lparr>st_docs := st_docs s @ [\<lparr>d_id = i, d_kind = KIND_WS, d_ws = workspace_id, d_parent = p, d_name = n, d_data = v,
       d_created_at = now, d_updated_at = now\<rparr>]\<rparr>"
  using assms by (simp add: upsert_eq store_insert_def store_get_None Let_def)

lemma starts_with_below [simp]: "starts_with (a @ b) a" "\<not> starts_with a (a @ c # b)"
  by (auto simp: starts_with_iff)

lemma not_stored_below: "below_itself segs t s \<Longrightarrow> store_get KIND_WS (seg_path (segs @ [t])) s = None"
proof (rule ccontr)
  assume b: "below_itself segs t s" and "store_get KIND_WS (seg_path (segs @ [t])) s \<noteq> None"
  then obtain d where "d \<in> set (st_docs s)" "d_kind d = KIND_WS" "d_id d = seg_path (segs @ [t])"
    using store_get_in store_get_key by blast
  with b show False by (auto simp: below_itself_def nothing_below_def list_all_iff starts_with_iff)
qed

lemma no_children_below: "nothing_below p s \<Longrightarrow>
    filter (row_matches (st_dialect s) KIND_WS workspace_id (default_filter\<lparr>f_parent := Some p\<rparr>)) (st_docs s) = []"
  by (auto simp: filter_empty_conv nothing_below_def list_all_iff row_matches_def)

lemma ws_stored_upsert:
  "ws_stored p (snd (store_upsert now KIND_WS workspace_id i pa n (ws_to_json w) s)) =
     (if p = i then Inr (Some w) else ws_stored p s)"
  by (auto simp: ws_stored_def store_simps decode_opt_def decode_doc_def)

lemma listed_below_itself:
  assumes "below_itself segs t s"
  shows "ws_list (seg_path segs) (snd (store_upsert now KIND_WS workspace_id (seg_path (segs @ [t])) (Some (seg_path segs)) n (ws_to_json w) s)) =
     Inr [w]"
proof -
  have segs: "segs \<noteq> []" "list_all plain_seg segs" and free: "nothing_below (seg_path segs) s"
    using assms by (simp_all add: below_itself_def)
  have "seg_path segs \<noteq> ''/''" using segs by (cases segs) (auto simp: plain_seg_def)
  then show ?thesis
    using no_children_below [OF free] new_doc_added [OF not_stored_below [OF assms], of now "Some (seg_path segs)" n "ws_to_json w"]
    by (simp add: ws_list_def normalize_path segs list_as_def store_list_def created_order_def limit_rows_def row_matches_def
        default_filter_def decode_doc_def tree_order_def Let_def del: seg_path_simps)
qed

lemma nothing_further_below: "nothing_below (seg_path segs) s \<Longrightarrow> nothing_below (seg_path (segs @ [t])) s"
  by (auto simp: nothing_below_def list_all_iff starts_with_iff split: option.splits)

lemma below_again:
  assumes ok: "list_all plain_seg (segs @ [t])" and dirs: "dirs_stored segs s"
    and new: "store_get KIND_WS (seg_path (segs @ [t])) s = None" and free: "nothing_below (seg_path (segs @ [t])) s" and "is_dir w"
  shows "below_itself (segs @ [t]) t
     (snd (store_upsert now KIND_WS workspace_id (seg_path (segs @ [t])) (Some (seg_path segs)) n (ws_to_json w) s))" (is "below_itself _ _ ?s")
proof -
  have "dir_stored p ?s" if "dir_stored p s \<or> p = seg_path (segs @ [t])" for p
    using that assms(5) by (auto simp: dir_stored_def ws_stored_upsert)
  then have "dirs_stored (segs @ [t]) ?s"
    using dirs by (auto simp: dirs_stored_def list_all_iff simp del: seg_path_simps)
  moreover have "nothing_below (seg_path (segs @ [t])) ?s"
    using free new_doc_added [OF new, of now "Some (seg_path segs)" n "ws_to_json w"]
    by (auto simp: nothing_below_def list_all_iff starts_with_iff split: option.splits)
  ultimately show ?thesis using ok by (simp add: below_itself_def)
qed

lemma o_then_step: "m ws = (Inr x, ws') \<Longrightarrow> o_then (o_lift m) f ws = f x ws'"
  by (simp add: o_then_def o_lift_def)

lemma dir_of_itself:
  assumes "below_itself segs t s"
  obtains w where "ws_stored (seg_path segs) s = Inr (Some w)" "is_dir w"
proof -
  have "dirs_stored segs s" "length segs - 1 < length segs" using assms by (simp_all add: below_itself_def)
  then have "dir_stored (seg_path (take (Suc (length segs - 1)) segs)) s"
    unfolding dirs_stored_def list_all_iff by (metis atLeast0LessThan lessThan_iff set_upt)
  then have "dir_stored (seg_path segs) s" using assms by (simp add: below_itself_def)
  then show ?thesis using that by (auto simp: dir_stored_def split: sum.splits option.splits)
qed

lemma move_inside_step:
  assumes segs: "segs \<noteq> []" "list_all plain_seg (segs @ [t])" "dirs_stored segs (ws_store ws)"
    and w: "ws_stored (seg_path segs) (ws_store ws) = Inr (Some w)" "is_dir w"
    and free: "store_get KIND_WS (seg_path (segs @ [t])) (ws_store ws) = None"
    and w': "w' = w\<lparr>wo_path := seg_path (segs @ [t]), wo_modified_at := ws_clock ws (ws_tick ws)\<rparr>"
    and ws2: "ws2 = ws\<lparr>ws_tick := Suc (Suc (ws_tick ws)), ws_store := snd (store_upsert (ws_clock ws (Suc (ws_tick ws))) KIND_WS workspace_id
      (seg_path (segs @ [t])) (Some (seg_path segs)) (Some (seg_path (segs @ [t]))) (ws_to_json w') (ws_store ws))\<rparr>"
    and listed: "ws_list (seg_path segs) (ws_store ws2) = Inr (w' # rest)"
    and again: "ws_move n (seg_path (segs @ [t])) (seg_path ((segs @ [t]) @ [t])) user ws2 = None"
  shows "ws_move (Suc n) (seg_path segs) (seg_path (segs @ [t])) user ws = None"
proof -
  let ?from = "seg_path segs" and ?to = "seg_path (segs @ [t])" and ?now = "ws_clock ws (ws_tick ws)"
  let ?ws1 = "ws\<lparr>ws_tick := Suc (ws_tick ws)\<rparr>"
  have plain: "list_all plain_seg segs" "plain_seg t" using segs(2) by simp_all
  have lifted: "o_then (o_lift (w_lift (Inr x))) f ws = f x ws" for x f
    by (rule o_then_step) (simp add: w_lift_def)
  have there: "o_then (o_lift (w_ask (ws_stored ?to))) f ws = f None ws" for f
    using free by (intro o_then_step) (simp add: w_ask_def ws_stored_def decode_opt_def del: seg_path_simps)
  have here: "o_then (o_lift (w_ask (ws_require ?from))) f ws = f w ws" for f
    by (rule o_then_step) (simp add: w_ask_def ws_require_def ws_get_def normalize_path segs plain w del: seg_path_simps)
  have parents: "o_then (o_lift (ws_mkdirs ?from user)) f ws = f () ws" for f
    by (rule o_then_step) (rule ws_mkdirs_there [OF segs(1) plain(1) segs(3)])
  have now: "o_then (o_lift w_now) f ws = f ?now ?ws1" for f
    by (rule o_then_step) (simp add: w_now_def)
  have upsert: "o_then (o_lift (ws_upsert ?from w')) f ?ws1 = f () ws2" for f
    by (rule o_then_step) (simp add: ws2 w' ws_upsert_def h_then_def w_now_def w_store_def upsert_eq)
  have listing: "o_then (o_lift (w_ask (ws_list ?from))) f ws2 = f (w' # rest) ws2" for f
    using listed by (intro o_then_step) (simp add: w_ask_def del: seg_path_simps)
  have path: "basename (wo_path w') = t" "wo_path w' = ?to" "?to @ ''/'' @ t = seg_path ((segs @ [t]) @ [t])"
    using basename_path [OF segs(2)] by (simp_all add: w')
  then have "o_each (\<lambda>c. ws_move n (wo_path c) (?to @ ''/'' @ basename (wo_path c)) user) (w' # rest) ws2 = None"
    using again by (simp add: o_then_def del: seg_path_simps append_assoc)
  moreover have "normalize ?from = Inr ?from" "normalize ?to = Inr ?to" "ws_parent ?to = Some ?from"
    using normalize_path ws_parent_path segs plain by (simp_all del: seg_path_simps)
  ultimately show ?thesis
    using w(2) by (simp add: lifted there here parents now listing o_then_def [of "o_then _ _"] upsert [unfolded w']
        del: seg_path_simps o_each.simps append_Cons)
qed

text \<open>A directory, or a repository, that holds nothing.\<close>

lemma empty_move_never_ends:
  assumes "below_itself segs t (ws_store ws)"
  shows "ws_move n (seg_path segs) (seg_path (segs @ [t])) user ws = None"
  using assms
proof (induction n arbitrary: segs ws)
  case (Suc n)
  let ?s = "ws_store ws" and ?from = "seg_path segs" and ?to = "seg_path (segs @ [t])"
  obtain w where w: "ws_stored ?from ?s = Inr (Some w)" "is_dir w" by (rule dir_of_itself [OF Suc.prems])
  let ?w = "w\<lparr>wo_path := ?to, wo_modified_at := ws_clock ws (ws_tick ws)\<rparr>"
  have "is_dir ?w" using w(2) by (simp add: is_dir_def)
  then have "below_itself (segs @ [t]) t (snd (store_upsert (ws_clock ws (Suc (ws_tick ws))) KIND_WS workspace_id ?to (Some ?from) (Some ?to)
      (ws_to_json ?w) ?s))"
    using Suc.prems by (intro below_again not_stored_below nothing_further_below) (simp_all add: below_itself_def)
  with Suc.prems w show ?case
    by (intro move_inside_step [OF _ _ _ w not_stored_below [OF Suc.prems] refl refl, where rest = "[]"] Suc.IH)
      (simp_all add: below_itself_def [of segs] listed_below_itself del: seg_path_simps)
qed simp

text \<open>Directories come first in a listing.\<close>

lemma hd_sorted_bool: "sorted (map f xs) \<Longrightarrow> x \<in> set xs \<Longrightarrow> \<not> f x \<Longrightarrow> \<not> f (hd xs)"
  by (cases xs) auto

lemma tree_order_hd: "x \<in> set items \<Longrightarrow> wo_type x = Directory \<Longrightarrow> hd (tree_order items) \<in> set items \<and> wo_type (hd (tree_order items)) = Directory"
proof -
  assume x: "x \<in> set items" "wo_type x = Directory"
  have s: "set (tree_order items) = set items" by (simp add: tree_order_def)
  with x have "hd (tree_order items) \<in> set items" by (metis empty_iff hd_in_set list.set(1))
  moreover have "sorted (map (\<lambda>w. wo_type w \<noteq> Directory) (tree_order items))" by (simp add: tree_order_def)
  from hd_sorted_bool [OF this, of x] x s have "wo_type (hd (tree_order items)) = Directory" by simp
  ultimately show ?thesis by simp
qed

lemma try_map_all: "(\<And>d. d \<in> set ds \<Longrightarrow> \<exists>x. f d = Inr x) \<Longrightarrow> \<exists>xs. try_map f ds = Inr xs \<and> Inr ` set xs = f ` set ds"
proof (induction ds)
  case (Cons d ds)
  then obtain xs where "try_map f ds = Inr xs" "Inr ` set xs = f ` set ds" by auto
  moreover obtain x where "f d = Inr x" using Cons.prems by auto
  ultimately show ?case by auto
qed simp

text \<open>
  A directory without directories in it: what it holds can be read and is none, the new name is free, and the
  store returns all of its listing.
\<close>

definition moves_inside :: "string list \<Rightarrow> string \<Rightarrow> store \<Rightarrow> bool" where
  "moves_inside segs t s \<longleftrightarrow> segs \<noteq> [] \<and> list_all plain_seg (segs @ [t]) \<and> dirs_stored segs s \<and>
     (case ws_stored (seg_path segs) s of Inr (Some w) \<Rightarrow> wo_type w = Directory | _ \<Rightarrow> False) \<and>
     store_get KIND_WS (seg_path (segs @ [t])) s = None \<and> nothing_below (seg_path (segs @ [t])) s \<and>
     length (filter (\<lambda>d. d_kind d = KIND_WS) (st_docs s)) < 10000 \<and>
     list_all (\<lambda>d. d_kind d = KIND_WS \<and> d_parent d = Some (seg_path segs) \<longrightarrow>
       (case ws_of_json (d_data d) of Some w \<Rightarrow> wo_type w \<noteq> Directory | None \<Rightarrow> False)) (st_docs s)"

lemma listed_first:
  assumes m: "moves_inside segs t s" and w: "wo_type w = Directory"
  shows "\<exists>rest. ws_list (seg_path segs)
     (snd (store_upsert now KIND_WS workspace_id (seg_path (segs @ [t])) (Some (seg_path segs)) nm (ws_to_json w) s)) = Inr (w # rest)"
proof -
  let ?from = "seg_path segs" and ?f = "default_filter\<lparr>f_parent := Some (seg_path segs)\<rparr>"
  let ?s = "snd (store_upsert now KIND_WS workspace_id (seg_path (segs @ [t])) (Some ?from) nm (ws_to_json w) s)"
  let ?d = "\<lparr>d_id = seg_path (segs @ [t]), d_kind = KIND_WS, d_ws = workspace_id, d_parent = Some ?from, d_name = nm,
    d_data = ws_to_json w, d_created_at = now, d_updated_at = now\<rparr>"
  have segs: "segs \<noteq> []" "list_all plain_seg segs" and free: "store_get KIND_WS (seg_path (segs @ [t])) s = None"
    using m by (simp_all add: moves_inside_def)
  note added = new_doc_added [OF free, of now "Some ?from" nm "ws_to_json w"]
  have rows: "set (store_list KIND_WS workspace_id ?f ?s) = {d \<in> set (st_docs ?s). row_matches (st_dialect ?s) KIND_WS workspace_id ?f d}"
    using m by (intro set_list_all) (simp_all add: added within_limit_def moves_inside_def default_filter_def del: seg_path_simps)
  have children: "d = ?d \<or> (\<exists>x. ws_of_json (d_data d) = Some x \<and> wo_type x \<noteq> Directory)" if "d \<in> set (store_list KIND_WS workspace_id ?f ?s)" for d
  proof -
    have listed: "d \<in> set (st_docs ?s)" "row_matches (st_dialect ?s) KIND_WS workspace_id ?f d" using that rows by blast+
    then have "d \<in> set (st_docs s) \<or> d = ?d" "d_kind d = KIND_WS" "d_parent d = Some ?from"
      using listed by (auto simp: added row_matches_def default_filter_def simp del: seg_path_simps)
    moreover have "d \<in> set (st_docs s) \<Longrightarrow> d_kind d = KIND_WS \<Longrightarrow> d_parent d = Some ?from \<Longrightarrow>
        (case ws_of_json (d_data d) of Some w \<Rightarrow> wo_type w \<noteq> Directory | None \<Rightarrow> False)"
      using m unfolding moves_inside_def list_all_iff by blast
    ultimately show ?thesis by (auto split: option.splits)
  qed
  have new: "?d \<in> set (store_list KIND_WS workspace_id ?f ?s)"
    unfolding rows by (simp add: added row_matches_def default_filter_def del: seg_path_simps)
  have "\<exists>x. decode_doc ws_of_json d = Inr x" if "d \<in> set (store_list KIND_WS workspace_id ?f ?s)" for d
    using children [OF that] by (auto simp: decode_doc_def)
  then obtain xs where xs: "try_map (decode_doc ws_of_json) (store_list KIND_WS workspace_id ?f ?s) = Inr xs"
      "Inr ` set xs = decode_doc ws_of_json ` set (store_list KIND_WS workspace_id ?f ?s)"
    using try_map_all [of "store_list KIND_WS workspace_id ?f ?s" "decode_doc ws_of_json"] by blast
  have "decode_doc ws_of_json ?d = Inr (?d, w)" by (simp add: decode_doc_def)
  with new have "Inr (?d, w) \<in> decode_doc ws_of_json ` set (store_list KIND_WS workspace_id ?f ?s)" by (rule rev_image_eqI [OF _ sym])
  then have "(?d, w) \<in> set xs" unfolding xs(2) [symmetric] by (elim imageE) simp
  then have first: "w \<in> set (map snd xs)" by (metis image_eqI list.set_map snd_conv)
  have only: "x = w" if "x \<in> set (map snd xs)" "wo_type x = Directory" for x
  proof -
    from that(1) obtain y where y: "y \<in> set xs" "snd y = x" by auto
    from y(1) have "Inr y \<in> decode_doc ws_of_json ` set (store_list KIND_WS workspace_id ?f ?s)" unfolding xs(2) [symmetric] by (rule imageI)
    then obtain d where d: "d \<in> set (store_list KIND_WS workspace_id ?f ?s)" "decode_doc ws_of_json d = Inr y" by (elim imageE) (rule that, auto)
    then show ?thesis using children [OF d(1)] y(2) that(2) by (auto simp: decode_doc_def)
  qed
  have "?from \<noteq> ''/''" using segs by (cases segs) (auto simp: plain_seg_def)
  then have list: "ws_list ?from ?s = Inr (tree_order (map snd xs))"
    using xs(1) by (simp add: ws_list_def normalize_path segs list_as_def)
  have "hd (tree_order (map snd xs)) = w" using tree_order_hd [OF first w] only by blast
  moreover have "tree_order (map snd xs) \<noteq> []" using first by (metis empty_iff list.set(1) set_sort tree_order_def)
  ultimately show ?thesis using list by (metis list.collapse)
qed

text \<open>C28: Moving a directory below itself never ends: where a directory is stored under stored
  directories and holds none, moving it to a new name directly inside itself puts the copy first in
  its own listing, moves that copy below itself, and so on, so that no number of steps is enough,
  whatever else it holds, whatever the name, the user, the clock and the rest of the workspace.\<close>

theorem move_below_itself_never_ends:
  assumes "moves_inside segs t (ws_store ws)"
  shows "ws_move n (seg_path segs) (seg_path (segs @ [t])) user ws = None"
proof (cases n)
  case (Suc m)
  let ?s = "ws_store ws" and ?from = "seg_path segs" and ?to = "seg_path (segs @ [t])"
  obtain w where w: "ws_stored ?from ?s = Inr (Some w)" "wo_type w = Directory"
    using assms by (auto simp: moves_inside_def split: sum.splits option.splits)
  let ?w = "w\<lparr>wo_path := ?to, wo_modified_at := ws_clock ws (ws_tick ws)\<rparr>"
  let ?s2 = "snd (store_upsert (ws_clock ws (Suc (ws_tick ws))) KIND_WS workspace_id ?to (Some ?from) (Some ?to) (ws_to_json ?w) ?s)"
  have "wo_type ?w = Directory" using w(2) by simp
  with listed_first [OF assms] obtain rest where rest: "ws_list ?from ?s2 = Inr (?w # rest)" by blast
  have dir: "is_dir w" "is_dir ?w" using w(2) by (simp_all add: is_dir_def)
  have "below_itself (segs @ [t]) t ?s2"
    using assms dir(2) by (intro below_again) (simp_all add: moves_inside_def)
  with assms rest show ?thesis unfolding Suc
    by (intro move_inside_step [OF _ _ _ w(1) dir(1) _ refl refl] empty_move_never_ends)
      (simp_all add: moves_inside_def del: seg_path_simps)
qed simp

definition one_dir :: ws_state where
  "one_dir = \<lparr>ws_store = \<lparr>st_dialect = Sqlite, st_docs = [\<lparr>d_id = ''/a'', d_kind = KIND_WS, d_ws = workspace_id,
       d_parent = Some ''/'', d_name = Some ''/a'', d_data = ws_to_json (dir_object ''/a''), d_created_at = 1, d_updated_at = 1\<rparr>],
       st_kv = []\<rparr>,
     ws_clock = (\<lambda>_. 2), ws_tick = 0, ws_uuid = (\<lambda>_. ''u''), ws_uuids = 0, ws_files = [], ws_fault = (\<lambda>_. None), ws_ops = 0\<rparr>"

theorem move_below_itself_never_ends_witness: "\<forall>n. ws_move n ''/a'' ''/a/b'' ''ann'' one_dir = None"
proof
  fix n
  have "moves_inside [''a''] ''b'' (ws_store one_dir)"
    by (simp add: moves_inside_def plain_seg_def is_space_def dirs_stored_def dir_stored_def nothing_below_def one_dir_def ws_stored_def
        store_get_def is_key_def decode_opt_def decode_doc_def is_dir_def dir_object_def)
  from move_below_itself_never_ends [OF this, of n "''ann''"] show "ws_move n ''/a'' ''/a/b'' ''ann'' one_dir = None" by simp
qed

section \<open>Where documents are placed\<close>

text \<open>An object is stored under its own path, named by it, with the parent of the path as its parent.\<close>

definition placed_doc :: "doc \<Rightarrow> bool" where
  "placed_doc d \<longleftrightarrow> d_kind d = KIND_WS \<longrightarrow>
     d_ws d = workspace_id \<and> d_name d = Some (d_id d) \<and> d_parent d = ws_parent (d_id d) \<and>
     (case ws_of_json (d_data d) of Some w \<Rightarrow> wo_path w = d_id d | None \<Rightarrow> False)"

definition ws_placed :: "ws_state \<Rightarrow> bool" where
  "ws_placed ws \<longleftrightarrow> store_inv (ws_store ws) \<and> list_all placed_doc (st_docs (ws_store ws))"

lemma placed_simps [simp]:
  "ws_placed (ws\<lparr>ws_tick := t\<rparr>) = ws_placed ws" "ws_placed (ws\<lparr>ws_uuids := u\<rparr>) = ws_placed ws"
  "ws_placed (ws\<lparr>ws_ops := n, ws_files := fs\<rparr>) = ws_placed ws" "ws_placed (ws\<lparr>ws_ops := n\<rparr>) = ws_placed ws"
  by (simp_all add: ws_placed_def)

lemma ws_reads [simp]: "reads (w_lift r)" "reads (w_ask f)"
  by (simp_all add: reads_def w_lift_def w_ask_def)

lemma placed_frames:
  "keeps ws_placed w_now ws" "keeps ws_placed (w_seq name) ws" "keeps ws_placed (w_notebook f) ws" "keeps ws_placed (w_file_op g) ws"
  by (auto simp: keeps_def w_now_def w_notebook_def w_file_op_def w_seq_def w_store_def Let_def ws_placed_def next_seq_def inv_kv_set
      split: prod.splits option.splits)

lemma placed_insert: "keeps ws_placed (ws_insert w) ws"
proof -
  have "keeps ws_placed (w_store (store_insert now KIND_WS workspace_id (wo_path w) (ws_parent (wo_path w)) (Some (wo_path w)) (ws_to_json w))) ws"
    for now ws
  proof -
    have "ws_placed ws \<Longrightarrow> store_inv (snd (store_insert now KIND_WS workspace_id (wo_path w) (ws_parent (wo_path w)) (Some (wo_path w))
        (ws_to_json w) (ws_store ws)))" by (simp add: ws_placed_def inv_insert)
    then show ?thesis
      by (auto simp: keeps_def w_store_def ws_placed_def store_insert_def placed_doc_def Let_def split: prod.splits if_splits)
  qed
  then show ?thesis unfolding ws_insert_def by (intro keeps_then placed_frames keeps_basic)
qed

lemma placed_upsert: "ws_parent (wo_path w) = Some parent \<Longrightarrow> keeps ws_placed (ws_upsert parent w) ws"
proof -
  assume p: "ws_parent (wo_path w) = Some parent"
  have "keeps ws_placed (w_store (store_upsert now KIND_WS workspace_id (wo_path w) (Some parent) (Some (wo_path w)) (ws_to_json w))) ws" for now ws
  proof -
    let ?s = "snd (store_upsert now KIND_WS workspace_id (wo_path w) (Some parent) (Some (wo_path w)) (ws_to_json w) (ws_store ws))"
    have "ws_placed ws \<Longrightarrow> store_inv ?s" by (simp add: ws_placed_def inv_upsert)
    moreover have "list_all placed_doc (st_docs (ws_store ws)) \<Longrightarrow> list_all placed_doc (st_docs ?s)"
      by (auto simp: upsert_eq store_insert_def store_put_def placed_doc_def is_key_def p Let_def list_all_iff)
    ultimately show ?thesis by (auto simp: keeps_def w_store_def ws_placed_def split: prod.splits)
  qed
  then show ?thesis unfolding ws_upsert_def by (intro keeps_then placed_frames)
qed

lemma placed_remove: "keeps ws_placed (ws_remove path) ws"
  by (auto simp: keeps_def ws_remove_def w_store_def ws_placed_def inv_delete store_delete_def list_all_iff dest: inv_delete [of _ KIND_WS path])

lemmas placed_steps = placed_frames placed_insert placed_upsert placed_remove

lemma placed_mkdirs: "keeps ws_placed (mkdirs_loop user cur segs) ws"
proof (induction user cur segs arbitrary: ws rule: mkdirs_loop.induct)
  case (2 user cur seg segs)
  have "keeps ws_placed (mkdirs_loop user (cur @ CHR ''/'' # seg) segs) ws" for ws using 2 [OF refl] by simp
  then show ?case unfolding mkdirs_loop.simps Let_def
    by (intro keeps_read [OF ws_reads(2)] keeps_then) (auto simp: new_dir_def split: option.split
        intro!: keeps_then keeps_basic placed_frames placed_insert)
qed (simp add: keeps_basic)

lemma placed_ws_mkdirs: "keeps ws_placed (ws_mkdirs path user) ws"
  unfolding ws_mkdirs_def by (intro keeps_read keeps_if keeps_basic ws_reads placed_mkdirs)

lemma placed_slot: "keeps ws_placed (ws_slot refusal path user overwrite) ws"
  unfolding ws_slot_def
  by (intro keeps_read keeps_then [OF placed_ws_mkdirs] ws_reads) (auto intro: keeps_basic split: option.split)

lemma slot_parent:
  "ws_slot refusal path user overwrite ws = (Inr (path', parent, existing), ws') \<Longrightarrow> ws_parent path' = Some parent"
  by (auto simp: ws_slot_def h_then_Inr w_lift_def h_basic split: option.splits)

lemma placed_put_notebook: "keeps ws_placed (ws_put_notebook path l nb user overwrite) ws"
  unfolding ws_put_notebook_def Let_def
  by (intro keeps_then [OF placed_slot]) (auto dest!: slot_parent split: option.split
      intro!: keeps_then keeps_basic placed_frames placed_upsert)

lemma placed_put_file: "keeps ws_placed (ws_put_file path bytes user overwrite) ws"
  unfolding ws_put_file_def Let_def
  by (intro keeps_then [OF placed_slot]) (auto dest!: slot_parent simp: w_put_bytes_def split: option.split
      intro!: keeps_then keeps_basic placed_frames placed_upsert)

text \<open>The same for the recursions, where they end.\<close>

definition o_keeps :: "(ws_state \<Rightarrow> bool) \<Rightarrow> 'a wo \<Rightarrow> ws_state \<Rightarrow> bool" where
  "o_keeps I m ws \<longleftrightarrow> (I ws \<longrightarrow> (case m ws of None \<Rightarrow> True | Some (r, ws') \<Rightarrow> I ws'))"

lemma o_keeps_lift: "keeps I m ws \<Longrightarrow> o_keeps I (o_lift m) ws"
  by (auto simp: o_keeps_def keeps_def o_lift_def split: prod.split)

lemma o_keeps_then:
  assumes "o_keeps I m ws" and "\<And>x ws'. m ws = Some (Inr x, ws') \<Longrightarrow> o_keeps I (f x) ws'"
  shows "o_keeps I (o_then m f) ws"
  using assms by (cases "m ws") (auto simp: o_keeps_def o_then_def split: sum.splits)

lemma o_keeps_each: "(\<And>x ws. x \<in> set xs \<Longrightarrow> o_keeps I (f x) ws) \<Longrightarrow> o_keeps I (o_each f xs) ws"
  by (induction xs arbitrary: ws) (auto intro!: o_keeps_lift keeps_basic o_keeps_then)

lemma reads_keeps: "reads m \<Longrightarrow> keeps I m s"
  by (simp add: reads_def keeps_def)

lemma placed_try_file: "keeps ws_placed (h_try (w_delete_bytes k)) ws"
  using placed_frames(4) [where g = "\<lambda>fs. (Inr (), AList.delete k fs)" and ws = ws]
  by (simp add: keeps_def h_try_def w_delete_bytes_def)

lemma placed_delete: "o_keeps ws_placed (ws_delete n path recursive) ws"
proof (induction n arbitrary: path recursive ws)
  case (Suc n)
  show ?case unfolding ws_delete.simps
    by (intro o_keeps_then o_keeps_lift placed_remove reads_keeps ws_reads)
      (auto intro!: o_keeps_then o_keeps_lift o_keeps_each Suc reads_keeps keeps_basic placed_try_file)
qed (simp add: o_keeps_def)

lemma placed_move: "o_keeps ws_placed (ws_move n from to user) ws"
proof (induction n arbitrary: "from" to ws)
  case (Suc n)
  show ?case unfolding ws_move.simps
    by (intro o_keeps_then o_keeps_lift placed_remove placed_ws_mkdirs placed_frames reads_keeps ws_reads)
      (auto simp: o_lift_def w_lift_def ok_or_def
        intro!: o_keeps_then o_keeps_lift o_keeps_each Suc reads_keeps keeps_basic placed_ws_mkdirs placed_frames placed_upsert placed_remove
        split: option.splits)
qed (simp add: o_keeps_def)

end
