(* ===== verification/Ws_Notebook_Theorems.thy ===== *)
theory Ws_Notebook_Theorems
  imports Ws_Notebook
begin

text \<open>
  The source format of notebooks: what is written is read back, cell by cell. The conditions say what
  the format cannot carry.
\<close>

section \<open>Texts\<close>

lemma starts_with_sep:
  "nl \<notin> set t \<Longrightarrow> starts_with (x @ nl # y) t \<longleftrightarrow> starts_with x t"
proof (induction x t rule: starts_with.induct)
  case (2 p ps)
  then show ?case by auto
qed auto

lemma has_infix_sep:
  assumes "nl \<notin> set t" and "t \<noteq> []"
  shows "has_infix (x @ nl # y) t \<longleftrightarrow> has_infix x t \<or> has_infix y t"
proof (induction x)
  case Nil
  from assms obtain c t' where "t = c # t'" "c \<noteq> nl" by (cases t) auto
  then show ?case by simp
next
  case (Cons c x)
  have "starts_with ((c # x) @ nl # y) t \<longleftrightarrow> starts_with (c # x) t" by (rule starts_with_sep [OF assms(1)])
  with Cons show ?case by simp
qed

lemma has_infix_join:
  assumes "nl \<notin> set t" and "t \<noteq> []"
  shows "has_infix (join_with [nl] ps) t \<longleftrightarrow> (\<exists>p \<in> set ps. has_infix p t)"
proof (induction "[nl]" ps rule: join_with.induct)
  case (3 p q ps)
  have "has_infix (join_with [nl] (p # q # ps)) t \<longleftrightarrow> has_infix (p @ nl # join_with [nl] (q # ps)) t" by simp
  also have "\<dots> \<longleftrightarrow> has_infix p t \<or> has_infix (join_with [nl] (q # ps)) t" by (rule has_infix_sep [OF assms])
  finally show ?case using 3 by simp
qed (use assms in auto)

lemma split_str_plain: "t \<noteq> [] \<Longrightarrow> \<not> has_infix s t \<Longrightarrow> split_str t s = [s]"
  by (induction t s rule: split_str.induct) auto

lemma starts_with_self: "starts_with (t @ s) t"
  by (simp add: starts_with_iff)

lemma split_str_sep:
  assumes "nl \<notin> set t" and "t \<noteq> []" and "\<not> has_infix x t"
  shows "split_str t (x @ nl # t @ rest) = (x @ [nl]) # split_str t rest"
  using assms(3)
proof (induction x)
  case Nil
  from assms(1,2) obtain c t' where t: "t = c # t'" "c \<noteq> nl" by (cases t) auto
  have "starts_with (t @ rest) t" by (rule starts_with_self)
  then have "split_str t (t @ rest) = [] # split_str t rest" using t by simp
  then show ?case using t by simp
next
  case (Cons c x)
  have "\<not> starts_with ((c # x) @ nl # (t @ rest)) t"
    unfolding starts_with_sep [OF assms(1)] using Cons.prems by simp
  with Cons show ?case by simp
qed

lemma trim_Nil: "trim s = [] \<longleftrightarrow> list_all is_space s"
proof -
  have "dropWhile is_space xs = [] \<longleftrightarrow> list_all is_space xs" for xs by (auto simp: dropWhile_eq_Nil_conv list_all_iff)
  moreover have "list_all is_space (dropWhile is_space s) \<longleftrightarrow> list_all is_space s" by (induction s) auto
  ultimately show ?thesis by (simp add: trim_def)
qed

text \<open>Newlines around a text that has none at its ends.\<close>

definition tight :: "string \<Rightarrow> bool" where
  "tight s \<longleftrightarrow> (s \<noteq> [] \<longrightarrow> hd s \<noteq> nl \<and> last s \<noteq> nl)"

lemma trim_padded:
  assumes "tight s"
  shows "trim_char nl (replicate i nl @ s @ replicate j nl) = s"
proof (cases "s = []")
  case True
  have "dropWhile (\<lambda>x. x = nl) (replicate n nl) = []" for n by (induction n) auto
  with True show ?thesis by (simp add: trim_char_def trim_end_char_def replicate_add [symmetric])
next
  case False
  have pad: "dropWhile (\<lambda>x. x = nl) (replicate n nl @ ys) = dropWhile (\<lambda>x. x = nl) ys" for n ys by (induction n) auto
  obtain c s' where s: "s = c # s'" "c \<noteq> nl" using assms False by (cases s) (auto simp: tight_def)
  obtain z zs where z: "rev s = z # zs" using False by (cases "rev s") auto
  then have "z = last s" by (metis hd_rev list.sel(1))
  with z assms False have r: "rev s = z # zs" "z \<noteq> nl" by (auto simp: tight_def)
  have "dropWhile (\<lambda>x. x = nl) (replicate i nl @ s @ replicate j nl) = s @ replicate j nl" using s by (simp add: pad)
  moreover have "dropWhile (\<lambda>x. x = nl) (rev (s @ replicate j nl)) = rev s" using r by (simp add: pad)
  ultimately show ?thesis by (simp add: trim_char_def trim_end_char_def)
qed

section \<open>Lines\<close>

lemma split_on_empty: "split_on c s = [[]] \<longleftrightarrow> s = []"
  by (metis join_split join_with.simps(2) split_on.simps(1))

lemma last_split: "last (split_on nl s) = [] \<longleftrightarrow> s = [] \<or> last s = nl"
proof (induction s)
  case (Cons x xs)
  obtain q qs where q: "split_on nl xs = q # qs" by (cases "split_on nl xs") auto
  with Cons split_on_empty [of nl xs] show ?case by (cases qs) auto
qed simp

lemma drop_cr_plain: "cr \<notin> set l \<Longrightarrow> drop_cr l = l"
  by (cases "l = []") (auto simp: drop_cr_def dest: last_in_set)

lemma split_on_members: "p \<in> set (split_on c s) \<Longrightarrow> set p \<subseteq> set s \<and> c \<notin> set p"
proof (induction s arbitrary: p)
  case (Cons x xs)
  obtain q qs where q: "split_on c xs = q # qs" by (cases "split_on c xs") auto
  then show ?case using Cons.IH [of q] Cons.IH [of p] Cons.prems by (auto split: if_splits)
qed simp

lemma str_lines_plain:
  assumes "cr \<notin> set s" and "s = [] \<or> last s \<noteq> nl"
  shows "str_lines s = (if s = [] then [] else split_on nl s)"
proof (cases "s = []")
  case False
  with assms(2) have "last (split_on nl s) \<noteq> []" by (simp add: last_split)
  moreover have "map drop_cr (split_on nl s) = split_on nl s"
    using assms(1) split_on_members [of _ nl s] by (intro map_idI drop_cr_plain) blast
  ultimately show ?thesis using False by (simp add: str_lines_def Let_def)
qed (simp add: str_lines_def)

lemma str_lines_join:
  assumes "ps \<noteq> []" and "list_all (\<lambda>p. nl \<notin> set p \<and> cr \<notin> set p) ps" and "last ps \<noteq> []"
  shows "str_lines (join_with [nl] ps) = ps"
proof -
  have "split_on nl (join_with [nl] ps) = ps" using assms(1,2) by (intro split_join) (auto simp: list_all_iff)
  moreover have "map drop_cr ps = ps" using assms(2) by (intro map_idI drop_cr_plain) (auto simp: list_all_iff)
  ultimately show ?thesis using assms(3) by (simp add: str_lines_def Let_def)
qed

lemma join_lines: "cr \<notin> set s \<Longrightarrow> s = [] \<or> last s \<noteq> nl \<Longrightarrow> join_with [nl] (str_lines s) = s"
  by (simp add: str_lines_plain join_split)

section \<open>Cells the format carries\<close>

definition magic_languages :: "string list" where
  "magic_languages = [''markdown'', ''shell'', ''sql'', ''python'', ''scala'', ''r'']"

definition cell_plain :: "language \<Rightarrow> cell \<Rightarrow> bool" where
  "cell_plain l c \<longleftrightarrow>
     (let s = ce_source c in
      cr \<notin> set s \<and> \<not> has_infix s (source_sep l) \<and> (s = [] \<or> last s \<noteq> nl) \<and>
      (if ce_language c = cell_name l
       then (s = [] \<or> hd s \<noteq> nl) \<and> (\<forall>line \<in> set (split_on nl s). \<not> starts_with line (source_magic l) \<and> trim line \<noteq> blank_magic l)
       else ce_language c \<in> set magic_languages))"

text \<open>The text of a cell without the newline at its end.\<close>

definition magic_lines :: "language \<Rightarrow> cell \<Rightarrow> string list" where
  "magic_lines l c = (source_magic l @ magic_of (ce_language c)) #
     map (\<lambda>line. if line = [] then blank_magic l else source_magic l @ line) (str_lines (ce_source c))"

definition cell_body :: "language \<Rightarrow> cell \<Rightarrow> string" where
  "cell_body l c = (if ce_language c = cell_name l then ce_source c else join_with [nl] (magic_lines l c))"

lemma join_ends: "concat (map (\<lambda>p. p @ [nl]) (p # ps)) = join_with [nl] (p # ps) @ [nl]"
  by (induction ps arbitrary: p) auto

lemma cell_text_body: "cell_text l c = cell_body l c @ [nl]"
proof -
  let ?g = "\<lambda>line. if line = [] then blank_magic l else source_magic l @ line"
  let ?ls = "str_lines (ce_source c)"
  have "concat (map (magic_line l) ls) = concat (map (\<lambda>p. p @ [nl]) (map ?g ls))" for ls
    by (induction ls) (auto simp: magic_line_def)
  then have "source_magic l @ magic_of (ce_language c) @ [nl] @ concat (map (magic_line l) ?ls) =
      concat (map (\<lambda>p. p @ [nl]) (magic_lines l c))" by (simp add: magic_lines_def)
  also have "\<dots> = join_with [nl] (magic_lines l c) @ [nl]" unfolding magic_lines_def by (rule join_ends)
  finally show ?thesis by (simp add: cell_text_def cell_body_def)
qed

lemma language_texts:
  "nl \<notin> set (source_magic l)" "cr \<notin> set (source_magic l)" "nl \<notin> set (blank_magic l)" "cr \<notin> set (blank_magic l)"
  "nl \<notin> set (source_sep l)" "source_sep l \<noteq> []" "blank_magic l \<noteq> []" "source_magic l \<noteq> []"
  "\<not> has_infix (blank_magic l) (source_sep l)" "strip_prefix (blank_magic l) (source_magic l) = None"
  "trim (blank_magic l) = blank_magic l" "\<not> list_all is_space (source_magic l)"
  by (cases l; simp add: source_magic_def source_sep_def blank_magic_def nl_def cr_def trim_end_def trim_def is_space_def)+

lemma magic_texts:
  assumes "lang \<in> set magic_languages"
  shows "nl \<notin> set (magic_of lang)" "cr \<notin> set (magic_of lang)" "magic_of lang \<noteq> []"
    "\<not> has_infix (magic_of lang) (source_sep l)" "trim (magic_of lang) = magic_of lang"
proof -
  from assms have among: "lang \<in> {''markdown'', ''shell'', ''sql'', ''python'', ''scala'', ''r''}" by (simp add: magic_languages_def)
  from among show "nl \<notin> set (magic_of lang)" "cr \<notin> set (magic_of lang)" "magic_of lang \<noteq> []" "trim (magic_of lang) = magic_of lang"
    by (elim insertE emptyE; hypsubst; simp add: magic_of_def nl_def cr_def trim_def is_space_def)+
  from among show "\<not> has_infix (magic_of lang) (source_sep l)"
    by (elim insertE emptyE; hypsubst; cases l; simp add: magic_of_def source_sep_def)
qed

lemma infix_after_magic: "has_infix (source_magic l @ s) (source_sep l) \<longleftrightarrow> has_infix s (source_sep l)"
  by (cases l; simp add: source_magic_def source_sep_def)

lemma lines_plain:
  assumes "cell_plain l c"
  shows "list_all (\<lambda>p. nl \<notin> set p \<and> cr \<notin> set p \<and> \<not> has_infix p (source_sep l)) (str_lines (ce_source c))"
proof -
  let ?s = "ce_source c"
  have s: "cr \<notin> set ?s" "\<not> has_infix ?s (source_sep l)" "?s = [] \<or> last ?s \<noteq> nl"
    using assms by (simp_all add: cell_plain_def Let_def)
  have "\<not> has_infix p (source_sep l)" if "p \<in> set (split_on nl ?s)" for p
    using s(2) that has_infix_join [OF language_texts(5,6), where ps = "split_on nl ?s"] by (auto simp: join_split)
  with s split_on_members [of _ nl ?s] show ?thesis by (auto simp: str_lines_plain list_all_iff)
qed

lemma magic_lines_plain:
  assumes "cell_plain l c" and "ce_language c \<noteq> cell_name l"
  shows "list_all (\<lambda>p. nl \<notin> set p \<and> cr \<notin> set p \<and> p \<noteq> [] \<and> \<not> has_infix p (source_sep l)) (magic_lines l c)"
proof -
  have "ce_language c \<in> set magic_languages" using assms by (simp add: cell_plain_def Let_def)
  then show ?thesis
    using lines_plain [OF assms(1)]
    by (auto simp: magic_lines_def list_all_iff language_texts magic_texts infix_after_magic)
qed

lemma body_no_sep:
  assumes "cell_plain l c"
  shows "\<not> has_infix (cell_body l c) (source_sep l)"
proof (cases "ce_language c = cell_name l")
  case False
  then show ?thesis
    using magic_lines_plain [OF assms False] has_infix_join [OF language_texts(5,6), where ps = "magic_lines l c"]
    by (auto simp: cell_body_def list_all_iff)
qed (use assms in \<open>simp add: cell_body_def cell_plain_def Let_def\<close>)

lemma body_tight:
  assumes "cell_plain l c"
  shows "tight (cell_body l c)"
proof (cases "ce_language c = cell_name l")
  case False
  note ls = magic_lines_plain [OF assms False]
  have "magic_lines l c \<noteq> []" by (simp add: magic_lines_def)
  then have "last (magic_lines l c) \<in> set (magic_lines l c)" by (rule last_in_set)
  with ls have "last (magic_lines l c) \<noteq> []" "nl \<notin> set (last (magic_lines l c))" by (auto simp: list_all_iff)
  then have "last (join_with [nl] (magic_lines l c)) \<noteq> nl"
    using last_join [of "magic_lines l c" "[nl]"] by (auto simp: magic_lines_def dest: last_in_set)
  moreover have "hd (join_with [nl] (magic_lines l c)) \<noteq> nl"
  proof -
    have "hd (join_with [nl] (magic_lines l c)) = hd (source_magic l)"
      unfolding magic_lines_def by (subst hd_join) (simp_all add: language_texts)
    moreover have "hd (source_magic l) \<in> set (source_magic l)" by (rule hd_in_set) (rule language_texts)
    ultimately show ?thesis using language_texts(1) [of l] by auto
  qed
  ultimately show ?thesis using False by (simp add: tight_def cell_body_def)
qed (use assms in \<open>auto simp: tight_def cell_body_def cell_plain_def Let_def\<close>)

section \<open>Reading back\<close>

lemma chunk_line_plain:
  "\<not> starts_with line (source_magic l) \<Longrightarrow> trim line \<noteq> blank_magic l \<Longrightarrow> chunk_line l line = (line, False)"
  by (auto simp: chunk_line_def starts_with_iff strip_prefix_Some split: option.split)

lemma chunk_line_magic: "chunk_line l (source_magic l @ line) = (line, True)" "chunk_line l (blank_magic l) = ([], True)"
  by (simp_all add: chunk_line_def language_texts)

lemma split_magic_back:
  assumes "lang \<in> set magic_languages" and "list_all (\<lambda>p. nl \<notin> set p \<and> cr \<notin> set p) ls"
  shows "split_magic (join_with [nl] (magic_of lang # ls)) l = (lang, join_with [nl] ls)"
proof -
  let ?m = "magic_of lang"
  note m = magic_texts [OF assms(1)]
  have src: "join_with [nl] (?m # ls) = ?m @ (if ls = [] then [] else nl # join_with [nl] ls)" by (cases ls) auto
  have "\<exists>ls'. str_lines (join_with [nl] (?m # ls)) = ?m # ls'"
  proof (cases "ls = []")
    case True
    with m show ?thesis by (simp add: str_lines_def Let_def split_on_plain drop_cr_plain)
  next
    case False
    then have "split_on nl (join_with [nl] (?m # ls)) = ?m # split_on nl (join_with [nl] ls)"
      using split_on_append [OF m(1)] by (simp add: src)
    with m(2) show ?thesis
      by (cases "split_on nl (join_with [nl] ls)") (auto simp: str_lines_def Let_def drop_cr_plain)
  qed
  then obtain ls' where first: "str_lines (join_with [nl] (?m # ls)) = ?m # ls'" by blast
  have rest: "(case split_once nl (join_with [nl] (?m # ls)) of Some x \<Rightarrow> snd x | None \<Rightarrow> []) = join_with [nl] ls"
  proof (cases "ls = []")
    case True
    with m(1) show ?thesis by (simp add: split_once_def)
  next
    case False
    have "takeWhile (\<lambda>x. x \<noteq> nl) (?m @ nl # t) = ?m" "dropWhile (\<lambda>x. x \<noteq> nl) (?m @ nl # t) = nl # t" for t
      using m(1) by (auto simp: takeWhile_append dropWhile_append takeWhile_eq_all_conv dropWhile_eq_Nil_conv)
    with False show ?thesis by (simp add: src split_once_def)
  qed
  from assms(1) have "lang \<in> {''markdown'', ''shell'', ''sql'', ''python'', ''scala'', ''r''}" by (simp add: magic_languages_def)
  then have "magic_word ?m = (if lang = ''markdown'' then ''md'' else if lang = ''shell'' then ''sh'' else lang)"
    by (elim insertE emptyE; hypsubst; simp add: magic_of_def magic_word_def split_whitespace_def is_space_def)
  with \<open>lang \<in> {''markdown'', ''shell'', ''sql'', ''python'', ''scala'', ''r''}\<close> show ?thesis
    unfolding split_magic_def Let_def first rest list.case m(5)
    by (elim insertE emptyE; hypsubst; simp)
qed

lemma parse_chunk_back:
  assumes "cell_plain l c"
  shows "parse_chunk l (cell_body l c) = (ce_language c, ce_source c)"
proof (cases "ce_language c = cell_name l")
  case True
  let ?s = "ce_source c"
  have s: "cr \<notin> set ?s" "?s = [] \<or> last ?s \<noteq> nl"
    and plain: "\<And>line. line \<in> set (split_on nl ?s) \<Longrightarrow> chunk_line l line = (line, False)"
    using assms True by (auto simp: cell_plain_def Let_def intro: chunk_line_plain)
  show ?thesis
  proof (cases "?s = []")
    case False
    then have ls: "map (chunk_line l) (str_lines ?s) = map (\<lambda>line. (line, False)) (split_on nl ?s)"
      using plain s by (simp add: str_lines_plain)
    have "\<not> list_all snd (map (\<lambda>line. (line, False)) (split_on nl ?s))" by (cases "split_on nl ?s") auto
    then show ?thesis using True by (simp add: parse_chunk_def cell_body_def ls Let_def join_split o_def)
  qed (use True in \<open>simp add: parse_chunk_def cell_body_def str_lines_def Let_def\<close>)
next
  case False
  let ?ls = "str_lines (ce_source c)"
  have lang: "ce_language c \<in> set magic_languages" and s: "cr \<notin> set (ce_source c)" "ce_source c = [] \<or> last (ce_source c) \<noteq> nl"
    using assms False by (simp_all add: cell_plain_def Let_def)
  have last_line: "last (magic_lines l c) \<noteq> []" "magic_lines l c \<noteq> []"
  proof -
    show "magic_lines l c \<noteq> []" by (simp add: magic_lines_def)
    then have "last (magic_lines l c) \<in> set (magic_lines l c)" by (rule last_in_set)
    with magic_lines_plain [OF assms False] show "last (magic_lines l c) \<noteq> []" by (auto simp: list_all_iff)
  qed
  have "str_lines (cell_body l c) = magic_lines l c"
    using False magic_lines_plain [OF assms False] last_line
    by (simp add: cell_body_def) (rule str_lines_join, auto simp: list_all_iff)
  then have ls: "map (chunk_line l) (str_lines (cell_body l c)) = (magic_of (ce_language c), True) # map (\<lambda>p. (p, True)) ?ls"
    by (auto simp: magic_lines_def chunk_line_magic)
  have src: "join_with [nl] (map fst ((magic_of (ce_language c), True) # map (\<lambda>p. (p, True)) ?ls)) =
      join_with [nl] (magic_of (ce_language c) # ?ls)" by (simp add: o_def)
  have "join_with [nl] (magic_of (ce_language c) # ?ls) \<noteq> []"
    using magic_texts(3) [OF lang] by (cases ?ls) auto
  moreover have "list_all (\<lambda>p. nl \<notin> set p \<and> cr \<notin> set p) ?ls"
    using lines_plain [OF assms] by (simp add: list_all_iff)
  ultimately show ?thesis
    unfolding parse_chunk_def ls Let_def src
    by (simp add: split_magic_back [OF lang] join_lines [OF s] list_all_iff del: join_with.simps)
qed

text \<open>Every cell but the first has some text in it, or the reader drops it.\<close>

definition notebook_plain :: "language \<Rightarrow> notebook \<Rightarrow> bool" where
  "notebook_plain l nb \<longleftrightarrow> nb_cells nb \<noteq> [] \<and> list_all (cell_plain l) (nb_cells nb) \<and>
     list_all (\<lambda>c. ce_language c = cell_name l \<longrightarrow> trim (ce_source c) \<noteq> []) (tl (nb_cells nb))"

lemma body_not_blank:
  assumes "ce_language c = cell_name l \<longrightarrow> trim (ce_source c) \<noteq> []"
  shows "trim (cell_body l c) \<noteq> []"
proof (cases "ce_language c = cell_name l")
  case False
  have "join_with [nl] (magic_lines l c) = source_magic l @ magic_of (ce_language c) @ t" if "magic_lines l c = [source_magic l @ magic_of (ce_language c)] @ ls"
      and "t = (if ls = [] then [] else nl # join_with [nl] ls)" for ls t
    using that by (cases ls) auto
  then obtain t where "cell_body l c = source_magic l @ t"
    using False by (fastforce simp: cell_body_def magic_lines_def)
  with language_texts(12) [of l] show ?thesis by (simp add: trim_Nil)
qed (use assms in \<open>simp add: cell_body_def\<close>)

definition more_text :: "language \<Rightarrow> cell list \<Rightarrow> string" where
  "more_text l cs = concat (map (\<lambda>c. [nl] @ source_sep l @ [nl, nl] @ cell_text l c) cs)"

lemma no_sep_padded: "\<not> has_infix s (source_sep l) \<Longrightarrow> \<not> has_infix (replicate i nl @ s) (source_sep l)"
proof (induction i)
  case (Suc i)
  then show ?case
    using has_infix_sep [OF language_texts(5,6), of "[]" "replicate i nl @ s" l] language_texts(6) [of l] by simp
qed simp

lemma no_sep_end: "\<not> has_infix s (source_sep l) \<Longrightarrow> \<not> has_infix (s @ [nl]) (source_sep l)"
  using has_infix_sep [OF language_texts(5,6), of s "[]" l] language_texts(6) [of l] by simp

lemma split_cells:
  assumes "list_all (cell_plain l) (c # cs)"
  shows "map (trim_char nl) (split_str (source_sep l) (replicate i nl @ cell_text l c @ more_text l cs)) =
     map (cell_body l) (c # cs)"
  using assms
proof (induction cs arbitrary: c i)
  case Nil
  have "\<not> has_infix (replicate i nl @ cell_body l c @ [nl]) (source_sep l)"
    using Nil by (intro no_sep_padded no_sep_end body_no_sep) simp
  moreover have "trim_char nl (replicate i nl @ cell_body l c @ [nl]) = cell_body l c"
    using trim_padded [OF body_tight, of l c i 1] Nil by simp
  ultimately show ?case by (simp add: more_text_def cell_text_body split_str_plain language_texts)
next
  case (Cons d cs)
  let ?q = "replicate i nl @ cell_body l c @ [nl]"
  have q: "\<not> has_infix ?q (source_sep l)"
    using Cons.prems by (intro no_sep_padded no_sep_end body_no_sep) simp
  have "replicate i nl @ cell_text l c @ more_text l (d # cs) =
      ?q @ nl # source_sep l @ (replicate 2 nl @ cell_text l d @ more_text l cs)"
    by (simp add: more_text_def cell_text_body numeral_2_eq_2)
  moreover have "trim_char nl (?q @ [nl]) = cell_body l c"
    using trim_padded [OF body_tight, of l c i 2] Cons.prems by (simp add: numeral_2_eq_2)
  ultimately show ?case
    using split_str_sep [OF language_texts(5,6) q] Cons.IH [of d 2] Cons.prems by simp
qed

lemma source_cells_kept:
  assumes "cells \<noteq> []" and "list_all (\<lambda>b. trim b \<noteq> []) (map (trim_char nl) raws)"
  shows "source_cells l cells raws = cells @ map (parse_chunk l) (map (trim_char nl) raws)"
  using assms by (induction raws arbitrary: cells) (auto simp: Let_def)

lemma to_source_text:
  assumes "nb_cells nb = c # cs"
  shows "to_source nb l = source_header l @ (replicate 1 nl @ cell_text l c @ more_text l cs)"
proof -
  have "concat (map (\<lambda>(i, c). (if 0 < i then [nl] @ source_sep l @ [nl, nl] else []) @ cell_text l c) (enumerate (Suc n) cs)) =
      more_text l cs" for n
    by (induction cs arbitrary: n) (simp_all add: more_text_def)
  then show ?thesis by (simp add: to_source_def assms)
qed

text \<open>C29: A notebook written in the source format of a language and read back has the same cells, in the
  same order, each with its language and its text, whatever its cells are, as long as the format can
  carry them: no cell has a line that looks like the format's own markers, a carriage return, or a
  newline at its end (or start, in the notebook's language), the languages are those with a magic
  word, and only the first cell is blank.\<close>

theorem notebook_source_roundtrip:
  assumes "notebook_plain l nb"
  shows "map (\<lambda>c. (ce_language c, ce_source c)) (nb_cells (parse_source ids (to_source nb l) l)) =
     map (\<lambda>c. (ce_language c, ce_source c)) (nb_cells nb)"
proof -
  obtain c cs where cells: "nb_cells nb = c # cs" using assms by (cases "nb_cells nb") (auto simp: notebook_plain_def)
  have plain: "list_all (cell_plain l) (c # cs)" and blank: "list_all (\<lambda>c. trim (cell_body l c) \<noteq> []) cs"
    using assms cells by (auto simp: notebook_plain_def list_all_iff intro!: body_not_blank)
  let ?raws = "split_str (source_sep l) (replicate 1 nl @ cell_text l c @ more_text l cs)"
  have raws: "map (trim_char nl) ?raws = map (cell_body l) (c # cs)" by (rule split_cells [OF plain])
  then obtain r rs where r: "?raws = r # rs" "trim_char nl r = cell_body l c" "map (trim_char nl) rs = map (cell_body l) cs"
    by (cases ?raws) auto
  have "source_cells l [] ?raws = map (parse_chunk l) (map (cell_body l) (c # cs))"
    using source_cells_kept [of "[parse_chunk l (cell_body l c)]" rs l] r blank by (simp add: list_all_iff Let_def o_def del: map_map)
  also have "\<dots> = map (\<lambda>c. (ce_language c, ce_source c)) (c # cs)"
    using plain by (simp add: parse_chunk_back list_all_iff)
  finally have "nb_cells (parse_source ids (to_source nb l) l) =
      map (\<lambda>(i, ls). new_cell (ids i) ls) (enumerate 0 (map (\<lambda>c. (ce_language c, ce_source c)) (c # cs)))"
    by (simp add: parse_source_def to_source_text [OF cells] or_default_def notebook_of_def Let_def del: replicate.simps)
  moreover have "map (\<lambda>c. (ce_language c, ce_source c)) (map (\<lambda>(i, ls). new_cell (ids i) ls) (enumerate n xs)) = xs" for n xs
    by (induction xs arbitrary: n) (simp_all add: new_cell_def)
  ultimately show ?thesis by (simp add: cells new_cell_def)
qed

definition two_cells :: notebook where
  "two_cells = \<lparr>nb_default_language = ''python'',
     nb_cells = [new_cell ''a'' (''python'', ''x = 1''), new_cell ''b'' (''markdown'', ''# Title'' @ [nl, nl] @ ''text'')],
     nb_widgets = JObj []\<rparr>"

theorem notebook_source_roundtrip_witness:
  "map (\<lambda>c. (ce_language c, ce_source c)) (nb_cells (parse_source (\<lambda>_. ''u'') (to_source two_cells Python) Python)) =
     [(''python'', ''x = 1''), (''markdown'', ''# Title'' @ [nl, nl] @ ''text'')]"
proof -
  have "notebook_plain Python two_cells" by code_simp
  from notebook_source_roundtrip [OF this] show ?thesis by (simp add: two_cells_def new_cell_def)
qed

end
