(* ===== verification/Ws_Handlers_Theorems.thy ===== *)
theory Ws_Handlers_Theorems
  imports Ws_Handlers Ws_Tree_Theorems Ws_Notebook_Theorems
begin

text \<open>
  The endpoints of the workspace as steps: what every history of them keeps of the tree, so that a
  listing is what its path says, and what a finished run of a notebook's cells tells of the cells.
\<close>

section \<open>Histories\<close>

lemma placed_read_file: "keeps ws_placed (ws_read_file w) ws"
  unfolding ws_read_file_def w_get_bytes_def by (rule placed_frames)

lemma placed_import: "keeps ws_placed (import_object co user b) ws"
proof -
  have "keeps ws_placed (import_jupyter co path bytes lang user overwrite) ws" for path bytes lang overwrite ws
    by (auto simp: import_jupyter_def Let_def split: sum.split intro!: keeps_basic keeps_then placed_frames placed_put_notebook)
  moreover have "keeps ws_placed (import_source path src l user overwrite) ws" for path src l overwrite ws
    unfolding import_source_def by (intro keeps_then placed_frames placed_put_notebook)
  ultimately show ?thesis unfolding import_object_def Let_def
    by (intro keeps_then) (auto intro!: keeps_basic placed_put_file split: option.split sum.split)
qed

lemma placed_export: "keeps ws_placed (ws_export co path format direct) ws"
  unfolding ws_export_def export_bytes_def
  by (intro keeps_then) (auto intro!: keeps_basic keeps_then placed_read_file reads_keeps [OF ws_reads(2)] split: object_type.split)

lemma placed_write: "keeps ws_placed (write_ws_file user path bytes) ws"
  unfolding write_ws_file_def by (intro keeps_then placed_put_file keeps_basic)

lemma placed_name_cells: "keeps ws_placed (name_cells cs) ws"
proof (induction cs arbitrary: ws)
  case (Cons c cs)
  have "keeps ws_placed (\<lambda>ws. (Inr (c\<lparr>ce_id := ws_uuid ws (ws_uuids ws)\<rparr>), ws\<lparr>ws_uuids := Suc (ws_uuids ws)\<rparr>)) ws"
    by (simp add: keeps_def)
  with Cons show ?case by (auto intro!: keeps_then keeps_basic)
qed (simp add: keeps_basic)

lemma placed_save: "keeps ws_placed (save_notebook user b) ws"
  unfolding save_notebook_def Let_def
  by (intro keeps_then placed_name_cells placed_put_notebook keeps_basic) (auto intro: placed_name_cells keeps_basic simp del: name_cells.simps)

lemma placed_outputs: "keeps ws_placed (save_outputs user path i os) ws"
  unfolding save_outputs_def Let_def by (intro keeps_then reads_keeps ws_reads placed_put_notebook keeps_basic)

text \<open>A request, whatever it answers; a deletion or a move is one step when it ends.\<close>

inductive ws_step :: "codecs \<Rightarrow> ws_state \<Rightarrow> ws_state \<Rightarrow> bool" for co where
  step_mkdirs: "ws_step co ws (snd (ws_mkdirs path user ws))"
| step_import: "ws_step co ws (snd (import_object co user b ws))"
| step_export: "ws_step co ws (snd (ws_export co path format direct ws))"
| step_read: "ws_step co ws (snd (read_ws_file path ws))"
| step_write: "ws_step co ws (snd (write_ws_file user path bytes ws))"
| step_save: "ws_step co ws (snd (save_notebook user b ws))"
| step_outputs: "ws_step co ws (snd (save_outputs user path i os ws))"
| step_delete: "ws_delete n path recursive ws = Some (r, ws') \<Longrightarrow> ws_step co ws ws'"
| step_move: "ws_move n from to user ws = Some (r, ws') \<Longrightarrow> ws_step co ws ws'"

lemma step_keeps_placed: "ws_step co ws ws' \<Longrightarrow> ws_placed ws \<Longrightarrow> ws_placed ws'"
proof (induction rule: ws_step.induct)
  case (step_delete n path recursive ws r ws')
  then show ?case using placed_delete [of n path recursive ws] by (simp add: o_keeps_def)
next
  case (step_move n "from" to user ws r ws')
  then show ?case using placed_move [of n "from" to user ws] by (simp add: o_keeps_def)
next
  case (step_read ws path)
  have "keeps ws_placed (read_ws_file path) ws" unfolding read_ws_file_def
    by (intro keeps_then) (auto intro!: keeps_basic reads_keeps [OF ws_reads(2)] placed_read_file)
  with step_read show ?case by (rule keepsD [rotated])
qed (blast intro: keepsD placed_ws_mkdirs placed_import placed_export placed_write placed_save placed_outputs)+

lemma history_keeps_placed: "(ws_step co)\<^sup>*\<^sup>* ws ws' \<Longrightarrow> ws_placed ws \<Longrightarrow> ws_placed ws'"
  by (induction rule: rtranclp_induct) (auto intro: step_keeps_placed)

lemma decode_placed: "\<lbrakk>placed_doc d; d_kind d = KIND_WS\<rbrakk> \<Longrightarrow> \<exists>w. decode_doc ws_of_json d = Inr (d, w) \<and> wo_path w = d_id d"
  by (auto simp: placed_doc_def decode_doc_def split: option.splits)

lemma try_map_placed:
  assumes "\<And>d. d \<in> set ds \<Longrightarrow> placed_doc d \<and> d_kind d = KIND_WS"
  shows "\<exists>ws. try_map (decode_doc ws_of_json) ds = Inr ws \<and> map (\<lambda>x. wo_path (snd x)) ws = map d_id ds"
  using assms
proof (induction ds)
  case (Cons d ds)
  then obtain ws where "try_map (decode_doc ws_of_json) ds = Inr ws" "map (\<lambda>x. wo_path (snd x)) ws = map d_id ds" by auto
  moreover obtain w where "decode_doc ws_of_json d = Inr (d, w)" "wo_path w = d_id d" using decode_placed Cons.prems by auto
  ultimately show ?case by simp
qed simp

lemma paths_add_roots: "wo_path ` set (add_roots items) = wo_path ` set items \<union> set IMPLICIT_ROOTS"
proof -
  have "wo_path ` set (fold (\<lambda>root items. if \<exists>w \<in> set items. wo_path w = root then items else items @ [dir_object root]) roots items) =
      wo_path ` set items \<union> set roots" for roots
    by (induction roots arbitrary: items) (auto simp: dir_object_def)
  then show ?thesis by (simp add: add_roots_def)
qed

text \<open>C27: After any history of requests to a workspace, imports, writes, moves, deletions and failures of the
  object store among them, a listing of a directory answers, and with exactly the objects stored
  under a path whose parent is that directory (below the root, the implicit directories besides), as
  long as there are no more objects than one query returns; the history starts from a workspace whose
  objects are each stored under their own path, such as an empty one.\<close>

theorem workspace_listing_exact:
  assumes "ws_placed ws0" and "(ws_step co)\<^sup>*\<^sup>* ws0 ws" and "within_limit KIND_WS (ws_store ws)"
    and "normalize path = Inr dir"
  shows "\<exists>items. ws_list path (ws_store ws) = Inr items \<and>
     set (map wo_path items) = {p. store_get KIND_WS p (ws_store ws) \<noteq> None \<and> ws_parent p = Some dir} \<union>
       (if dir = ''/'' then {''/Users'', ''/Shared'', ''/Repos''} else {})"
proof -
  let ?s = "ws_store ws" and ?f = "default_filter\<lparr>f_parent := Some dir\<rparr>"
  have inv: "store_inv ?s" and docs: "\<And>d. d \<in> set (st_docs ?s) \<Longrightarrow> placed_doc d"
    using history_keeps_placed [OF assms(2,1)] by (auto simp: ws_placed_def list_all_iff)
  have rows: "set (store_list KIND_WS workspace_id ?f ?s) =
      {d \<in> set (st_docs ?s). row_matches (st_dialect ?s) KIND_WS workspace_id ?f d}"
    by (rule set_list_all [OF assms(3)]) (simp_all add: default_filter_def)
  have match: "row_matches (st_dialect ?s) KIND_WS workspace_id ?f d \<longleftrightarrow> d_kind d = KIND_WS \<and> ws_parent (d_id d) = Some dir"
    if "d \<in> set (st_docs ?s)" for d
    using docs [OF that] by (auto simp: row_matches_def placed_doc_def default_filter_def)
  obtain ds where ds: "try_map (decode_doc ws_of_json) (store_list KIND_WS workspace_id ?f ?s) = Inr ds"
      "map (\<lambda>x. wo_path (snd x)) ds = map d_id (store_list KIND_WS workspace_id ?f ?s)"
    using try_map_placed [of "store_list KIND_WS workspace_id ?f ?s"] rows docs match by auto
  have "d_id ` set (store_list KIND_WS workspace_id ?f ?s) = {p. store_get KIND_WS p ?s \<noteq> None \<and> ws_parent p = Some dir}"
    using match by (auto simp: rows store_get_None list_ex_iff is_key_def)
  moreover have "set (map (\<lambda>x. wo_path (snd x)) ds) = d_id ` set (store_list KIND_WS workspace_id ?f ?s)"
    by (simp only: ds(2) set_map)
  ultimately have paths: "wo_path ` snd ` set ds = {p. store_get KIND_WS p ?s \<noteq> None \<and> ws_parent p = Some dir}"
    by (simp add: image_image)
  show ?thesis
    using ds(1) assms(4) by (simp add: ws_list_def list_as_def tree_order_def paths_add_roots paths)
      (simp add: IMPLICIT_ROOTS_def)
qed

definition dir_made :: ws_state where
  "dir_made = snd (ws_mkdirs ''/a/b'' ''ann'' one_dir)"

theorem workspace_listing_exact_witness:
  "(\<exists>items. ws_list ''/a'' (ws_store dir_made) = Inr items \<and>
     set (map wo_path items) = {p. store_get KIND_WS p (ws_store dir_made) \<noteq> None \<and> ws_parent p = Some ''/a''}) \<and>
   (\<exists>items. ws_list ''/'' (ws_store dir_made) = Inr items \<and>
     set (map wo_path items) = {p. store_get KIND_WS p (ws_store dir_made) \<noteq> None \<and> ws_parent p = Some ''/''} \<union>
       {''/Users'', ''/Shared'', ''/Repos''})"
proof -
  let ?co = "\<lparr>co_decode = Inr, co_encode = \<lambda>s. s, co_utf8 = \<lambda>s. s, co_json = \<lambda>s. Inl s, co_pretty = \<lambda>v. []\<rparr> :: codecs"
  have a: "ws_placed one_dir" by code_simp
  have b: "(ws_step ?co)\<^sup>*\<^sup>* one_dir dir_made" unfolding dir_made_def by (intro r_into_rtranclp step_mkdirs)
  have c: "within_limit KIND_WS (ws_store dir_made)" by code_simp
  have "normalize ''/a'' = Inr ''/a''" "normalize ''/'' = Inr ''/''" by code_simp+
  with workspace_listing_exact [OF a b c, of "''/a''" "''/a''"] workspace_listing_exact [OF a b c, of "''/''" "''/''"]
  show ?thesis by simp
qed

section \<open>Runs of a notebook\<close>

definition runnable :: "notebook \<Rightarrow> cell list" where
  "runnable nb = filter (\<lambda>c. \<not> skipped_cell c) (nb_cells nb)"

fun exits :: "kernel_event list \<Rightarrow> bool" where
  "exits [] = False"
| "exits (EvExit v # es) = True"
| "exits (_ # es) = exits es"

text \<open>A cell after which the run goes on.\<close>

definition cell_passed :: "cell_run \<Rightarrow> bool" where
  "cell_passed c \<longleftrightarrow> cr_status c = Finished \<and> \<not> exits (cr_outputs c)"

lemma scan_exits: "(\<exists>v. fst (scan_outputs es err) = Some v) \<longleftrightarrow> exits es"
  by (induction es err rule: scan_outputs.induct) auto

text \<open>How a run may have ended, from its status and the cells it ran.\<close>

definition run_ended :: "(nat \<Rightarrow> bool) \<Rightarrow> cell list \<Rightarrow> string \<Rightarrow> cell_run list \<Rightarrow> bool" where
  "run_ended expired todo status did \<longleftrightarrow>
     map (\<lambda>c. (cr_cell_id c, cr_language c)) did = map (\<lambda>c. (ce_id c, ce_language c)) (take (length did) todo) \<and>
     length did \<le> length todo \<and> list_all cell_passed (butlast did) \<and>
     (if did \<noteq> [] \<and> exits (cr_outputs (last did)) then status = ''SUCCESS''
      else if list_all cell_passed did
      then (if length did = length todo then status = ''SUCCESS'' else expired (length did) \<and> status = ''TIMEDOUT'')
      else status = (if cr_status (last did) = Cancelled then ''CANCELED'' else ''FAILED''))"

lemma ended_now: "expired 0 \<and> todo \<noteq> [] \<Longrightarrow> run_ended expired todo ''TIMEDOUT'' []" "run_ended expired [] ''SUCCESS'' []"
  by (simp_all add: run_ended_def)

lemma ended_later:
  "\<lbrakk>run_ended (\<lambda>n. expired (Suc n)) todo status did; cell_passed x; cr_cell_id x = ce_id c; cr_language x = ce_language c\<rbrakk> \<Longrightarrow>
     run_ended expired (c # todo) status (x # did)"
  by (cases "did = []") (auto simp: run_ended_def cell_passed_def split: if_splits)

lemma run_cells_ended:
  assumes "run_cells run expired cs r = Inr r'" and "rn_status r = ''SUCCESS''"
  shows "\<exists>did. rn_cells r' = rn_cells r @ did \<and>
     run_ended (\<lambda>n. expired (length (rn_cells r) + n)) (filter (\<lambda>c. \<not> skipped_cell c) cs) (rn_status r') did"
  using assms
proof (induction cs arbitrary: r)
  case Nil
  then show ?case by (intro exI [of _ "[]"]) (auto simp: ended_now)
next
  case (Cons c cs)
  let ?n = "length (rn_cells r)"
  consider (skip) "skipped_cell c" | (late) "\<not> skipped_cell c" "expired ?n"
    | (ran) status outs where "\<not> skipped_cell c" "\<not> expired ?n" "run ?n c = Inr (status, outs)"
    using Cons.prems(1) by (auto split: if_splits sum.splits)
  then show ?case
  proof cases
    case skip
    with Cons show ?thesis by simp
  next
    case late
    then show ?thesis using Cons.prems by (intro exI [of _ "[]"]) (auto simp: ended_now)
  next
    case ran
    let ?x = "\<lparr>cr_cell_id = ce_id c, cr_language = ce_language c, cr_status = status, cr_outputs = outs\<rparr>"
    obtain o' err where scan: "scan_outputs outs (rn_error r) = (o', err)" by (cases "scan_outputs outs (rn_error r)")
    have ex: "exits outs \<longleftrightarrow> o' \<noteq> None" using scan_exits [of outs "rn_error r"] by (simp add: scan)
    show ?thesis
    proof (cases "cell_passed ?x")
      case True
      let ?r = "r\<lparr>rn_cells := rn_cells r @ [?x], rn_error := err\<rparr>"
      have "run_cells run expired cs ?r = Inr r'" using Cons.prems(1) ran scan True ex by (simp add: cell_passed_def)
      from Cons.IH [OF this] Cons.prems(2) obtain did where did: "rn_cells r' = rn_cells r @ ?x # did"
          "run_ended (\<lambda>n. expired (?n + Suc n)) (filter (\<lambda>c. \<not> skipped_cell c) cs) (rn_status r') did"
        by auto
      then show ?thesis
        using True ran(1) by (intro exI [of _ "?x # did"]) (simp add: ended_later)
    next
      case False
      have "rn_cells r' = rn_cells r @ [?x] \<and> rn_status r' =
          (if exits outs then ''SUCCESS'' else if status = Cancelled then ''CANCELED'' else ''FAILED'')"
        using Cons.prems ran scan False ex by (auto simp: cell_passed_def Let_def split: option.splits if_splits)
      with False ran(1) show ?thesis
        by (intro exI [of _ "[?x]"]) (simp add: run_ended_def)
    qed
  qed
qed

text \<open>C30: A run of a notebook records, in order, the cells that are not markdown and not blank, up to the one
  where it ended; every cell before that one finished without an exit. It succeeds exactly when all of
  them finished, or when the last one asked to exit, however that one ended otherwise; it times out only
  when the deadline has passed with cells still to run, and is cancelled or failed after the first cell
  that did not finish.\<close>

theorem notebook_run_exact:
  assumes "run_notebook_cells run expired nb = Inr r"
  shows "run_ended expired (runnable nb) (rn_status r) (rn_cells r)"
proof -
  let ?r0 = "\<lparr>rn_status = ''SUCCESS'', rn_result = None, rn_error = None, rn_cells = []\<rparr>"
  obtain r1 where r1: "run_cells run expired (nb_cells nb) ?r0 = Inr r1"
      "rn_cells r = rn_cells r1" "rn_status r = rn_status r1"
    using assms by (auto simp: run_notebook_cells_def try_then_Inr)
  with run_cells_ended [OF r1(1)] show ?thesis by (simp add: runnable_def)
qed

definition stopped_run :: "nat \<Rightarrow> cell \<Rightarrow> api_error + command_status \<times> kernel_event list" where
  "stopped_run n c = Inr (if n = 0 then (Finished, [EvStdout ''1'']) else (Error, [EvError ''E'' ''x'' []]))"

definition three_cells :: notebook where
  "three_cells = empty_notebook\<lparr>nb_cells := [new_cell ''a'' (''python'', ''x = 1''), new_cell ''b'' (''markdown'', ''text''),
     new_cell ''c'' (''sql'', ''SELECT 1''), new_cell ''d'' (''python'', ''y'')]\<rparr>"

theorem notebook_run_exact_witness:
  "run_ended (\<lambda>_. False) (runnable three_cells) (rn_status (projr (run_notebook_cells stopped_run (\<lambda>_. False) three_cells)))
     (rn_cells (projr (run_notebook_cells stopped_run (\<lambda>_. False) three_cells)))"
proof -
  have "run_notebook_cells stopped_run (\<lambda>_. False) three_cells = Inr (projr (run_notebook_cells stopped_run (\<lambda>_. False) three_cells))"
    by code_simp
  then show ?thesis by (rule notebook_run_exact)
qed

end
